(* ===== verification/Prelude.thy ===== *)
theory Prelude
  imports Main "HOL-Library.List_Lexorder" "HOL-Library.Char_ord"
begin

text \<open>
  Shared vocabulary of the development: what the TypeScript sources use of the JavaScript
  language and its standard library (thrown errors, insertion-ordered maps, sets, in-place
  update of a found array element, string tests), the generic lemmas on them, and the interface
  of a transactional store whose operations keep an invariant.

  Conventions. A value of a TypeScript type is a value of the corresponding HOL type, so a
  run-time test that only rejects values outside the declared type is discharged by typing;
  tests that restrict values inside the type are modelled. A thrown error is the left summand
  of a result. A canonical ISO timestamp is the instant it denotes, in milliseconds. Strings
  are sequences of 8-bit code units.
\<close>

section \<open>Errors and results\<close>

datatype failure =
    OperatorError string
  | PolicyError string
  | JsError string

type_synonym 'a result = "failure + 'a"

named_theorems js_defs \<open>definitions of the JavaScript primitives\<close>
named_theorems inv_lemmas \<open>preservation of the component invariants\<close>

section \<open>Arrays, sets and maps\<close>

text \<open>\<open>[...new Set(xs)]\<close>: the first occurrence of every element, in order.\<close>

definition js_set :: "'a list \<Rightarrow> 'a list" where
  "js_set xs = rev (remdups (rev xs))"

text \<open>\<open>[...new Set(xs)].sort()\<close> on strings, in code-unit order.\<close>

definition unique_sorted :: "string list \<Rightarrow> string list" where
  "unique_sorted xs = sort (remdups xs)"

text \<open>Mutating the object that \<open>array.find\<close> returned: the first match changes.\<close>

fun update_first :: "('a \<Rightarrow> bool) \<Rightarrow> ('a \<Rightarrow> 'a) \<Rightarrow> 'a list \<Rightarrow> 'a list" where
  "update_first p f [] = []"
| "update_first p f (x # xs) = (if p x then f x # xs else x # update_first p f xs)"

text \<open>\<open>xs.map(s => s.key === next.key ? next : s)\<close>.\<close>

definition replace_by :: "('a \<Rightarrow> 'k) \<Rightarrow> 'a \<Rightarrow> 'a list \<Rightarrow> 'a list" where
  "replace_by key y xs = map (\<lambda>x. if key x = key y then y else x) xs"

text \<open>An insertion-ordered \<open>Map\<close>: setting a present key keeps its position.\<close>

type_synonym ('k, 'v) jsmap = "('k \<times> 'v) list"

abbreviation jsmap_get :: "('k, 'v) jsmap \<Rightarrow> 'k \<Rightarrow> 'v option" where
  "jsmap_get \<equiv> map_of"

fun jsmap_set :: "('k, 'v) jsmap \<Rightarrow> 'k \<Rightarrow> 'v \<Rightarrow> ('k, 'v) jsmap" where
  "jsmap_set [] k v = [(k, v)]"
| "jsmap_set ((k', v') # m) k v =
     (if k' = k then (k, v) # m else (k', v') # jsmap_set m k v)"

definition jsmap_delete :: "('k, 'v) jsmap \<Rightarrow> 'k \<Rightarrow> ('k, 'v) jsmap" where
  "jsmap_delete m k = filter (\<lambda>(k', v). k' \<noteq> k) m"

text \<open>Sequencing of calls that may throw.\<close>

definition bind_result :: "'a result \<Rightarrow> ('a \<Rightarrow> 'b result) \<Rightarrow> 'b result" where
  "bind_result r f = (case r of Inl e \<Rightarrow> Inl e | Inr x \<Rightarrow> f x)"

text \<open>A checking loop that throws at the first offending element.\<close>

fun for_all_throw :: "('a \<Rightarrow> failure option) \<Rightarrow> 'a list \<Rightarrow> failure option" where
  "for_all_throw chk [] = None"
| "for_all_throw chk (x # xs) = (case chk x of Some e \<Rightarrow> Some e | None \<Rightarrow> for_all_throw chk xs)"

text \<open>\<open>array.map(f)\<close> where \<open>f\<close> may throw.\<close>

fun map_throw :: "('a \<Rightarrow> 'b result) \<Rightarrow> 'a list \<Rightarrow> 'b list result" where
  "map_throw f [] = Inr []"
| "map_throw f (x # xs) =
     (case f x of Inl e \<Rightarrow> Inl e
      | Inr y \<Rightarrow> (case map_throw f xs of Inl e \<Rightarrow> Inl e | Inr ys \<Rightarrow> Inr (y # ys)))"

text \<open>A loop over a list that updates a state and may throw; and the position of the first match.\<close>

fun fold_throw :: "('a \<Rightarrow> 's \<Rightarrow> 's result) \<Rightarrow> 'a list \<Rightarrow> 's \<Rightarrow> 's result" where
  "fold_throw f [] s = Inr s"
| "fold_throw f (x # xs) s = bind_result (f x s) (fold_throw f xs)"

fun index_of :: "('a \<Rightarrow> bool) \<Rightarrow> 'a list \<Rightarrow> nat option" where
  "index_of p [] = None"
| "index_of p (x # xs) = (if p x then Some 0 else map_option Suc (index_of p xs))"

section \<open>Strings\<close>

definition starts_with :: "string \<Rightarrow> string \<Rightarrow> bool" where
  "starts_with s p \<longleftrightarrow> take (length p) s = p"

definition ends_with :: "string \<Rightarrow> string \<Rightarrow> bool" where
  "ends_with s p \<longleftrightarrow> length p \<le> length s \<and> drop (length s - length p) s = p"

fun includes_str :: "string \<Rightarrow> string \<Rightarrow> bool" where
  "includes_str [] p = (p = [])"
| "includes_str (c # s) p = (starts_with (c # s) p \<or> includes_str s p)"

definition char_in :: "char \<Rightarrow> char \<Rightarrow> char \<Rightarrow> bool" where
  "char_in lo hi c \<longleftrightarrow> (of_char lo :: nat) \<le> of_char c \<and> (of_char c :: nat) \<le> of_char hi"

definition is_digit :: "char \<Rightarrow> bool" where
  "is_digit c = char_in (CHR ''0'') (CHR ''9'') c"

definition is_lower :: "char \<Rightarrow> bool" where
  "is_lower c = char_in (CHR ''a'') (CHR ''z'') c"

definition is_upper :: "char \<Rightarrow> bool" where
  "is_upper c = char_in (CHR ''A'') (CHR ''Z'') c"

definition is_hex_lower :: "char \<Rightarrow> bool" where
  "is_hex_lower c \<longleftrightarrow> is_digit c \<or> char_in (CHR ''a'') (CHR ''f'') c"

definition is_hex :: "char \<Rightarrow> bool" where
  "is_hex c \<longleftrightarrow> is_hex_lower c \<or> char_in (CHR ''A'') (CHR ''F'') c"

definition lower_char :: "char \<Rightarrow> char" where
  "lower_char c = (if is_upper c then char_of ((of_char c :: nat) + 32) else c)"

definition to_lower :: "string \<Rightarrow> string" where
  "to_lower s = map lower_char s"

text \<open>The characters \<open>String.prototype.trim\<close> strips, within 8-bit code units.\<close>

definition is_js_space :: "char \<Rightarrow> bool" where
  "is_js_space c \<longleftrightarrow> (of_char c :: nat) \<in> {9, 10, 11, 12, 13, 32, 160}"

definition js_trim :: "string \<Rightarrow> string" where
  "js_trim s = rev (dropWhile is_js_space (rev (dropWhile is_js_space s)))"

definition nul_char :: char where
  "nul_char = CHR 0x00"

text \<open>A number is a safe integer of JavaScript when its magnitude stays below 2 to the 53.\<close>

definition max_safe_integer :: int where
  "max_safe_integer = 9007199254740991"

definition is_safe_integer :: "int \<Rightarrow> bool" where
  "is_safe_integer n \<longleftrightarrow> - max_safe_integer \<le> n \<and> n \<le> max_safe_integer"

text \<open>A text that is present and not empty, as a truthiness test sees it.\<close>

definition truthy :: "string option \<Rightarrow> string option" where
  "truthy v = (case v of Some s \<Rightarrow> if s = [] then None else Some s | None \<Rightarrow> None)"

lemmas js_string_defs [js_defs] =
  starts_with_def ends_with_def char_in_def is_digit_def is_lower_def is_upper_def
  is_hex_lower_def is_hex_def lower_char_def to_lower_def is_js_space_def js_trim_def nul_char_def

section \<open>Lemmas on arrays, sets and maps\<close>

lemma set_js_set [simp]: "set (js_set xs) = set xs"
  by (simp add: js_set_def)

lemma distinct_js_set [simp]: "distinct (js_set xs)"
  by (simp add: js_set_def)

lemma set_unique_sorted [simp]: "set (unique_sorted xs) = set xs"
  by (simp add: unique_sorted_def)

lemma distinct_unique_sorted [simp]: "distinct (unique_sorted xs)"
  by (simp add: unique_sorted_def)

lemma sorted_unique_sorted [simp]: "sorted (unique_sorted xs)"
  by (simp add: unique_sorted_def)

lemma unique_sorted_Nil [simp]: "unique_sorted [] = []"
  by (simp add: unique_sorted_def)

lemma unique_sorted_eq_Nil_iff [simp]: "unique_sorted xs = [] \<longleftrightarrow> xs = []"
  by (metis set_empty set_unique_sorted)

lemma map_update_first:
  "(\<And>x. key (f x) = key x) \<Longrightarrow> map key (update_first p f xs) = map key xs"
  by (induction xs) auto

lemma length_update_first [simp]: "length (update_first p f xs) = length xs"
  by (induction xs) auto

lemma update_first_none: "\<forall>x\<in>set xs. \<not> p x \<Longrightarrow> update_first p f xs = xs"
  by (induction xs) auto

lemma set_update_first_subset:
  "y \<in> set (update_first p f xs) \<Longrightarrow> y \<in> set xs \<or> (\<exists>x\<in>set xs. p x \<and> y = f x)"
  by (induction xs) (auto split: if_splits)

text \<open>With unique keys, updating the element with key \<open>k\<close> is a pointwise map.\<close>

lemma update_first_distinct:
  "distinct (map key xs) \<Longrightarrow>
   update_first (\<lambda>x. key x = k) f xs = map (\<lambda>x. if key x = k then f x else x) xs"
proof (induction xs)
  case (Cons x xs)
  show ?case
  proof (cases "key x = k")
    case True
      with Cons.prems have "k \<notin> key ` set xs" by auto
    then have "\<forall>y\<in>set xs. key y \<noteq> k" by blast
    then have "map (\<lambda>x. if key x = k then f x else x) xs = xs" by (induction xs) auto
    with True show ?thesis by simp
  next
    case False
    with Cons show ?thesis by simp
  qed
qed simp

lemma map_replace_by [simp]: "map key (replace_by key y xs) = map key xs"
  by (auto simp: replace_by_def)

lemma set_replace_by:
  "set (replace_by key y xs) =
     {x \<in> set xs. key x \<noteq> key y} \<union> (if key y \<in> key ` set xs then {y} else {})"
  by (auto simp: replace_by_def image_iff)

lemma find_Some_iff_distinct:
  "distinct (map key xs) \<Longrightarrow>
   find (\<lambda>x. key x = k) xs = Some x \<longleftrightarrow> x \<in> set xs \<and> key x = k"
  by (induction xs) (auto simp: image_iff)

lemma find_SomeD: "find p xs = Some x \<Longrightarrow> x \<in> set xs \<and> p x"
  by (induction xs) (auto split: if_splits)

lemma find_None_iff_all: "find p xs = None \<longleftrightarrow> (\<forall>x\<in>set xs. \<not> p x)"
  by (auto simp: find_None_iff)

lemma find_append_None: "find p xs = None \<Longrightarrow> find p (xs @ ys) = find p ys"
  by (induction xs) (auto split: if_splits)

lemma find_replace_by_other:
  "k \<noteq> key y \<Longrightarrow> find (\<lambda>x. key x = k) (replace_by key y xs) = find (\<lambda>x. key x = k) xs"
  by (induction xs) (auto simp: replace_by_def)

lemma find_replace_by_same:
  "key y \<in> key ` set xs \<Longrightarrow> find (\<lambda>x. key x = key y) (replace_by key y xs) = Some y"
  by (induction xs) (auto simp: replace_by_def)

lemma get_jsmap_set [simp]: "jsmap_get (jsmap_set m k v) = (jsmap_get m)(k \<mapsto> v)"
  by (induction m k v rule: jsmap_set.induct) (auto simp: fun_eq_iff)

lemma get_jsmap_delete [simp]: "jsmap_get (jsmap_delete m k) = (jsmap_get m)(k := None)"
  by (induction m) (auto simp: jsmap_delete_def fun_eq_iff)

lemma keys_jsmap_set:
  "map fst (jsmap_set m k v) =
     (if k \<in> fst ` set m then map fst m else map fst m @ [k])"
  by (induction m k v rule: jsmap_set.induct) auto

lemma distinct_jsmap_set [simp]:
  "distinct (map fst m) \<Longrightarrow> distinct (map fst (jsmap_set m k v))"
  by (simp add: keys_jsmap_set)

lemma distinct_jsmap_delete [simp]:
  "distinct (map fst m) \<Longrightarrow> distinct (map fst (jsmap_delete m k))"
  unfolding jsmap_delete_def by (rule distinct_map_filter)

lemma length_jsmap_delete_le: "length (jsmap_delete m k) \<le> length m"
  by (simp add: jsmap_delete_def)

lemma jsmap_set_fresh: "k \<notin> fst ` set m \<Longrightarrow> jsmap_set m k v = m @ [(k, v)]"
  by (induction m k v rule: jsmap_set.induct) auto

lemma jsmap_set_last: "k \<notin> fst ` set m \<Longrightarrow> jsmap_set (m @ [(k, v)]) k w = m @ [(k, w)]"
  by (induction m) auto

lemma length_jsmap_set:
  "length (jsmap_set m k v) = (if k \<in> fst ` set m then length m else Suc (length m))"
  by (induction m k v rule: jsmap_set.induct) auto

lemma starts_with_iff: "starts_with s p \<longleftrightarrow> (\<exists>t. s = p @ t)"
  by (auto simp: starts_with_def) (metis append_take_drop_id)

lemma starts_with_appendD: "starts_with s (p @ q) \<Longrightarrow> starts_with s p"
  by (auto simp: starts_with_iff)

lemma starts_with_refl [simp]: "starts_with s s"
  by (simp add: starts_with_def)

lemma bind_result_Inr: "bind_result r f = Inr y \<longleftrightarrow> (\<exists>x. r = Inr x \<and> f x = Inr y)"
  by (auto simp: bind_result_def split: sum.splits)

lemma bind_result_Inr_left: "bind_result (Inr x) f = f x"
  by (simp add: bind_result_def)

lemma for_all_throw_None_iff:
  "for_all_throw chk xs = None \<longleftrightarrow> (\<forall>x\<in>set xs. chk x = None)"
  by (induction xs) (auto split: option.splits)

lemma map_throw_Inr_iff:
  "map_throw f xs = Inr ys \<longleftrightarrow> list_all2 (\<lambda>x y. f x = Inr y) xs ys"
proof (induction xs arbitrary: ys)
  case Nil
  then show ?case by auto
next
  case (Cons x xs)
  show ?case
  proof (cases "f x")
    case (Inr y)
    show ?thesis
    proof (cases "map_throw f xs")
      case (Inl e)
      then have "\<And>zs. \<not> list_all2 (\<lambda>x y. f x = Inr y) xs zs" using Cons.IH by auto
      with Inl Inr show ?thesis by (auto simp: list_all2_Cons1)
    next
      case (Inr zs)
      with Cons.IH \<open>f x = Inr y\<close> show ?thesis by (auto simp: list_all2_Cons1)
    qed
  qed (auto simp: list_all2_Cons1)
qed

lemma map_throw_length: "map_throw f xs = Inr ys \<Longrightarrow> length ys = length xs"
  by (auto simp: map_throw_Inr_iff dest: list_all2_lengthD)

lemma map_throw_set:
  assumes "map_throw f xs = Inr ys"
  shows "y \<in> set ys \<longleftrightarrow> (\<exists>x\<in>set xs. f x = Inr y)"
  using assms by (induction xs arbitrary: ys) (auto split: sum.splits)

lemma map_throw_total: "(\<And>x. x \<in> set xs \<Longrightarrow> \<exists>y. f x = Inr y) \<Longrightarrow> \<exists>ys. map_throw f xs = Inr ys"
  by (induction xs) (force split: sum.splits)+

lemma map_throw_Inl: "map_throw f xs = Inl e \<Longrightarrow> \<exists>x\<in>set xs. f x = Inl e"
  by (induction xs) (auto split: sum.splits)

lemma fold_throw_inv:
  assumes "fold_throw f xs s = Inr s'" "P s" "\<And>x s s'. x \<in> set xs \<Longrightarrow> P s \<Longrightarrow> f x s = Inr s' \<Longrightarrow> P s'"
  shows "P s'"
  using assms by (induction xs arbitrary: s) (auto simp: bind_result_Inr)

lemma fold_throw_append: "fold_throw f (xs @ ys) s = bind_result (fold_throw f xs s) (fold_throw f ys)"
  by (induction xs arbitrary: s) (auto simp: bind_result_def split: sum.splits)

lemma index_of_SomeD: "index_of p xs = Some i \<Longrightarrow> i < length xs \<and> p (xs ! i)"
  by (induction xs arbitrary: i) (auto split: if_splits)

section \<open>Interface of a transactional store\<close>

text \<open>
  The durable stores apply an operation to a private copy of the state and write it back only
  when the operation did not throw. \<open>run_ops\<close> runs a sequence of operations that way.
\<close>

fun run_ops :: "('s \<Rightarrow> 'e \<Rightarrow> 's result) \<Rightarrow> 's \<Rightarrow> 'e list \<Rightarrow> 's" where
  "run_ops step s [] = s"
| "run_ops step s (e # es) =
     run_ops step (case step s e of Inl _ \<Rightarrow> s | Inr s' \<Rightarrow> s') es"

text \<open>Every operation of the sequence is admissible in the state it is run in.\<close>

fun all_admissible ::
  "('s \<Rightarrow> 'e \<Rightarrow> bool) \<Rightarrow> ('s \<Rightarrow> 'e \<Rightarrow> 's result) \<Rightarrow> 's \<Rightarrow> 'e list \<Rightarrow> bool" where
  "all_admissible adm step s [] = True"
| "all_admissible adm step s (e # es) =
     (adm s e \<and> all_admissible adm step (case step s e of Inl _ \<Rightarrow> s | Inr s' \<Rightarrow> s') es)"

locale transactional_store =
  fixes step :: "'s \<Rightarrow> 'e \<Rightarrow> 's result"
    and inv :: "'s \<Rightarrow> bool"
    and admissible :: "'s \<Rightarrow> 'e \<Rightarrow> bool"
  assumes step_inv: "inv s \<Longrightarrow> admissible s e \<Longrightarrow> step s e = Inr s' \<Longrightarrow> inv s'"
begin

lemma run_inv: "inv s \<Longrightarrow> all_admissible admissible step s es \<Longrightarrow> inv (run_ops step s es)"
proof (induction es arbitrary: s)
  case (Cons e es)
  have "inv (case step s e of Inl _ \<Rightarrow> s | Inr s' \<Rightarrow> s')"
    using Cons.prems step_inv by (auto split: sum.splits)
  with Cons show ?case by simp
qed simp

end

end
