(* ===== verification/ActionModel.thy ===== *)
theory ActionModel
  imports Prelude
begin

text \<open>
  The data every component exchanges (\<open>src/core/types.ts\<close>), the fail-closed classification of
  side effects (\<open>side-effect.ts\<close>), the instruction-provenance boundary (\<open>provenance.ts\<close>) and
  the canonical risk of a capability with the registry of extension capabilities
  (\<open>capability-policy.ts\<close>).
\<close>

section \<open>Data\<close>

text \<open>A value of type \<open>unknown\<close> after JSON; an absent field is \<open>None\<close>.\<close>

datatype json = JNull | JBool bool | JNum int | JStr string | JArr "json list" | JObj "(string \<times> json) list"

type_synonym json_record = "(string \<times> json) list"

datatype ActionRisk = Read | Write | External | System | Destructive

datatype SideEffectState = SeNone | SeKnown | SeUncertain

datatype ExecutionPhase = PreDispatch | Dispatched | EffectObserved | Reconciled

datatype TaskState = PENDING | RUNNING | PAUSED | CANCELLED | BLOCKED | FAILED | VERIFIED | SKIPPED

datatype EvidenceStatus = EvPass | EvFail | EvInfo

datatype ProvenanceKind = PUser | PChatgpt | PTrustedPolicy | PRuntime | PWebsite | PFile | PApplication | PTerminal

record Provenance =
  pv_kind :: ProvenanceKind
  pv_source :: "string option"

record Evidence =
  ev_kind :: string
  ev_status :: EvidenceStatus
  ev_message :: string
  ev_data :: "json_record option"
  ev_timestamp :: int

record IntentBinding =
  ib_conversationId :: string
  ib_intentVersion :: int
  ib_digest :: string

record ActionRequest =
  aq_id :: string
  aq_capability :: string
  aq_risk :: ActionRisk
  aq_input :: json_record
  aq_provenance :: Provenance
  aq_taskId :: "string option"
  aq_target :: "string option"
  aq_intent :: "IntentBinding option"

record ActionError =
  ae_code :: string
  ae_message :: string
  ae_retryable :: "bool option"
  ae_sideEffectState :: "SideEffectState option"
  ae_executionPhase :: "ExecutionPhase option"
  ae_details :: "json_record option"

record ActionResult =
  ar_ok :: bool
  ar_capability :: string
  ar_provider :: string
  ar_output :: "json option"
  ar_evidence :: "Evidence list"
  ar_error :: "ActionError option"
  ar_durationMs :: int

record PermissionProfile =
  pp_allowedCapabilities :: "string list"
  pp_allowedRoots :: "string list"
  pp_maxRisk :: "ActionRisk option"
  pp_approvedActionIds :: "string list option"
  pp_allowExternalWrites :: "bool option"
  pp_allowSystemChanges :: "bool option"
  pp_allowDestructive :: "bool option"
  pp_enterprisePolicyDigest :: "string option"
  pp_enterprisePolicyGeneration :: "int option"

text \<open>\<open>verdict\<close> of \<open>evidence.ts\<close>: verified unless some item failed.\<close>

definition verdict_verified :: "Evidence list \<Rightarrow> bool" where
  "verdict_verified items \<longleftrightarrow> \<not> list_ex (\<lambda>item. ev_status item = EvFail) items"

section \<open>Provenance\<close>

definition isObservedContent :: "Provenance \<Rightarrow> bool" where
  "isObservedContent p \<longleftrightarrow> pv_kind p \<notin> {PUser, PChatgpt, PTrustedPolicy, PRuntime}"

definition assertInstructionAuthority :: "Provenance \<Rightarrow> unit result" where
  "assertInstructionAuthority p =
     (if pv_kind p \<notin> {PUser, PChatgpt, PTrustedPolicy, PRuntime}
      then Inl (PolicyError ''UNTRUSTED_INSTRUCTION_SOURCE'') else Inr ())"

section \<open>Side effects\<close>

definition phase_of_json :: "json \<Rightarrow> ExecutionPhase option" where
  "phase_of_json v =
     (if v = JStr ''pre_dispatch'' then Some PreDispatch
      else if v = JStr ''dispatched'' then Some Dispatched
      else if v = JStr ''effect_observed'' then Some EffectObserved
      else if v = JStr ''reconciled'' then Some Reconciled else None)"

text \<open>The phase a provider put into the free-form details, when it is a well-formed one.\<close>

definition details_phase :: "ActionResult \<Rightarrow> ExecutionPhase option" where
  "details_phase result =
     (case ar_error result of None \<Rightarrow> None
      | Some err \<Rightarrow> (case ae_details err of None \<Rightarrow> None
         | Some details \<Rightarrow> (case map_of details ''executionPhase'' of None \<Rightarrow> None
            | Some v \<Rightarrow> phase_of_json v)))"

definition conservativeExecutionPhase :: "ActionResult \<Rightarrow> ExecutionPhase" where
  "conservativeExecutionPhase result =
     (if ar_ok result then EffectObserved
      else case Option.bind (ar_error result) ae_executionPhase of
             Some phase \<Rightarrow> phase
           | None \<Rightarrow>
               (case details_phase result of Some phase \<Rightarrow> phase
                | None \<Rightarrow> (if ar_provider result = ''policy'' \<or> ar_provider result = ''router''
                           then PreDispatch else Dispatched)))"

definition conservativeSideEffectState :: "ActionRisk \<Rightarrow> ActionResult \<Rightarrow> SideEffectState" where
  "conservativeSideEffectState risk result =
     (if risk = Read then SeNone
      else if conservativeExecutionPhase result = PreDispatch then SeNone
      else if ar_ok result then SeKnown
      else case Option.bind (ar_error result) ae_sideEffectState of
             Some st \<Rightarrow> st
           | None \<Rightarrow> (if ar_provider result = ''policy'' \<or> ar_provider result = ''router''
                      then SeNone else SeUncertain))"

definition retrySafeWithoutReconciliation :: "ActionRisk \<Rightarrow> SideEffectState \<Rightarrow> bool" where
  "retrySafeWithoutReconciliation risk st \<longleftrightarrow> risk = Read \<or> st = SeNone"

definition requiresReconciliation :: "ActionRisk \<Rightarrow> SideEffectState \<Rightarrow> bool" where
  "requiresReconciliation risk st \<longleftrightarrow> risk \<noteq> Read \<and> st = SeUncertain"

section \<open>Canonical risks\<close>

datatype CapabilityRiskRule = Fixed ActionRisk | Dynamic

definition CAPABILITY_RISK_RULES :: "(string \<times> CapabilityRiskRule) list" where
  "CAPABILITY_RISK_RULES =
    [(''computer.inspect'', Fixed Read),
     (''project.inspect'', Fixed Read),
     (''project.command.inspect'', Fixed Read),
     (''project.command.run'', Dynamic),
     (''project.transaction.run'', Fixed Destructive),
     (''workspace.edit.transaction'', Fixed Write),
     (''workspace.edit.rollback'', Fixed Destructive),
     (''workspace.edit.resolve_lsp'', Fixed Read),
     (''workspace.worktree.create'', Fixed Write),
     (''workspace.worktree.inspect'', Fixed Read),
     (''workspace.worktree.release'', Fixed Destructive),
     (''file.read'', Fixed Read),
     (''file.list'', Fixed Read),
     (''file.write'', Fixed Write),
     (''file.create'', Fixed Write),
     (''file.replace'', Fixed Destructive),
     (''file.info'', Fixed Read),
     (''file.search'', Fixed Read),
     (''file.manage'', Dynamic),
     (''git.status'', Fixed Read),
     (''git.diff'', Fixed Read),
     (''git.rev-parse'', Fixed Read),
     (''git.checkpoint.inspect'', Fixed Read),
     (''git.checkpoint.create'', Fixed Write),
     (''git.checkpoint.restore'', Fixed Destructive),
     (''git.write'', Fixed Write),
     (''docker.inspect'', Fixed Read),
     (''docker.manage'', Fixed System),
     (''compute.run'', Fixed Write),
     (''postgres.inspect'', Fixed Read),
     (''postgres.select'', Fixed Read),
     (''vscode.inspect'', Fixed Read),
     (''vscode.open'', Fixed System),
     (''terminal.execute'', Fixed Destructive),
     (''terminal.session'', Dynamic),
     (''process.inspect'', Fixed Read),
     (''process.manage'', Fixed Destructive),
     (''browser.inspect'', Fixed Read),
     (''browser.verify'', Fixed Read),
     (''browser.navigate'', Fixed Write),
     (''browser.interact'', Fixed External),
     (''browser.tab.focus'', Fixed Write),
     (''browser.tab.close'', Fixed Destructive),
     (''app.inspect'', Fixed Read),
     (''app.operate'', Fixed External),
     (''visual.capture'', Fixed Read),
     (''input.operate'', Fixed External),
     (''perception.observe'', Fixed Write),
     (''perception.ground'', Fixed Read),
     (''document.inspect'', Fixed Read),
     (''document.extract'', Fixed Read),
     (''document.render'', Fixed Read),
     (''structured.inspect'', Fixed Read),
     (''structured.extract'', Fixed Read),
     (''structured.render'', Fixed Read)]"

record ExtensionRiskRegistration =
  er_rule :: CapabilityRiskRule
  er_owner :: string
  er_leases :: int

type_synonym extension_registry = "(string, ExtensionRiskRegistration) jsmap"

definition isBuiltInCapability :: "string \<Rightarrow> bool" where
  "isBuiltInCapability capability \<longleftrightarrow> capability \<in> fst ` set CAPABILITY_RISK_RULES"

record extension_risk_input =
  xi_capability :: string
  xi_rule :: CapabilityRiskRule
  xi_extensionId :: string
  xi_owner :: string

text \<open>The closure \<open>registerExtensionCapabilityRisk\<close> returns, with its \<open>released\<close> flag.\<close>

record risk_lease =
  rk_capability :: string
  rk_owner :: string
  rk_released :: bool

definition ext_id_char :: "char \<Rightarrow> bool" where
  "ext_id_char c \<longleftrightarrow> is_lower c \<or> is_digit c \<or> c \<in> set ''._-''"

definition valid_extension_id :: "string \<Rightarrow> bool" where
  "valid_extension_id s \<longleftrightarrow>
     s \<noteq> [] \<and> (is_lower (hd s) \<or> is_digit (hd s)) \<and> length s \<le> 128 \<and> list_all ext_id_char (tl s)"

definition cap_start_char :: "char \<Rightarrow> bool" where
  "cap_start_char c \<longleftrightarrow> is_lower c \<or> is_upper c \<or> is_digit c"

definition valid_extension_capability :: "string \<Rightarrow> bool" where
  "valid_extension_capability s \<longleftrightarrow>
     s \<noteq> [] \<and> cap_start_char (hd s) \<and> 2 \<le> length s \<and> length s \<le> 256
     \<and> list_all (\<lambda>c. cap_start_char c \<or> c \<in> set ''._:-'') (tl s)"

definition lower_sha256_text :: "string \<Rightarrow> bool" where
  "lower_sha256_text s \<longleftrightarrow> length s = 64 \<and> list_all is_hex_lower s"

definition registerExtensionCapabilityRisk ::
  "extension_registry \<Rightarrow> extension_risk_input \<Rightarrow> (risk_lease \<times> extension_registry) result" where
  "registerExtensionCapabilityRisk reg input =
     (let capability = xi_capability input; owner = xi_owner input;
          expectedPrefix = ''ext.'' @ xi_extensionId input @ ''.'' in
      if \<not> valid_extension_id (xi_extensionId input)
      then Inl (PolicyError ''CAPABILITY_EXTENSION_NAMESPACE_INVALID'')
      else if \<not> starts_with capability expectedPrefix \<or> \<not> valid_extension_capability capability
      then Inl (PolicyError ''CAPABILITY_EXTENSION_NAMESPACE_INVALID'')
      else if isBuiltInCapability capability
      then Inl (PolicyError ''CAPABILITY_EXTENSION_SHADOW_DENIED'')
      else if \<not> lower_sha256_text owner
      then Inl (PolicyError ''CAPABILITY_EXTENSION_OWNER_INVALID'')
      else
        (let handle = \<lparr>rk_capability = capability, rk_owner = owner, rk_released = False\<rparr> in
         case jsmap_get reg capability of
           Some existing \<Rightarrow>
             (if er_rule existing \<noteq> xi_rule input \<or> er_owner existing \<noteq> owner
              then Inl (PolicyError ''CAPABILITY_EXTENSION_RISK_CONFLICT'')
              else Inr (handle, jsmap_set reg capability (existing\<lparr>er_leases := er_leases existing + 1\<rparr>)))
         | None \<Rightarrow>
             Inr (handle, jsmap_set reg capability
                    \<lparr>er_rule = xi_rule input, er_owner = owner, er_leases = 1\<rparr>)))"

definition releaseExtensionCapabilityRisk ::
  "extension_registry \<Rightarrow> risk_lease \<Rightarrow> risk_lease \<times> extension_registry" where
  "releaseExtensionCapabilityRisk reg handle =
     (if rk_released handle then (handle, reg)
      else (handle\<lparr>rk_released := True\<rparr>,
            case jsmap_get reg (rk_capability handle) of None \<Rightarrow> reg
            | Some current \<Rightarrow>
                (if er_owner current \<noteq> rk_owner handle then reg
                 else if er_leases current \<le> 1 then jsmap_delete reg (rk_capability handle)
                 else jsmap_set reg (rk_capability handle)
                        (current\<lparr>er_leases := er_leases current - 1\<rparr>))))"

definition capabilityRiskRule :: "extension_registry \<Rightarrow> string \<Rightarrow> CapabilityRiskRule result" where
  "capabilityRiskRule reg capability =
     (if capability = [] \<or> length capability > 256
      then Inl (PolicyError ''CAPABILITY_RISK_UNREGISTERED'')
      else case map_of CAPABILITY_RISK_RULES capability of
             Some rule \<Rightarrow> Inr rule
           | None \<Rightarrow> (case jsmap_get reg capability of
               Some registration \<Rightarrow> Inr (er_rule registration)
             | None \<Rightarrow> Inl (PolicyError ''CAPABILITY_RISK_UNREGISTERED'')))"

definition assertCanonicalRisk :: "ActionRequest \<Rightarrow> ActionRisk \<Rightarrow> unit result" where
  "assertCanonicalRisk action canonicalRisk =
     (if aq_risk action = canonicalRisk then Inr () else Inl (PolicyError ''ACTION_RISK_MISMATCH''))"

section \<open>Histories of the extension registry\<close>

text \<open>The module-level map together with the closures handed out so far.\<close>

type_synonym registry_state = "extension_registry \<times> risk_lease list"

datatype registry_op = RegisterExt extension_risk_input | ReleaseExt nat

fun registry_step :: "registry_state \<Rightarrow> registry_op \<Rightarrow> registry_state result" where
  "registry_step (reg, handles) (RegisterExt input) =
     (case registerExtensionCapabilityRisk reg input of Inl e \<Rightarrow> Inl e
      | Inr (handle, reg') \<Rightarrow> Inr (reg', handles @ [handle]))"
| "registry_step (reg, handles) (ReleaseExt i) =
     (if i < length handles
      then (let (handle, reg') = releaseExtensionCapabilityRisk reg (handles ! i)
            in Inr (reg', handles[i := handle]))
      else Inr (reg, handles))"

text \<open>The open closures of a capability, and the number of leases its registration counts.\<close>

definition open_leases :: "risk_lease list \<Rightarrow> string \<Rightarrow> risk_lease list" where
  "open_leases handles cap = filter (\<lambda>h. rk_capability h = cap \<and> \<not> rk_released h) handles"

definition lease_count :: "extension_registry \<Rightarrow> string \<Rightarrow> int" where
  "lease_count reg cap = (case jsmap_get reg cap of None \<Rightarrow> 0 | Some r \<Rightarrow> er_leases r)"

definition registry_inv :: "registry_state \<Rightarrow> bool" where
  "registry_inv st \<longleftrightarrow> (case st of (reg, handles) \<Rightarrow>
     (\<forall>cap. lease_count reg cap = int (length (open_leases handles cap)))
     \<and> (\<forall>cap r. jsmap_get reg cap = Some r \<longrightarrow>
          1 \<le> er_leases r \<and> \<not> isBuiltInCapability cap \<and> starts_with cap ''ext.''
          \<and> (\<forall>h\<in>set (open_leases handles cap). rk_owner h = er_owner r)))"

lemma register_cases:
  assumes "registerExtensionCapabilityRisk reg input = Inr (handle, reg')"
  obtains "handle = \<lparr>rk_capability = xi_capability input, rk_owner = xi_owner input, rk_released = False\<rparr>"
    and "\<not> isBuiltInCapability (xi_capability input)" and "starts_with (xi_capability input) ''ext.''"
    and "\<exists>r. reg' = jsmap_set reg (xi_capability input) r
             \<and> er_owner r = xi_owner input \<and> er_leases r = lease_count reg (xi_capability input) + 1
             \<and> (\<forall>r0. jsmap_get reg (xi_capability input) = Some r0 \<longrightarrow> er_owner r0 = xi_owner input)"
proof -
  have "starts_with (xi_capability input) ((''ext.'' @ xi_extensionId input) @ ''.'')"
    using assms by (simp add: registerExtensionCapabilityRisk_def Let_def split: if_splits)
  then have "starts_with (xi_capability input) ''ext.''" by (blast dest: starts_with_appendD)
  moreover have "\<not> isBuiltInCapability (xi_capability input)"
    using assms by (simp add: registerExtensionCapabilityRisk_def Let_def split: if_splits)
  ultimately show ?thesis
    using that assms
    by (simp add: registerExtensionCapabilityRisk_def lease_count_def Let_def
        split: if_splits option.splits) (force+)?
qed

lemma open_leases_append:
  "open_leases (handles @ [h]) cap =
     open_leases handles cap @ (if rk_capability h = cap \<and> \<not> rk_released h then [h] else [])"
  by (simp add: open_leases_def)

lemma registry_step_register_inv:
  assumes inv: "registry_inv (reg, handles)"
    and reg: "registerExtensionCapabilityRisk reg input = Inr (handle, reg')"
  shows "registry_inv (reg', handles @ [handle])"
proof -
  let ?cap = "xi_capability input"
  obtain r where h: "handle = \<lparr>rk_capability = ?cap, rk_owner = xi_owner input, rk_released = False\<rparr>"
    and nb: "\<not> isBuiltInCapability ?cap" "starts_with ?cap ''ext.''"
    and reg': "reg' = jsmap_set reg ?cap r" "er_owner r = xi_owner input"
      "er_leases r = lease_count reg ?cap + 1"
    and own: "\<forall>r0. jsmap_get reg ?cap = Some r0 \<longrightarrow> er_owner r0 = xi_owner input"
    using register_cases [OF reg] by metis
  have owners: "\<forall>h\<in>set (open_leases handles ?cap). rk_owner h = xi_owner input"
  proof (cases "jsmap_get reg ?cap")
    case None
    then have "lease_count reg ?cap = 0" by (simp add: lease_count_def)
    then have "open_leases handles ?cap = []" using inv by (simp add: registry_inv_def)
    then show ?thesis by simp
  next
    case (Some r0)
    then show ?thesis using inv own by (auto simp: registry_inv_def)
  qed
  show ?thesis
    using inv nb reg' owners
    by (auto simp: registry_inv_def h open_leases_append lease_count_def split: if_splits option.splits)
qed

text \<open>Closing an open closure removes exactly it from the open closures of its capability.\<close>

lemma open_leases_close:
  assumes "i < length handles" and "\<not> rk_released (handles ! i)"
  shows "length (open_leases handles (rk_capability (handles ! i))) =
         Suc (length (open_leases (handles[i := (handles ! i)\<lparr>rk_released := True\<rparr>])
                        (rk_capability (handles ! i))))"
    and "cap \<noteq> rk_capability (handles ! i) \<Longrightarrow>
         open_leases (handles[i := (handles ! i)\<lparr>rk_released := True\<rparr>]) cap = open_leases handles cap"
    and "set (open_leases (handles[i := (handles ! i)\<lparr>rk_released := True\<rparr>]) cap)
         \<subseteq> set (open_leases handles cap)"
proof -
  let ?h = "(handles ! i)\<lparr>rk_released := True\<rparr>"
  have old: "handles = take i handles @ handles ! i # drop (Suc i) handles"
    using assms(1) by (rule id_take_nth_drop)
  have new: "handles[i := ?h] = take i handles @ ?h # drop (Suc i) handles"
    using assms(1) by (rule upd_conv_take_nth_drop)
  have split_old: "open_leases handles c = open_leases (take i handles) c @
      (if rk_capability (handles ! i) = c then [handles ! i] else []) @ open_leases (drop (Suc i) handles) c" for c
    using assms(2) by (subst old) (simp add: open_leases_def)
  have split_new: "open_leases (handles[i := ?h]) c =
      open_leases (take i handles) c @ open_leases (drop (Suc i) handles) c" for c
    by (subst new) (simp add: open_leases_def)
  show "length (open_leases handles (rk_capability (handles ! i))) =
         Suc (length (open_leases (handles[i := ?h]) (rk_capability (handles ! i))))"
    by (simp add: split_old split_new)
  show "cap \<noteq> rk_capability (handles ! i) \<Longrightarrow> open_leases (handles[i := ?h]) cap = open_leases handles cap"
    by (simp add: split_old split_new)
  show "set (open_leases (handles[i := ?h]) cap) \<subseteq> set (open_leases handles cap)"
    by (auto simp: split_old split_new)
qed

lemma registry_step_release_inv:
  assumes inv: "registry_inv (reg, handles)" and i: "i < length handles"
    and rel: "releaseExtensionCapabilityRisk reg (handles ! i) = (h', reg')"
  shows "registry_inv (reg', handles[i := h'])"
proof (cases "rk_released (handles ! i)")
  case True
  then have "h' = handles ! i" "reg' = reg" using rel by (simp_all add: releaseExtensionCapabilityRisk_def)
  then show ?thesis using inv by simp
next
  case False
  let ?h = "handles ! i" and ?cap = "rk_capability (handles ! i)"
  note close = open_leases_close [OF i False]
  have mem: "?h \<in> set (open_leases handles ?cap)" using i False by (simp add: open_leases_def)
  then have "0 < lease_count reg ?cap"
    using inv by (auto simp: registry_inv_def dest: length_pos_if_in_set)
  then obtain r where r: "jsmap_get reg ?cap = Some r" by (auto simp: lease_count_def split: option.splits)
  with inv mem have own: "rk_owner ?h = er_owner r" and pos: "1 \<le> er_leases r"
    and len: "er_leases r = int (length (open_leases handles ?cap))"
    by (auto simp: registry_inv_def lease_count_def split: option.splits)
  have h': "h' = ?h\<lparr>rk_released := True\<rparr>"
    and reg': "reg' = (if er_leases r \<le> 1 then jsmap_delete reg ?cap
                       else jsmap_set reg ?cap (r\<lparr>er_leases := er_leases r - 1\<rparr>))"
    using rel False r own by (auto simp: releaseExtensionCapabilityRisk_def)
  have count: "lease_count reg' c = int (length (open_leases (handles[i := h']) c))" for c
  proof (cases "c = ?cap")
    case True
    then show ?thesis using close(1) len pos by (auto simp: lease_count_def reg' h')
  next
    case other: False
    then have "lease_count reg' c = lease_count reg c" by (auto simp: lease_count_def reg')
    then show ?thesis using inv close(2) [OF other] by (simp add: registry_inv_def h')
  qed
  moreover have "1 \<le> er_leases r' \<and> \<not> isBuiltInCapability c \<and> starts_with c ''ext.''
      \<and> (\<forall>h\<in>set (open_leases (handles[i := h']) c). rk_owner h = er_owner r')"
    if "jsmap_get reg' c = Some r'" for c r'
  proof -
    have "\<exists>r0. jsmap_get reg c = Some r0 \<and> er_owner r0 = er_owner r' \<and> 1 \<le> er_leases r'"
    proof (cases "c = ?cap")
      case True
      then show ?thesis using that r by (auto simp: reg' split: if_splits)
    next
      case False
      then have "jsmap_get reg c = Some r'" using that by (auto simp: reg' split: if_splits)
      then show ?thesis using inv by (simp add: registry_inv_def)
    qed
    then obtain r0 where "jsmap_get reg c = Some r0" "er_owner r0 = er_owner r'" "1 \<le> er_leases r'"
      by blast
    then show ?thesis using inv close(3) [of c] by (auto simp: registry_inv_def h')
  qed
  ultimately show ?thesis by (simp add: registry_inv_def)
qed

lemma registry_step_inv:
  assumes "registry_inv st" and "registry_step st op = Inr st'"
  shows "registry_inv st'"
proof -
  obtain reg handles where st: "st = (reg, handles)" by (cases st)
  show ?thesis
    using assms unfolding st
    by (cases op) (auto split: sum.splits prod.splits if_splits
        intro: registry_step_register_inv registry_step_release_inv)
qed

interpretation extension_registry: transactional_store registry_step registry_inv "\<lambda>_ _. True"
  by unfold_locales (rule registry_step_inv)

lemma all_admissible_True [simp]: "all_admissible (\<lambda>_ _. True) step s ops"
  by (induction ops arbitrary: s) auto

section \<open>Properties\<close>

text \<open>
  A failed mutation from a provider that gives no explicit classification, and that is neither
  the policy nor the router, always requires reconciliation and is never retried as is: the
  classification fails closed.
\<close>

theorem unclassified_failure_requires_reconciliation:
  assumes "risk \<noteq> Read" and "\<not> ar_ok result"
    and "Option.bind (ar_error result) ae_sideEffectState = None"
    and "Option.bind (ar_error result) ae_executionPhase = None" and "details_phase result = None"
    and "ar_provider result \<noteq> ''policy''" and "ar_provider result \<noteq> ''router''"
  shows "requiresReconciliation risk (conservativeSideEffectState risk result)
       \<and> \<not> retrySafeWithoutReconciliation risk (conservativeSideEffectState risk result)"
  using assms
  by (simp add: requiresReconciliation_def retrySafeWithoutReconciliation_def
      conservativeSideEffectState_def conservativeExecutionPhase_def)

definition demo_failed :: ActionResult where
  "demo_failed = \<lparr>ar_ok = False, ar_capability = ''file.write'', ar_provider = ''fs'', ar_output = None,
     ar_evidence = [], ar_error = Some \<lparr>ae_code = ''EIO'', ae_message = ''io'', ae_retryable = None,
       ae_sideEffectState = None, ae_executionPhase = None,
       ae_details = Some [(''executionPhase'', JStr ''never'')]\<rparr>, ar_durationMs = 3\<rparr>"

theorem unclassified_failure_requires_reconciliation_witness:
  "requiresReconciliation Write (conservativeSideEffectState Write demo_failed)"
  using unclassified_failure_requires_reconciliation [of Write demo_failed]
  by (simp add: demo_failed_def details_phase_def phase_of_json_def)

text \<open>
  The exact condition under which a mutation may be retried without reconciliation: its failure
  happened before dispatch, or the provider (or the policy or router) vouches that nothing happened.
  In particular a successful mutation is never retry-safe.
\<close>

theorem retry_safe_iff:
  assumes "risk \<noteq> Read"
  shows "retrySafeWithoutReconciliation risk (conservativeSideEffectState risk result) \<longleftrightarrow>
    \<not> ar_ok result \<and>
    (conservativeExecutionPhase result = PreDispatch
     \<or> Option.bind (ar_error result) ae_sideEffectState = Some SeNone
     \<or> (Option.bind (ar_error result) ae_sideEffectState = None
         \<and> ar_provider result \<in> {''policy'', ''router''}))"
  using assms
  by (auto simp: retrySafeWithoutReconciliation_def conservativeSideEffectState_def
      conservativeExecutionPhase_def split: option.splits)

theorem retry_safe_iff_witness:
  "\<not> retrySafeWithoutReconciliation Write (conservativeSideEffectState Write demo_failed)"
  by (subst retry_safe_iff)
     (simp_all add: demo_failed_def conservativeExecutionPhase_def details_phase_def phase_of_json_def)

text \<open>
  Over every history of registrations and releases by any number of extensions: a registered
  extension capability is namespaced under \<open>ext.\<close>, never shadows a built-in one, and its lease
  count is exactly the number of closures not yet released, so the rule disappears with the last
  release and not before.
\<close>

theorem extension_registry_counts_open_leases:
  assumes "run_ops registry_step ([], []) ops = (reg, handles)"
  shows "(\<forall>cap. (jsmap_get reg cap \<noteq> None) = (open_leases handles cap \<noteq> []))
       \<and> (\<forall>cap r. jsmap_get reg cap = Some r \<longrightarrow> er_leases r = int (length (open_leases handles cap))
            \<and> \<not> isBuiltInCapability cap \<and> starts_with cap ''ext.'')"
proof -
  have "registry_inv ([], [])" by (simp add: registry_inv_def lease_count_def open_leases_def)
  then have inv: "registry_inv (reg, handles)"
    using extension_registry.run_inv [of "([], [])" ops] assms by simp
  have "(jsmap_get reg cap \<noteq> None) = (open_leases handles cap \<noteq> [])" for cap
  proof -
    have "lease_count reg cap = int (length (open_leases handles cap))"
      using inv by (simp add: registry_inv_def)
    moreover have "jsmap_get reg cap = Some r \<Longrightarrow> 1 \<le> er_leases r" for r
      using inv by (auto simp: registry_inv_def)
    ultimately show ?thesis by (cases "jsmap_get reg cap") (auto simp: lease_count_def)
  qed
  moreover have "er_leases r = int (length (open_leases handles cap))
      \<and> \<not> isBuiltInCapability cap \<and> starts_with cap ''ext.''" if "jsmap_get reg cap = Some r" for cap r
    using inv that by (auto simp: registry_inv_def lease_count_def split: option.splits)
  ultimately show ?thesis by blast
qed

definition demo_ext :: extension_risk_input where
  "demo_ext = \<lparr>xi_capability = ''ext.a.run'', xi_rule = Fixed Write, xi_extensionId = ''a'',
     xi_owner = replicate 64 (CHR ''0'')\<rparr>"

lemma demo_ext_registers:
  "run_ops registry_step ([], []) [RegisterExt demo_ext, RegisterExt demo_ext, ReleaseExt 0]
   = ([(''ext.a.run'', \<lparr>er_rule = Fixed Write, er_owner = replicate 64 (CHR ''0''), er_leases = 1\<rparr>)],
      [\<lparr>rk_capability = ''ext.a.run'', rk_owner = replicate 64 (CHR ''0''), rk_released = True\<rparr>,
       \<lparr>rk_capability = ''ext.a.run'', rk_owner = replicate 64 (CHR ''0''), rk_released = False\<rparr>])"
  by (simp add: demo_ext_def registerExtensionCapabilityRisk_def releaseExtensionCapabilityRisk_def
      valid_extension_id_def valid_extension_capability_def ext_id_char_def cap_start_char_def
      lower_sha256_text_def isBuiltInCapability_def CAPABILITY_RISK_RULES_def list_all_iff js_defs Let_def)

theorem extension_registry_counts_open_leases_witness:
  "\<exists>reg handles. run_ops registry_step ([], [])
       [RegisterExt demo_ext, RegisterExt demo_ext, ReleaseExt 0] = (reg, handles)
     \<and> jsmap_get reg ''ext.a.run'' \<noteq> None \<and> open_leases handles ''ext.a.run'' \<noteq> []"
  using extension_registry_counts_open_leases [OF demo_ext_registers] demo_ext_registers
  by (simp add: open_leases_def)

text \<open>
  No extension can change the risk of a built-in capability: in every state of the registry the
  canonical rule of a built-in capability is the one of the frozen table.
\<close>

theorem builtin_risk_is_immutable:
  assumes "map_of CAPABILITY_RISK_RULES cap = Some rule"
  shows "capabilityRiskRule reg cap = Inr rule"
proof -
  have "cap \<in> fst ` set CAPABILITY_RISK_RULES" using assms by (metis domI dom_map_of_conv_image_fst)
  then have "cap \<noteq> [] \<and> length cap \<le> 256" by (auto simp: CAPABILITY_RISK_RULES_def)
  then show ?thesis using assms by (simp add: capabilityRiskRule_def)
qed

theorem builtin_risk_is_immutable_witness:
  "capabilityRiskRule [(''terminal.execute'', \<lparr>er_rule = Fixed Read, er_owner = ''x'', er_leases = 1\<rparr>)]
     ''terminal.execute'' = Inr (Fixed Destructive)"
  by (rule builtin_risk_is_immutable) (simp add: CAPABILITY_RISK_RULES_def)

end
