(* ===== verification/TaskCapsule.thy ===== *)
theory TaskCapsule
  imports ActionModel "HOL-Library.Word"
begin

unbundle bit_operations_syntax

text \<open>
  The task capsule of \<open>src/core/task.ts\<close>: nodes with dependencies, their states, the
  dependency gate on starting a node, finalisation, and the deterministic node identity.
  The clock, \<open>randomUUID\<close> and SHA-256 are arguments. The \<open>execution\<close> part of a
  capsule, which these operations never read, is a type parameter.
\<close>

section \<open>Data\<close>

record TaskNode =
  tn_id :: string
  tn_key :: "string option"
  tn_stepKey :: "string option"
  tn_actionId :: "string option"
  tn_title :: string
  tn_state :: TaskState
  tn_required :: bool
  tn_dependsOn :: "string list"
  tn_evidence :: "Evidence list"

record task_failure =
  tf_at :: int
  tf_code :: string
  tf_message :: string

record 'x TaskCapsule =
  tc_id :: string
  tc_userObjective :: string
  tc_interpretedObjective :: string
  tc_authorizedScope :: "string list"
  tc_prohibitedScope :: "string list"
  tc_successConditions :: "string list"
  tc_intent :: "IntentBinding option"
  tc_state :: TaskState
  tc_nodes :: "TaskNode list"
  tc_evidence :: "Evidence list"
  tc_failures :: "task_failure list"
  tc_execution :: "'x option"
  tc_createdAt :: int
  tc_updatedAt :: int

record 'x task_input =
  ti_userObjective :: string
  ti_interpretedObjective :: string
  ti_authorizedScope :: "string list"
  ti_prohibitedScope :: "string list"
  ti_successConditions :: "string list"
  ti_intent :: "IntentBinding option"
  ti_execution :: "'x option"

record node_options =
  no_key :: "string option"
  no_stepKey :: "string option"
  no_actionId :: "string option"
  no_required :: "bool option"
  no_dependsOn :: "string list option"

section \<open>Operations\<close>

definition createTask :: "'x task_input \<Rightarrow> string \<Rightarrow> int \<Rightarrow> 'x TaskCapsule" where
  "createTask input uuid now =
     \<lparr>tc_id = uuid,
      tc_userObjective = ti_userObjective input,
      tc_interpretedObjective = ti_interpretedObjective input,
      tc_authorizedScope = ti_authorizedScope input,
      tc_prohibitedScope = ti_prohibitedScope input,
      tc_successConditions = ti_successConditions input,
      tc_intent = ti_intent input,
      tc_state = PENDING,
      tc_nodes = [],
      tc_evidence = [],
      tc_failures = [],
      tc_execution = ti_execution input,
      tc_createdAt = now,
      tc_updatedAt = now\<rparr>"

text \<open>The UUID-shaped identity: sixteen digest bytes with the version and variant bits forced.\<close>

definition hex_digit :: "nat \<Rightarrow> char" where
  "hex_digit n = ''0123456789abcdef'' ! n"

definition byte_hex :: "8 word \<Rightarrow> string" where
  "byte_hex b = [hex_digit (unat (drop_bit 4 b)), hex_digit (unat (b AND 15))]"

definition bytes_hex :: "8 word list \<Rightarrow> string" where
  "bytes_hex bs = concat (map byte_hex bs)"

definition slice :: "nat \<Rightarrow> nat \<Rightarrow> 'a list \<Rightarrow> 'a list" where
  "slice i j xs = take (j - i) (drop i xs)"

definition stableTaskNodeId :: "(string \<Rightarrow> 8 word list) \<Rightarrow> string \<Rightarrow> string \<Rightarrow> string" where
  "stableTaskNodeId sha256 taskId stepKey =
     (let digest = sha256 (taskId @ [nul_char] @ stepKey);
          bytes0 = take 16 digest;
          bytes1 = bytes0[6 := ((bytes0 ! 6) AND 15) OR 80];
          bytes = bytes1[8 := ((bytes1 ! 8) AND 63) OR 128];
          hex = bytes_hex bytes
      in slice 0 8 hex @ ''-'' @ slice 8 12 hex @ ''-'' @ slice 12 16 hex @ ''-''
         @ slice 16 20 hex @ ''-'' @ drop 20 hex)"

definition stableTaskExecutionNodeKey ::
  "(string \<Rightarrow> 8 word list) \<Rightarrow> (int \<Rightarrow> string) \<Rightarrow> string \<Rightarrow> int \<Rightarrow> string \<Rightarrow> string" where
  "stableTaskExecutionNodeKey sha256 show_int stepKey attempt inputHash =
     ''node-'' @ bytes_hex (sha256 (stepKey @ [nul_char] @ show_int attempt @ [nul_char] @ inputHash))"

text \<open>An optional string that is trimmed and dropped when empty.\<close>

definition trimmed :: "string option \<Rightarrow> string option" where
  "trimmed s = (case s of None \<Rightarrow> None | Some t \<Rightarrow> (if js_trim t = [] then None else Some (js_trim t)))"

definition addTaskNode ::
  "(string \<Rightarrow> 8 word list) \<Rightarrow> string \<Rightarrow> int \<Rightarrow> 'x TaskCapsule \<Rightarrow> string \<Rightarrow> node_options
   \<Rightarrow> 'x TaskCapsule \<times> TaskNode" where
  "addTaskNode sha256 uuid now task title options =
     (let key = trimmed (no_key options);
          existing = (case key of None \<Rightarrow> None
                      | Some k \<Rightarrow> find (\<lambda>candidate. tn_key candidate = Some k) (tc_nodes task))
      in case existing of Some node \<Rightarrow> (task, node)
         | None \<Rightarrow>
           (let node = \<lparr>tn_id = (case key of Some k \<Rightarrow> stableTaskNodeId sha256 (tc_id task) k | None \<Rightarrow> uuid),
                        tn_key = key,
                        tn_stepKey = trimmed (no_stepKey options),
                        tn_actionId = trimmed (no_actionId options),
                        tn_title = title,
                        tn_state = PENDING,
                        tn_required = (case no_required options of None \<Rightarrow> True | Some r \<Rightarrow> r),
                        tn_dependsOn = (case no_dependsOn options of None \<Rightarrow> [] | Some ds \<Rightarrow> ds),
                        tn_evidence = []\<rparr>
            in (task\<lparr>tc_nodes := tc_nodes task @ [node], tc_updatedAt := now\<rparr>, node)))"

definition settled :: "TaskNode \<Rightarrow> bool" where
  "settled node \<longleftrightarrow> tn_state node = VERIFIED \<or> tn_state node = SKIPPED"

text \<open>
  The gate looks the dependencies up, and takes the first lookup result that is missing or not
  settled. A missing dependency is the value \<open>undefined\<close>, which the following truth test
  reads as "nothing blocks": \<open>Some None\<close> and \<open>None\<close> both pass.
\<close>

definition blockedDependency :: "'x TaskCapsule \<Rightarrow> TaskNode \<Rightarrow> TaskNode option option" where
  "blockedDependency task node =
     find (\<lambda>dep. case dep of None \<Rightarrow> True | Some d \<Rightarrow> \<not> settled d)
       (map (\<lambda>i. find (\<lambda>candidate. tn_id candidate = i) (tc_nodes task)) (tn_dependsOn node))"

definition gate_blocks :: "'x TaskCapsule \<Rightarrow> TaskNode \<Rightarrow> bool" where
  "gate_blocks task node = (case blockedDependency task node of Some (Some dep) \<Rightarrow> True | _ \<Rightarrow> False)"

definition setNodeState ::
  "int \<Rightarrow> 'x TaskCapsule \<Rightarrow> string \<Rightarrow> TaskState \<Rightarrow> 'x TaskCapsule result" where
  "setNodeState now task nodeId st =
     (case find (\<lambda>candidate. tn_id candidate = nodeId) (tc_nodes task) of
        None \<Rightarrow> Inl (OperatorError ''TASK_NODE_NOT_FOUND'')
      | Some node \<Rightarrow>
          if st = RUNNING \<and> gate_blocks task node
          then Inl (OperatorError ''TASK_DEPENDENCY_BLOCKED'')
          else Inr (task\<lparr>tc_nodes := update_first (\<lambda>n. tn_id n = nodeId) (\<lambda>n. n\<lparr>tn_state := st\<rparr>)
                                      (tc_nodes task),
                         tc_updatedAt := now\<rparr>))"

definition finalizeTask :: "int \<Rightarrow> 'x TaskCapsule \<Rightarrow> 'x TaskCapsule result" where
  "finalizeTask now task =
     (let incomplete = filter (\<lambda>node. tn_required node \<and> \<not> settled node) (tc_nodes task)
      in if length incomplete > 0 then Inl (OperatorError ''TASK_NOT_VERIFIED'')
         else Inr (task\<lparr>tc_state := VERIFIED, tc_updatedAt := now\<rparr>))"

section \<open>Histories of a capsule\<close>

datatype task_op =
    AddNode string int string node_options
  | SetNode int string TaskState
  | Finalize int

fun task_step :: "(string \<Rightarrow> 8 word list) \<Rightarrow> 'x TaskCapsule \<Rightarrow> task_op \<Rightarrow> 'x TaskCapsule result" where
  "task_step sha256 task (AddNode uuid now title options) =
     Inr (fst (addTaskNode sha256 uuid now task title options))"
| "task_step sha256 task (SetNode now nodeId st) = setNodeState now task nodeId st"
| "task_step sha256 task (Finalize now) = finalizeTask now task"

definition node_ids :: "'x TaskCapsule \<Rightarrow> string set" where
  "node_ids task = tn_id ` set (tc_nodes task)"

text \<open>Every dependency of every node names a node of the capsule.\<close>

definition deps_closed :: "'x TaskCapsule \<Rightarrow> bool" where
  "deps_closed task \<longleftrightarrow> (\<forall>node\<in>set (tc_nodes task). set (tn_dependsOn node) \<subseteq> node_ids task)"

text \<open>The discipline of a caller that only names dependencies it has already added.\<close>

fun declares_known_deps :: "'x TaskCapsule \<Rightarrow> task_op \<Rightarrow> bool" where
  "declares_known_deps task (AddNode uuid now title options) \<longleftrightarrow>
     (case no_dependsOn options of None \<Rightarrow> True | Some ds \<Rightarrow> set ds \<subseteq> node_ids task)"
| "declares_known_deps task (SetNode now nodeId st) \<longleftrightarrow> True"
| "declares_known_deps task (Finalize now) \<longleftrightarrow> True"

section \<open>The dependency gate\<close>

lemma present_dependency_found:
  assumes "set (tn_dependsOn node) \<subseteq> node_ids task" and "i \<in> set (tn_dependsOn node)"
  obtains dep where "find (\<lambda>n. tn_id n = i) (tc_nodes task) = Some dep"
proof (cases "find (\<lambda>n. tn_id n = i) (tc_nodes task)")
  case None
  with assms show ?thesis by (auto simp: find_None_iff_all node_ids_def)
qed (use that in blast)

lemma gate_passes_iff:
  assumes "set (tn_dependsOn node) \<subseteq> node_ids task"
  shows "\<not> gate_blocks task node \<longleftrightarrow>
         (\<forall>i\<in>set (tn_dependsOn node).
            \<exists>dep. find (\<lambda>n. tn_id n = i) (tc_nodes task) = Some dep \<and> settled dep)"
proof -
  let ?lookup = "\<lambda>i. find (\<lambda>n. tn_id n = i) (tc_nodes task)"
  have present: "?lookup i \<noteq> None" if "i \<in> set (tn_dependsOn node)" for i
    using present_dependency_found [OF assms that] by (metis option.discI)
  then have "None \<notin> set (map ?lookup (tn_dependsOn node))" by force
  then have "blockedDependency task node \<noteq> Some None"
    unfolding blockedDependency_def by (metis find_SomeD)
  then have "\<not> gate_blocks task node \<longleftrightarrow> blockedDependency task node = None"
    by (auto simp: gate_blocks_def split: option.splits)
  also have "\<dots> \<longleftrightarrow> (\<forall>i\<in>set (tn_dependsOn node).
       \<not> (case ?lookup i of None \<Rightarrow> True | Some d \<Rightarrow> \<not> settled d))"
    by (simp add: blockedDependency_def find_None_iff_all)
  also have "\<dots> \<longleftrightarrow> (\<forall>i\<in>set (tn_dependsOn node). \<exists>dep. ?lookup i = Some dep \<and> settled dep)"
    by (rule ball_cong) (auto split: option.splits)
  finally show ?thesis .
qed

lemma node_ids_setNodeState:
  assumes "setNodeState now task nodeId st = Inr task'"
  shows "node_ids task' = node_ids task"
proof -
  have "map tn_id (update_first (\<lambda>n. tn_id n = nodeId) (\<lambda>n. n\<lparr>tn_state := st\<rparr>) (tc_nodes task))
        = map tn_id (tc_nodes task)"
    by (rule map_update_first) simp
  with assms show ?thesis
    by (auto simp: setNodeState_def node_ids_def simp flip: set_map split: option.splits if_splits)
qed

lemma deps_setNodeState:
  assumes "setNodeState now task nodeId st = Inr task'" and "node \<in> set (tc_nodes task')"
  shows "\<exists>n\<in>set (tc_nodes task). tn_dependsOn n = tn_dependsOn node"
  using assms
  by (force simp: setNodeState_def split: option.splits if_splits dest!: set_update_first_subset)

lemma node_ids_addTaskNode:
  "node_ids task \<subseteq> node_ids (fst (addTaskNode sha256 uuid now task title options))"
  by (auto simp: addTaskNode_def node_ids_def Let_def split: option.splits)

lemma addTaskNode_deps:
  assumes "node \<in> set (tc_nodes (fst (addTaskNode sha256 uuid now task title options)))"
  shows "node \<in> set (tc_nodes task) \<or>
         tn_dependsOn node = (case no_dependsOn options of None \<Rightarrow> [] | Some ds \<Rightarrow> ds)"
  using assms by (auto simp: addTaskNode_def Let_def split: option.splits)

lemma task_step_deps_closed:
  assumes inv: "deps_closed task" and adm: "declares_known_deps task op"
    and step: "task_step sha256 task op = Inr task'"
  shows "deps_closed task'"
proof (cases op)
  case (AddNode uuid now title options)
  then have t': "task' = fst (addTaskNode sha256 uuid now task title options)" using step by simp
  have mono: "node_ids task \<subseteq> node_ids task'" unfolding t' by (rule node_ids_addTaskNode)
  show ?thesis
    unfolding deps_closed_def
  proof
    fix node assume "node \<in> set (tc_nodes task')"
    then consider "node \<in> set (tc_nodes task)"
      | "tn_dependsOn node = (case no_dependsOn options of None \<Rightarrow> [] | Some ds \<Rightarrow> ds)"
      using addTaskNode_deps t' by blast
    then show "set (tn_dependsOn node) \<subseteq> node_ids task'"
    proof cases
      case 1
      then show ?thesis using inv mono by (auto simp: deps_closed_def)
    next
      case 2
      then show ?thesis using adm AddNode mono by (auto split: option.splits)
    qed
  qed
next
  case (SetNode now nodeId st)
  then have "setNodeState now task nodeId st = Inr task'" using step by simp
  then show ?thesis
    using inv node_ids_setNodeState deps_setNodeState unfolding deps_closed_def by metis
next
  case (Finalize now)
  then have "tc_nodes task' = tc_nodes task"
    using step by (auto simp: finalizeTask_def Let_def split: if_splits)
  then show ?thesis using inv by (simp add: deps_closed_def node_ids_def)
qed

interpretation task_history: transactional_store "task_step sha256" deps_closed declares_known_deps
  by unfold_locales (rule task_step_deps_closed)

lemma deps_closed_createTask: "deps_closed (createTask input uuid now)"
  by (simp add: deps_closed_def createTask_def)

section \<open>Properties\<close>


definition demo_input :: "unit task_input" where
  "demo_input = \<lparr>ti_userObjective = ''o'', ti_interpretedObjective = ''o'', ti_authorizedScope = [],
     ti_prohibitedScope = [], ti_successConditions = [], ti_intent = None, ti_execution = None\<rparr>"

definition demo_options :: "string list \<Rightarrow> node_options" where
  "demo_options ds = \<lparr>no_key = None, no_stepKey = None, no_actionId = None, no_required = None,
     no_dependsOn = Some ds\<rparr>"

definition demo_ops :: "task_op list" where
  "demo_ops = [AddNode ''n1'' 1 ''first'' (demo_options []),
     AddNode ''n2'' 2 ''second'' (demo_options [''n1'']), SetNode 3 ''n1'' VERIFIED]"

lemmas demo_defs = demo_input_def demo_options_def demo_ops_def createTask_def addTaskNode_def
  trimmed_def setNodeState_def gate_blocks_def blockedDependency_def settled_def node_ids_def


text \<open>
  C37. The gate is skipped when a node's first unsettled dependency does not exist: such a node
  starts whatever the state of its later dependencies.
\<close>

theorem missing_dependency_disables_gate:
  assumes "find (\<lambda>n. tn_id n = nodeId) (tc_nodes task) = Some node"
    and "tn_dependsOn node = ready @ missing # rest"
    and "\<forall>i\<in>set ready. \<exists>dep. find (\<lambda>n. tn_id n = i) (tc_nodes task) = Some dep \<and> settled dep"
    and "missing \<notin> node_ids task"
  shows "\<exists>task'. setNodeState now task nodeId RUNNING = Inr task'"
proof -
  have "find (\<lambda>n. tn_id n = missing) (tc_nodes task) = None"
    using assms(4) by (auto simp: find_None_iff_all node_ids_def)
  moreover from assms(3) have
    "find (\<lambda>dep. case dep of None \<Rightarrow> True | Some d \<Rightarrow> \<not> settled d)
       (map (\<lambda>i. find (\<lambda>n. tn_id n = i) (tc_nodes task)) ready @ xs)
     = find (\<lambda>dep. case dep of None \<Rightarrow> True | Some d \<Rightarrow> \<not> settled d) xs" for xs
    by (induction ready) auto
  ultimately have "blockedDependency task node = Some None"
    by (simp add: blockedDependency_def assms(2))
  then show ?thesis using assms(1) by (simp add: setNodeState_def gate_blocks_def)
qed

theorem missing_dependency_disables_gate_witness:
  "\<exists>task task' dep. find (\<lambda>n. tn_id n = ''n2'') (tc_nodes (task :: unit TaskCapsule)) = Some dep \<and>
     tn_dependsOn dep = [''ghost'', ''n1''] \<and> \<not> settled (hd (tc_nodes task)) \<and>
     tn_id (hd (tc_nodes task)) = ''n1'' \<and> setNodeState 4 task ''n2'' RUNNING = Inr task'"
proof -
  let ?task = "run_ops (task_step (\<lambda>_. [])) (createTask demo_input ''t'' 0)
     [AddNode ''n1'' 1 ''first'' (demo_options []),
      AddNode ''n2'' 2 ''second'' (demo_options [''ghost'', ''n1''])]"
  obtain node where node: "find (\<lambda>n. tn_id n = ''n2'') (tc_nodes ?task) = Some node"
    and deps: "tn_dependsOn node = [] @ ''ghost'' # [''n1'']"
    by (simp add: demo_defs Let_def)
  have "''ghost'' \<notin> node_ids ?task" by (simp add: demo_defs Let_def)
  then obtain task' where "setNodeState 4 ?task ''n2'' RUNNING = Inr task'"
    using missing_dependency_disables_gate [OF node deps, where now = 4] by auto
  moreover have "\<not> settled (hd (tc_nodes ?task))" "tn_id (hd (tc_nodes ?task)) = ''n1''"
    by (simp_all add: demo_defs Let_def)
  ultimately show ?thesis using node deps by auto
qed

text \<open>
  \<open>finalizeTask\<close> marks a capsule verified exactly when every required node is verified
  or skipped, and changes nothing but the capsule's state and time; otherwise it throws
  TASK_NOT_VERIFIED.
\<close>

theorem finalizeTask_iff:
  "finalizeTask now task =
     (if \<forall>node\<in>set (tc_nodes task). tn_required node \<longrightarrow> settled node
      then Inr (task\<lparr>tc_state := VERIFIED, tc_updatedAt := now\<rparr>)
      else Inl (OperatorError ''TASK_NOT_VERIFIED''))"
  by (auto simp: finalizeTask_def filter_empty_conv)

theorem finalizeTask_iff_witness:
  "finalizeTask 9 (createTask demo_input ''t'' 0) =
     Inr ((createTask demo_input ''t'' 0)\<lparr>tc_state := VERIFIED, tc_updatedAt := 9\<rparr>)"
  by (subst finalizeTask_iff) (simp add: demo_defs)

text \<open>Adding a node under a key that is present returns the node and changes nothing.\<close>

lemma addTaskNode_existing:
  assumes "trimmed (no_key options) = Some k"
    and "find (\<lambda>n. tn_key n = Some k) (tc_nodes task) = Some node"
  shows "addTaskNode sha256 uuid now task title options = (task, node)"
  using assms by (simp add: addTaskNode_def)

lemma addTaskNode_finds_key:
  assumes "trimmed (no_key options) = Some k"
  shows "find (\<lambda>n. tn_key n = Some k)
           (tc_nodes (fst (addTaskNode sha256 uuid now task title options)))
         = Some (snd (addTaskNode sha256 uuid now task title options))"
proof (cases "find (\<lambda>n. tn_key n = Some k) (tc_nodes task)")
  case (Some node)
  with assms show ?thesis by (simp add: addTaskNode_existing)
next
  case None
  with assms show ?thesis by (simp add: addTaskNode_def find_append_None Let_def)
qed

text \<open>
  Adding a node is idempotent on its key: a second call with the same (non-blank) key, with any
  title and options, returns the first call's node and leaves the capsule unchanged.
\<close>

theorem addTaskNode_idempotent:
  assumes "trimmed (no_key options) = Some k" and "trimmed (no_key options') = Some k"
    and "addTaskNode sha256 uuid now task title options = (task1, node)"
  shows "addTaskNode sha256 uuid' now' task1 title' options' = (task1, node)"
  using addTaskNode_finds_key [OF assms(1), of sha256 uuid now task title] assms(2,3)
  by (simp add: addTaskNode_existing)

theorem addTaskNode_idempotent_witness:
  "\<exists>task1 node. addTaskNode (\<lambda>_. replicate 32 7) ''u'' 1 (createTask demo_input ''t'' 0) ''a''
       ((demo_options [])\<lparr>no_key := Some '' k''\<rparr>) = (task1, node) \<and>
     addTaskNode (\<lambda>_. replicate 32 7) ''v'' 2 task1 ''b'' ((demo_options [])\<lparr>no_key := Some ''k ''\<rparr>)
       = (task1, node)"
proof -
  obtain task1 node where one: "addTaskNode (\<lambda>_. replicate 32 7) ''u'' 1 (createTask demo_input ''t'' 0)
      ''a'' ((demo_options [])\<lparr>no_key := Some '' k''\<rparr>) = (task1, node)"
    by (metis prod.exhaust)
  have "trimmed (no_key ((demo_options [])\<lparr>no_key := Some '' k''\<rparr>)) = Some ''k''"
    and "trimmed (no_key ((demo_options [])\<lparr>no_key := Some ''k ''\<rparr>)) = Some ''k''"
    by (simp_all add: demo_options_def trimmed_def js_trim_def is_js_space_def)
  from addTaskNode_idempotent [OF this one] one show ?thesis by blast
qed

section \<open>Node identities\<close>

lemma length_bytes_hex [simp]: "length (bytes_hex bs) = 2 * length bs"
  by (induction bs) (auto simp: bytes_hex_def byte_hex_def)

lemma bytes_hex_nth_even:
  "i < length bs \<Longrightarrow> bytes_hex bs ! (2 * i) = hex_digit (unat (drop_bit 4 (bs ! i)))"
proof (induction bs arbitrary: i)
  case (Cons b bs)
  then show ?case by (cases i) (auto simp: bytes_hex_def byte_hex_def)
qed simp

lemma version_nibble: "drop_bit 4 (((b :: 8 word) AND 15) OR 80) = 5"
  by (rule bit_word_eqI) (auto simp: bit_simps numeral_eq_Suc less_Suc_eq)

lemma variant_nibble: "unat (drop_bit 4 (((b :: 8 word) AND 63) OR 128)) \<in> {8, 9, 10, 11}"
proof -
  have e: "(b AND 63) OR 128 = (b AND 63) + 128"
    by (rule disjunctive_add_eq_or [symmetric]) (simp add: ac_simps)
  have lt: "unat (b AND 63) < 64"
    using word_and_le1 [of b 63] by (simp add: word_le_nat_alt)
  then have "unat ((b AND 63) + 128) = unat (b AND 63) + 128" by (simp add: unat_word_ariths)
  with e have "unat (drop_bit 4 ((b AND 63) OR 128)) = (unat (b AND 63) + 128) div 16"
    by (simp add: drop_bit_eq_div unat_div_distrib)
  then show ?thesis using lt by auto
qed

text \<open>
  Whatever SHA-256 returns, as long as it is at least sixteen bytes, the identity of a keyed
  node has the textual shape of an RFC 4122 version-5 UUID: 36 characters, dashes at positions
  8, 13, 18 and 23, version digit 5 at position 14, and one of 8, 9, a, b at position 19.
\<close>

theorem stableTaskNodeId_uuid_shape:
  assumes "16 \<le> length (sha256 (taskId @ [nul_char] @ stepKey))"
  shows "length (stableTaskNodeId sha256 taskId stepKey) = 36
       \<and> (\<forall>i\<in>{8, 13, 18, 23}. stableTaskNodeId sha256 taskId stepKey ! i = CHR ''-'')
       \<and> stableTaskNodeId sha256 taskId stepKey ! 14 = CHR ''5''
       \<and> stableTaskNodeId sha256 taskId stepKey ! 19 \<in> set ''89ab''"
proof -
  define bytes0 where "bytes0 = take 16 (sha256 (taskId @ [nul_char] @ stepKey))"
  define bytes1 where "bytes1 = bytes0[6 := ((bytes0 ! 6) AND 15) OR 80]"
  define bytes where "bytes = bytes1[8 := ((bytes1 ! 8) AND 63) OR 128]"
  have len: "length bytes = 16"
    using assms by (simp add: bytes_def bytes1_def bytes0_def)
  have b6: "bytes ! 6 = ((bytes0 ! 6) AND 15) OR 80"
    using len by (simp add: bytes_def bytes1_def)
  have b8: "bytes ! 8 = ((bytes1 ! 8) AND 63) OR 128"
    using len by (simp add: bytes_def)
  let ?hex = "bytes_hex bytes"
  have id: "stableTaskNodeId sha256 taskId stepKey =
      slice 0 8 ?hex @ ''-'' @ slice 8 12 ?hex @ ''-'' @ slice 12 16 ?hex @ ''-''
      @ slice 16 20 ?hex @ ''-'' @ drop 20 ?hex"
    by (simp add: stableTaskNodeId_def Let_def bytes_def bytes1_def bytes0_def)
  have lh: "length ?hex = 32" using len by simp
  have "?hex ! 12 = hex_digit 5"
    using bytes_hex_nth_even [of 6 bytes] len by (simp add: b6 version_nibble)
  moreover have "?hex ! 16 \<in> hex_digit ` {8, 9, 10, 11}"
    using bytes_hex_nth_even [of 8 bytes] len variant_nibble [of "bytes1 ! 8"] by (auto simp: b8)
  ultimately show ?thesis
    using lh by (auto simp: id slice_def nth_append hex_digit_def)
qed

theorem stableTaskNodeId_uuid_shape_witness:
  "stableTaskNodeId (\<lambda>_. replicate 32 255) ''t'' ''k'' ! 14 = CHR ''5''
   \<and> length (stableTaskNodeId (\<lambda>_. replicate 32 255) ''t'' ''k'') = 36"
  using stableTaskNodeId_uuid_shape [of "\<lambda>_. replicate 32 255" "''t''" "''k''"] by simp

end
