(* ===== verification/RateLimit.thy ===== *)
theory RateLimit
  imports Prelude
begin

text \<open>
  The fixed-window rate limiter of \<open>src/core/rate-limit.ts\<close>: a bounded insertion-ordered map
  of windows, the amortised expiry that only looks at the oldest windows, saturation, and the
  client key derived from a request. The clock reading is an argument of each operation.
\<close>

section \<open>Data\<close>

record RateLimitDecision =
  rd_allowed :: bool
  rd_remaining :: int
  rd_retryAfterSeconds :: int

record Entry =
  en_count :: int
  en_windowStartedAt :: int

record FixedWindowRateLimiter =
  rl_limit :: int
  rl_windowMs :: int
  rl_maxKeys :: int
  rl_entries :: "(string, Entry) jsmap"

section \<open>Operations\<close>

definition new_limiter :: "int \<Rightarrow> int \<Rightarrow> int option \<Rightarrow> FixedWindowRateLimiter result" where
  "new_limiter limit windowMs maxKeys =
     (let mk = (case maxKeys of None \<Rightarrow> 20000 | Some m \<Rightarrow> m) in
      if limit < 1 then Inl (JsError ''Rate limit must be a positive integer.'')
      else if windowMs < 1000 then Inl (JsError ''Rate-limit window must be at least 1000ms.'')
      else if mk < 1 \<or> mk > 1000000 then Inl (JsError ''Rate-limit maxKeys is invalid.'')
      else Inr \<lparr>rl_limit = limit, rl_windowMs = windowMs, rl_maxKeys = mk, rl_entries = []\<rparr>)"

definition boundedKey :: "string \<Rightarrow> string result" where
  "boundedKey text =
     (if text = [] \<or> length text > 512
         \<or> list_ex (\<lambda>c. c = nul_char \<or> c = CHR 0x0D \<or> c = CHR 0x0A) text
      then Inl (JsError ''Rate-limit key is invalid.'') else Inr text)"

text \<open>\<open>Math.ceil(x / 1000)\<close> on integers.\<close>

definition ceil_seconds :: "int \<Rightarrow> int" where
  "ceil_seconds x = - ((- x) div 1000)"

definition window_active :: "FixedWindowRateLimiter \<Rightarrow> int \<Rightarrow> Entry \<Rightarrow> bool" where
  "window_active lim now entry \<longleftrightarrow> now - en_windowStartedAt entry < rl_windowMs lim"

definition retryAfter :: "FixedWindowRateLimiter \<Rightarrow> int \<Rightarrow> Entry \<Rightarrow> int" where
  "retryAfter lim now entry = max 1 (ceil_seconds (en_windowStartedAt entry + rl_windowMs lim - now))"

definition expireEntries :: "FixedWindowRateLimiter \<Rightarrow> int \<Rightarrow> FixedWindowRateLimiter" where
  "expireEntries lim now =
     lim\<lparr>rl_entries := dropWhile (\<lambda>(k, entry). \<not> window_active lim now entry) (rl_entries lim)\<rparr>"

definition saturatedDecision :: "FixedWindowRateLimiter \<Rightarrow> int \<Rightarrow> RateLimitDecision" where
  "saturatedDecision lim now =
     \<lparr>rd_allowed = False, rd_remaining = 0,
      rd_retryAfterSeconds =
        (case rl_entries lim of [] \<Rightarrow> 1 | (k, earliest) # _ \<Rightarrow> retryAfter lim now earliest)\<rparr>"

text \<open>The entry a key has once an expired one has been dropped, and the map after dropping it.\<close>

definition live_entry :: "FixedWindowRateLimiter \<Rightarrow> int \<Rightarrow> string \<Rightarrow> Entry option" where
  "live_entry lim now key =
     (case jsmap_get (rl_entries lim) key of None \<Rightarrow> None
      | Some entry \<Rightarrow> (if window_active lim now entry then Some entry else None))"

definition drop_expired_key :: "FixedWindowRateLimiter \<Rightarrow> int \<Rightarrow> string \<Rightarrow> FixedWindowRateLimiter" where
  "drop_expired_key lim now key =
     (case jsmap_get (rl_entries lim) key of None \<Rightarrow> lim
      | Some entry \<Rightarrow> (if window_active lim now entry then lim
                      else lim\<lparr>rl_entries := jsmap_delete (rl_entries lim) key\<rparr>))"

text \<open>The tail of \<open>hit\<close>: count the hit in its window and decide.\<close>

definition count_hit ::
  "FixedWindowRateLimiter \<Rightarrow> int \<Rightarrow> string \<Rightarrow> Entry \<Rightarrow> RateLimitDecision \<times> FixedWindowRateLimiter" where
  "count_hit lim now key entry =
     (let entry' = entry\<lparr>en_count := en_count entry + 1\<rparr>
      in (\<lparr>rd_allowed = (en_count entry' \<le> rl_limit lim),
           rd_remaining = max 0 (rl_limit lim - en_count entry'),
           rd_retryAfterSeconds = retryAfter lim now entry'\<rparr>,
          lim\<lparr>rl_entries := jsmap_set (rl_entries lim) key entry'\<rparr>))"

definition hit ::
  "FixedWindowRateLimiter \<Rightarrow> int \<Rightarrow> string
   \<Rightarrow> (RateLimitDecision \<times> FixedWindowRateLimiter) result" where
  "hit lim now keyInput =
     (case boundedKey keyInput of Inl e \<Rightarrow> Inl e
      | Inr key \<Rightarrow>
          (let lim1 = drop_expired_key lim now key in
           case live_entry lim now key of
             Some entry \<Rightarrow> Inr (count_hit lim1 now key entry)
           | None \<Rightarrow>
               (let lim2 = expireEntries lim1 now in
                if int (length (rl_entries lim2)) \<ge> rl_maxKeys lim2
                then Inr (saturatedDecision lim2 now, lim2)
                else (let entry = \<lparr>en_count = 0, en_windowStartedAt = now\<rparr>;
                          lim3 = lim2\<lparr>rl_entries := jsmap_set (rl_entries lim2) key entry\<rparr>
                      in Inr (count_hit lim3 now key entry)))))"

definition isLimited ::
  "FixedWindowRateLimiter \<Rightarrow> int \<Rightarrow> string
   \<Rightarrow> (RateLimitDecision \<times> FixedWindowRateLimiter) result" where
  "isLimited lim now keyInput =
     (case boundedKey keyInput of Inl e \<Rightarrow> Inl e
      | Inr key \<Rightarrow>
          (case live_entry lim now key of
             None \<Rightarrow>
               (let lim2 = expireEntries (drop_expired_key lim now key) now in
                if int (length (rl_entries lim2)) \<ge> rl_maxKeys lim2
                then Inr (saturatedDecision lim2 now, lim2)
                else Inr (\<lparr>rd_allowed = True, rd_remaining = rl_limit lim2,
                           rd_retryAfterSeconds = 1\<rparr>, lim2))
           | Some entry \<Rightarrow>
               Inr (\<lparr>rd_allowed = (en_count entry < rl_limit lim),
                     rd_remaining = max 0 (rl_limit lim - en_count entry),
                     rd_retryAfterSeconds = retryAfter lim now entry\<rparr>, lim)))"

definition clear_key :: "FixedWindowRateLimiter \<Rightarrow> string \<Rightarrow> FixedWindowRateLimiter result" where
  "clear_key lim keyInput =
     (case boundedKey keyInput of Inl e \<Rightarrow> Inl e
      | Inr key \<Rightarrow> Inr (lim\<lparr>rl_entries := jsmap_delete (rl_entries lim) key\<rparr>))"

datatype rate_op = Hit int string | IsLimited int string | Clear string

fun rate_step :: "FixedWindowRateLimiter \<Rightarrow> rate_op \<Rightarrow> FixedWindowRateLimiter result" where
  "rate_step lim (Hit now key) = map_sum id snd (hit lim now key)"
| "rate_step lim (IsLimited now key) = map_sum id snd (isLimited lim now key)"
| "rate_step lim (Clear key) = clear_key lim key"

subsection \<open>The client key of a request\<close>

datatype header_value = NoHeader | OneHeader string | ManyHeaders "string list"

definition normalizeIp :: "string \<Rightarrow> string" where
  "normalizeIp input =
     (let value = to_lower (js_trim input) in
      if starts_with value ''::ffff:'' then drop 7 value
      else (let s1 = (if starts_with value ''['' then tl value else value)
            in if s1 \<noteq> [] \<and> last s1 = CHR '']'' then butlast s1 else s1))"

definition isLoopback :: "string \<Rightarrow> bool" where
  "isLoopback input \<longleftrightarrow> input = ''127.0.0.1'' \<or> input = ''::1'' \<or> input = ''localhost''"

definition requestClientKey :: "(string \<Rightarrow> bool) \<Rightarrow> string option \<Rightarrow> header_value \<Rightarrow> string" where
  "requestClientKey isIP remoteAddress forwarded =
     (let peer = normalizeIp (case remoteAddress of None \<Rightarrow> [] | Some a \<Rightarrow> a);
          fallback = ''ip:'' @ (if peer = [] then ''unknown'' else peer)
      in case forwarded of
           OneHeader text \<Rightarrow>
             (if isLoopback peer
              then (let first = normalizeIp (js_trim (takeWhile (\<lambda>c. c \<noteq> CHR '','') text))
                    in if isIP first then ''ip:'' @ first else fallback)
              else fallback)
         | _ \<Rightarrow> fallback)"

section \<open>Invariant\<close>

definition rate_inv :: "FixedWindowRateLimiter \<Rightarrow> bool" where
  "rate_inv lim \<longleftrightarrow>
     1 \<le> rl_limit lim \<and> 1000 \<le> rl_windowMs lim \<and> 1 \<le> rl_maxKeys lim
     \<and> distinct (map fst (rl_entries lim))
     \<and> int (length (rl_entries lim)) \<le> rl_maxKeys lim
     \<and> sorted (map (\<lambda>(k, e). en_windowStartedAt e) (rl_entries lim))
     \<and> (\<forall>(k, e)\<in>set (rl_entries lim). 1 \<le> en_count e)"

text \<open>The clock does not run behind the start of a recorded window.\<close>

definition clock_ok :: "FixedWindowRateLimiter \<Rightarrow> int \<Rightarrow> bool" where
  "clock_ok lim now \<longleftrightarrow> (\<forall>(k, e)\<in>set (rl_entries lim). en_windowStartedAt e \<le> now)"

fun rate_admissible :: "FixedWindowRateLimiter \<Rightarrow> rate_op \<Rightarrow> bool" where
  "rate_admissible lim (Hit now key) = clock_ok lim now"
| "rate_admissible lim (IsLimited now key) = clock_ok lim now"
| "rate_admissible lim (Clear key) = True"

lemma boundedKey_same: "boundedKey k = Inr k' \<Longrightarrow> k' = k"
  by (simp add: boundedKey_def split: if_splits)

lemma expireEntries_fields [simp]:
  "rl_limit (expireEntries lim now) = rl_limit lim"
  "rl_windowMs (expireEntries lim now) = rl_windowMs lim"
  "rl_maxKeys (expireEntries lim now) = rl_maxKeys lim"
  by (simp_all add: expireEntries_def)

lemma drop_expired_key_fields [simp]:
  "rl_limit (drop_expired_key lim now key) = rl_limit lim"
  "rl_windowMs (drop_expired_key lim now key) = rl_windowMs lim"
  "rl_maxKeys (drop_expired_key lim now key) = rl_maxKeys lim"
  by (auto simp: drop_expired_key_def split: option.splits)

lemma window_active_cong:
  "rl_windowMs lim = rl_windowMs lim' \<Longrightarrow> window_active lim now e = window_active lim' now e"
  by (simp add: window_active_def)

lemma rate_inv_sublist:
  assumes "rate_inv lim" and "rl_limit lim' = rl_limit lim" "rl_windowMs lim' = rl_windowMs lim"
    "rl_maxKeys lim' = rl_maxKeys lim"
    and "\<exists>p. rl_entries lim' = filter p (rl_entries lim) \<or>
             rl_entries lim' = dropWhile p (rl_entries lim)"
  shows "rate_inv lim'"
proof -
  from assms(5) obtain p where "rl_entries lim' = filter p (rl_entries lim) \<or>
      rl_entries lim' = dropWhile p (rl_entries lim)" by blast
  then consider "rl_entries lim' = filter p (rl_entries lim)"
    | n where "rl_entries lim' = drop n (rl_entries lim)"
    by (metis dropWhile_eq_drop)
  then show ?thesis
  proof cases
    case 1
    then show ?thesis
      using assms(1-4) length_filter_le [of p "rl_entries lim"] unfolding rate_inv_def
      by (auto simp: distinct_map_filter sorted_filter simp del: length_filter_le)
  next
    case (2 n)
    then show ?thesis
      using assms(1-4) unfolding rate_inv_def
      by (auto simp: drop_map [symmetric] sorted_wrt_drop distinct_drop dest: in_set_dropD)
  qed
qed

lemma rate_inv_expireEntries [inv_lemmas]: "rate_inv lim \<Longrightarrow> rate_inv (expireEntries lim now)"
  by (rule rate_inv_sublist) (auto simp: expireEntries_def)

lemma rate_inv_clear [inv_lemmas]:
  "rate_inv lim \<Longrightarrow> rate_inv (lim\<lparr>rl_entries := jsmap_delete (rl_entries lim) key\<rparr>)"
  by (rule rate_inv_sublist) (auto simp: jsmap_delete_def)

lemma rate_inv_drop_expired_key [inv_lemmas]:
  "rate_inv lim \<Longrightarrow> rate_inv (drop_expired_key lim now key)"
  by (simp add: drop_expired_key_def rate_inv_clear split: option.split)

text \<open>Overwriting a key in place changes neither the keys nor, here, the window starts.\<close>

lemma jsmap_set_in_place:
  assumes "jsmap_get m key = Some e" and "start e' = start e"
  shows "map (\<lambda>(k, e). start e) (jsmap_set m key e') = map (\<lambda>(k, e). start e) m"
  using assms by (induction m key e' rule: jsmap_set.induct) (auto split: if_splits)

lemma jsmap_set_entries:
  "(k, v) \<in> set (jsmap_set m key e) \<Longrightarrow> (k, v) \<in> set m \<or> (k, v) = (key, e)"
  by (induction m key e rule: jsmap_set.induct) (auto split: if_splits)

lemma rate_inv_count_hit:
  assumes "rate_inv lim" and "jsmap_get (rl_entries lim) key = Some entry"
  shows "rate_inv (snd (count_hit lim now key entry))"
proof -
  have "key \<in> fst ` set (rl_entries lim)" and pos: "1 \<le> en_count entry"
    using assms by (auto simp: rate_inv_def image_iff dest!: map_of_SomeD intro: bexI [rotated])
  then show ?thesis
    using assms by (auto simp: count_hit_def rate_inv_def length_jsmap_set Let_def
        jsmap_set_in_place [OF assms(2)] dest!: jsmap_set_entries)
qed

lemma rate_inv_fresh_hit:
  assumes inv: "rate_inv lim" and clock: "clock_ok lim now"
    and fresh: "key \<notin> fst ` set (rl_entries lim)"
    and room: "int (length (rl_entries lim)) < rl_maxKeys lim"
    and entry: "entry = \<lparr>en_count = 0, en_windowStartedAt = now\<rparr>"
  shows "rate_inv (snd (count_hit (lim\<lparr>rl_entries := jsmap_set (rl_entries lim) key entry\<rparr>) now key entry))"
proof -
  have "jsmap_set (jsmap_set (rl_entries lim) key entry) key (entry\<lparr>en_count := en_count entry + 1\<rparr>)
        = rl_entries lim @ [(key, \<lparr>en_count = 1, en_windowStartedAt = now\<rparr>)]"
    using fresh by (simp add: entry jsmap_set_fresh jsmap_set_last)
  moreover have "\<forall>(k, e)\<in>set (rl_entries lim). en_windowStartedAt e \<le> now"
    using clock by (simp add: clock_ok_def)
  ultimately show ?thesis
    using inv fresh room by (auto simp: count_hit_def rate_inv_def sorted_append Let_def)
qed

lemma clock_ok_drop_expired_key:
  "clock_ok lim now \<Longrightarrow> clock_ok (drop_expired_key lim now key) now"
  by (auto simp: clock_ok_def drop_expired_key_def jsmap_delete_def split: option.splits)

lemma clock_ok_expireEntries: "clock_ok lim now \<Longrightarrow> clock_ok (expireEntries lim now) now"
  by (auto simp: clock_ok_def expireEntries_def dest!: set_dropWhileD)

text \<open>A key without a live window is absent once the expired entries are gone.\<close>

lemma no_live_entry_absent:
  assumes "live_entry lim now key = None"
  shows "key \<notin> fst ` set (rl_entries (expireEntries (drop_expired_key lim now key) now))"
proof -
  have "key \<notin> fst ` set (rl_entries (drop_expired_key lim now key))"
    using assms
    by (auto simp: live_entry_def drop_expired_key_def jsmap_delete_def map_of_eq_None_iff
        split: option.splits if_splits)
  then show ?thesis by (auto simp: expireEntries_def dest!: set_dropWhileD)
qed

lemma live_entry_kept:
  "live_entry lim now key = Some entry \<Longrightarrow>
     drop_expired_key lim now key = lim \<and> jsmap_get (rl_entries lim) key = Some entry
     \<and> window_active lim now entry"
  by (auto simp: live_entry_def drop_expired_key_def split: option.splits if_splits)

lemma hit_cases:
  assumes "hit lim now keyInput = Inr (d, lim')"
  obtains (live) entry where "live_entry lim now keyInput = Some entry"
      and "(d, lim') = count_hit lim now keyInput entry"
    | (saturated) "live_entry lim now keyInput = None"
      and "lim' = expireEntries (drop_expired_key lim now keyInput) now"
      and "rl_maxKeys lim \<le> int (length (rl_entries lim'))" and "d = saturatedDecision lim' now"
    | (fresh) lim2 entry where "live_entry lim now keyInput = None"
      and "lim2 = expireEntries (drop_expired_key lim now keyInput) now"
      and "int (length (rl_entries lim2)) < rl_maxKeys lim"
      and "entry = \<lparr>en_count = 0, en_windowStartedAt = now\<rparr>"
      and "(d, lim') = count_hit (lim2\<lparr>rl_entries := jsmap_set (rl_entries lim2) keyInput entry\<rparr>)
                         now keyInput entry"
proof -
  have key: "boundedKey keyInput = Inr keyInput"
    using assms by (auto simp: hit_def boundedKey_def split: sum.splits if_splits)
  show ?thesis
  proof (cases "live_entry lim now keyInput")
    case (Some entry)
    then show ?thesis
      using assms key live(1) live_entry_kept [OF Some] by (simp add: hit_def Let_def)
  next
    case None
    then show ?thesis
      using assms key saturated fresh by (auto simp: hit_def Let_def split: if_splits)
  qed
qed

lemma rate_step_inv:
  assumes inv: "rate_inv lim" and adm: "rate_admissible lim op" and step: "rate_step lim op = Inr lim'"
  shows "rate_inv lim'"
proof (cases op)
  case (Hit now key)
  then obtain d where hit: "hit lim now key = Inr (d, lim')"
    using step by (cases "hit lim now key") auto
  from Hit adm have clock: "clock_ok lim now" by simp
  from hit show ?thesis
  proof (cases rule: hit_cases)
    case (live entry)
    then show ?thesis
      using rate_inv_count_hit [OF inv] live_entry_kept by (metis snd_conv)
  next
    case saturated
    then show ?thesis using inv by (simp add: inv_lemmas)
  next
    case (fresh lim2 entry)
    have "rate_inv lim2" "clock_ok lim2 now" "key \<notin> fst ` set (rl_entries lim2)"
      using fresh inv clock
      by (simp_all add: inv_lemmas clock_ok_expireEntries clock_ok_drop_expired_key no_live_entry_absent)
    then show ?thesis
      using rate_inv_fresh_hit [of lim2 now key entry] fresh by (metis expireEntries_fields(3)
          drop_expired_key_fields(3) snd_conv)
  qed
next
  case (IsLimited now key)
  then show ?thesis
    using step inv
    by (auto simp: isLimited_def Let_def inv_lemmas split: sum.splits option.splits if_splits)
next
  case (Clear key)
  then show ?thesis
    using step inv by (auto simp: clear_key_def inv_lemmas split: sum.splits)
qed

interpretation rate_limiter: transactional_store rate_step rate_inv rate_admissible
  by unfold_locales (rule rate_step_inv)

section \<open>Windows and quotas\<close>

text \<open>The time an operation reads and the key it works on.\<close>

fun op_key :: "rate_op \<Rightarrow> string" where
  "op_key (Hit now key) = key"
| "op_key (IsLimited now key) = key"
| "op_key (Clear key) = key"

fun op_before :: "int \<Rightarrow> rate_op \<Rightarrow> bool" where
  "op_before t (Hit now key) = (now < t)"
| "op_before t (IsLimited now key) = (now < t)"
| "op_before t (Clear key) = True"

text \<open>The number of hits on a key, and of those the limiter allows, in a sequence of operations.\<close>

fun hits_on :: "string \<Rightarrow> rate_op list \<Rightarrow> nat" where
  "hits_on k [] = 0"
| "hits_on k (Hit now key # ops) = (if key = k then 1 else 0) + hits_on k ops"
| "hits_on k (IsLimited now key # ops) = hits_on k ops"
| "hits_on k (Clear key # ops) = hits_on k ops"

definition step_or_stay :: "FixedWindowRateLimiter \<Rightarrow> rate_op \<Rightarrow> FixedWindowRateLimiter" where
  "step_or_stay lim op = (case rate_step lim op of Inl _ \<Rightarrow> lim | Inr lim' \<Rightarrow> lim')"

definition allows :: "FixedWindowRateLimiter \<Rightarrow> string \<Rightarrow> rate_op \<Rightarrow> bool" where
  "allows lim k op = (case op of
     Hit now key \<Rightarrow> key = k \<and> (case hit lim now key of Inl _ \<Rightarrow> False | Inr (d, _) \<Rightarrow> rd_allowed d)
   | _ \<Rightarrow> False)"

fun allowed_hits :: "FixedWindowRateLimiter \<Rightarrow> string \<Rightarrow> rate_op list \<Rightarrow> nat" where
  "allowed_hits lim k [] = 0"
| "allowed_hits lim k (op # ops) =
     (if allows lim k op then 1 else 0) + allowed_hits (step_or_stay lim op) k ops"

lemma get_dropWhile_kept:
  "jsmap_get m k = Some e \<Longrightarrow> \<not> p (k, e) \<Longrightarrow> jsmap_get (dropWhile p m) k = Some e"
  by (induction m) (auto split: if_splits)

lemma get_expire_drop:
  assumes "jsmap_get (rl_entries lim) k = Some e" and "window_active lim now e" and "k \<noteq> key"
  shows "jsmap_get (rl_entries (expireEntries (drop_expired_key lim now key) now)) k = Some e"
proof -
  have "jsmap_get (rl_entries (drop_expired_key lim now key)) k = Some e"
    using assms by (auto simp: drop_expired_key_def split: option.splits)
  then show ?thesis
    using assms(2) by (auto simp: expireEntries_def window_active_def intro!: get_dropWhile_kept)
qed

lemma rate_step_limits:
  assumes "rate_step lim op = Inr lim'"
  shows "rl_limit lim' = rl_limit lim \<and> rl_windowMs lim' = rl_windowMs lim
       \<and> rl_maxKeys lim' = rl_maxKeys lim"
  using assms
  by (cases op) (auto simp: hit_def isLimited_def clear_key_def count_hit_def Let_def
      split: sum.splits option.splits if_splits)

text \<open>An operation on another key leaves a running window as it is.\<close>

lemma other_window_kept:
  assumes step: "rate_step lim op = Inr lim'" and other: "op_key op \<noteq> k"
    and e: "jsmap_get (rl_entries lim) k = Some e"
    and before: "op_before (en_windowStartedAt e + rl_windowMs lim) op"
  shows "jsmap_get (rl_entries lim') k = Some e"
proof (cases op)
  case (Hit now key)
  then obtain d where hit: "hit lim now key = Inr (d, lim')"
    using step by (cases "hit lim now key") auto
  have act: "window_active lim now e" using before Hit by (auto simp: window_active_def)
  have ne: "k \<noteq> key" using other Hit by simp
  from hit show ?thesis
    by (cases rule: hit_cases)
       (use e ne get_expire_drop [OF e act ne] in \<open>auto simp: count_hit_def Let_def\<close>)
next
  case (IsLimited now key)
  then have act: "window_active lim now e" using before by (auto simp: window_active_def)
  have "k \<noteq> key" using other IsLimited by simp
  from get_expire_drop [OF e act this] show ?thesis
    using step IsLimited e
    by (auto simp: isLimited_def Let_def dest!: boundedKey_same split: sum.splits option.splits if_splits)
next
  case (Clear key)
  then show ?thesis
    using step other e by (auto simp: clear_key_def dest!: boundedKey_same split: sum.splits)
qed

text \<open>A hit on a key with a running window only counts.\<close>

lemma hit_running_window:
  assumes "boundedKey k = Inr k" and "jsmap_get (rl_entries lim) k = Some e"
    and "now < en_windowStartedAt e + rl_windowMs lim"
  shows "hit lim now k = Inr (count_hit lim now k e)" and "live_entry lim now k = Some e"
proof -
  show live: "live_entry lim now k = Some e"
    using assms by (auto simp: live_entry_def window_active_def)
  show "hit lim now k = Inr (count_hit lim now k e)"
    using assms live live_entry_kept [OF live] by (simp add: hit_def)
qed

lemma running_window_quota:
  assumes key: "boundedKey k = Inr k"
  shows "jsmap_get (rl_entries lim) k = Some e \<Longrightarrow>
    \<forall>op\<in>set ops. op_before (en_windowStartedAt e + rl_windowMs lim) op \<and> op \<noteq> Clear k \<Longrightarrow>
    allowed_hits lim k ops = min (hits_on k ops) (nat (rl_limit lim - en_count e))"
proof (induction ops arbitrary: lim e)
  case (Cons op ops)
  let ?lim' = "step_or_stay lim op"
  have keep: "rl_limit ?lim' = rl_limit lim" "rl_windowMs ?lim' = rl_windowMs lim"
    using rate_step_limits by (auto simp: step_or_stay_def split: sum.splits)
  show ?case
  proof (cases "op_key op = k")
    case False
    have "jsmap_get (rl_entries ?lim') k = Some e"
      using other_window_kept [OF _ False Cons.prems(1)] Cons.prems
      by (auto simp: step_or_stay_def split: sum.splits)
    moreover have "hits_on k (op # ops) = hits_on k ops" "\<not> allows lim k op"
      using False by (cases op; simp add: allows_def)+
    ultimately show ?thesis using Cons.IH [of ?lim' e] Cons.prems(2) keep by simp
  next
    case True
    then consider now where "op = Hit now k" | now where "op = IsLimited now k"
      using Cons.prems(2) by (cases op) auto
    then show ?thesis
    proof cases
      case (1 now)
      let ?e' = "e\<lparr>en_count := en_count e + 1\<rparr>"
      have hit: "hit lim now k = Inr (count_hit lim now k e)"
        using hit_running_window [OF key Cons.prems(1)] Cons.prems(2) 1 by simp
      then have "jsmap_get (rl_entries ?lim') k = Some ?e'"
        and "allows lim k op \<longleftrightarrow> en_count e + 1 \<le> rl_limit lim"
        using 1 by (auto simp: step_or_stay_def count_hit_def allows_def Let_def)
      then show ?thesis using Cons.IH [of ?lim' ?e'] Cons.prems(2) keep 1 by auto
    next
      case (2 now)
      have "live_entry lim now k = Some e"
        using hit_running_window(2) [OF key Cons.prems(1)] Cons.prems(2) 2 by simp
      then have "?lim' = lim" using 2 key by (simp add: step_or_stay_def isLimited_def)
      then show ?thesis using Cons.IH [of lim e] Cons.prems 2 by (simp add: allows_def)
    qed
  qed
qed simp

text \<open>A first hit when there is room opens a window with count one and is allowed.\<close>

lemma hit_opens_window:
  assumes "boundedKey k = Inr k" and "live_entry lim now k = None"
    and "int (length (rl_entries (expireEntries (drop_expired_key lim now k) now))) < rl_maxKeys lim"
  obtains d lim' where "hit lim now k = Inr (d, lim')" and "rd_allowed d = (1 \<le> rl_limit lim)"
    and "jsmap_get (rl_entries lim') k = Some \<lparr>en_count = 1, en_windowStartedAt = now\<rparr>"
    and "rl_limit lim' = rl_limit lim" and "rl_windowMs lim' = rl_windowMs lim"
  using assms that by (auto simp: hit_def count_hit_def Let_def)

lemma dropWhile_expired_sorted:
  "sorted (map (\<lambda>(k, e). en_windowStartedAt e) m) \<Longrightarrow>
   dropWhile (\<lambda>(k, e). \<not> window_active lim now e) m = filter (\<lambda>(k, e). window_active lim now e) m"
proof (induction m)
  case (Cons x m)
  obtain k e where x: "x = (k, e)" by (cases x)
  show ?case
  proof (cases "window_active lim now e")
    case True
    with Cons.prems x have "\<forall>(k', e')\<in>set m. window_active lim now e'"
      by (auto simp: window_active_def)
    then have "filter (\<lambda>(k, e). window_active lim now e) m = m" by (auto simp: filter_id_conv)
    with True x show ?thesis by simp
  next
    case False
    with Cons x show ?thesis by simp
  qed
qed simp

lemma ceil_seconds_enough: "x \<le> 1000 * max 1 (ceil_seconds x)"
proof -
  have "1000 * ((- x) div 1000) + (- x) mod 1000 = - x" and "0 \<le> (- x) mod 1000"
    by (simp_all only: mult_div_mod_eq pos_mod_sign zero_less_numeral)
  then show ?thesis unfolding ceil_seconds_def by linarith
qed

section \<open>Properties\<close>

text \<open>
  From construction on, as long as the clock does not run behind a recorded window, every
  sequence of hits, checks and clears keeps the limiter's map free of duplicate keys, within
  \<open>maxKeys\<close>, ordered by window start, with positive counts.
\<close>

theorem rate_limiter_invariant:
  assumes "new_limiter limit windowMs maxKeys = Inr lim"
    and "all_admissible rate_admissible rate_step lim ops"
  shows "rate_inv (run_ops rate_step lim ops)"
proof -
  from assms(1) have "rate_inv lim"
    by (auto simp: new_limiter_def rate_inv_def Let_def split: if_splits option.splits)
  then show ?thesis using assms(2) by (rule rate_limiter.run_inv)
qed

theorem rate_limiter_invariant_witness:
  "rate_inv (run_ops rate_step \<lparr>rl_limit = 2, rl_windowMs = 1000, rl_maxKeys = 1, rl_entries = []\<rparr>
     [Hit 0 ''a'', Hit 5 ''b'', Hit 1000 ''b'', IsLimited 1001 ''a''])"
  by (rule rate_limiter_invariant [of 2 1000 "Some 1"])
     (simp_all add: new_limiter_def hit_def isLimited_def boundedKey_def nul_char_def live_entry_def
       drop_expired_key_def expireEntries_def window_active_def count_hit_def clock_ok_def
       saturatedDecision_def jsmap_delete_def Let_def)

text \<open>
  The amortised expiry, which stops at the first running window, removes exactly the expired
  windows: on a limiter satisfying the invariant it equals a scan of the whole map.
\<close>

theorem expireEntries_complete:
  assumes "rate_inv lim"
  shows "rl_entries (expireEntries lim now) =
         filter (\<lambda>(k, e). window_active lim now e) (rl_entries lim)"
  using assms by (simp add: expireEntries_def rate_inv_def dropWhile_expired_sorted)

theorem expireEntries_complete_witness:
  "rl_entries (expireEntries \<lparr>rl_limit = 2, rl_windowMs = 1000, rl_maxKeys = 9,
       rl_entries = [(''a'', \<lparr>en_count = 1, en_windowStartedAt = 0\<rparr>),
                     (''b'', \<lparr>en_count = 2, en_windowStartedAt = 700\<rparr>)]\<rparr> 1200)
   = [(''b'', \<lparr>en_count = 2, en_windowStartedAt = 700\<rparr>)]"
  by (subst expireEntries_complete) (simp_all add: rate_inv_def window_active_def)

text \<open>
  C18. Quota of a window: once a hit opens a window for a key at time t, of all later hits on that
  key before the window ends, interleaved with any operations on other keys and any checks,
  exactly so many are allowed that the window's total is the smaller of the number of hits and
  the limit. No flood of other keys changes it.
\<close>

theorem window_quota:
  assumes "rate_inv lim" and "boundedKey k = Inr k" and "live_entry lim t k = None"
    and "int (length (rl_entries (expireEntries (drop_expired_key lim t k) t))) < rl_maxKeys lim"
    and "\<forall>op\<in>set ops. op_before (t + rl_windowMs lim) op \<and> op \<noteq> Clear k"
  shows "allowed_hits lim k (Hit t k # ops) = min (hits_on k (Hit t k # ops)) (nat (rl_limit lim))"
proof -
  obtain d lim' where hit: "hit lim t k = Inr (d, lim')" "rd_allowed d = (1 \<le> rl_limit lim)"
    and e: "jsmap_get (rl_entries lim') k = Some \<lparr>en_count = 1, en_windowStartedAt = t\<rparr>"
    and same: "rl_limit lim' = rl_limit lim" "rl_windowMs lim' = rl_windowMs lim"
    using hit_opens_window [OF assms(2-4)] by blast
  have "allowed_hits lim' k ops = min (hits_on k ops) (nat (rl_limit lim - 1))"
    using running_window_quota [OF assms(2) e, of ops] assms(5) same by simp
  then show ?thesis
    using hit assms(1) by (auto simp: step_or_stay_def allows_def rate_inv_def)
qed

theorem window_quota_witness:
  "allowed_hits \<lparr>rl_limit = 2, rl_windowMs = 1000, rl_maxKeys = 5, rl_entries = []\<rparr> ''a''
     [Hit 0 ''a'', Hit 1 ''b'', Hit 2 ''a'', Hit 3 ''a'', Hit 999 ''a''] = 2"
  by (subst window_quota)
     (simp_all add: rate_inv_def boundedKey_def nul_char_def live_entry_def expireEntries_def
       drop_expired_key_def)

text \<open>
  Retry-After is honest: a client that is refused, waits at least the advertised number of
  seconds and hits again, with nothing in between, is allowed, whether it was refused for its own
  quota or because the map was full.
\<close>

theorem retry_after_is_honest:
  assumes inv: "rate_inv lim" and clock: "clock_ok lim now"
    and hit: "hit lim now k = Inr (d, lim')" and refused: "\<not> rd_allowed d"
    and wait: "now' \<ge> now + 1000 * rd_retryAfterSeconds d"
  shows "\<exists>d' lim''. hit lim' now' k = Inr (d', lim'') \<and> rd_allowed d'"
proof -
  have key: "boundedKey k = Inr k"
    using hit by (auto simp: hit_def boundedKey_def split: sum.splits if_splits)
  have inv': "rate_inv lim'"
    using rate_step_inv [OF inv, of "Hit now k" lim'] hit clock by simp
  have expired: "\<not> window_active lim' now' e"
    if "now' \<ge> now + 1000 * retryAfter lim'' now e" "rl_windowMs lim'' = rl_windowMs lim'" for e lim''
    using that ceil_seconds_enough [of "en_windowStartedAt e + rl_windowMs lim'' - now"]
    by (simp add: window_active_def retryAfter_def)
  have lims: "rl_limit lim' = rl_limit lim" "rl_windowMs lim' = rl_windowMs lim"
    "rl_maxKeys lim' = rl_maxKeys lim"
    using rate_step_limits [of lim "Hit now k" lim'] hit by auto
  have room: "live_entry lim' now' k = None \<and>
      int (length (rl_entries (expireEntries (drop_expired_key lim' now' k) now'))) < rl_maxKeys lim'"
    using hit
  proof (cases rule: hit_cases)
    case (live entry)
    let ?e = "entry\<lparr>en_count := en_count entry + 1\<rparr>"
    have get: "jsmap_get (rl_entries lim') k = Some ?e" and d: "rd_retryAfterSeconds d = retryAfter lim now ?e"
      using live by (auto simp: count_hit_def Let_def)
    have "\<not> window_active lim' now' ?e" using expired [of lim ?e] wait d lims by simp
    then have none: "live_entry lim' now' k = None"
      and drop: "rl_entries (drop_expired_key lim' now' k) = jsmap_delete (rl_entries lim') k"
      using get by (simp_all add: live_entry_def drop_expired_key_def)
    have "(k, ?e) \<in> set (rl_entries lim')" using get by (rule map_of_SomeD)
    then have "length (jsmap_delete (rl_entries lim') k) < length (rl_entries lim')"
      unfolding jsmap_delete_def by (rule length_filter_less) simp
    with drop have "length (rl_entries (expireEntries (drop_expired_key lim' now' k) now'))
        < length (rl_entries lim')"
      by (simp add: expireEntries_def) (meson le_less_trans length_dropWhile_le)
    with none inv' show ?thesis by (auto simp: rate_inv_def)
  next
    case saturated
    have absent: "k \<notin> fst ` set (rl_entries lim')"
      using no_live_entry_absent saturated by blast
    then have none: "live_entry lim' now' k = None" "drop_expired_key lim' now' k = lim'"
      by (auto simp: live_entry_def drop_expired_key_def map_of_eq_None_iff [symmetric])
    from saturated(3) inv obtain k0 e0 rest where es: "rl_entries lim' = (k0, e0) # rest"
      by (cases "rl_entries lim'") (auto simp: rate_inv_def)
    then have "\<not> window_active lim' now' e0"
      using expired [of lim' e0] wait saturated(4) by (simp add: saturatedDecision_def)
    then have "length (rl_entries (expireEntries lim' now')) < length (rl_entries lim')"
      using es by (simp add: expireEntries_def le_imp_less_Suc length_dropWhile_le)
    with none inv' show ?thesis by (auto simp: rate_inv_def)
  next
    case (fresh lim2 entry)
    then have "rd_allowed d = (1 \<le> rl_limit lim)" by (auto simp: count_hit_def Let_def)
    with refused inv show ?thesis by (simp add: rate_inv_def)
  qed
  then obtain d' lim'' where "hit lim' now' k = Inr (d', lim'')" "rd_allowed d' = (1 \<le> rl_limit lim')"
    using hit_opens_window [OF key] by blast
  then show ?thesis using inv' by (auto simp: rate_inv_def)
qed

theorem retry_after_is_honest_witness:
  "\<exists>d' lim''. hit \<lparr>rl_limit = 1, rl_windowMs = 1500, rl_maxKeys = 5,
     rl_entries = [(''a'', \<lparr>en_count = 2, en_windowStartedAt = 0\<rparr>)]\<rparr> 2100 ''a'' = Inr (d', lim'')
     \<and> rd_allowed d'"
  by (rule retry_after_is_honest [where now = 100 and d = "\<lparr>rd_allowed = False, rd_remaining = 0,
        rd_retryAfterSeconds = 2\<rparr>" and lim = "\<lparr>rl_limit = 1, rl_windowMs = 1500, rl_maxKeys = 5,
        rl_entries = [(''a'', \<lparr>en_count = 1, en_windowStartedAt = 0\<rparr>)]\<rparr>"])
     (simp_all add: rate_inv_def clock_ok_def hit_def boundedKey_def nul_char_def live_entry_def
       window_active_def drop_expired_key_def count_hit_def retryAfter_def ceil_seconds_def)

text \<open>
  A client that does not connect from the loopback address cannot choose its rate-limit key:
  whatever X-Forwarded-For it sends, the key is the one of its own address.
\<close>

theorem forwarded_header_ignored_from_remote_peer:
  assumes "\<not> isLoopback (normalizeIp (case remoteAddress of None \<Rightarrow> [] | Some a \<Rightarrow> a))"
  shows "requestClientKey isIP remoteAddress forwarded = requestClientKey isIP remoteAddress NoHeader"
  using assms by (auto simp: requestClientKey_def Let_def split: header_value.splits)

theorem forwarded_header_ignored_from_remote_peer_witness:
  "requestClientKey (\<lambda>_. True) (Some ''10.0.0.9'') (OneHeader ''1.2.3.4'') = ''ip:10.0.0.9''"
proof -
  have "requestClientKey (\<lambda>_. True) (Some ''10.0.0.9'') (OneHeader ''1.2.3.4'')
        = requestClientKey (\<lambda>_. True) (Some ''10.0.0.9'') NoHeader"
    by (rule forwarded_header_ignored_from_remote_peer)
       (simp add: isLoopback_def normalizeIp_def js_defs)
  also have "\<dots> = ''ip:10.0.0.9''" by (simp add: requestClientKey_def normalizeIp_def js_defs)
  finally show ?thesis .
qed

end
