(* ===== verification/Lineage.thy ===== *)
theory Lineage
  imports Prelude Complex_Main
begin

text \<open>
  Canonical texts and content digests of the verified plan runtime: \<open>canonical\<close>, \<open>digestPlan\<close> and
  \<open>digestBeliefs\<close> of \<open>packages/verified-plan-runtime/src/lineage.ts\<close>. A JavaScript value is a \<open>json\<close>
  value; an object is the list of its properties, with distinct keys, and a property may be present
  with the value undefined. The text of a number and the SHA-256 function are arguments.
\<close>

datatype json =
    JUndef
  | JNull
  | JBool bool
  | JNum rat
  | JStr string
  | JArr "json list"
  | JObj "(string \<times> json) list"

section \<open>String literals\<close>

definition hex_char :: "nat \<Rightarrow> char" where
  "hex_char n = (if n < 10 then char_of (n + 48) else char_of (n + 87))"

text \<open>\<open>JSON.stringify\<close> of one code unit inside a string literal.\<close>

definition quote_char :: "char \<Rightarrow> string" where
  "quote_char c =
     (if c = CHR 0x22 \<or> c = CHR 0x5C then [CHR 0x5C, c]
      else if c = CHR 0x08 then [CHR 0x5C, CHR ''b'']
      else if c = CHR 0x09 then [CHR 0x5C, CHR ''t'']
      else if c = CHR 0x0A then [CHR 0x5C, CHR ''n'']
      else if c = CHR 0x0C then [CHR 0x5C, CHR ''f'']
      else if c = CHR 0x0D then [CHR 0x5C, CHR ''r'']
      else let n = of_char c :: nat in
        if n < 32 then [CHR 0x5C, CHR ''u'', CHR ''0'', CHR ''0'', hex_char (n div 16), hex_char (n mod 16)]
        else [c])"

definition quote :: "string \<Rightarrow> string" where
  "quote s = CHR 0x22 # concat (map quote_char s) @ [CHR 0x22]"

section \<open>Canonical text\<close>

definition comma_join :: "string list \<Rightarrow> string" where
  "comma_join xs = (case xs of [] \<Rightarrow> [] | x # ys \<Rightarrow> x @ concat (map (\<lambda>y. CHR '','' # y) ys))"

definition member_text :: "string \<times> string \<Rightarrow> string" where
  "member_text kv = quote (fst kv) @ CHR '':'' # snd kv"

fun canonical :: "(rat \<Rightarrow> string) \<Rightarrow> json \<Rightarrow> string" where
  "canonical num JUndef = quote ''__undefined__''"
| "canonical num JNull = ''null''"
| "canonical num (JBool b) = (if b then ''true'' else ''false'')"
| "canonical num (JNum q) = num q"
| "canonical num (JStr s) = quote s"
| "canonical num (JArr xs) = CHR ''['' # comma_join (map (canonical num) xs) @ [CHR '']'']"
| "canonical num (JObj kvs) =
     CHR ''{'' # comma_join (map member_text (sort_key fst (map (\<lambda>(k, v). (k, canonical num v)) kvs)))
       @ [CHR ''}'']"

text \<open>The library functions behind a digest: number texts, ISO timestamps, and SHA-256 in hexadecimal.\<close>

record Hashing =
  h_num :: "rat \<Rightarrow> string"
  h_iso :: "int \<Rightarrow> string"
  h_sha256 :: "string \<Rightarrow> string"

definition digestPlan :: "Hashing \<Rightarrow> json \<Rightarrow> string" where
  "digestPlan H v = h_sha256 H (canonical (h_num H) v)"

definition digestBeliefs :: "Hashing \<Rightarrow> json \<Rightarrow> string" where
  "digestBeliefs H v = h_sha256 H (canonical (h_num H) v)"

text \<open>What survives writing a value as JSON text and reading it back: undefined properties vanish.\<close>

fun json_persisted :: "json \<Rightarrow> json" where
  "json_persisted (JArr xs) = JArr (map (\<lambda>v. if v = JUndef then JNull else json_persisted v) xs)"
| "json_persisted (JObj kvs) = JObj (map (\<lambda>(k, v). (k, json_persisted v)) (filter (\<lambda>kv. snd kv \<noteq> JUndef) kvs))"
| "json_persisted v = v"

text \<open>
  A property of an object that the code sometimes leaves out and sometimes sets to undefined: the two
  read alike, but an undefined property is part of the canonical text.
\<close>

datatype 'a property = Absent | Undefined | Value 'a

definition prop_value :: "'a property \<Rightarrow> 'a option" where
  "prop_value p = (case p of Value v \<Rightarrow> Some v | _ \<Rightarrow> None)"

lemma prop_value_simps [simp]:
  "prop_value Absent = None" "prop_value Undefined = None" "prop_value (Value v) = Some v"
  by (simp_all add: prop_value_def)

definition prop_member :: "string \<Rightarrow> string property \<Rightarrow> (string \<times> json) list" where
  "prop_member k p = (case p of Absent \<Rightarrow> [] | Undefined \<Rightarrow> [(k, JUndef)] | Value s \<Rightarrow> [(k, JStr s)])"

definition opt_member :: "('a \<Rightarrow> json) \<Rightarrow> string \<Rightarrow> 'a option \<Rightarrow> (string \<times> json) list" where
  "opt_member f k v = (case v of None \<Rightarrow> [] | Some s \<Rightarrow> [(k, f s)])"

definition strings_json :: "string list \<Rightarrow> json" where
  "strings_json xs = JArr (map JStr xs)"

section \<open>Decoding string literals\<close>

definition unquote_char :: "string \<Rightarrow> char" where
  "unquote_char t =
     (if length t = 1 then hd t
      else if length t = 2 then
        (if t ! 1 = CHR ''b'' then CHR 0x08 else if t ! 1 = CHR ''t'' then CHR 0x09 else if t ! 1 = CHR ''n'' then CHR 0x0A
         else if t ! 1 = CHR ''f'' then CHR 0x0C else if t ! 1 = CHR ''r'' then CHR 0x0D else t ! 1)
      else (let d = (of_char (t ! 5) :: nat); e = (of_char (t ! 4) :: nat) in
        char_of ((if e < 58 then e - 48 else e - 87) * 16 + (if d < 58 then d - 48 else d - 87))))"

lemma hex_value: "m < 16 \<Longrightarrow> (let e = (of_char (hex_char m) :: nat) in if e < 58 then e - 48 else e - 87) = m"
  by (auto simp: hex_char_def Let_def)

lemma unquote_quote [simp]: "unquote_char (quote_char c) = c"
proof (cases "c \<in> {CHR 0x22, CHR 0x5C, CHR 0x08, CHR 0x09, CHR 0x0A, CHR 0x0C, CHR 0x0D}")
  case True
  then show ?thesis by (auto simp: quote_char_def unquote_char_def)
next
  case plain: False
  show ?thesis
  proof (cases "(of_char c :: nat) < 32")
    case True
    then have "(of_char c :: nat) div 16 < 16" "(of_char c :: nat) mod 16 < 16" by auto
    with hex_value show ?thesis using True plain by (simp add: unquote_char_def quote_char_def Let_def)
  next
    case False
    with plain show ?thesis by (simp add: unquote_char_def quote_char_def Let_def)
  qed
qed

definition literal_length :: "string \<Rightarrow> nat" where
  "literal_length t = (if hd t \<noteq> CHR 0x5C then 1 else if t ! 1 \<noteq> CHR ''u'' then 2 else 6)"

lemma char_neq_of: "(of_char c :: nat) \<noteq> of_char d \<Longrightarrow> c \<noteq> d"
  by auto

lemma literal_length_quote [simp]: "literal_length (quote_char c @ r) = length (quote_char c)"
  by (auto simp: literal_length_def quote_char_def Let_def)

lemma quote_char_shape: "quote_char c \<noteq> []" "hd (quote_char c) \<noteq> CHR 0x22"
  by (auto simp: quote_char_def Let_def)

lemma quote_char_prefix_free: "quote_char c @ r = quote_char d @ s \<Longrightarrow> c = d \<and> r = s"
proof -
  assume eq: "quote_char c @ r = quote_char d @ s"
  then have "length (quote_char c) = length (quote_char d)" by (metis literal_length_quote)
  with eq have "quote_char c = quote_char d" "r = s" by auto
  then show ?thesis by (metis unquote_quote)
qed

lemma quote_body_start: "concat (map quote_char (c # s)) @ r \<noteq> CHR 0x22 # u"
  using quote_char_shape [of c] by (cases "quote_char c") auto

lemma quote_body_prefix_free:
  "concat (map quote_char s) @ CHR 0x22 # r = concat (map quote_char t) @ CHR 0x22 # u \<Longrightarrow> s = t \<and> r = u"
proof (induction s t rule: list_induct2')
  case (2 c s)
  from 2 quote_body_start [of c s "CHR 0x22 # r" u] have False by (simp only: list.map concat.simps append_Nil)
  then show ?case ..
next
  case (3 d t)
  from 3 quote_body_start [of d t "CHR 0x22 # u" r] have False
    by (simp only: list.map concat.simps append_Nil not_sym)
  then show ?case ..
next
  case (4 c s d t)
  from "4.prems" have eq: "quote_char c @ (concat (map quote_char s) @ CHR 0x22 # r)
      = quote_char d @ (concat (map quote_char t) @ CHR 0x22 # u)"
    by (simp only: list.map concat.simps append_assoc)
  then have "c = d" "concat (map quote_char s) @ CHR 0x22 # r = concat (map quote_char t) @ CHR 0x22 # u"
    by (auto dest: quote_char_prefix_free)
  with "4.IH" show ?case by blast
qed simp

lemma quote_prefix_free: "quote s @ r = quote t @ u \<Longrightarrow> s = t \<and> r = u"
  using quote_body_prefix_free [of s r t u] by (simp add: quote_def)

section \<open>The canonical text determines the value\<close>

text \<open>Keys in order at every level, which is all that \<open>canonical\<close> forgets.\<close>

fun key_sorted :: "json \<Rightarrow> json" where
  "key_sorted (JArr xs) = JArr (map key_sorted xs)"
| "key_sorted (JObj kvs) = JObj (sort_key fst (map (\<lambda>(k, v). (k, key_sorted v)) kvs))"
| "key_sorted v = v"

fun defined_json :: "json \<Rightarrow> bool" where
  "defined_json JUndef = False"
| "defined_json (JArr xs) = list_all defined_json xs"
| "defined_json (JObj kvs) = list_all (\<lambda>(k, v). defined_json v) kvs"
| "defined_json v = True"

text \<open>The same text without sorting.\<close>

fun emit :: "(rat \<Rightarrow> string) \<Rightarrow> json \<Rightarrow> string" where
  "emit num JUndef = quote ''__undefined__''"
| "emit num JNull = ''null''"
| "emit num (JBool b) = (if b then ''true'' else ''false'')"
| "emit num (JNum q) = num q"
| "emit num (JStr s) = quote s"
| "emit num (JArr xs) = CHR ''['' # comma_join (map (emit num) xs) @ [CHR '']'']"
| "emit num (JObj kvs) =
     CHR ''{'' # comma_join (map (\<lambda>(k, v). quote k @ CHR '':'' # emit num v) kvs) @ [CHR ''}'']"

lemma insort_map_snd:
  "insort_key fst (k, f v) (map (\<lambda>(k, v). (k, f v)) xs) = map (\<lambda>(k, v). (k, f v)) (insort_key fst (k, v) xs)"
  by (induction xs) auto

lemma sort_map_snd:
  "sort_key fst (map (\<lambda>(k, v). (k, f v)) kvs) = map (\<lambda>(k, v). (k, f v)) (sort_key fst kvs)"
  by (induction kvs) (auto simp: insort_map_snd)

lemma canonical_emit: "canonical num v = emit num (key_sorted v)"
proof (induction v rule: key_sorted.induct)
  case (2 kvs)
  have "map (\<lambda>(k, v). (k, canonical num v)) kvs = map (\<lambda>(k, v). (k, emit num v)) (map (\<lambda>(k, v). (k, key_sorted v)) kvs)"
    using 2 by auto
  then have "sort_key fst (map (\<lambda>(k, v). (k, canonical num v)) kvs)
      = map (\<lambda>(k, v). (k, emit num v)) (sort_key fst (map (\<lambda>(k, v). (k, key_sorted v)) kvs))"
    by (simp only: sort_map_snd)
  then show ?case by (simp add: member_text_def comp_def split_def)
qed (simp_all cong: map_cong)

lemma defined_key_sorted: "defined_json v \<Longrightarrow> defined_json (key_sorted v)"
  by (induction v rule: key_sorted.induct) (auto simp: list_all_iff)

definition number_chars :: string where
  "number_chars = ''0123456789+-.e''"

text \<open>What JSON number texts satisfy: different numbers differ, and only number characters occur.\<close>

definition number_text :: "(rat \<Rightarrow> string) \<Rightarrow> bool" where
  "number_text num \<longleftrightarrow> inj num \<and> (\<forall>q. num q \<noteq> [] \<and> set (num q) \<subseteq> set number_chars)"

text \<open>What may follow a value: nothing, or a separator.\<close>

definition value_end :: "string \<Rightarrow> bool" where
  "value_end r \<longleftrightarrow> r = [] \<or> hd r \<in> {CHR '','', CHR '']'', CHR ''}''}"

lemma value_end_simps [simp]:
  "value_end []" "value_end (CHR '','' # r)" "value_end (CHR '']'' # r)" "value_end (CHR ''}'' # r)"
  by (simp_all add: value_end_def)

lemma number_prefix_free:
  assumes "number_text num" "num q @ r = num p @ s" "value_end r" "value_end s"
  shows "q = p \<and> r = s"
proof -
  have tw: "takeWhile (\<lambda>c. c \<in> set number_chars) (num x @ t) = num x" if "value_end t" for x t
  proof -
    have "\<forall>c\<in>set (num x). c \<in> set number_chars" using assms(1) by (auto simp: number_text_def)
    moreover have "takeWhile (\<lambda>c. c \<in> set number_chars) t = []"
      using that by (cases t) (auto simp: value_end_def number_chars_def)
    ultimately show ?thesis by (simp add: takeWhile_append2)
  qed
  from tw [OF assms(3), of q] tw [OF assms(4), of p] assms(2) have "num q = num p" by simp
  with assms(1,2) show ?thesis by (auto simp: number_text_def dest: injD)
qed

lemma separated_prefix_free:
  assumes el: "\<And>x y r s. x \<in> set xs \<Longrightarrow> y \<in> set ys \<Longrightarrow> f x @ r = f y @ s \<Longrightarrow> value_end r \<Longrightarrow> value_end s \<Longrightarrow> x = y \<and> r = s"
    and eq: "concat (map (\<lambda>x. CHR '','' # f x) xs) @ c # r = concat (map (\<lambda>x. CHR '','' # f x) ys) @ c # s"
    and c: "c = CHR '']'' \<or> c = CHR ''}''"
  shows "xs = ys \<and> r = s"
  using el eq
proof (induction xs arbitrary: ys)
  case Nil
  with c show ?case by (cases ys) auto
next
  case (Cons x xs)
  show ?case
  proof (cases ys)
    case Nil
    with Cons.prems(2) c show ?thesis by auto
  next
    case (Cons y ys')
    let ?rest = "\<lambda>zs t. concat (map (\<lambda>x. CHR '','' # f x) zs) @ c # t"
    have "f x @ ?rest xs r = f y @ ?rest ys' s" using Cons.prems(2) Cons by simp
    moreover have "value_end (?rest zs t)" for zs t using c by (cases zs) auto
    ultimately have xy: "x = y" "?rest xs r = ?rest ys' s" using Cons.prems(1) [of x y] Cons by auto
    have "xs = ys' \<and> r = s" by (rule Cons.IH) (use Cons.prems(1) Cons xy in auto)
    with xy Cons show ?thesis by simp
  qed
qed

lemma joined_prefix_free:
  assumes el: "\<And>x y r s. x \<in> set xs \<Longrightarrow> y \<in> set ys \<Longrightarrow> f x @ r = f y @ s \<Longrightarrow> value_end r \<Longrightarrow> value_end s \<Longrightarrow> x = y \<and> r = s"
    and start: "\<And>x. f x \<noteq> [] \<and> hd (f x) \<noteq> CHR '']'' \<and> hd (f x) \<noteq> CHR ''}''"
    and eq: "comma_join (map f xs) @ c # r = comma_join (map f ys) @ c # s"
    and c: "c = CHR '']'' \<or> c = CHR ''}''"
  shows "xs = ys \<and> r = s"
proof -
  have first: "f x @ t \<noteq> c # u" for x t u using start [of x] c by (cases "f x") auto
  show ?thesis
  proof (cases xs)
    case Nil
    show ?thesis
    proof (cases ys)
      case (Cons y ys')
      with Nil eq have "f y @ (concat (map (\<lambda>x. CHR '','' # f x) ys') @ c # s) = c # r"
        by (simp add: comma_join_def comp_def)
      with first show ?thesis by blast
    qed (use Nil eq in \<open>simp add: comma_join_def\<close>)
  next
    case xs: (Cons x xs')
    show ?thesis
    proof (cases ys)
      case Nil
      with eq xs have "f x @ (concat (map (\<lambda>x. CHR '','' # f x) xs') @ c # r) = c # s"
        by (simp add: comma_join_def comp_def)
      with first show ?thesis by blast
    next
      case ys: (Cons y ys')
      let ?rest = "\<lambda>zs t. concat (map (\<lambda>x. CHR '','' # f x) zs) @ c # t"
      have "f x @ ?rest xs' r = f y @ ?rest ys' s" using eq xs ys by (simp add: comma_join_def comp_def)
      moreover have "value_end (?rest zs t)" for zs t using c by (cases zs) auto
      ultimately have xy: "x = y" "?rest xs' r = ?rest ys' s" using el [of x y] xs ys by auto
      have "xs' = ys' \<and> r = s" by (rule separated_prefix_free [OF _ xy(2) c]) (use el xs ys in auto)
      with xy xs ys show ?thesis by simp
    qed
  qed
qed

lemma emit_start:
  assumes "number_text num"
  shows "emit num v \<noteq> [] \<and> hd (emit num v) \<noteq> CHR '']'' \<and> hd (emit num v) \<noteq> CHR ''}''"
proof (cases v)
  case (JNum q)
  have "num q \<noteq> []" "set (num q) \<subseteq> set number_chars" using assms by (auto simp: number_text_def)
  then have "num q \<noteq> [] \<and> hd (num q) \<in> set number_chars" by (auto simp: hd_in_set subset_iff)
  with JNum show ?thesis by (auto simp: number_chars_def)
qed (auto simp: quote_def)

definition leading :: "json \<Rightarrow> char \<Rightarrow> bool" where
  "leading v c \<longleftrightarrow>
     (case v of JUndef \<Rightarrow> c = CHR 0x22 | JNull \<Rightarrow> c = CHR ''n'' | JBool b \<Rightarrow> c = (if b then CHR ''t'' else CHR ''f'')
      | JNum _ \<Rightarrow> c \<in> set number_chars | JStr _ \<Rightarrow> c = CHR 0x22 | JArr _ \<Rightarrow> c = CHR ''['' | JObj _ \<Rightarrow> c = CHR ''{'')"

lemma emit_leading: "number_text num \<Longrightarrow> \<exists>c t. emit num v = c # t \<and> leading v c"
proof (cases v)
  case (JNum q)
  assume "number_text num"
  then have "num q \<noteq> []" "set (num q) \<subseteq> set number_chars" by (auto simp: number_text_def)
  with JNum show ?thesis by (cases "num q") (auto simp: leading_def)
qed (auto simp: quote_def leading_def)

lemma emit_prefix_free:
  assumes num: "number_text num"
  shows "defined_json v \<Longrightarrow> defined_json w \<Longrightarrow> emit num v @ r = emit num w @ s \<Longrightarrow> value_end r \<Longrightarrow> value_end s
    \<Longrightarrow> v = w \<and> r = s"
proof (induction v arbitrary: w r s)
  case JUndef
  then show ?case by simp
next
  case JNull
  with emit_leading [OF num, of w] show ?case
    by (cases w) (auto simp: leading_def number_chars_def split: if_splits)
next
  case (JBool b)
  with emit_leading [OF num, of w] show ?case
    by (cases w) (auto simp: leading_def number_chars_def split: if_splits)
next
  case (JNum q)
  with emit_leading [OF num, of w] emit_leading [OF num, of "JNum q"] number_prefix_free [OF num, of q r _ s] show ?case
    by (cases w) (auto simp: leading_def number_chars_def split: if_splits)
next
  case (JStr t)
  with emit_leading [OF num, of w] quote_prefix_free [of t r _ s] show ?case
    by (cases w) (auto simp: leading_def number_chars_def quote_def split: if_splits)
next
  case (JArr xs)
  obtain ys where w: "w = JArr ys"
    using JArr.prems emit_leading [OF num, of w]
    by (cases w) (auto simp: leading_def number_chars_def split: if_splits)
  have "xs = ys \<and> r = s"
  proof (rule joined_prefix_free)
    show "comma_join (map (emit num) xs) @ CHR '']'' # r = comma_join (map (emit num) ys) @ CHR '']'' # s"
      using JArr.prems(3) w by simp
    show "x = y \<and> r' = s'" if "x \<in> set xs" "y \<in> set ys" "emit num x @ r' = emit num y @ s'" "value_end r'" "value_end s'"
      for x y r' s'
      using JArr.IH [OF that(1) _ _ that(3-5)] JArr.prems(1,2) w that(1,2) by (auto simp: list_all_iff)
  qed (use emit_start [OF num] in auto)
  with w show ?case by simp
next
  case (JObj kvs)
  obtain kws where w: "w = JObj kws"
    using JObj.prems emit_leading [OF num, of w]
    by (cases w) (auto simp: leading_def number_chars_def split: if_splits)
  have "kvs = kws \<and> r = s"
  proof (rule joined_prefix_free)
    show "comma_join (map (\<lambda>(k, v). quote k @ CHR '':'' # emit num v) kvs) @ CHR ''}'' # r
        = comma_join (map (\<lambda>(k, v). quote k @ CHR '':'' # emit num v) kws) @ CHR ''}'' # s"
      using JObj.prems(3) w by simp
    show "x = y \<and> r' = s'" if "x \<in> set kvs" "y \<in> set kws" and eq: "(case x of (k, v) \<Rightarrow> quote k @ CHR '':'' # emit num v) @ r'
        = (case y of (k, v) \<Rightarrow> quote k @ CHR '':'' # emit num v) @ s'" and ends: "value_end r'" "value_end s'" for x y r' s'
    proof -
      obtain k v l u where x: "x = (k, v)" and y: "y = (l, u)" by (cases x; cases y)
      from eq x y have "quote k @ (CHR '':'' # emit num v @ r') = quote l @ (CHR '':'' # emit num u @ s')" by simp
      then have kl: "k = l" and vu: "emit num v @ r' = emit num u @ s'" by (auto dest: quote_prefix_free)
      have "v = u \<and> r' = s'"
        by (rule JObj.IH [OF _ _ _ _ vu ends]) (use that(1,2) x y JObj.prems(1,2) w in \<open>auto simp: list_all_iff\<close>)
      with kl x y show ?thesis by simp
    qed
  qed (auto simp: quote_def)
  with w show ?case by simp
qed

lemma canonical_eq_iff:
  assumes "number_text num" "defined_json v" "defined_json w"
  shows "canonical num v = canonical num w \<longleftrightarrow> key_sorted v = key_sorted w"
  using emit_prefix_free [OF assms(1) defined_key_sorted [OF assms(2)] defined_key_sorted [OF assms(3)], of "[]" "[]"]
  by (auto simp: canonical_emit)


section \<open>Reading fields back\<close>

lemma map_of_insort_key:
  "fst x \<notin> fst ` set kvs \<Longrightarrow> map_of (insort_key fst x kvs) = (map_of kvs)(fst x \<mapsto> snd x)"
  by (induction kvs) (auto simp: fun_upd_twist)

lemma map_of_sort_key: "distinct (map fst kvs) \<Longrightarrow> map_of (sort_key fst kvs) = map_of kvs"
  by (induction kvs) (auto simp: map_of_insort_key)

lemma key_sorted_lookup:
  assumes "key_sorted (JObj a) = key_sorted (JObj b)" "distinct (map fst a)" "distinct (map fst b)"
  shows "map_option key_sorted (map_of a k) = map_option key_sorted (map_of b k)"
proof -
  have sorted_lookup: "map_of (sort_key fst (map (\<lambda>(k, v). (k, key_sorted v)) kvs)) k = map_option key_sorted (map_of kvs k)"
    if "distinct (map fst kvs)" for kvs
  proof -
    have "distinct (map fst (map (\<lambda>(k, v). (k, key_sorted v)) kvs))" using that by (simp add: comp_def split_def)
    from map_of_sort_key [OF this] show ?thesis by (simp add: map_of_map)
  qed
  from assms(1) have "sort_key fst (map (\<lambda>(k, v). (k, key_sorted v)) a) = sort_key fst (map (\<lambda>(k, v). (k, key_sorted v)) b)"
    by simp
  with sorted_lookup [OF assms(2)] sorted_lookup [OF assms(3)] show ?thesis by metis
qed

lemma lookup_opt_member [simp]:
  "map_of (opt_member f k v) k = map_option f v" "k \<noteq> l \<Longrightarrow> map_of (opt_member f k v) l = None"
  by (auto simp: opt_member_def split: option.splits)

lemma keys_opt_member: "fst ` set (opt_member f k v) \<subseteq> {k}" "distinct (map fst (opt_member f k v))"
  by (auto simp: opt_member_def split: option.splits)

lemma map_option_inject: "inj f \<Longrightarrow> map_option f a = map_option f b \<longleftrightarrow> a = b"
  by (cases a; cases b) (auto dest: injD)

lemma map_option_json_inject [simp]:
  "map_option JStr a = map_option JStr b \<longleftrightarrow> a = b" "map_option JNum c = map_option JNum d \<longleftrightarrow> c = d"
  "map_option JBool e = map_option JBool f \<longleftrightarrow> e = f"
  by (simp_all add: map_option_inject inj_def)

lemma key_sorted_strings [simp]: "key_sorted (strings_json xs) = strings_json xs"
  by (simp add: strings_json_def)

lemma strings_json_inject [simp]: "strings_json xs = strings_json ys \<longleftrightarrow> xs = ys"
  by (auto simp: strings_json_def inj_map_eq_map inj_def)

lemma defined_strings [simp]: "defined_json (strings_json xs)"
  by (simp add: strings_json_def list_all_iff)

text \<open>\<open>sha256\<close> does not identify two different texts.\<close>

definition no_collision :: "Hashing \<Rightarrow> json \<Rightarrow> json \<Rightarrow> bool" where
  "no_collision H v w \<longleftrightarrow>
     (h_sha256 H (canonical (h_num H) v) = h_sha256 H (canonical (h_num H) w)
      \<longrightarrow> canonical (h_num H) v = canonical (h_num H) w)"

lemma digest_eqD:
  assumes "digestPlan H v = digestPlan H w" "no_collision H v w" "number_text (h_num H)" "defined_json v" "defined_json w"
  shows "key_sorted v = key_sorted w"
  using assms canonical_eq_iff [of "h_num H" v w] by (auto simp: digestPlan_def no_collision_def)

text \<open>A number text with those properties, for evaluation.\<close>

definition unary_number :: "rat \<Rightarrow> string" where
  "unary_number q = (case quotient_of q of (a, b) \<Rightarrow>
     (if a < 0 then ''-'' else ''+'') @ replicate (nat \<bar>a\<bar>) (CHR ''1'') @ CHR ''e'' # replicate (nat b) (CHR ''1''))"

lemma replicate_split: "replicate m x @ y # r = replicate n x @ y # s \<Longrightarrow> x \<noteq> y \<Longrightarrow> m = n \<and> r = s"
proof (induction m arbitrary: n)
  case 0
  then show ?case by (cases n) auto
next
  case (Suc m)
  then show ?case by (cases n) auto
qed

lemma unary_number_text: "number_text unary_number"
proof -
  have "q = p" if eq: "unary_number q = unary_number p" for q p
  proof -
    obtain a b c d where qp: "quotient_of q = (a, b)" "quotient_of p = (c, d)" by (cases "quotient_of q"; cases "quotient_of p")
    have pos: "b > 0" "d > 0" using quotient_of_denom_pos qp by blast+
    have sgn: "(a < 0) = (c < 0)" using eq qp by (auto simp: unary_number_def split: if_splits)
    with eq qp have "replicate (nat \<bar>a\<bar>) (CHR ''1'') @ CHR ''e'' # replicate (nat b) (CHR ''1'')
        = replicate (nat \<bar>c\<bar>) (CHR ''1'') @ CHR ''e'' # replicate (nat d) (CHR ''1'')"
      by (auto simp: unary_number_def)
    from replicate_split [OF this] have abs: "nat \<bar>a\<bar> = nat \<bar>c\<bar>" "replicate (nat b) (CHR ''1'') = replicate (nat d) (CHR ''1'')"
      by auto
    from arg_cong [OF abs(2), of length] abs(1) sgn pos have "(a, b) = (c, d)" by auto
    with qp quotient_of_inject show ?thesis by metis
  qed
  then have "inj unary_number" by (rule injI)
  moreover have "unary_number q \<noteq> [] \<and> set (unary_number q) \<subseteq> set number_chars" for q
    by (auto simp: unary_number_def number_chars_def split: prod.splits)
  ultimately show ?thesis by (simp add: number_text_def)
qed


end
