(* ===== verification/PlanGraph.thy ===== *)
theory PlanGraph
  imports Lineage
begin

text \<open>
  Goals and plan graphs of the verified plan runtime: \<open>contracts.ts\<close>, \<open>goal-compiler.ts\<close> and
  \<open>plan-graph.ts\<close> of \<open>packages/verified-plan-runtime/src\<close>. Confidences, costs and risks are
  rational numbers: the code only compares them. The default confidence is the double nearest to 0.55.
\<close>

section \<open>Contracts\<close>

datatype EpistemicStatus = BKnown | BSupported | BConflicted | BStale | BUnknown | BUnobservable | BDisproven

datatype ConstraintStrength = Must | Should | May | MustNot

record GoalConstraint =
  gc_id :: string
  gc_strength :: ConstraintStrength
  gc_factKey :: string
  gc_expectedValueDigest :: "string option"
  gc_description :: string

record CompiledGoal =
  cg_id :: string
  cg_kind :: string
  cg_objective :: string
  cg_successFactKeys :: "string list"
  cg_forbiddenFactKeys :: "string list"
  cg_constraints :: "GoalConstraint list"
  cg_unresolvedAssumptions :: "string list"

record BeliefView =
  bv_factKey :: string
  bv_status :: EpistemicStatus
  bv_confidence :: rat
  bv_selectedValueDigest :: "string option"
  bv_evidenceDigests :: "string list"

datatype PlanNodeKind = KGoal | KSubgoal | KObserve | KAction | KVerify | KDecision

datatype PlanNodeStatus =
  NsPending | NsReady | NsRunning | NsBlocked | NsInvalidated | NsSucceeded | NsFailed | NsSkipped

record PlanPrecondition =
  pc_factKey :: string
  pc_expectedValueDigest :: "string option"
  pc_minimumConfidence :: "rat option"
  pc_allowStale :: "bool option"

record PlanNode =
  pn_id :: string
  pn_kind :: PlanNodeKind
  pn_title :: string
  pn_parentId :: "string option"
  pn_dependsOn :: "string list"
  pn_choiceGroup :: "string option"
  pn_preconditions :: "PlanPrecondition list"
  pn_expectedEffects :: "string list"
  pn_verificationFactKeys :: "string list"
  pn_allowedCapabilities :: "string list"
  pn_expectedCost :: rat
  pn_risk :: rat
  pn_reversible :: bool
  pn_maxAttempts :: int

record PlanGraph =
  pg_planId :: string
  pg_goalId :: string
  pg_version :: int
  pg_rootNodeIds :: "string list"
  pg_nodes :: "PlanNode list"

record PlanNodeState =
  ns_nodeId :: string
  ns_status :: PlanNodeStatus
  ns_attempts :: int
  ns_lastReason :: "string property"
  ns_lastExecutionDigest :: "string property"
  ns_verificationReceiptDigest :: "string property"
  ns_verifiedNodeDigest :: "string property"
  ns_lastUpdatedAt :: int

section \<open>Records as JavaScript objects\<close>

text \<open>
  The objects whose digests the runtime takes, in the order their properties are written. An optional
  property that is none is absent; only node states carry undefined properties.
\<close>

primrec strength_text :: "ConstraintStrength \<Rightarrow> string" where
  "strength_text Must = ''MUST''"
| "strength_text Should = ''SHOULD''"
| "strength_text May = ''MAY''"
| "strength_text MustNot = ''MUST_NOT''"

primrec node_kind_text :: "PlanNodeKind \<Rightarrow> string" where
  "node_kind_text KGoal = ''GOAL''"
| "node_kind_text KSubgoal = ''SUBGOAL''"
| "node_kind_text KObserve = ''OBSERVE''"
| "node_kind_text KAction = ''ACTION''"
| "node_kind_text KVerify = ''VERIFY''"
| "node_kind_text KDecision = ''DECISION''"

primrec node_status_text :: "PlanNodeStatus \<Rightarrow> string" where
  "node_status_text NsPending = ''PENDING''"
| "node_status_text NsReady = ''READY''"
| "node_status_text NsRunning = ''RUNNING''"
| "node_status_text NsBlocked = ''BLOCKED''"
| "node_status_text NsInvalidated = ''INVALIDATED''"
| "node_status_text NsSucceeded = ''SUCCEEDED''"
| "node_status_text NsFailed = ''FAILED''"
| "node_status_text NsSkipped = ''SKIPPED''"

definition constraint_json :: "GoalConstraint \<Rightarrow> json" where
  "constraint_json c = JObj ([(''id'', JStr (gc_id c)), (''strength'', JStr (strength_text (gc_strength c))),
     (''factKey'', JStr (gc_factKey c))] @ opt_member JStr ''expectedValueDigest'' (gc_expectedValueDigest c)
     @ [(''description'', JStr (gc_description c))])"

definition goal_json :: "CompiledGoal \<Rightarrow> json" where
  "goal_json g = JObj [(''id'', JStr (cg_id g)), (''kind'', JStr (cg_kind g)), (''objective'', JStr (cg_objective g)),
     (''successFactKeys'', strings_json (cg_successFactKeys g)), (''forbiddenFactKeys'', strings_json (cg_forbiddenFactKeys g)),
     (''constraints'', JArr (map constraint_json (cg_constraints g))),
     (''unresolvedAssumptions'', strings_json (cg_unresolvedAssumptions g))]"

definition precondition_json :: "PlanPrecondition \<Rightarrow> json" where
  "precondition_json p = JObj ((''factKey'', JStr (pc_factKey p)) # opt_member JStr ''expectedValueDigest'' (pc_expectedValueDigest p)
     @ opt_member JNum ''minimumConfidence'' (pc_minimumConfidence p) @ opt_member JBool ''allowStale'' (pc_allowStale p))"

definition node_json :: "PlanNode \<Rightarrow> json" where
  "node_json n = JObj ([(''id'', JStr (pn_id n)), (''kind'', JStr (node_kind_text (pn_kind n))), (''title'', JStr (pn_title n))]
     @ opt_member JStr ''parentId'' (pn_parentId n) @ [(''dependsOn'', strings_json (pn_dependsOn n))]
     @ opt_member JStr ''choiceGroup'' (pn_choiceGroup n)
     @ [(''preconditions'', JArr (map precondition_json (pn_preconditions n))),
        (''expectedEffects'', strings_json (pn_expectedEffects n)),
        (''verificationFactKeys'', strings_json (pn_verificationFactKeys n)),
        (''allowedCapabilities'', strings_json (pn_allowedCapabilities n)),
        (''expectedCost'', JNum (pn_expectedCost n)), (''risk'', JNum (pn_risk n)),
        (''reversible'', JBool (pn_reversible n)), (''maxAttempts'', JNum (of_int (pn_maxAttempts n)))])"

definition graph_json :: "PlanGraph \<Rightarrow> json" where
  "graph_json g = JObj [(''planId'', JStr (pg_planId g)), (''goalId'', JStr (pg_goalId g)),
     (''version'', JNum (of_int (pg_version g))), (''rootNodeIds'', strings_json (pg_rootNodeIds g)),
     (''nodes'', JArr (map node_json (pg_nodes g)))]"

definition state_json :: "Hashing \<Rightarrow> PlanNodeState \<Rightarrow> json" where
  "state_json H s = JObj ([(''nodeId'', JStr (ns_nodeId s)), (''status'', JStr (node_status_text (ns_status s))),
     (''attempts'', JNum (of_int (ns_attempts s)))] @ prop_member ''lastReason'' (ns_lastReason s)
     @ prop_member ''lastExecutionDigest'' (ns_lastExecutionDigest s)
     @ prop_member ''verificationReceiptDigest'' (ns_verificationReceiptDigest s)
     @ prop_member ''verifiedNodeDigest'' (ns_verifiedNodeDigest s)
     @ [(''lastUpdatedAt'', JStr (h_iso H (ns_lastUpdatedAt s)))])"

section \<open>Field checks\<close>

definition js_fail :: "string \<Rightarrow> 'a result" where
  "js_fail m = Inl (JsError m)"

definition plan_bounded :: "nat \<Rightarrow> string \<Rightarrow> string \<Rightarrow> string result" where
  "plan_bounded n label v = (if v = [] \<or> length v > n then js_fail (label @ '' is invalid.'') else Inr v)"

definition hex64_text :: "string \<Rightarrow> bool" where
  "hex64_text v \<longleftrightarrow> length v = 64 \<and> list_all is_hex v"

definition plan_sha256 :: "string \<Rightarrow> string \<Rightarrow> string result" where
  "plan_sha256 label v = (if hex64_text v then Inr (to_lower v) else js_fail (label @ '' must be SHA-256.''))"

definition plan_finite :: "rat \<Rightarrow> rat \<Rightarrow> string \<Rightarrow> rat \<Rightarrow> rat result" where
  "plan_finite lo hi label v = (if v < lo \<or> v > hi then js_fail (label @ '' is invalid.'') else Inr v)"

definition plan_unit :: "string \<Rightarrow> rat \<Rightarrow> rat result" where
  "plan_unit = plan_finite 0 1"

definition plan_integer :: "int \<Rightarrow> int \<Rightarrow> string \<Rightarrow> int \<Rightarrow> int result" where
  "plan_integer lo hi label v =
     (if \<not> is_safe_integer v \<or> v < lo \<or> v > hi then js_fail (label @ '' is invalid.'') else Inr v)"

text \<open>An optional field that is only set when truthy.\<close>

definition when_truthy :: "(string \<Rightarrow> string result) \<Rightarrow> string option \<Rightarrow> string option result" where
  "when_truthy f v = (case truthy v of None \<Rightarrow> Inr None | Some s \<Rightarrow> map_sum id Some (f s))"

definition unique_bounded :: "nat \<Rightarrow> string \<Rightarrow> string list \<Rightarrow> string list result" where
  "unique_bounded n label vs = map_sum id unique_sorted (map_throw (plan_bounded n label) vs)"

section \<open>Goal compiler\<close>

record GoalDraft =
  gd_id :: string
  gd_kind :: string
  gd_objective :: string
  gd_successFactKeys :: "string list"
  gd_forbiddenFactKeys :: "string list option"
  gd_constraints :: "GoalConstraint list option"
  gd_unresolvedAssumptions :: "string list option"

definition or_empty :: "'a list option \<Rightarrow> 'a list" where
  "or_empty v = (case v of None \<Rightarrow> [] | Some xs \<Rightarrow> xs)"

definition normalizeConstraint :: "GoalConstraint \<Rightarrow> GoalConstraint result" where
  "normalizeConstraint c =
     bind_result (plan_bounded 256 ''constraint.id'' (gc_id c)) (\<lambda>i.
     bind_result (plan_bounded 512 ''constraint.factKey'' (gc_factKey c)) (\<lambda>k.
     bind_result (when_truthy (plan_sha256 ''constraint.expectedValueDigest'') (gc_expectedValueDigest c)) (\<lambda>d.
     bind_result (plan_bounded 2048 ''constraint.description'' (gc_description c)) (\<lambda>t.
       Inr \<lparr>gc_id = i, gc_strength = gc_strength c, gc_factKey = k, gc_expectedValueDigest = d,
            gc_description = t\<rparr>))))"

definition values_of :: "ConstraintStrength \<Rightarrow> GoalConstraint list \<Rightarrow> string \<Rightarrow> string option list" where
  "values_of st cs fk =
     map gc_expectedValueDigest (filter (\<lambda>c. gc_strength c = st \<and> gc_factKey c = fk) cs)"

definition concrete_values :: "string option list \<Rightarrow> string list" where
  "concrete_values vs = remdups (List.map_filter (\<lambda>v. v) vs)"

definition must_facts :: "GoalConstraint list \<Rightarrow> string list" where
  "must_facts cs = js_set (map gc_factKey (filter (\<lambda>c. gc_strength c = Must) cs))"

definition must_conflict :: "GoalConstraint list \<Rightarrow> string \<Rightarrow> failure option" where
  "must_conflict cs fk =
     (if length (concrete_values (values_of Must cs fk)) > 1
      then Some (JsError ''conflicting MUST values'') else None)"

definition hard_contradiction :: "GoalConstraint list \<Rightarrow> string \<Rightarrow> failure option" where
  "hard_contradiction cs fk =
     (let must = values_of Must cs fk; deny = values_of MustNot cs fk in
      if deny = [] then None
      else if None \<in> set must \<or> None \<in> set deny \<or> list_ex (\<lambda>v. v \<noteq> None \<and> v \<in> set deny) must
      then Some (JsError ''contradictory hard constraints'') else None)"

definition goal_contradiction :: "string list \<Rightarrow> string list \<Rightarrow> GoalConstraint \<Rightarrow> failure option" where
  "goal_contradiction success forbidden c =
     (if gc_strength c = MustNot \<and> gc_factKey c \<in> set success \<and> gc_expectedValueDigest c = None
      then Some (JsError ''hard MUST_NOT constraint contradicts required success fact'')
      else if gc_strength c = Must \<and> gc_factKey c \<in> set forbidden \<and> gc_expectedValueDigest c = None
      then Some (JsError ''hard MUST constraint contradicts forbidden goal fact'')
      else None)"

definition check_constraints :: "string list \<Rightarrow> string list \<Rightarrow> GoalConstraint list \<Rightarrow> failure option" where
  "check_constraints success forbidden cs =
     (if \<not> distinct (map gc_id cs) then Some (JsError ''constraint ids must be unique.'')
      else case for_all_throw (must_conflict cs) (must_facts cs) of Some e \<Rightarrow> Some e
           | None \<Rightarrow> (case for_all_throw (hard_contradiction cs) (must_facts cs) of Some e \<Rightarrow> Some e
              | None \<Rightarrow> for_all_throw (goal_contradiction success forbidden) cs))"

definition compileGoal :: "GoalDraft \<Rightarrow> CompiledGoal result" where
  "compileGoal d =
     bind_result (unique_bounded 512 ''successFactKey'' (gd_successFactKeys d)) (\<lambda>success.
     if success = [] \<or> length success > 1000 then js_fail ''goal requires 1-1000 success facts.''
     else bind_result (unique_bounded 512 ''forbiddenFactKey'' (or_empty (gd_forbiddenFactKeys d))) (\<lambda>forbidden.
     if filter (\<lambda>k. k \<in> set forbidden) success \<noteq> [] then js_fail ''goal facts cannot be both required and forbidden''
     else bind_result (map_throw normalizeConstraint (or_empty (gd_constraints d))) (\<lambda>constraints.
     case check_constraints success forbidden constraints of Some e \<Rightarrow> Inl e
     | None \<Rightarrow>
       bind_result (plan_bounded 256 ''goal.id'' (gd_id d)) (\<lambda>i.
       bind_result (plan_bounded 256 ''goal.kind'' (gd_kind d)) (\<lambda>k.
       bind_result (plan_bounded 16384 ''goal.objective'' (gd_objective d)) (\<lambda>ob.
       bind_result (unique_bounded 2048 ''assumption'' (or_empty (gd_unresolvedAssumptions d))) (\<lambda>assumptions.
         Inr \<lparr>cg_id = i, cg_kind = k, cg_objective = ob, cg_successFactKeys = success,
              cg_forbiddenFactKeys = forbidden, cg_constraints = constraints,
              cg_unresolvedAssumptions = assumptions\<rparr>)))))))"

section \<open>Plan graph validation\<close>

definition normalizePrecondition :: "PlanPrecondition \<Rightarrow> PlanPrecondition result" where
  "normalizePrecondition p =
     bind_result (plan_bounded 512 ''precondition.factKey'' (pc_factKey p)) (\<lambda>k.
     bind_result (when_truthy (plan_sha256 ''precondition.expectedValueDigest'') (pc_expectedValueDigest p)) (\<lambda>d.
     bind_result (case pc_minimumConfidence p of None \<Rightarrow> Inr None
                  | Some c \<Rightarrow> map_sum id Some (plan_unit ''precondition.minimumConfidence'' c)) (\<lambda>c.
       Inr \<lparr>pc_factKey = k, pc_expectedValueDigest = d, pc_minimumConfidence = c, pc_allowStale = pc_allowStale p\<rparr>)))"

definition precondition_conflict :: "PlanPrecondition list \<Rightarrow> string \<Rightarrow> failure option" where
  "precondition_conflict ps fk =
     (if length (concrete_values (map pc_expectedValueDigest (filter (\<lambda>p. pc_factKey p = fk) ps))) > 1
      then Some (JsError ''conflicting preconditions'') else None)"

definition normalizePreconditions :: "PlanPrecondition list \<Rightarrow> PlanPrecondition list result" where
  "normalizePreconditions input =
     bind_result (map_throw normalizePrecondition input) (\<lambda>ps.
       case for_all_throw (precondition_conflict ps) (js_set (map pc_factKey ps)) of Some e \<Rightarrow> Inl e | None \<Rightarrow> Inr ps)"

definition normalizeNode :: "PlanNode \<Rightarrow> PlanNode result" where
  "normalizeNode n =
     bind_result (plan_bounded 256 ''node.id'' (pn_id n)) (\<lambda>i.
     bind_result (plan_bounded 2048 ''node.title'' (pn_title n)) (\<lambda>t.
     bind_result (when_truthy (plan_bounded 256 ''node.parentId'') (pn_parentId n)) (\<lambda>par.
     bind_result (unique_bounded 256 ''node.dependsOn'' (pn_dependsOn n)) (\<lambda>deps.
     bind_result (when_truthy (plan_bounded 256 ''node.choiceGroup'') (pn_choiceGroup n)) (\<lambda>grp.
     bind_result (normalizePreconditions (pn_preconditions n)) (\<lambda>pre.
     bind_result (unique_bounded 512 ''node.expectedEffect'' (pn_expectedEffects n)) (\<lambda>eff.
     bind_result (unique_bounded 512 ''node.verificationFactKey'' (pn_verificationFactKeys n)) (\<lambda>ver.
     bind_result (unique_bounded 512 ''node.allowedCapability'' (pn_allowedCapabilities n)) (\<lambda>caps.
     bind_result (plan_finite 0 1000000000000 ''node.expectedCost'' (pn_expectedCost n)) (\<lambda>cost.
     bind_result (plan_unit ''node.risk'' (pn_risk n)) (\<lambda>risk.
     bind_result (plan_integer 1 100 ''node.maxAttempts'' (pn_maxAttempts n)) (\<lambda>ma.
       Inr \<lparr>pn_id = i, pn_kind = pn_kind n, pn_title = t, pn_parentId = par, pn_dependsOn = deps,
            pn_choiceGroup = grp, pn_preconditions = pre, pn_expectedEffects = eff,
            pn_verificationFactKeys = ver, pn_allowedCapabilities = caps, pn_expectedCost = cost,
            pn_risk = risk, pn_reversible = pn_reversible n, pn_maxAttempts = ma\<rparr>))))))))))))"

definition find_node :: "PlanNode list \<Rightarrow> string \<Rightarrow> PlanNode option" where
  "find_node nodes i = find (\<lambda>n. pn_id n = i) nodes"

definition node_ids :: "PlanNode list \<Rightarrow> string list" where
  "node_ids nodes = map pn_id nodes"

text \<open>What \<open>visit\<close> follows from a node: its dependencies in order, then its parent.\<close>

definition prerequisites :: "PlanNode \<Rightarrow> string list" where
  "prerequisites n = pn_dependsOn n @ (case pn_parentId n of None \<Rightarrow> [] | Some p \<Rightarrow> [p])"

lemma find_node_SomeD: "find_node nodes i = Some n \<Longrightarrow> n \<in> set nodes \<and> pn_id n = i"
  by (auto simp: find_node_def dest: find_SomeD)

text \<open>
  \<open>visit\<close> applied to a list of identifiers, with the nodes being visited and the list of finished
  nodes, latest first. A recursion is bounded by the nodes that are not yet being visited.
\<close>

function visit :: "PlanNode list \<Rightarrow> string list \<Rightarrow> string list \<Rightarrow> string list \<Rightarrow> string list result" where
  "visit nodes visiting visited [] = Inr visited"
| "visit nodes visiting visited (i # rest) =
     (if i \<in> set visiting then js_fail ''plan graph contains a cycle''
      else if i \<in> set visited then visit nodes visiting visited rest
      else case find_node nodes i of None \<Rightarrow> js_fail ''TypeError''
           | Some n \<Rightarrow>
               (case visit nodes (i # visiting) visited (prerequisites n) of Inl e \<Rightarrow> Inl e
                | Inr visited' \<Rightarrow> visit nodes visiting (i # visited') rest))"
  by pat_completeness auto

termination
proof (relation "measures [\<lambda>(nodes, visiting, _, _). card (set (node_ids nodes) - set visiting),
    \<lambda>(_, _, _, work). length work]", goal_cases)
  case (3 nodes visiting visited i rest n)
  then have "i \<in> set (node_ids nodes) - set visiting" by (auto dest: find_node_SomeD simp: node_ids_def)
  then have "card (set (node_ids nodes) - set (i # visiting)) < card (set (node_ids nodes) - set visiting)"
    by (intro psubset_card_mono) auto
  then show ?case by simp
qed auto

definition assertAcyclic :: "PlanNode list \<Rightarrow> failure option" where
  "assertAcyclic nodes = (case visit nodes [] [] (node_ids nodes) of Inl e \<Rightarrow> Some e | Inr _ \<Rightarrow> None)"

definition check_root :: "PlanNode list \<Rightarrow> string \<Rightarrow> failure option" where
  "check_root nodes rid =
     (case find_node nodes rid of None \<Rightarrow> Some (JsError ''root node does not exist'')
      | Some n \<Rightarrow> if pn_parentId n \<noteq> None then Some (JsError ''root node cannot have a parent'') else None)"

definition check_dependency :: "PlanNode list \<Rightarrow> PlanNode \<Rightarrow> string \<Rightarrow> failure option" where
  "check_dependency nodes n dep =
     (if find_node nodes dep = None then Some (JsError ''unknown dependency'')
      else if dep = pn_id n then Some (JsError ''node cannot depend on itself.'') else None)"

definition check_links :: "PlanNode list \<Rightarrow> PlanNode \<Rightarrow> failure option" where
  "check_links nodes n =
     (if (case pn_parentId n of None \<Rightarrow> False | Some p \<Rightarrow> find_node nodes p = None)
      then Some (JsError ''unknown parent'')
      else if pn_parentId n = Some (pn_id n) then Some (JsError ''node cannot parent itself.'')
      else for_all_throw (check_dependency nodes n) (pn_dependsOn n))"

definition choice_alternatives :: "PlanNode list \<Rightarrow> string \<Rightarrow> PlanNode list" where
  "choice_alternatives nodes grp = filter (\<lambda>n. pn_choiceGroup n = Some grp) nodes"

definition parent_key :: "PlanNode \<Rightarrow> string" where
  "parent_key n = (case pn_parentId n of None \<Rightarrow> ''__root__'' | Some p \<Rightarrow> p)"

definition check_choice_group :: "PlanNode list \<Rightarrow> string \<Rightarrow> failure option" where
  "check_choice_group nodes grp =
     (let alternatives = choice_alternatives nodes grp; ids = map pn_id alternatives in
      if length alternatives < 2 then Some (JsError ''choice group must contain at least two alternatives'')
      else if length (remdups (map parent_key alternatives)) \<noteq> 1
      then Some (JsError ''choice alternatives must share the same hierarchical parent'')
      else if list_ex (\<lambda>n. list_ex (\<lambda>dep. dep \<in> set ids) (pn_dependsOn n)) alternatives
      then Some (JsError ''choice alternatives cannot depend on one another'') else None)"

definition check_structure :: "PlanNode list \<Rightarrow> string list \<Rightarrow> failure option" where
  "check_structure nodes roots =
     (if roots = [] then Some (JsError ''plan requires at least one root node.'')
      else case for_all_throw (check_root nodes) roots of Some e \<Rightarrow> Some e
           | None \<Rightarrow> (case for_all_throw (check_links nodes) nodes of Some e \<Rightarrow> Some e
              | None \<Rightarrow> (case for_all_throw (check_choice_group nodes)
                                (js_set (List.map_filter pn_choiceGroup nodes)) of Some e \<Rightarrow> Some e
                 | None \<Rightarrow> assertAcyclic nodes)))"

definition validatePlanGraph :: "CompiledGoal \<Rightarrow> PlanGraph \<Rightarrow> PlanGraph result" where
  "validatePlanGraph goal graph =
     (if pg_goalId graph \<noteq> cg_id goal then js_fail ''plan is bound to a different goal.''
      else if \<not> is_safe_integer (pg_version graph) \<or> pg_version graph < 1
      then js_fail ''plan.version must be a positive integer.''
      else if length (pg_nodes graph) < 1 \<or> length (pg_nodes graph) > 10000
      then js_fail ''plan must contain 1-10000 nodes.''
      else bind_result (map_throw normalizeNode (pg_nodes graph)) (\<lambda>nodes.
           if \<not> distinct (node_ids nodes) then js_fail ''plan node ids must be unique.''
           else bind_result (unique_bounded 256 ''rootNodeId'' (pg_rootNodeIds graph)) (\<lambda>roots.
           case check_structure nodes roots of Some e \<Rightarrow> Inl e
           | None \<Rightarrow> bind_result (plan_bounded 256 ''plan.planId'' (pg_planId graph)) (\<lambda>i.
               Inr \<lparr>pg_planId = i, pg_goalId = pg_goalId graph, pg_version = pg_version graph,
                    pg_rootNodeIds = roots, pg_nodes = nodes\<rparr>))))"

section \<open>Node states\<close>

definition initializeNodeStates :: "PlanGraph \<Rightarrow> int \<Rightarrow> PlanNodeState list" where
  "initializeNodeStates graph now =
     map (\<lambda>n. \<lparr>ns_nodeId = pn_id n,
               ns_status = (if pn_dependsOn n = [] \<and> pn_preconditions n = [] then NsReady else NsPending),
               ns_attempts = 0, ns_lastReason = Absent, ns_lastExecutionDigest = Absent,
               ns_verificationReceiptDigest = Absent, ns_verifiedNodeDigest = Absent, ns_lastUpdatedAt = now\<rparr>)
       (pg_nodes graph)"

definition find_state :: "PlanNodeState list \<Rightarrow> string \<Rightarrow> PlanNodeState option" where
  "find_state states i = find (\<lambda>s. ns_nodeId s = i) states"

definition find_belief :: "BeliefView list \<Rightarrow> string \<Rightarrow> BeliefView option" where
  "find_belief beliefs fk = find (\<lambda>b. bv_factKey b = fk) beliefs"

definition default_confidence :: rat where
  "default_confidence = 4953959590107546 / 9007199254740992"

definition minimum_confidence :: "PlanPrecondition \<Rightarrow> rat" where
  "minimum_confidence p = (case pc_minimumConfidence p of None \<Rightarrow> default_confidence | Some c \<Rightarrow> c)"

definition precondition_holds :: "BeliefView list \<Rightarrow> PlanPrecondition \<Rightarrow> bool" where
  "precondition_holds beliefs p =
     (case find_belief beliefs (pc_factKey p) of None \<Rightarrow> False
      | Some b \<Rightarrow>
         (if bv_status b = BKnown \<or> bv_status b = BSupported
          then (if bv_confidence b < minimum_confidence p then False
                else truthy (pc_expectedValueDigest p) = None \<or> bv_selectedValueDigest b = pc_expectedValueDigest p)
          else pc_allowStale p = Some True \<and> bv_status b = BStale \<and> bv_confidence b \<ge> minimum_confidence p))"

definition awaits_verification :: "PlanNodeState \<Rightarrow> bool" where
  "awaits_verification s \<longleftrightarrow> ns_status s = NsBlocked \<and> truthy (prop_value (ns_lastExecutionDigest s)) \<noteq> None"

definition deps_succeeded :: "PlanNodeState list \<Rightarrow> PlanNode \<Rightarrow> bool" where
  "deps_succeeded states n =
     list_all (\<lambda>i. map_option ns_status (find_state states i) = Some NsSucceeded) (pn_dependsOn n)"

definition node_ready :: "PlanNodeState list \<Rightarrow> BeliefView list \<Rightarrow> PlanNode \<Rightarrow> bool" where
  "node_ready states beliefs n =
     (case find_state states (pn_id n) of None \<Rightarrow> False
      | Some s \<Rightarrow>
         (if ns_status s \<notin> {NsPending, NsReady, NsBlocked} then False
          else if awaits_verification s \<and> pn_verificationFactKeys n \<noteq> [] then False
          else if \<not> deps_succeeded states n then False
          else list_all (precondition_holds beliefs) (pn_preconditions n)))"

definition readyNodeIds :: "PlanGraph \<Rightarrow> PlanNodeState list \<Rightarrow> BeliefView list \<Rightarrow> string list result" where
  "readyNodeIds graph states beliefs =
     (if \<not> distinct (map ns_nodeId states) then js_fail ''plan node states must be unique''
      else if \<not> distinct (map bv_factKey beliefs) then js_fail ''belief facts must be unique''
      else Inr (sort (map pn_id (filter (node_ready states beliefs) (pg_nodes graph)))))"

section \<open>Dependents\<close>

definition depends_into :: "string list \<Rightarrow> PlanNode \<Rightarrow> bool" where
  "depends_into closure n \<longleftrightarrow>
     (case truthy (pn_parentId n) of None \<Rightarrow> False | Some p \<Rightarrow> p \<in> set closure)
     \<or> list_ex (\<lambda>d. d \<in> set closure) (pn_dependsOn n)"

fun closure_pass :: "PlanNode list \<Rightarrow> string list \<Rightarrow> string list" where
  "closure_pass [] closure = closure"
| "closure_pass (n # ns) closure =
     (if pn_id n \<in> set closure then closure_pass ns closure
      else if depends_into closure n then closure_pass ns (closure @ [pn_id n])
      else closure_pass ns closure)"

lemma closure_pass_extends: "\<exists>zs. closure_pass ns c = c @ zs \<and> set zs \<subseteq> pn_id ` set ns - set c"
proof (induction ns arbitrary: c)
  case (Cons n ns)
  obtain zs where zs: "closure_pass ns c = c @ zs" "set zs \<subseteq> pn_id ` set ns - set c" using Cons by blast
  obtain ys where ys: "closure_pass ns (c @ [pn_id n]) = (c @ [pn_id n]) @ ys"
    "set ys \<subseteq> pn_id ` set ns - set (c @ [pn_id n])" using Cons by blast
  show ?case
  proof (cases "pn_id n \<notin> set c \<and> depends_into c n")
    case True
    with ys show ?thesis by (intro exI [of _ "pn_id n # ys"]) auto
  next
    case False
    with zs show ?thesis by (intro exI [of _ zs]) auto
  qed
qed simp

function closure_loop :: "PlanNode list \<Rightarrow> string list \<Rightarrow> string list" where
  "closure_loop nodes closure =
     (let closure' = closure_pass nodes closure in
      if closure' = closure then closure else closure_loop nodes closure')"
  by pat_completeness auto

termination
proof (relation "measure (\<lambda>(nodes, closure). card (pn_id ` set nodes - set closure))", goal_cases)
  case (2 nodes closure c')
  obtain zs where zs: "closure_pass nodes closure = closure @ zs" "set zs \<subseteq> pn_id ` set nodes - set closure"
    using closure_pass_extends [of nodes closure] by blast
  with 2 have "zs \<noteq> []" by auto
  then obtain z where "z \<in> set zs" by (cases zs) auto
  with 2 zs have "pn_id ` set nodes - set c' \<subset> pn_id ` set nodes - set closure" by auto
  then show ?case by (simp add: psubset_card_mono)
qed auto

declare closure_loop.simps [simp del]

definition dependentClosure :: "PlanGraph \<Rightarrow> string list \<Rightarrow> string list" where
  "dependentClosure graph starting = sort (closure_loop (pg_nodes graph) (js_set starting))"

section \<open>Acyclicity\<close>

definition prereq_rel :: "PlanNode list \<Rightarrow> (string \<times> string) set" where
  "prereq_rel nodes = {(i, j). \<exists>n. find_node nodes i = Some n \<and> j \<in> set (prerequisites n)}"

text \<open>A list of finished nodes, latest first, in which a node's prerequisites come after it.\<close>

fun finished_order :: "PlanNode list \<Rightarrow> string list \<Rightarrow> bool" where
  "finished_order nodes [] = True"
| "finished_order nodes (i # is) =
     (i \<notin> set is \<and> (\<forall>j. (i, j) \<in> prereq_rel nodes \<longrightarrow> j \<in> set is) \<and> finished_order nodes is)"

lemma visit_Inr:
  "visit nodes visiting visited work = Inr visited' \<Longrightarrow> finished_order nodes visited \<Longrightarrow>
   finished_order nodes visited' \<and> set visited \<subseteq> set visited' \<and> set work \<subseteq> set visited'
   \<and> (set visited' - set visited) \<inter> set visiting = {}"
proof (induction nodes visiting visited work arbitrary: visited' rule: visit.induct)
  case (2 nodes visiting visited i rest)
  show ?case
  proof (cases "i \<in> set visited")
    case True
    with 2 show ?thesis by (auto simp: js_fail_def split: if_splits)
  next
    case new: False
    with "2.prems" obtain n mid where n: "find_node nodes i = Some n" and i: "i \<notin> set visiting"
      and mid: "visit nodes (i # visiting) visited (prerequisites n) = Inr mid"
      and fin: "visit nodes visiting (i # mid) rest = Inr visited'"
      by (auto simp: js_fail_def split: if_splits option.splits sum.splits)
    have m: "finished_order nodes mid" "set visited \<subseteq> set mid" "set (prerequisites n) \<subseteq> set mid"
      "(set mid - set visited) \<inter> set (i # visiting) = {}"
      using "2.IH"(2) [OF i new n mid] "2.prems"(2) by auto
    with new have "i \<notin> set mid" by auto
    with m n have "finished_order nodes (i # mid)" by (auto simp: prereq_rel_def)
    then show ?thesis using "2.IH"(3) [OF i new n mid fin] m i by auto
  qed
qed auto

lemma finished_order_acyclic:
  "finished_order nodes is \<Longrightarrow> acyclic (prereq_rel nodes \<inter> (set is \<times> set is))"
proof (induction "is")
  case (Cons i "is")
  let ?R = "prereq_rel nodes \<inter> (set is \<times> set is)"
  let ?S = "prereq_rel nodes \<inter> (set (i # is) \<times> set (i # is))"
  have sub: "?S \<subseteq> ?R \<union> {i} \<times> set is \<union> {(j, i) |j. j \<in> set is \<and> (j, i) \<in> prereq_rel nodes}"
    using Cons.prems by auto
  have closed: "(j, i) \<notin> prereq_rel nodes" if "j \<in> set is" for j
  proof -
    have "j' \<in> set is" if "finished_order nodes is" "j \<in> set is" "(j, j') \<in> prereq_rel nodes" for j'
      using that by (induction "is") auto
    with Cons.prems that show ?thesis by auto
  qed
  have "acyclic (?R \<union> {i} \<times> set is)"
  proof (rule acyclicI, rule allI, rule notI)
    fix x assume loop: "(x, x) \<in> (?R \<union> {i} \<times> set is)\<^sup>+"
    have into: "y \<in> set is" if "(x, y) \<in> (?R \<union> {i} \<times> set is)\<^sup>+" for x y
      using that by (induction rule: trancl_induct) auto
    have "(x, y) \<in> ?R\<^sup>+" if "(x, y) \<in> (?R \<union> {i} \<times> set is)\<^sup>+" "x \<in> set is" for y
      using that(1)
    proof (induction rule: trancl_induct)
      case (base y)
      with that(2) Cons.prems show ?case by auto
    next
      case (step y z)
      with into [OF step(1)] Cons.prems have "(y, z) \<in> ?R" by auto
      with step.IH show ?case by (rule trancl_into_trancl)
    qed
    with loop into [OF loop] Cons show False by (auto simp: acyclic_def)
  qed
  then show ?case by (rule acyclic_subset) (use sub closed in auto)
qed (simp add: acyclic_def)

lemma visit_Inl_cycle:
  assumes "visit nodes visiting visited work = js_fail ''plan graph contains a cycle''"
    and "\<forall>v\<in>set visiting. \<forall>w\<in>set work. (v, w) \<in> (prereq_rel nodes)\<^sup>+"
  shows "\<not> acyclic (prereq_rel nodes)"
  using assms
proof (induction nodes visiting visited work rule: visit.induct)
  case (2 nodes visiting visited i rest)
  show ?case
  proof (cases "i \<in> set visiting")
    case True
    with "2.prems"(2) have "(i, i) \<in> (prereq_rel nodes)\<^sup>+" by auto
    then show ?thesis by (auto simp: acyclic_def)
  next
    case out: False
    show ?thesis
    proof (cases "i \<in> set visited")
      case True
      with 2 out show ?thesis by simp
    next
      case new: False
      with out "2.prems"(1) obtain n where n: "find_node nodes i = Some n"
        by (cases "find_node nodes i") (auto simp: js_fail_def)
      show ?thesis
      proof (cases "visit nodes (i # visiting) visited (prerequisites n)")
        case (Inl e)
        have "\<forall>v\<in>set (i # visiting). \<forall>w\<in>set (prerequisites n). (v, w) \<in> (prereq_rel nodes)\<^sup>+"
        proof (intro ballI)
          fix v w assume "v \<in> set (i # visiting)" and w: "w \<in> set (prerequisites n)"
          have "(i, w) \<in> prereq_rel nodes" using n w by (auto simp: prereq_rel_def)
          moreover have "v = i \<or> (v, i) \<in> (prereq_rel nodes)\<^sup>+"
            using \<open>v \<in> set (i # visiting)\<close> "2.prems"(2) by auto
          ultimately show "(v, w) \<in> (prereq_rel nodes)\<^sup>+" by (auto intro: trancl_into_trancl)
        qed
        with "2.IH"(2) [OF out new n] "2.prems"(1) out new n Inl show ?thesis by simp
      next
        case (Inr mid)
        with "2.IH"(3) [OF out new n Inr] "2.prems" out new n show ?thesis by simp
      qed
    qed
  qed
qed (simp add: js_fail_def)

lemma visit_total:
  assumes "\<And>i j. (i, j) \<in> prereq_rel nodes \<Longrightarrow> find_node nodes j \<noteq> None"
    and "\<forall>i\<in>set work. find_node nodes i \<noteq> None"
  shows "(\<exists>v. visit nodes visiting visited work = Inr v)
    \<or> visit nodes visiting visited work = js_fail ''plan graph contains a cycle''"
  using assms
proof (induction nodes visiting visited work rule: visit.induct)
  case (2 nodes visiting visited i rest)
  show ?case
  proof (cases "i \<in> set visiting \<or> i \<in> set visited")
    case True
    with 2 show ?thesis by auto
  next
    case False
    then have out: "i \<notin> set visiting" "i \<notin> set visited" by auto
    from "2.prems"(2) obtain n where n: "find_node nodes i = Some n" by auto
    have "\<forall>j\<in>set (prerequisites n). find_node nodes j \<noteq> None"
      using "2.prems"(1) n by (auto simp: prereq_rel_def)
    from "2.IH"(2) [OF out n "2.prems"(1) this]
    show ?thesis
    proof
      assume "\<exists>v. visit nodes (i # visiting) visited (prerequisites n) = Inr v"
      then obtain v where v: "visit nodes (i # visiting) visited (prerequisites n) = Inr v" by blast
      from "2.IH"(3) [OF out n v] "2.prems" out n v show ?thesis by simp
    next
      assume "visit nodes (i # visiting) visited (prerequisites n) = js_fail ''plan graph contains a cycle''"
      with out n show ?thesis by (simp add: js_fail_def)
    qed
  qed
qed simp

lemma find_node_iff: "find_node nodes i \<noteq> None \<longleftrightarrow> i \<in> set (node_ids nodes)"
  by (auto simp: find_node_def node_ids_def find_None_iff_all image_iff)

lemma assertAcyclic_iff:
  assumes closed: "\<And>i j. (i, j) \<in> prereq_rel nodes \<Longrightarrow> j \<in> set (node_ids nodes)"
  shows "assertAcyclic nodes = None \<longleftrightarrow> acyclic (prereq_rel nodes)"
proof -
  have total: "(\<exists>v. visit nodes [] [] (node_ids nodes) = Inr v)
      \<or> visit nodes [] [] (node_ids nodes) = js_fail ''plan graph contains a cycle''"
    using closed find_node_iff [of nodes] by (intro visit_total) blast+
  show ?thesis
  proof (cases "visit nodes [] [] (node_ids nodes)")
    case (Inr v)
    from visit_Inr [OF Inr] have fin: "finished_order nodes v" and all: "set (node_ids nodes) \<subseteq> set v" by auto
    have "i \<in> set (node_ids nodes)" if "(i, j) \<in> prereq_rel nodes" for i j
      using that find_node_iff [of nodes i] by (auto simp: prereq_rel_def)
    with closed have "prereq_rel nodes \<subseteq> set (node_ids nodes) \<times> set (node_ids nodes)" by auto
    with all have "prereq_rel nodes \<subseteq> prereq_rel nodes \<inter> (set v \<times> set v)" by auto
    from acyclic_subset [OF finished_order_acyclic [OF fin] this] show ?thesis
      using Inr by (simp add: assertAcyclic_def)
  next
    case (Inl e)
    with total visit_Inl_cycle [of nodes "[]" "[]" "node_ids nodes"] show ?thesis
      by (auto simp: assertAcyclic_def js_fail_def)
  qed
qed

text \<open>
  C28. The depth-first cycle check accepts a node list, whose dependencies and parents all exist,
  exactly when the prerequisite relation (dependencies and parents) has no cycle, however deep.
\<close>

theorem assertAcyclic_decides_acyclicity:
  assumes "\<And>i j. (i, j) \<in> prereq_rel nodes \<Longrightarrow> j \<in> set (node_ids nodes)"
  shows "assertAcyclic nodes = None \<longleftrightarrow> acyclic (prereq_rel nodes)"
  by (rule assertAcyclic_iff) (rule assms)

section \<open>Dependents are reachability\<close>

text \<open>A node depends directly on its dependencies and on its parent.\<close>

definition dependent_of :: "PlanNode list \<Rightarrow> string \<Rightarrow> string \<Rightarrow> bool" where
  "dependent_of nodes i j \<longleftrightarrow>
     (\<exists>n\<in>set nodes. pn_id n = j \<and> (truthy (pn_parentId n) = Some i \<or> i \<in> set (pn_dependsOn n)))"

lemma depends_into_iff: "n \<in> set nodes \<Longrightarrow> depends_into c n \<Longrightarrow> \<exists>i\<in>set c. dependent_of nodes i (pn_id n)"
  by (auto simp: depends_into_def dependent_of_def list_ex_iff split: option.splits)

lemma closure_pass_sound:
  "set ns \<subseteq> set nodes \<Longrightarrow> x \<in> set (closure_pass ns c) \<Longrightarrow> \<exists>s\<in>set c. (dependent_of nodes)\<^sup>*\<^sup>* s x"
proof (induction ns c rule: closure_pass.induct)
  case (2 n ns closure)
  show ?case
  proof (cases "pn_id n \<notin> set closure \<and> depends_into closure n")
    case True
    then obtain i where i: "i \<in> set closure" "dependent_of nodes i (pn_id n)"
      using "2.prems"(1) depends_into_iff [of n nodes] by auto
    from True 2 obtain s where "s \<in> set (closure @ [pn_id n])" "(dependent_of nodes)\<^sup>*\<^sup>* s x" by auto
    with i show ?thesis by (auto intro: converse_rtranclp_into_rtranclp)
  next
    case False
    with 2 show ?thesis by (auto split: if_splits)
  qed
qed auto

lemma closure_loop_sound: "x \<in> set (closure_loop nodes c) \<Longrightarrow> \<exists>s\<in>set c. (dependent_of nodes)\<^sup>*\<^sup>* s x"
proof (induction nodes c rule: closure_loop.induct)
  case (1 nodes c)
  show ?case
  proof (cases "closure_pass nodes c = c")
    case True
    with "1.prems" show ?thesis by (auto simp: closure_loop.simps [of nodes c])
  next
    case False
    with 1 obtain s where "s \<in> set (closure_pass nodes c)" "(dependent_of nodes)\<^sup>*\<^sup>* s x"
      by (auto simp: closure_loop.simps [of nodes c] Let_def)
    with closure_pass_sound [of nodes nodes s c] show ?thesis by (auto intro: rtranclp_trans)
  qed
qed

lemma closure_pass_fixed:
  "closure_pass ns c = c \<Longrightarrow> n \<in> set ns \<Longrightarrow> depends_into c n \<Longrightarrow> pn_id n \<in> set c"
proof (induction ns)
  case (Cons m ns)
  obtain zs where "closure_pass ns (c @ [pn_id m]) = (c @ [pn_id m]) @ zs" using closure_pass_extends by blast
  then have "pn_id m \<in> set c \<or> \<not> depends_into c m" using Cons.prems(1) by (auto split: if_splits)
  then have "closure_pass ns c = c" using Cons.prems(1) by (auto split: if_splits)
  with Cons \<open>pn_id m \<in> set c \<or> \<not> depends_into c m\<close> show ?case by auto
qed simp

lemma closure_loop_fixed: "closure_pass nodes (closure_loop nodes c) = closure_loop nodes c"
proof (induction nodes c rule: closure_loop.induct)
  case (1 nodes c)
  then show ?case by (cases "closure_pass nodes c = c") (simp_all add: closure_loop.simps [of nodes c] Let_def)
qed

lemma closure_loop_extends: "set c \<subseteq> set (closure_loop nodes c)"
proof (induction nodes c rule: closure_loop.induct)
  case (1 nodes c)
  obtain zs where "closure_pass nodes c = c @ zs" using closure_pass_extends by blast
  with 1 show ?case
    by (cases "closure_pass nodes c = c") (auto simp: closure_loop.simps [of nodes c] Let_def)
qed

lemma set_dependentClosure:
  "set (dependentClosure graph starting) = {x. \<exists>s\<in>set starting. (dependent_of (pg_nodes graph))\<^sup>*\<^sup>* s x}"
proof (intro set_eqI iffI)
  fix x assume "x \<in> set (dependentClosure graph starting)"
  then show "x \<in> {x. \<exists>s\<in>set starting. (dependent_of (pg_nodes graph))\<^sup>*\<^sup>* s x}"
    using closure_loop_sound [of x "pg_nodes graph" "js_set starting"] by (simp add: dependentClosure_def)
next
  fix x assume "x \<in> {x. \<exists>s\<in>set starting. (dependent_of (pg_nodes graph))\<^sup>*\<^sup>* s x}"
  then obtain s where s: "s \<in> set starting" and path: "(dependent_of (pg_nodes graph))\<^sup>*\<^sup>* s x" by auto
  let ?c = "closure_loop (pg_nodes graph) (js_set starting)"
  from path have "x \<in> set ?c"
  proof (induction rule: rtranclp_induct)
    case base
    with s closure_loop_extends [of "js_set starting" "pg_nodes graph"] show ?case by auto
  next
    case (step y z)
    then obtain n where n: "n \<in> set (pg_nodes graph)" "pn_id n = z"
      "truthy (pn_parentId n) = Some y \<or> y \<in> set (pn_dependsOn n)" by (auto simp: dependent_of_def)
    with step.IH have "depends_into ?c n" by (auto simp: depends_into_def list_ex_iff)
    with closure_pass_fixed [OF closure_loop_fixed n(1)] n(2) show ?case by simp
  qed
  then show "x \<in> set (dependentClosure graph starting)" by (simp add: dependentClosure_def)
qed

text \<open>
  The dependents loop always stops, and what it collects is exactly what is reachable from the
  starting nodes along child and dependent edges.
\<close>

theorem dependentClosure_is_reachability:
  "sorted (dependentClosure graph starting)
   \<and> set (dependentClosure graph starting) = {x. \<exists>s\<in>set starting. (dependent_of (pg_nodes graph))\<^sup>*\<^sup>* s x}"
  by (simp add: set_dependentClosure) (simp add: dependentClosure_def)

section \<open>What validation guarantees\<close>

lemma js_fail_neq [simp]: "js_fail m \<noteq> Inr x" "js_fail m = Inl e \<longleftrightarrow> e = JsError m"
  by (auto simp: js_fail_def)

lemma if_fail_Inr: "(if b then js_fail m else r) = Inr x \<longleftrightarrow> \<not> b \<and> r = Inr x"
  by simp

lemma check_links_None:
  assumes "check_links nodes n = None"
  shows "pn_parentId n = Some p \<Longrightarrow> p \<in> set (node_ids nodes) \<and> p \<noteq> pn_id n"
    and "d \<in> set (pn_dependsOn n) \<Longrightarrow> d \<in> set (node_ids nodes) \<and> d \<noteq> pn_id n"
  using assms find_node_iff [of nodes]
  by (auto simp: check_links_def check_dependency_def for_all_throw_None_iff split: if_splits option.splits)

lemma check_structure_None:
  assumes "check_structure nodes roots = None"
  shows "roots \<noteq> []" and "r \<in> set roots \<Longrightarrow> \<exists>n. find_node nodes r = Some n \<and> pn_parentId n = None"
    and "n \<in> set nodes \<Longrightarrow> check_links nodes n = None" and "assertAcyclic nodes = None"
    and "g \<in> set (List.map_filter pn_choiceGroup nodes) \<Longrightarrow> check_choice_group nodes g = None"
proof -
  show "r \<in> set roots \<Longrightarrow> \<exists>n. find_node nodes r = Some n \<and> pn_parentId n = None"
    using assms by (cases "find_node nodes r")
      (force simp: check_structure_def check_root_def for_all_throw_None_iff split: if_splits option.splits)+
qed (use assms in \<open>auto simp: check_structure_def for_all_throw_None_iff split: if_splits option.splits\<close>)

lemma structure_closed:
  assumes "check_structure nodes roots = None" "(i, j) \<in> prereq_rel nodes"
  shows "j \<in> set (node_ids nodes)"
proof -
  from assms(2) obtain n where n: "n \<in> set nodes" "j \<in> set (prerequisites n)"
    by (auto simp: prereq_rel_def dest: find_node_SomeD)
  with check_links_None [OF check_structure_None(3) [OF assms(1) n(1)]] show ?thesis
    by (auto simp: prerequisites_def split: option.splits)
qed

lemma validatePlanGraph_InrD:
  assumes "validatePlanGraph goal graph = Inr g"
  shows "pg_goalId g = cg_id goal" and "pg_version g \<ge> 1" and "pg_version g = pg_version graph"
    and "distinct (node_ids (pg_nodes g))" and "check_structure (pg_nodes g) (pg_rootNodeIds g) = None"
    and "map_throw normalizeNode (pg_nodes graph) = Inr (pg_nodes g)"
    and "1 \<le> length (pg_nodes g)" and "length (pg_nodes g) \<le> 10000"
proof -
  from assms obtain nodes roots i where
    *: "pg_goalId graph = cg_id goal" "is_safe_integer (pg_version graph)" "pg_version graph \<ge> 1"
      "1 \<le> length (pg_nodes graph)" "length (pg_nodes graph) \<le> 10000"
      "map_throw normalizeNode (pg_nodes graph) = Inr nodes" "distinct (node_ids nodes)"
      "check_structure nodes roots = None"
      "g = \<lparr>pg_planId = i, pg_goalId = pg_goalId graph, pg_version = pg_version graph,
            pg_rootNodeIds = roots, pg_nodes = nodes\<rparr>"
    unfolding validatePlanGraph_def
    by (auto simp only: if_fail_Inr bind_result_Inr not_less de_Morgan_disj not_not split: option.split_asm)
      (auto simp: bind_result_Inr)
  then show "pg_goalId g = cg_id goal" "pg_version g \<ge> 1" "pg_version g = pg_version graph"
    "distinct (node_ids (pg_nodes g))" "check_structure (pg_nodes g) (pg_rootNodeIds g) = None"
    "map_throw normalizeNode (pg_nodes graph) = Inr (pg_nodes g)" by auto
  show "1 \<le> length (pg_nodes g)" "length (pg_nodes g) \<le> 10000"
    using *(4,5,9) map_throw_length [OF *(6)] by auto
qed

lemma normalizeNode_InrD:
  assumes "normalizeNode n = Inr m"
  shows "1 \<le> pn_maxAttempts m" and "pn_maxAttempts m \<le> 100" and "pn_kind m = pn_kind n"
    and "pn_reversible m = pn_reversible n" and "truthy (pn_parentId m) = pn_parentId m"
proof -
  from assms obtain par ma where
    *: "plan_integer 1 100 ''node.maxAttempts'' (pn_maxAttempts n) = Inr ma"
      "when_truthy (plan_bounded 256 ''node.parentId'') (pn_parentId n) = Inr par"
      "pn_maxAttempts m = ma" "pn_parentId m = par" "pn_kind m = pn_kind n" "pn_reversible m = pn_reversible n"
    unfolding normalizeNode_def bind_result_Inr by auto
  then show "1 \<le> pn_maxAttempts m" "pn_maxAttempts m \<le> 100" by (auto simp: plan_integer_def split: if_splits)
  from * show "pn_kind m = pn_kind n" "pn_reversible m = pn_reversible n" by simp_all
  from *(2,4) show "truthy (pn_parentId m) = pn_parentId m"
    by (auto simp: when_truthy_def truthy_def plan_bounded_def js_fail_def split: option.splits if_splits)
qed

text \<open>
  C29. A validated plan graph is well formed: unique node identifiers, at least one root and every root a
  parentless node of the graph, every dependency and parent a different node of the graph, attempt
  budgets between 1 and 100, and no cycle through dependencies and parents.
\<close>

theorem validatePlanGraph_well_formed:
  assumes "validatePlanGraph goal graph = Inr g"
  shows "pg_goalId g = cg_id goal \<and> distinct (node_ids (pg_nodes g)) \<and> pg_rootNodeIds g \<noteq> []
    \<and> (\<forall>r\<in>set (pg_rootNodeIds g). \<exists>n\<in>set (pg_nodes g). pn_id n = r \<and> pn_parentId n = None)
    \<and> (\<forall>n\<in>set (pg_nodes g). 1 \<le> pn_maxAttempts n \<and> pn_maxAttempts n \<le> 100
         \<and> set (prerequisites n) \<subseteq> set (node_ids (pg_nodes g)) - {pn_id n})
    \<and> acyclic (prereq_rel (pg_nodes g))"
proof -
  note D = validatePlanGraph_InrD [OF assms]
  note S = check_structure_None [OF D(5)]
  have roots: "\<exists>n\<in>set (pg_nodes g). pn_id n = r \<and> pn_parentId n = None" if "r \<in> set (pg_rootNodeIds g)" for r
    using S(2) [OF that] by (auto dest: find_node_SomeD)
  have attempts: "1 \<le> pn_maxAttempts n \<and> pn_maxAttempts n \<le> 100" if "n \<in> set (pg_nodes g)" for n
    using map_throw_set [OF D(6)] that normalizeNode_InrD by blast
  have links: "set (prerequisites n) \<subseteq> set (node_ids (pg_nodes g)) - {pn_id n}" if "n \<in> set (pg_nodes g)" for n
    using check_links_None [OF S(3) [OF that]] by (cases "pn_parentId n") (auto simp: prerequisites_def)
  have "acyclic (prereq_rel (pg_nodes g))"
    using assertAcyclic_iff [of "pg_nodes g"] structure_closed [OF D(5)] S(4) by blast
  with D(1,4) S(1) roots attempts links show ?thesis by blast
qed

lemma values_of_iff:
  "v \<in> set (values_of st cs k) \<longleftrightarrow> (\<exists>c\<in>set cs. gc_strength c = st \<and> gc_factKey c = k \<and> gc_expectedValueDigest c = v)"
  by (auto simp: values_of_def)

lemma concrete_values_iff: "v \<in> set (concrete_values vs) \<longleftrightarrow> Some v \<in> set vs"
  by (auto simp: concrete_values_def map_filter_def image_iff)

lemma at_most_one: "length xs \<le> 1 \<Longrightarrow> x \<in> set xs \<Longrightarrow> y \<in> set xs \<Longrightarrow> x = y"
  by (cases xs) auto

lemma check_constraints_None:
  assumes "check_constraints success forbidden cs = None"
  shows "distinct (map gc_id cs)"
    and "a \<in> set cs \<Longrightarrow> b \<in> set cs \<Longrightarrow> gc_strength a = Must \<Longrightarrow> gc_strength b = Must \<Longrightarrow> gc_factKey a = gc_factKey b
      \<Longrightarrow> gc_expectedValueDigest a = Some u \<Longrightarrow> gc_expectedValueDigest b = Some v \<Longrightarrow> u = v"
    and "a \<in> set cs \<Longrightarrow> b \<in> set cs \<Longrightarrow> gc_strength a = Must \<Longrightarrow> gc_strength b = MustNot \<Longrightarrow> gc_factKey a = gc_factKey b
      \<Longrightarrow> \<exists>u v. gc_expectedValueDigest a = Some u \<and> gc_expectedValueDigest b = Some v \<and> u \<noteq> v"
    and "b \<in> set cs \<Longrightarrow> gc_strength b = MustNot \<Longrightarrow> gc_factKey b \<in> set success \<Longrightarrow> gc_expectedValueDigest b \<noteq> None"
    and "a \<in> set cs \<Longrightarrow> gc_strength a = Must \<Longrightarrow> gc_factKey a \<in> set forbidden \<Longrightarrow> gc_expectedValueDigest a \<noteq> None"
proof -
  from assms show "distinct (map gc_id cs)" by (auto simp: check_constraints_def split: if_splits)
  have facts: "gc_factKey a \<in> set (must_facts cs)" if "a \<in> set cs" "gc_strength a = Must" for a
    using that by (auto simp: must_facts_def)
  show "u = v" if "a \<in> set cs" "b \<in> set cs" "gc_strength a = Must" "gc_strength b = Must" "gc_factKey a = gc_factKey b"
    "gc_expectedValueDigest a = Some u" "gc_expectedValueDigest b = Some v"
  proof (rule at_most_one)
    show "length (concrete_values (values_of Must cs (gc_factKey a))) \<le> 1"
      using assms facts [OF that(1,3)]
      by (auto simp: check_constraints_def for_all_throw_None_iff must_conflict_def not_less split: if_splits option.splits)
    show "u \<in> set (concrete_values (values_of Must cs (gc_factKey a)))"
      and "v \<in> set (concrete_values (values_of Must cs (gc_factKey a)))"
      using that by (auto simp: concrete_values_iff values_of_iff)
  qed
  show "\<exists>u v. gc_expectedValueDigest a = Some u \<and> gc_expectedValueDigest b = Some v \<and> u \<noteq> v"
    if "a \<in> set cs" "b \<in> set cs" "gc_strength a = Must" "gc_strength b = MustNot" "gc_factKey a = gc_factKey b"
  proof -
    have hard: "hard_contradiction cs (gc_factKey a) = None"
      using assms facts [OF that(1,3)]
      by (auto simp: check_constraints_def for_all_throw_None_iff split: if_splits option.splits)
    have ma: "gc_expectedValueDigest a \<in> set (values_of Must cs (gc_factKey a))"
      and mb: "gc_expectedValueDigest b \<in> set (values_of MustNot cs (gc_factKey a))"
      using that by (auto simp: values_of_iff)
    then have "values_of MustNot cs (gc_factKey a) \<noteq> []" by auto
    with hard ma mb show ?thesis
      by (cases "gc_expectedValueDigest a"; cases "gc_expectedValueDigest b")
        (auto simp: hard_contradiction_def Let_def list_ex_iff split: if_splits)
  qed
qed (use assms in \<open>auto simp: check_constraints_def goal_contradiction_def for_all_throw_None_iff
  split: if_splits option.splits\<close>)

lemma compileGoal_InrD:
  assumes "compileGoal d = Inr g"
  shows "cg_successFactKeys g \<noteq> []" and "set (cg_successFactKeys g) \<inter> set (cg_forbiddenFactKeys g) = {}"
    and "check_constraints (cg_successFactKeys g) (cg_forbiddenFactKeys g) (cg_constraints g) = None"
    and "set (cg_successFactKeys g) = set (gd_successFactKeys d)"
proof -
  from assms obtain success forbidden constraints where
    "unique_bounded 512 ''successFactKey'' (gd_successFactKeys d) = Inr success"
    "success \<noteq> []" "filter (\<lambda>k. k \<in> set forbidden) success = []"
    "check_constraints success forbidden constraints = None"
    "cg_successFactKeys g = success" "cg_forbiddenFactKeys g = forbidden" "cg_constraints g = constraints"
    unfolding compileGoal_def
    by (auto simp only: bind_result_Inr if_fail_Inr not_not de_Morgan_disj split: option.split_asm)
      (auto simp: bind_result_Inr)
  moreover from this(1) have "set success = set (gd_successFactKeys d)"
  proof -
    obtain ys where "map_throw (plan_bounded 512 ''successFactKey'') (gd_successFactKeys d) = Inr ys"
      "success = unique_sorted ys"
      using \<open>unique_bounded 512 _ _ = _\<close> by (auto simp: unique_bounded_def map_sum_def split: sum.splits)
    moreover have "ys = xs" if "map_throw (plan_bounded n l) xs = Inr ys" for n l xs ys
      using that by (induction xs arbitrary: ys) (auto simp: plan_bounded_def split: if_splits sum.splits)
    ultimately show ?thesis by auto
  qed
  ultimately show "cg_successFactKeys g \<noteq> []" "set (cg_successFactKeys g) \<inter> set (cg_forbiddenFactKeys g) = {}"
    "check_constraints (cg_successFactKeys g) (cg_forbiddenFactKeys g) (cg_constraints g) = None"
    "set (cg_successFactKeys g) = set (gd_successFactKeys d)"
    by (auto simp: filter_empty_conv)
qed

text \<open>
  A compiled goal is consistent: it requires something, nothing it requires is forbidden, its hard
  constraints on one fact agree on at most one value, no value that is demanded is denied, and a bare
  denial never hits a required fact nor a bare demand a forbidden one.
\<close>

theorem compileGoal_consistent:
  assumes "compileGoal d = Inr g"
  shows "cg_successFactKeys g \<noteq> [] \<and> set (cg_successFactKeys g) \<inter> set (cg_forbiddenFactKeys g) = {}
    \<and> (\<forall>a\<in>set (cg_constraints g). \<forall>b\<in>set (cg_constraints g). gc_strength a = Must \<and> gc_factKey a = gc_factKey b \<longrightarrow>
         (gc_strength b = Must \<longrightarrow> gc_expectedValueDigest a = None \<or> gc_expectedValueDigest b = None
            \<or> gc_expectedValueDigest a = gc_expectedValueDigest b)
         \<and> (gc_strength b = MustNot \<longrightarrow> gc_expectedValueDigest a \<noteq> gc_expectedValueDigest b
            \<and> gc_expectedValueDigest a \<noteq> None \<and> gc_expectedValueDigest b \<noteq> None))
    \<and> (\<forall>b\<in>set (cg_constraints g). gc_strength b = MustNot \<and> gc_factKey b \<in> set (cg_successFactKeys g)
         \<longrightarrow> gc_expectedValueDigest b \<noteq> None)
    \<and> (\<forall>a\<in>set (cg_constraints g). gc_strength a = Must \<and> gc_factKey a \<in> set (cg_forbiddenFactKeys g)
         \<longrightarrow> gc_expectedValueDigest a \<noteq> None)"
proof -
  note D = compileGoal_InrD [OF assms]
  note C = check_constraints_None [OF D(3)]
  have must: "gc_expectedValueDigest a = None \<or> gc_expectedValueDigest b = None
      \<or> gc_expectedValueDigest a = gc_expectedValueDigest b"
    if "a \<in> set (cg_constraints g)" "b \<in> set (cg_constraints g)" "gc_strength a = Must" "gc_strength b = Must"
      "gc_factKey a = gc_factKey b" for a b
    using C(2) [OF that] by (cases "gc_expectedValueDigest a"; cases "gc_expectedValueDigest b") auto
  have deny: "gc_expectedValueDigest a \<noteq> gc_expectedValueDigest b
      \<and> gc_expectedValueDigest a \<noteq> None \<and> gc_expectedValueDigest b \<noteq> None"
    if "a \<in> set (cg_constraints g)" "b \<in> set (cg_constraints g)" "gc_strength a = Must" "gc_strength b = MustNot"
      "gc_factKey a = gc_factKey b" for a b
    using C(3) [OF that] by auto
  show ?thesis
    by (intro conjI ballI impI; (elim conjE)?) (use D(1,2) C(4,5) must deny in auto)
qed

section \<open>Node digests bind node content\<close>

lemma precondition_json_inject:
  assumes "key_sorted (precondition_json p) = key_sorted (precondition_json q)"
  shows "p = q"
proof -
  have d: "distinct (map fst ((''factKey'', JStr (pc_factKey p)) # opt_member JStr ''expectedValueDigest'' (pc_expectedValueDigest p)
     @ opt_member JNum ''minimumConfidence'' (pc_minimumConfidence p) @ opt_member JBool ''allowStale'' (pc_allowStale p)))" for p
    by (auto simp: opt_member_def split: option.splits)
  note look = key_sorted_lookup [OF assms [unfolded precondition_json_def] d d]
  have "pc_factKey p = pc_factKey q" using look [of "''factKey''"] by simp
  moreover have "pc_expectedValueDigest p = pc_expectedValueDigest q"
    using look [of "''expectedValueDigest''"] by (simp add: map_add_def option.map_comp comp_def split: option.splits)
  moreover have "pc_minimumConfidence p = pc_minimumConfidence q"
    using look [of "''minimumConfidence''"] by (simp add: map_add_def option.map_comp comp_def split: option.splits)
  moreover have "pc_allowStale p = pc_allowStale q"
    using look [of "''allowStale''"] by (simp add: map_add_def option.map_comp comp_def split: option.splits)
  ultimately show ?thesis by simp
qed

lemma map_json_inject:
  assumes "map (\<lambda>x. key_sorted (f x)) xs = map (\<lambda>x. key_sorted (f x)) ys"
    and "\<And>x y. key_sorted (f x) = key_sorted (f y) \<Longrightarrow> x = y"
  shows "xs = ys"
  using assms(1)
proof (induction xs arbitrary: ys)
  case (Cons x xs)
  then show ?case using assms(2) by (cases ys) auto
qed simp

lemma node_json_inject:
  assumes "key_sorted (node_json m) = key_sorted (node_json n)"
  shows "m = n"
proof -
  have d: "distinct (map fst ([(''id'', JStr (pn_id n)), (''kind'', JStr (node_kind_text (pn_kind n))), (''title'', JStr (pn_title n))]
     @ opt_member JStr ''parentId'' (pn_parentId n) @ [(''dependsOn'', strings_json (pn_dependsOn n))]
     @ opt_member JStr ''choiceGroup'' (pn_choiceGroup n)
     @ [(''preconditions'', JArr (map precondition_json (pn_preconditions n))),
        (''expectedEffects'', strings_json (pn_expectedEffects n)),
        (''verificationFactKeys'', strings_json (pn_verificationFactKeys n)),
        (''allowedCapabilities'', strings_json (pn_allowedCapabilities n)),
        (''expectedCost'', JNum (pn_expectedCost n)), (''risk'', JNum (pn_risk n)),
        (''reversible'', JBool (pn_reversible n)), (''maxAttempts'', JNum (of_int (pn_maxAttempts n)))]))" for n
    by (auto simp: opt_member_def split: option.splits)
  note look = key_sorted_lookup [OF assms [unfolded node_json_def] d d]
  have "map (\<lambda>p. key_sorted (precondition_json p)) (pn_preconditions m)
      = map (\<lambda>p. key_sorted (precondition_json p)) (pn_preconditions n)"
    using look [of "''preconditions''"] by (simp add: map_add_def comp_def split: option.splits)
  then have "pn_preconditions m = pn_preconditions n"
    using precondition_json_inject by (rule map_json_inject)
  moreover have "node_kind_text (pn_kind m) = node_kind_text (pn_kind n)" using look [of "''kind''"] by simp
  then have "pn_kind m = pn_kind n" by (cases "pn_kind m"; cases "pn_kind n"; simp)
  moreover have "pn_id m = pn_id n" "pn_title m = pn_title n" "pn_parentId m = pn_parentId n" "pn_dependsOn m = pn_dependsOn n"
    using look [of "''id''"] look [of "''title''"] look [of "''parentId''"] look [of "''dependsOn''"]
    by (simp_all add: map_add_def option.map_comp comp_def split: option.splits)
  moreover have "pn_choiceGroup m = pn_choiceGroup n" "pn_expectedEffects m = pn_expectedEffects n"
      "pn_verificationFactKeys m = pn_verificationFactKeys n" "pn_allowedCapabilities m = pn_allowedCapabilities n"
    using look [of "''choiceGroup''"] look [of "''expectedEffects''"] look [of "''verificationFactKeys''"]
      look [of "''allowedCapabilities''"]
    by (simp_all add: map_add_def option.map_comp comp_def split: option.splits)
  moreover have "pn_expectedCost m = pn_expectedCost n" "pn_risk m = pn_risk n" "pn_reversible m = pn_reversible n"
      "pn_maxAttempts m = pn_maxAttempts n"
    using look [of "''expectedCost''"] look [of "''risk''"] look [of "''reversible''"] look [of "''maxAttempts''"]
    by (simp_all add: map_add_def option.map_comp comp_def split: option.splits)
  ultimately show ?thesis by simp
qed

lemma defined_node_json: "defined_json (node_json n)"
  by (auto simp: node_json_def precondition_json_def opt_member_def list_all_iff split: option.splits)

lemma node_digest_eqD:
  assumes "digestPlan H (node_json m) = digestPlan H (node_json n)" "no_collision H (node_json m) (node_json n)"
    "number_text (h_num H)"
  shows "m = n"
  by (rule node_json_inject, rule digest_eqD [OF assms defined_node_json defined_node_json])

section \<open>A sample plan\<close>

text \<open>An action with a verified effect, and a check that depends on it.\<close>

definition sample_action :: PlanNode where
  "sample_action = \<lparr>pn_id = ''act'', pn_kind = KAction, pn_title = ''write'', pn_parentId = None, pn_dependsOn = [],
     pn_choiceGroup = None, pn_preconditions = [], pn_expectedEffects = [''file''], pn_verificationFactKeys = [''file''],
     pn_allowedCapabilities = [''file.write''], pn_expectedCost = 1, pn_risk = 0, pn_reversible = True, pn_maxAttempts = 2\<rparr>"

definition sample_check :: PlanNode where
  "sample_check = \<lparr>pn_id = ''chk'', pn_kind = KVerify, pn_title = ''check'', pn_parentId = Some ''act'', pn_dependsOn = [''act''],
     pn_choiceGroup = None, pn_preconditions = [], pn_expectedEffects = [], pn_verificationFactKeys = [],
     pn_allowedCapabilities = [], pn_expectedCost = 1, pn_risk = 0, pn_reversible = True, pn_maxAttempts = 1\<rparr>"

definition sample_graph :: PlanGraph where
  "sample_graph = \<lparr>pg_planId = ''plan'', pg_goalId = ''goal'', pg_version = 1, pg_rootNodeIds = [''act''],
     pg_nodes = [sample_action, sample_check]\<rparr>"

definition sample_draft :: GoalDraft where
  "sample_draft = \<lparr>gd_id = ''goal'', gd_kind = ''edit'', gd_objective = ''write it'', gd_successFactKeys = [''file''],
     gd_forbiddenFactKeys = Some [''leak''],
     gd_constraints = Some [\<lparr>gc_id = ''c1'', gc_strength = Must, gc_factKey = ''file'', gc_expectedValueDigest = None,
       gc_description = ''written''\<rparr>], gd_unresolvedAssumptions = None\<rparr>"

definition sample_goal :: CompiledGoal where
  "sample_goal = \<lparr>cg_id = ''goal'', cg_kind = ''edit'', cg_objective = ''write it'', cg_successFactKeys = [''file''],
     cg_forbiddenFactKeys = [''leak''],
     cg_constraints = [\<lparr>gc_id = ''c1'', gc_strength = Must, gc_factKey = ''file'', gc_expectedValueDigest = None,
       gc_description = ''written''\<rparr>], cg_unresolvedAssumptions = []\<rparr>"

lemmas sample_plan_defs = sample_action_def sample_check_def sample_graph_def sample_draft_def sample_goal_def

lemma sample_goal_compiles: "compileGoal sample_draft = Inr sample_goal"
  by code_simp

lemma sample_graph_validates: "validatePlanGraph sample_goal sample_graph = Inr sample_graph"
  by code_simp

lemma sample_graph_checks: "check_structure (pg_nodes sample_graph) (pg_rootNodeIds sample_graph) = None"
  by code_simp

theorem assertAcyclic_decides_acyclicity_witness: "acyclic (prereq_rel (pg_nodes sample_graph))"
proof -
  have "assertAcyclic (pg_nodes sample_graph) = None" by code_simp
  then show ?thesis
    using assertAcyclic_decides_acyclicity [OF structure_closed [OF sample_graph_checks]] by simp
qed

theorem validatePlanGraph_well_formed_witness:
  "validatePlanGraph sample_goal sample_graph = Inr sample_graph \<and> acyclic (prereq_rel (pg_nodes sample_graph))"
  using validatePlanGraph_well_formed [OF sample_graph_validates] sample_graph_validates by simp

theorem compileGoal_consistent_witness:
  "compileGoal sample_draft = Inr sample_goal
   \<and> set (cg_successFactKeys sample_goal) \<inter> set (cg_forbiddenFactKeys sample_goal) = {}"
  using compileGoal_consistent [OF sample_goal_compiles] sample_goal_compiles by simp

end
