(* ===== verification/PlanControl.thy ===== *)
theory PlanControl
  imports PlanGraph
begin

text \<open>
  What moves a plan besides its own execution: rebinding to beliefs (\<open>belief-binding.ts\<close>), assessing an
  outcome and local repair (\<open>plan-monitor.ts\<close>), choosing between alternatives (\<open>choice-policy.ts\<close>) and the
  commit preflight and completion receipts (\<open>commit-protocol.ts\<close>), all of
  \<open>packages/verified-plan-runtime/src\<close>. A \<open>Map\<close> built from a list keeps the last entry of a key.
\<close>

definition last_state :: "PlanNodeState list \<Rightarrow> string \<Rightarrow> PlanNodeState option" where
  "last_state states i = find_state (rev states) i"

definition last_belief :: "BeliefView list \<Rightarrow> string \<Rightarrow> BeliefView option" where
  "last_belief beliefs k = find_belief (rev beliefs) k"

definition status_of :: "PlanNodeState list \<Rightarrow> string \<Rightarrow> PlanNodeStatus option" where
  "status_of states i = map_option ns_status (last_state states i)"

section \<open>Belief binding\<close>

primrec normalize_beliefs_from :: "BeliefView list \<Rightarrow> string list \<Rightarrow> BeliefView list result" where
  "normalize_beliefs_from [] seen = Inr []"
| "normalize_beliefs_from (b # bs) seen =
     bind_result (plan_bounded 512 ''belief.factKey'' (bv_factKey b)) (\<lambda>k.
     if k \<in> set seen then js_fail ''belief facts must be unique''
     else if bv_confidence b < 0 \<or> bv_confidence b > 1 then js_fail ''belief.confidence is invalid.''
     else if length (bv_evidenceDigests b) > 1000 then js_fail ''belief.evidenceDigests is invalid.''
     else bind_result (when_truthy (plan_sha256 ''belief.selectedValueDigest'') (bv_selectedValueDigest b)) (\<lambda>d.
          bind_result (map_throw (plan_sha256 ''belief.evidenceDigest'') (bv_evidenceDigests b)) (\<lambda>evidence.
          bind_result (normalize_beliefs_from bs (k # seen)) (\<lambda>rest.
            Inr (\<lparr>bv_factKey = k, bv_status = bv_status b, bv_confidence = bv_confidence b,
                  bv_selectedValueDigest = d, bv_evidenceDigests = unique_sorted evidence\<rparr> # rest)))))"

definition normalizeBeliefs :: "BeliefView list \<Rightarrow> BeliefView list result" where
  "normalizeBeliefs bs = (if length bs > 10000 then js_fail ''belief list is invalid.'' else normalize_beliefs_from bs [])"

record BeliefBindingResult =
  bb_states :: "PlanNodeState list"
  bb_invalidatedNodeIds :: "string list"
  bb_readyNodeIds :: "string list"

text \<open>A belief that rules a precondition out, rather than merely failing to support it.\<close>

definition belief_refutes :: "BeliefView list \<Rightarrow> PlanPrecondition \<Rightarrow> bool" where
  "belief_refutes beliefs p =
     (case find_belief beliefs (pc_factKey p) of None \<Rightarrow> False
      | Some b \<Rightarrow> bv_status b = BDisproven
          \<or> (truthy (pc_expectedValueDigest p) \<noteq> None \<and> truthy (bv_selectedValueDigest b) \<noteq> None
             \<and> bv_selectedValueDigest b \<noteq> pc_expectedValueDigest p \<and> bv_status b \<in> {BKnown, BSupported}))"

definition hard_invalid_root :: "PlanNodeState list \<Rightarrow> BeliefView list \<Rightarrow> PlanNode \<Rightarrow> bool" where
  "hard_invalid_root states beliefs n =
     (case find_state states (pn_id n) of None \<Rightarrow> False
      | Some s \<Rightarrow> ns_status s \<notin> {NsSucceeded, NsSkipped, NsRunning} \<and> \<not> awaits_verification s
          \<and> list_ex (belief_refutes beliefs) (pn_preconditions n))"

definition unsettled_execution :: "PlanNodeState \<Rightarrow> bool" where
  "unsettled_execution s \<longleftrightarrow> ns_status s = NsRunning \<or> awaits_verification s"

definition invalidate_state :: "int \<Rightarrow> string list \<Rightarrow> PlanNodeState \<Rightarrow> PlanNodeState" where
  "invalidate_state now invalidated s =
     (if ns_nodeId s \<in> set invalidated \<and> ns_status s \<noteq> NsSucceeded \<and> \<not> unsettled_execution s
      then s\<lparr>ns_status := NsInvalidated, ns_lastReason := Value ''belief-precondition-invalidated'', ns_lastUpdatedAt := now\<rparr>
      else s)"

definition refresh_state :: "int \<Rightarrow> string list \<Rightarrow> PlanNodeState \<Rightarrow> PlanNodeState" where
  "refresh_state now ready s =
     (if ns_nodeId s \<in> set ready \<and> ns_status s \<notin> {NsSucceeded, NsRunning}
      then s\<lparr>ns_status := NsReady, ns_lastReason := Undefined, ns_lastUpdatedAt := now\<rparr>
      else if ns_status s = NsReady \<and> ns_nodeId s \<notin> set ready
      then s\<lparr>ns_status := NsBlocked, ns_lastReason := Value ''preconditions-or-dependencies-not-satisfied'', ns_lastUpdatedAt := now\<rparr>
      else s)"

definition bindPlanToBeliefs ::
  "PlanGraph \<Rightarrow> PlanNodeState list \<Rightarrow> BeliefView list \<Rightarrow> int \<Rightarrow> BeliefBindingResult result" where
  "bindPlanToBeliefs graph states0 beliefs0 now =
     bind_result (normalizeBeliefs beliefs0) (\<lambda>beliefs.
     let roots = map pn_id (filter (hard_invalid_root states0 beliefs) (pg_nodes graph));
         invalidated = dependentClosure graph (unique_sorted roots);
         states = map (invalidate_state now invalidated) states0
     in bind_result (readyNodeIds graph states beliefs) (\<lambda>ready.
       Inr \<lparr>bb_states = map (refresh_state now ready) states, bb_invalidatedNodeIds = invalidated, bb_readyNodeIds = ready\<rparr>))"

section \<open>Outcome assessment and local repair\<close>

datatype PlanSideEffects = SeNone | SeKnown | SeUncertain

record ExecutionObservation =
  eo_changedFactKeys :: "string list"
  eo_supportedFactKeys :: "string list"
  eo_contradictedFactKeys :: "string list"
  eo_executionOk :: bool
  eo_sideEffectState :: PlanSideEffects
  eo_evidenceDigests :: "string list option"

record NodeOutcomeAssessment =
  oa_accepted :: bool
  oa_requiresVerification :: bool
  oa_reason :: string
  oa_missingExpectedEffects :: "string list"

abbreviation uncertain_reason :: string where
  "uncertain_reason \<equiv> ''mutation-side-effects-uncertain-reconciliation-required''"

definition rejected :: "string \<Rightarrow> string list \<Rightarrow> NodeOutcomeAssessment" where
  "rejected reason missing = \<lparr>oa_accepted = False, oa_requiresVerification = False, oa_reason = reason,
     oa_missingExpectedEffects = missing\<rparr>"

definition assessNodeOutcome :: "PlanNode \<Rightarrow> ExecutionObservation \<Rightarrow> NodeOutcomeAssessment" where
  "assessNodeOutcome n ob =
     (if \<not> eo_executionOk ob then rejected ''execution-provider-reported-failure'' (pn_expectedEffects n)
      else if eo_sideEffectState ob = SeUncertain then rejected uncertain_reason (pn_expectedEffects n)
      else let observed = eo_changedFactKeys ob @ eo_supportedFactKeys ob;
               missing = filter (\<lambda>f. f \<notin> set observed) (pn_expectedEffects n);
               contradicted = filter (\<lambda>f. f \<in> set (eo_contradictedFactKeys ob)) (pn_expectedEffects n)
           in if contradicted \<noteq> [] then rejected ''expected-effects-contradicted'' (unique_sorted (missing @ contradicted))
              else if missing \<noteq> [] then rejected ''expected-effects-not-observed'' missing
              else \<lparr>oa_accepted = True, oa_requiresVerification = (pn_verificationFactKeys n \<noteq> []),
                    oa_reason = (if pn_verificationFactKeys n \<noteq> [] then ''effects-observed-awaiting-independent-verification''
                                 else ''effects-observed''),
                    oa_missingExpectedEffects = []\<rparr>)"

record PlanRepairDecision =
  rd_failedNodeId :: string
  rd_invalidatedNodeIds :: "string list"
  rd_preservedSucceededNodeIds :: "string list"
  rd_reason :: string

definition planLocalRepair ::
  "PlanGraph \<Rightarrow> PlanNodeState list \<Rightarrow> string \<Rightarrow> string \<Rightarrow> PlanRepairDecision result" where
  "planLocalRepair graph states failedNodeId reason =
     (if find_node (pg_nodes graph) failedNodeId = None then js_fail ''failed node does not exist.''
      else let closure = dependentClosure graph [failedNodeId];
               invalidated = sort (filter (\<lambda>i. status_of states i \<noteq> Some NsSucceeded) closure);
               preserved = sort (map ns_nodeId (filter (\<lambda>s. ns_status s = NsSucceeded \<and> ns_nodeId s \<notin> set invalidated) states))
           in Inr \<lparr>rd_failedNodeId = failedNodeId, rd_invalidatedNodeIds = invalidated,
                   rd_preservedSucceededNodeIds = preserved, rd_reason = reason\<rparr>)"

section \<open>Choice between alternatives\<close>

record ChoiceSelectionResult =
  cs_choiceGroup :: string
  cs_selectedNodeId :: string
  cs_skippedNodeIds :: "string list"
  cs_states :: "PlanNodeState list"

definition state_satisfies :: "PlanNodeState list \<Rightarrow> (PlanNodeState \<Rightarrow> bool) \<Rightarrow> PlanNode \<Rightarrow> bool" where
  "state_satisfies states P n = (case last_state states (pn_id n) of None \<Rightarrow> False | Some s \<Rightarrow> P s)"

definition skip_state :: "int \<Rightarrow> string list \<Rightarrow> PlanNodeState \<Rightarrow> PlanNodeState" where
  "skip_state now skipped s =
     (if ns_nodeId s \<notin> set skipped \<or> ns_status s = NsSucceeded then s
      else s\<lparr>ns_status := NsSkipped, ns_lastReason := Value ''alternative-choice-not-selected'', ns_lastUpdatedAt := now\<rparr>)"

definition choice_skips :: "PlanGraph \<Rightarrow> string \<Rightarrow> PlanNode list \<Rightarrow> string list" where
  "choice_skips graph selected siblings =
     (let selectedClosure = dependentClosure graph [selected] in
      js_set (concat (map (\<lambda>n. filter (\<lambda>i. i \<notin> set selectedClosure) (dependentClosure graph [pn_id n])) siblings)))"

definition selectChoiceBranch ::
  "PlanGraph \<Rightarrow> PlanNodeState list \<Rightarrow> string \<Rightarrow> string \<Rightarrow> int \<Rightarrow> ChoiceSelectionResult result" where
  "selectChoiceBranch graph states choiceGroup selected now =
     (let alternatives = choice_alternatives (pg_nodes graph) choiceGroup;
          siblings = filter (\<lambda>n. pn_id n \<noteq> selected) alternatives in
      if length alternatives < 2 then js_fail ''choice group must contain at least two alternatives.''
      else if \<not> list_ex (\<lambda>n. pn_id n = selected) alternatives then js_fail ''selected node is not in the choice group.''
      else case last_state states selected of None \<Rightarrow> js_fail ''selected node state is missing.''
      | Some s \<Rightarrow>
         if ns_status s \<in> {NsFailed, NsInvalidated, NsSkipped} then js_fail ''selected choice branch is not executable.''
         else if list_ex (state_satisfies states (\<lambda>s. ns_status s = NsSucceeded)) siblings
         then js_fail ''choice group is already committed to a different successful branch.''
         else if list_ex (state_satisfies states (\<lambda>s. ns_status s = NsRunning)) siblings
         then js_fail ''cannot switch choice while another alternative is running.''
         else if list_ex (state_satisfies states awaits_verification) siblings
         then js_fail ''cannot switch choice while another alternative is awaiting verification.''
         else if list_ex (state_satisfies states
                (\<lambda>s. ns_status s = NsFailed \<and> prop_value (ns_lastReason s) = Some uncertain_reason)) siblings
         then js_fail ''cannot switch choice while another alternative has uncertain side effects.''
         else let skipped = choice_skips graph selected siblings in
           Inr \<lparr>cs_choiceGroup = choiceGroup, cs_selectedNodeId = selected, cs_skippedNodeIds = sort skipped,
                cs_states = map (skip_state now skipped) states\<rparr>)"

section \<open>Commit protocol\<close>

record AuthorizationReceiptRef =
  ar_digest :: string
  ar_goalId :: string
  ar_planId :: string
  ar_planVersion :: int
  ar_nodeId :: string
  ar_authoritySnapshotDigest :: string
  ar_authorizedAt :: int

record VerificationReceiptRef =
  vr_digest :: string
  vr_goalId :: string
  vr_planId :: string
  vr_planVersion :: int
  vr_nodeId :: string
  vr_attempt :: int
  vr_executionDigest :: string
  vr_verifierId :: string
  vr_verifiedAt :: int
  vr_authoritySnapshotDigest :: string

record PermitBody =
  cp_goalId :: string
  cp_planId :: string
  cp_planVersion :: int
  cp_nodeId :: string
  cp_attempt :: int
  cp_reversible :: bool
  cp_authoritySnapshotDigest :: "string option"
  cp_issuedAt :: int

record CommitPermit =
  cp_digest :: string
  cp_body :: PermitBody

record CommitPreflightInput =
  ci_goalId :: string
  ci_planId :: string
  ci_planVersion :: int
  ci_node :: PlanNode
  ci_attempt :: int
  ci_beliefs :: "BeliefView list"
  ci_currentAuthoritySnapshotDigest :: "string option"
  ci_authorizationReceipt :: "AuthorizationReceiptRef option"
  ci_authorizationReceiptMaxAgeMs :: "int option"

record CompletionLineage =
  cl_goalId :: string
  cl_planId :: string
  cl_planVersion :: int
  cl_nodeId :: string
  cl_attempt :: int
  cl_executionDigest :: string

definition commit_precondition :: "BeliefView list \<Rightarrow> PlanPrecondition \<Rightarrow> failure option" where
  "commit_precondition beliefs p =
     (case last_belief beliefs (pc_factKey p) of
        None \<Rightarrow> Some (JsError ''commit blocked by unverified precondition'')
      | Some b \<Rightarrow>
         if bv_status b \<notin> {BKnown, BSupported} \<or> bv_confidence b < minimum_confidence p
         then Some (JsError ''commit blocked by unverified precondition'')
         else if truthy (pc_expectedValueDigest p) \<noteq> None \<and> bv_selectedValueDigest b \<noteq> pc_expectedValueDigest p
         then Some (JsError ''commit blocked by mismatched precondition'')
         else None)"

definition normalizeAuthorizationReceipt ::
  "AuthorizationReceiptRef \<Rightarrow> string \<Rightarrow> string \<Rightarrow> int \<Rightarrow> string \<Rightarrow> AuthorizationReceiptRef result" where
  "normalizeAuthorizationReceipt r goalId planId planVersion nodeId =
     bind_result (plan_sha256 ''authorization.digest'' (ar_digest r)) (\<lambda>d.
     bind_result (plan_bounded 256 ''authorization.goalId'' (ar_goalId r)) (\<lambda>g.
     bind_result (plan_bounded 256 ''authorization.planId'' (ar_planId r)) (\<lambda>p.
     bind_result (plan_integer 1 max_safe_integer ''authorization.planVersion'' (ar_planVersion r)) (\<lambda>v.
     bind_result (plan_bounded 256 ''authorization.nodeId'' (ar_nodeId r)) (\<lambda>n.
     bind_result (plan_sha256 ''authorization.authoritySnapshotDigest'' (ar_authoritySnapshotDigest r)) (\<lambda>a.
       if g \<noteq> goalId \<or> p \<noteq> planId \<or> v \<noteq> planVersion \<or> n \<noteq> nodeId
       then js_fail ''authorization receipt is bound to different plan/node lineage.''
       else Inr \<lparr>ar_digest = d, ar_goalId = g, ar_planId = p, ar_planVersion = v, ar_nodeId = n,
                 ar_authoritySnapshotDigest = a, ar_authorizedAt = ar_authorizedAt r\<rparr>))))))"

text \<open>The authority snapshot under which an irreversible action may be committed.\<close>

definition commit_authority :: "CommitPreflightInput \<Rightarrow> int \<Rightarrow> int \<Rightarrow> string result" where
  "commit_authority inp planVersion now =
     (case ci_authorizationReceipt inp of
        None \<Rightarrow> js_fail ''irreversible action requires an independent authorization receipt.''
      | Some receipt \<Rightarrow>
         bind_result (case ci_currentAuthoritySnapshotDigest inp of
                        None \<Rightarrow> js_fail ''currentAuthoritySnapshotDigest must be SHA-256.''
                      | Some d \<Rightarrow> plan_sha256 ''currentAuthoritySnapshotDigest'' d) (\<lambda>current.
         bind_result (normalizeAuthorizationReceipt receipt (ci_goalId inp) (ci_planId inp) planVersion (pn_id (ci_node inp))) (\<lambda>r.
         if ar_authoritySnapshotDigest r \<noteq> current then js_fail ''authorization receipt authority snapshot is stale.''
         else let maxAge = (case ci_authorizationReceiptMaxAgeMs inp of None \<Rightarrow> 300000 | Some m \<Rightarrow> m);
                  age = now - ar_authorizedAt r in
           if \<not> is_safe_integer maxAge \<or> maxAge < 0 \<or> maxAge > 86400000 then js_fail ''authorizationReceiptMaxAgeMs is invalid.''
           else if age < 0 \<or> age > maxAge then js_fail ''authorization receipt is outside the allowed freshness window.''
           else if pn_verificationFactKeys (ci_node inp) = []
           then js_fail ''irreversible action requires explicit post-commit verification facts.''
           else Inr current)))"

definition permit_json :: "Hashing \<Rightarrow> PermitBody \<Rightarrow> json" where
  "permit_json H b = JObj [(''goalId'', JStr (cp_goalId b)), (''planId'', JStr (cp_planId b)),
     (''planVersion'', JNum (of_int (cp_planVersion b))), (''nodeId'', JStr (cp_nodeId b)),
     (''attempt'', JNum (of_int (cp_attempt b))), (''reversible'', JBool (cp_reversible b)),
     (''authoritySnapshotDigest'', case cp_authoritySnapshotDigest b of None \<Rightarrow> JNull | Some d \<Rightarrow> JStr d),
     (''issuedAt'', JStr (h_iso H (cp_issuedAt b)))]"

definition authorizeCommit :: "Hashing \<Rightarrow> CommitPreflightInput \<Rightarrow> int \<Rightarrow> CommitPermit result" where
  "authorizeCommit H inp now =
     (let node = ci_node inp in
      if pn_kind node \<noteq> KAction then js_fail ''commit protocol only authorizes ACTION nodes.''
      else case for_all_throw (commit_precondition (ci_beliefs inp)) (pn_preconditions node) of Some e \<Rightarrow> Inl e
      | None \<Rightarrow>
         bind_result (plan_integer 1 100 ''attempt'' (ci_attempt inp)) (\<lambda>attempt.
         bind_result (plan_integer 1 max_safe_integer ''planVersion'' (ci_planVersion inp)) (\<lambda>planVersion.
         bind_result (if pn_reversible node then Inr None else map_sum id Some (commit_authority inp planVersion now)) (\<lambda>authority.
         bind_result (plan_bounded 256 ''goalId'' (ci_goalId inp)) (\<lambda>g.
         bind_result (plan_bounded 256 ''planId'' (ci_planId inp)) (\<lambda>p.
           let body = \<lparr>cp_goalId = g, cp_planId = p, cp_planVersion = planVersion, cp_nodeId = pn_id node, cp_attempt = attempt,
                       cp_reversible = pn_reversible node, cp_authoritySnapshotDigest = authority, cp_issuedAt = now\<rparr>
           in Inr \<lparr>cp_digest = digestPlan H (permit_json H body), cp_body = body\<rparr>))))))"

definition validateCompletionReceipt ::
  "VerificationReceiptRef \<Rightarrow> CompletionLineage \<Rightarrow> VerificationReceiptRef result" where
  "validateCompletionReceipt r expected =
     bind_result (plan_sha256 ''receipt.digest'' (vr_digest r)) (\<lambda>d.
     bind_result (plan_bounded 256 ''receipt.goalId'' (vr_goalId r)) (\<lambda>g.
     bind_result (plan_bounded 256 ''receipt.planId'' (vr_planId r)) (\<lambda>p.
     bind_result (plan_integer 1 max_safe_integer ''receipt.planVersion'' (vr_planVersion r)) (\<lambda>v.
     bind_result (plan_bounded 256 ''receipt.nodeId'' (vr_nodeId r)) (\<lambda>n.
     bind_result (plan_integer 1 100 ''receipt.attempt'' (vr_attempt r)) (\<lambda>a.
     bind_result (plan_sha256 ''receipt.executionDigest'' (vr_executionDigest r)) (\<lambda>x.
     bind_result (plan_bounded 512 ''receipt.verifierId'' (vr_verifierId r)) (\<lambda>w.
     bind_result (plan_sha256 ''receipt.authoritySnapshotDigest'' (vr_authoritySnapshotDigest r)) (\<lambda>u.
       if g \<noteq> cl_goalId expected \<or> p \<noteq> cl_planId expected \<or> v \<noteq> cl_planVersion expected
          \<or> n \<noteq> cl_nodeId expected \<or> a \<noteq> cl_attempt expected \<or> x \<noteq> cl_executionDigest expected
       then js_fail ''verification receipt is bound to different plan/node/attempt/execution lineage.''
       else Inr \<lparr>vr_digest = d, vr_goalId = g, vr_planId = p, vr_planVersion = v, vr_nodeId = n, vr_attempt = a,
                 vr_executionDigest = x, vr_verifierId = w, vr_verifiedAt = vr_verifiedAt r,
                 vr_authoritySnapshotDigest = u\<rparr>)))))))))"

section \<open>Rebinding to beliefs\<close>

lemma find_state_SomeD: "find_state states i = Some s \<Longrightarrow> s \<in> set states \<and> ns_nodeId s = i"
  by (auto simp: find_state_def dest: find_SomeD)

lemma find_state_iff:
  "distinct (map ns_nodeId states) \<Longrightarrow> find_state states i = Some s \<longleftrightarrow> s \<in> set states \<and> ns_nodeId s = i"
  by (simp add: find_state_def find_Some_iff_distinct)

lemma last_state_eq: "distinct (map ns_nodeId states) \<Longrightarrow> last_state states i = find_state states i"
proof -
  assume d: "distinct (map ns_nodeId states)"
  then have "distinct (map ns_nodeId (rev states))" by (simp add: rev_map [symmetric])
  from find_state_iff [OF d, of i] find_state_iff [OF this, of i]
  have "find_state (rev states) i = Some s \<longleftrightarrow> find_state states i = Some s" for s by simp
  then show ?thesis unfolding last_state_def by (metis not_None_eq)
qed

lemma find_state_map:
  "(\<And>s. ns_nodeId (f s) = ns_nodeId s) \<Longrightarrow> find_state (map f states) i = map_option f (find_state states i)"
  by (induction states) (auto simp: find_state_def)

lemma nodeId_bind_steps [simp]:
  "ns_nodeId (invalidate_state now dead s) = ns_nodeId s" "ns_nodeId (refresh_state now rdy s) = ns_nodeId s"
  "ns_nodeId (skip_state now dead s) = ns_nodeId s"
  by (simp_all add: invalidate_state_def refresh_state_def skip_state_def)

lemma bindPlanToBeliefs_InrD:
  assumes "bindPlanToBeliefs graph states0 beliefs0 now = Inr r"
  obtains beliefs where "normalizeBeliefs beliefs0 = Inr beliefs"
    and "bb_states r = map (\<lambda>s. refresh_state now (bb_readyNodeIds r) (invalidate_state now (bb_invalidatedNodeIds r) s)) states0"
    and "readyNodeIds graph (map (invalidate_state now (bb_invalidatedNodeIds r)) states0) beliefs = Inr (bb_readyNodeIds r)"
  using assms by (auto simp: bindPlanToBeliefs_def bind_result_Inr Let_def comp_def)

lemma readyNodeIds_InrD:
  assumes "readyNodeIds graph states beliefs = Inr ready"
  shows "distinct (map ns_nodeId states)"
    and "i \<in> set ready \<longleftrightarrow> (\<exists>n\<in>set (pg_nodes graph). pn_id n = i \<and> node_ready states beliefs n)"
  using assms by (auto simp: readyNodeIds_def split: if_splits)

lemma node_readyD:
  assumes "node_ready states beliefs n"
  obtains s where "find_state states (pn_id n) = Some s" "ns_status s \<in> {NsPending, NsReady, NsBlocked}"
    "\<not> (awaits_verification s \<and> pn_verificationFactKeys n \<noteq> [])" "deps_succeeded states n"
    "list_all (precondition_holds beliefs) (pn_preconditions n)"
  using assms by (auto simp: node_ready_def split: option.splits if_splits)

text \<open>Status changes made by the two passes of a rebinding.\<close>

lemma bind_pass_succeeded [simp]:
  "ns_status (invalidate_state now dead s) = NsSucceeded \<longleftrightarrow> ns_status s = NsSucceeded"
  "ns_status (refresh_state now rdy s) = NsSucceeded \<longleftrightarrow> ns_status s = NsSucceeded"
  by (auto simp: invalidate_state_def refresh_state_def)

lemma refresh_ready_iff:
  "ns_status (refresh_state now rdy s) = NsReady \<longleftrightarrow> ns_nodeId s \<in> set rdy \<and> ns_status s \<notin> {NsSucceeded, NsRunning}"
  by (auto simp: refresh_state_def)

lemma deps_succeeded_map:
  assumes "\<And>s. ns_nodeId (f s) = ns_nodeId s" "\<And>s. ns_status (f s) = NsSucceeded \<longleftrightarrow> ns_status s = NsSucceeded"
  shows "deps_succeeded (map f states) n = deps_succeeded states n"
  by (auto simp: deps_succeeded_def list_all_iff find_state_map [OF assms(1)] option.map_comp comp_def assms(2)
      split: option.splits)

lemma bind_settled_unchanged:
  assumes "ns_status s \<in> {NsSucceeded, NsRunning} \<or> awaits_verification s \<and> ns_nodeId s \<notin> set rdy"
  shows "refresh_state now rdy (invalidate_state now dead s) = s"
  using assms by (auto simp: refresh_state_def invalidate_state_def unsettled_execution_def awaits_verification_def)

lemma awaiting_not_ready:
  assumes "readyNodeIds graph (map (invalidate_state now dead) states) beliefs = Inr ready" "s \<in> set states"
    "awaits_verification s" "\<forall>n\<in>set (pg_nodes graph). pn_id n = ns_nodeId s \<longrightarrow> pn_verificationFactKeys n \<noteq> []"
  shows "ns_nodeId s \<notin> set ready"
proof
  assume "ns_nodeId s \<in> set ready"
  then obtain n where n: "n \<in> set (pg_nodes graph)" "pn_id n = ns_nodeId s"
    and rd: "node_ready (map (invalidate_state now dead) states) beliefs n" using readyNodeIds_InrD(2) [OF assms(1)] by blast
  have same: "invalidate_state now dead s = s" using assms(3) by (simp add: invalidate_state_def unsettled_execution_def)
  then have "s \<in> set (map (invalidate_state now dead) states)" using assms(2) by force
  then have "find_state (map (invalidate_state now dead) states) (pn_id n) = Some s"
    using find_state_iff [OF readyNodeIds_InrD(1) [OF assms(1)]] n(2) by simp
  with rd assms(3,4) n show False by (elim node_readyD) auto
qed

text \<open>
  Rebinding a plan to new beliefs never touches finished work or an execution in flight: the state of
  a node that succeeded, is running, or awaits verification is left exactly as it was.
\<close>

theorem rebinding_keeps_executions:
  assumes "bindPlanToBeliefs graph states beliefs now = Inr r" "i < length states"
    and "ns_status (states ! i) \<in> {NsSucceeded, NsRunning} \<or> awaits_verification (states ! i)
      \<and> (\<forall>n\<in>set (pg_nodes graph). pn_id n = ns_nodeId (states ! i) \<longrightarrow> pn_verificationFactKeys n \<noteq> [])"
  shows "length (bb_states r) = length states \<and> bb_states r ! i = states ! i"
proof -
  obtain b where b: "bb_states r = map (\<lambda>s. refresh_state now (bb_readyNodeIds r) (invalidate_state now (bb_invalidatedNodeIds r) s)) states"
    "readyNodeIds graph (map (invalidate_state now (bb_invalidatedNodeIds r)) states) b = Inr (bb_readyNodeIds r)"
    using assms(1) by (rule bindPlanToBeliefs_InrD)
  have "ns_status (states ! i) \<in> {NsSucceeded, NsRunning}
      \<or> awaits_verification (states ! i) \<and> ns_nodeId (states ! i) \<notin> set (bb_readyNodeIds r)"
    using assms(2,3) awaiting_not_ready [OF b(2), of "states ! i"] by auto
  from bind_settled_unchanged [OF this] show ?thesis using b(1) assms(2) by simp
qed

text \<open>
  After a rebinding every node on offer is executable: everything it depends on has succeeded, and the
  beliefs support each of its preconditions with the required confidence and value.
\<close>

theorem rebinding_offers_supported_nodes:
  assumes "bindPlanToBeliefs graph states beliefs0 now = Inr r" "normalizeBeliefs beliefs0 = Inr beliefs"
    and "distinct (node_ids (pg_nodes graph))" "n \<in> set (pg_nodes graph)" "s \<in> set (bb_states r)" "ns_nodeId s = pn_id n" "ns_status s = NsReady"
  shows "deps_succeeded (bb_states r) n \<and> list_all (precondition_holds beliefs) (pn_preconditions n)"
proof -
  let ?inv = "map (invalidate_state now (bb_invalidatedNodeIds r)) states"
  obtain b where b: "normalizeBeliefs beliefs0 = Inr b"
    "bb_states r = map (refresh_state now (bb_readyNodeIds r)) ?inv"
    "readyNodeIds graph ?inv b = Inr (bb_readyNodeIds r)"
    using assms(1) by (rule bindPlanToBeliefs_InrD) (simp add: comp_def)
  then have bb: "b = beliefs" using assms(2) by simp
  from assms(5) b(2) obtain s0 where "s = refresh_state now (bb_readyNodeIds r) s0" by auto
  with assms(6,7) refresh_ready_iff have "pn_id n \<in> set (bb_readyNodeIds r)" by auto
  then obtain m where m: "m \<in> set (pg_nodes graph)" "pn_id m = pn_id n" "node_ready ?inv beliefs m"
    using readyNodeIds_InrD(2) [OF b(3)] bb by auto
  have "m = n" using assms(3,4) m(1,2) by (auto simp: node_ids_def dest: inj_onD [OF distinct_map [THEN iffD1, THEN conjunct2]])
  with m(3) have "deps_succeeded ?inv n" "list_all (precondition_holds beliefs) (pn_preconditions n)"
    by (auto elim: node_readyD)
  moreover have "deps_succeeded (bb_states r) n = deps_succeeded ?inv n"
    unfolding b(2) by (rule deps_succeeded_map) simp_all
  ultimately show ?thesis by simp
qed

section \<open>Commit preflight\<close>

lemma plan_checks_Inr:
  "plan_bounded n l v = Inr w \<longleftrightarrow> w = v \<and> v \<noteq> [] \<and> length v \<le> n"
  "plan_sha256 l v = Inr w \<longleftrightarrow> w = to_lower v \<and> hex64_text v"
  "plan_integer lo hi l i = Inr j \<longleftrightarrow> j = i \<and> is_safe_integer i \<and> lo \<le> i \<and> i \<le> hi"
  by (auto simp: plan_bounded_def plan_sha256_def plan_integer_def)

lemma commit_precondition_None:
  "commit_precondition beliefs p = None \<longleftrightarrow>
   (\<exists>b. last_belief beliefs (pc_factKey p) = Some b \<and> bv_status b \<in> {BKnown, BSupported}
      \<and> minimum_confidence p \<le> bv_confidence b
      \<and> (truthy (pc_expectedValueDigest p) = None \<or> bv_selectedValueDigest b = pc_expectedValueDigest p))"
  by (auto simp: commit_precondition_def split: option.splits)

lemma commit_authority_InrD:
  assumes "commit_authority inp v now = Inr a"
  obtains r c where "ci_authorizationReceipt inp = Some r" "ci_currentAuthoritySnapshotDigest inp = Some c" "a = to_lower c"
    "ar_goalId r = ci_goalId inp" "ar_planId r = ci_planId inp" "ar_planVersion r = v" "ar_nodeId r = pn_id (ci_node inp)"
    "to_lower (ar_authoritySnapshotDigest r) = a" "0 \<le> now - ar_authorizedAt r"
    "now - ar_authorizedAt r \<le> (case ci_authorizationReceiptMaxAgeMs inp of None \<Rightarrow> 300000 | Some m \<Rightarrow> m)"
    "(case ci_authorizationReceiptMaxAgeMs inp of None \<Rightarrow> 300000 | Some m \<Rightarrow> m) \<le> 86400000"
    "pn_verificationFactKeys (ci_node inp) \<noteq> []"
proof -
  from assms obtain r where r: "ci_authorizationReceipt inp = Some r" by (auto simp: commit_authority_def split: option.splits)
  from assms r obtain c where c: "ci_currentAuthoritySnapshotDigest inp = Some c"
    by (auto simp: commit_authority_def bind_result_Inr split: option.splits)
  from assms r c obtain n where n: "a = to_lower c" "ar_authoritySnapshotDigest n = a"
    "normalizeAuthorizationReceipt r (ci_goalId inp) (ci_planId inp) v (pn_id (ci_node inp)) = Inr n"
    "0 \<le> now - ar_authorizedAt n"
    "now - ar_authorizedAt n \<le> (case ci_authorizationReceiptMaxAgeMs inp of None \<Rightarrow> 300000 | Some m \<Rightarrow> m)"
    "(case ci_authorizationReceiptMaxAgeMs inp of None \<Rightarrow> 300000 | Some m \<Rightarrow> m) \<le> 86400000"
    "pn_verificationFactKeys (ci_node inp) \<noteq> []"
    by (auto simp: commit_authority_def bind_result_Inr plan_checks_Inr Let_def not_less split: if_splits)
  from n(3) have "ar_goalId r = ci_goalId inp" "ar_planId r = ci_planId inp" "ar_planVersion r = v"
    "ar_nodeId r = pn_id (ci_node inp)" "to_lower (ar_authoritySnapshotDigest r) = ar_authoritySnapshotDigest n"
    "ar_authorizedAt n = ar_authorizedAt r"
    by (auto simp: normalizeAuthorizationReceipt_def bind_result_Inr plan_checks_Inr split: if_splits)
  with that [OF r c] n show ?thesis by simp
qed

lemma authorizeCommit_InrD:
  assumes "authorizeCommit H inp now = Inr permit"
  shows "pn_kind (ci_node inp) = KAction"
    and "for_all_throw (commit_precondition (ci_beliefs inp)) (pn_preconditions (ci_node inp)) = None"
    and "\<not> pn_reversible (ci_node inp) \<Longrightarrow> \<exists>a. commit_authority inp (ci_planVersion inp) now = Inr a
      \<and> cp_authoritySnapshotDigest (cp_body permit) = Some a"
    and "cp_nodeId (cp_body permit) = pn_id (ci_node inp)" and "cp_attempt (cp_body permit) = ci_attempt inp"
    and "1 \<le> ci_attempt inp" and "ci_attempt inp \<le> 100" and "cp_planVersion (cp_body permit) = ci_planVersion inp"
    and "cp_goalId (cp_body permit) = ci_goalId inp" and "cp_planId (cp_body permit) = ci_planId inp"
proof -
  from assms obtain a where a: "pn_kind (ci_node inp) = KAction"
    "for_all_throw (commit_precondition (ci_beliefs inp)) (pn_preconditions (ci_node inp)) = None"
    "1 \<le> ci_attempt inp" "ci_attempt inp \<le> 100"
    "(if pn_reversible (ci_node inp) then Inr None else map_sum id Some (commit_authority inp (ci_planVersion inp) now)) = Inr a"
    "cp_authoritySnapshotDigest (cp_body permit) = a" "cp_nodeId (cp_body permit) = pn_id (ci_node inp)"
    "cp_attempt (cp_body permit) = ci_attempt inp" "cp_planVersion (cp_body permit) = ci_planVersion inp"
    "cp_goalId (cp_body permit) = ci_goalId inp" "cp_planId (cp_body permit) = ci_planId inp"
    by (auto simp: authorizeCommit_def Let_def bind_result_Inr plan_checks_Inr simp del: if_split split: if_split_asm option.splits)
  then show "pn_kind (ci_node inp) = KAction"
    "for_all_throw (commit_precondition (ci_beliefs inp)) (pn_preconditions (ci_node inp)) = None"
    "cp_nodeId (cp_body permit) = pn_id (ci_node inp)" "cp_attempt (cp_body permit) = ci_attempt inp"
    "1 \<le> ci_attempt inp" "ci_attempt inp \<le> 100" "cp_planVersion (cp_body permit) = ci_planVersion inp"
    "cp_goalId (cp_body permit) = ci_goalId inp" "cp_planId (cp_body permit) = ci_planId inp" by simp_all
  show "\<exists>a. commit_authority inp (ci_planVersion inp) now = Inr a \<and> cp_authoritySnapshotDigest (cp_body permit) = Some a"
    if "\<not> pn_reversible (ci_node inp)"
    using a(5,6) that by (cases "commit_authority inp (ci_planVersion inp) now") auto
qed

text \<open>
  C27. A commit permit is only issued for an action whose preconditions are all supported, and for an
  irreversible action only with an authorization receipt for exactly this goal, plan version and node,
  issued under the current authority snapshot, no older than the allowed age (at most a day), when the
  action names facts to verify afterwards.
\<close>

theorem authorizeCommit_sound:
  assumes "authorizeCommit H inp now = Inr permit"
  shows "pn_kind (ci_node inp) = KAction
    \<and> (\<forall>p\<in>set (pn_preconditions (ci_node inp)). \<exists>b. last_belief (ci_beliefs inp) (pc_factKey p) = Some b
         \<and> bv_status b \<in> {BKnown, BSupported} \<and> minimum_confidence p \<le> bv_confidence b
         \<and> (truthy (pc_expectedValueDigest p) = None \<or> bv_selectedValueDigest b = pc_expectedValueDigest p))
    \<and> (pn_reversible (ci_node inp) \<or> (\<exists>r c. ci_authorizationReceipt inp = Some r
         \<and> ci_currentAuthoritySnapshotDigest inp = Some c
         \<and> to_lower (ar_authoritySnapshotDigest r) = to_lower c \<and> cp_authoritySnapshotDigest (cp_body permit) = Some (to_lower c)
         \<and> ar_goalId r = cp_goalId (cp_body permit) \<and> ar_planId r = cp_planId (cp_body permit)
         \<and> ar_planVersion r = cp_planVersion (cp_body permit) \<and> ar_nodeId r = cp_nodeId (cp_body permit)
         \<and> ar_authorizedAt r \<le> now \<and> now - ar_authorizedAt r \<le> 86400000
         \<and> now - ar_authorizedAt r \<le> (case ci_authorizationReceiptMaxAgeMs inp of None \<Rightarrow> 300000 | Some m \<Rightarrow> m)
         \<and> pn_verificationFactKeys (ci_node inp) \<noteq> []))"
proof -
  note D = authorizeCommit_InrD [OF assms]
  have "pn_reversible (ci_node inp) \<or> (\<exists>r c. ci_authorizationReceipt inp = Some r
         \<and> ci_currentAuthoritySnapshotDigest inp = Some c
         \<and> to_lower (ar_authoritySnapshotDigest r) = to_lower c \<and> cp_authoritySnapshotDigest (cp_body permit) = Some (to_lower c)
         \<and> ar_goalId r = cp_goalId (cp_body permit) \<and> ar_planId r = cp_planId (cp_body permit)
         \<and> ar_planVersion r = cp_planVersion (cp_body permit) \<and> ar_nodeId r = cp_nodeId (cp_body permit)
         \<and> ar_authorizedAt r \<le> now \<and> now - ar_authorizedAt r \<le> 86400000
         \<and> now - ar_authorizedAt r \<le> (case ci_authorizationReceiptMaxAgeMs inp of None \<Rightarrow> 300000 | Some m \<Rightarrow> m)
         \<and> pn_verificationFactKeys (ci_node inp) \<noteq> [])"
  proof (cases "pn_reversible (ci_node inp)")
    case False
    with D(3) obtain a where a: "commit_authority inp (ci_planVersion inp) now = Inr a"
      "cp_authoritySnapshotDigest (cp_body permit) = Some a" by blast
    from a(1) show ?thesis by (rule commit_authority_InrD) (use a(2) D in auto)
  qed simp
  with D(1,2) show ?thesis by (simp add: for_all_throw_None_iff commit_precondition_None)
qed

section \<open>Choosing an alternative\<close>

lemma self_in_dependentClosure: "i \<in> set (dependentClosure graph [i])"
  by (auto simp: set_dependentClosure)

lemma set_choice_skips:
  "i \<in> set (choice_skips graph sel siblings) \<longleftrightarrow>
   i \<notin> set (dependentClosure graph [sel]) \<and> (\<exists>n\<in>set siblings. i \<in> set (dependentClosure graph [pn_id n]))"
  by (auto simp: choice_skips_def Let_def)

lemma selectChoiceBranch_InrD:
  assumes "selectChoiceBranch graph states grp sel now = Inr r"
  defines "siblings \<equiv> filter (\<lambda>n. pn_id n \<noteq> sel) (choice_alternatives (pg_nodes graph) grp)"
  shows "cs_states r = map (skip_state now (choice_skips graph sel siblings)) states"
    and "n \<in> set siblings \<Longrightarrow> last_state states (pn_id n) = Some s \<Longrightarrow>
      ns_status s \<notin> {NsSucceeded, NsRunning} \<and> \<not> awaits_verification s
      \<and> \<not> (ns_status s = NsFailed \<and> prop_value (ns_lastReason s) = Some uncertain_reason)"
proof -
  show "cs_states r = map (skip_state now (choice_skips graph sel siblings)) states"
    using assms by (auto simp: selectChoiceBranch_def Let_def split: option.splits if_splits)
  have "\<not> list_ex (state_satisfies states (\<lambda>s. ns_status s = NsSucceeded)) siblings"
    "\<not> list_ex (state_satisfies states (\<lambda>s. ns_status s = NsRunning)) siblings"
    "\<not> list_ex (state_satisfies states awaits_verification) siblings"
    "\<not> list_ex (state_satisfies states
      (\<lambda>s. ns_status s = NsFailed \<and> prop_value (ns_lastReason s) = Some uncertain_reason)) siblings"
    using assms by (auto simp: selectChoiceBranch_def Let_def split: option.splits if_splits)
  then show "ns_status s \<notin> {NsSucceeded, NsRunning} \<and> \<not> awaits_verification s
      \<and> \<not> (ns_status s = NsFailed \<and> prop_value (ns_lastReason s) = Some uncertain_reason)"
    if "n \<in> set siblings" "last_state states (pn_id n) = Some s"
    using that by (auto simp: list_ex_iff state_satisfies_def)
qed

text \<open>
  Selecting an alternative is exclusive: it is refused while a rival succeeded, runs, awaits verification
  or failed with uncertain side effects; afterwards every rival that does not depend on the selected one is
  skipped, and the selected node and all finished work keep their state.
\<close>

theorem choice_is_exclusive:
  assumes sel: "selectChoiceBranch graph states grp sel now = Inr r" and d: "distinct (map ns_nodeId states)"
    and n: "n \<in> set (pg_nodes graph)" "pn_choiceGroup n = Some grp" "pn_id n \<noteq> sel"
    and i: "i < length states"
  shows "(ns_nodeId (states ! i) = pn_id n \<longrightarrow>
        ns_status (states ! i) \<notin> {NsSucceeded, NsRunning} \<and> \<not> awaits_verification (states ! i)
        \<and> (ns_status (states ! i) = NsFailed \<longrightarrow> prop_value (ns_lastReason (states ! i)) \<noteq> Some uncertain_reason)
        \<and> (pn_id n \<in> set (dependentClosure graph [sel]) \<or> ns_status (cs_states r ! i) = NsSkipped))
    \<and> (ns_nodeId (states ! i) = sel \<or> ns_status (states ! i) = NsSucceeded \<longrightarrow> cs_states r ! i = states ! i)"
proof -
  let ?sib = "filter (\<lambda>n. pn_id n \<noteq> sel) (choice_alternatives (pg_nodes graph) grp)"
  note D = selectChoiceBranch_InrD [OF sel]
  have sib: "n \<in> set ?sib" using n by (simp add: choice_alternatives_def)
  have upd: "cs_states r ! i = skip_state now (choice_skips graph sel ?sib) (states ! i)" using D(1) i by simp
  have "last_state states (ns_nodeId (states ! i)) = Some (states ! i)"
    using i by (simp add: last_state_eq [OF d] find_state_iff [OF d])
  then have rival: "ns_status (states ! i) \<notin> {NsSucceeded, NsRunning} \<and> \<not> awaits_verification (states ! i)
      \<and> \<not> (ns_status (states ! i) = NsFailed \<and> prop_value (ns_lastReason (states ! i)) = Some uncertain_reason)"
    if "ns_nodeId (states ! i) = pn_id n" using D(2) [OF sib] that by simp
  have skips: "pn_id n \<in> set (choice_skips graph sel ?sib)" if "pn_id n \<notin> set (dependentClosure graph [sel])"
    using that sib self_in_dependentClosure by (auto simp: set_choice_skips)
  have "ns_status (cs_states r ! i) = NsSkipped"
    if "ns_nodeId (states ! i) = pn_id n" "pn_id n \<notin> set (dependentClosure graph [sel])"
    using rival [OF that(1)] skips [OF that(2)] that(1) unfolding upd by (simp add: skip_state_def)
  moreover have "cs_states r ! i = states ! i"
    if "ns_nodeId (states ! i) = sel \<or> ns_status (states ! i) = NsSucceeded"
    using that self_in_dependentClosure [of sel graph] unfolding upd by (auto simp: skip_state_def set_choice_skips)
  ultimately show ?thesis using rival by blast
qed

section \<open>Sample executions\<close>

definition rival_nodes :: "PlanNode list" where
  "rival_nodes = [sample_action\<lparr>pn_id := ''a'', pn_choiceGroup := Some ''g'',
       pn_preconditions := [\<lparr>pc_factKey = ''p'', pc_expectedValueDigest = None, pc_minimumConfidence = None, pc_allowStale = None\<rparr>]\<rparr>,
     sample_action\<lparr>pn_id := ''b'', pn_choiceGroup := Some ''g''\<rparr>]"

definition rival_graph :: PlanGraph where
  "rival_graph = \<lparr>pg_planId = ''plan'', pg_goalId = ''goal'', pg_version = 1, pg_rootNodeIds = [''a'', ''b''],
     pg_nodes = rival_nodes\<rparr>"

definition rival_state :: "string \<Rightarrow> PlanNodeStatus \<Rightarrow> string property \<Rightarrow> PlanNodeState" where
  "rival_state i st reason = \<lparr>ns_nodeId = i, ns_status = st, ns_attempts = 1, ns_lastReason = reason,
     ns_lastExecutionDigest = Absent, ns_verificationReceiptDigest = Absent, ns_verifiedNodeDigest = Absent, ns_lastUpdatedAt = 0\<rparr>"

definition uncertain_states :: "PlanNodeState list" where
  "uncertain_states = [rival_state ''a'' NsFailed (Value uncertain_reason), rival_state ''b'' NsReady Absent]"

definition refuting_belief :: BeliefView where
  "refuting_belief = \<lparr>bv_factKey = ''p'', bv_status = BDisproven, bv_confidence = 1, bv_selectedValueDigest = None,
     bv_evidenceDigests = []\<rparr>"

lemma rival_graph_valid: "validatePlanGraph sample_goal rival_graph = Inr rival_graph"
  by code_simp


definition digest_text :: string where
  "digest_text = replicate 64 (CHR ''a'')"

definition awaiting_states :: "PlanNodeState list" where
  "awaiting_states = [(rival_state ''act'' NsBlocked Absent)\<lparr>ns_lastExecutionDigest := Value digest_text\<rparr>,
     rival_state ''chk'' NsPending Absent]"

definition supporting_belief :: BeliefView where
  "supporting_belief = refuting_belief\<lparr>bv_status := BSupported\<rparr>"

definition sample_hashing :: Hashing where
  "sample_hashing = \<lparr>h_num = unary_number, h_iso = (\<lambda>t. if t = 0 then ''t0'' else ''t1''), h_sha256 = (\<lambda>t. digest_text)\<rparr>"

definition sample_preflight :: CommitPreflightInput where
  "sample_preflight = \<lparr>ci_goalId = ''goal'', ci_planId = ''plan'', ci_planVersion = 1,
     ci_node = sample_action\<lparr>pn_reversible := False\<rparr>, ci_attempt = 1, ci_beliefs = [],
     ci_currentAuthoritySnapshotDigest = Some digest_text,
     ci_authorizationReceipt = Some \<lparr>ar_digest = digest_text, ar_goalId = ''goal'', ar_planId = ''plan'', ar_planVersion = 1,
       ar_nodeId = ''act'', ar_authoritySnapshotDigest = digest_text, ar_authorizedAt = 0\<rparr>,
     ci_authorizationReceiptMaxAgeMs = None\<rparr>"

theorem rebinding_keeps_executions_witness:
  "bb_states (projr (bindPlanToBeliefs sample_graph awaiting_states [] 1)) ! 0 = awaiting_states ! 0"
proof -
  have run: "bindPlanToBeliefs sample_graph awaiting_states [] 1
      = Inr (projr (bindPlanToBeliefs sample_graph awaiting_states [] 1))" by code_simp
  have wait: "awaits_verification (awaiting_states ! 0)" by code_simp
  have keys: "list_all (\<lambda>n. pn_id n = ns_nodeId (awaiting_states ! 0) \<longrightarrow> pn_verificationFactKeys n \<noteq> []) (pg_nodes sample_graph)"
    by code_simp
  have len: "0 < length awaiting_states" by code_simp
  from rebinding_keeps_executions [OF run len] wait keys show ?thesis by (simp add: list_all_iff)
qed

theorem rebinding_offers_supported_nodes_witness:
  "list_all (precondition_holds [supporting_belief]) (pn_preconditions (hd rival_nodes))"
proof -
  let ?run = "bindPlanToBeliefs rival_graph (initializeNodeStates rival_graph 0) [supporting_belief] 1"
  have run: "?run = Inr (projr ?run)" by code_simp
  have norm: "normalizeBeliefs [supporting_belief] = Inr [supporting_belief]" by code_simp
  have dist: "distinct (node_ids (pg_nodes rival_graph))" by code_simp
  have "hd rival_nodes \<in> set (pg_nodes rival_graph)" by code_simp
  moreover have "bb_states (projr ?run) ! 0 \<in> set (bb_states (projr ?run))" by (rule nth_mem) code_simp
  moreover have "ns_nodeId (bb_states (projr ?run) ! 0) = pn_id (hd rival_nodes)"
    "ns_status (bb_states (projr ?run) ! 0) = NsReady" by code_simp+
  ultimately show ?thesis using rebinding_offers_supported_nodes [OF run norm dist] by blast
qed

theorem authorizeCommit_sound_witness:
  "cp_authoritySnapshotDigest (cp_body (projr (authorizeCommit sample_hashing sample_preflight 1000))) = Some digest_text"
proof -
  have run: "authorizeCommit sample_hashing sample_preflight 1000
      = Inr (projr (authorizeCommit sample_hashing sample_preflight 1000))" by code_simp
  have current: "ci_currentAuthoritySnapshotDigest sample_preflight = Some digest_text"
    "\<not> pn_reversible (ci_node sample_preflight)" "to_lower digest_text = digest_text" by code_simp+
  from authorizeCommit_sound [OF run] current show ?thesis by auto
qed

theorem choice_is_exclusive_witness:
  "ns_status (cs_states (projr (selectChoiceBranch rival_graph (initializeNodeStates rival_graph 0) ''g'' ''b'' 1)) ! 0) = NsSkipped"
proof -
  let ?run = "selectChoiceBranch rival_graph (initializeNodeStates rival_graph 0) ''g'' ''b'' 1"
  have run: "?run = Inr (projr ?run)" by code_simp
  have "distinct (map ns_nodeId (initializeNodeStates rival_graph 0))" "0 < length (initializeNodeStates rival_graph 0)"
    "ns_nodeId (initializeNodeStates rival_graph 0 ! 0) = pn_id (hd rival_nodes)"
    "pn_id (hd rival_nodes) \<notin> set (dependentClosure rival_graph [''b''])" by code_simp+
  moreover have "hd rival_nodes \<in> set (pg_nodes rival_graph)" "pn_choiceGroup (hd rival_nodes) = Some ''g''"
    "pn_id (hd rival_nodes) \<noteq> ''b''" by code_simp+
  ultimately show ?thesis using choice_is_exclusive [OF run, of "hd rival_nodes" 0] by blast
qed

end
