(* ===== verification/PlanRevision.thy ===== *)
theory PlanRevision
  imports PlanControl
begin

text \<open>
  Decision lineage records (\<open>lineage.ts\<close>) and plan revisions with their proofs (\<open>plan-revision.ts\<close>) of
  \<open>packages/verified-plan-runtime/src\<close>. \<open>collate\<close> is the collation key behind \<open>localeCompare\<close>.
\<close>

section \<open>Decision lineage\<close>

datatype DecisionKind = DkBranch | DkExecution | DkRepair | DkCommit | DkInfeasible

primrec decision_kind_text :: "DecisionKind \<Rightarrow> string" where
  "decision_kind_text DkBranch = ''BRANCH''"
| "decision_kind_text DkExecution = ''EXECUTION''"
| "decision_kind_text DkRepair = ''REPAIR''"
| "decision_kind_text DkCommit = ''COMMIT''"
| "decision_kind_text DkInfeasible = ''INFEASIBLE''"

record DecisionBody =
  dl_planId :: string
  dl_planVersion :: int
  dl_planDigest :: string
  dl_goalId :: string
  dl_nodeId :: string
  dl_beliefDigest :: string
  dl_decisionKind :: DecisionKind
  dl_decisionId :: string
  dl_createdAt :: int

record PlanDecisionLineage =
  dl_digest :: string
  dl_body :: DecisionBody

definition decision_body_members :: "Hashing \<Rightarrow> DecisionBody \<Rightarrow> (string \<times> json) list" where
  "decision_body_members H b = [(''planId'', JStr (dl_planId b)), (''planVersion'', JNum (of_int (dl_planVersion b))),
     (''planDigest'', JStr (dl_planDigest b)), (''goalId'', JStr (dl_goalId b)), (''nodeId'', JStr (dl_nodeId b)),
     (''beliefDigest'', JStr (dl_beliefDigest b)), (''decisionKind'', JStr (decision_kind_text (dl_decisionKind b))),
     (''decisionId'', JStr (dl_decisionId b)), (''createdAt'', JStr (h_iso H (dl_createdAt b)))]"

definition normalizeBody :: "DecisionBody \<Rightarrow> DecisionBody result" where
  "normalizeBody b =
     bind_result (plan_bounded 256 ''planId'' (dl_planId b)) (\<lambda>p.
     bind_result (plan_integer 1 max_safe_integer ''planVersion'' (dl_planVersion b)) (\<lambda>v.
     bind_result (plan_sha256 ''planDigest'' (dl_planDigest b)) (\<lambda>pd.
     bind_result (plan_bounded 256 ''goalId'' (dl_goalId b)) (\<lambda>g.
     bind_result (plan_bounded 256 ''nodeId'' (dl_nodeId b)) (\<lambda>n.
     bind_result (plan_sha256 ''beliefDigest'' (dl_beliefDigest b)) (\<lambda>bd.
     bind_result (plan_bounded 512 ''decisionId'' (dl_decisionId b)) (\<lambda>i.
       Inr \<lparr>dl_planId = p, dl_planVersion = v, dl_planDigest = pd, dl_goalId = g, dl_nodeId = n, dl_beliefDigest = bd,
            dl_decisionKind = dl_decisionKind b, dl_decisionId = i, dl_createdAt = dl_createdAt b\<rparr>)))))))"

definition decision_digest :: "Hashing \<Rightarrow> DecisionBody \<Rightarrow> string" where
  "decision_digest H b = digestPlan H (JObj (decision_body_members H b))"

text \<open>The input carries its creation time, or the clock gives it.\<close>

definition createDecisionLineage :: "Hashing \<Rightarrow> DecisionBody \<Rightarrow> int option \<Rightarrow> int \<Rightarrow> PlanDecisionLineage result" where
  "createDecisionLineage H inp createdAt now =
     bind_result (normalizeBody (inp\<lparr>dl_createdAt := (case createdAt of None \<Rightarrow> now | Some t \<Rightarrow> t)\<rparr>)) (\<lambda>b.
       Inr \<lparr>dl_digest = decision_digest H b, dl_body = b\<rparr>)"

definition validateDecisionLineage :: "Hashing \<Rightarrow> PlanDecisionLineage \<Rightarrow> PlanDecisionLineage result" where
  "validateDecisionLineage H d =
     bind_result (normalizeBody (dl_body d)) (\<lambda>b.
     bind_result (plan_sha256 ''decision.digest'' (dl_digest d)) (\<lambda>actual.
       if actual \<noteq> decision_digest H b then js_fail ''decision lineage digest does not match content.''
       else Inr \<lparr>dl_digest = actual, dl_body = b\<rparr>))"

section \<open>Plan revision\<close>

record PreservedNodeDigest =
  pd_nodeId :: string
  pd_nodeDigest :: string

record RevisionBody =
  rp_planId :: string
  rp_goalId :: string
  rp_fromVersion :: int
  rp_toVersion :: int
  rp_fromPlanDigest :: string
  rp_toPlanDigest :: string
  rp_preservedNodeDigests :: "PreservedNodeDigest list"
  rp_resetNodeIds :: "string list"
  rp_createdAt :: int

record PlanRevisionProof =
  rp_digest :: string
  rp_body :: RevisionBody

record PlanRevisionResult =
  rv_graph :: PlanGraph
  rv_states :: "PlanNodeState list"
  rv_changedNodeIds :: "string list"
  rv_resetNodeIds :: "string list"
  rv_preservedSucceededNodeIds :: "string list"
  rv_proof :: PlanRevisionProof

definition revision_body_members :: "Hashing \<Rightarrow> RevisionBody \<Rightarrow> (string \<times> json) list" where
  "revision_body_members H b = [(''planId'', JStr (rp_planId b)), (''goalId'', JStr (rp_goalId b)),
     (''fromVersion'', JNum (of_int (rp_fromVersion b))), (''toVersion'', JNum (of_int (rp_toVersion b))),
     (''fromPlanDigest'', JStr (rp_fromPlanDigest b)), (''toPlanDigest'', JStr (rp_toPlanDigest b)),
     (''preservedNodeDigests'', JArr (map (\<lambda>e. JObj [(''nodeId'', JStr (pd_nodeId e)), (''nodeDigest'', JStr (pd_nodeDigest e))])
        (rp_preservedNodeDigests b))),
     (''resetNodeIds'', strings_json (rp_resetNodeIds b)), (''createdAt'', JStr (h_iso H (rp_createdAt b)))]"

definition normalize_preserved :: "PreservedNodeDigest \<Rightarrow> PreservedNodeDigest result" where
  "normalize_preserved e =
     bind_result (plan_bounded 256 ''revision.nodeId'' (pd_nodeId e)) (\<lambda>n.
     bind_result (plan_sha256 ''revision.nodeDigest'' (pd_nodeDigest e)) (\<lambda>d.
       Inr \<lparr>pd_nodeId = n, pd_nodeDigest = d\<rparr>))"

definition normalizeProofBody :: "(string \<Rightarrow> string) \<Rightarrow> RevisionBody \<Rightarrow> RevisionBody result" where
  "normalizeProofBody collate b =
     bind_result (plan_integer 1 max_safe_integer ''revision.fromVersion'' (rp_fromVersion b)) (\<lambda>fv.
     bind_result (plan_integer 2 max_safe_integer ''revision.toVersion'' (rp_toVersion b)) (\<lambda>tv.
     if tv \<noteq> fv + 1 then js_fail ''revision proof versions must be consecutive.''
     else bind_result (map_throw normalize_preserved (rp_preservedNodeDigests b)) (\<lambda>entries.
     let preserved = sort_key (\<lambda>e. collate (pd_nodeId e)) entries in
     if \<not> distinct (map pd_nodeId preserved) then js_fail ''revision preserved node ids must be unique.''
     else bind_result (plan_bounded 256 ''revision.planId'' (rp_planId b)) (\<lambda>p.
     bind_result (plan_bounded 256 ''revision.goalId'' (rp_goalId b)) (\<lambda>g.
     bind_result (plan_sha256 ''revision.fromPlanDigest'' (rp_fromPlanDigest b)) (\<lambda>fd.
     bind_result (plan_sha256 ''revision.toPlanDigest'' (rp_toPlanDigest b)) (\<lambda>td.
     bind_result (unique_bounded 256 ''revision.resetNodeId'' (rp_resetNodeIds b)) (\<lambda>reset.
       Inr \<lparr>rp_planId = p, rp_goalId = g, rp_fromVersion = fv, rp_toVersion = tv, rp_fromPlanDigest = fd,
            rp_toPlanDigest = td, rp_preservedNodeDigests = preserved, rp_resetNodeIds = reset,
            rp_createdAt = rp_createdAt b\<rparr>))))))))"

definition revision_digest :: "Hashing \<Rightarrow> RevisionBody \<Rightarrow> string" where
  "revision_digest H b = digestPlan H (JObj (revision_body_members H b))"

definition createRevisionProof :: "Hashing \<Rightarrow> (string \<Rightarrow> string) \<Rightarrow> RevisionBody \<Rightarrow> PlanRevisionProof result" where
  "createRevisionProof H collate inp =
     bind_result (normalizeProofBody collate inp) (\<lambda>b. Inr \<lparr>rp_digest = revision_digest H b, rp_body = b\<rparr>)"

definition validateRevisionProof ::
  "Hashing \<Rightarrow> (string \<Rightarrow> string) \<Rightarrow> PlanRevisionProof \<Rightarrow> PlanRevisionProof result" where
  "validateRevisionProof H collate pr =
     bind_result (normalizeProofBody collate (rp_body pr)) (\<lambda>b.
     bind_result (plan_sha256 ''revision.digest'' (rp_digest pr)) (\<lambda>actual.
       if actual \<noteq> revision_digest H b then js_fail ''plan revision proof digest does not match content.''
       else Inr \<lparr>rp_digest = actual, rp_body = b\<rparr>))"

definition last_node :: "PlanNode list \<Rightarrow> string \<Rightarrow> PlanNode option" where
  "last_node nodes i = find_node (rev nodes) i"

definition node_digest :: "Hashing \<Rightarrow> PlanNode \<Rightarrow> string" where
  "node_digest H n = digestPlan H (node_json n)"

definition node_changed :: "Hashing \<Rightarrow> PlanNode list \<Rightarrow> PlanNode \<Rightarrow> bool" where
  "node_changed H previous n =
     (case last_node previous (pn_id n) of None \<Rightarrow> True | Some prior \<Rightarrow> node_digest H prior \<noteq> node_digest H n)"

definition carry_state :: "PlanNodeState list \<Rightarrow> string list \<Rightarrow> PlanNodeState \<Rightarrow> PlanNodeState" where
  "carry_state previousStates reset fresh =
     (if ns_nodeId fresh \<in> set reset then fresh
      else case last_state previousStates (ns_nodeId fresh) of None \<Rightarrow> fresh | Some prior \<Rightarrow> prior)"

definition revisePlan ::
  "Hashing \<Rightarrow> (string \<Rightarrow> string) \<Rightarrow> CompiledGoal \<Rightarrow> PlanGraph \<Rightarrow> PlanNodeState list \<Rightarrow> PlanGraph \<Rightarrow> int \<Rightarrow> PlanRevisionResult result" where
  "revisePlan H collate goal previous previousStates nextInput now =
     (if list_ex (\<lambda>s. ns_status s = NsRunning) previousStates
      then js_fail ''plan revision is forbidden while an execution node is running.''
      else if list_ex awaits_verification previousStates
      then js_fail ''plan revision is forbidden while an execution is awaiting verification.''
      else bind_result (validatePlanGraph goal nextInput) (\<lambda>next.
        if pg_planId next \<noteq> pg_planId previous \<or> pg_goalId next \<noteq> pg_goalId previous
        then js_fail ''plan revision must preserve plan and goal identity.''
        else if pg_version next \<noteq> pg_version previous + 1
        then js_fail ''plan revision version must advance exactly by one.''
        else
          let changed = sort (map pn_id (filter (node_changed H (pg_nodes previous)) (pg_nodes next)));
              reset = dependentClosure next changed;
              states = map (carry_state previousStates reset) (initializeNodeStates next now);
              preservedSucceeded = sort (map ns_nodeId
                (filter (\<lambda>s. ns_status s = NsSucceeded \<and> ns_nodeId s \<notin> set reset) states));
              preserved = sort_key (\<lambda>e. collate (pd_nodeId e))
                (map (\<lambda>n. \<lparr>pd_nodeId = pn_id n, pd_nodeDigest = node_digest H n\<rparr>)
                  (filter (\<lambda>n. pn_id n \<notin> set reset \<and> \<not> node_changed H (pg_nodes previous) n) (pg_nodes next)))
          in bind_result (createRevisionProof H collate
               \<lparr>rp_planId = pg_planId next, rp_goalId = pg_goalId next, rp_fromVersion = pg_version previous,
                rp_toVersion = pg_version next, rp_fromPlanDigest = digestPlan H (graph_json previous),
                rp_toPlanDigest = digestPlan H (graph_json next), rp_preservedNodeDigests = preserved,
                rp_resetNodeIds = sort reset, rp_createdAt = now\<rparr>) (\<lambda>pr.
             Inr \<lparr>rv_graph = next, rv_states = states, rv_changedNodeIds = changed, rv_resetNodeIds = sort reset,
                  rv_preservedSucceededNodeIds = preservedSucceeded, rv_proof = pr\<rparr>)))"

section \<open>What a revision keeps\<close>

lemma last_node_eq: "distinct (node_ids nodes) \<Longrightarrow> last_node nodes i = Some n \<longleftrightarrow> n \<in> set nodes \<and> pn_id n = i"
  unfolding last_node_def find_node_def
  by (subst find_Some_iff_distinct) (auto simp: node_ids_def rev_map [symmetric])

definition revision_reset :: "Hashing \<Rightarrow> PlanGraph \<Rightarrow> PlanGraph \<Rightarrow> string list" where
  "revision_reset H previous next =
     dependentClosure next (sort (map pn_id (filter (node_changed H (pg_nodes previous)) (pg_nodes next))))"

lemma revisePlan_InrD:
  assumes "revisePlan H collate goal previous states0 nextInput now = Inr r"
  shows "validatePlanGraph goal nextInput = Inr (rv_graph r)"
    and "s \<in> set states0 \<Longrightarrow> \<not> unsettled_execution s"
    and "pg_planId (rv_graph r) = pg_planId previous" and "pg_version (rv_graph r) = pg_version previous + 1"
    and "pg_goalId (rv_graph r) = pg_goalId previous"
    and "rv_states r = map (carry_state states0 (revision_reset H previous (rv_graph r))) (initializeNodeStates (rv_graph r) now)"
  using assms
  by (auto simp: revisePlan_def bind_result_Inr Let_def revision_reset_def unsettled_execution_def list_ex_iff split: if_splits)

lemma revision_reset_changed:
  "n \<in> set (pg_nodes next) \<Longrightarrow> node_changed H (pg_nodes previous) n \<Longrightarrow>
   (dependent_of (pg_nodes next))\<^sup>*\<^sup>* (pn_id n) j \<Longrightarrow> j \<in> set (revision_reset H previous next)"
  by (auto simp: revision_reset_def set_dependentClosure)

lemma revision_reset_deps:
  assumes "n \<in> set (pg_nodes next)" "pn_id n \<notin> set (revision_reset H previous next)" "d \<in> set (pn_dependsOn n)"
  shows "d \<notin> set (revision_reset H previous next)"
proof
  assume "d \<in> set (revision_reset H previous next)"
  then obtain c where c: "c \<in> set (sort (map pn_id (filter (node_changed H (pg_nodes previous)) (pg_nodes next))))"
    "(dependent_of (pg_nodes next))\<^sup>*\<^sup>* c d"
    unfolding revision_reset_def set_dependentClosure by blast
  have "dependent_of (pg_nodes next) d (pn_id n)" using assms(1,3) by (auto simp: dependent_of_def)
  with c(2) have "(dependent_of (pg_nodes next))\<^sup>*\<^sup>* c (pn_id n)" by simp
  with c(1) assms(2) show False unfolding revision_reset_def set_dependentClosure by blast
qed

text \<open>No two versions of a node with the same identifier share a digest by accident.\<close>

definition nodes_collision_free :: "Hashing \<Rightarrow> PlanNode list \<Rightarrow> PlanNode list \<Rightarrow> bool" where
  "nodes_collision_free H ms ns \<longleftrightarrow> number_text (h_num H)
     \<and> list_all (\<lambda>m. list_all (\<lambda>n. pn_id m = pn_id n \<longrightarrow> no_collision H (node_json m) (node_json n)) ns) ms"

lemma unchanged_node:
  assumes "nodes_collision_free H (pg_nodes previous) (pg_nodes next)" "distinct (node_ids (pg_nodes previous))"
    "n \<in> set (pg_nodes next)" "\<not> node_changed H (pg_nodes previous) n"
  shows "n \<in> set (pg_nodes previous)"
proof -
  from assms(2,4) obtain m where m: "m \<in> set (pg_nodes previous)" "pn_id m = pn_id n" "node_digest H m = node_digest H n"
    by (auto simp: node_changed_def last_node_eq split: option.splits)
  with assms(1,3) have "no_collision H (node_json m) (node_json n)" "number_text (h_num H)"
    by (auto simp: nodes_collision_free_def list_all_iff)
  with m(3) have "m = n" by (intro node_digest_eqD) (auto simp: node_digest_def)
  with m(1) show ?thesis by simp
qed

text \<open>
  C26. A revision keeps finished work only where nothing it rests on changed: a node that is succeeded after
  the revision had that very state before, and the node and every node it transitively depends on or
  belongs to have the same content in both versions of the plan.
\<close>

theorem revision_keeps_only_unchanged_work:
  assumes rev: "revisePlan H collate goal previous states0 nextInput now = Inr r"
    and free: "nodes_collision_free H (pg_nodes previous) (pg_nodes (rv_graph r))"
    and d: "distinct (node_ids (pg_nodes previous))" "distinct (map ns_nodeId states0)"
    and s: "s \<in> set (rv_states r)" "ns_status s = NsSucceeded"
  shows "s \<in> set states0
    \<and> (\<forall>n\<in>set (pg_nodes (rv_graph r)). (dependent_of (pg_nodes (rv_graph r)))\<^sup>*\<^sup>* (pn_id n) (ns_nodeId s)
         \<longrightarrow> n \<in> set (pg_nodes previous))"
proof -
  note R = revisePlan_InrD [OF rev]
  from s(1) R(6) obtain fresh where f: "fresh \<in> set (initializeNodeStates (rv_graph r) now)"
    "s = carry_state states0 (revision_reset H previous (rv_graph r)) fresh" by auto
  then have "ns_status fresh \<noteq> NsSucceeded" by (auto simp: initializeNodeStates_def split: if_splits)
  with f(2) s(2) have kept: "last_state states0 (ns_nodeId fresh) = Some s"
    and keep: "ns_nodeId fresh \<notin> set (revision_reset H previous (rv_graph r))"
    by (auto simp: carry_state_def split: if_splits option.splits)
  then have same: "s \<in> set states0" "ns_nodeId s = ns_nodeId fresh"
    using d(2) by (auto simp: last_state_eq dest: find_state_SomeD)
  have "n \<in> set (pg_nodes previous)"
    if n: "n \<in> set (pg_nodes (rv_graph r))" "(dependent_of (pg_nodes (rv_graph r)))\<^sup>*\<^sup>* (pn_id n) (ns_nodeId s)" for n
  proof (rule unchanged_node [OF free d(1) n(1)])
    show "\<not> node_changed H (pg_nodes previous) n"
      using revision_reset_changed [OF n(1) _ n(2)] keep same(2) by auto
  qed
  with same(1) show ?thesis by blast
qed

section \<open>Lineage records\<close>

text \<open>SHA-256 texts are 64 lower-case hexadecimal characters.\<close>

definition hex_hashing :: "Hashing \<Rightarrow> bool" where
  "hex_hashing H \<longleftrightarrow> (\<forall>t. hex64_text (h_sha256 H t) \<and> to_lower (h_sha256 H t) = h_sha256 H t)"

lemma hex_digestPlan: "hex_hashing H \<Longrightarrow> hex64_text (digestPlan H v) \<and> to_lower (digestPlan H v) = digestPlan H v"
  by (simp add: hex_hashing_def digestPlan_def)

lemma lower_char_lower [simp]: "lower_char (lower_char c) = lower_char c"
proof (cases "is_upper c")
  case True
  then have "65 \<le> (of_char c :: nat)" "(of_char c :: nat) \<le> 90" by (auto simp: is_upper_def char_in_def)
  with True show ?thesis by (auto simp: lower_char_def is_upper_def char_in_def)
qed (simp add: lower_char_def)

lemma to_lower_lower [simp]: "to_lower (to_lower s) = to_lower s"
  by (simp add: to_lower_def)

lemma hex64_lower: "hex64_text v \<Longrightarrow> hex64_text (to_lower v)"
proof -
  have "is_hex (lower_char c)" if "is_hex c" for c
  proof (cases "is_upper c")
    case True
    with that have "65 \<le> (of_char c :: nat)" "(of_char c :: nat) \<le> 70"
      by (auto simp: is_upper_def is_hex_def is_hex_lower_def is_digit_def char_in_def)
    with True show ?thesis by (auto simp: lower_char_def is_hex_def is_hex_lower_def is_digit_def char_in_def)
  qed (use that in \<open>simp add: lower_char_def\<close>)
  then show "hex64_text v \<Longrightarrow> hex64_text (to_lower v)" by (auto simp: hex64_text_def to_lower_def list_all_iff)
qed

lemma normalizeBody_idem: "normalizeBody b = Inr c \<Longrightarrow> normalizeBody c = Inr c"
  by (auto simp: normalizeBody_def bind_result_Inr plan_checks_Inr hex64_lower)

lemma decision_valid:
  assumes "hex_hashing H" "normalizeBody b = Inr b"
  shows "validateDecisionLineage H \<lparr>dl_digest = decision_digest H b, dl_body = b\<rparr>
      = Inr \<lparr>dl_digest = decision_digest H b, dl_body = b\<rparr>"
  using hex_digestPlan [OF assms(1)] assms(2)
  by (simp add: validateDecisionLineage_def bind_result_def plan_sha256_def decision_digest_def)

lemma validateDecisionLineage_InrD:
  assumes "hex_hashing H" "validateDecisionLineage H d = Inr e"
  shows "dl_digest e = decision_digest H (dl_body e) \<and> validateDecisionLineage H e = Inr e"
proof -
  from assms(2) obtain b where "normalizeBody (dl_body d) = Inr b" "e = \<lparr>dl_digest = decision_digest H b, dl_body = b\<rparr>"
    by (auto simp: validateDecisionLineage_def bind_result_Inr split: if_splits)
  with decision_valid [OF assms(1) normalizeBody_idem] show ?thesis by simp
qed

text \<open>
  A decision record that was created validates to itself, and a record that validates carries the
  digest of its own content: a record whose content was altered without a new digest is refused.
\<close>

theorem decision_lineage_round_trip:
  assumes "hex_hashing H"
  shows "(createDecisionLineage H inp createdAt now = Inr d \<longrightarrow> validateDecisionLineage H d = Inr d)
    \<and> (validateDecisionLineage H d = Inr e \<longrightarrow> dl_digest e = decision_digest H (dl_body e)
         \<and> validateDecisionLineage H e = Inr e)"
proof -
  have "validateDecisionLineage H d = Inr d" if c: "createDecisionLineage H inp createdAt now = Inr d"
  proof -
    from c obtain b b0 where "normalizeBody b0 = Inr b" "d = \<lparr>dl_digest = decision_digest H b, dl_body = b\<rparr>"
      by (auto simp: createDecisionLineage_def bind_result_Inr)
    with decision_valid [OF assms normalizeBody_idem] show ?thesis by simp
  qed
  with validateDecisionLineage_InrD [OF assms] show ?thesis by blast
qed

lemma sample_hashing_hex: "hex_hashing sample_hashing"
proof -
  have "hex64_text digest_text" "to_lower digest_text = digest_text" by code_simp+
  then show ?thesis by (simp add: hex_hashing_def sample_hashing_def)
qed

definition sample_decision :: DecisionBody where
  "sample_decision = \<lparr>dl_planId = ''plan'', dl_planVersion = 1, dl_planDigest = digest_text, dl_goalId = ''goal'', dl_nodeId = ''act'',
     dl_beliefDigest = digest_text, dl_decisionKind = DkExecution, dl_decisionId = ''d'', dl_createdAt = 0\<rparr>"

theorem decision_lineage_round_trip_witness:
  "validateDecisionLineage sample_hashing \<lparr>dl_digest = digest_text, dl_body = sample_decision\<rparr>
   = Inr \<lparr>dl_digest = digest_text, dl_body = sample_decision\<rparr>"
proof -
  have "createDecisionLineage sample_hashing sample_decision (Some 0) 5
      = Inr \<lparr>dl_digest = digest_text, dl_body = sample_decision\<rparr>" by code_simp
  with decision_lineage_round_trip [OF sample_hashing_hex] show ?thesis by blast
qed

text \<open>The sample plan, revised: the check is dropped, the action is unchanged.\<close>

definition revised_graph :: PlanGraph where
  "revised_graph = sample_graph\<lparr>pg_version := 2, pg_nodes := [sample_action]\<rparr>"

definition verified_states :: "PlanNodeState list" where
  "verified_states = [rival_state ''act'' NsSucceeded Absent, rival_state ''chk'' NsPending Absent]"

lemma sample_collision_free: "nodes_collision_free sample_hashing (pg_nodes sample_graph) (pg_nodes revised_graph)"
proof -
  have "h_num sample_hashing = unary_number" by (simp add: sample_hashing_def)
  moreover have "pn_id sample_check \<noteq> pn_id sample_action" by code_simp
  ultimately show ?thesis
    using unary_number_text by (simp add: nodes_collision_free_def no_collision_def sample_graph_def revised_graph_def)
qed

lemma digest_sample: "digestPlan sample_hashing v = digest_text"
  by (simp add: digestPlan_def sample_hashing_def)

lemma node_changed_sample: "node_changed sample_hashing prev = (\<lambda>n. last_node prev (pn_id n) = None)"
  by (auto simp: fun_eq_iff node_changed_def node_digest_def digest_sample split: option.splits)

lemmas revise_sample = revisePlan_def createRevisionProof_def revision_digest_def node_digest_def digest_sample node_changed_sample

lemma revise_sample_run:
  "\<exists>pr. revisePlan sample_hashing (\<lambda>s. s) sample_goal sample_graph verified_states revised_graph 1
     = Inr \<lparr>rv_graph = revised_graph, rv_states = [hd verified_states], rv_changedNodeIds = [], rv_resetNodeIds = [],
            rv_preservedSucceededNodeIds = [''act''], rv_proof = pr\<rparr>"
proof -
  have val: "validatePlanGraph sample_goal revised_graph = Inr revised_graph" by code_simp
  have guards: "\<not> list_ex (\<lambda>s. ns_status s = NsRunning) verified_states" "\<not> list_ex awaits_verification verified_states"
    "pg_planId revised_graph = pg_planId sample_graph" "pg_goalId revised_graph = pg_goalId sample_graph"
    "pg_version revised_graph = 2" "pg_version sample_graph = 1" "pg_planId sample_graph = ''plan''"
    "pg_goalId sample_graph = ''goal''" by code_simp+
  have changed: "filter (\<lambda>n. last_node (pg_nodes sample_graph) (pn_id n) = None) (pg_nodes revised_graph) = []"
    "filter (\<lambda>n. last_node (pg_nodes sample_graph) (pn_id n) \<noteq> None) (pg_nodes revised_graph) = [sample_action]"
    "dependentClosure revised_graph [] = []" by code_simp+
  have states: "map (carry_state verified_states []) (initializeNodeStates revised_graph 1) = [hd verified_states]"
    "ns_status (hd verified_states) = NsSucceeded" "ns_nodeId (hd verified_states) = ''act''" "pn_id sample_action = ''act''"
    by code_simp+
  have sha: "plan_sha256 l digest_text = Inr digest_text" for l
    using sample_hashing_hex by (simp add: plan_sha256_def hex_hashing_def sample_hashing_def)
  let ?B = "\<lparr>rp_planId = ''plan'', rp_goalId = ''goal'', rp_fromVersion = 1, rp_toVersion = 2, rp_fromPlanDigest = digest_text,
    rp_toPlanDigest = digest_text, rp_preservedNodeDigests = [\<lparr>pd_nodeId = ''act'', pd_nodeDigest = digest_text\<rparr>],
    rp_resetNodeIds = [], rp_createdAt = 1\<rparr>"
  have "is_safe_integer 1" "is_safe_integer 2" by (simp_all add: is_safe_integer_def max_safe_integer_def)
  then have proof_body: "normalizeProofBody (\<lambda>s. s) ?B = Inr ?B"
    unfolding normalizeProofBody_def
    by (simp add: normalize_preserved_def bind_result_def sha plan_integer_def max_safe_integer_def plan_bounded_def
        unique_bounded_def Let_def)
  have preserved: "filter (\<lambda>n. pn_id n \<notin> set [] \<and> \<not> last_node (pg_nodes sample_graph) (pn_id n) = None) (pg_nodes revised_graph)
      = [sample_action]" using changed(2) by simp
  have guard: "(if list_ex (\<lambda>s. ns_status s = NsRunning) verified_states then x
      else if list_ex awaits_verification verified_states then y else z) = z" for x y z :: "PlanRevisionResult result"
    using guards(1,2) by simp
  show ?thesis
    unfolding revise_sample guard val bind_result_def sum.case Let_def changed list.map sort_key_simps guards preserved states
    by (simp add: proof_body guards states)
qed

theorem revision_keeps_only_unchanged_work_witness:
  "hd verified_states \<in> set (rv_states (projr (revisePlan sample_hashing (\<lambda>s. s) sample_goal sample_graph verified_states revised_graph 1)))
   \<and> sample_action \<in> set (pg_nodes sample_graph)"
proof -
  let ?run = "revisePlan sample_hashing (\<lambda>s. s) sample_goal sample_graph verified_states revised_graph 1"
  have run: "?run = Inr (projr ?run)" and graph: "rv_graph (projr ?run) = revised_graph"
    and st: "hd verified_states \<in> set (rv_states (projr ?run))" using revise_sample_run by auto
  have "distinct (node_ids (pg_nodes sample_graph))" "distinct (map ns_nodeId verified_states)"
    "ns_status (hd verified_states) = NsSucceeded" by code_simp+
  with revision_keeps_only_unchanged_work [OF run _ _ _ st] sample_collision_free graph
  have "\<forall>n\<in>set (pg_nodes revised_graph). (dependent_of (pg_nodes revised_graph))\<^sup>*\<^sup>* (pn_id n) (ns_nodeId (hd verified_states))
      \<longrightarrow> n \<in> set (pg_nodes sample_graph)" by simp
  moreover have "pn_id sample_action = ns_nodeId (hd verified_states)" "sample_action \<in> set (pg_nodes revised_graph)" by code_simp+
  ultimately show ?thesis using st by auto
qed

end
