(* ===== verification/PlanRuntime.thy ===== *)
theory PlanRuntime
  imports PlanRevision
begin

text \<open>
  The plan runtime itself: \<open>runtime.ts\<close> of \<open>packages/verified-plan-runtime/src\<close>. The private fields of the
  class are a record; every method returns the new record with its result. A method that throws leaves
  the object as it was.
\<close>

section \<open>State\<close>

record VerifiedPlanRuntime =
  vp_goal :: CompiledGoal
  vp_graph :: PlanGraph
  vp_goalDigest :: string
  vp_planDigest :: string
  vp_states :: "PlanNodeState list"
  vp_decisions :: "PlanDecisionLineage list"
  vp_receipts :: "VerificationReceiptRef list"
  vp_revisionProofs :: "PlanRevisionProof list"

record VerifiedPlanRuntimeState =
  rs_version :: int
  rs_goal :: CompiledGoal
  rs_graph :: PlanGraph
  rs_goalDigest :: string
  rs_planDigest :: string
  rs_nodeStates :: "PlanNodeState list"
  rs_decisions :: "PlanDecisionLineage list"
  rs_verificationReceipts :: "VerificationReceiptRef list"
  rs_revisionProofs :: "PlanRevisionProof list"

record VerifiedPlanRuntimeEnvelope =
  en_kind :: string
  en_envelopeVersion :: int
  en_payload :: VerifiedPlanRuntimeState
  en_payloadDigest :: string

section \<open>JSON of the runtime's records\<close>

primrec side_effects_text :: "PlanSideEffects \<Rightarrow> string" where
  "side_effects_text SeNone = ''none''"
| "side_effects_text SeKnown = ''known''"
| "side_effects_text SeUncertain = ''uncertain''"

definition observation_json :: "ExecutionObservation \<Rightarrow> json" where
  "observation_json ob = JObj ([(''changedFactKeys'', strings_json (eo_changedFactKeys ob)),
     (''supportedFactKeys'', strings_json (eo_supportedFactKeys ob)),
     (''contradictedFactKeys'', strings_json (eo_contradictedFactKeys ob)),
     (''executionOk'', JBool (eo_executionOk ob)), (''sideEffectState'', JStr (side_effects_text (eo_sideEffectState ob)))]
     @ opt_member strings_json ''evidenceDigests'' (eo_evidenceDigests ob))"

definition receipt_json :: "Hashing \<Rightarrow> VerificationReceiptRef \<Rightarrow> json" where
  "receipt_json H r = JObj [(''digest'', JStr (vr_digest r)), (''goalId'', JStr (vr_goalId r)), (''planId'', JStr (vr_planId r)),
     (''planVersion'', JNum (of_int (vr_planVersion r))), (''nodeId'', JStr (vr_nodeId r)),
     (''attempt'', JNum (of_int (vr_attempt r))), (''executionDigest'', JStr (vr_executionDigest r)),
     (''verifierId'', JStr (vr_verifierId r)), (''verifiedAt'', JStr (h_iso H (vr_verifiedAt r))),
     (''authoritySnapshotDigest'', JStr (vr_authoritySnapshotDigest r))]"

definition runtime_state_json :: "Hashing \<Rightarrow> VerifiedPlanRuntimeState \<Rightarrow> json" where
  "runtime_state_json H s = JObj [(''version'', JNum (of_int (rs_version s))), (''goal'', goal_json (rs_goal s)),
     (''graph'', graph_json (rs_graph s)), (''goalDigest'', JStr (rs_goalDigest s)), (''planDigest'', JStr (rs_planDigest s)),
     (''nodeStates'', JArr (map (state_json H) (rs_nodeStates s))),
     (''decisions'', JArr (map (\<lambda>d. JObj ((''digest'', JStr (dl_digest d)) # decision_body_members H (dl_body d))) (rs_decisions s))),
     (''verificationReceipts'', JArr (map (receipt_json H) (rs_verificationReceipts s))),
     (''revisionProofs'', JArr (map (\<lambda>p. JObj ((''digest'', JStr (rp_digest p)) # revision_body_members H (rp_body p)))
        (rs_revisionProofs s)))]"

section \<open>Restoring a runtime\<close>

definition when_digest :: "string \<Rightarrow> string property \<Rightarrow> failure option" where
  "when_digest l p = (case truthy (prop_value p) of None \<Rightarrow> None
     | Some d \<Rightarrow> (case plan_sha256 l d of Inl e \<Rightarrow> Some e | Inr _ \<Rightarrow> None))"

definition check_node_state :: "PlanNode \<Rightarrow> PlanNodeState \<Rightarrow> failure option" where
  "check_node_state n s =
     (if \<not> is_safe_integer (ns_attempts s) \<or> ns_attempts s < 0 \<or> ns_attempts s > pn_maxAttempts n
      then Some (JsError ''runtime node attempts are invalid.'')
      else case when_digest ''node.lastExecutionDigest'' (ns_lastExecutionDigest s) of Some e \<Rightarrow> Some e
      | None \<Rightarrow> (case when_digest ''node.verificationReceiptDigest'' (ns_verificationReceiptDigest s) of Some e \<Rightarrow> Some e
         | None \<Rightarrow> (case when_digest ''node.verifiedNodeDigest'' (ns_verifiedNodeDigest s) of Some e \<Rightarrow> Some e
            | None \<Rightarrow>
               if truthy (prop_value (ns_verificationReceiptDigest s)) \<noteq> None \<and> truthy (prop_value (ns_verifiedNodeDigest s)) = None
               then Some (JsError ''verified receipt state requires exact verified node content.'') else None)))"

primrec check_node_states :: "PlanNode list \<Rightarrow> PlanNodeState list \<Rightarrow> string list \<Rightarrow> failure option" where
  "check_node_states nodes [] seen = None"
| "check_node_states nodes (s # ss) seen =
     (case find_node nodes (ns_nodeId s) of None \<Rightarrow> Some (JsError ''runtime node state is invalid.'')
      | Some n \<Rightarrow>
         if ns_nodeId s \<in> set seen then Some (JsError ''runtime node state is invalid.'')
         else case check_node_state n s of Some e \<Rightarrow> Some e
              | None \<Rightarrow> check_node_states nodes ss (ns_nodeId s # seen))"

definition normalizeNodeStates :: "PlanGraph \<Rightarrow> PlanNodeState list \<Rightarrow> PlanNodeState list result" where
  "normalizeNodeStates graph states =
     (if length states \<noteq> length (pg_nodes graph) then js_fail ''runtime node state does not match plan graph.''
      else case check_node_states (pg_nodes graph) states [] of Some e \<Rightarrow> Inl e | None \<Rightarrow> Inr states)"

definition foreign_decision :: "VerifiedPlanRuntime \<Rightarrow> DecisionBody \<Rightarrow> bool" where
  "foreign_decision rt b \<longleftrightarrow> dl_planId b \<noteq> pg_planId (vp_graph rt) \<or> dl_planVersion b \<noteq> pg_version (vp_graph rt)
     \<or> dl_planDigest b \<noteq> vp_planDigest rt \<or> dl_goalId b \<noteq> cg_id (vp_goal rt)"

definition check_decision :: "VerifiedPlanRuntime \<Rightarrow> PlanDecisionLineage \<Rightarrow> failure option" where
  "check_decision rt d =
     (if foreign_decision rt (dl_body d) then Some (JsError ''persisted decision lineage is bound to different plan content.'')
      else if find_node (pg_nodes (vp_graph rt)) (dl_nodeId (dl_body d)) = None
      then Some (JsError ''persisted decision references unknown node.'') else None)"

text \<open>The proofs in order, with the proof before and the source versions met so far.\<close>

primrec check_proof_chain ::
  "VerifiedPlanRuntime \<Rightarrow> PlanRevisionProof list \<Rightarrow> PlanRevisionProof option \<Rightarrow> int list \<Rightarrow> failure option" where
  "check_proof_chain rt [] previous seen =
     (case previous of None \<Rightarrow> None
      | Some p \<Rightarrow> if rp_toVersion (rp_body p) \<noteq> pg_version (vp_graph rt) \<or> rp_toPlanDigest (rp_body p) \<noteq> vp_planDigest rt
          then Some (JsError ''revision proof chain does not terminate at the current plan.'') else None)"
| "check_proof_chain rt (p # ps) previous seen =
     (if rp_planId (rp_body p) \<noteq> pg_planId (vp_graph rt) \<or> rp_goalId (rp_body p) \<noteq> cg_id (vp_goal rt)
      then Some (JsError ''revision proof is bound to a different plan/goal.'')
      else if rp_fromVersion (rp_body p) \<in> set seen
      then Some (JsError ''revision proof chain contains duplicate source versions.'')
      else if (case previous of None \<Rightarrow> False
               | Some q \<Rightarrow> rp_toVersion (rp_body q) \<noteq> rp_fromVersion (rp_body p)
                   \<or> rp_toPlanDigest (rp_body q) \<noteq> rp_fromPlanDigest (rp_body p))
      then Some (JsError ''revision proof chain is not contiguous.'')
      else check_proof_chain rt ps (Some p) (rp_fromVersion (rp_body p) # seen))"

definition validateRevisionProofChain :: "VerifiedPlanRuntime \<Rightarrow> failure option" where
  "validateRevisionProofChain rt =
     (if length (vp_revisionProofs rt) > 10000 then Some (JsError ''revision proof chain is too large.'')
      else check_proof_chain rt (vp_revisionProofs rt) None [])"

text \<open>
  The walk from a version to the current one along the proofs. The number of steps left is bounded by the
  versions in between, since the proofs go from a version to the next; no step is left over otherwise.
\<close>

fun preserved_walk :: "PlanRevisionProof list \<Rightarrow> int \<Rightarrow> string \<Rightarrow> string \<Rightarrow> nat \<Rightarrow> int \<Rightarrow> bool option" where
  "preserved_walk proofs current nodeId nodeDigest fuel version =
     (if version < current then
        (case find (\<lambda>p. rp_fromVersion (rp_body p) = version) (rev proofs) of None \<Rightarrow> Some False
         | Some p \<Rightarrow>
            if \<not> list_ex (\<lambda>e. pd_nodeId e = nodeId \<and> pd_nodeDigest e = nodeDigest) (rp_preservedNodeDigests (rp_body p)) then Some False
            else (case fuel of 0 \<Rightarrow> None
                  | Suc f \<Rightarrow> preserved_walk proofs current nodeId nodeDigest f (rp_toVersion (rp_body p))))
      else Some (version = current))"

declare preserved_walk.simps [simp del]

definition isNodePreservedAcrossRevisions :: "VerifiedPlanRuntime \<Rightarrow> int \<Rightarrow> string \<Rightarrow> string \<Rightarrow> bool option" where
  "isNodePreservedAcrossRevisions rt fromVersion nodeId nodeDigest =
     preserved_walk (vp_revisionProofs rt) (pg_version (vp_graph rt)) nodeId nodeDigest
       (nat (pg_version (vp_graph rt) - fromVersion)) fromVersion"

definition completion_lineage :: "VerifiedPlanRuntime \<Rightarrow> int \<Rightarrow> string \<Rightarrow> int \<Rightarrow> string \<Rightarrow> CompletionLineage" where
  "completion_lineage rt version nodeId attempt executionDigest =
     \<lparr>cl_goalId = cg_id (vp_goal rt), cl_planId = pg_planId (vp_graph rt), cl_planVersion = version, cl_nodeId = nodeId,
      cl_attempt = attempt, cl_executionDigest = executionDigest\<rparr>"

definition check_receipt :: "Hashing \<Rightarrow> VerifiedPlanRuntime \<Rightarrow> VerificationReceiptRef \<Rightarrow> failure option" where
  "check_receipt H rt r =
     (case find_state (vp_states rt) (vr_nodeId r) of None \<Rightarrow> Some (JsError ''missing plan node state'')
      | Some s \<Rightarrow>
     (case truthy (prop_value (ns_lastExecutionDigest s)) of
        None \<Rightarrow> Some (JsError ''persisted receipt has no matching execution lineage.'')
      | Some x \<Rightarrow>
         if prop_value (ns_verificationReceiptDigest s) \<noteq> Some (vr_digest r)
         then Some (JsError ''persisted verification receipt is not referenced by its node state.'')
         else if vr_planVersion r > pg_version (vp_graph rt)
         then Some (JsError ''persisted verification receipt comes from a future plan version.'')
         else
     (case validateCompletionReceipt r (completion_lineage rt (vr_planVersion r) (vr_nodeId r) (ns_attempts s) x) of Inl e \<Rightarrow> Some e
      | Inr _ \<Rightarrow>
     (case find_node (pg_nodes (vp_graph rt)) (vr_nodeId r) of None \<Rightarrow> Some (JsError ''unknown plan node'')
      | Some n \<Rightarrow>
     (case truthy (prop_value (ns_verifiedNodeDigest s)) of
        None \<Rightarrow> Some (JsError ''verified node content does not match persisted verification lineage.'')
      | Some vd \<Rightarrow>
     (case plan_sha256 ''state.verifiedNodeDigest'' vd of Inl e \<Rightarrow> Some e
      | Inr lower \<Rightarrow>
         if lower \<noteq> node_digest H n then Some (JsError ''verified node content does not match persisted verification lineage.'')
         else if vr_planVersion r < pg_version (vp_graph rt)
           \<and> isNodePreservedAcrossRevisions rt (vr_planVersion r) (vr_nodeId r) (node_digest H n) \<noteq> Some True
         then Some (JsError ''historical verification receipt is not preserved by the revision proof chain.'')
         else None))))))"

primrec check_receipts :: "Hashing \<Rightarrow> VerifiedPlanRuntime \<Rightarrow> VerificationReceiptRef list \<Rightarrow> string list \<Rightarrow> failure option" where
  "check_receipts H rt [] seen = None"
| "check_receipts H rt (r # rs) seen =
     (if vr_digest r \<in> set seen then Some (JsError ''persisted verification receipt digest is duplicated.'')
      else case check_receipt H rt r of Some e \<Rightarrow> Some e | None \<Rightarrow> check_receipts H rt rs (vr_digest r # seen))"

definition check_verified_node :: "Hashing \<Rightarrow> VerifiedPlanRuntime \<Rightarrow> PlanNode \<Rightarrow> failure option" where
  "check_verified_node H rt n =
     (case find_state (vp_states rt) (pn_id n) of None \<Rightarrow> Some (JsError ''missing plan node state'')
      | Some s \<Rightarrow>
         if ns_status s = NsSucceeded \<and> pn_verificationFactKeys n \<noteq> [] then
           (if truthy (prop_value (ns_verificationReceiptDigest s)) = None
            then Some (JsError ''verified node is missing persisted receipt lineage.'')
            else if truthy (prop_value (ns_verifiedNodeDigest s)) = None \<or> prop_value (ns_verifiedNodeDigest s) \<noteq> Some (node_digest H n)
            then Some (JsError ''verified node is missing exact node-content lineage.'')
            else if \<not> list_ex (\<lambda>r. Some (vr_digest r) = prop_value (ns_verificationReceiptDigest s) \<and> vr_nodeId r = pn_id n) (vp_receipts rt)
            then Some (JsError ''verified node references a missing or mismatched persisted receipt.'')
            else None)
         else None)"

definition validatePersistedReceipts :: "Hashing \<Rightarrow> VerifiedPlanRuntime \<Rightarrow> failure option" where
  "validatePersistedReceipts H rt =
     (case check_receipts H rt (vp_receipts rt) [] of Some e \<Rightarrow> Some e
      | None \<Rightarrow> for_all_throw (check_verified_node H rt) (pg_nodes (vp_graph rt)))"

definition newRuntime :: "Hashing \<Rightarrow> CompiledGoal \<Rightarrow> PlanGraph \<Rightarrow> int \<Rightarrow> VerifiedPlanRuntime result" where
  "newRuntime H goal graphInput now =
     bind_result (validatePlanGraph goal graphInput) (\<lambda>graph.
       Inr \<lparr>vp_goal = goal, vp_graph = graph, vp_goalDigest = digestPlan H (goal_json goal), vp_planDigest = digestPlan H (graph_json graph),
            vp_states = initializeNodeStates graph now, vp_decisions = [], vp_receipts = [], vp_revisionProofs = []\<rparr>)"

definition restoreRuntime ::
  "Hashing \<Rightarrow> (string \<Rightarrow> string) \<Rightarrow> CompiledGoal \<Rightarrow> PlanGraph \<Rightarrow> VerifiedPlanRuntimeState \<Rightarrow> VerifiedPlanRuntime result" where
  "restoreRuntime H collate goal graphInput state =
     bind_result (validatePlanGraph goal graphInput) (\<lambda>graph.
     if rs_version state \<noteq> 3 then js_fail ''unsupported verified plan runtime state version.''
     else if cg_id (rs_goal state) \<noteq> cg_id goal \<or> pg_planId (rs_graph state) \<noteq> pg_planId graph
       \<or> pg_version (rs_graph state) \<noteq> pg_version graph
     then js_fail ''runtime state is bound to different goal/plan lineage.''
     else bind_result (plan_sha256 ''state.goalDigest'' (rs_goalDigest state)) (\<lambda>gd.
     bind_result (if gd \<noteq> digestPlan H (goal_json goal) then js_fail ''runtime state goal/plan digest does not match immutable content.''
                  else plan_sha256 ''state.planDigest'' (rs_planDigest state)) (\<lambda>pd.
     if pd \<noteq> digestPlan H (graph_json graph) then js_fail ''runtime state goal/plan digest does not match immutable content.''
     else bind_result (normalizeNodeStates graph (rs_nodeStates state)) (\<lambda>states.
     bind_result (map_throw (validateDecisionLineage H) (rs_decisions state)) (\<lambda>decisions.
     let rt = \<lparr>vp_goal = goal, vp_graph = graph, vp_goalDigest = digestPlan H (goal_json goal),
               vp_planDigest = digestPlan H (graph_json graph), vp_states = states, vp_decisions = decisions,
               vp_receipts = rs_verificationReceipts state, vp_revisionProofs = []\<rparr> in
     case for_all_throw (check_decision rt) decisions of Some e \<Rightarrow> Inl e
     | None \<Rightarrow>
       bind_result (map_throw (validateRevisionProof H collate) (rs_revisionProofs state)) (\<lambda>proofs.
       let rt = rt\<lparr>vp_revisionProofs := proofs\<rparr> in
       case validateRevisionProofChain rt of Some e \<Rightarrow> Inl e
       | None \<Rightarrow> (case validatePersistedReceipts H rt of Some e \<Rightarrow> Inl e | None \<Rightarrow> Inr rt)))))))"

definition fromState :: "Hashing \<Rightarrow> (string \<Rightarrow> string) \<Rightarrow> VerifiedPlanRuntimeState \<Rightarrow> VerifiedPlanRuntime result" where
  "fromState H collate state = restoreRuntime H collate (rs_goal state) (rs_graph state) state"

definition fromEnvelope :: "Hashing \<Rightarrow> (string \<Rightarrow> string) \<Rightarrow> VerifiedPlanRuntimeEnvelope \<Rightarrow> VerifiedPlanRuntime result" where
  "fromEnvelope H collate env =
     (if en_kind env \<noteq> ''verified-plan-runtime'' \<or> en_envelopeVersion env \<noteq> 1
      then js_fail ''verified plan runtime envelope is invalid.''
      else bind_result (plan_sha256 ''envelope.payloadDigest'' (en_payloadDigest env)) (\<lambda>d.
        if d \<noteq> digestPlan H (runtime_state_json H (en_payload env))
        then js_fail ''verified plan runtime envelope payload digest mismatch.''
        else fromState H collate (en_payload env)))"

section \<open>Operations\<close>

definition bindBeliefs ::
  "VerifiedPlanRuntime \<Rightarrow> BeliefView list \<Rightarrow> int \<Rightarrow> (VerifiedPlanRuntime \<times> BeliefBindingResult) result" where
  "bindBeliefs rt beliefs now =
     (if list_ex (\<lambda>s. ns_status s = NsRunning) (vp_states rt)
      then js_fail ''belief rebinding is forbidden while an execution node is running.''
      else bind_result (bindPlanToBeliefs (vp_graph rt) (vp_states rt) beliefs now) (\<lambda>r.
        Inr (rt\<lparr>vp_states := bb_states r\<rparr>, r)))"

definition node_of :: "VerifiedPlanRuntime \<Rightarrow> string \<Rightarrow> PlanNode result" where
  "node_of rt i = (case find_node (pg_nodes (vp_graph rt)) i of None \<Rightarrow> js_fail ''unknown plan node'' | Some n \<Rightarrow> Inr n)"

definition stateFor :: "VerifiedPlanRuntime \<Rightarrow> string \<Rightarrow> PlanNodeState result" where
  "stateFor rt i = (case find_state (vp_states rt) i of None \<Rightarrow> js_fail ''missing plan node state'' | Some s \<Rightarrow> Inr s)"

definition replaceState :: "VerifiedPlanRuntime \<Rightarrow> PlanNodeState \<Rightarrow> VerifiedPlanRuntime" where
  "replaceState rt next = rt\<lparr>vp_states := replace_by ns_nodeId next (vp_states rt)\<rparr>"

definition startNode :: "VerifiedPlanRuntime \<Rightarrow> string \<Rightarrow> int \<Rightarrow> (VerifiedPlanRuntime \<times> PlanNodeState) result" where
  "startNode rt nodeId now =
     bind_result (node_of rt nodeId) (\<lambda>n.
     bind_result (stateFor rt nodeId) (\<lambda>s.
     if ns_status s \<noteq> NsReady then js_fail ''node is not ready''
     else if ns_attempts s \<ge> pn_maxAttempts n then js_fail ''node attempt budget exhausted''
     else let next = s\<lparr>ns_status := NsRunning, ns_attempts := ns_attempts s + 1, ns_lastReason := Undefined,
            ns_lastExecutionDigest := Undefined, ns_verificationReceiptDigest := Undefined,
            ns_verifiedNodeDigest := Undefined, ns_lastUpdatedAt := now\<rparr>
       in Inr (replaceState rt next, next)))"

definition uniqueStrings :: "string \<Rightarrow> string list \<Rightarrow> string list result" where
  "uniqueStrings l xs = (if length xs > 10000 then js_fail (l @ '' list is invalid.'') else unique_bounded 512 l xs)"

definition normalizeObservation :: "ExecutionObservation \<Rightarrow> ExecutionObservation result" where
  "normalizeObservation ob =
     bind_result (uniqueStrings ''changedFactKey'' (eo_changedFactKeys ob)) (\<lambda>c.
     bind_result (uniqueStrings ''supportedFactKey'' (eo_supportedFactKeys ob)) (\<lambda>s.
     bind_result (uniqueStrings ''contradictedFactKey'' (eo_contradictedFactKeys ob)) (\<lambda>k.
     bind_result (case eo_evidenceDigests ob of None \<Rightarrow> Inr None
       | Some ev \<Rightarrow> bind_result (uniqueStrings ''evidenceDigest'' ev) (\<lambda>us. map_sum id Some (map_throw (plan_sha256 ''evidenceDigest'') us))) (\<lambda>ev.
       Inr \<lparr>eo_changedFactKeys = c, eo_supportedFactKeys = s, eo_contradictedFactKeys = k, eo_executionOk = eo_executionOk ob,
            eo_sideEffectState = eo_sideEffectState ob, eo_evidenceDigests = ev\<rparr>))))"

definition execution_digest :: "Hashing \<Rightarrow> VerifiedPlanRuntime \<Rightarrow> string \<Rightarrow> int \<Rightarrow> ExecutionObservation \<Rightarrow> string" where
  "execution_digest H rt nodeId attempt ob = digestPlan H (JObj [(''goalDigest'', JStr (vp_goalDigest rt)),
     (''planDigest'', JStr (vp_planDigest rt)), (''nodeId'', JStr nodeId), (''attempt'', JNum (of_int attempt)),
     (''observation'', observation_json ob)])"

definition repair_state :: "PlanNodeState \<Rightarrow> string list \<Rightarrow> int \<Rightarrow> PlanNodeState \<Rightarrow> PlanNodeState" where
  "repair_state failed invalidated now s =
     (if ns_nodeId s = ns_nodeId failed then failed
      else if ns_nodeId s \<in> set invalidated \<and> ns_status s \<noteq> NsSucceeded
      then s\<lparr>ns_status := NsInvalidated, ns_lastReason := Value ''local-repair-invalidated'', ns_lastUpdatedAt := now\<rparr>
      else s)"

definition recordExecution ::
  "Hashing \<Rightarrow> VerifiedPlanRuntime \<Rightarrow> string \<Rightarrow> ExecutionObservation \<Rightarrow> int
    \<Rightarrow> (VerifiedPlanRuntime \<times> PlanNodeState \<times> string \<times> PlanRepairDecision option) result" where
  "recordExecution H rt nodeId observation now =
     bind_result (node_of rt nodeId) (\<lambda>n.
     bind_result (stateFor rt nodeId) (\<lambda>current.
     if ns_status current \<noteq> NsRunning then js_fail ''node must be RUNNING before execution outcome is recorded.''
     else bind_result (normalizeObservation observation) (\<lambda>ob.
     let digest = execution_digest H rt nodeId (ns_attempts current) ob; assessment = assessNodeOutcome n ob in
     if \<not> oa_accepted assessment then
       let failed = current\<lparr>ns_status := NsFailed, ns_lastExecutionDigest := Value digest, ns_verificationReceiptDigest := Undefined,
             ns_verifiedNodeDigest := Undefined, ns_lastReason := Value (oa_reason assessment), ns_lastUpdatedAt := now\<rparr>;
           rt' = replaceState rt failed
       in bind_result (planLocalRepair (vp_graph rt') (vp_states rt') nodeId (oa_reason assessment)) (\<lambda>repair.
         Inr (rt'\<lparr>vp_states := map (repair_state failed (rd_invalidatedNodeIds repair) now) (vp_states rt')\<rparr>, failed, digest, Some repair))
     else
       let next = current\<lparr>ns_lastExecutionDigest := Value digest,
             ns_status := (if oa_requiresVerification assessment then NsBlocked else NsSucceeded),
             ns_lastReason := Value (oa_reason assessment), ns_lastUpdatedAt := now\<rparr>
       in Inr (replaceState rt next, next, digest, None))))"

definition markVerifiedComplete ::
  "Hashing \<Rightarrow> VerifiedPlanRuntime \<Rightarrow> string \<Rightarrow> VerificationReceiptRef \<Rightarrow> int \<Rightarrow> (VerifiedPlanRuntime \<times> PlanNodeState) result" where
  "markVerifiedComplete H rt nodeId receipt now =
     bind_result (node_of rt nodeId) (\<lambda>n.
     bind_result (stateFor rt nodeId) (\<lambda>s.
     if ns_status s \<noteq> NsBlocked \<and> ns_status s \<noteq> NsRunning then js_fail ''node is not awaiting verification.''
     else if pn_verificationFactKeys n = [] then js_fail ''node does not require independent verification.''
     else case truthy (prop_value (ns_lastExecutionDigest s)) of None \<Rightarrow> js_fail ''node has no exact execution lineage to verify.''
     | Some x \<Rightarrow>
       bind_result (validateCompletionReceipt receipt (completion_lineage rt (pg_version (vp_graph rt)) nodeId (ns_attempts s) x)) (\<lambda>r.
       let existing = find (\<lambda>q. vr_digest q = vr_digest r) (vp_receipts rt) in
       if (case existing of None \<Rightarrow> False
           | Some q \<Rightarrow> canonical (h_num H) (receipt_json H q) \<noteq> canonical (h_num H) (receipt_json H r))
       then js_fail ''verification receipt digest collision across distinct lineages.''
       else let rt' = (if existing = None then rt\<lparr>vp_receipts := vp_receipts rt @ [r]\<rparr> else rt);
                next = s\<lparr>ns_status := NsSucceeded, ns_verificationReceiptDigest := Value (vr_digest r),
                  ns_verifiedNodeDigest := Value (node_digest H n),
                  ns_lastReason := Value ''independent-verification-receipt-accepted'', ns_lastUpdatedAt := now\<rparr>
            in Inr (replaceState rt' next, next))))"

definition revise ::
  "Hashing \<Rightarrow> (string \<Rightarrow> string) \<Rightarrow> VerifiedPlanRuntime \<Rightarrow> PlanGraph \<Rightarrow> int \<Rightarrow> (VerifiedPlanRuntime \<times> PlanRevisionResult) result" where
  "revise H collate rt nextGraph now =
     bind_result (revisePlan H collate (vp_goal rt) (vp_graph rt) (vp_states rt) nextGraph now) (\<lambda>revision.
     let digests = List.map_filter (\<lambda>s. if ns_status s = NsSucceeded then truthy (prop_value (ns_verificationReceiptDigest s)) else None)
           (rv_states revision);
         state = \<lparr>rs_version = 3, rs_goal = vp_goal rt, rs_graph = rv_graph revision, rs_goalDigest = vp_goalDigest rt,
           rs_planDigest = digestPlan H (graph_json (rv_graph revision)), rs_nodeStates = rv_states revision, rs_decisions = [],
           rs_verificationReceipts = filter (\<lambda>r. vr_digest r \<in> set digests) (vp_receipts rt),
           rs_revisionProofs = vp_revisionProofs rt @ [rv_proof revision]\<rparr>
     in bind_result (restoreRuntime H collate (vp_goal rt) (rv_graph revision) state) (\<lambda>rt'. Inr (rt', revision)))"

definition appendDecision :: "Hashing \<Rightarrow> VerifiedPlanRuntime \<Rightarrow> PlanDecisionLineage \<Rightarrow> VerifiedPlanRuntime result" where
  "appendDecision H rt decision =
     bind_result (validateDecisionLineage H decision) (\<lambda>d.
     if foreign_decision rt (dl_body d) then js_fail ''decision lineage is bound to a different plan.''
     else if find_node (pg_nodes (vp_graph rt)) (dl_nodeId (dl_body d)) = None then js_fail ''decision lineage references unknown node.''
     else if list_ex (\<lambda>e. dl_digest e = dl_digest d) (vp_decisions rt) then Inr rt
     else let ds = vp_decisions rt @ [d] in
       Inr (rt\<lparr>vp_decisions := (if length ds > 100000 then drop (length ds - 100000) ds else ds)\<rparr>))"

definition exportState :: "VerifiedPlanRuntime \<Rightarrow> VerifiedPlanRuntimeState" where
  "exportState rt = \<lparr>rs_version = 3, rs_goal = vp_goal rt, rs_graph = vp_graph rt, rs_goalDigest = vp_goalDigest rt,
     rs_planDigest = vp_planDigest rt, rs_nodeStates = vp_states rt, rs_decisions = vp_decisions rt,
     rs_verificationReceipts = vp_receipts rt, rs_revisionProofs = vp_revisionProofs rt\<rparr>"

definition exportEnvelope :: "Hashing \<Rightarrow> VerifiedPlanRuntime \<Rightarrow> VerifiedPlanRuntimeEnvelope" where
  "exportEnvelope H rt = \<lparr>en_kind = ''verified-plan-runtime'', en_envelopeVersion = 1, en_payload = exportState rt,
     en_payloadDigest = digestPlan H (runtime_state_json H (exportState rt))\<rparr>"

definition stateDigest :: "Hashing \<Rightarrow> VerifiedPlanRuntime \<Rightarrow> string" where
  "stateDigest H rt = digestPlan H (runtime_state_json H (exportState rt))"

text \<open>The methods that change a runtime, as one step function.\<close>

datatype plan_op =
    BindBeliefs "BeliefView list" int
  | StartNode string int
  | RecordExecution string ExecutionObservation int
  | MarkVerified string VerificationReceiptRef int
  | Revise PlanGraph int
  | AppendDecision PlanDecisionLineage

primrec plan_step :: "Hashing \<Rightarrow> (string \<Rightarrow> string) \<Rightarrow> VerifiedPlanRuntime \<Rightarrow> plan_op \<Rightarrow> VerifiedPlanRuntime result" where
  "plan_step H collate rt (BindBeliefs bs now) = map_sum id fst (bindBeliefs rt bs now)"
| "plan_step H collate rt (StartNode i now) = map_sum id fst (startNode rt i now)"
| "plan_step H collate rt (RecordExecution i ob now) = map_sum id fst (recordExecution H rt i ob now)"
| "plan_step H collate rt (MarkVerified i r now) = map_sum id fst (markVerifiedComplete H rt i r now)"
| "plan_step H collate rt (Revise g now) = map_sum id fst (revise H collate rt g now)"
| "plan_step H collate rt (AppendDecision d) = appendDecision H rt d"

section \<open>Validated graphs are stable\<close>

declare bind_result_Inr_left [simp]

lemma when_truthy_idem:
  assumes "when_truthy f v = Inr w" "\<And>x y. f x = Inr y \<Longrightarrow> f y = Inr y" "\<And>x y. f x = Inr y \<Longrightarrow> y \<noteq> []"
  shows "when_truthy f w = Inr w"
proof (cases "truthy v")
  case None
  with assms(1) show ?thesis by (simp add: when_truthy_def truthy_def)
next
  case (Some x)
  with assms(1) obtain y where "f x = Inr y" "w = Some y" by (cases "f x") (auto simp: when_truthy_def)
  with assms(2,3) [of x y] show ?thesis by (simp add: when_truthy_def truthy_def)
qed

lemma plan_bounded_idem: "plan_bounded n l v = Inr w \<Longrightarrow> plan_bounded n l w = Inr w" "plan_bounded n l v = Inr w \<Longrightarrow> w \<noteq> []"
  by (auto simp: plan_checks_Inr)

lemma plan_sha256_idem: "plan_sha256 l v = Inr w \<Longrightarrow> plan_sha256 l w = Inr w" "plan_sha256 l v = Inr w \<Longrightarrow> w \<noteq> []"
  by (auto simp: plan_checks_Inr hex64_lower) (auto simp: hex64_text_def to_lower_def)

lemma plan_number_idem:
  "plan_finite lo hi l v = Inr w \<Longrightarrow> plan_finite lo hi l w = Inr w" "plan_unit l v = Inr w \<Longrightarrow> plan_unit l w = Inr w"
  "plan_integer i j l k = Inr m \<Longrightarrow> plan_integer i j l m = Inr m"
  by (auto simp: plan_finite_def plan_unit_def plan_integer_def split: if_splits)

lemma map_throw_idem: "map_throw f xs = Inr ys \<Longrightarrow> (\<And>x y. f x = Inr y \<Longrightarrow> f y = Inr y) \<Longrightarrow> map_throw f ys = Inr ys"
  by (induction xs arbitrary: ys) (auto split: sum.splits)

lemma map_throw_bounded: "map_throw (plan_bounded n l) xs = Inr ys \<longleftrightarrow> ys = xs \<and> (\<forall>x\<in>set xs. x \<noteq> [] \<and> length x \<le> n)"
proof (induction xs arbitrary: ys)
  case (Cons x xs)
  show ?case
  proof (cases "x \<noteq> [] \<and> length x \<le> n")
    case True
    then have "plan_bounded n l x = Inr x" by (simp add: plan_checks_Inr)
    with True Cons.IH show ?thesis by (cases "map_throw (plan_bounded n l) xs") auto
  next
    case False
    then show ?thesis by (auto simp: plan_bounded_def js_fail_def)
  qed
qed auto

lemma unique_sorted_idem: "unique_sorted (unique_sorted xs) = unique_sorted xs"
  by (simp add: unique_sorted_def sorted_sort_id distinct_remdups_id)

lemma unique_bounded_idem: "unique_bounded n l xs = Inr ys \<Longrightarrow> unique_bounded n l ys = Inr ys"
proof -
  assume u: "unique_bounded n l xs = Inr ys"
  then obtain zs where zs: "map_throw (plan_bounded n l) xs = Inr zs" "ys = unique_sorted zs"
    by (cases "map_throw (plan_bounded n l) xs") (auto simp: unique_bounded_def)
  then have "map_throw (plan_bounded n l) ys = Inr ys" by (auto simp: map_throw_bounded)
  then show ?thesis using zs(2) by (simp add: unique_bounded_def unique_sorted_idem)
qed

lemma normalizePrecondition_idem: "normalizePrecondition p = Inr q \<Longrightarrow> normalizePrecondition q = Inr q"
proof -
  assume "normalizePrecondition p = Inr q"
  then obtain k d c where *: "plan_bounded 512 ''precondition.factKey'' (pc_factKey p) = Inr k"
    "when_truthy (plan_sha256 ''precondition.expectedValueDigest'') (pc_expectedValueDigest p) = Inr d"
    "(case pc_minimumConfidence p of None \<Rightarrow> Inr None
                  | Some c \<Rightarrow> map_sum id Some (plan_unit ''precondition.minimumConfidence'' c)) = Inr c"
    "q = \<lparr>pc_factKey = k, pc_expectedValueDigest = d, pc_minimumConfidence = c, pc_allowStale = pc_allowStale p\<rparr>"
    by (auto simp: normalizePrecondition_def bind_result_Inr)
  have "(case c of None \<Rightarrow> Inr None | Some c \<Rightarrow> map_sum id Some (plan_unit ''precondition.minimumConfidence'' c)) = Inr c"
  proof (cases "pc_minimumConfidence p")
    case (Some m)
    with *(3) obtain w where "plan_unit ''precondition.minimumConfidence'' m = Inr w" "c = Some w"
      by (cases "plan_unit ''precondition.minimumConfidence'' m") auto
    with plan_number_idem(2) show ?thesis by fastforce
  qed (use *(3) in auto)
  then show ?thesis
    using plan_bounded_idem(1) [OF *(1)] when_truthy_idem [OF *(2) plan_sha256_idem]
    by (simp add: normalizePrecondition_def *(4))
qed

lemma normalizePreconditions_idem: "normalizePreconditions ps = Inr qs \<Longrightarrow> normalizePreconditions qs = Inr qs"
  by (auto simp: normalizePreconditions_def bind_result_Inr map_throw_idem [OF _ normalizePrecondition_idem] split: option.splits)

lemma normalizeNode_idem: "normalizeNode n = Inr m \<Longrightarrow> normalizeNode m = Inr m"
proof -
  assume "normalizeNode n = Inr m"
  then have "plan_bounded 256 ''node.id'' (pn_id n) = Inr (pn_id m)" "plan_bounded 2048 ''node.title'' (pn_title n) = Inr (pn_title m)"
    "when_truthy (plan_bounded 256 ''node.parentId'') (pn_parentId n) = Inr (pn_parentId m)"
    "unique_bounded 256 ''node.dependsOn'' (pn_dependsOn n) = Inr (pn_dependsOn m)"
    "when_truthy (plan_bounded 256 ''node.choiceGroup'') (pn_choiceGroup n) = Inr (pn_choiceGroup m)"
    "normalizePreconditions (pn_preconditions n) = Inr (pn_preconditions m)"
    "unique_bounded 512 ''node.expectedEffect'' (pn_expectedEffects n) = Inr (pn_expectedEffects m)"
    "unique_bounded 512 ''node.verificationFactKey'' (pn_verificationFactKeys n) = Inr (pn_verificationFactKeys m)"
    "unique_bounded 512 ''node.allowedCapability'' (pn_allowedCapabilities n) = Inr (pn_allowedCapabilities m)"
    "plan_finite 0 1000000000000 ''node.expectedCost'' (pn_expectedCost n) = Inr (pn_expectedCost m)"
    "plan_unit ''node.risk'' (pn_risk n) = Inr (pn_risk m)"
    "plan_integer 1 100 ''node.maxAttempts'' (pn_maxAttempts n) = Inr (pn_maxAttempts m)"
    unfolding normalizeNode_def bind_result_Inr by auto
  note this(1,2) [THEN plan_bounded_idem(1)] this(3,5) [THEN when_truthy_idem, OF plan_bounded_idem]
    this(4,7,8,9) [THEN unique_bounded_idem] this(6) [THEN normalizePreconditions_idem]
    this(10) [THEN plan_number_idem(1)] this(11) [THEN plan_number_idem(2)] this(12) [THEN plan_number_idem(3)]
  then show ?thesis by (simp add: normalizeNode_def)
qed

lemma validatePlanGraph_idem:
  assumes "validatePlanGraph goal graph = Inr g"
  shows "validatePlanGraph goal g = Inr g"
proof -
  note D = validatePlanGraph_InrD [OF assms]
  from assms obtain nodes where safe: "is_safe_integer (pg_version graph)"
    and roots: "unique_bounded 256 ''rootNodeId'' (pg_rootNodeIds graph) = Inr (pg_rootNodeIds g)"
    and i: "plan_bounded 256 ''plan.planId'' (pg_planId graph) = Inr (pg_planId g)"
    unfolding validatePlanGraph_def
    by (auto simp only: if_fail_Inr bind_result_Inr not_less de_Morgan_disj not_not split: option.split_asm)
      (auto simp: bind_result_Inr)
  have "map_throw normalizeNode (pg_nodes g) = Inr (pg_nodes g)" by (rule map_throw_idem [OF D(6) normalizeNode_idem])
  then show ?thesis
    using D safe unique_bounded_idem [OF roots] plan_bounded_idem(1) [OF i]
    by (auto simp: validatePlanGraph_def not_less)
qed

lemma validated_graph:
  assumes "validatePlanGraph goal graph = Inr g"
  shows "acyclic (prereq_rel (pg_nodes g))" and "n \<in> set (pg_nodes g) \<Longrightarrow> set (prerequisites n) \<subseteq> set (node_ids (pg_nodes g))"
    and "n \<in> set (pg_nodes g) \<Longrightarrow> 1 \<le> pn_maxAttempts n"
proof -
  note S = validatePlanGraph_InrD(5) [OF assms]
  show "acyclic (prereq_rel (pg_nodes g))"
    using assertAcyclic_iff [of "pg_nodes g"] structure_closed [OF S] check_structure_None(4) [OF S] by blast
  show "n \<in> set (pg_nodes g) \<Longrightarrow> set (prerequisites n) \<subseteq> set (node_ids (pg_nodes g))"
    using check_links_None [OF check_structure_None(3) [OF S]] by (cases "pn_parentId n") (auto simp: prerequisites_def)
  show "n \<in> set (pg_nodes g) \<Longrightarrow> 1 \<le> pn_maxAttempts n"
    using map_throw_set [OF validatePlanGraph_InrD(6) [OF assms]] normalizeNode_InrD(1) by blast
qed

section \<open>The invariant\<close>

definition state_ok :: "PlanNodeState list \<Rightarrow> PlanNode \<Rightarrow> PlanNodeState \<Rightarrow> bool" where
  "state_ok states n s \<longleftrightarrow>
     (ns_status s \<in> {NsReady, NsRunning, NsSucceeded} \<or> awaits_verification s \<longrightarrow> deps_succeeded states n)
     \<and> (awaits_verification s \<longrightarrow> pn_verificationFactKeys n \<noteq> [])
     \<and> 0 \<le> ns_attempts s \<and> ns_attempts s \<le> 1
     \<and> (ns_status s \<in> {NsPending, NsReady} \<or> ns_status s = NsBlocked \<and> \<not> awaits_verification s \<longrightarrow> ns_attempts s = 0)
     \<and> (ns_status s \<in> {NsPending, NsReady} \<longrightarrow> truthy (prop_value (ns_lastExecutionDigest s)) = None)"

text \<open>A verified node: a receipt for exactly its identity, attempt and execution is on file.\<close>

definition receipt_backs :: "Hashing \<Rightarrow> VerifiedPlanRuntime \<Rightarrow> PlanNode \<Rightarrow> PlanNodeState \<Rightarrow> bool" where
  "receipt_backs H rt n s \<longleftrightarrow> prop_value (ns_verifiedNodeDigest s) = Some (node_digest H n)
     \<and> (\<exists>r\<in>set (vp_receipts rt). prop_value (ns_verificationReceiptDigest s) = Some (vr_digest r)
         \<and> vr_nodeId r = pn_id n \<and> vr_attempt r = ns_attempts s
         \<and> prop_value (ns_lastExecutionDigest s) = Some (to_lower (vr_executionDigest r))
         \<and> vr_goalId r = cg_id (vp_goal rt) \<and> vr_planId r = pg_planId (vp_graph rt)
         \<and> vr_planVersion r \<le> pg_version (vp_graph rt))"

definition plan_inv :: "Hashing \<Rightarrow> VerifiedPlanRuntime \<Rightarrow> bool" where
  "plan_inv H rt \<longleftrightarrow>
     distinct (node_ids (pg_nodes (vp_graph rt))) \<and> acyclic (prereq_rel (pg_nodes (vp_graph rt)))
     \<and> (\<forall>n\<in>set (pg_nodes (vp_graph rt)). set (prerequisites n) \<subseteq> set (node_ids (pg_nodes (vp_graph rt))) \<and> 1 \<le> pn_maxAttempts n)
     \<and> distinct (map ns_nodeId (vp_states rt))
     \<and> set (map ns_nodeId (vp_states rt)) = set (node_ids (pg_nodes (vp_graph rt)))
     \<and> (\<forall>n\<in>set (pg_nodes (vp_graph rt)). \<forall>s\<in>set (vp_states rt). ns_nodeId s = pn_id n \<longrightarrow>
          state_ok (vp_states rt) n s
          \<and> (ns_status s = NsSucceeded \<and> pn_verificationFactKeys n \<noteq> [] \<longrightarrow> receipt_backs H rt n s))"

lemma plan_invD:
  assumes "plan_inv H rt"
  shows "distinct (node_ids (pg_nodes (vp_graph rt)))" and "acyclic (prereq_rel (pg_nodes (vp_graph rt)))"
    and "n \<in> set (pg_nodes (vp_graph rt)) \<Longrightarrow> set (prerequisites n) \<subseteq> set (node_ids (pg_nodes (vp_graph rt)))"
    and "distinct (map ns_nodeId (vp_states rt))"
    and "set (map ns_nodeId (vp_states rt)) = set (node_ids (pg_nodes (vp_graph rt)))"
    and "n \<in> set (pg_nodes (vp_graph rt)) \<Longrightarrow> s \<in> set (vp_states rt) \<Longrightarrow> ns_nodeId s = pn_id n \<Longrightarrow> state_ok (vp_states rt) n s"
    and "n \<in> set (pg_nodes (vp_graph rt)) \<Longrightarrow> s \<in> set (vp_states rt) \<Longrightarrow> ns_nodeId s = pn_id n \<Longrightarrow> ns_status s = NsSucceeded
      \<Longrightarrow> pn_verificationFactKeys n \<noteq> [] \<Longrightarrow> receipt_backs H rt n s"
    and "n \<in> set (pg_nodes (vp_graph rt)) \<Longrightarrow> 1 \<le> pn_maxAttempts n"
  using assms unfolding plan_inv_def by blast+

lemma state_okD:
  assumes "state_ok states n s"
  shows "ns_status s \<in> {NsReady, NsRunning, NsSucceeded} \<or> awaits_verification s \<Longrightarrow> deps_succeeded states n"
    and "awaits_verification s \<Longrightarrow> pn_verificationFactKeys n \<noteq> []" and "0 \<le> ns_attempts s" and "ns_attempts s \<le> 1"
    and "ns_status s \<in> {NsPending, NsReady} \<or> ns_status s = NsBlocked \<and> \<not> awaits_verification s \<Longrightarrow> ns_attempts s = 0"
    and "ns_status s \<in> {NsPending, NsReady} \<Longrightarrow> truthy (prop_value (ns_lastExecutionDigest s)) = None"
  using assms unfolding state_ok_def by blast+

lemma deps_succeeded_map_mono:
  assumes "\<And>s. ns_nodeId (f s) = ns_nodeId s" "\<And>s. s \<in> set states \<Longrightarrow> ns_status s = NsSucceeded \<Longrightarrow> f s = s" "deps_succeeded states n"
  shows "deps_succeeded (map f states) n"
  unfolding deps_succeeded_def list_all_iff
proof
  fix d assume "d \<in> set (pn_dependsOn n)"
  with assms(3) obtain s where s: "find_state states d = Some s" "ns_status s = NsSucceeded"
    by (auto simp: deps_succeeded_def list_all_iff)
  then have "f s = s" using assms(2) find_state_SomeD by blast
  with s show "map_option ns_status (find_state (map f states) d) = Some NsSucceeded"
    by (simp add: find_state_map [OF assms(1)])
qed

lemma state_ok_mono:
  "state_ok states n s \<Longrightarrow> (deps_succeeded states n \<Longrightarrow> deps_succeeded states' n) \<Longrightarrow> state_ok states' n s"
  unfolding state_ok_def by blast

text \<open>How every method but \<open>revise\<close> changes a runtime: a map over the states that leaves succeeded ones alone.\<close>

lemma plan_inv_map:
  assumes inv: "plan_inv H rt"
    and ids: "\<And>s. ns_nodeId (f s) = ns_nodeId s"
    and fixed: "\<And>s. s \<in> set (vp_states rt) \<Longrightarrow> ns_status s = NsSucceeded \<Longrightarrow> f s = s"
    and rt': "vp_states rt' = map f (vp_states rt)" "vp_graph rt' = vp_graph rt" "vp_goal rt' = vp_goal rt"
      "set (vp_receipts rt) \<subseteq> set (vp_receipts rt')"
    and new: "\<And>n s. n \<in> set (pg_nodes (vp_graph rt)) \<Longrightarrow> s \<in> set (vp_states rt) \<Longrightarrow> ns_nodeId s = pn_id n
      \<Longrightarrow> ns_status s \<noteq> NsSucceeded \<Longrightarrow> f s \<noteq> s \<Longrightarrow> state_ok (vp_states rt') n (f s)
        \<and> (ns_status (f s) = NsSucceeded \<longrightarrow> pn_verificationFactKeys n \<noteq> [] \<longrightarrow> receipt_backs H rt' n (f s))"
  shows "plan_inv H rt'"
proof -
  note I = plan_invD [OF inv]
  have mono: "deps_succeeded (vp_states rt) n \<Longrightarrow> deps_succeeded (vp_states rt') n" for n
    unfolding rt'(1) by (rule deps_succeeded_map_mono [OF ids fixed])
  have step: "state_ok (vp_states rt') n (f s)
      \<and> (ns_status (f s) = NsSucceeded \<and> pn_verificationFactKeys n \<noteq> [] \<longrightarrow> receipt_backs H rt' n (f s))"
    if n: "n \<in> set (pg_nodes (vp_graph rt))" "s \<in> set (vp_states rt)" "ns_nodeId s = pn_id n" for n s
  proof (cases "f s = s")
    case True
    have "receipt_backs H rt n s \<Longrightarrow> receipt_backs H rt' n s" using rt' unfolding receipt_backs_def by auto
    with True I(6,7) [OF n] mono show ?thesis by (auto intro: state_ok_mono)
  next
    case False
    with new [OF n] fixed [OF n(2)] show ?thesis by blast
  qed
  have idmap: "map ns_nodeId (map f (vp_states rt)) = map ns_nodeId (vp_states rt)" using ids by simp
  show ?thesis
    unfolding plan_inv_def rt'(2)
  proof (intro conjI ballI impI)
    show "distinct (map ns_nodeId (vp_states rt'))" "set (map ns_nodeId (vp_states rt')) = set (node_ids (pg_nodes (vp_graph rt)))"
      unfolding rt'(1) idmap using I(4,5) .
  next
    fix n s assume "n \<in> set (pg_nodes (vp_graph rt))" "s \<in> set (vp_states rt')" "ns_nodeId s = pn_id n"
    then show "state_ok (vp_states rt') n s" using step ids unfolding rt'(1) by auto
  next
    fix n s assume "n \<in> set (pg_nodes (vp_graph rt))" "s \<in> set (vp_states rt')" "ns_nodeId s = pn_id n"
      "ns_status s = NsSucceeded \<and> pn_verificationFactKeys n \<noteq> []"
    then show "receipt_backs H rt' n s" using step ids unfolding rt'(1) by auto
  qed (use I(1-3,8) in auto)
qed

section \<open>Preservation\<close>

lemma same_node: "distinct (node_ids nodes) \<Longrightarrow> m \<in> set nodes \<Longrightarrow> n \<in> set nodes \<Longrightarrow> pn_id m = pn_id n \<Longrightarrow> m = n"
  by (auto simp: node_ids_def distinct_map dest: inj_onD)

lemma same_state:
  "distinct (map ns_nodeId states) \<Longrightarrow> s \<in> set states \<Longrightarrow> t \<in> set states \<Longrightarrow> ns_nodeId s = ns_nodeId t \<Longrightarrow> s = t"
  by (auto simp: distinct_map dest: inj_onD)

lemma bindBeliefs_inv:
  assumes inv: "plan_inv H rt" and bind: "bindBeliefs rt beliefs now = Inr (rt', r)"
  shows "plan_inv H rt'"
proof -
  note I = plan_invD [OF inv]
  from bind have b: "bindPlanToBeliefs (vp_graph rt) (vp_states rt) beliefs now = Inr r" and rt': "rt' = rt\<lparr>vp_states := bb_states r\<rparr>"
    by (auto simp: bindBeliefs_def bind_result_Inr split: if_splits)
  let ?inv = "invalidate_state now (bb_invalidatedNodeIds r)" and ?ref = "refresh_state now (bb_readyNodeIds r)"
  let ?f = "\<lambda>s. ?ref (?inv s)"
  obtain bs where bs: "bb_states r = map ?f (vp_states rt)" "readyNodeIds (vp_graph rt) (map ?inv (vp_states rt)) bs = Inr (bb_readyNodeIds r)"
    using b by (rule bindPlanToBeliefs_InrD)
  have deps: "deps_succeeded (map ?f (vp_states rt)) n = deps_succeeded (map ?inv (vp_states rt)) n" for n
    using deps_succeeded_map [of ?ref "map ?inv (vp_states rt)" n] by (simp add: comp_def)
  show ?thesis
  proof (rule plan_inv_map [OF inv, of ?f])
    fix n s assume n: "n \<in> set (pg_nodes (vp_graph rt))" "s \<in> set (vp_states rt)" "ns_nodeId s = pn_id n"
      and st: "ns_status s \<noteq> NsSucceeded" and ch: "?f s \<noteq> s"
    note S = state_okD [OF I(6) [OF n]]
    have wait: "\<not> awaits_verification s"
    proof
      assume w: "awaits_verification s"
      have "\<forall>m\<in>set (pg_nodes (vp_graph rt)). pn_id m = ns_nodeId s \<longrightarrow> pn_verificationFactKeys m \<noteq> []"
        using S(2) [OF w] same_node [OF I(1) _ n(1)] n(3) by auto
      from awaiting_not_ready [OF bs(2) n(2) w this] w have "?f s = s" by (intro bind_settled_unchanged) simp
      with ch show False by simp
    qed
    have run: "ns_status s \<noteq> NsRunning" using bind_settled_unchanged [of s] ch by auto
    have ready: "deps_succeeded (map ?f (vp_states rt)) n \<and> ns_status s \<in> {NsPending, NsReady, NsBlocked}"
      if "ns_status (?f s) = NsReady"
    proof -
      from that have "pn_id n \<in> set (bb_readyNodeIds r)" using refresh_ready_iff n(3) by fastforce
      then obtain m where "m \<in> set (pg_nodes (vp_graph rt))" "pn_id m = pn_id n" "node_ready (map ?inv (vp_states rt)) bs m"
        using readyNodeIds_InrD(2) [OF bs(2)] by auto
      with same_node [OF I(1) _ n(1)] have m: "node_ready (map ?inv (vp_states rt)) bs n" by blast
      then obtain t where t: "find_state (map ?inv (vp_states rt)) (pn_id n) = Some t" "ns_status t \<in> {NsPending, NsReady, NsBlocked}"
        "deps_succeeded (map ?inv (vp_states rt)) n" by (rule node_readyD)
      have "find_state (vp_states rt) (pn_id n) = Some s" using find_state_iff [OF I(4)] n by simp
      with t(1) have "t = ?inv s" by (simp add: find_state_map)
      with t(2) have "ns_status s \<in> {NsPending, NsReady, NsBlocked}" by (auto simp: invalidate_state_def split: if_splits)
      with t(3) deps show ?thesis by simp
    qed
    have "state_ok (vp_states rt') n (?f s)"
      using S wait run st ch ready unfolding rt' state_ok_def
      by (auto simp: bs(1) refresh_state_def invalidate_state_def awaits_verification_def split: if_splits)
    then show "state_ok (vp_states rt') n (?f s)
        \<and> (ns_status (?f s) = NsSucceeded \<longrightarrow> pn_verificationFactKeys n \<noteq> [] \<longrightarrow> receipt_backs H rt' n (?f s))"
      using st by simp
  qed (auto simp: rt' bs(1) intro: bind_settled_unchanged)
qed

lemma found_node: "node_of rt i = Inr n \<longleftrightarrow> find_node (pg_nodes (vp_graph rt)) i = Some n"
  by (auto simp: node_of_def split: option.splits)

lemma found_state: "stateFor rt i = Inr s \<longleftrightarrow> find_state (vp_states rt) i = Some s"
  by (auto simp: stateFor_def split: option.splits)

text \<open>Replacing the state of one node that had not succeeded.\<close>

lemma replaceState_inv:
  assumes inv: "plan_inv H rt" and s: "s \<in> set (vp_states rt)" "ns_status s \<noteq> NsSucceeded" "ns_nodeId next = ns_nodeId s"
    and n: "n \<in> set (pg_nodes (vp_graph rt))" "pn_id n = ns_nodeId s"
    and grow: "vp_states rt0 = vp_states rt" "vp_graph rt0 = vp_graph rt" "vp_goal rt0 = vp_goal rt"
      "set (vp_receipts rt) \<subseteq> set (vp_receipts rt0)"
    and ok: "\<And>states. deps_succeeded (vp_states rt) n \<longrightarrow> deps_succeeded states n \<Longrightarrow> state_ok states n next"
    and backed: "ns_status next = NsSucceeded \<Longrightarrow> pn_verificationFactKeys n \<noteq> [] \<Longrightarrow> receipt_backs H rt0 n next"
  shows "plan_inv H (replaceState rt0 next)"
proof (rule plan_inv_map [OF inv, of "\<lambda>x. if ns_nodeId x = ns_nodeId next then next else x"])
  let ?f = "\<lambda>x. if ns_nodeId x = ns_nodeId next then next else x"
  note I = plan_invD [OF inv]
  have fixed: "?f t = t" if "t \<in> set (vp_states rt)" "ns_status t = NsSucceeded" for t
    using that s same_state [OF I(4)] by (auto split: if_splits)
  show "\<And>t. t \<in> set (vp_states rt) \<Longrightarrow> ns_status t = NsSucceeded \<Longrightarrow> ?f t = t" by (rule fixed)
  show states: "vp_states (replaceState rt0 next) = map ?f (vp_states rt)"
    by (simp add: replaceState_def replace_by_def grow)
  fix m t assume m: "m \<in> set (pg_nodes (vp_graph rt))" "t \<in> set (vp_states rt)" "ns_nodeId t = pn_id m" "?f t \<noteq> t"
  then have "?f t = next" "pn_id m = pn_id n" using s(3) n(2) by (auto split: if_splits)
  moreover then have "m = n" using same_node [OF I(1) m(1) n(1)] by simp
  moreover have "deps_succeeded (vp_states rt) n \<longrightarrow> deps_succeeded (map ?f (vp_states rt)) n"
    by (intro impI deps_succeeded_map_mono fixed) auto
  moreover have "receipt_backs H (replaceState rt0 next) n next = receipt_backs H rt0 n next"
    by (simp add: receipt_backs_def replaceState_def)
  ultimately show "state_ok (vp_states (replaceState rt0 next)) m (?f t)
      \<and> (ns_status (?f t) = NsSucceeded \<longrightarrow> pn_verificationFactKeys m \<noteq> [] \<longrightarrow> receipt_backs H (replaceState rt0 next) m (?f t))"
    using ok backed states by auto
qed (use grow in \<open>auto simp: replaceState_def\<close>)

lemma startNode_inv:
  assumes inv: "plan_inv H rt" and start: "startNode rt i now = Inr (rt', s')"
  shows "plan_inv H rt'"
proof -
  from start obtain n s where n: "find_node (pg_nodes (vp_graph rt)) i = Some n" and s: "find_state (vp_states rt) i = Some s"
    and st: "ns_status s = NsReady" and rt': "rt' = replaceState rt s'"
    and s': "s' = s\<lparr>ns_status := NsRunning, ns_attempts := ns_attempts s + 1, ns_lastReason := Undefined,
            ns_lastExecutionDigest := Undefined, ns_verificationReceiptDigest := Undefined,
            ns_verifiedNodeDigest := Undefined, ns_lastUpdatedAt := now\<rparr>"
    by (auto simp: startNode_def bind_result_Inr found_node found_state Let_def split: if_splits)
  have mem: "n \<in> set (pg_nodes (vp_graph rt))" "s \<in> set (vp_states rt)" "ns_nodeId s = pn_id n"
    using n s by (auto dest!: find_node_SomeD find_state_SomeD)
  note S = state_okD [OF plan_invD(6) [OF inv mem]]
  show ?thesis
    unfolding rt'
  proof (rule replaceState_inv [OF inv mem(2)])
    show "state_ok states n s'" if "deps_succeeded (vp_states rt) n \<longrightarrow> deps_succeeded states n" for states
      using S(1,5) that st unfolding s' state_ok_def by (auto simp: awaits_verification_def)
  qed (use mem st s' in auto)
qed

lemma digest_truthy: "hex_hashing H \<Longrightarrow> truthy (Some (digestPlan H v)) = Some (digestPlan H v)"
  using hex_digestPlan [of H v] by (auto simp: truthy_def hex64_text_def)

lemma repair_after_replace:
  "map (repair_state failed dead now) (replace_by ns_nodeId failed states) = map (repair_state failed dead now) states"
  by (auto simp: replace_by_def repair_state_def)

lemma recordExecution_cases:
  assumes "recordExecution H rt i observation now = Inr (rt', s', digest, repair)"
  obtains n s where "find_node (pg_nodes (vp_graph rt)) i = Some n" "find_state (vp_states rt) i = Some s" "ns_status s = NsRunning"
    "\<exists>ob. digest = execution_digest H rt i (ns_attempts s) ob"
    "(\<exists>dead reason. s' = s\<lparr>ns_status := NsFailed, ns_lastExecutionDigest := Value digest, ns_verificationReceiptDigest := Undefined,
             ns_verifiedNodeDigest := Undefined, ns_lastReason := Value reason, ns_lastUpdatedAt := now\<rparr>
        \<and> rt' = rt\<lparr>vp_states := map (repair_state s' dead now) (vp_states rt)\<rparr>)
     \<or> (\<exists>reason. s' = s\<lparr>ns_lastExecutionDigest := Value digest,
             ns_status := (if pn_verificationFactKeys n \<noteq> [] then NsBlocked else NsSucceeded),
             ns_lastReason := Value reason, ns_lastUpdatedAt := now\<rparr> \<and> rt' = replaceState rt s')"
proof -
  from assms obtain n s ob where n: "find_node (pg_nodes (vp_graph rt)) i = Some n" "find_state (vp_states rt) i = Some s" "ns_status s = NsRunning"
    and ob: "digest = execution_digest H rt i (ns_attempts s) ob"
    and out: "(\<not> oa_accepted (assessNodeOutcome n ob) \<and> (\<exists>dead. s' = s\<lparr>ns_status := NsFailed, ns_lastExecutionDigest := Value digest,
             ns_verificationReceiptDigest := Undefined, ns_verifiedNodeDigest := Undefined,
             ns_lastReason := Value (oa_reason (assessNodeOutcome n ob)), ns_lastUpdatedAt := now\<rparr>
          \<and> rt' = (replaceState rt s')\<lparr>vp_states := map (repair_state s' dead now) (vp_states (replaceState rt s'))\<rparr>))
      \<or> (oa_accepted (assessNodeOutcome n ob) \<and> s' = s\<lparr>ns_lastExecutionDigest := Value digest,
             ns_status := (if oa_requiresVerification (assessNodeOutcome n ob) then NsBlocked else NsSucceeded),
             ns_lastReason := Value (oa_reason (assessNodeOutcome n ob)), ns_lastUpdatedAt := now\<rparr> \<and> rt' = replaceState rt s')"
    by (auto simp: recordExecution_def bind_result_Inr found_node found_state Let_def split: if_split_asm)
  have "oa_requiresVerification (assessNodeOutcome n ob) \<longleftrightarrow> pn_verificationFactKeys n \<noteq> []"
    if "oa_accepted (assessNodeOutcome n ob)"
    using that by (auto simp: assessNodeOutcome_def rejected_def Let_def split: if_splits)
  note req = this
  have two: "(replaceState rt x)\<lparr>vp_states := map (repair_state x dead now) (vp_states (replaceState rt x))\<rparr>
      = rt\<lparr>vp_states := map (repair_state x dead now) (vp_states rt)\<rparr>" for dead x
    by (simp add: replaceState_def repair_after_replace)
  show ?thesis
  proof (rule that [OF n])
    show "\<exists>ob. digest = execution_digest H rt i (ns_attempts s) ob" using ob by blast
    from out show "(\<exists>dead reason. s' = s\<lparr>ns_status := NsFailed, ns_lastExecutionDigest := Value digest, ns_verificationReceiptDigest := Undefined,
             ns_verifiedNodeDigest := Undefined, ns_lastReason := Value reason, ns_lastUpdatedAt := now\<rparr>
        \<and> rt' = rt\<lparr>vp_states := map (repair_state s' dead now) (vp_states rt)\<rparr>)
     \<or> (\<exists>reason. s' = s\<lparr>ns_lastExecutionDigest := Value digest,
             ns_status := (if pn_verificationFactKeys n \<noteq> [] then NsBlocked else NsSucceeded),
             ns_lastReason := Value reason, ns_lastUpdatedAt := now\<rparr> \<and> rt' = replaceState rt s')"
    proof (elim disjE conjE exE)
      fix dead
      assume "s' = s\<lparr>ns_status := NsFailed, ns_lastExecutionDigest := Value digest, ns_verificationReceiptDigest := Undefined,
             ns_verifiedNodeDigest := Undefined, ns_lastReason := Value (oa_reason (assessNodeOutcome n ob)), ns_lastUpdatedAt := now\<rparr>"
        "rt' = (replaceState rt s')\<lparr>vp_states := map (repair_state s' dead now) (vp_states (replaceState rt s'))\<rparr>"
      then show ?thesis by (intro disjI1 exI [of _ dead] exI conjI) (simp_all only: two)
    next
      assume "oa_accepted (assessNodeOutcome n ob)" "s' = s\<lparr>ns_lastExecutionDigest := Value digest,
             ns_status := (if oa_requiresVerification (assessNodeOutcome n ob) then NsBlocked else NsSucceeded),
             ns_lastReason := Value (oa_reason (assessNodeOutcome n ob)), ns_lastUpdatedAt := now\<rparr>" "rt' = replaceState rt s'"
      then show ?thesis by (intro disjI2 exI conjI) (simp_all only: req)
    qed
  qed
qed

lemma recordExecution_inv:
  assumes inv: "plan_inv H rt" and hex: "hex_hashing H"
    and rec: "recordExecution H rt i observation now = Inr (rt', s', digest, repair)"
  shows "plan_inv H rt'"
  using rec
proof (rule recordExecution_cases)
  fix n s assume n: "find_node (pg_nodes (vp_graph rt)) i = Some n" and s: "find_state (vp_states rt) i = Some s"
    and run: "ns_status s = NsRunning" and dig: "\<exists>ob. digest = execution_digest H rt i (ns_attempts s) ob"
    and out: "(\<exists>dead reason. s' = s\<lparr>ns_status := NsFailed, ns_lastExecutionDigest := Value digest, ns_verificationReceiptDigest := Undefined,
             ns_verifiedNodeDigest := Undefined, ns_lastReason := Value reason, ns_lastUpdatedAt := now\<rparr>
        \<and> rt' = rt\<lparr>vp_states := map (repair_state s' dead now) (vp_states rt)\<rparr>)
     \<or> (\<exists>reason. s' = s\<lparr>ns_lastExecutionDigest := Value digest,
             ns_status := (if pn_verificationFactKeys n \<noteq> [] then NsBlocked else NsSucceeded),
             ns_lastReason := Value reason, ns_lastUpdatedAt := now\<rparr> \<and> rt' = replaceState rt s')"
  have mem: "n \<in> set (pg_nodes (vp_graph rt))" "s \<in> set (vp_states rt)" "ns_nodeId s = pn_id n"
    using n s by (auto dest!: find_node_SomeD find_state_SomeD)
  note I = plan_invD [OF inv]
  note S = state_okD [OF I(6) [OF mem]]
  from out show ?thesis
  proof (elim disjE exE conjE)
    fix dead reason
    assume s': "s' = s\<lparr>ns_status := NsFailed, ns_lastExecutionDigest := Value digest, ns_verificationReceiptDigest := Undefined,
             ns_verifiedNodeDigest := Undefined, ns_lastReason := Value reason, ns_lastUpdatedAt := now\<rparr>"
      and rt': "rt' = rt\<lparr>vp_states := map (repair_state s' dead now) (vp_states rt)\<rparr>"
    show ?thesis
    proof (rule plan_inv_map [OF inv, of "repair_state s' dead now"])
      show "repair_state s' dead now t = t" if "t \<in> set (vp_states rt)" "ns_status t = NsSucceeded" for t
        using that(2) run same_state [OF I(4) that(1) mem(2)] by (auto simp: repair_state_def s')
      fix m t assume m: "m \<in> set (pg_nodes (vp_graph rt))" "t \<in> set (vp_states rt)" "ns_nodeId t = pn_id m"
        and ch: "repair_state s' dead now t \<noteq> t"
      have "ns_status (repair_state s' dead now t) \<in> {NsFailed, NsInvalidated}
          \<and> ns_attempts (repair_state s' dead now t) \<in> {ns_attempts s, ns_attempts t}"
        using ch by (auto simp: repair_state_def s')
      with S(3,4) state_okD(3,4) [OF I(6) [OF m]]
      show "state_ok (vp_states rt') m (repair_state s' dead now t)
          \<and> (ns_status (repair_state s' dead now t) = NsSucceeded \<longrightarrow> pn_verificationFactKeys m \<noteq> []
              \<longrightarrow> receipt_backs H rt' m (repair_state s' dead now t))"
        by (auto simp: state_ok_def awaits_verification_def)
    qed (auto simp: rt' repair_state_def)
  next
    fix reason
    assume s': "s' = s\<lparr>ns_lastExecutionDigest := Value digest,
             ns_status := (if pn_verificationFactKeys n \<noteq> [] then NsBlocked else NsSucceeded),
             ns_lastReason := Value reason, ns_lastUpdatedAt := now\<rparr>" and rt': "rt' = replaceState rt s'"
    show ?thesis
      unfolding rt'
    proof (rule replaceState_inv [OF inv mem(2)])
      have "truthy (Some digest) \<noteq> None" using dig digest_truthy [OF hex] by (auto simp: execution_digest_def)
      then show "state_ok states n s'" if "deps_succeeded (vp_states rt) n \<longrightarrow> deps_succeeded states n" for states
        using S that run unfolding s' state_ok_def by (auto simp: awaits_verification_def)
    qed (use mem run s' in auto)
  qed
qed

lemma validateCompletionReceipt_InrD:
  assumes "validateCompletionReceipt r l = Inr q"
  shows "vr_digest q = to_lower (vr_digest r)" and "vr_goalId r = cl_goalId l" and "vr_planId r = cl_planId l"
    and "vr_planVersion r = cl_planVersion l" and "vr_nodeId r = cl_nodeId l" and "vr_attempt r = cl_attempt l"
    and "to_lower (vr_executionDigest r) = cl_executionDigest l" and "vr_executionDigest q = cl_executionDigest l"
    and "vr_goalId q = vr_goalId r" and "vr_planId q = vr_planId r" and "vr_planVersion q = vr_planVersion r"
    and "vr_nodeId q = vr_nodeId r" and "vr_attempt q = vr_attempt r" and "hex64_text (vr_digest q)"
  using assms
  by (auto simp: validateCompletionReceipt_def bind_result_Inr plan_checks_Inr hex64_lower split: if_split_asm)

lemma receipt_text_inject:
  assumes "canonical (h_num H) (receipt_json H q) = canonical (h_num H) (receipt_json H r)" "number_text (h_num H)"
  shows "vr_nodeId q = vr_nodeId r" "vr_attempt q = vr_attempt r" "vr_executionDigest q = vr_executionDigest r"
    "vr_goalId q = vr_goalId r" "vr_planId q = vr_planId r" "vr_planVersion q = vr_planVersion r"
proof -
  have "defined_json (receipt_json H x)" for x by (simp add: receipt_json_def)
  with assms have "key_sorted (receipt_json H q) = key_sorted (receipt_json H r)" by (simp add: canonical_eq_iff)
  note look = key_sorted_lookup [OF this [unfolded receipt_json_def]]
  from look [of "''nodeId''"] look [of "''attempt''"] look [of "''executionDigest''"] look [of "''goalId''"] look [of "''planId''"]
    look [of "''planVersion''"]
  show "vr_nodeId q = vr_nodeId r" "vr_attempt q = vr_attempt r" "vr_executionDigest q = vr_executionDigest r"
    "vr_goalId q = vr_goalId r" "vr_planId q = vr_planId r" "vr_planVersion q = vr_planVersion r" by simp_all
qed

lemma markVerifiedComplete_cases:
  assumes "markVerifiedComplete H rt i receipt now = Inr (rt', s')"
  obtains n s x r where "find_node (pg_nodes (vp_graph rt)) i = Some n" "find_state (vp_states rt) i = Some s"
    "ns_status s = NsBlocked \<or> ns_status s = NsRunning" "pn_verificationFactKeys n \<noteq> []"
    "prop_value (ns_lastExecutionDigest s) = Some x" "x \<noteq> []"
    "validateCompletionReceipt receipt (completion_lineage rt (pg_version (vp_graph rt)) i (ns_attempts s) x) = Inr r"
    "find (\<lambda>q. vr_digest q = vr_digest r) (vp_receipts rt) = None
     \<or> (\<exists>q. find (\<lambda>q. vr_digest q = vr_digest r) (vp_receipts rt) = Some q
          \<and> canonical (h_num H) (receipt_json H q) = canonical (h_num H) (receipt_json H r))"
    "s' = s\<lparr>ns_status := NsSucceeded, ns_verificationReceiptDigest := Value (vr_digest r),
        ns_verifiedNodeDigest := Value (node_digest H n),
        ns_lastReason := Value ''independent-verification-receipt-accepted'', ns_lastUpdatedAt := now\<rparr>"
    "rt' = replaceState (if find (\<lambda>q. vr_digest q = vr_digest r) (vp_receipts rt) = None
        then rt\<lparr>vp_receipts := vp_receipts rt @ [r]\<rparr> else rt) s'"
  using assms
  by (auto simp: markVerifiedComplete_def bind_result_Inr found_node found_state Let_def truthy_def
      split: if_split_asm option.split_asm)

lemma markVerifiedComplete_inv:
  assumes inv: "plan_inv H rt" and num: "number_text (h_num H)"
    and mark: "markVerifiedComplete H rt i receipt now = Inr (rt', s')"
  shows "plan_inv H rt'"
  using mark
proof (rule markVerifiedComplete_cases)
  fix n s x r assume n: "find_node (pg_nodes (vp_graph rt)) i = Some n" and s: "find_state (vp_states rt) i = Some s"
    and st: "ns_status s = NsBlocked \<or> ns_status s = NsRunning" and keys: "pn_verificationFactKeys n \<noteq> []"
    and x: "prop_value (ns_lastExecutionDigest s) = Some x" "x \<noteq> []"
    and val: "validateCompletionReceipt receipt (completion_lineage rt (pg_version (vp_graph rt)) i (ns_attempts s) x) = Inr r"
    and old: "find (\<lambda>q. vr_digest q = vr_digest r) (vp_receipts rt) = None
     \<or> (\<exists>q. find (\<lambda>q. vr_digest q = vr_digest r) (vp_receipts rt) = Some q
          \<and> canonical (h_num H) (receipt_json H q) = canonical (h_num H) (receipt_json H r))"
    and s': "s' = s\<lparr>ns_status := NsSucceeded, ns_verificationReceiptDigest := Value (vr_digest r),
        ns_verifiedNodeDigest := Value (node_digest H n),
        ns_lastReason := Value ''independent-verification-receipt-accepted'', ns_lastUpdatedAt := now\<rparr>"
    and rt': "rt' = replaceState (if find (\<lambda>q. vr_digest q = vr_digest r) (vp_receipts rt) = None
        then rt\<lparr>vp_receipts := vp_receipts rt @ [r]\<rparr> else rt) s'"
  have mem: "n \<in> set (pg_nodes (vp_graph rt))" "s \<in> set (vp_states rt)" "ns_nodeId s = pn_id n" "pn_id n = i"
    using n s by (auto dest!: find_node_SomeD find_state_SomeD)
  note S = state_okD [OF plan_invD(6) [OF inv mem(1-3)]]
  note V = validateCompletionReceipt_InrD [OF val, unfolded completion_lineage_def, simplified]
  have lower: "to_lower x = x" using V(7) to_lower_lower by metis
  let ?rt0 = "if find (\<lambda>q. vr_digest q = vr_digest r) (vp_receipts rt) = None then rt\<lparr>vp_receipts := vp_receipts rt @ [r]\<rparr> else rt"
  have "\<exists>q\<in>set (vp_receipts ?rt0). vr_digest q = vr_digest r \<and> vr_nodeId q = vr_nodeId r \<and> vr_attempt q = vr_attempt r
      \<and> vr_executionDigest q = vr_executionDigest r \<and> vr_goalId q = vr_goalId r \<and> vr_planId q = vr_planId r
      \<and> vr_planVersion q = vr_planVersion r"
    using old
  proof
    assume "\<exists>q. find (\<lambda>q. vr_digest q = vr_digest r) (vp_receipts rt) = Some q
          \<and> canonical (h_num H) (receipt_json H q) = canonical (h_num H) (receipt_json H r)"
    then obtain q where q: "find (\<lambda>q. vr_digest q = vr_digest r) (vp_receipts rt) = Some q"
      "canonical (h_num H) (receipt_json H q) = canonical (h_num H) (receipt_json H r)" by blast
    have "q \<in> set (vp_receipts ?rt0)" "vr_digest q = vr_digest r" using find_SomeD [OF q(1)] by auto
    with receipt_text_inject [OF q(2) num] show ?thesis by blast
  qed simp
  then obtain q where q: "q \<in> set (vp_receipts ?rt0)" "vr_digest q = vr_digest r" "vr_nodeId q = pn_id n"
      "vr_attempt q = ns_attempts s" "to_lower (vr_executionDigest q) = x" "vr_goalId q = cg_id (vp_goal rt)"
      "vr_planId q = pg_planId (vp_graph rt)" "vr_planVersion q \<le> pg_version (vp_graph rt)"
    using V lower mem(4) by auto
  have backed: "receipt_backs H ?rt0 n s'"
    unfolding receipt_backs_def by (intro conjI bexI [OF _ q(1)]) (use q x(1) in \<open>simp_all add: s'\<close>)
  show ?thesis
    unfolding rt'
  proof (rule replaceState_inv [OF inv mem(2)])
    have "deps_succeeded (vp_states rt) n" using S(1) st x by (auto simp: awaits_verification_def truthy_def)
    then show "state_ok states n s'" if "deps_succeeded (vp_states rt) n \<longrightarrow> deps_succeeded states n" for states
      using S(3,4) that unfolding s' state_ok_def by (auto simp: awaits_verification_def)
    show "receipt_backs H ?rt0 n s'" by (rule backed)
  qed (use mem st s' in auto)
qed

lemma check_receipts_None:
  "check_receipts H rt rs seen = None \<Longrightarrow> r \<in> set rs \<Longrightarrow> check_receipt H rt r = None"
  by (induction rs arbitrary: seen) (auto split: if_splits option.splits)

lemma check_receipt_None:
  assumes "check_receipt H rt r = None" "find_state (vp_states rt) (vr_nodeId r) = Some s"
  shows "prop_value (ns_verificationReceiptDigest s) = Some (vr_digest r)" and "vr_planVersion r \<le> pg_version (vp_graph rt)"
    and "\<exists>x q. prop_value (ns_lastExecutionDigest s) = Some x
      \<and> validateCompletionReceipt r (completion_lineage rt (vr_planVersion r) (vr_nodeId r) (ns_attempts s) x) = Inr q"
proof -
  obtain x where x: "truthy (prop_value (ns_lastExecutionDigest s)) = Some x"
    using assms by (auto simp: check_receipt_def split: option.splits)
  then have v: "prop_value (ns_lastExecutionDigest s) = Some x" by (auto simp: truthy_def split: option.splits if_splits)
  from assms x show "prop_value (ns_verificationReceiptDigest s) = Some (vr_digest r)" "vr_planVersion r \<le> pg_version (vp_graph rt)"
    by (auto simp: check_receipt_def split: if_splits)
  from assms x have "\<exists>q. validateCompletionReceipt r (completion_lineage rt (vr_planVersion r) (vr_nodeId r) (ns_attempts s) x) = Inr q"
    by (auto simp: check_receipt_def split: if_splits sum.splits)
  with v show "\<exists>x q. prop_value (ns_lastExecutionDigest s) = Some x
      \<and> validateCompletionReceipt r (completion_lineage rt (vr_planVersion r) (vr_nodeId r) (ns_attempts s) x) = Inr q" by blast
qed

lemma validated_receipts_back:
  assumes val: "validatePersistedReceipts H rt = None" and n: "n \<in> set (pg_nodes (vp_graph rt))"
    and s: "find_state (vp_states rt) (pn_id n) = Some s" "ns_status s = NsSucceeded" "pn_verificationFactKeys n \<noteq> []"
  shows "receipt_backs H rt n s"
proof -
  have receipts: "check_receipts H rt (vp_receipts rt) [] = None"
    and node: "check_verified_node H rt n = None"
    using val n by (auto simp: validatePersistedReceipts_def for_all_throw_None_iff split: option.splits)
  from node s have vd: "prop_value (ns_verifiedNodeDigest s) = Some (node_digest H n)"
    by (auto simp: check_verified_node_def split: if_splits)
  from node s have "list_ex (\<lambda>r. Some (vr_digest r) = prop_value (ns_verificationReceiptDigest s) \<and> vr_nodeId r = pn_id n) (vp_receipts rt)"
    by (auto simp: check_verified_node_def split: if_splits)
  then obtain r where r: "r \<in> set (vp_receipts rt)" "prop_value (ns_verificationReceiptDigest s) = Some (vr_digest r)" "vr_nodeId r = pn_id n"
    by (auto simp: list_ex_iff)
  note C = check_receipt_None [OF check_receipts_None [OF receipts r(1)], of s, unfolded r(3), OF s(1)]
  from C(3) obtain x q where x: "prop_value (ns_lastExecutionDigest s) = Some x"
    and q: "validateCompletionReceipt r (completion_lineage rt (vr_planVersion r) (pn_id n) (ns_attempts s) x) = Inr q" by blast
  note V = validateCompletionReceipt_InrD [OF q, unfolded completion_lineage_def, simplified]
  show ?thesis
    unfolding receipt_backs_def by (intro conjI bexI [OF _ r(1)]) (use vd r(2,3) C(2) x V in simp_all)
qed

lemma restoreRuntime_InrD:
  assumes "restoreRuntime H collate goal graph state = Inr rt"
  shows "validatePlanGraph goal graph = Inr (vp_graph rt)" and "vp_goal rt = goal" and "vp_states rt = rs_nodeStates state"
    and "vp_receipts rt = rs_verificationReceipts state" and "validatePersistedReceipts H rt = None"
    and "validateRevisionProofChain rt = None" and "normalizeNodeStates (vp_graph rt) (rs_nodeStates state) = Inr (vp_states rt)"
    and "vp_planDigest rt = digestPlan H (graph_json (vp_graph rt))" and "vp_goalDigest rt = digestPlan H (goal_json goal)"
    and "map_throw (validateRevisionProof H collate) (rs_revisionProofs state) = Inr (vp_revisionProofs rt)"
    and "map_throw (validateDecisionLineage H) (rs_decisions state) = Inr (vp_decisions rt)"
    and "d \<in> set (vp_decisions rt) \<Longrightarrow> \<not> foreign_decision rt (dl_body d) \<and> find_node (pg_nodes (vp_graph rt)) (dl_nodeId (dl_body d)) \<noteq> None"
proof -
  from assms obtain g states decisions proofs rt0 where *:
    "validatePlanGraph goal graph = Inr g" "normalizeNodeStates g (rs_nodeStates state) = Inr states"
    "map_throw (validateDecisionLineage H) (rs_decisions state) = Inr decisions"
    "rt0 = \<lparr>vp_goal = goal, vp_graph = g, vp_goalDigest = digestPlan H (goal_json goal),
               vp_planDigest = digestPlan H (graph_json g), vp_states = states, vp_decisions = decisions,
               vp_receipts = rs_verificationReceipts state, vp_revisionProofs = []\<rparr>"
    "for_all_throw (check_decision rt0) decisions = None"
    "map_throw (validateRevisionProof H collate) (rs_revisionProofs state) = Inr proofs"
    "rt = rt0\<lparr>vp_revisionProofs := proofs\<rparr>" "validateRevisionProofChain rt = None" "validatePersistedReceipts H rt = None"
    unfolding restoreRuntime_def
    by (auto simp: bind_result_Inr Let_def simp del: if_split split: if_split_asm option.split_asm)
  then show "validatePlanGraph goal graph = Inr (vp_graph rt)" "vp_goal rt = goal" "vp_receipts rt = rs_verificationReceipts state"
    "validatePersistedReceipts H rt = None" "validateRevisionProofChain rt = None"
    "normalizeNodeStates (vp_graph rt) (rs_nodeStates state) = Inr (vp_states rt)"
    "vp_planDigest rt = digestPlan H (graph_json (vp_graph rt))" "vp_goalDigest rt = digestPlan H (goal_json goal)"
    "map_throw (validateRevisionProof H collate) (rs_revisionProofs state) = Inr (vp_revisionProofs rt)"
    "map_throw (validateDecisionLineage H) (rs_decisions state) = Inr (vp_decisions rt)" by simp_all
  from * show "vp_states rt = rs_nodeStates state" by (auto simp: normalizeNodeStates_def split: if_splits option.splits)
  show "d \<in> set (vp_decisions rt) \<Longrightarrow> \<not> foreign_decision rt (dl_body d) \<and> find_node (pg_nodes (vp_graph rt)) (dl_nodeId (dl_body d)) \<noteq> None"
    using *(4,5,7) by (auto simp: for_all_throw_None_iff check_decision_def foreign_decision_def split: if_splits)
qed

lemma fresh_state_ok:
  "n \<in> set nodes \<Longrightarrow> distinct (node_ids nodes) \<Longrightarrow> s \<in> set (initializeNodeStates (g\<lparr>pg_nodes := nodes\<rparr>) now) \<Longrightarrow> ns_nodeId s = pn_id n
   \<Longrightarrow> state_ok states n s \<and> ns_status s \<noteq> NsSucceeded"
  by (auto simp: initializeNodeStates_def state_ok_def awaits_verification_def truthy_def deps_succeeded_def
      dest: same_node split: if_splits)

lemma init_ids: "map ns_nodeId (initializeNodeStates g now) = node_ids (pg_nodes g)"
  by (simp add: initializeNodeStates_def node_ids_def)

lemma newRuntime_inv:
  assumes "newRuntime H goal graph now = Inr rt"
  shows "plan_inv H rt"
proof -
  from assms obtain g where g: "validatePlanGraph goal graph = Inr g" and rt: "vp_graph rt = g" "vp_states rt = initializeNodeStates g now"
    by (auto simp: newRuntime_def bind_result_Inr)
  note D = validatePlanGraph_InrD [OF g]
  have graph: "acyclic (prereq_rel (pg_nodes g))" "n \<in> set (pg_nodes g) \<Longrightarrow> set (prerequisites n) \<subseteq> set (node_ids (pg_nodes g))" for n
    using validated_graph [OF g] by blast+
  have "1 \<le> pn_maxAttempts n" if "n \<in> set (pg_nodes g)" for n using validated_graph(3) [OF g that] .
  note graph = graph this
  have "state_ok (vp_states rt) n s \<and> ns_status s \<noteq> NsSucceeded"
    if "n \<in> set (pg_nodes g)" "s \<in> set (initializeNodeStates g now)" "ns_nodeId s = pn_id n" for n s
    using fresh_state_ok [of n "pg_nodes g" s g now] that D(4) by simp
  then show ?thesis
    unfolding plan_inv_def rt using graph D(4) init_ids rt(2) by (auto simp del: set_map)
qed

lemma revise_inv:
  assumes inv: "plan_inv H rt" and rev: "revise H collate rt next now = Inr (rt', revision)"
    and free: "nodes_collision_free H (pg_nodes (vp_graph rt)) (pg_nodes (rv_graph revision))"
  shows "plan_inv H rt'"
proof -
  note I = plan_invD [OF inv]
  from rev obtain state where r: "revisePlan H collate (vp_goal rt) (vp_graph rt) (vp_states rt) next now = Inr revision"
    and rest: "restoreRuntime H collate (vp_goal rt) (rv_graph revision) state = Inr rt'" and st: "rs_nodeStates state = rv_states revision"
    by (auto simp: revise_def bind_result_Inr Let_def)
  note R = revisePlan_InrD [OF r] and T = restoreRuntime_InrD [OF rest]
  have graph: "vp_graph rt' = rv_graph revision" using T(1) validatePlanGraph_idem [OF R(1)] by simp
  let ?g = "rv_graph revision"
  let ?reset = "revision_reset H (vp_graph rt) ?g"
  let ?carry = "carry_state (vp_states rt) ?reset"
  have states: "vp_states rt' = map ?carry (initializeNodeStates ?g now)" using T(3) st R(6) by simp
  have idsc: "ns_nodeId (?carry f) = ns_nodeId f" for f
    using find_state_SomeD by (auto simp: carry_state_def last_state_eq [OF I(4)] split: option.splits)
  have ids: "map ns_nodeId (vp_states rt') = node_ids (pg_nodes ?g)"
    unfolding states using init_ids [of ?g now] by (simp add: comp_def idsc)
  note D = validatePlanGraph_InrD [OF R(1)]
  have dist: "distinct (map ns_nodeId (vp_states rt'))" using ids D(4) by simp
  have carried: "state_ok (vp_states rt') n s"
    if n: "n \<in> set (pg_nodes ?g)" and s: "s \<in> set (vp_states rt')" "ns_nodeId s = pn_id n" for n s
  proof -
    from s(1) states obtain f where f: "f \<in> set (initializeNodeStates ?g now)" "s = ?carry f" by auto
    then have fid: "ns_nodeId f = pn_id n" using idsc s(2) by simp
    show ?thesis
    proof (cases "s = f")
      case True
      then show ?thesis using fresh_state_ok [of n "pg_nodes ?g" s ?g now] n D(4) f(1) s(2) by simp
    next
      case False
      with f(2) have keep: "pn_id n \<notin> set ?reset" and prior: "find_state (vp_states rt) (pn_id n) = Some s"
        using fid by (auto simp: carry_state_def last_state_eq [OF I(4)] split: if_splits option.splits)
      have "\<not> node_changed H (pg_nodes (vp_graph rt)) n" using revision_reset_changed [OF n] keep by blast
      from unchanged_node [OF free I(1) n this] have old: "n \<in> set (pg_nodes (vp_graph rt))" .
      have "state_ok (vp_states rt) n s" using I(6) [OF old] prior find_state_SomeD by blast
      moreover have "deps_succeeded (vp_states rt') n" if "deps_succeeded (vp_states rt) n"
        unfolding deps_succeeded_def list_all_iff
      proof
        fix d assume d: "d \<in> set (pn_dependsOn n)"
        with that obtain t where t: "find_state (vp_states rt) d = Some t" "ns_status t = NsSucceeded"
          by (auto simp: deps_succeeded_def list_all_iff)
        have "d \<notin> set ?reset" by (rule revision_reset_deps [OF n keep d])
        moreover have "d \<in> set (node_ids (pg_nodes ?g))"
          using validated_graph(2) [OF R(1) n] d by (auto simp: prerequisites_def)
        then obtain fd where fd: "fd \<in> set (initializeNodeStates ?g now)" "ns_nodeId fd = d"
          using init_ids [of ?g now] by (metis (no_types, lifting) imageE set_map)
        ultimately have "?carry fd = t" using t(1) by (simp add: carry_state_def last_state_eq [OF I(4)])
        then have "t \<in> set (vp_states rt')" "ns_nodeId t = d" using fd idsc unfolding states by force+
        then show "map_option ns_status (find_state (vp_states rt') d) = Some NsSucceeded"
          using find_state_iff [OF dist] t(2) by auto
      qed
      ultimately show ?thesis by (rule state_ok_mono)
    qed
  qed
  have backed: "receipt_backs H rt' n s"
    if "n \<in> set (pg_nodes ?g)" "s \<in> set (vp_states rt')" "ns_nodeId s = pn_id n" "ns_status s = NsSucceeded" "pn_verificationFactKeys n \<noteq> []" for n s
    using validated_receipts_back [OF T(5)] that graph find_state_iff [OF dist] by simp
  show ?thesis
    unfolding plan_inv_def graph
  proof (intro conjI ballI impI)
    show "set (map ns_nodeId (vp_states rt')) = set (node_ids (pg_nodes ?g))" using ids by metis
  qed (use D(4) dist carried backed validated_graph [OF R(1)] in auto)
qed

section \<open>Histories\<close>

text \<open>What is assumed of the hash function along a history.\<close>

definition plan_admissible :: "Hashing \<Rightarrow> VerifiedPlanRuntime \<Rightarrow> plan_op \<Rightarrow> bool" where
  "plan_admissible H rt op \<longleftrightarrow> hex_hashing H \<and> number_text (h_num H)
     \<and> (case op of Revise g now \<Rightarrow>
          (case validatePlanGraph (vp_goal rt) g of Inl _ \<Rightarrow> True
           | Inr g' \<Rightarrow> nodes_collision_free H (pg_nodes (vp_graph rt)) (pg_nodes g'))
        | _ \<Rightarrow> True)"

lemma map_sum_fst_Inr: "map_sum id fst r = Inr a \<longleftrightarrow> (\<exists>b. r = Inr (a, b))"
  by (cases r) auto

lemma plan_step_inv:
  assumes inv: "plan_inv H rt" and adm: "plan_admissible H rt op" and step: "plan_step H collate rt op = Inr rt'"
  shows "plan_inv H rt'"
proof (cases op)
  case (Revise g now)
  with step obtain r where r: "revise H collate rt g now = Inr (rt', r)" by (auto simp: map_sum_fst_Inr)
  then have "revisePlan H collate (vp_goal rt) (vp_graph rt) (vp_states rt) g now = Inr r"
    by (auto simp: revise_def bind_result_Inr Let_def)
  from revisePlan_InrD(1) [OF this] have "nodes_collision_free H (pg_nodes (vp_graph rt)) (pg_nodes (rv_graph r))"
    using adm Revise by (simp add: plan_admissible_def)
  with revise_inv [OF inv r] show ?thesis by blast
next
  case (AppendDecision d)
  with step have "vp_graph rt' = vp_graph rt" "vp_goal rt' = vp_goal rt" "vp_states rt' = vp_states rt" "vp_receipts rt' = vp_receipts rt"
    by (auto simp: appendDecision_def bind_result_Inr Let_def split: if_splits)
  with inv show ?thesis by (simp add: plan_inv_def receipt_backs_def)
qed (use assms in \<open>auto simp: map_sum_fst_Inr plan_admissible_def intro: bindBeliefs_inv startNode_inv recordExecution_inv
      markVerifiedComplete_inv\<close>)

interpretation plan_store: transactional_store "plan_step H collate" "plan_inv H" "plan_admissible H" for H collate
  by unfold_locales (rule plan_step_inv)

lemma history_inv:
  assumes "newRuntime H goal graph now = Inr rt0" "all_admissible (plan_admissible H) (plan_step H collate) rt0 ops"
  shows "plan_inv H (run_ops (plan_step H collate) rt0 ops)"
  by (rule plan_store.run_inv [OF newRuntime_inv [OF assms(1)] assms(2)])

text \<open>
  C2. No node runs ahead of its dependencies: in every state reachable from a new runtime, a node that is
  ready, running, awaiting verification or succeeded has all the nodes it depends on succeeded, through
  failures, repairs, belief changes and plan revisions.
\<close>

theorem plan_respects_dependencies:
  assumes "newRuntime H goal graph now = Inr rt0" "all_admissible (plan_admissible H) (plan_step H collate) rt0 ops"
    and "rt = run_ops (plan_step H collate) rt0 ops" "n \<in> set (pg_nodes (vp_graph rt))" "s \<in> set (vp_states rt)"
    and "ns_nodeId s = pn_id n" "ns_status s \<in> {NsReady, NsRunning, NsSucceeded} \<or> awaits_verification s" "d \<in> set (pn_dependsOn n)"
  shows "\<exists>t\<in>set (vp_states rt). ns_nodeId t = d \<and> ns_status t = NsSucceeded"
proof -
  have inv: "plan_inv H rt" using history_inv [OF assms(1,2)] assms(3) by simp
  have "deps_succeeded (vp_states rt) n" using state_okD(1) [OF plan_invD(6) [OF inv assms(4-6)]] assms(7) by blast
  then obtain t where "find_state (vp_states rt) d = Some t" "ns_status t = NsSucceeded"
    using assms(8) by (auto simp: deps_succeeded_def list_all_iff)
  then show ?thesis by (auto dest: find_state_SomeD)
qed

text \<open>
  C16. An action is executed at most once per plan version: no reachable state counts more than one attempt
  for a node, and a node offered for execution has none. No belief refresh or failure reopens a mutation.
\<close>

theorem executed_at_most_once:
  assumes "newRuntime H goal graph now = Inr rt0" "all_admissible (plan_admissible H) (plan_step H collate) rt0 ops"
    and "rt = run_ops (plan_step H collate) rt0 ops" "s \<in> set (vp_states rt)"
  shows "0 \<le> ns_attempts s \<and> ns_attempts s \<le> 1 \<and> (ns_status s = NsReady \<longrightarrow> ns_attempts s = 0)"
proof -
  have inv: "plan_inv H rt" using history_inv [OF assms(1,2)] assms(3) by simp
  have "ns_nodeId s \<in> set (map ns_nodeId (vp_states rt))" using assms(4) by simp
  then have "ns_nodeId s \<in> set (node_ids (pg_nodes (vp_graph rt)))" using plan_invD(5) [OF inv] by simp
  then obtain n where n: "n \<in> set (pg_nodes (vp_graph rt))" "ns_nodeId s = pn_id n" by (auto simp: node_ids_def)
  note S = state_okD [OF plan_invD(6) [OF inv n(1) assms(4) n(2)]]
  from S(3-5) show ?thesis by blast
qed

text \<open>
  C13. A node that asks for verification counts as succeeded only with a receipt on file for exactly its goal,
  plan, node, attempt and execution, verified against the node's present content.
\<close>

theorem success_needs_receipt:
  assumes "newRuntime H goal graph now = Inr rt0" "all_admissible (plan_admissible H) (plan_step H collate) rt0 ops"
    and "rt = run_ops (plan_step H collate) rt0 ops" "n \<in> set (pg_nodes (vp_graph rt))" "s \<in> set (vp_states rt)"
    and "ns_nodeId s = pn_id n" "ns_status s = NsSucceeded" "pn_verificationFactKeys n \<noteq> []"
  shows "prop_value (ns_verifiedNodeDigest s) = Some (node_digest H n)
    \<and> (\<exists>r\<in>set (vp_receipts rt). prop_value (ns_verificationReceiptDigest s) = Some (vr_digest r)
        \<and> vr_nodeId r = pn_id n \<and> vr_attempt r = ns_attempts s
        \<and> prop_value (ns_lastExecutionDigest s) = Some (to_lower (vr_executionDigest r))
        \<and> vr_goalId r = cg_id (vp_goal rt) \<and> vr_planId r = pg_planId (vp_graph rt)
        \<and> vr_planVersion r \<le> pg_version (vp_graph rt))"
proof -
  have inv: "plan_inv H rt" using history_inv [OF assms(1,2)] assms(3) by simp
  from plan_invD(7) [OF inv assms(4-8)] show ?thesis unfolding receipt_backs_def .
qed

section \<open>Progress\<close>

lemma supported_not_refuted: "precondition_holds beliefs p \<Longrightarrow> \<not> belief_refutes beliefs p"
  by (auto simp: precondition_holds_def belief_refutes_def truthy_def split: option.splits if_splits)

lemma normalize_beliefs_from_distinct:
  "normalize_beliefs_from bs seen = Inr bs' \<Longrightarrow> distinct (map bv_factKey bs') \<and> set (map bv_factKey bs') \<inter> set seen = {}"
proof (induction bs arbitrary: seen bs')
  case (Cons b bs)
  from Cons.prems obtain rest where rest: "normalize_beliefs_from bs (bv_factKey b # seen) = Inr rest"
    "map bv_factKey bs' = bv_factKey b # map bv_factKey rest" "bv_factKey b \<notin> set seen"
    by (auto simp: bind_result_Inr plan_checks_Inr split: if_splits)
  from Cons.IH [OF rest(1)] rest(2,3) show ?case by auto
qed simp

lemma normalizeBeliefs_distinct: "normalizeBeliefs bs = Inr bs' \<Longrightarrow> distinct (map bv_factKey bs')"
  by (auto simp: normalizeBeliefs_def dest: normalize_beliefs_from_distinct split: if_splits)

lemma unfinished_minimal:
  assumes inv: "plan_inv H rt" and left: "\<exists>s\<in>set (vp_states rt). ns_status s \<noteq> NsSucceeded"
  obtains n s where "n \<in> set (pg_nodes (vp_graph rt))" "s \<in> set (vp_states rt)" "ns_nodeId s = pn_id n" "ns_status s \<noteq> NsSucceeded"
    "deps_succeeded (vp_states rt) n"
proof -
  note I = plan_invD [OF inv]
  let ?N = "pg_nodes (vp_graph rt)" and ?R = "prereq_rel (pg_nodes (vp_graph rt))"
  have "?R \<subseteq> set (node_ids ?N) \<times> set (node_ids ?N)"
  proof
    fix e assume "e \<in> ?R"
    then obtain n where n: "find_node ?N (fst e) = Some n" "snd e \<in> set (prerequisites n)" by (auto simp: prereq_rel_def)
    have m: "n \<in> set ?N" using find_node_SomeD [OF n(1)] by blast
    have "snd e \<in> set (node_ids ?N)" by (rule subsetD [OF I(3) [OF m] n(2)])
    moreover have "fst e \<in> set (node_ids ?N)" using n(1) find_node_iff [THEN iffD1] by blast
    ultimately
    show "e \<in> set (node_ids ?N) \<times> set (node_ids ?N)" by (simp add: mem_Times_iff)
  qed
  then have "finite ?R" by (rule finite_subset) simp
  with I(2) have wf: "wf (?R\<inverse>)" by (simp add: finite_acyclic_wf_converse)
  define Q where "Q = ns_nodeId ` {s \<in> set (vp_states rt). ns_status s \<noteq> NsSucceeded}"
  from left obtain x where "x \<in> Q" by (auto simp: Q_def)
  then obtain z where z: "z \<in> Q" "\<forall>y. (y, z) \<in> ?R\<inverse> \<longrightarrow> y \<notin> Q" using wf unfolding wf_eq_minimal by blast
  from z(1) obtain s where s: "s \<in> set (vp_states rt)" "ns_status s \<noteq> NsSucceeded" "ns_nodeId s = z" by (auto simp: Q_def)
  then have "z \<in> set (node_ids ?N)" using I(5) by force
  then obtain n where n: "find_node ?N z = Some n" using find_node_iff [of ?N z] by auto
  then have mem: "n \<in> set ?N" "pn_id n = z" by (auto dest: find_node_SomeD)
  have "deps_succeeded (vp_states rt) n"
    unfolding deps_succeeded_def list_all_iff
  proof
    fix d assume d: "d \<in> set (pn_dependsOn n)"
    then have "(z, d) \<in> ?R" using n by (auto simp: prereq_rel_def prerequisites_def)
    with z(2) have notin: "d \<notin> Q" by simp
    have "d \<in> set (map ns_nodeId (vp_states rt))" using I(3) [OF mem(1)] I(5) d by (auto simp: prerequisites_def)
    then obtain t where t: "t \<in> set (vp_states rt)" "ns_nodeId t = d" by auto
    with notin have "ns_status t = NsSucceeded" by (auto simp: Q_def)
    then show "map_option ns_status (find_state (vp_states rt) d) = Some NsSucceeded"
      using find_state_iff [OF I(4), of d t] t by auto
  qed
  with that mem s show ?thesis by simp
qed

text \<open>
  C14. A plan does not deadlock: in a reachable state with unfinished work where nothing failed, was
  invalidated or skipped and no execution is in flight, rebinding to beliefs that support every
  precondition succeeds and puts a node on offer, and starting that node succeeds.
\<close>

theorem plan_makes_progress:
  assumes "newRuntime H goal graph now = Inr rt0" "all_admissible (plan_admissible H) (plan_step H collate) rt0 ops"
    and rt: "rt = run_ops (plan_step H collate) rt0 ops"
    and calm: "\<forall>s\<in>set (vp_states rt). ns_status s \<in> {NsPending, NsReady, NsBlocked, NsSucceeded} \<and> \<not> awaits_verification s"
    and left: "\<exists>s\<in>set (vp_states rt). ns_status s \<noteq> NsSucceeded"
    and beliefs: "normalizeBeliefs bs = Inr bs'"
      "\<forall>n\<in>set (pg_nodes (vp_graph rt)). list_all (precondition_holds bs') (pn_preconditions n)"
  shows "\<exists>rt' r i rt'' s. bindBeliefs rt bs t1 = Inr (rt', r) \<and> i \<in> set (bb_readyNodeIds r)
    \<and> startNode rt' i t2 = Inr (rt'', s) \<and> ns_status s = NsRunning \<and> ns_attempts s = 1"
proof -
  have inv: "plan_inv H rt" using history_inv [OF assms(1,2)] rt by simp
  note I = plan_invD [OF inv]
  have "filter (hard_invalid_root (vp_states rt) bs') (pg_nodes (vp_graph rt)) = []"
    using beliefs(2) supported_not_refuted
    by (auto simp: filter_empty_conv hard_invalid_root_def list_ex_iff list_all_iff split: option.splits)
  then have none: "map pn_id (filter (hard_invalid_root (vp_states rt) bs') (pg_nodes (vp_graph rt))) = []" by simp
  have "set (dependentClosure (vp_graph rt) []) = {}" by (simp add: set_dependentClosure)
  then have closure: "dependentClosure (vp_graph rt) [] = []" by (metis set_empty)
  have untouched: "invalidate_state t1 [] = (\<lambda>s. s)" by (simp add: fun_eq_iff invalidate_state_def)
  define ready where "ready = sort (map pn_id (filter (node_ready (vp_states rt) bs') (pg_nodes (vp_graph rt))))"
  define r where "r = \<lparr>bb_states = map (refresh_state t1 ready) (vp_states rt), bb_invalidatedNodeIds = [], bb_readyNodeIds = ready\<rparr>"
  have calm': "\<not> list_ex (\<lambda>s. ns_status s = NsRunning) (vp_states rt)" using calm by (auto simp: list_ex_iff)
  have bind: "bindBeliefs rt bs t1 = Inr (rt\<lparr>vp_states := bb_states r\<rparr>, r)"
    using calm' beliefs I(4) normalizeBeliefs_distinct [OF beliefs(1)]
    by (simp add: bindBeliefs_def bindPlanToBeliefs_def none closure untouched readyNodeIds_def Let_def r_def ready_def comp_def)
  obtain n s where n: "n \<in> set (pg_nodes (vp_graph rt))" "s \<in> set (vp_states rt)" "ns_nodeId s = pn_id n" "ns_status s \<noteq> NsSucceeded"
    "deps_succeeded (vp_states rt) n" using unfinished_minimal [OF inv left] .
  have found: "find_state (vp_states rt) (pn_id n) = Some s" using find_state_iff [OF I(4)] n by simp
  then have "node_ready (vp_states rt) bs' n" using calm n beliefs(2) by (auto simp: node_ready_def)
  then have rd: "pn_id n \<in> set ready" using n(1) by (auto simp: ready_def)
  have st: "ns_status (refresh_state t1 ready s) = NsReady" using refresh_ready_iff rd n calm by auto
  have "ns_attempts s = 0" using state_okD(5) [OF I(6) [OF n(1-3)]] calm n(2,4) by blast
  then have att: "ns_attempts (refresh_state t1 ready s) = 0" by (simp add: refresh_state_def)
  have fs: "find_state (bb_states r) (pn_id n) = Some (refresh_state t1 ready s)"
    using found by (simp add: r_def find_state_map)
  have fn: "find_node (pg_nodes (vp_graph rt)) (pn_id n) = Some n"
    using n(1) I(1) by (simp add: find_node_def find_Some_iff_distinct node_ids_def)
  have "\<exists>rt'' s'. startNode (rt\<lparr>vp_states := bb_states r\<rparr>) (pn_id n) t2 = Inr (rt'', s') \<and> ns_status s' = NsRunning \<and> ns_attempts s' = 1"
    using st att I(8) [OF n(1)] by (simp add: startNode_def node_of_def stateFor_def fs fn Let_def)
  with bind rd show ?thesis by (auto simp: r_def)
qed

section \<open>Sample histories\<close>

definition start_runtime :: "PlanGraph \<Rightarrow> VerifiedPlanRuntime" where
  "start_runtime g = \<lparr>vp_goal = sample_goal, vp_graph = g, vp_goalDigest = digest_text, vp_planDigest = digest_text,
     vp_states = initializeNodeStates g 0, vp_decisions = [], vp_receipts = [], vp_revisionProofs = []\<rparr>"

lemma newRuntime_sample:
  "validatePlanGraph sample_goal g = Inr g \<Longrightarrow> newRuntime sample_hashing sample_goal g 0 = Inr (start_runtime g)"
  by (simp add: newRuntime_def digest_sample start_runtime_def)

lemma sample_admissible:
  "(\<And>g now. op \<noteq> Revise g now) \<Longrightarrow> plan_admissible sample_hashing rt op"
  using sample_hashing_hex unary_number_text
  by (cases op) (auto simp: plan_admissible_def, simp_all add: sample_hashing_def)

lemmas record_sample = recordExecution_def execution_digest_def digest_sample
lemmas mark_sample = markVerifiedComplete_def node_digest_def digest_sample

definition running_state :: "string \<Rightarrow> int \<Rightarrow> PlanNodeState" where
  "running_state i t = \<lparr>ns_nodeId = i, ns_status = NsRunning, ns_attempts = 1, ns_lastReason = Undefined,
     ns_lastExecutionDigest = Undefined, ns_verificationReceiptDigest = Undefined, ns_verifiedNodeDigest = Undefined, ns_lastUpdatedAt = t\<rparr>"

definition fresh_state :: "string \<Rightarrow> PlanNodeStatus \<Rightarrow> PlanNodeState" where
  "fresh_state i st = \<lparr>ns_nodeId = i, ns_status = st, ns_attempts = 0, ns_lastReason = Absent,
     ns_lastExecutionDigest = Absent, ns_verificationReceiptDigest = Absent, ns_verifiedNodeDigest = Absent, ns_lastUpdatedAt = 0\<rparr>"

definition good_observation :: ExecutionObservation where
  "good_observation = \<lparr>eo_changedFactKeys = [''file''], eo_supportedFactKeys = [], eo_contradictedFactKeys = [], eo_executionOk = True,
     eo_sideEffectState = SeKnown, eo_evidenceDigests = None\<rparr>"

definition failed_observation :: ExecutionObservation where
  "failed_observation = good_observation\<lparr>eo_executionOk := False\<rparr>"

subsection \<open>A running child of a failing parent\<close>

definition family_child :: PlanNode where
  "family_child = sample_check\<lparr>pn_dependsOn := []\<rparr>"

definition family_graph :: PlanGraph where
  "family_graph = sample_graph\<lparr>pg_nodes := [sample_action, family_child]\<rparr>"

definition family_running :: VerifiedPlanRuntime where
  "family_running = (start_runtime family_graph)\<lparr>vp_states := [running_state ''act'' 1, running_state ''chk'' 2]\<rparr>"

lemma family_valid: "validatePlanGraph sample_goal family_graph = Inr family_graph"
  by code_simp

lemma family_started:
  "run_ops (plan_step sample_hashing (\<lambda>s. s)) (start_runtime family_graph) [StartNode ''act'' 1, StartNode ''chk'' 2] = family_running"
  by code_simp


subsection \<open>A verified action and its check\<close>

definition sample_receipt :: VerificationReceiptRef where
  "sample_receipt = \<lparr>vr_digest = digest_text, vr_goalId = ''goal'', vr_planId = ''plan'', vr_planVersion = 1, vr_nodeId = ''act'',
     vr_attempt = 1, vr_executionDigest = digest_text, vr_verifierId = ''v'', vr_verifiedAt = 0, vr_authoritySnapshotDigest = digest_text\<rparr>"

definition verified_act :: PlanNodeState where
  "verified_act = (running_state ''act'' 3)\<lparr>ns_status := NsSucceeded, ns_lastExecutionDigest := Value digest_text,
     ns_verificationReceiptDigest := Value digest_text, ns_verifiedNodeDigest := Value digest_text,
     ns_lastReason := Value ''independent-verification-receipt-accepted''\<rparr>"

definition ready_check :: PlanNodeState where
  "ready_check = (fresh_state ''chk'' NsReady)\<lparr>ns_lastReason := Undefined, ns_lastUpdatedAt := 4\<rparr>"

definition sample_run :: "nat \<Rightarrow> VerifiedPlanRuntime" where
  "sample_run k = (let rt = start_runtime sample_graph in
     if k = 1 then rt\<lparr>vp_states := [running_state ''act'' 1, fresh_state ''chk'' NsPending]\<rparr>
     else if k = 2 then rt\<lparr>vp_states := [(running_state ''act'' 2)\<lparr>ns_status := NsBlocked, ns_lastExecutionDigest := Value digest_text,
       ns_lastReason := Value ''effects-observed-awaiting-independent-verification''\<rparr>, fresh_state ''chk'' NsPending]\<rparr>
     else if k = 3 then rt\<lparr>vp_states := [verified_act, fresh_state ''chk'' NsPending], vp_receipts := [sample_receipt]\<rparr>
     else rt\<lparr>vp_states := [verified_act, ready_check], vp_receipts := [sample_receipt]\<rparr>)"

definition sample_ops :: "plan_op list" where
  "sample_ops = [StartNode ''act'' 1, RecordExecution ''act'' good_observation 2, MarkVerified ''act'' sample_receipt 3, BindBeliefs [] 4]"

lemma sample_step1: "map_sum id fst (startNode (start_runtime sample_graph) ''act'' 1) = Inr (sample_run 1)"
  by code_simp

lemma sample_step2: "map_sum id fst (recordExecution sample_hashing (sample_run 1) ''act'' good_observation 2) = Inr (sample_run 2)"
  by (simp only: record_sample, code_simp)

lemma sample_step3: "map_sum id fst (markVerifiedComplete sample_hashing (sample_run 2) ''act'' sample_receipt 3) = Inr (sample_run 3)"
  by (simp only: mark_sample, code_simp)

lemma sample_step4: "map_sum id fst (bindBeliefs (sample_run 3) [] 4) = Inr (sample_run 4)"
  by code_simp

lemma sample_history: "run_ops (plan_step sample_hashing (\<lambda>s. s)) (start_runtime sample_graph) sample_ops = sample_run 4"
  by (simp add: sample_ops_def sample_step1 sample_step2 sample_step3 sample_step4 del: One_nat_def)

lemma sample_history_admissible:
  "all_admissible (plan_admissible sample_hashing) (plan_step sample_hashing (\<lambda>s. s)) (start_runtime sample_graph) sample_ops"
  by (simp add: sample_ops_def sample_admissible)

lemmas sample_new = newRuntime_sample [OF sample_graph_validates]

theorem plan_respects_dependencies_witness:
  "\<exists>t\<in>set (vp_states (sample_run 4)). ns_nodeId t = ''act'' \<and> ns_status t = NsSucceeded"
proof -
  have "sample_check \<in> set (pg_nodes (vp_graph (sample_run 4)))" "ready_check \<in> set (vp_states (sample_run 4))"
    "ns_nodeId ready_check = pn_id sample_check" "ns_status ready_check = NsReady" "''act'' \<in> set (pn_dependsOn sample_check)"
    by code_simp+
  with plan_respects_dependencies [OF sample_new sample_history_admissible sample_history [symmetric]] show ?thesis by blast
qed

theorem executed_at_most_once_witness: "ns_attempts verified_act \<le> 1 \<and> ns_attempts ready_check = 0"
proof -
  have "verified_act \<in> set (vp_states (sample_run 4))" "ready_check \<in> set (vp_states (sample_run 4))"
    "ns_status ready_check = NsReady" by code_simp+
  with executed_at_most_once [OF sample_new sample_history_admissible sample_history [symmetric]] show ?thesis by blast
qed

theorem success_needs_receipt_witness:
  "\<exists>r\<in>set (vp_receipts (sample_run 4)). vr_nodeId r = pn_id sample_action \<and> vr_attempt r = ns_attempts verified_act"
proof -
  have "sample_action \<in> set (pg_nodes (vp_graph (sample_run 4)))" "verified_act \<in> set (vp_states (sample_run 4))"
    "ns_nodeId verified_act = pn_id sample_action" "ns_status verified_act = NsSucceeded" "pn_verificationFactKeys sample_action \<noteq> []"
    by code_simp+
  from success_needs_receipt [OF sample_new sample_history_admissible sample_history [symmetric] this] show ?thesis by blast
qed

theorem plan_makes_progress_witness:
  "\<exists>rt' r i rt'' s. bindBeliefs (sample_run 4) [] 5 = Inr (rt', r) \<and> i \<in> set (bb_readyNodeIds r)
    \<and> startNode rt' i 6 = Inr (rt'', s) \<and> ns_status s = NsRunning \<and> ns_attempts s = 1"
proof (rule plan_makes_progress [OF sample_new sample_history_admissible sample_history [symmetric]])
  have "list_all (\<lambda>s. ns_status s \<in> {NsPending, NsReady, NsBlocked, NsSucceeded} \<and> \<not> awaits_verification s) (vp_states (sample_run 4))"
    by code_simp
  then show "\<forall>s\<in>set (vp_states (sample_run 4)). ns_status s \<in> {NsPending, NsReady, NsBlocked, NsSucceeded} \<and> \<not> awaits_verification s"
    by (simp add: list_all_iff)
  have "list_ex (\<lambda>s. ns_status s \<noteq> NsSucceeded) (vp_states (sample_run 4))" by code_simp
  then show "\<exists>s\<in>set (vp_states (sample_run 4)). ns_status s \<noteq> NsSucceeded" by (simp add: list_ex_iff)
  show "normalizeBeliefs [] = Inr []" by (simp add: normalizeBeliefs_def)
  have "list_all (\<lambda>n. pn_preconditions n = []) (pg_nodes (vp_graph (sample_run 4)))" by code_simp
  then show "\<forall>n\<in>set (pg_nodes (vp_graph (sample_run 4))). list_all (precondition_holds []) (pn_preconditions n)"
    by (simp add: list_all_iff)
qed

end
