(* ===== verification/PlanRestart.thy ===== *)
theory PlanRestart
  imports PlanRuntime
begin

text \<open>
  Restarting the plan runtime: a runtime exported at any point of its life is restored unchanged. The
  invariant collects what \<open>fromState\<close> checks; every method of the runtime keeps it.
\<close>

section \<open>What a restart checks\<close>

definition restorable :: "Hashing \<Rightarrow> (string \<Rightarrow> string) \<Rightarrow> VerifiedPlanRuntime \<Rightarrow> bool" where
  "restorable H collate rt \<longleftrightarrow>
     vp_goalDigest rt = digestPlan H (goal_json (vp_goal rt)) \<and> vp_planDigest rt = digestPlan H (graph_json (vp_graph rt))
     \<and> validatePlanGraph (vp_goal rt) (vp_graph rt) = Inr (vp_graph rt)
     \<and> (\<forall>n\<in>set (pg_nodes (vp_graph rt)). \<forall>s\<in>set (vp_states rt). ns_nodeId s = pn_id n \<longrightarrow> check_node_state n s = None)
     \<and> (\<forall>d\<in>set (vp_decisions rt). validateDecisionLineage H d = Inr d \<and> check_decision rt d = None)
     \<and> (\<forall>p\<in>set (vp_revisionProofs rt). validateRevisionProof H collate p = Inr p)
     \<and> validateRevisionProofChain rt = None
     \<and> distinct (map vr_digest (vp_receipts rt))
     \<and> (\<forall>r\<in>set (vp_receipts rt). check_receipt H rt r = None \<and> map_option ns_status (find_state (vp_states rt) (vr_nodeId r)) = Some NsSucceeded)
     \<and> (\<forall>n\<in>set (pg_nodes (vp_graph rt)). check_verified_node H rt n = None)
     \<and> (\<forall>s\<in>set (vp_states rt). ns_status s \<noteq> NsSucceeded \<longrightarrow> truthy (prop_value (ns_verificationReceiptDigest s)) = None)"

lemma restorableD:
  assumes "restorable H collate rt"
  shows "vp_goalDigest rt = digestPlan H (goal_json (vp_goal rt))" and "vp_planDigest rt = digestPlan H (graph_json (vp_graph rt))"
    and "validatePlanGraph (vp_goal rt) (vp_graph rt) = Inr (vp_graph rt)"
    and "n \<in> set (pg_nodes (vp_graph rt)) \<Longrightarrow> s \<in> set (vp_states rt) \<Longrightarrow> ns_nodeId s = pn_id n \<Longrightarrow> check_node_state n s = None"
    and "d \<in> set (vp_decisions rt) \<Longrightarrow> validateDecisionLineage H d = Inr d \<and> check_decision rt d = None"
    and "p \<in> set (vp_revisionProofs rt) \<Longrightarrow> validateRevisionProof H collate p = Inr p"
    and "validateRevisionProofChain rt = None" and "distinct (map vr_digest (vp_receipts rt))"
    and "r \<in> set (vp_receipts rt) \<Longrightarrow> check_receipt H rt r = None"
    and "r \<in> set (vp_receipts rt) \<Longrightarrow> \<exists>s. find_state (vp_states rt) (vr_nodeId r) = Some s \<and> ns_status s = NsSucceeded"
    and "n \<in> set (pg_nodes (vp_graph rt)) \<Longrightarrow> check_verified_node H rt n = None"
    and "s \<in> set (vp_states rt) \<Longrightarrow> ns_status s \<noteq> NsSucceeded \<Longrightarrow> truthy (prop_value (ns_verificationReceiptDigest s)) = None"
  using assms unfolding restorable_def by (blast, blast, blast, blast, blast, blast, blast, blast, blast, auto)

lemma check_receipts_iff:
  "check_receipts H rt rs seen = None \<longleftrightarrow>
   distinct (map vr_digest rs) \<and> set (map vr_digest rs) \<inter> set seen = {} \<and> (\<forall>r\<in>set rs. check_receipt H rt r = None)"
  by (induction rs arbitrary: seen) (auto split: option.splits)

lemma validatePersistedReceipts_iff:
  "validatePersistedReceipts H rt = None \<longleftrightarrow> distinct (map vr_digest (vp_receipts rt))
   \<and> (\<forall>r\<in>set (vp_receipts rt). check_receipt H rt r = None) \<and> (\<forall>n\<in>set (pg_nodes (vp_graph rt)). check_verified_node H rt n = None)"
  using check_receipts_iff [of H rt "vp_receipts rt" "[]"]
  by (auto simp: validatePersistedReceipts_def for_all_throw_None_iff split: option.splits)

lemma check_decision_cong:
  "vp_graph rt' = vp_graph rt \<Longrightarrow> vp_goal rt' = vp_goal rt \<Longrightarrow> vp_planDigest rt' = vp_planDigest rt
   \<Longrightarrow> check_decision rt' d = check_decision rt d"
  by (simp only: check_decision_def foreign_decision_def)

lemma check_node_states_iff:
  "check_node_states nodes ss seen = None \<longleftrightarrow>
   distinct (map ns_nodeId ss) \<and> set (map ns_nodeId ss) \<inter> set seen = {}
   \<and> (\<forall>s\<in>set ss. \<exists>n. find_node nodes (ns_nodeId s) = Some n \<and> check_node_state n s = None)"
  by (induction ss arbitrary: seen) (auto split: option.splits)

lemma find_node_eq:
  "distinct (node_ids nodes) \<Longrightarrow> find_node nodes i = Some n \<longleftrightarrow> n \<in> set nodes \<and> pn_id n = i"
  by (simp add: find_node_def find_Some_iff_distinct node_ids_def)

lemma map_throw_id: "(\<And>x. x \<in> set xs \<Longrightarrow> f x = Inr x) \<Longrightarrow> map_throw f xs = Inr xs"
  by (induction xs) auto

lemma restorable_restores:
  assumes inv: "plan_inv H rt" and res: "restorable H collate rt" and hex: "hex_hashing H"
  shows "restoreRuntime H collate (vp_goal rt) (vp_graph rt) (exportState rt) = Inr rt"
proof -
  note I = plan_invD [OF inv] and R = restorableD [OF res]
  have len: "length (vp_states rt) = length (pg_nodes (vp_graph rt))"
    using distinct_card [OF I(4)] distinct_card [OF I(1)] I(5) by (simp add: node_ids_def)
  have "\<exists>n. find_node (pg_nodes (vp_graph rt)) (ns_nodeId s) = Some n \<and> check_node_state n s = None" if s: "s \<in> set (vp_states rt)" for s
  proof -
    have "ns_nodeId s \<in> set (node_ids (pg_nodes (vp_graph rt)))" using I(5) s by force
    then obtain n where "n \<in> set (pg_nodes (vp_graph rt))" "pn_id n = ns_nodeId s" by (auto simp: node_ids_def)
    with R(4) [OF _ s] find_node_eq [OF I(1)] show ?thesis by auto
  qed
  then have "check_node_states (pg_nodes (vp_graph rt)) (vp_states rt) [] = None"
    using I(4) by (simp add: check_node_states_iff)
  then have states: "normalizeNodeStates (vp_graph rt) (vp_states rt) = Inr (vp_states rt)"
    using len by (simp add: normalizeNodeStates_def)
  have decisions: "map_throw (validateDecisionLineage H) (vp_decisions rt) = Inr (vp_decisions rt)"
    and proofs: "map_throw (validateRevisionProof H collate) (vp_revisionProofs rt) = Inr (vp_revisionProofs rt)"
    using R(5,6) by (auto intro: map_throw_id)
  let ?rt0 = "\<lparr>vp_goal = vp_goal rt, vp_graph = vp_graph rt, vp_goalDigest = digestPlan H (goal_json (vp_goal rt)),
     vp_planDigest = digestPlan H (graph_json (vp_graph rt)), vp_states = vp_states rt, vp_decisions = vp_decisions rt,
     vp_receipts = vp_receipts rt, vp_revisionProofs = []\<rparr>"
  have rt: "?rt0\<lparr>vp_revisionProofs := vp_revisionProofs rt\<rparr> = rt" using R(1,2) by simp
  have known: "for_all_throw (check_decision ?rt0) (vp_decisions rt) = None"
    unfolding for_all_throw_None_iff using R(1,2,5) check_decision_cong [of ?rt0 rt] by simp
  have receipts: "validatePersistedReceipts H rt = None"
    using R(8,9,11) by (simp add: validatePersistedReceipts_iff)
  have sha: "plan_sha256 l (digestPlan H v) = Inr (digestPlan H v)" for l v using hex_digestPlan [OF hex] by (simp add: plan_checks_Inr)
  show ?thesis
    unfolding restoreRuntime_def exportState_def R(3)
    by (simp add: R(1,2) sha states decisions known proofs Let_def rt [simplified] R(7) receipts)
qed

lemma restorable_envelope:
  assumes "plan_inv H rt" "restorable H collate rt" "hex_hashing H"
  shows "fromEnvelope H collate (exportEnvelope H rt) = Inr rt"
  using restorable_restores [OF assms] hex_digestPlan [OF assms(3)]
  by (simp add: fromEnvelope_def exportEnvelope_def fromState_def plan_sha256_def) (simp add: exportState_def)

section \<open>Preservation\<close>

definition hex_property :: "string property \<Rightarrow> bool" where
  "hex_property p \<longleftrightarrow> (case truthy (prop_value p) of None \<Rightarrow> True | Some d \<Rightarrow> hex64_text d)"

lemma check_node_state_iff:
  "check_node_state n s = None \<longleftrightarrow>
   is_safe_integer (ns_attempts s) \<and> 0 \<le> ns_attempts s \<and> ns_attempts s \<le> pn_maxAttempts n
   \<and> hex_property (ns_lastExecutionDigest s) \<and> hex_property (ns_verificationReceiptDigest s) \<and> hex_property (ns_verifiedNodeDigest s)
   \<and> (truthy (prop_value (ns_verificationReceiptDigest s)) \<noteq> None \<longrightarrow> truthy (prop_value (ns_verifiedNodeDigest s)) \<noteq> None)"
proof -
  have w: "when_digest l p = None \<longleftrightarrow> hex_property p" for l p
    by (auto simp: when_digest_def hex_property_def plan_sha256_def js_fail_def split: option.splits)
  note h = w [of "''node.lastExecutionDigest''" "ns_lastExecutionDigest s", symmetric]
    w [of "''node.verificationReceiptDigest''" "ns_verificationReceiptDigest s", symmetric]
    w [of "''node.verifiedNodeDigest''" "ns_verifiedNodeDigest s", symmetric]
  show ?thesis unfolding check_node_state_def h not_less by (auto split: option.splits)
qed

text \<open>The checks look at a runtime only through these fields.\<close>

lemma check_receipt_cong:
  "find_state (vp_states rt') (vr_nodeId r) = find_state (vp_states rt) (vr_nodeId r) \<Longrightarrow> vp_graph rt' = vp_graph rt \<Longrightarrow> vp_goal rt' = vp_goal rt
   \<Longrightarrow> vp_revisionProofs rt' = vp_revisionProofs rt \<Longrightarrow> check_receipt H rt' r = check_receipt H rt r"
proof -
  assume *: "find_state (vp_states rt') (vr_nodeId r) = find_state (vp_states rt) (vr_nodeId r)" "vp_graph rt' = vp_graph rt"
    "vp_goal rt' = vp_goal rt" "vp_revisionProofs rt' = vp_revisionProofs rt"
  then have "completion_lineage rt' = completion_lineage rt" "isNodePreservedAcrossRevisions rt' = isNodePreservedAcrossRevisions rt"
    by (simp_all add: fun_eq_iff completion_lineage_def isNodePreservedAcrossRevisions_def)
  with * show ?thesis by (simp only: check_receipt_def)
qed

lemma check_chain_cong:
  "vp_graph rt' = vp_graph rt \<Longrightarrow> vp_goal rt' = vp_goal rt \<Longrightarrow> vp_planDigest rt' = vp_planDigest rt
   \<Longrightarrow> check_proof_chain rt' ps prev seen = check_proof_chain rt ps prev seen"
  by (induction ps arbitrary: prev seen) (simp_all split: option.split)

lemma validateRevisionProofChain_cong:
  "vp_graph rt' = vp_graph rt \<Longrightarrow> vp_goal rt' = vp_goal rt \<Longrightarrow> vp_planDigest rt' = vp_planDigest rt
   \<Longrightarrow> vp_revisionProofs rt' = vp_revisionProofs rt \<Longrightarrow> validateRevisionProofChain rt' = validateRevisionProofChain rt"
  using check_chain_cong [of rt' rt] by (simp only: validateRevisionProofChain_def)

lemma check_verified_cong:
  "find_state (vp_states rt') (pn_id n) = find_state (vp_states rt) (pn_id n) \<Longrightarrow> vp_receipts rt' = vp_receipts rt
   \<Longrightarrow> check_verified_node H rt' n = check_verified_node H rt n"
  by (simp only: check_verified_node_def)

lemma restorable_map:
  assumes inv: "plan_inv H rt" and res: "restorable H collate rt"
    and ids: "\<And>s. ns_nodeId (f s) = ns_nodeId s"
    and fixed: "\<And>s. s \<in> set (vp_states rt) \<Longrightarrow> ns_status s = NsSucceeded \<Longrightarrow> f s = s"
    and new: "\<And>n s. n \<in> set (pg_nodes (vp_graph rt)) \<Longrightarrow> s \<in> set (vp_states rt) \<Longrightarrow> ns_nodeId s = pn_id n
      \<Longrightarrow> ns_status s \<noteq> NsSucceeded \<Longrightarrow> f s \<noteq> s \<Longrightarrow> check_node_state n (f s) = None
        \<and> (ns_status (f s) = NsSucceeded \<longrightarrow> pn_verificationFactKeys n = [])
        \<and> (ns_status (f s) \<noteq> NsSucceeded \<longrightarrow> truthy (prop_value (ns_verificationReceiptDigest (f s))) = None)"
  shows "restorable H collate (rt\<lparr>vp_states := map f (vp_states rt)\<rparr>)"
proof -
  note I = plan_invD [OF inv] and R = restorableD [OF res]
  let ?rt = "rt\<lparr>vp_states := map f (vp_states rt)\<rparr>"
  have look: "find_state (map f (vp_states rt)) i = map_option f (find_state (vp_states rt) i)" for i
    by (rule find_state_map) (rule ids)
  have receipt: "find_state (map f (vp_states rt)) (vr_nodeId r) = find_state (vp_states rt) (vr_nodeId r)"
    if r: "r \<in> set (vp_receipts rt)" for r
  proof -
    from R(10) [OF r] obtain s where s: "find_state (vp_states rt) (vr_nodeId r) = Some s" "ns_status s = NsSucceeded" by blast
    then have "f s = s" using fixed find_state_SomeD by blast
    with s look show ?thesis by simp
  qed
  have node: "check_node_state n (f s) = None" if "n \<in> set (pg_nodes (vp_graph rt))" "s \<in> set (vp_states rt)" "ns_nodeId s = pn_id n" for n s
    using new [OF that] fixed [OF that(2)] R(4) [OF that] by (cases "f s = s") auto
  have verified: "check_verified_node H ?rt n = None" if n: "n \<in> set (pg_nodes (vp_graph rt))" for n
  proof -
    have "pn_id n \<in> set (map ns_nodeId (vp_states rt))" using I(5) n by (auto simp: node_ids_def)
    then obtain s where s: "s \<in> set (vp_states rt)" "ns_nodeId s = pn_id n" by auto
    then have found: "find_state (vp_states rt) (pn_id n) = Some s" using find_state_iff [OF I(4)] by simp
    show ?thesis
    proof (cases "f s = s")
      case True
      with R(11) [OF n] found look [of "pn_id n"] check_verified_cong [of ?rt n rt H] show ?thesis by simp
    next
      case False
      then have "ns_status s \<noteq> NsSucceeded" using fixed s(1) by blast
      with new [OF n s] False look [of "pn_id n"] found show ?thesis by (auto simp: check_verified_node_def)
    qed
  qed
  have owner: "\<exists>n\<in>set (pg_nodes (vp_graph rt)). ns_nodeId s = pn_id n" if "s \<in> set (vp_states rt)" for s
  proof -
    have "ns_nodeId s \<in> set (node_ids (pg_nodes (vp_graph rt)))" using I(5) that by force
    then show ?thesis by (auto simp: node_ids_def)
  qed
  have quiet: "truthy (prop_value (ns_verificationReceiptDigest (f s))) = None"
    if "s \<in> set (vp_states rt)" "ns_status (f s) \<noteq> NsSucceeded" for s
    using owner [OF that(1)] new [OF _ that(1)] fixed [OF that(1)] R(12) [OF that(1)] that(2) by (cases "f s = s") auto
  show ?thesis
    unfolding restorable_def
  proof (intro conjI ballI impI)
    show "check_decision ?rt d = None" if "d \<in> set (vp_decisions ?rt)" for d
      using R(5) that check_decision_cong [of ?rt rt d] by simp
    show "validateRevisionProofChain ?rt = None"
      using R(7) validateRevisionProofChain_cong [of ?rt rt] by simp
    show "check_receipt H ?rt r = None" if "r \<in> set (vp_receipts ?rt)" for r
      using R(9) check_receipt_cong [of ?rt r rt H] receipt that by simp
    show "map_option ns_status (find_state (vp_states ?rt) (vr_nodeId r)) = Some NsSucceeded" if "r \<in> set (vp_receipts ?rt)" for r
      using R(10) receipt that by auto
    show "check_node_state n s = None" if "n \<in> set (pg_nodes (vp_graph ?rt))" "s \<in> set (vp_states ?rt)" "ns_nodeId s = pn_id n" for n s
      using node that ids by auto
    show "truthy (prop_value (ns_verificationReceiptDigest s)) = None" if "s \<in> set (vp_states ?rt)" "ns_status s \<noteq> NsSucceeded" for s
      using quiet that by auto
  qed (use R verified in auto)
qed

lemma hex_property_simps [simp]: "hex_property Undefined" "hex_property Absent" "hex64_text d \<Longrightarrow> hex_property (Value d)"
  by (simp_all add: hex_property_def truthy_def split: option.splits if_splits)

lemma bindBeliefs_restorable:
  assumes inv: "plan_inv H rt" and res: "restorable H collate rt" and bind: "bindBeliefs rt beliefs now = Inr (rt', r)"
  shows "restorable H collate rt'"
proof -
  from bind have b: "bindPlanToBeliefs (vp_graph rt) (vp_states rt) beliefs now = Inr r" and rt': "rt' = rt\<lparr>vp_states := bb_states r\<rparr>"
    by (auto simp: bindBeliefs_def bind_result_Inr split: if_splits)
  let ?f = "\<lambda>s. refresh_state now (bb_readyNodeIds r) (invalidate_state now (bb_invalidatedNodeIds r) s)"
  have f: "bb_states r = map ?f (vp_states rt)" using b by (rule bindPlanToBeliefs_InrD)
  have kept: "ns_attempts (?f s) = ns_attempts s" "ns_lastExecutionDigest (?f s) = ns_lastExecutionDigest s"
    "ns_verificationReceiptDigest (?f s) = ns_verificationReceiptDigest s" "ns_verifiedNodeDigest (?f s) = ns_verifiedNodeDigest s"
    "ns_status (?f s) = NsSucceeded \<longleftrightarrow> ns_status s = NsSucceeded" for s
    by (auto simp: refresh_state_def invalidate_state_def)
  show ?thesis
    unfolding rt' f
  proof (rule restorable_map [OF inv res])
    fix n s assume n: "n \<in> set (pg_nodes (vp_graph rt))" "s \<in> set (vp_states rt)" "ns_nodeId s = pn_id n" "ns_status s \<noteq> NsSucceeded"
    show "check_node_state n (?f s) = None \<and> (ns_status (?f s) = NsSucceeded \<longrightarrow> pn_verificationFactKeys n = [])
        \<and> (ns_status (?f s) \<noteq> NsSucceeded \<longrightarrow> truthy (prop_value (ns_verificationReceiptDigest (?f s))) = None)"
      using restorableD(4) [OF res n(1-3)] restorableD(12) [OF res n(2,4)] n(4) unfolding check_node_state_iff kept by blast
  qed (auto intro: bind_settled_unchanged)
qed

lemma replaceState_restorable:
  assumes inv: "plan_inv H rt" and res: "restorable H collate rt"
    and s: "s \<in> set (vp_states rt)" "ns_status s \<noteq> NsSucceeded" "ns_nodeId next = ns_nodeId s"
    and n: "n \<in> set (pg_nodes (vp_graph rt))" "pn_id n = ns_nodeId s"
    and ok: "check_node_state n next = None" "ns_status next = NsSucceeded \<longrightarrow> pn_verificationFactKeys n = []"
      "ns_status next \<noteq> NsSucceeded \<longrightarrow> truthy (prop_value (ns_verificationReceiptDigest next)) = None"
  shows "restorable H collate (replaceState rt next)"
proof -
  note I = plan_invD [OF inv]
  show ?thesis
    unfolding replaceState_def replace_by_def
  proof (rule restorable_map [OF inv res])
    show "(if ns_nodeId t = ns_nodeId next then next else t) = t" if "t \<in> set (vp_states rt)" "ns_status t = NsSucceeded" for t
      using s that same_state [OF I(4) that(1) s(1)] by auto
    fix m t assume "m \<in> set (pg_nodes (vp_graph rt))" "ns_nodeId t = pn_id m" "(if ns_nodeId t = ns_nodeId next then next else t) \<noteq> t"
    moreover from this have "m = n" using same_node [OF I(1) _ n(1)] s(3) n(2) by (auto split: if_splits)
    ultimately show "check_node_state m (if ns_nodeId t = ns_nodeId next then next else t) = None
        \<and> (ns_status (if ns_nodeId t = ns_nodeId next then next else t) = NsSucceeded \<longrightarrow> pn_verificationFactKeys m = [])
        \<and> (ns_status (if ns_nodeId t = ns_nodeId next then next else t) \<noteq> NsSucceeded
          \<longrightarrow> truthy (prop_value (ns_verificationReceiptDigest (if ns_nodeId t = ns_nodeId next then next else t))) = None)"
      using ok by (auto split: if_splits)
  qed auto
qed

lemma startNode_restorable:
  assumes inv: "plan_inv H rt" and res: "restorable H collate rt" and start: "startNode rt i now = Inr (rt', s')"
  shows "restorable H collate rt'"
proof -
  from start obtain n s where n: "find_node (pg_nodes (vp_graph rt)) i = Some n" and s: "find_state (vp_states rt) i = Some s"
    and st: "ns_status s = NsReady" and rt': "rt' = replaceState rt s'" and max: "ns_attempts s < pn_maxAttempts n"
    and s': "s' = s\<lparr>ns_status := NsRunning, ns_attempts := ns_attempts s + 1, ns_lastReason := Undefined,
            ns_lastExecutionDigest := Undefined, ns_verificationReceiptDigest := Undefined,
            ns_verifiedNodeDigest := Undefined, ns_lastUpdatedAt := now\<rparr>"
    by (auto simp: startNode_def bind_result_Inr found_node found_state Let_def split: if_splits)
  have mem: "n \<in> set (pg_nodes (vp_graph rt))" "s \<in> set (vp_states rt)" "ns_nodeId s = pn_id n"
    using n s by (auto dest!: find_node_SomeD find_state_SomeD)
  have "ns_attempts s = 0" using state_okD(5) [OF plan_invD(6) [OF inv mem]] st by simp
  then have "check_node_state n s' = None"
    using max unfolding check_node_state_iff s' by (simp add: is_safe_integer_def max_safe_integer_def truthy_def)
  then show ?thesis
    unfolding rt' using mem st by (intro replaceState_restorable [OF inv res, of s]) (simp_all add: s' truthy_def)
qed

lemma recordExecution_restorable:
  assumes inv: "plan_inv H rt" and res: "restorable H collate rt" and hex: "hex_hashing H"
    and rec: "recordExecution H rt i observation now = Inr (rt', s', digest, repair)"
  shows "restorable H collate rt'"
  using rec
proof (rule recordExecution_cases)
  fix n s assume n: "find_node (pg_nodes (vp_graph rt)) i = Some n" and s: "find_state (vp_states rt) i = Some s"
    and run: "ns_status s = NsRunning" and dig: "\<exists>ob. digest = execution_digest H rt i (ns_attempts s) ob"
    and out: "(\<exists>dead reason. s' = s\<lparr>ns_status := NsFailed, ns_lastExecutionDigest := Value digest, ns_verificationReceiptDigest := Undefined,
             ns_verifiedNodeDigest := Undefined, ns_lastReason := Value reason, ns_lastUpdatedAt := now\<rparr>
        \<and> rt' = rt\<lparr>vp_states := map (repair_state s' dead now) (vp_states rt)\<rparr>)
     \<or> (\<exists>reason. s' = s\<lparr>ns_lastExecutionDigest := Value digest,
             ns_status := (if pn_verificationFactKeys n \<noteq> [] then NsBlocked else NsSucceeded),
             ns_lastReason := Value reason, ns_lastUpdatedAt := now\<rparr> \<and> rt' = replaceState rt s')"
  have mem: "n \<in> set (pg_nodes (vp_graph rt))" "s \<in> set (vp_states rt)" "ns_nodeId s = pn_id n"
    using n s by (auto dest!: find_node_SomeD find_state_SomeD)
  note I = plan_invD [OF inv]
  have hexd: "hex_property (Value digest)" using dig hex_digestPlan [OF hex] by (auto simp: execution_digest_def)
  have chk: "check_node_state n s = None" by (rule restorableD(4) [OF res mem])
  have quiet: "truthy (prop_value (ns_verificationReceiptDigest s)) = None" using restorableD(12) [OF res mem(2)] run by simp
  from out show ?thesis
  proof (elim disjE exE conjE)
    fix dead reason
    assume s': "s' = s\<lparr>ns_status := NsFailed, ns_lastExecutionDigest := Value digest, ns_verificationReceiptDigest := Undefined,
             ns_verifiedNodeDigest := Undefined, ns_lastReason := Value reason, ns_lastUpdatedAt := now\<rparr>"
      and rt': "rt' = rt\<lparr>vp_states := map (repair_state s' dead now) (vp_states rt)\<rparr>"
    show ?thesis
      unfolding rt'
    proof (rule restorable_map [OF inv res])
      show "repair_state s' dead now t = t" if "t \<in> set (vp_states rt)" "ns_status t = NsSucceeded" for t
        using that(2) run same_state [OF I(4) that(1) mem(2)] by (auto simp: repair_state_def s')
      fix m t assume m: "m \<in> set (pg_nodes (vp_graph rt))" "t \<in> set (vp_states rt)" "ns_nodeId t = pn_id m" "ns_status t \<noteq> NsSucceeded"
        "repair_state s' dead now t \<noteq> t"
      show "check_node_state m (repair_state s' dead now t) = None
          \<and> (ns_status (repair_state s' dead now t) = NsSucceeded \<longrightarrow> pn_verificationFactKeys m = [])
          \<and> (ns_status (repair_state s' dead now t) \<noteq> NsSucceeded
            \<longrightarrow> truthy (prop_value (ns_verificationReceiptDigest (repair_state s' dead now t))) = None)"
      proof (cases "ns_nodeId t = ns_nodeId s'")
        case True
        then have "m = n" using same_node [OF I(1) m(1) mem(1)] m(3) mem(3) s' by simp
        moreover have "check_node_state n s' = None" using chk hexd unfolding check_node_state_iff s' by (simp add: truthy_def)
        ultimately show ?thesis using True s' by (simp add: repair_state_def truthy_def)
      next
        case False
        with m(5) have "repair_state s' dead now t
            = t\<lparr>ns_status := NsInvalidated, ns_lastReason := Value ''local-repair-invalidated'', ns_lastUpdatedAt := now\<rparr>"
          by (auto simp: repair_state_def)
        with restorableD(4) [OF res m(1-3)] restorableD(12) [OF res m(2,4)] show ?thesis by (simp add: check_node_state_iff)
      qed
    qed (auto simp: repair_state_def)
  next
    fix reason
    assume s': "s' = s\<lparr>ns_lastExecutionDigest := Value digest,
             ns_status := (if pn_verificationFactKeys n \<noteq> [] then NsBlocked else NsSucceeded),
             ns_lastReason := Value reason, ns_lastUpdatedAt := now\<rparr>" and rt': "rt' = replaceState rt s'"
    have "check_node_state n s' = None" using chk hexd unfolding check_node_state_iff s' by simp
    then show ?thesis
      unfolding rt' using mem run quiet by (intro replaceState_restorable [OF inv res, of s]) (auto simp: s')
  qed
qed

lemma validateCompletionReceipt_idem:
  assumes "validateCompletionReceipt r l = Inr q"
  shows "validateCompletionReceipt q l = Inr q"
proof -
  have "hex64_text (vr_executionDigest r)" "to_lower (vr_executionDigest r) = cl_executionDigest l"
    using assms by (auto simp: validateCompletionReceipt_def bind_result_Inr plan_checks_Inr split: if_split_asm)
  then have "hex64_text (cl_executionDigest l)" "to_lower (cl_executionDigest l) = cl_executionDigest l"
    using hex64_lower to_lower_lower by metis+
  with assms show ?thesis
    by (auto simp: validateCompletionReceipt_def bind_result_Inr plan_checks_Inr hex64_lower split: if_split_asm)
qed

lemma find_state_replace:
  assumes "distinct (map ns_nodeId states)" "s \<in> set states" "ns_nodeId next = ns_nodeId s"
  shows "find_state (replace_by ns_nodeId next states) i = (if i = ns_nodeId s then Some next else find_state states i)"
proof (cases "i = ns_nodeId s")
  case True
  have "ns_nodeId next \<in> ns_nodeId ` set states" using assms(2,3) by force
  with True assms(3) show ?thesis unfolding find_state_def using find_replace_by_same [of ns_nodeId "next" states] by simp
next
  case False
  with assms(3) show ?thesis unfolding find_state_def by (simp add: find_replace_by_other)
qed

lemma check_receipt_fresh:
  assumes "find_state (vp_states rt) (vr_nodeId r) = Some s" "prop_value (ns_lastExecutionDigest s) = Some x" "x \<noteq> []"
    "prop_value (ns_verificationReceiptDigest s) = Some (vr_digest r)" "vr_planVersion r = pg_version (vp_graph rt)"
    "validateCompletionReceipt r (completion_lineage rt (pg_version (vp_graph rt)) (vr_nodeId r) (ns_attempts s) x) = Inr q"
    "find_node (pg_nodes (vp_graph rt)) (vr_nodeId r) = Some n" "prop_value (ns_verifiedNodeDigest s) = Some (node_digest H n)" "hex_hashing H"
  shows "check_receipt H rt r = None"
proof -
  have "truthy (Some (node_digest H n)) = Some (node_digest H n)" "truthy (Some x) = Some x"
    "plan_sha256 ''state.verifiedNodeDigest'' (node_digest H n) = Inr (node_digest H n)"
    using digest_truthy [OF assms(9)] hex_digestPlan [OF assms(9)] assms(3) by (simp_all add: node_digest_def truthy_def plan_sha256_def)
  with assms(1-8) show ?thesis by (simp add: check_receipt_def)
qed

lemma markVerifiedComplete_restorable:
  assumes inv: "plan_inv H rt" and res: "restorable H collate rt" and hex: "hex_hashing H" and num: "number_text (h_num H)"
    and mark: "markVerifiedComplete H rt i receipt now = Inr (rt', s')"
  shows "restorable H collate rt'"
  using mark
proof (rule markVerifiedComplete_cases)
  fix n s x r assume n: "find_node (pg_nodes (vp_graph rt)) i = Some n" and s: "find_state (vp_states rt) i = Some s"
    and st: "ns_status s = NsBlocked \<or> ns_status s = NsRunning" and keys: "pn_verificationFactKeys n \<noteq> []"
    and x: "prop_value (ns_lastExecutionDigest s) = Some x" "x \<noteq> []"
    and val: "validateCompletionReceipt receipt (completion_lineage rt (pg_version (vp_graph rt)) i (ns_attempts s) x) = Inr r"
    and old: "find (\<lambda>q. vr_digest q = vr_digest r) (vp_receipts rt) = None
     \<or> (\<exists>q. find (\<lambda>q. vr_digest q = vr_digest r) (vp_receipts rt) = Some q
          \<and> canonical (h_num H) (receipt_json H q) = canonical (h_num H) (receipt_json H r))"
    and s': "s' = s\<lparr>ns_status := NsSucceeded, ns_verificationReceiptDigest := Value (vr_digest r),
        ns_verifiedNodeDigest := Value (node_digest H n),
        ns_lastReason := Value ''independent-verification-receipt-accepted'', ns_lastUpdatedAt := now\<rparr>"
    and rt': "rt' = replaceState (if find (\<lambda>q. vr_digest q = vr_digest r) (vp_receipts rt) = None
        then rt\<lparr>vp_receipts := vp_receipts rt @ [r]\<rparr> else rt) s'"
  note I = plan_invD [OF inv] and R = restorableD [OF res]
  have mem: "n \<in> set (pg_nodes (vp_graph rt))" "s \<in> set (vp_states rt)" "ns_nodeId s = pn_id n" "pn_id n = i"
    using n s by (auto dest!: find_node_SomeD find_state_SomeD)
  note V = validateCompletionReceipt_InrD [OF val, unfolded completion_lineage_def, simplified]
  have not_old: "vr_nodeId q \<noteq> i" if "q \<in> set (vp_receipts rt)" for q
    using R(10) [OF that] s st by auto
  have none: "find (\<lambda>q. vr_digest q = vr_digest r) (vp_receipts rt) = None"
  proof (rule ccontr)
    assume "find (\<lambda>q. vr_digest q = vr_digest r) (vp_receipts rt) \<noteq> None"
    with old obtain q where q: "find (\<lambda>q. vr_digest q = vr_digest r) (vp_receipts rt) = Some q"
      "canonical (h_num H) (receipt_json H q) = canonical (h_num H) (receipt_json H r)" by auto
    with receipt_text_inject(1) [OF q(2) num] V(5,12) not_old [of q] find_SomeD [OF q(1)] show False by auto
  qed
  then have fresh: "vr_digest r \<notin> vr_digest ` set (vp_receipts rt)" by (auto simp: find_None_iff_all)
  have rt'': "vp_states rt' = replace_by ns_nodeId s' (vp_states rt)" "vp_receipts rt' = vp_receipts rt @ [r]" "vp_graph rt' = vp_graph rt"
    "vp_goal rt' = vp_goal rt" "vp_revisionProofs rt' = vp_revisionProofs rt" "vp_planDigest rt' = vp_planDigest rt"
    "vp_goalDigest rt' = vp_goalDigest rt" "vp_decisions rt' = vp_decisions rt"
    using none by (simp_all add: rt' replaceState_def)
  have look: "find_state (vp_states rt') j = (if j = i then Some s' else find_state (vp_states rt) j)" for j
    unfolding rt''(1) using find_state_replace [OF I(4) mem(2), of s'] mem(3,4) s' by simp
  have in_states: "t = s' \<or> t \<in> set (vp_states rt)" if "t \<in> set (vp_states rt')" for t
    using that unfolding rt''(1) replace_by_def by auto
  have lineage: "completion_lineage rt' = completion_lineage rt" by (simp add: fun_eq_iff completion_lineage_def rt'')
  have "check_receipt H rt' r = None"
  proof (rule check_receipt_fresh)
    show "find_state (vp_states rt') (vr_nodeId r) = Some s'" using look V by simp
    show "validateCompletionReceipt r (completion_lineage rt' (pg_version (vp_graph rt')) (vr_nodeId r) (ns_attempts s') x) = Inr r"
      using validateCompletionReceipt_idem [OF val] V by (simp add: lineage rt'' s')
  qed (use x V n hex in \<open>simp_all add: s' rt''\<close>)
  moreover have "check_receipt H rt' q = None" if "q \<in> set (vp_receipts rt)" for q
    using R(9) [OF that] check_receipt_cong [of rt' q rt H] look [of "vr_nodeId q"] not_old [OF that] rt'' by simp
  ultimately have receipts: "\<forall>q\<in>set (vp_receipts rt'). check_receipt H rt' q = None" by (simp add: rt'')
  have verified: "check_verified_node H rt' m = None" if m: "m \<in> set (pg_nodes (vp_graph rt))" for m
  proof (cases "pn_id m = i")
    case True
    then have "m = n" using same_node [OF I(1) m mem(1)] mem(4) by simp
    moreover have "truthy (Some (vr_digest r)) \<noteq> None" using V(14) by (auto simp: truthy_def hex64_text_def)
    ultimately show ?thesis using look [of i] True V digest_truthy [OF hex]
      by (auto simp: check_verified_node_def s' rt'' node_digest_def)
  next
    case False
    with R(11) [OF m] look [of "pn_id m"] show ?thesis
      by (auto simp: check_verified_node_def rt'' split: option.splits if_splits)
  qed
  have node: "check_node_state m t = None" if m: "m \<in> set (pg_nodes (vp_graph rt))" and t: "t \<in> set (vp_states rt')" "ns_nodeId t = pn_id m" for m t
  proof (cases "t = s'")
    case True
    then have "m = n" using same_node [OF I(1) m mem(1)] t(2) mem(3) s' by simp
    moreover have "hex_property (Value (vr_digest r))" "hex_property (Value (node_digest H n))" "truthy (Some (node_digest H n)) \<noteq> None"
      using V(14) hex_digestPlan [OF hex] digest_truthy [OF hex] by (auto simp: node_digest_def)
    ultimately show ?thesis using R(4) [OF mem(1-3)] True by (simp add: check_node_state_iff s')
  next
    case False
    with in_states [OF t(1)] R(4) [OF m] t(2) show ?thesis by blast
  qed
  show ?thesis
    unfolding restorable_def
  proof (intro conjI ballI impI)
    show "check_decision rt' d = None" if "d \<in> set (vp_decisions rt')" for d
      using R(5) that check_decision_cong [of rt' rt d] rt'' by simp
    show "validateRevisionProofChain rt' = None" using R(7) validateRevisionProofChain_cong [of rt' rt] rt'' by simp
    show "check_receipt H rt' q = None" if "q \<in> set (vp_receipts rt')" for q using receipts that by blast
    show "distinct (map vr_digest (vp_receipts rt'))" using R(8) fresh by (simp add: rt'')
    show "map_option ns_status (find_state (vp_states rt') (vr_nodeId q)) = Some NsSucceeded" if "q \<in> set (vp_receipts rt')" for q
    proof (cases "q = r")
      case True
      then show ?thesis using look V by (simp add: s')
    next
      case False
      then have "q \<in> set (vp_receipts rt)" using that by (simp add: rt'')
      with R(10) [OF this] look not_old [OF this] show ?thesis by auto
    qed
    show "truthy (prop_value (ns_verificationReceiptDigest t)) = None" if "t \<in> set (vp_states rt')" "ns_status t \<noteq> NsSucceeded" for t
      using in_states [OF that(1)] that(2) R(12) by (auto simp: s')
  qed (use R verified node in \<open>auto simp: rt''\<close>)
qed

lemma sort_key_sorted_id: "sorted (map f xs) \<Longrightarrow> sort_key f xs = xs"
  by (induction xs) (simp_all add: insort_is_Cons)

lemma normalizeProofBody_idem:
  assumes "normalizeProofBody collate b = Inr c"
  shows "normalizeProofBody collate c = Inr c"
proof -
  from assms obtain es where *: "map_throw normalize_preserved (rp_preservedNodeDigests b) = Inr es"
    "rp_preservedNodeDigests c = sort_key (\<lambda>e. collate (pd_nodeId e)) es" "distinct (map pd_nodeId (rp_preservedNodeDigests c))"
    "plan_integer 1 max_safe_integer ''revision.fromVersion'' (rp_fromVersion b) = Inr (rp_fromVersion c)"
    "plan_integer 2 max_safe_integer ''revision.toVersion'' (rp_toVersion b) = Inr (rp_toVersion c)" "rp_toVersion c = rp_fromVersion c + 1"
    "plan_bounded 256 ''revision.planId'' (rp_planId b) = Inr (rp_planId c)" "plan_bounded 256 ''revision.goalId'' (rp_goalId b) = Inr (rp_goalId c)"
    "plan_sha256 ''revision.fromPlanDigest'' (rp_fromPlanDigest b) = Inr (rp_fromPlanDigest c)"
    "plan_sha256 ''revision.toPlanDigest'' (rp_toPlanDigest b) = Inr (rp_toPlanDigest c)"
    "unique_bounded 256 ''revision.resetNodeId'' (rp_resetNodeIds b) = Inr (rp_resetNodeIds c)"
    unfolding normalizeProofBody_def by (auto simp: bind_result_Inr Let_def split: if_split_asm)
  have "normalize_preserved e = Inr e" if "e \<in> set es" for e
  proof -
    from that obtain e0 where "normalize_preserved e0 = Inr e" using map_throw_set [OF *(1)] by blast
    then show ?thesis by (auto simp: normalize_preserved_def bind_result_Inr plan_checks_Inr hex64_lower)
  qed
  then have entries: "map_throw normalize_preserved (rp_preservedNodeDigests c) = Inr (rp_preservedNodeDigests c)"
    using *(2) by (intro map_throw_id) simp
  have sorted: "sort_key (\<lambda>e. collate (pd_nodeId e)) (rp_preservedNodeDigests c) = rp_preservedNodeDigests c"
    unfolding *(2) by (intro sort_key_sorted_id sorted_sort_key)
  show ?thesis
    unfolding normalizeProofBody_def
    by (simp add: plan_number_idem(3) [OF *(4)] plan_number_idem(3) [OF *(5)] *(3) eqTrueI [OF *(6)] entries sorted Let_def
        plan_bounded_idem(1) [OF *(7)] plan_bounded_idem(1) [OF *(8)] plan_sha256_idem(1) [OF *(9)] plan_sha256_idem(1) [OF *(10)]
        unique_bounded_idem [OF *(11)])
qed

lemma validateRevisionProof_idem:
  assumes "hex_hashing H" "validateRevisionProof H collate p = Inr q"
  shows "validateRevisionProof H collate q = Inr q"
proof -
  from assms(2) obtain b where b: "normalizeProofBody collate (rp_body p) = Inr b" "q = \<lparr>rp_digest = revision_digest H b, rp_body = b\<rparr>"
    by (auto simp: validateRevisionProof_def bind_result_Inr split: if_splits)
  then show ?thesis
    using normalizeProofBody_idem [OF b(1)] hex_digestPlan [OF assms(1)]
    by (simp add: validateRevisionProof_def plan_sha256_def revision_digest_def)
qed

lemma appendDecision_restorable:
  assumes res: "restorable H collate rt" and hex: "hex_hashing H" and app: "appendDecision H rt decision = Inr rt'"
  shows "restorable H collate rt'"
proof -
  note R = restorableD [OF res]
  from app obtain d where d: "validateDecisionLineage H decision = Inr d" "\<not> foreign_decision rt (dl_body d)"
      "find_node (pg_nodes (vp_graph rt)) (dl_nodeId (dl_body d)) \<noteq> None"
      "rt' = rt \<or> rt' = rt\<lparr>vp_decisions := (let ds = vp_decisions rt @ [d] in if length ds > 100000 then drop (length ds - 100000) ds else ds)\<rparr>"
    by (auto simp: appendDecision_def bind_result_Inr Let_def split: if_splits)
  then have "check_decision rt d = None" by (simp add: check_decision_def)
  define new where "new = (let ds = vp_decisions rt @ [d] in if length ds > 100000 then drop (length ds - 100000) ds else ds)"
  have "set (drop k (vp_decisions rt @ [d])) \<subseteq> insert d (set (vp_decisions rt))" for k
    using set_drop_subset [of k "vp_decisions rt @ [d]"] by auto
  then have "set new \<subseteq> insert d (set (vp_decisions rt))" unfolding new_def Let_def by (cases "length (vp_decisions rt @ [d]) > 100000") auto
  moreover obtain ds where rt': "rt' = rt\<lparr>vp_decisions := ds\<rparr>" and "ds = vp_decisions rt \<or> ds = new"
  proof -
    note pick = that
    from d(4) [folded new_def] show thesis
    proof
      assume "rt' = rt"
      then show thesis by (intro pick [of "vp_decisions rt"]) simp_all
    next
      assume "rt' = rt\<lparr>vp_decisions := new\<rparr>"
      then show thesis by (intro pick [of new]) simp_all
    qed
  qed
  ultimately have sub: "set ds \<subseteq> insert d (set (vp_decisions rt))" by blast
  have ds: "e \<in> set (vp_decisions rt) \<or> (validateDecisionLineage H decision = Inr e \<and> check_decision rt e = None)" if "e \<in> set ds" for e
    using subsetD [OF sub that] d(1) \<open>check_decision rt d = None\<close> by (cases "e = d") simp_all
  have same: "check_decision rt' e = check_decision rt e" for e by (rule check_decision_cong) (simp_all add: rt')
  have "validateDecisionLineage H e = Inr e \<and> check_decision rt' e = None" if "e \<in> set ds" for e
    using ds [OF that] R(5) [of e] validateDecisionLineage_InrD [OF hex, of decision e] unfolding same by blast
  moreover have "validateRevisionProofChain rt' = None" using R(7) validateRevisionProofChain_cong [of rt' rt] by (simp add: rt')
  moreover have "check_receipt H rt' r = None" if "r \<in> set (vp_receipts rt)" for r
    using R(9) [OF that] check_receipt_cong [of rt' r rt H] by (simp add: rt')
  moreover have "check_verified_node H rt' n = None" if "n \<in> set (pg_nodes (vp_graph rt))" for n
    using R(11) [OF that] check_verified_cong [of rt' n rt H] by (simp add: rt')
  ultimately show ?thesis using R unfolding restorable_def by (auto simp: rt')
qed

lemma revise_restorable:
  assumes inv: "plan_inv H rt" and res: "restorable H collate rt" and hex: "hex_hashing H"
    and rev: "revise H collate rt next now = Inr (rt', revision)"
  shows "restorable H collate rt'"
proof -
  note I = plan_invD [OF inv] and R = restorableD [OF res]
  from rev obtain state where r: "revisePlan H collate (vp_goal rt) (vp_graph rt) (vp_states rt) next now = Inr revision"
    and rest: "restoreRuntime H collate (vp_goal rt) (rv_graph revision) state = Inr rt'" and st: "rs_nodeStates state = rv_states revision"
    "rs_decisions state = []"
    by (auto simp: revise_def bind_result_Inr Let_def)
  note V = revisePlan_InrD [OF r] and T = restoreRuntime_InrD [OF rest]
  have dist: "distinct (node_ids (pg_nodes (vp_graph rt')))" by (rule validatePlanGraph_InrD(4) [OF T(1)])
  have "check_node_states (pg_nodes (vp_graph rt')) (vp_states rt') [] = None"
    using T(3,7) by (auto simp: normalizeNodeStates_def split: if_splits option.splits)
  then have states: "distinct (map ns_nodeId (vp_states rt'))"
    "\<forall>s\<in>set (vp_states rt'). \<exists>n. find_node (pg_nodes (vp_graph rt')) (ns_nodeId s) = Some n \<and> check_node_state n s = None"
    by (simp_all add: check_node_states_iff)
  have node: "check_node_state n s = None" if "n \<in> set (pg_nodes (vp_graph rt'))" "s \<in> set (vp_states rt')" "ns_nodeId s = pn_id n" for n s
    using states(2) that find_node_eq [OF dist] same_node [OF dist] by metis
  have quiet: "truthy (prop_value (ns_verificationReceiptDigest s)) = None" if s: "s \<in> set (vp_states rt')" "ns_status s \<noteq> NsSucceeded" for s
  proof -
    from s(1) T(3) st V(6) obtain f where "f \<in> set (initializeNodeStates (rv_graph revision) now)"
      "s = carry_state (vp_states rt) (revision_reset H (vp_graph rt) (rv_graph revision)) f" by auto
    then have "truthy (prop_value (ns_verificationReceiptDigest s)) = None \<or> s \<in> set (vp_states rt)"
      by (auto simp: carry_state_def last_state_eq [OF I(4)] initializeNodeStates_def truthy_def dest: find_state_SomeD split: if_splits option.splits)
    with R(12) s(2) show ?thesis by blast
  qed
  note P = T(5) [unfolded validatePersistedReceipts_iff]
  have settled: "map_option ns_status (find_state (vp_states rt') (vr_nodeId q)) = Some NsSucceeded" if q: "q \<in> set (vp_receipts rt')" for q
  proof -
    have chk: "check_receipt H rt' q = None" using P q by blast
    then obtain s where s: "find_state (vp_states rt') (vr_nodeId q) = Some s" by (auto simp: check_receipt_def split: option.splits)
    note C = check_receipt_None [OF chk s]
    from C(3) obtain x y where "validateCompletionReceipt q (completion_lineage rt' (vr_planVersion q) (vr_nodeId q) (ns_attempts s) x) = Inr y"
      by blast
    then have "hex64_text (vr_digest q)" by (auto simp: validateCompletionReceipt_def bind_result_Inr plan_checks_Inr)
    then have "truthy (prop_value (ns_verificationReceiptDigest s)) \<noteq> None" using C(1) by (auto simp: truthy_def hex64_text_def)
    with quiet [of s] s show ?thesis by (auto dest: find_state_SomeD)
  qed
  have proofs: "validateRevisionProof H collate p = Inr p" if "p \<in> set (vp_revisionProofs rt')" for p
    using map_throw_set [OF T(10)] that validateRevisionProof_idem [OF hex] by blast
  have "vp_decisions rt' = []" using T(11) st(2) by simp
  moreover have "validatePlanGraph (vp_goal rt') (vp_graph rt') = Inr (vp_graph rt')" using validatePlanGraph_idem [OF T(1)] T(2) by simp
  ultimately show ?thesis
    unfolding restorable_def using T(2,6,8,9) node quiet settled proofs P by auto
qed

lemma newRuntime_restorable:
  assumes "newRuntime H goal graph now = Inr rt"
  shows "restorable H collate rt"
proof -
  from assms obtain g where g: "validatePlanGraph goal graph = Inr g" and rt: "rt = \<lparr>vp_goal = goal, vp_graph = g, vp_goalDigest = digestPlan H (goal_json goal),
     vp_planDigest = digestPlan H (graph_json g), vp_states = initializeNodeStates g now, vp_decisions = [], vp_receipts = [], vp_revisionProofs = []\<rparr>"
    by (auto simp: newRuntime_def bind_result_Inr)
  have st: "s \<in> set (initializeNodeStates g now) \<Longrightarrow> ns_attempts s = 0 \<and> ns_status s \<noteq> NsSucceeded \<and> ns_lastExecutionDigest s = Absent
      \<and> ns_verificationReceiptDigest s = Absent \<and> ns_verifiedNodeDigest s = Absent" for s
    by (auto simp: initializeNodeStates_def split: if_splits)
  have max: "n \<in> set (pg_nodes g) \<Longrightarrow> 1 \<le> pn_maxAttempts n" for n using validated_graph(3) [OF g] .
  have "check_node_state n s = None" if "n \<in> set (pg_nodes g)" "s \<in> set (initializeNodeStates g now)" for n s
    using st [OF that(2)] max [OF that(1)] by (simp add: check_node_state_iff is_safe_integer_def max_safe_integer_def truthy_def)
  moreover have "check_verified_node H rt n = None" if n: "n \<in> set (pg_nodes g)" for n
  proof -
    have "pn_id n \<in> set (map ns_nodeId (initializeNodeStates g now))" using n unfolding init_ids by (simp add: node_ids_def)
    then obtain s where s: "s \<in> set (initializeNodeStates g now)" "ns_nodeId s = pn_id n" by auto
    have "distinct (map ns_nodeId (initializeNodeStates g now))" using validatePlanGraph_InrD(4) [OF g] by (simp only: init_ids)
    with s have "find_state (vp_states rt) (pn_id n) = Some s" by (simp add: find_state_iff rt)
    with st [OF s(1)] show ?thesis by (simp add: check_verified_node_def)
  qed
  ultimately show ?thesis
    unfolding restorable_def using st validatePlanGraph_idem [OF g]
    by (auto simp: rt validateRevisionProofChain_def truthy_def)
qed

section \<open>Histories\<close>

definition live :: "Hashing \<Rightarrow> (string \<Rightarrow> string) \<Rightarrow> VerifiedPlanRuntime \<Rightarrow> bool" where
  "live H collate rt \<longleftrightarrow> plan_inv H rt \<and> restorable H collate rt"

lemma plan_step_live:
  assumes "live H collate rt" "plan_admissible H rt op" "plan_step H collate rt op = Inr rt'"
  shows "live H collate rt'"
proof -
  have inv: "plan_inv H rt" and res: "restorable H collate rt" using assms(1) by (auto simp: live_def)
  have hex: "hex_hashing H" and num: "number_text (h_num H)" using assms(2) by (auto simp: plan_admissible_def)
  have "restorable H collate rt'"
    using assms(3)
    by (cases op) (auto simp: map_sum_fst_Inr intro: bindBeliefs_restorable [OF inv res] startNode_restorable [OF inv res]
        recordExecution_restorable [OF inv res hex] markVerifiedComplete_restorable [OF inv res hex num]
        revise_restorable [OF inv res hex] appendDecision_restorable [OF res hex])
  with plan_step_inv [OF inv assms(2,3)] show ?thesis by (simp add: live_def)
qed

interpretation live_store: transactional_store "plan_step H collate" "live H collate" "plan_admissible H" for H collate
  by unfold_locales (rule plan_step_live)

lemma history_live:
  assumes "newRuntime H goal graph now = Inr rt0" "all_admissible (plan_admissible H) (plan_step H collate) rt0 ops"
  shows "live H collate (run_ops (plan_step H collate) rt0 ops)"
  using live_store.run_inv [OF _ assms(2)] newRuntime_inv [OF assms(1)] newRuntime_restorable [OF assms(1)]
  by (simp add: live_def)



section \<open>The walk along the revision proofs\<close>

lemma proof_advances:
  assumes "validateRevisionProof H collate p = Inr q"
  shows "rp_toVersion (rp_body q) = rp_fromVersion (rp_body q) + 1"
  using assms unfolding validateRevisionProof_def normalizeProofBody_def
  by (auto simp: bind_result_Inr Let_def split: if_split_asm)

lemma preserved_walk_ends:
  assumes "\<And>p. p \<in> set proofs \<Longrightarrow> rp_toVersion (rp_body p) = rp_fromVersion (rp_body p) + 1"
    and "current - version \<le> int fuel"
  shows "\<exists>b. preserved_walk proofs current nodeId nodeDigest fuel version = Some b"
  using assms(2)
proof (induction fuel arbitrary: version)
  case 0
  then show ?case by (simp add: preserved_walk.simps)
next
  case (Suc f)
  have "rp_toVersion (rp_body p) = version + 1" if "find (\<lambda>p. rp_fromVersion (rp_body p) = version) (rev proofs) = Some p" for p
    using that assms(1) [of p] by (auto simp: find_Some_iff in_set_conv_nth) (metis in_set_conv_nth length_rev nth_mem set_rev)
  with Suc.IH [of "version + 1"] Suc.prems show ?case
    by (subst preserved_walk.simps) (auto split: option.splits)
qed

text \<open>
  C32. The walk along the revision proofs always returns: whatever happened to a runtime, asking whether a node
  was preserved since any earlier version ends with an answer, within as many rounds as versions lie between.
\<close>

theorem preservation_walk_returns:
  assumes "newRuntime H goal graph now = Inr rt0" "all_admissible (plan_admissible H) (plan_step H collate) rt0 ops"
    and "rt = run_ops (plan_step H collate) rt0 ops"
  shows "\<exists>b. isNodePreservedAcrossRevisions rt fromVersion nodeId nodeDigest = Some b"
proof -
  have "restorable H collate rt" using history_live [OF assms(1,2)] assms(3) by (simp add: live_def)
  then show ?thesis
    unfolding isNodePreservedAcrossRevisions_def
    by (intro preserved_walk_ends) (auto dest: restorableD(6) proof_advances)
qed

theorem preservation_walk_returns_witness:
  "\<exists>b. isNodePreservedAcrossRevisions (sample_run 4) 0 ''act'' ''digest'' = Some b"
  by (rule preservation_walk_returns [OF sample_new sample_history_admissible sample_history [symmetric]])

section \<open>Persisting an envelope as JSON text\<close>

definition persisted_property :: "string property \<Rightarrow> string property" where
  "persisted_property p = (case p of Undefined \<Rightarrow> Absent | _ \<Rightarrow> p)"

definition persisted_node_state :: "PlanNodeState \<Rightarrow> PlanNodeState" where
  "persisted_node_state s = s\<lparr>ns_lastReason := persisted_property (ns_lastReason s),
     ns_lastExecutionDigest := persisted_property (ns_lastExecutionDigest s),
     ns_verificationReceiptDigest := persisted_property (ns_verificationReceiptDigest s),
     ns_verifiedNodeDigest := persisted_property (ns_verifiedNodeDigest s)\<rparr>"

definition persisted_state :: "VerifiedPlanRuntimeState \<Rightarrow> VerifiedPlanRuntimeState" where
  "persisted_state s = s\<lparr>rs_nodeStates := map persisted_node_state (rs_nodeStates s)\<rparr>"

lemma persisted_members:
  "map (\<lambda>(k, v). (k, json_persisted v)) (filter (\<lambda>kv. snd kv \<noteq> JUndef) (prop_member k p)) = prop_member k (persisted_property p)"
  by (auto simp: prop_member_def persisted_property_def split: property.splits)

text \<open>This is what a JSON text preserves of a node state.\<close>

lemma json_persisted_state: "json_persisted (state_json H s) = state_json H (persisted_node_state s)"
  by (simp add: state_json_def persisted_node_state_def persisted_members)

text \<open>An undefined value is printed as a string, so the text of a value with undefined parts is that of a defined one.\<close>

fun printed :: "json \<Rightarrow> json" where
  "printed JUndef = JStr ''__undefined__''"
| "printed (JArr xs) = JArr (map printed xs)"
| "printed (JObj kvs) = JObj (map (\<lambda>(k, v). (k, printed v)) kvs)"
| "printed v = v"

lemma canonical_printed: "canonical num (printed v) = canonical num v"
proof (induction v rule: printed.induct)
  case (3 kvs)
  then have "map (\<lambda>(k, v). (k, canonical num v)) (map (\<lambda>(k, v). (k, printed v)) kvs) = map (\<lambda>(k, v). (k, canonical num v)) kvs" by auto
  then show ?case by (simp only: printed.simps canonical.simps)
qed (simp_all cong: map_cong)

lemma defined_printed: "defined_json (printed v)"
  by (induction v rule: printed.induct) (auto simp: list_all_iff)

lemma canonical_eqD:
  assumes "canonical num v = canonical num w" "number_text num"
  shows "key_sorted (printed v) = key_sorted (printed w)"
  using assms canonical_eq_iff [OF assms(2) defined_printed defined_printed, of v w] by (simp add: canonical_printed)

definition undefined_property :: "PlanNodeState \<Rightarrow> bool" where
  "undefined_property s \<longleftrightarrow> ns_lastReason s = Undefined \<or> ns_lastExecutionDigest s = Undefined
     \<or> ns_verificationReceiptDigest s = Undefined \<or> ns_verifiedNodeDigest s = Undefined"

definition state_members :: "Hashing \<Rightarrow> PlanNodeState \<Rightarrow> (string \<times> json) list" where
  "state_members H s = [(''nodeId'', JStr (ns_nodeId s)), (''status'', JStr (node_status_text (ns_status s))),
     (''attempts'', JNum (of_int (ns_attempts s)))] @ prop_member ''lastReason'' (ns_lastReason s)
     @ prop_member ''lastExecutionDigest'' (ns_lastExecutionDigest s)
     @ prop_member ''verificationReceiptDigest'' (ns_verificationReceiptDigest s)
     @ prop_member ''verifiedNodeDigest'' (ns_verifiedNodeDigest s)
     @ [(''lastUpdatedAt'', JStr (h_iso H (ns_lastUpdatedAt s)))]"

definition prop_json :: "string property \<Rightarrow> json option" where
  "prop_json p = (case p of Absent \<Rightarrow> None | Undefined \<Rightarrow> Some JUndef | Value v \<Rightarrow> Some (JStr v))"

lemma lookup_prop_member: "map_of (prop_member k p) l = (if k = l then prop_json p else None)"
  by (auto simp: prop_member_def prop_json_def split: property.splits)

lemma printed_lookup: "map_of (map (\<lambda>(k, v). (k, printed v)) kvs) k = map_option printed (map_of kvs k)"
  by (simp add: map_of_map)

lemma state_text_changes:
  assumes "undefined_property s"
  shows "key_sorted (printed (state_json H s)) \<noteq> key_sorted (printed (state_json H (persisted_node_state s)))"
proof
  assume eq: "key_sorted (printed (state_json H s)) = key_sorted (printed (state_json H (persisted_node_state s)))"
  have json: "state_json H t = JObj (state_members H t)" for t by (simp add: state_json_def state_members_def)
  have d: "distinct (map fst (map (\<lambda>(k, v). (k, printed v)) (state_members H t)))" for t
    by (auto simp: state_members_def prop_member_def split: property.splits)
  have look: "map_option key_sorted (map_option printed (map_of (state_members H s) k))
      = map_option key_sorted (map_option printed (map_of (state_members H (persisted_node_state s)) k))" for k
    using key_sorted_lookup [OF eq [unfolded json printed.simps] d d, of k] unfolding printed_lookup .
  have m: "map_of (state_members H t) ''lastReason'' = prop_json (ns_lastReason t)"
    "map_of (state_members H t) ''lastExecutionDigest'' = prop_json (ns_lastExecutionDigest t)"
    "map_of (state_members H t) ''verificationReceiptDigest'' = prop_json (ns_verificationReceiptDigest t)"
    "map_of (state_members H t) ''verifiedNodeDigest'' = prop_json (ns_verifiedNodeDigest t)" for t
    by (simp_all add: state_members_def lookup_prop_member map_add_def split: option.splits)
  have pr: "ns_lastReason (persisted_node_state s) = persisted_property (ns_lastReason s)"
    "ns_lastExecutionDigest (persisted_node_state s) = persisted_property (ns_lastExecutionDigest s)"
    "ns_verificationReceiptDigest (persisted_node_state s) = persisted_property (ns_verificationReceiptDigest s)"
    "ns_verifiedNodeDigest (persisted_node_state s) = persisted_property (ns_verifiedNodeDigest s)"
    by (simp_all add: persisted_node_state_def)
  have undef: "map_option key_sorted (map_option printed (prop_json Undefined))
      \<noteq> map_option key_sorted (map_option printed (prop_json (persisted_property Undefined)))"
    by (simp add: prop_json_def persisted_property_def)
  note E = look [of "''lastReason''", unfolded m pr] look [of "''lastExecutionDigest''", unfolded m pr]
    look [of "''verificationReceiptDigest''", unfolded m pr] look [of "''verifiedNodeDigest''", unfolded m pr]
  from assms show False unfolding undefined_property_def
  proof (elim disjE)
    assume "ns_lastReason s = Undefined" with E(1) undef show False by simp
  next
    assume "ns_lastExecutionDigest s = Undefined" with E(2) undef show False by simp
  next
    assume "ns_verificationReceiptDigest s = Undefined" with E(3) undef show False by simp
  next
    assume "ns_verifiedNodeDigest s = Undefined" with E(4) undef show False by simp
  qed
qed

lemma payload_text_changes:
  assumes "s \<in> set (rs_nodeStates st)" "undefined_property s" "number_text (h_num H)"
  shows "canonical (h_num H) (runtime_state_json H st) \<noteq> canonical (h_num H) (runtime_state_json H (persisted_state st))"
proof
  assume "canonical (h_num H) (runtime_state_json H st) = canonical (h_num H) (runtime_state_json H (persisted_state st))"
  from canonical_eqD [OF this assms(3)]
  have eq: "key_sorted (printed (runtime_state_json H st)) = key_sorted (printed (runtime_state_json H (persisted_state st)))" .
  have "map (\<lambda>s. key_sorted (printed (state_json H s))) (rs_nodeStates st)
      = map (\<lambda>s. key_sorted (printed (state_json H (persisted_node_state s)))) (rs_nodeStates st)"
    using key_sorted_lookup [OF eq [unfolded runtime_state_json_def printed.simps], of "''nodeStates''"]
    by (simp add: persisted_state_def comp_def)
  with assms(1) state_text_changes [OF assms(2), of H] show False by auto
qed

text \<open>
  C40. An envelope does not survive being written as JSON: starting a node or refreshing beliefs leaves
  properties that are present but undefined; they are part of the digest but not of the JSON text, so the
  envelope read back is refused, unless the hash collides.
\<close>

theorem json_restart_is_refused:
  assumes "hex_hashing H" "number_text (h_num H)" "s \<in> set (vp_states rt)" "undefined_property s"
    and "no_collision H (runtime_state_json H (exportState rt)) (runtime_state_json H (persisted_state (exportState rt)))"
  shows "fromEnvelope H collate ((exportEnvelope H rt)\<lparr>en_payload := persisted_state (exportState rt)\<rparr>)
    = js_fail ''verified plan runtime envelope payload digest mismatch.''"
proof -
  have "canonical (h_num H) (runtime_state_json H (exportState rt)) \<noteq> canonical (h_num H) (runtime_state_json H (persisted_state (exportState rt)))"
    using payload_text_changes [of s "exportState rt" H] assms(2-4) by (simp add: exportState_def)
  with assms(5) have "digestPlan H (runtime_state_json H (exportState rt)) \<noteq> digestPlan H (runtime_state_json H (persisted_state (exportState rt)))"
    by (auto simp: no_collision_def digestPlan_def)
  with hex_digestPlan [OF assms(1)] show ?thesis
    by (simp add: fromEnvelope_def exportEnvelope_def plan_sha256_def)
qed

definition telling_hashing :: "Hashing \<Rightarrow> json \<Rightarrow> Hashing" where
  "telling_hashing H v = H\<lparr>h_sha256 := (\<lambda>t. if t = canonical (h_num H) v then digest_text else replicate 64 (CHR ''b''))\<rparr>"

definition telling :: Hashing where
  "telling = telling_hashing sample_hashing (runtime_state_json sample_hashing (exportState (sample_run 1)))"

theorem json_restart_is_refused_witness:
  "fromEnvelope telling (\<lambda>s. s) ((exportEnvelope telling (sample_run 1))\<lparr>en_payload := persisted_state (exportState (sample_run 1))\<rparr>)
    = js_fail ''verified plan runtime envelope payload digest mismatch.''"
proof (rule json_restart_is_refused)
  have "hex64_text (replicate 64 (CHR ''b''))" "to_lower (replicate 64 (CHR ''b'')) = replicate 64 (CHR ''b'')"
    "hex64_text digest_text" "to_lower digest_text = digest_text" by code_simp+
  then show "hex_hashing telling" by (simp add: hex_hashing_def telling_def telling_hashing_def)
  have num: "h_num telling = h_num sample_hashing" "h_iso telling = h_iso sample_hashing" by (simp_all add: telling_def telling_hashing_def)
  then show "number_text (h_num telling)" using unary_number_text by (simp add: sample_hashing_def)
  show "running_state ''act'' 1 \<in> set (vp_states (sample_run 1))" "undefined_property (running_state ''act'' 1)" by code_simp+
  have json: "runtime_state_json telling = runtime_state_json sample_hashing"
    by (simp add: fun_eq_iff runtime_state_json_def state_json_def receipt_json_def decision_body_members_def revision_body_members_def num)
  have "digest_text \<noteq> replicate 64 (CHR ''b'')" by code_simp
  then show "no_collision telling (runtime_state_json telling (exportState (sample_run 1)))
      (runtime_state_json telling (persisted_state (exportState (sample_run 1))))"
    unfolding json no_collision_def num(1) by (simp add: telling_def telling_hashing_def)
qed

end
