(* ===== verification/Paths.thy ===== *)
theory Paths
  imports Prelude "HOL-Library.Sublist"
begin

text \<open>
  What the sources use of Node's POSIX \<open>path\<close> module, and the scoped path syntax of
  \<open>src/core/scoped-path-syntax.ts\<close> on a POSIX platform. The main result is what the string test
  \<open>pathWithin\<close> of the policy decides: containment of the resolved path's segments.
\<close>

section \<open>Splitting and joining\<close>

fun split_on :: "char \<Rightarrow> string \<Rightarrow> string list" where
  "split_on c [] = [[]]"
| "split_on c (x # xs) =
     (if x = c then [] # split_on c xs
      else (x # hd (split_on c xs)) # tl (split_on c xs))"

fun join_with :: "string \<Rightarrow> string list \<Rightarrow> string" where
  "join_with sep [] = []"
| "join_with sep [x] = x"
| "join_with sep (x # y # ys) = x @ sep @ join_with sep (y # ys)"

section \<open>The path module\<close>

definition path_isAbsolute :: "string \<Rightarrow> bool" where
  "path_isAbsolute p = starts_with p ''/''"

text \<open>\<open>path.win32.isAbsolute\<close>: a leading separator, or a drive letter with a separator.\<close>

definition win_sep :: "char \<Rightarrow> bool" where
  "win_sep c \<longleftrightarrow> c = CHR ''/'' \<or> c = CHR 0x5C"

fun win32_isAbsolute :: "string \<Rightarrow> bool" where
  "win32_isAbsolute (a # b # c # rest) =
     (win_sep a \<or> ((is_lower a \<or> is_upper a) \<and> b = CHR '':'' \<and> win_sep c))"
| "win32_isAbsolute (a # rest) = win_sep a"
| "win32_isAbsolute [] = False"

text \<open>Dropping empty and dot segments and resolving dot-dot segments below the root.\<close>

fun normalize_segs :: "string list \<Rightarrow> string list \<Rightarrow> string list" where
  "normalize_segs acc [] = rev acc"
| "normalize_segs acc (s # ss) =
     (if s = [] \<or> s = ''.'' then normalize_segs acc ss
      else if s = ''..'' then normalize_segs (tl acc) ss
      else normalize_segs (s # acc) ss)"

definition path_segs :: "string \<Rightarrow> string \<Rightarrow> string list" where
  "path_segs cwd p =
     normalize_segs [] (split_on (CHR ''/'') (if path_isAbsolute p then p else cwd @ ''/'' @ p))"

definition abs_path :: "string list \<Rightarrow> string" where
  "abs_path segs = ''/'' @ join_with ''/'' segs"

text \<open>\<open>path.resolve(p)\<close>, and \<open>path.resolve(base, p)\<close>.\<close>

definition path_resolve :: "string \<Rightarrow> string \<Rightarrow> string" where
  "path_resolve cwd p = abs_path (path_segs cwd p)"

definition path_resolve2 :: "string \<Rightarrow> string \<Rightarrow> string \<Rightarrow> string" where
  "path_resolve2 cwd base p = path_resolve (path_resolve cwd base) p"

fun strip_common :: "string list \<Rightarrow> string list \<Rightarrow> string list \<times> string list" where
  "strip_common (a # as) (b # bs) = (if a = b then strip_common as bs else (a # as, b # bs))"
| "strip_common as bs = (as, bs)"

definition path_relative :: "string \<Rightarrow> string \<Rightarrow> string \<Rightarrow> string" where
  "path_relative cwd from to =
     (case strip_common (path_segs cwd from) (path_segs cwd to) of
        (up, down) \<Rightarrow> join_with ''/'' (replicate (length up) ''..'' @ down))"

section \<open>Containment and scoped syntax\<close>

definition pathWithin :: "string \<Rightarrow> string \<Rightarrow> string \<Rightarrow> bool" where
  "pathWithin cwd child root =
     (let rel = path_relative cwd (path_resolve cwd root) child
      in rel = [] \<or> (\<not> starts_with rel ''..'' \<and> \<not> path_isAbsolute rel))"

datatype ScopedPathSyntax = NativeAbsolute string | ForeignWindowsAbsolute string | Relative string

definition normalizeScopedPathSyntax :: "string \<Rightarrow> string \<Rightarrow> ScopedPathSyntax" where
  "normalizeScopedPathSyntax cwd inputPath =
     (if path_isAbsolute inputPath then NativeAbsolute (path_resolve cwd inputPath)
      else if win32_isAbsolute inputPath then ForeignWindowsAbsolute inputPath
      else Relative (map (\<lambda>c. if c = CHR 0x5C then CHR ''/'' else c) inputPath))"

section \<open>Segments of a resolved path\<close>

definition plain_seg :: "string \<Rightarrow> bool" where
  "plain_seg s \<longleftrightarrow> s \<noteq> [] \<and> s \<noteq> ''.'' \<and> s \<noteq> ''..'' \<and> CHR ''/'' \<notin> set s"

lemma split_on_nonempty [simp]: "split_on c s \<noteq> []"
  by (induction s) auto

lemma split_on_no_sep: "s \<in> set (split_on c xs) \<Longrightarrow> c \<notin> set s"
proof (induction xs arbitrary: s)
  case (Cons x xs)
  then show ?case
    by (cases "split_on c xs") (auto split: if_splits)
qed simp

lemma split_on_plain: "c \<notin> set s \<Longrightarrow> split_on c s = [s]"
  by (induction s) auto

lemma split_on_append: "c \<notin> set s \<Longrightarrow> split_on c (s @ c # rest) = s # split_on c rest"
  by (induction s) auto

lemma split_join:
  "segs \<noteq> [] \<Longrightarrow> \<forall>s\<in>set segs. CHR ''/'' \<notin> set s \<Longrightarrow>
   split_on (CHR ''/'') (join_with ''/'' segs) = segs"
proof (induction segs)
  case (Cons x xs)
  then show ?case by (cases xs) (auto simp: split_on_plain split_on_append)
qed simp

lemma normalize_segs_plain: "\<forall>s\<in>set segs. plain_seg s \<Longrightarrow> normalize_segs acc segs = rev acc @ segs"
  by (induction segs arbitrary: acc) (auto simp: plain_seg_def)

lemma normalize_segs_are_plain:
  "\<forall>s\<in>set acc. plain_seg s \<Longrightarrow> \<forall>s\<in>set ss. CHR ''/'' \<notin> set s \<Longrightarrow>
   \<forall>s\<in>set (normalize_segs acc ss). plain_seg s"
proof (induction acc ss rule: normalize_segs.induct)
  case (2 acc s ss)
  have tl: "\<forall>s\<in>set (tl acc). plain_seg s" using "2.prems"(1) by (cases acc) simp_all
  have ss: "\<forall>s\<in>set ss. CHR ''/'' \<notin> set s" using "2.prems"(2) by simp
  consider "s = [] \<or> s = ''.''" | "\<not> (s = [] \<or> s = ''.'')" "s = ''..''"
    | "\<not> (s = [] \<or> s = ''.'')" "s \<noteq> ''..''" by blast
  then show ?case
  proof cases
    case 1
    then have "normalize_segs acc (s # ss) = normalize_segs acc ss" by auto
    then show ?thesis using "2.IH"(1) [OF 1 "2.prems"(1) ss] by simp
  next
    case 2
    then have "normalize_segs acc (s # ss) = normalize_segs (tl acc) ss" by auto
    then show ?thesis using "2.IH"(2) [OF 2 tl ss] by simp
  next
    case 3
    then have "plain_seg s" using "2.prems"(2) by (simp add: plain_seg_def)
    then have "\<forall>x\<in>set (s # acc). plain_seg x" using "2.prems"(1) by simp
    from "2.IH"(3) [OF 3 this ss] 3 show ?thesis by simp
  qed
qed simp

lemma path_segs_plain: "s \<in> set (path_segs cwd p) \<Longrightarrow> plain_seg s"
proof -
  assume s: "s \<in> set (path_segs cwd p)"
  let ?p = "if path_isAbsolute p then p else cwd @ ''/'' @ p"
  have "\<forall>s\<in>set (split_on (CHR ''/'') ?p). CHR ''/'' \<notin> set s" using split_on_no_sep by blast
  then have "\<forall>s\<in>set (normalize_segs [] (split_on (CHR ''/'') ?p)). plain_seg s"
    by (intro normalize_segs_are_plain) simp_all
  with s show "plain_seg s" by (simp only: path_segs_def)
qed

lemma path_isAbsolute_abs_path [simp]: "path_isAbsolute (abs_path segs)"
  by (simp add: path_isAbsolute_def abs_path_def starts_with_def)

lemma path_segs_abs_path:
  assumes "\<forall>s\<in>set segs. plain_seg s"
  shows "path_segs cwd (abs_path segs) = segs"
proof (cases "segs = []")
  case True
  then show ?thesis by (simp add: path_segs_def) (simp add: abs_path_def)
next
  case False
  then have "split_on (CHR ''/'') (abs_path segs) = [] # segs"
    using assms by (simp add: abs_path_def split_join plain_seg_def)
  then show ?thesis using assms by (simp add: path_segs_def normalize_segs_plain)
qed

text \<open>Resolving is idempotent.\<close>

lemma path_segs_resolve [simp]: "path_segs cwd (path_resolve cwd' p) = path_segs cwd' p"
  unfolding path_resolve_def by (rule path_segs_abs_path) (blast dest: path_segs_plain)

lemma strip_common_spec:
  "strip_common as bs = (up, down) \<Longrightarrow>
   \<exists>common. as = common @ up \<and> bs = common @ down \<and> (up = [] \<or> down = [] \<or> hd up \<noteq> hd down)"
proof (induction as bs arbitrary: up down rule: strip_common.induct)
  case (1 a as b bs)
  show ?case
  proof (cases "a = b")
    case True
    with 1 obtain common where "as = common @ up" "bs = common @ down"
      "up = [] \<or> down = [] \<or> hd up \<noteq> hd down" by auto
    then show ?thesis using True by (intro exI [of _ "a # common"]) simp
  next
    case False
    with 1 show ?thesis by auto
  qed
qed auto

lemma strip_common_prefix: "strip_common as (as @ rest) = ([], rest)"
  by (induction as) auto

lemma strip_common_up_Nil: "strip_common as bs = ([], down) \<Longrightarrow> bs = as @ down"
  by (auto dest: strip_common_spec)

lemma join_with_Cons_start: "\<exists>t. join_with sep (x # xs) = x @ t"
  by (cases xs) auto

lemma join_with_plain_nonempty:
  "segs \<noteq> [] \<Longrightarrow> plain_seg (hd segs) \<Longrightarrow> join_with ''/'' segs \<noteq> []"
  using join_with_Cons_start [of "''/''" "hd segs" "tl segs"] by (cases segs) (auto simp: plain_seg_def)

lemma starts_with_dots_join:
  assumes "plain_seg s"
  shows "starts_with (join_with ''/'' (s # rest)) ''..'' \<longleftrightarrow> starts_with s ''..''"
proof -
  obtain c s' where s: "s = c # s'" using assms by (cases s) (auto simp: plain_seg_def)
  show ?thesis
  proof (cases s')
    case Nil
    then have "c \<noteq> CHR ''.''" using assms s by (auto simp: plain_seg_def)
    then show ?thesis using s Nil by (cases rest) (auto simp: starts_with_def)
  next
    case (Cons c' s'')
    then show ?thesis using s by (cases rest) (auto simp: starts_with_def)
  qed
qed

lemma not_absolute_join:
  assumes "plain_seg s"
  shows "\<not> path_isAbsolute (join_with ''/'' (s # rest))"
proof -
  obtain t where "join_with ''/'' (s # rest) = s @ t" using join_with_Cons_start by blast
  moreover obtain c s' where "s = c # s'" "c \<noteq> CHR ''/''"
    using assms by (cases s) (auto simp: plain_seg_def)
  ultimately show ?thesis by (simp add: path_isAbsolute_def starts_with_def)
qed

text \<open>What the string test decides, on segments.\<close>

lemma pathWithin_iff:
  "pathWithin cwd child root \<longleftrightarrow>
   (\<exists>rest. path_segs cwd child = path_segs cwd root @ rest
           \<and> (rest = [] \<or> \<not> starts_with (hd rest) ''..''))"
proof -
  obtain up down where sc: "strip_common (path_segs cwd root) (path_segs cwd child) = (up, down)"
    by (cases "strip_common (path_segs cwd root) (path_segs cwd child)")
  then have rel: "path_relative cwd (path_resolve cwd root) child
      = join_with ''/'' (replicate (length up) ''..'' @ down)"
    by (simp add: path_relative_def)
  obtain common where c: "path_segs cwd root = common @ up" "path_segs cwd child = common @ down"
    "up = [] \<or> down = [] \<or> hd up \<noteq> hd down"
    using strip_common_spec [OF sc] by blast
  show ?thesis
  proof (cases up)
    case Nil
    show ?thesis
    proof (cases down)
      case Nil
      with \<open>up = []\<close> c rel show ?thesis by (simp add: pathWithin_def)
    next
      case (Cons d ds)
      have "d \<in> set (path_segs cwd child)" using c Cons by simp
      then have "plain_seg d" by (rule path_segs_plain)
      with Cons \<open>up = []\<close> c rel show ?thesis
        using join_with_plain_nonempty [of "d # ds"] not_absolute_join [of d ds]
        by (auto simp: pathWithin_def Let_def starts_with_dots_join)
    qed
  next
    case (Cons u us)
    then obtain t where "join_with ''/'' (replicate (length up) ''..'' @ down) = ''..'' @ t"
      using join_with_Cons_start [of "''/''" "''..''" "replicate (length us) ''..'' @ down"] by auto
    then have "\<not> pathWithin cwd child root"
      by (simp add: pathWithin_def rel starts_with_def)
    moreover have "\<not> (\<exists>rest. path_segs cwd child = path_segs cwd root @ rest)"
      using c Cons by auto
    ultimately show ?thesis by blast
  qed
qed

lemma pathWithin_prefix:
  "pathWithin cwd child root \<Longrightarrow> prefix (path_segs cwd root) (path_segs cwd child)"
  by (auto simp: pathWithin_iff prefix_def)

lemma pathWithin_refl: "pathWithin cwd root root"
  by (simp add: pathWithin_iff)

lemma pathWithin_trans:
  assumes "pathWithin cwd a b" and "pathWithin cwd b c"
  shows "pathWithin cwd a c"
proof -
  from assms(1) obtain r1 where a: "path_segs cwd a = path_segs cwd b @ r1"
    "r1 = [] \<or> \<not> starts_with (hd r1) ''..''" by (auto simp: pathWithin_iff)
  from assms(2) obtain r2 where b: "path_segs cwd b = path_segs cwd c @ r2"
    "r2 = [] \<or> \<not> starts_with (hd r2) ''..''" by (auto simp: pathWithin_iff)
  show ?thesis using a b by (cases r2) (auto simp: pathWithin_iff)
qed

lemma pathWithin_resolve_child [simp]:
  "pathWithin cwd (path_resolve cwd child) root = pathWithin cwd child root"
  by (simp add: pathWithin_iff)

lemma pathWithin_resolve_root [simp]:
  "pathWithin cwd child (path_resolve cwd root) = pathWithin cwd child root"
  by (simp add: pathWithin_iff)

end
