(* ===== verification/ResourceIdentity.thy ===== *)
theory ResourceIdentity
  imports ActionModel Paths
begin

text \<open>
  Resource identities (\<open>src/core/resource-identity.ts\<close>): which lock keys and which path operands
  an action has, when two keys conflict, and the canonicalisation of persisted keys. The platform
  is POSIX; the working directory is an argument. The resolution against the live file system
  (\<open>physicalPathIdentity\<close>) is not modelled.
\<close>

section \<open>Library functions the extraction uses\<close>

fun nat_digits :: "nat \<Rightarrow> string" where
  "nat_digits n = (if n < 10 then [char_of (48 + n)] else nat_digits (n div 10) @ [char_of (48 + n mod 10)])"

definition show_int :: "int \<Rightarrow> string" where
  "show_int n = (if n < 0 then ''-'' @ nat_digits (nat (- n)) else nat_digits (nat n))"

definition upper_hex :: "nat \<Rightarrow> char" where
  "upper_hex n = ''0123456789ABCDEF'' ! n"

definition percent_byte :: "nat \<Rightarrow> string" where
  "percent_byte b = ''%'' @ [upper_hex (b div 16), upper_hex (b mod 16)]"

definition uri_unreserved :: "char \<Rightarrow> bool" where
  "uri_unreserved c \<longleftrightarrow> is_lower c \<or> is_upper c \<or> is_digit c \<or> c \<in> set ''-_.!~*'' \<or> c \<in> {CHR 0x27, CHR ''('', CHR '')''}"

text \<open>\<open>encodeURIComponent\<close> on 8-bit code units, which are one or two bytes of UTF-8.\<close>

definition encode_char :: "char \<Rightarrow> string" where
  "encode_char c =
     (let n = (of_char c :: nat) in
      if uri_unreserved c then [c]
      else if n < 128 then percent_byte n
      else percent_byte (192 + n div 64) @ percent_byte (128 + n mod 64))"

definition encodeURIComponent :: "string \<Rightarrow> string" where
  "encodeURIComponent s = concat (map encode_char s)"

definition utf8_length :: "string \<Rightarrow> nat" where
  "utf8_length s = sum_list (map (\<lambda>c. if (of_char c :: nat) < 128 then 1 else 2) s)"

text \<open>\<open>replace(/%2F/gi, '%252F')\<close>.\<close>

fun escape_slash :: "string \<Rightarrow> string" where
  "escape_slash (a # b # c # rest) =
     (if a = CHR ''%'' \<and> b = CHR ''2'' \<and> (c = CHR ''F'' \<or> c = CHR ''f'')
      then ''%252F'' @ escape_slash rest else a # escape_slash (b # c # rest))"
| "escape_slash s = s"

definition escapeSegment :: "string \<Rightarrow> string" where
  "escapeSegment value = escape_slash (encodeURIComponent value)"

text \<open>\<open>path.normalize\<close> and \<open>path.join\<close>, which keep leading dot-dot segments of relative paths.\<close>

fun normalize_rel :: "string list \<Rightarrow> string list \<Rightarrow> string list" where
  "normalize_rel acc [] = rev acc"
| "normalize_rel acc (s # ss) =
     (if s = [] \<or> s = ''.'' then normalize_rel acc ss
      else if s = ''..'' then
        (if acc = [] \<or> hd acc = ''..'' then normalize_rel (s # acc) ss else normalize_rel (tl acc) ss)
      else normalize_rel (s # acc) ss)"

definition path_normalize :: "string \<Rightarrow> string" where
  "path_normalize p =
     (if p = [] then ''.''
      else
        (let absolute = path_isAbsolute p; trailing = ends_with p ''/'';
             body = (if absolute then join_with ''/'' (normalize_segs [] (split_on (CHR ''/'') p))
                     else join_with ''/'' (normalize_rel [] (split_on (CHR ''/'') p)))
         in if body = [] then (if absolute then ''/'' else if trailing then ''./'' else ''.'')
            else (if absolute then ''/'' else []) @ body @ (if trailing then ''/'' else [])))"

definition path_join :: "string list \<Rightarrow> string" where
  "path_join args =
     (let parts = filter (\<lambda>s. s \<noteq> []) args in
      if parts = [] then ''.'' else path_normalize (join_with ''/'' parts))"

section \<open>Extraction\<close>

definition has_nul :: "string \<Rightarrow> bool" where
  "has_nul s \<longleftrightarrow> nul_char \<in> set s"

abbreviation field :: "ActionRequest \<Rightarrow> string \<Rightarrow> json option" where
  "field action \<equiv> map_of (aq_input action)"

fun as_string :: "json option \<Rightarrow> string option" where
  "as_string (Some (JStr s)) = Some s"
| "as_string _ = None"

text \<open>\<open>a ?? b\<close>.\<close>

fun nullish :: "json option \<Rightarrow> json option \<Rightarrow> json option" where
  "nullish None b = b"
| "nullish (Some JNull) b = b"
| "nullish a b = a"

definition normalizedAbsolute :: "string \<Rightarrow> json option \<Rightarrow> string option" where
  "normalizedAbsolute cwd value =
     (case as_string value of None \<Rightarrow> None
      | Some s \<Rightarrow> (if s = [] \<or> has_nul s then None
          else Some (map (\<lambda>c. if c = CHR 0x5C then CHR ''/'' else c) (path_resolve cwd s))))"

definition add_key :: "string \<Rightarrow> string \<Rightarrow> json option \<Rightarrow> string list" where
  "add_key cwd tag value =
     (case normalizedAbsolute cwd value of None \<Rightarrow> [] | Some p \<Rightarrow> [tag @ '':'' @ p])"

definition RESOURCE_EXTRACTOR_CAPABILITIES :: "string list" where
  "RESOURCE_EXTRACTOR_CAPABILITIES =
    [''computer.inspect'',
     ''project.inspect'', ''project.command.inspect'', ''project.command.run'', ''project.transaction.run'',
     ''file.read'', ''file.list'', ''file.write'', ''file.create'', ''file.replace'', ''file.info'', ''file.search'', ''file.manage'',
     ''document.inspect'', ''document.extract'', ''document.render'', ''structured.inspect'', ''structured.extract'', ''structured.render'',
     ''workspace.edit.resolve_lsp'', ''workspace.edit.transaction'', ''workspace.edit.rollback'',
     ''workspace.worktree.create'', ''workspace.worktree.inspect'', ''workspace.worktree.release'',
     ''git.status'', ''git.diff'', ''git.rev-parse'', ''git.checkpoint.inspect'', ''git.checkpoint.create'', ''git.checkpoint.restore'', ''git.write'',
     ''docker.inspect'', ''docker.manage'', ''compute.run'', ''postgres.inspect'', ''postgres.select'',
     ''vscode.inspect'', ''vscode.open'', ''terminal.execute'', ''terminal.session'', ''process.inspect'', ''process.manage'',
     ''browser.inspect'', ''browser.verify'', ''browser.navigate'', ''browser.interact'', ''browser.tab.focus'', ''browser.tab.close'',
     ''app.inspect'', ''app.operate'', ''visual.capture'', ''input.operate'', ''perception.observe'', ''perception.ground'']"

definition requiredSegment :: "json option \<Rightarrow> string \<Rightarrow> string result" where
  "requiredSegment value fallback =
     (case value of
        None \<Rightarrow> Inr (escapeSegment fallback)
      | Some JNull \<Rightarrow> Inr (escapeSegment fallback)
      | Some (JStr s) \<Rightarrow>
          (if length s > 256 then Inl (OperatorError ''RESOURCE_TARGET_INVALID'')
           else (let raw = to_lower (js_trim s)
                 in Inr (escapeSegment (if raw = [] then fallback else raw))))
      | Some _ \<Rightarrow> Inl (OperatorError ''RESOURCE_TARGET_INVALID''))"

text \<open>One entry of \<open>affectedResources\<close>: exactly \<open>kind = 'path'\<close> and an absolute literal path.\<close>

definition affected_path :: "string \<Rightarrow> json \<Rightarrow> string result" where
  "affected_path cwd declaration =
     (case declaration of
        JObj props \<Rightarrow>
          (if length props \<noteq> 2 \<or> \<not> set (map fst props) \<subseteq> {''kind'', ''path''}
              \<or> map_of props ''kind'' \<noteq> Some (JStr ''path'')
           then Inl (OperatorError ''RESOURCE_DECLARATION_INVALID'')
           else case map_of props ''path'' of
             Some (JStr value) \<Rightarrow>
               (if value = [] \<or> length value > 4096 \<or> has_nul value \<or> \<not> path_isAbsolute value
                then Inl (OperatorError ''RESOURCE_DECLARATION_INVALID'')
                else Inr (path_resolve cwd value))
           | _ \<Rightarrow> Inl (OperatorError ''RESOURCE_DECLARATION_INVALID''))
      | _ \<Rightarrow> Inl (OperatorError ''RESOURCE_DECLARATION_INVALID''))"

definition terminalAffectedPaths :: "string \<Rightarrow> ActionRequest \<Rightarrow> string list result" where
  "terminalAffectedPaths cwd action =
     (case field action ''affectedResources'' of
        None \<Rightarrow> Inr []
      | Some (JArr raw) \<Rightarrow>
          (if length raw > 128 then Inl (OperatorError ''RESOURCE_DECLARATION_INVALID'')
           else case map_throw (affected_path cwd) raw of Inl e \<Rightarrow> Inl e | Inr paths \<Rightarrow> Inr (js_set paths))
      | Some _ \<Rightarrow> Inl (OperatorError ''RESOURCE_DECLARATION_INVALID''))"

text \<open>The string paths of a workspace edit plan's files, joined to the workspace root.\<close>

definition plan_file_paths :: "ActionRequest \<Rightarrow> string list" where
  "plan_file_paths action =
     (case (as_string (field action ''workspaceRoot''), field action ''plan'') of
        (Some root, Some (JObj plan)) \<Rightarrow>
          (case map_of plan ''files'' of
             Some (JArr files) \<Rightarrow>
               concat (map (\<lambda>file. case file of
                   JObj props \<Rightarrow> (case as_string (map_of props ''path'') of
                       Some p \<Rightarrow> [path_join (root # split_on (CHR ''/'') p)] | None \<Rightarrow> [])
                 | _ \<Rightarrow> []) (take 1000 files))
           | _ \<Rightarrow> [])
      | _ \<Rightarrow> [])"

text \<open>The values pushed, in order, before the filter keeps the usable strings.\<close>

definition path_operand_values :: "string \<Rightarrow> ActionRequest \<Rightarrow> json option list result" where
  "path_operand_values cwd action =
     (let cap = aq_capability action; input = field action in
      if cap = ''file.manage'' then Inr [input ''path'', input ''source'', input ''destination'']
      else if starts_with cap ''file.'' then Inr [input ''path'']
      else if starts_with cap ''document.'' \<or> starts_with cap ''structured.'' then Inr [input ''path'']
      else if starts_with cap ''workspace.worktree.'' then Inr [input ''repositoryRoot'']
      else if cap = ''workspace.edit.resolve_lsp'' \<or> cap = ''workspace.edit.rollback''
      then Inr [input ''workspaceRoot'']
      else if cap = ''workspace.edit.transaction''
      then Inr (input ''workspaceRoot'' # map (\<lambda>p. Some (JStr p)) (plan_file_paths action))
      else if starts_with cap ''git.'' then Inr [input ''cwd'']
      else if starts_with cap ''project.'' then Inr [nullish (input ''path'') (input ''cwd'')]
      else if starts_with cap ''docker.'' then Inr [input ''path'']
      else if starts_with cap ''postgres.'' then Inr [input ''path'']
      else if cap = ''vscode.open'' then Inr [input ''path'', input ''leftPath'', input ''rightPath'']
      else if cap = ''terminal.execute'' \<or> (cap = ''terminal.session'' \<and> input ''operation'' = Some (JStr ''start''))
      then (case terminalAffectedPaths cwd action of Inl e \<Rightarrow> Inl e
            | Inr ps \<Rightarrow> Inr (input ''cwd'' # map (\<lambda>p. Some (JStr p)) ps))
      else Inr [])"

definition resourcePathOperandsForAction :: "string \<Rightarrow> ActionRequest \<Rightarrow> string list result" where
  "resourcePathOperandsForAction cwd action =
     (case path_operand_values cwd action of Inl e \<Rightarrow> Inl e
      | Inr values \<Rightarrow>
          Inr (js_set (filter (\<lambda>s. s \<noteq> [] \<and> \<not> has_nul s) (List.map_filter as_string values))))"

definition resourceEffectPathOperandsForAction :: "string \<Rightarrow> ActionRequest \<Rightarrow> string list result" where
  "resourceEffectPathOperandsForAction cwd action =
     (if aq_capability action = ''terminal.execute''
         \<or> (aq_capability action = ''terminal.session'' \<and> field action ''operation'' = Some (JStr ''start''))
      then terminalAffectedPaths cwd action
      else resourcePathOperandsForAction cwd action)"

text \<open>The browser lock: an instance, its targets, one target, or one frame of a target.\<close>

definition optional_text :: "json option \<Rightarrow> bool" where
  "optional_text v \<longleftrightarrow> (case v of None \<Rightarrow> True | Some JNull \<Rightarrow> True | Some (JStr s) \<Rightarrow> True | Some _ \<Rightarrow> False)"

definition optional_flag :: "json option \<Rightarrow> bool" where
  "optional_flag v \<longleftrightarrow> (case v of None \<Rightarrow> True | Some JNull \<Rightarrow> True | Some (JBool b) \<Rightarrow> True | Some _ \<Rightarrow> False)"

definition nonblank :: "json option \<Rightarrow> bool" where
  "nonblank v \<longleftrightarrow> (case as_string v of Some s \<Rightarrow> js_trim s \<noteq> [] | None \<Rightarrow> False)"

definition browserResourceKey :: "ActionRequest \<Rightarrow> string result" where
  "browserResourceKey action =
     (case requiredSegment (field action ''sessionId'') ''default'' of Inl e \<Rightarrow> Inl e
      | Inr instance_id \<Rightarrow>
        (let targets = ''browser:instance:'' @ instance_id @ ''/targets'';
             newTab = field action ''newTab''; targetId = field action ''targetId'';
             frameId = field action ''frameId'' in
         if \<not> optional_flag newTab \<or> \<not> optional_text targetId \<or> \<not> optional_text frameId
         then Inl (OperatorError ''RESOURCE_TARGET_INVALID'')
         else if (aq_capability action = ''browser.navigate'' \<and> newTab = Some (JBool True))
                 \<or> \<not> nonblank targetId
         then Inr targets
         else (case requiredSegment targetId ''target'' of Inl e \<Rightarrow> Inl e
               | Inr requestedTarget \<Rightarrow>
                   (let target = targets @ ''/'' @ requestedTarget in
                    if \<not> nonblank frameId then Inr target
                    else (case requiredSegment frameId ''frame'' of Inl e \<Rightarrow> Inl e
                          | Inr frame \<Rightarrow> Inr (target @ ''/frames/'' @ frame))))))"

definition session_id_text :: "string \<Rightarrow> bool" where
  "session_id_text s \<longleftrightarrow>
     1 \<le> length s \<and> length s \<le> 128 \<and> list_all (\<lambda>c. is_lower c \<or> is_upper c \<or> is_digit c \<or> c \<in> set ''._:@-'') s"

definition worktree_keys :: "string \<Rightarrow> ActionRequest \<Rightarrow> string list result" where
  "worktree_keys cwd action =
     (case (map_of CAPABILITY_RISK_RULES (aq_capability action), field action ''sessionId'', field action ''repositoryRoot'') of
        (Some (Fixed risk), Some (JStr sessionId), Some (JStr repositoryRoot)) \<Rightarrow>
          (if risk \<noteq> aq_risk action \<or> \<not> session_id_text sessionId \<or> \<not> path_isAbsolute repositoryRoot
              \<or> has_nul repositoryRoot \<or> utf8_length repositoryRoot > 32768
           then Inl (OperatorError ''RESOURCE_TARGET_INVALID'')
           else Inr ((''developer-worktree:session:'' @ sessionId)
                     # add_key cwd ''repo'' (Some (JStr repositoryRoot))))
      | _ \<Rightarrow> Inl (OperatorError ''RESOURCE_TARGET_INVALID''))"

definition affected_keys :: "string \<Rightarrow> ActionRequest \<Rightarrow> string list result" where
  "affected_keys cwd action =
     (case terminalAffectedPaths cwd action of Inl e \<Rightarrow> Inl e
      | Inr affected \<Rightarrow>
          Inr (if affected = [] then [''filesystem:any'']
               else concat (map (\<lambda>p. add_key cwd ''file'' (Some (JStr p))) affected)))"

fun port_key :: "json \<Rightarrow> string result" where
  "port_key (JNum port) =
     (if port < 1 \<or> port > 65535 then Inl (OperatorError ''RESOURCE_TARGET_INVALID'')
      else Inr (''network:tcp:'' @ show_int port))"
| "port_key _ = Inl (OperatorError ''RESOURCE_TARGET_INVALID'')"

definition session_keys :: "string \<Rightarrow> ActionRequest \<Rightarrow> string list result" where
  "session_keys cwd action =
     (if field action ''operation'' = Some (JStr ''start'') then
        (case affected_keys cwd action of Inl e \<Rightarrow> Inl e
         | Inr keys \<Rightarrow>
            (case field action ''ports'' of
               None \<Rightarrow> Inr keys
             | Some (JArr ports) \<Rightarrow>
                 (if length ports > 128 then Inl (OperatorError ''RESOURCE_TARGET_INVALID'')
                  else case map_throw port_key ports of Inl e \<Rightarrow> Inl e | Inr pks \<Rightarrow> Inr (keys @ pks))
             | Some _ \<Rightarrow> Inl (OperatorError ''RESOURCE_TARGET_INVALID'')))
      else (case as_string (field action ''sessionId'') of
              Some s \<Rightarrow> (if s = [] then Inr []
                 else case requiredSegment (Some (JStr s)) ''session'' of Inl e \<Rightarrow> Inl e
                      | Inr seg \<Rightarrow> Inr [''process:session/'' @ seg])
            | None \<Rightarrow> Inr []))"

definition process_key :: "ActionRequest \<Rightarrow> string" where
  "process_key action =
     (case field action ''pid'' of
        Some (JNum pid) \<Rightarrow> (if is_safe_integer pid \<and> pid > 0 then ''process:windows/'' @ show_int pid
                            else ''process:windows'')
      | _ \<Rightarrow> ''process:windows'')"

definition database_key :: "string \<Rightarrow> ActionRequest \<Rightarrow> string result" where
  "database_key cwd action =
     (case requiredSegment (field action ''profileId'') ''profiles'' of Inl e \<Rightarrow> Inl e
      | Inr profile \<Rightarrow>
          Inr (case normalizedAbsolute cwd (field action ''path'') of
                 Some root \<Rightarrow> ''database:'' @ root @ ''/profile:'' @ profile
               | None \<Rightarrow> ''database:profile:'' @ profile))"

text \<open>The keys an action adds, branch by branch, before the final emptiness test and sort.\<close>

definition extracted_keys :: "string \<Rightarrow> ActionRequest \<Rightarrow> string list result" where
  "extracted_keys cwd action =
     (let cap = aq_capability action; input = field action in
      if cap = ''computer.inspect'' then Inr [''computer:local'']
      else if starts_with cap ''file.'' then
        (if cap = ''file.manage''
         then Inr (add_key cwd ''file'' (input ''path'') @ add_key cwd ''file'' (input ''source'')
                   @ add_key cwd ''file'' (input ''destination''))
         else Inr (add_key cwd ''file'' (input ''path'')))
      else if starts_with cap ''document.'' \<or> starts_with cap ''structured.''
      then Inr (add_key cwd ''file'' (input ''path''))
      else if cap = ''workspace.edit.resolve_lsp'' \<or> cap = ''workspace.edit.rollback''
      then Inr (add_key cwd ''workspace'' (input ''workspaceRoot''))
      else if cap = ''workspace.edit.transaction''
      then Inr (add_key cwd ''workspace'' (input ''workspaceRoot'')
                @ concat (map (\<lambda>p. add_key cwd ''file'' (Some (JStr p))) (plan_file_paths action)))
      else if starts_with cap ''workspace.worktree.'' then worktree_keys cwd action
      else if starts_with cap ''git.'' then Inr (add_key cwd ''repo'' (input ''cwd''))
      else if starts_with cap ''project.''
      then Inr (add_key cwd ''repo'' (nullish (input ''path'') (input ''cwd'')))
      else if starts_with cap ''docker.'' then
        (let keys = add_key cwd ''docker'' (input ''path'')
         in Inr (if cap = ''docker.inspect'' \<and> keys = [] then [''docker:daemon''] else keys))
      else if cap = ''compute.run'' then Inr [''compute:sandbox'']
      else if starts_with cap ''postgres.'' then map_sum id (\<lambda>k. [k]) (database_key cwd action)
      else if cap = ''vscode.inspect'' then Inr [''vscode:installation'']
      else if cap = ''vscode.open''
      then Inr (add_key cwd ''file'' (input ''path'') @ add_key cwd ''file'' (input ''leftPath'')
                @ add_key cwd ''file'' (input ''rightPath'') @ [''desktop:windows/vscode''])
      else if cap = ''terminal.execute'' then affected_keys cwd action
      else if cap = ''terminal.session'' then session_keys cwd action
      else if cap = ''process.inspect'' \<or> cap = ''process.manage'' then Inr [process_key action]
      else if starts_with cap ''browser.'' then map_sum id (\<lambda>k. [k]) (browserResourceKey action)
      else if starts_with cap ''app.'' \<or> cap = ''visual.capture'' \<or> cap = ''input.operate''
      then Inr [''desktop:windows'']
      else if cap = ''perception.observe'' \<or> cap = ''perception.ground'' then Inr [''perception:graph'']
      else Inr [])"

definition resourceKeysForAction :: "string \<Rightarrow> ActionRequest \<Rightarrow> string list result" where
  "resourceKeysForAction cwd action =
     (if aq_capability action \<notin> set RESOURCE_EXTRACTOR_CAPABILITIES
      then Inl (OperatorError ''RESOURCE_EXTRACTOR_UNREGISTERED'')
      else case extracted_keys cwd action of Inl e \<Rightarrow> Inl e
           | Inr keys \<Rightarrow> (if keys = [] then Inl (OperatorError ''RESOURCE_TARGET_REQUIRED'')
                          else Inr (unique_sorted keys)))"

section \<open>Conflicts\<close>

definition isFilesystemResource :: "string \<Rightarrow> bool" where
  "isFilesystemResource key \<longleftrightarrow>
     key = ''filesystem:any'' \<or>
     list_ex (starts_with key) [''fs-path:'', ''fs-object:'', ''file:'', ''repo:'', ''workspace:'']"

definition isHierarchyPrefix :: "string \<Rightarrow> string \<Rightarrow> bool" where
  "isHierarchyPrefix parent child =
     starts_with child (if ends_with parent ''/'' then parent else parent @ ''/'')"

text \<open>A legacy key \<open>browser:session:I/target:T\<close> with an optional \<open>/frame:F\<close>, parts non-empty.\<close>

definition legacy_browser :: "string \<Rightarrow> (string \<times> string \<times> string option) option" where
  "legacy_browser key =
     (if \<not> starts_with key ''browser:session:'' then None
      else case split_on (CHR ''/'') (drop 16 key) of
        [i, t] \<Rightarrow> (if i \<noteq> [] \<and> starts_with t ''target:'' \<and> drop 7 t \<noteq> []
                  then Some (i, drop 7 t, None) else None)
      | [i, t, f] \<Rightarrow> (if i \<noteq> [] \<and> starts_with t ''target:'' \<and> drop 7 t \<noteq> []
                        \<and> starts_with f ''frame:'' \<and> drop 6 f \<noteq> []
                     then Some (i, drop 7 t, Some (drop 6 f)) else None)
      | _ \<Rightarrow> None)"

definition normalizeLegacyResourceKey :: "string \<Rightarrow> string" where
  "normalizeLegacyResourceKey key =
     (if starts_with key ''workspace:'' then ''filesystem:any''
      else case legacy_browser key of
        None \<Rightarrow> key
      | Some (inst, target, frame) \<Rightarrow>
          (let targets = ''browser:instance:'' @ inst @ ''/targets'' in
           if target = ''global'' then targets
           else (let concrete = targets @ ''/'' @ target
                 in case frame of Some f \<Rightarrow> concrete @ ''/frames/'' @ f | None \<Rightarrow> concrete)))"

definition hierarchicalPrefixes :: "string list" where
  "hierarchicalPrefixes = [''fs-path:'', ''browser:'', ''database:'', ''process:'', ''desktop:'']"

definition hierarchy_conflict :: "string \<Rightarrow> string \<Rightarrow> bool" where
  "hierarchy_conflict l r =
     (case find (\<lambda>pre. starts_with l pre \<and> starts_with r pre) hierarchicalPrefixes of
        None \<Rightarrow> False
      | Some pre \<Rightarrow>
          (let a = drop (length pre) l; b = drop (length pre) r
           in isHierarchyPrefix a b \<or> isHierarchyPrefix b a))"

definition resourceKeysConflict :: "string \<Rightarrow> string \<Rightarrow> bool" where
  "resourceKeysConflict left right =
     (let l = normalizeLegacyResourceKey left; r = normalizeLegacyResourceKey right in
      if l = r then True
      else if (l = ''filesystem:any'' \<and> isFilesystemResource r)
              \<or> (r = ''filesystem:any'' \<and> isFilesystemResource l) then True
      else hierarchy_conflict l r)"

definition canonicalResourceKeys :: "string list \<Rightarrow> string list" where
  "canonicalResourceKeys keys =
     (let normalized = js_set (map normalizeLegacyResourceKey keys) in
      if ''filesystem:any'' \<in> set normalized
      then sort (''filesystem:any'' # filter (\<lambda>key. \<not> isFilesystemResource key) normalized)
      else sort normalized)"

section \<open>Conflict is a symmetric, reflexive relation\<close>

lemma resourceKeysConflict_refl [simp]: "resourceKeysConflict k k"
  by (simp add: resourceKeysConflict_def)

lemma hierarchy_conflict_commute: "hierarchy_conflict l r = hierarchy_conflict r l"
proof -
  have "(\<lambda>pre. starts_with l pre \<and> starts_with r pre)
        = (\<lambda>pre. starts_with r pre \<and> starts_with l pre)" by auto
  then show ?thesis by (auto simp: hierarchy_conflict_def Let_def split: option.splits)
qed

lemma resourceKeysConflict_commute: "resourceKeysConflict l r = resourceKeysConflict r l"
  by (auto simp: resourceKeysConflict_def Let_def hierarchy_conflict_commute)

lemma legacy_browser_instance: "legacy_browser (''browser:instance:'' @ rest) = None"
  by (simp add: legacy_browser_def starts_with_def)

lemma not_workspace_instance: "\<not> starts_with (''browser:instance:'' @ rest) ''workspace:''"
  by (simp add: starts_with_def)

lemma normalizeLegacy_instance [simp]:
  "normalizeLegacyResourceKey (''browser:instance:'' @ rest) = ''browser:instance:'' @ rest"
  by (simp only: normalizeLegacyResourceKey_def legacy_browser_instance not_workspace_instance
      if_False option.case)

lemma normalizeLegacy_any [simp]: "normalizeLegacyResourceKey ''filesystem:any'' = ''filesystem:any''"
  by (simp add: normalizeLegacyResourceKey_def legacy_browser_def starts_with_def)

text \<open>A normalised key is the key itself, the whole file system, or a current browser key.\<close>

lemma normalizeLegacy_cases:
  obtains "normalizeLegacyResourceKey key = key"
    | "normalizeLegacyResourceKey key = ''filesystem:any''"
    | rest where "normalizeLegacyResourceKey key = ''browser:instance:'' @ rest"
proof (cases "starts_with key ''workspace:''")
  case True
  then show ?thesis using that(2) by (simp add: normalizeLegacyResourceKey_def)
next
  case False
  show ?thesis
  proof (cases "legacy_browser key")
    case None
    with False show ?thesis using that(1) by (simp add: normalizeLegacyResourceKey_def)
  next
    case (Some p)
    obtain i t f where p: "p = (i, t, f)" by (cases p)
    have "\<exists>rest. normalizeLegacyResourceKey key = ''browser:instance:'' @ rest"
      using False Some p
      by (cases f; cases "t = ''global''") (simp_all add: normalizeLegacyResourceKey_def Let_def)
    then show ?thesis using that(3) by blast
  qed
qed

lemma normalizeLegacy_idem [simp]:
  "normalizeLegacyResourceKey (normalizeLegacyResourceKey key) = normalizeLegacyResourceKey key"
  by (cases rule: normalizeLegacy_cases [of key]) (simp_all only: normalizeLegacy_any normalizeLegacy_instance)

lemma conflict_normalize [simp]:
  "resourceKeysConflict (normalizeLegacyResourceKey k) r = resourceKeysConflict k r"
  by (simp add: resourceKeysConflict_def)

lemma filesystem_any_conflicts:
  "isFilesystemResource (normalizeLegacyResourceKey r) \<Longrightarrow> resourceKeysConflict ''filesystem:any'' r"
  by (simp add: resourceKeysConflict_def)

lemma isFilesystemResource_not_hierarchical:
  assumes "isFilesystemResource l" and "starts_with l pre" and "pre \<in> set hierarchicalPrefixes"
  shows "pre = ''fs-path:''"
  using assms
  by (auto simp: isFilesystemResource_def hierarchicalPrefixes_def starts_with_iff)

text \<open>A key that conflicts with a file-system resource is a file-system resource.\<close>

lemma conflict_filesystem:
  assumes "resourceKeysConflict l r" and "isFilesystemResource (normalizeLegacyResourceKey l)"
  shows "isFilesystemResource (normalizeLegacyResourceKey r)"
proof -
  let ?l = "normalizeLegacyResourceKey l" and ?r = "normalizeLegacyResourceKey r"
  consider "?l = ?r" | "?r = ''filesystem:any''" | "?l = ''filesystem:any''" "isFilesystemResource ?r"
    | "hierarchy_conflict ?l ?r"
    using assms(1) by (auto simp: resourceKeysConflict_def Let_def split: if_splits)
  then show ?thesis
  proof cases
    case 4
    then obtain pre where "pre \<in> set hierarchicalPrefixes" "starts_with ?l pre" "starts_with ?r pre"
      by (auto simp: hierarchy_conflict_def split: option.splits dest: find_SomeD)
    moreover from this assms(2) have "pre = ''fs-path:''" by (blast dest: isFilesystemResource_not_hierarchical)
    ultimately show ?thesis by (simp add: isFilesystemResource_def)
  qed (use assms(2) in \<open>auto simp: isFilesystemResource_def\<close>)
qed

lemma capability_coverage:
  "set RESOURCE_EXTRACTOR_CAPABILITIES = fst ` set CAPABILITY_RISK_RULES"
  by (simp add: RESOURCE_EXTRACTOR_CAPABILITIES_def CAPABILITY_RISK_RULES_def insert_commute)

section \<open>Properties\<close>

text \<open>
  Canonicalising persisted keys loses no exclusion: whatever conflicts with one of the original
  keys conflicts with one of the canonical keys, and nothing else does.
\<close>

theorem canonicalResourceKeys_same_conflicts:
  "(\<exists>k\<in>set (canonicalResourceKeys keys). resourceKeysConflict k r) \<longleftrightarrow>
   (\<exists>k\<in>set keys. resourceKeysConflict k r)"
proof -
  let ?n = "js_set (map normalizeLegacyResourceKey keys)"
  have n: "(\<exists>k\<in>set ?n. resourceKeysConflict k r) \<longleftrightarrow> (\<exists>k\<in>set keys. resourceKeysConflict k r)"
    by simp
  show ?thesis
  proof (cases "''filesystem:any'' \<in> set ?n")
    case False
    then show ?thesis using n by (simp add: canonicalResourceKeys_def Let_def del: set_js_set)
  next
    case True
    have canon: "set (canonicalResourceKeys keys)
        = insert ''filesystem:any'' {k \<in> set ?n. \<not> isFilesystemResource k}"
      using True by (simp add: canonicalResourceKeys_def Let_def set_insort_key del: set_js_set)
    have any: "resourceKeysConflict ''filesystem:any'' r"
      if k: "k \<in> set ?n" "isFilesystemResource k" "resourceKeysConflict k r" for k
    proof -
      have "normalizeLegacyResourceKey k = k" using k(1) by auto
      then show ?thesis using conflict_filesystem [OF k(3)] k(2) filesystem_any_conflicts by simp
    qed
    have "(\<exists>k\<in>set (canonicalResourceKeys keys). resourceKeysConflict k r)
        \<longleftrightarrow> (\<exists>k\<in>set ?n. resourceKeysConflict k r)"
      unfolding canon using True any by blast
    then show ?thesis using n by simp
  qed
qed

text \<open>
  Extraction is total on policy: the extractor covers exactly the capabilities of the risk table,
  and for every action it either throws or yields a non-empty, sorted, duplicate-free list of keys,
  so no action runs without a lock.
\<close>

theorem resourceKeysForAction_nonempty:
  assumes "resourceKeysForAction cwd action = Inr keys"
  shows "keys \<noteq> [] \<and> sorted keys \<and> distinct keys \<and> isBuiltInCapability (aq_capability action)"
  using assms capability_coverage
  by (auto simp: resourceKeysForAction_def isBuiltInCapability_def split: if_splits sum.splits)

definition demo_action :: "string \<Rightarrow> ActionRisk \<Rightarrow> json_record \<Rightarrow> ActionRequest" where
  "demo_action cap risk input = \<lparr>aq_id = ''a1'', aq_capability = cap, aq_risk = risk, aq_input = input,
     aq_provenance = \<lparr>pv_kind = PUser, pv_source = None\<rparr>, aq_taskId = None, aq_target = None,
     aq_intent = None\<rparr>"

lemmas extraction_defs = resourceKeysForAction_def extracted_keys_def RESOURCE_EXTRACTOR_CAPABILITIES_def
  add_key_def normalizedAbsolute_def has_nul_def path_resolve_def path_segs_def abs_path_def
  path_isAbsolute_def affected_keys_def terminalAffectedPaths_def unique_sorted_def

lemma demo_file_keys:
  "resourceKeysForAction ''/w'' (demo_action ''file.write'' Write [(''path'', JStr ''/a/../b'')])
   = Inr [''file:/b'']"
  by (simp add: demo_action_def extraction_defs starts_with_def nul_char_def)

theorem resourceKeysForAction_nonempty_witness: "[''file:/b''] \<noteq> [] \<and> sorted [''file:/b'']"
  using resourceKeysForAction_nonempty [OF demo_file_keys] by simp

lemma add_key_filesystem:
  assumes "k \<in> set (add_key cwd tag v)" and "tag \<in> {''file'', ''repo'', ''workspace''}"
  shows "isFilesystemResource (normalizeLegacyResourceKey k)"
proof -
  obtain p where k: "k = tag @ '':'' @ p" using assms(1) by (auto simp: add_key_def split: option.splits)
  have "isFilesystemResource k" using assms(2) by (auto simp: k isFilesystemResource_def starts_with_def)
  moreover have "normalizeLegacyResourceKey k = k \<or> normalizeLegacyResourceKey k = ''filesystem:any''"
    using assms(2) by (auto simp: k normalizeLegacyResourceKey_def legacy_browser_def starts_with_def)
  ultimately show ?thesis by (auto simp: isFilesystemResource_def)
qed

text \<open>
  A terminal command that declares no affected resources excludes, and is excluded by, every file,
  document, structured-data, Git and project action: their keys always conflict.
\<close>

theorem undeclared_terminal_excludes_file_actions:
  assumes "aq_capability t = ''terminal.execute''" and "map_of (aq_input t) ''affectedResources'' = None"
    and "resourceKeysForAction cwd t = Inr tkeys"
    and "\<exists>p\<in>set [''file.'', ''document.'', ''structured.'', ''git.'', ''project.'']. starts_with (aq_capability a) p"
    and "resourceKeysForAction cwd' a = Inr akeys"
  shows "\<forall>k\<in>set akeys. \<exists>t\<in>set tkeys. resourceKeysConflict t k \<and> resourceKeysConflict k t"
proof -
  have "tkeys = [''filesystem:any'']"
    using assms(1-3)
    by (simp add: extraction_defs Let_def starts_with_def split: if_splits)
  moreover have "isFilesystemResource (normalizeLegacyResourceKey k)" if "k \<in> set akeys" for k
  proof -
    obtain ks where "extracted_keys cwd' a = Inr ks" "akeys = unique_sorted ks"
      using assms(5) by (auto simp: resourceKeysForAction_def split: if_splits sum.splits)
    moreover from this that have "k \<in> set ks" by simp
    moreover from assms(4) have "aq_capability a \<noteq> ''computer.inspect''" by (auto simp: starts_with_def)
    ultimately show ?thesis
      using assms(4) add_key_filesystem
      by (auto simp: extracted_keys_def Let_def starts_with_iff split: if_splits)
  qed
  ultimately show ?thesis using filesystem_any_conflicts resourceKeysConflict_commute by auto
qed

theorem undeclared_terminal_excludes_file_actions_witness:
  "resourceKeysConflict ''filesystem:any'' ''file:/b''"
proof -
  have "resourceKeysForAction ''/w'' (demo_action ''terminal.execute'' Destructive []) = Inr [''filesystem:any'']"
    by (simp add: demo_action_def extraction_defs starts_with_def)
  from undeclared_terminal_excludes_file_actions [OF _ _ this _ demo_file_keys] show ?thesis
    by (simp add: demo_action_def starts_with_def)
qed

end
