(* ===== verification/Saga.thy ===== *)
theory Saga
  imports ActionModel
begin

text \<open>
  The durable saga kernel (\<open>src/core/durable-saga.ts\<close>), with \<open>kernelVerificationDigest\<close> of
  \<open>src/core/action-verification.ts\<close> and \<open>validIntentBinding\<close> of \<open>src/core/intent-registry.ts\<close>.

  A program runs on a world: the saga state file, the list of all versions of it that were written (a
  crash leaves the file at one of them), and the world of the agent kernel. The agent kernel is an
  argument: executing an action, inspecting the action journal and reconciling an action are functions
  on that world, any of which may throw. SHA-256 over canonical JSON is an argument (\<open>sk_hash\<close> for an
  action, \<open>sk_digest\<close> for a contract), as are the clock and the abort signal. One run at a time works on
  a saga, as the run lock of the source arranges.
\<close>

section \<open>State\<close>

datatype DurableSagaState =
  SagaPending | SagaRunning | SagaCompensating | SagaBlocked | SagaFailed | SagaCompleted | SagaCompensated

datatype DurableSagaStepState =
  StepPending | StepRunning | StepCompleted | StepCompensating | StepCompensated | StepFailed | StepBlocked

record DurableSagaStep =
  ss_key :: string
  ss_action :: ActionRequest
  ss_compensation :: "ActionRequest option"
  ss_state :: DurableSagaStepState
  ss_actionDigest :: string
  ss_compensationDigest :: "string option"
  ss_verificationDigest :: "string option"
  ss_compensationVerificationDigest :: "string option"
  ss_provider :: "string option"
  ss_errorCode :: "string option"
  ss_updatedAt :: int

record DurableSaga =
  ds_id :: string
  ds_contractDigest :: string
  ds_objective :: string
  ds_intent :: "IntentBinding option"
  ds_state :: DurableSagaState
  ds_steps :: "DurableSagaStep list"
  ds_createdAt :: int
  ds_updatedAt :: int

type_synonym SagaStateFile = "DurableSaga list"

datatype saga_file = AbsentSagas | UnreadableSagas | StoredSagas SagaStateFile

record 'w saga_world =
  sw_file :: saga_file
  sw_written :: "SagaStateFile list"
  sw_ext :: 'w

type_synonym ('w, 'a) saga_prog = "'w saga_world \<Rightarrow> 'a result \<times> 'w saga_world"

text \<open>
  The entries of the action journal (\<open>action-transition-journal.ts\<close>) and the reconciliation outcome, which
  the saga kernel reads; the journal itself is modelled in \<open>ActionJournal\<close>.
\<close>

datatype ActionJournalState =
  JPrepared | JDeferred | JDispatched | JObserved | JUncertain | JReconciled | JCompleted | JInterrupted

datatype ReconciliationStatus = RecCompleted | RecNotApplied | RecUncertain

record ActionJournalTransition =
  jt_seq :: int
  jt_state :: ActionJournalState
  jt_at :: int
  jt_provider :: "string option"
  jt_resultDigest :: "string option"
  jt_verificationDigest :: "string option"
  jt_reconciliationStatus :: "ReconciliationStatus option"

record ActionJournalEntry =
  je_actionId :: string
  je_actionDigest :: string
  je_ownerKind :: string
  je_ownerId :: string
  je_capability :: string
  je_risk :: ActionRisk
  je_intent :: "IntentBinding option"
  je_resourceKeys :: "string list"
  je_generation :: int
  je_state :: ActionJournalState
  je_transitions :: "ActionJournalTransition list"
  je_createdAt :: int
  je_updatedAt :: int

record ProviderReconciliationResult =
  pr_status :: ReconciliationStatus
  pr_result :: "ActionResult option"
  pr_evidence :: "Evidence list"

record saga_contract =
  sc_id :: string
  sc_objective :: string
  sc_intent :: "IntentBinding option"
  sc_steps :: "(string \<times> string \<times> string option) list"

record 'w saga_kernel =
  sk_execute :: "string \<Rightarrow> ActionRequest \<Rightarrow> 'w \<Rightarrow> ActionResult result \<times> 'w"
  sk_journal :: "string \<Rightarrow> 'w \<Rightarrow> ActionJournalEntry result \<times> 'w"
  sk_reconcile :: "ActionRequest \<Rightarrow> string \<Rightarrow> 'w \<Rightarrow> ProviderReconciliationResult result \<times> 'w"
  sk_aborted :: "'w \<Rightarrow> bool"
  sk_clock :: "nat \<Rightarrow> int"
  sk_hash :: "ActionRequest \<Rightarrow> string"
  sk_digest :: "saga_contract \<Rightarrow> string"

definition MAX_SAGAS :: nat where "MAX_SAGAS = 1000"
definition MAX_STEPS :: nat where "MAX_STEPS = 100"

section \<open>Field checks\<close>

definition saga_invalid :: failure where
  "saga_invalid = OperatorError ''SAGA_INPUT_INVALID''"

definition saga_corrupt :: failure where
  "saga_corrupt = OperatorError ''SAGA_STATE_CORRUPT''"

definition hex64_lower :: "string \<Rightarrow> bool" where
  "hex64_lower s \<longleftrightarrow> length s = 64 \<and> list_all is_hex_lower s"

definition sha :: "string \<Rightarrow> failure option" where
  "sha s = (if hex64_lower (to_lower s) then None else Some saga_corrupt)"

definition uuid_shape :: "string \<Rightarrow> bool" where
  "uuid_shape s \<longleftrightarrow> length s = 36
     \<and> list_all (\<lambda>i. if i \<in> {8, 13, 18, 23} then s ! i = CHR ''-'' else is_hex (s ! i)) [0..<36]
     \<and> s ! 14 \<in> set ''12345'' \<and> s ! 19 \<in> set ''89abAB''"

definition saga_uuid :: "string \<Rightarrow> string result" where
  "saga_uuid s = (if uuid_shape s then Inr (to_lower s) else Inl saga_invalid)"

definition key_char :: "char \<Rightarrow> bool" where
  "key_char c \<longleftrightarrow> is_lower c \<or> is_upper c \<or> is_digit c \<or> c \<in> set ''._:-''"

definition boundedKey :: "string \<Rightarrow> failure option" where
  "boundedKey s = (if 1 \<le> length s \<and> length s \<le> 128 \<and> list_all key_char s then None else Some saga_invalid)"

definition saga_bounded :: "string \<Rightarrow> nat \<Rightarrow> failure option" where
  "saga_bounded s n = (if length s < 1 \<or> length s > n \<or> nul_char \<in> set s then Some saga_invalid else None)"

definition validIntentBinding :: "IntentBinding \<Rightarrow> IntentBinding result" where
  "validIntentBinding b =
     (if boundedKey (ib_conversationId b) \<noteq> None then Inl (OperatorError ''INTENT_BINDING_INVALID'')
      else if \<not> is_safe_integer (ib_intentVersion b) \<or> ib_intentVersion b < 1
      then Inl (OperatorError ''INTENT_BINDING_INVALID'')
      else if \<not> hex64_lower (to_lower (ib_digest b)) then Inl (OperatorError ''INTENT_BINDING_INVALID'')
      else Inr (b\<lparr>ib_digest := to_lower (ib_digest b)\<rparr>))"

definition verification_item :: "Evidence \<Rightarrow> string option" where
  "verification_item item =
     (if ev_kind item \<noteq> ''kernel_verification'' \<or> ev_status item \<noteq> EvPass then None
      else case ev_data item of None \<Rightarrow> None
           | Some d \<Rightarrow> (case map_of d ''verificationDigest'' of
               Some (JStr v) \<Rightarrow> if hex64_lower (to_lower v) then Some (to_lower v) else None
             | _ \<Rightarrow> None))"

fun first_some :: "('a \<Rightarrow> 'b option) \<Rightarrow> 'a list \<Rightarrow> 'b option" where
  "first_some f [] = None"
| "first_some f (x # xs) = (case f x of Some y \<Rightarrow> Some y | None \<Rightarrow> first_some f xs)"

definition kernelVerificationDigest :: "ActionResult \<Rightarrow> string option" where
  "kernelVerificationDigest r = first_some verification_item (rev (ar_evidence r))"

definition latestVerificationDigest :: "ActionJournalEntry \<Rightarrow> string option" where
  "latestVerificationDigest entry = first_some (\<lambda>t. truthy (jt_verificationDigest t)) (rev (je_transitions entry))"

section \<open>State file\<close>

definition check_step :: "(ActionRequest \<Rightarrow> string) \<Rightarrow> string list \<Rightarrow> DurableSagaStep \<Rightarrow> failure option" where
  "check_step hash keys st =
     (case boundedKey (ss_key st) of Some e \<Rightarrow> Some e
      | None \<Rightarrow>
        (if ss_key st \<in> set keys then Some saga_corrupt
         else case sha (ss_actionDigest st) of Some e \<Rightarrow> Some e
         | None \<Rightarrow>
           (if ss_actionDigest st \<noteq> hash (ss_action st) then Some saga_corrupt
            else if (case ss_compensation st of
                       Some c \<Rightarrow> truthy (ss_compensationDigest st) \<noteq> Some (hash c)
                     | None \<Rightarrow> ss_compensationDigest st \<noteq> None) then Some saga_corrupt
            else for_all_throw (\<lambda>c. c)
              [case truthy (ss_verificationDigest st) of None \<Rightarrow> None | Some d \<Rightarrow> sha d,
               case truthy (ss_compensationVerificationDigest st) of None \<Rightarrow> None | Some d \<Rightarrow> sha d,
               case ss_provider st of None \<Rightarrow> None | Some p \<Rightarrow> saga_bounded p 256,
               case ss_errorCode st of None \<Rightarrow> None | Some c \<Rightarrow> saga_bounded c 256])))"

fun check_steps :: "(ActionRequest \<Rightarrow> string) \<Rightarrow> string list \<Rightarrow> DurableSagaStep list \<Rightarrow> failure option" where
  "check_steps hash keys [] = None"
| "check_steps hash keys (st # sts) =
     (case check_step hash keys st of Some e \<Rightarrow> Some e | None \<Rightarrow> check_steps hash (ss_key st # keys) sts)"

definition check_saga :: "(ActionRequest \<Rightarrow> string) \<Rightarrow> string list \<Rightarrow> DurableSaga \<Rightarrow> failure option" where
  "check_saga hash ids s =
     (case saga_uuid (ds_id s) of Inl e \<Rightarrow> Some e
      | Inr _ \<Rightarrow>
        (if ds_id s \<in> set ids then Some saga_corrupt
         else case sha (ds_contractDigest s) of Some e \<Rightarrow> Some e
         | None \<Rightarrow> (case saga_bounded (ds_objective s) 16384 of Some e \<Rightarrow> Some e
         | None \<Rightarrow> (case (case ds_intent s of None \<Rightarrow> None
                        | Some b \<Rightarrow> (case validIntentBinding b of Inl e \<Rightarrow> Some e | Inr _ \<Rightarrow> None)) of Some e \<Rightarrow> Some e
         | None \<Rightarrow>
           (if length (ds_steps s) < 1 \<or> length (ds_steps s) > MAX_STEPS then Some saga_corrupt
            else check_steps hash [] (ds_steps s))))))"

fun check_sagas :: "(ActionRequest \<Rightarrow> string) \<Rightarrow> string list \<Rightarrow> DurableSaga list \<Rightarrow> failure option" where
  "check_sagas hash ids [] = None"
| "check_sagas hash ids (s # ss) =
     (case check_saga hash ids s of Some e \<Rightarrow> Some e | None \<Rightarrow> check_sagas hash (ds_id s # ids) ss)"

definition validateSagas :: "(ActionRequest \<Rightarrow> string) \<Rightarrow> SagaStateFile \<Rightarrow> SagaStateFile result" where
  "validateSagas hash sagas =
     (if length sagas > MAX_SAGAS then Inl saga_corrupt
      else case check_sagas hash [] sagas of Some e \<Rightarrow> Inl e | None \<Rightarrow> Inr sagas)"

fun read_sagas :: "(ActionRequest \<Rightarrow> string) \<Rightarrow> saga_file \<Rightarrow> SagaStateFile result" where
  "read_sagas hash AbsentSagas = Inr []"
| "read_sagas hash UnreadableSagas = Inl saga_corrupt"
| "read_sagas hash (StoredSagas sagas) = validateSagas hash sagas"

definition mutate_sagas ::
  "'w saga_kernel \<Rightarrow> (SagaStateFile \<Rightarrow> int \<Rightarrow> (SagaStateFile \<times> 'a) result) \<Rightarrow> ('w, 'a) saga_prog" where
  "mutate_sagas k fn w =
     (case read_sagas (sk_hash k) (sw_file w) of Inl e \<Rightarrow> (Inl e, w)
      | Inr sagas \<Rightarrow> (case fn sagas (sk_clock k (length (sw_written w))) of Inl e \<Rightarrow> (Inl e, w)
         | Inr (sagas', out) \<Rightarrow> (case validateSagas (sk_hash k) sagas' of Inl e \<Rightarrow> (Inl e, w)
            | Inr _ \<Rightarrow> (Inr out, w\<lparr>sw_file := StoredSagas sagas', sw_written := sw_written w @ [sagas']\<rparr>))))"

definition update_saga ::
  "'w saga_kernel \<Rightarrow> string \<Rightarrow> (DurableSaga \<Rightarrow> int \<Rightarrow> DurableSaga result) \<Rightarrow> ('w, DurableSaga) saga_prog" where
  "update_saga k i f = mutate_sagas k (\<lambda>sagas now.
     case find (\<lambda>s. ds_id s = i) sagas of None \<Rightarrow> Inl (OperatorError ''SAGA_NOT_FOUND'')
     | Some s \<Rightarrow> (case f s now of Inl e \<Rightarrow> Inl e
        | Inr s' \<Rightarrow> Inr (update_first (\<lambda>s. ds_id s = i) (\<lambda>_. s') sagas, s')))"

definition inspect_saga :: "'w saga_kernel \<Rightarrow> string \<Rightarrow> ('w, DurableSaga) saga_prog" where
  "inspect_saga k sagaId w =
     (case read_sagas (sk_hash k) (sw_file w) of Inl e \<Rightarrow> (Inl e, w)
      | Inr sagas \<Rightarrow>
         (if sagas = [] then (Inl (OperatorError ''SAGA_NOT_FOUND''), w)
          else case saga_uuid sagaId of Inl e \<Rightarrow> (Inl e, w)
               | Inr i \<Rightarrow> (case find (\<lambda>s. ds_id s = i) sagas of
                   None \<Rightarrow> (Inl (OperatorError ''SAGA_NOT_FOUND''), w) | Some s \<Rightarrow> (Inr s, w))))"

definition list_sagas :: "'w saga_kernel \<Rightarrow> int \<Rightarrow> ('w, DurableSaga list) saga_prog" where
  "list_sagas k limit w =
     (if \<not> is_safe_integer limit \<or> limit < 1 \<or> limit > 500 then (Inl saga_invalid, w)
      else case read_sagas (sk_hash k) (sw_file w) of Inl e \<Rightarrow> (Inl e, w)
           | Inr sagas \<Rightarrow> (Inr (take (nat limit) (sort_key (\<lambda>s. - ds_updatedAt s) sagas)), w))"

definition and_then :: "('w, 'a) saga_prog \<Rightarrow> ('a \<Rightarrow> ('w, 'b) saga_prog) \<Rightarrow> ('w, 'b) saga_prog" where
  "and_then m f w = (case m w of (Inl e, w') \<Rightarrow> (Inl e, w') | (Inr x, w') \<Rightarrow> f x w')"

text \<open>A call of the agent kernel leaves the saga file alone.\<close>

definition external :: "('w \<Rightarrow> 'a result \<times> 'w) \<Rightarrow> ('w, 'a) saga_prog" where
  "external call w = (case call (sw_ext w) of (r, x) \<Rightarrow> (r, w\<lparr>sw_ext := x\<rparr>))"

section \<open>Submission\<close>

record saga_step_input =
  si_key :: string
  si_action :: ActionRequest
  si_compensation :: "ActionRequest option"

definition bindAction :: "ActionRequest \<Rightarrow> string \<Rightarrow> IntentBinding option \<Rightarrow> ActionRequest result" where
  "bindAction action sagaId intent =
     (case intent of None \<Rightarrow> Inr (action\<lparr>aq_taskId := Some sagaId\<rparr>)
      | Some b \<Rightarrow>
         (case aq_intent action of
            Some a \<Rightarrow> if a \<noteq> b then Inl (OperatorError ''SAGA_INTENT_CONFLICT'')
                      else Inr (action\<lparr>aq_taskId := Some sagaId, aq_intent := Some b\<rparr>)
          | None \<Rightarrow> Inr (action\<lparr>aq_taskId := Some sagaId, aq_intent := Some b\<rparr>)))"

definition normalize_step ::
  "(ActionRequest \<Rightarrow> string) \<Rightarrow> string \<Rightarrow> IntentBinding option \<Rightarrow> string list \<Rightarrow> saga_step_input \<Rightarrow> DurableSagaStep result" where
  "normalize_step hash i intent keys st =
     (case boundedKey (si_key st) of Some e \<Rightarrow> Inl e
      | None \<Rightarrow>
        (if si_key st \<in> set keys then Inl saga_invalid
         else case bindAction (si_action st) i intent of Inl e \<Rightarrow> Inl e
         | Inr action \<Rightarrow>
           (case (case si_compensation st of None \<Rightarrow> Inr None
                  | Some c \<Rightarrow> map_sum id Some (bindAction c i intent)) of Inl e \<Rightarrow> Inl e
            | Inr compensation \<Rightarrow>
              (if (case compensation of None \<Rightarrow> False | Some c \<Rightarrow> aq_id c = aq_id action) then Inl saga_invalid
               else Inr \<lparr>ss_key = si_key st, ss_action = action, ss_compensation = compensation,
                 ss_state = StepPending, ss_actionDigest = hash action,
                 ss_compensationDigest = map_option hash compensation, ss_verificationDigest = None,
                 ss_compensationVerificationDigest = None, ss_provider = None, ss_errorCode = None,
                 ss_updatedAt = 0\<rparr>))))"

fun normalize_steps ::
  "(ActionRequest \<Rightarrow> string) \<Rightarrow> string \<Rightarrow> IntentBinding option \<Rightarrow> string list \<Rightarrow> saga_step_input list
   \<Rightarrow> DurableSagaStep list result" where
  "normalize_steps hash i intent keys [] = Inr []"
| "normalize_steps hash i intent keys (st # sts) =
     (case normalize_step hash i intent keys st of Inl e \<Rightarrow> Inl e
      | Inr x \<Rightarrow> (case normalize_steps hash i intent (si_key st # keys) sts of Inl e \<Rightarrow> Inl e | Inr xs \<Rightarrow> Inr (x # xs)))"

definition reclaimable :: "DurableSaga \<Rightarrow> bool" where
  "reclaimable s \<longleftrightarrow> ds_state s \<in> {SagaCompleted, SagaCompensated, SagaFailed}"

definition contract_of :: "string \<Rightarrow> string \<Rightarrow> IntentBinding option \<Rightarrow> DurableSagaStep list \<Rightarrow> saga_contract" where
  "contract_of i objective intent normalized =
     \<lparr>sc_id = i, sc_objective = objective, sc_intent = intent,
      sc_steps = map (\<lambda>s. (ss_key s, ss_actionDigest s, ss_compensationDigest s)) normalized\<rparr>"

definition submit_mutator ::
  "string \<Rightarrow> string \<Rightarrow> string \<Rightarrow> IntentBinding option \<Rightarrow> DurableSagaStep list \<Rightarrow> SagaStateFile \<Rightarrow> int
   \<Rightarrow> (SagaStateFile \<times> DurableSaga) result" where
  "submit_mutator i contractDigest objective intent normalized sagas now =
     (case find (\<lambda>s. ds_id s = i) sagas of
        Some existing \<Rightarrow>
          (if ds_contractDigest existing \<noteq> contractDigest then Inl (OperatorError ''SAGA_ID_CONFLICT'')
           else Inr (sagas, existing))
      | None \<Rightarrow>
         (case (if length sagas \<ge> MAX_SAGAS
                then (case sort_key ds_updatedAt (filter reclaimable sagas) of
                        [] \<Rightarrow> Inl (OperatorError ''SAGA_LIMIT'')
                      | reclaim # _ \<Rightarrow> Inr (remove1 (the (find (\<lambda>s. ds_id s = ds_id reclaim) sagas)) sagas))
                else Inr sagas) of Inl e \<Rightarrow> Inl e
          | Inr kept \<Rightarrow>
             (let saga = \<lparr>ds_id = i, ds_contractDigest = contractDigest, ds_objective = objective,
                ds_intent = intent, ds_state = SagaPending,
                ds_steps = map (\<lambda>s. s\<lparr>ss_state := StepPending, ss_updatedAt := now\<rparr>) normalized,
                ds_createdAt = now, ds_updatedAt = now\<rparr>
              in Inr (kept @ [saga], saga))))"

definition submit_saga ::
  "'w saga_kernel \<Rightarrow> string \<Rightarrow> string option \<Rightarrow> string \<Rightarrow> IntentBinding option \<Rightarrow> saga_step_input list
   \<Rightarrow> ('w, DurableSaga) saga_prog" where
  "submit_saga k freshId sagaId objective intentInput steps w =
     (case saga_bounded objective 16384 of Some e \<Rightarrow> (Inl e, w)
      | None \<Rightarrow>
        (if length steps < 1 \<or> length steps > MAX_STEPS then (Inl saga_invalid, w)
         else case (case sagaId of None \<Rightarrow> Inr freshId | Some i \<Rightarrow> saga_uuid i) of Inl e \<Rightarrow> (Inl e, w)
         | Inr i \<Rightarrow>
           (case (case intentInput of None \<Rightarrow> Inr None | Some b \<Rightarrow> map_sum id Some (validIntentBinding b)) of
              Inl e \<Rightarrow> (Inl e, w)
            | Inr intent \<Rightarrow>
              (case normalize_steps (sk_hash k) i intent [] steps of Inl e \<Rightarrow> (Inl e, w)
               | Inr normalized \<Rightarrow>
                   mutate_sagas k (submit_mutator i (sk_digest k (contract_of i objective intent normalized))
                     objective intent normalized) w))))"

section \<open>Execution\<close>

definition requireStep :: "DurableSaga \<Rightarrow> string \<Rightarrow> (DurableSagaStep \<Rightarrow> DurableSagaStep) \<Rightarrow> DurableSaga result" where
  "requireStep s key change =
     (case find (\<lambda>st. ss_key st = key) (ds_steps s) of None \<Rightarrow> Inl saga_corrupt
      | Some _ \<Rightarrow> Inr (s\<lparr>ds_steps := update_first (\<lambda>st. ss_key st = key) change (ds_steps s)\<rparr>))"

text \<open>Changing one step and stamping the step and the saga with the time of the write.\<close>

definition touch_step ::
  "string \<Rightarrow> (DurableSagaStep \<Rightarrow> DurableSagaStep) \<Rightarrow> DurableSaga \<Rightarrow> int \<Rightarrow> DurableSaga result" where
  "touch_step key change s now =
     (case requireStep s key (\<lambda>st. change st\<lparr>ss_updatedAt := now\<rparr>) of Inl e \<Rightarrow> Inl e
      | Inr s' \<Rightarrow> Inr (s'\<lparr>ds_updatedAt := now\<rparr>))"

definition touch_saga :: "DurableSagaState \<Rightarrow> DurableSaga \<Rightarrow> int \<Rightarrow> DurableSaga result" where
  "touch_saga st s now = Inr (s\<lparr>ds_state := st, ds_updatedAt := now\<rparr>)"

definition touch_both ::
  "string \<Rightarrow> (DurableSagaStep \<Rightarrow> DurableSagaStep) \<Rightarrow> DurableSagaState \<Rightarrow> DurableSaga \<Rightarrow> int \<Rightarrow> DurableSaga result" where
  "touch_both key change st s now =
     (case touch_step key change s now of Inl e \<Rightarrow> Inl e | Inr s' \<Rightarrow> Inr (s'\<lparr>ds_state := st\<rparr>))"

definition blockRecovery :: "'w saga_kernel \<Rightarrow> string \<Rightarrow> string \<Rightarrow> string \<Rightarrow> ('w, DurableSaga) saga_prog" where
  "blockRecovery k i key code =
     update_saga k i (touch_both key (\<lambda>st. st\<lparr>ss_state := StepBlocked, ss_errorCode := Some code\<rparr>) SagaBlocked)"

definition uncertain_result :: "ActionResult \<Rightarrow> bool" where
  "uncertain_result r =
     (case ar_error r of None \<Rightarrow> False
      | Some e \<Rightarrow> ae_sideEffectState e = Some SeUncertain \<or> ae_code e = ''ACTION_RECONCILIATION_REQUIRED'')"

definition error_code_or :: "string \<Rightarrow> ActionResult \<Rightarrow> string" where
  "error_code_or dflt r = (case ar_error r of None \<Rightarrow> dflt | Some e \<Rightarrow> ae_code e)"

fun compensate_steps :: "'w saga_kernel \<Rightarrow> string \<Rightarrow> DurableSagaStep list \<Rightarrow> ('w, DurableSaga) saga_prog" where
  "compensate_steps k i [] w = update_saga k i (touch_saga SagaCompensated) w"
| "compensate_steps k i (st # sts) w =
     (if sk_aborted k (sw_ext w) then inspect_saga k i w
      else case ss_compensation st of
        None \<Rightarrow> and_then (update_saga k i (touch_step (ss_key st) (\<lambda>t. t\<lparr>ss_state := StepCompensated\<rparr>)))
                  (\<lambda>_. compensate_steps k i sts) w
      | Some compensation \<Rightarrow>
          and_then (update_saga k i (touch_step (ss_key st) (\<lambda>t. t\<lparr>ss_state := StepCompensating\<rparr>)))
            (\<lambda>_. and_then (external (sk_execute k ''saga-compensation'' compensation))
              (\<lambda>result.
                (case (ar_ok result, kernelVerificationDigest result) of
                   (True, Some d) \<Rightarrow>
                     and_then (update_saga k i (touch_step (ss_key st) (\<lambda>t. t\<lparr>ss_state := StepCompensated,
                         ss_provider := Some (ar_provider result), ss_compensationVerificationDigest := Some d\<rparr>)))
                       (\<lambda>_. compensate_steps k i sts)
                 | _ \<Rightarrow>
                     update_saga k i (touch_both (ss_key st)
                       (\<lambda>t. t\<lparr>ss_state := (if uncertain_result result then StepBlocked else StepFailed),
                              ss_errorCode := Some (error_code_or ''SAGA_COMPENSATION_FAILED'' result)\<rparr>)
                       (if uncertain_result result then SagaBlocked else SagaFailed))))) w)"

definition compensable :: "DurableSaga \<Rightarrow> DurableSagaStep list" where
  "compensable s = rev (filter (\<lambda>st. ss_state st = StepCompleted \<or> ss_state st = StepCompensating) (ds_steps s))"

definition compensate :: "'w saga_kernel \<Rightarrow> string \<Rightarrow> ('w, DurableSaga) saga_prog" where
  "compensate k i =
     and_then (update_saga k i (touch_saga SagaCompensating))
       (\<lambda>_. and_then (inspect_saga k i) (\<lambda>s. compensate_steps k i (compensable s)))"

fun run_steps :: "'w saga_kernel \<Rightarrow> string \<Rightarrow> DurableSagaStep list \<Rightarrow> ('w, DurableSaga) saga_prog" where
  "run_steps k i [] w =
     update_saga k i (\<lambda>s now. if \<not> list_all (\<lambda>st. ss_state st = StepCompleted) (ds_steps s) then Inl saga_corrupt
                            else touch_saga SagaCompleted s now) w"
| "run_steps k i (st # sts) w =
     (if ss_state st = StepCompleted \<or> ss_state st = StepCompensated then run_steps k i sts w
      else if sk_aborted k (sw_ext w) then inspect_saga k i w
      else if ss_state st \<noteq> StepPending then (Inl saga_corrupt, w)
      else and_then (update_saga k i (touch_step (ss_key st) (\<lambda>t. t\<lparr>ss_state := StepRunning\<rparr>)))
        (\<lambda>_. and_then (external (sk_execute k ''saga'' (ss_action st)))
          (\<lambda>result.
            (case (ar_ok result, kernelVerificationDigest result) of
               (True, Some d) \<Rightarrow>
                 and_then (update_saga k i (touch_step (ss_key st) (\<lambda>t. t\<lparr>ss_state := StepCompleted,
                     ss_provider := Some (ar_provider result), ss_verificationDigest := Some d\<rparr>)))
                   (\<lambda>_. run_steps k i sts)
             | _ \<Rightarrow>
                 and_then (update_saga k i (touch_both (ss_key st)
                     (\<lambda>t. t\<lparr>ss_state := (if uncertain_result result then StepBlocked else StepFailed),
                            ss_provider := Some (ar_provider result),
                            ss_errorCode := Some (error_code_or ''SAGA_STEP_FAILED'' result)\<rparr>)
                     (if uncertain_result result then SagaBlocked else SagaCompensating)))
                   (\<lambda>_. if uncertain_result result then inspect_saga k i
                        else and_then (inspect_saga k i) (\<lambda>_. compensate k i))))) w)"

text \<open>What recovery writes for an interrupted step whose effect turned out to be complete.\<close>

definition settle_step :: "DurableSagaStepState \<Rightarrow> string option \<Rightarrow> DurableSagaStep \<Rightarrow> DurableSagaStep" where
  "settle_step was verification t =
     (if was = StepCompensating
      then t\<lparr>ss_state := StepCompensated,
             ss_compensationVerificationDigest :=
               (case verification of None \<Rightarrow> ss_compensationVerificationDigest t | d \<Rightarrow> d)\<rparr>
      else t\<lparr>ss_state := StepCompleted,
             ss_verificationDigest := (case verification of None \<Rightarrow> ss_verificationDigest t | d \<Rightarrow> d)\<rparr>)"

text \<open>A recovery step either ends the recovery with a blocked saga or goes on.\<close>

datatype recovery = Stop DurableSaga | Continue

definition going_on :: "('w, DurableSaga) saga_prog \<Rightarrow> ('w, recovery) saga_prog" where
  "going_on m = and_then m (\<lambda>_ w. (Inr Continue, w))"

definition stopping :: "('w, DurableSaga) saga_prog \<Rightarrow> ('w, recovery) saga_prog" where
  "stopping m = and_then m (\<lambda>s w. (Inr (Stop s), w))"

definition recover_journalled ::
  "'w saga_kernel \<Rightarrow> string \<Rightarrow> DurableSagaStep \<Rightarrow> ActionRequest \<Rightarrow> ActionJournalEntry \<Rightarrow> ('w, recovery) saga_prog" where
  "recover_journalled k i st action journal =
     (if je_state journal = JCompleted
      then going_on (update_saga k i (touch_step (ss_key st) (settle_step (ss_state st) (latestVerificationDigest journal))))
      else if je_state journal \<in> {JPrepared, JDeferred, JReconciled}
      then going_on (update_saga k i (touch_step (ss_key st) (\<lambda>t. t\<lparr>ss_state := StepPending\<rparr>)))
      else case first_some (\<lambda>t. truthy (jt_provider t)) (rev (je_transitions journal)) of
        None \<Rightarrow> stopping (blockRecovery k i (ss_key st) ''SAGA_RECONCILIATION_PROVIDER_MISSING'')
      | Some provider \<Rightarrow>
          and_then (external (sk_reconcile k action provider))
            (\<lambda>rec. case (pr_status rec, pr_result rec) of
               (RecCompleted, Some result) \<Rightarrow>
                 going_on (update_saga k i (touch_step (ss_key st)
                   (settle_step (ss_state st) (kernelVerificationDigest result))))
             | (RecNotApplied, _) \<Rightarrow>
                 going_on (update_saga k i (touch_step (ss_key st) (\<lambda>t. t\<lparr>ss_state := StepPending\<rparr>)))
             | _ \<Rightarrow> stopping (blockRecovery k i (ss_key st) ''SAGA_RECONCILIATION_REQUIRED'')))"

definition recover_step :: "'w saga_kernel \<Rightarrow> string \<Rightarrow> DurableSagaStep \<Rightarrow> ('w, recovery) saga_prog" where
  "recover_step k i st w =
     (if ss_state st \<noteq> StepRunning \<and> ss_state st \<noteq> StepCompensating then (Inr Continue, w)
      else case (if ss_state st = StepCompensating then ss_compensation st else Some (ss_action st)) of
        None \<Rightarrow> going_on (update_saga k i (touch_step (ss_key st) (\<lambda>t. t\<lparr>ss_state := StepCompensated\<rparr>))) w
      | Some action \<Rightarrow>
          (case external (sk_journal k (aq_id action)) w of
             (Inl e, w') \<Rightarrow>
               (if e = OperatorError ''ACTION_JOURNAL_NOT_FOUND''
                then going_on (update_saga k i (touch_step (ss_key st) (\<lambda>t. t\<lparr>ss_state := StepPending\<rparr>))) w'
                else (Inl e, w'))
           | (Inr journal, w') \<Rightarrow> recover_journalled k i st action journal w'))"

fun recover_steps :: "'w saga_kernel \<Rightarrow> string \<Rightarrow> DurableSagaStep list \<Rightarrow> ('w, DurableSaga) saga_prog" where
  "recover_steps k i [] w =
     and_then (inspect_saga k i)
       (\<lambda>s. if ds_state s = SagaRunning \<and> list_ex (\<lambda>st. ss_state st = StepFailed) (ds_steps s)
            then update_saga k i (touch_saga SagaCompensating) else (\<lambda>w. (Inr s, w))) w"
| "recover_steps k i (st # sts) w =
     and_then (recover_step k i st) (\<lambda>r. case r of Stop s \<Rightarrow> (\<lambda>w. (Inr s, w)) | Continue \<Rightarrow> recover_steps k i sts) w"

definition run_recovered :: "'w saga_kernel \<Rightarrow> string \<Rightarrow> DurableSaga \<Rightarrow> ('w, DurableSaga) saga_prog" where
  "run_recovered k i s =
     (if ds_state s = SagaBlocked then (\<lambda>w. (Inr s, w))
      else if ds_state s = SagaCompensating then compensate k i
      else and_then (update_saga k i (touch_saga SagaRunning))
        (\<lambda>_. and_then (inspect_saga k i) (\<lambda>s. run_steps k i (ds_steps s))))"

definition run_saga :: "'w saga_kernel \<Rightarrow> string \<Rightarrow> ('w, DurableSaga) saga_prog" where
  "run_saga k sagaId w =
     (case saga_uuid sagaId of Inl e \<Rightarrow> (Inl e, w)
      | Inr i \<Rightarrow>
         and_then (inspect_saga k i)
           (\<lambda>s. if ds_state s \<in> {SagaCompleted, SagaCompensated, SagaFailed} then (\<lambda>w. (Inr s, w))
                else and_then (recover_steps k i (ds_steps s)) (run_recovered k i)) w)"

section \<open>Abstract life cycle of a saga\<close>

definition active :: "DurableSaga \<Rightarrow> bool" where
  "active s \<longleftrightarrow> ds_state s \<notin> {SagaCompleted, SagaCompensated, SagaFailed}"

definition frozen_step where
  "frozen_step st = (ss_key st, ss_action st, ss_compensation st, ss_actionDigest st, ss_compensationDigest st)"

text \<open>What the submission fixed for good.\<close>

definition frozen where
  "frozen s = (ds_id s, ds_contractDigest s, ds_objective s, ds_intent s, ds_createdAt s, map frozen_step (ds_steps s))"

definition all_steps_completed :: "DurableSaga \<Rightarrow> bool" where
  "all_steps_completed s = list_all (\<lambda>st. ss_state st = StepCompleted) (ds_steps s)"

text \<open>One write of a run: never from a terminal state, never to the contract, and to
  \<open>COMPLETED\<close> only when every step is.\<close>

inductive saga_trans :: "DurableSaga \<Rightarrow> DurableSaga \<Rightarrow> bool" where
  advance: "active s \<Longrightarrow> frozen s' = frozen s \<Longrightarrow> ds_state s' \<noteq> SagaCompleted \<Longrightarrow> saga_trans s s'"
| finish: "active s \<Longrightarrow> frozen s' = frozen s \<Longrightarrow> all_steps_completed s' \<Longrightarrow> saga_trans s s'"

inductive_cases saga_transE: "saga_trans s s'"

lemma saga_trans_frozen: "saga_trans\<^sup>*\<^sup>* s s' \<Longrightarrow> frozen s' = frozen s"
  by (induction rule: rtranclp_induct) (auto elim: saga_transE)

lemma saga_trans_completed:
  "saga_trans\<^sup>*\<^sup>* s s' \<Longrightarrow> active s \<Longrightarrow> ds_state s' = SagaCompleted \<Longrightarrow> all_steps_completed s'"
  by (induction rule: rtranclp_induct) (auto simp: active_def elim: saga_transE)

section \<open>Runs refine the life cycle\<close>

definition lookup_saga :: "'w saga_kernel \<Rightarrow> 'w saga_world \<Rightarrow> string \<Rightarrow> DurableSaga option" where
  "lookup_saga k w i =
     (case read_sagas (sk_hash k) (sw_file w) of Inl _ \<Rightarrow> None | Inr sagas \<Rightarrow> find (\<lambda>s. ds_id s = i) sagas)"

definition evolving :: "'w saga_kernel \<Rightarrow> string \<Rightarrow> DurableSaga \<Rightarrow> 'w saga_world \<Rightarrow> bool" where
  "evolving k i s0 w \<longleftrightarrow>
     (\<exists>s. lookup_saga k w i = Some s \<and> saga_trans\<^sup>*\<^sup>* s0 s)
     \<and> (\<forall>v\<in>set (sw_written w). \<exists>s. find (\<lambda>s. ds_id s = i) v = Some s \<and> saga_trans\<^sup>*\<^sup>* s0 s)"

definition active_in :: "'w saga_kernel \<Rightarrow> string \<Rightarrow> 'w saga_world \<Rightarrow> bool" where
  "active_in k i w \<longleftrightarrow> (\<exists>s. lookup_saga k w i = Some s \<and> active s)"

text \<open>
  The programs of the saga kernel are composed of parts that may end the saga's activity
  (\<open>evolves\<close>) and parts that keep it active when they return (\<open>keeps_active\<close>).
\<close>

definition evolves :: "'w saga_kernel \<Rightarrow> string \<Rightarrow> DurableSaga \<Rightarrow> ('w, 'a) saga_prog \<Rightarrow> bool" where
  "evolves k i s0 m \<longleftrightarrow>
     (\<forall>w r w'. evolving k i s0 w \<longrightarrow> active_in k i w \<longrightarrow> m w = (r, w') \<longrightarrow> evolving k i s0 w')"

definition keeps_active :: "'w saga_kernel \<Rightarrow> string \<Rightarrow> DurableSaga \<Rightarrow> ('w, 'a) saga_prog \<Rightarrow> bool" where
  "keeps_active k i s0 m \<longleftrightarrow>
     (\<forall>w r w'. evolving k i s0 w \<longrightarrow> active_in k i w \<longrightarrow> m w = (r, w')
        \<longrightarrow> evolving k i s0 w' \<and> (\<forall>x. r = Inr x \<longrightarrow> active_in k i w'))"

lemma keeps_evolves: "keeps_active k i s0 m \<Longrightarrow> evolves k i s0 m"
  unfolding keeps_active_def evolves_def by blast

lemma evolves_and_then:
  assumes m: "keeps_active k i s0 m" and f: "\<And>x. evolves k i s0 (f x)"
  shows "evolves k i s0 (and_then m f)"
  unfolding evolves_def
proof (intro allI impI)
  fix w r w'
  assume pre: "evolving k i s0 w" "active_in k i w" and run: "and_then m f w = (r, w')"
  obtain r1 w1 where m1: "m w = (r1, w1)" by (cases "m w")
  with m pre have post: "evolving k i s0 w1" "\<And>x. r1 = Inr x \<Longrightarrow> active_in k i w1"
    unfolding keeps_active_def by blast+
  show "evolving k i s0 w'"
  proof (cases r1)
    case (Inl e)
    with run m1 post show ?thesis by (simp add: and_then_def)
  next
    case (Inr x)
    with run m1 post f [of x] show ?thesis unfolding evolves_def by (simp add: and_then_def)
  qed
qed

lemma keeps_and_then:
  assumes m: "keeps_active k i s0 m" and f: "\<And>x. keeps_active k i s0 (f x)"
  shows "keeps_active k i s0 (and_then m f)"
  unfolding keeps_active_def
proof (intro allI impI)
  fix w r w'
  assume pre: "evolving k i s0 w" "active_in k i w" and run: "and_then m f w = (r, w')"
  obtain r1 w1 where m1: "m w = (r1, w1)" by (cases "m w")
  with m pre have post: "evolving k i s0 w1" "\<And>x. r1 = Inr x \<Longrightarrow> active_in k i w1"
    unfolding keeps_active_def by blast+
  show "evolving k i s0 w' \<and> (\<forall>x. r = Inr x \<longrightarrow> active_in k i w')"
  proof (cases r1)
    case (Inl e)
    with run m1 post show ?thesis by (auto simp: and_then_def)
  next
    case (Inr x)
    then have "f x w1 = (r, w')" using run m1 by (simp add: and_then_def)
    with f [of x] post Inr show ?thesis unfolding keeps_active_def by blast
  qed
qed

lemma keeps_external: "keeps_active k i s0 (external c)"
  by (auto simp: keeps_active_def external_def evolving_def active_in_def lookup_saga_def split: prod.splits)

lemma keeps_return: "keeps_active k i s0 (\<lambda>w. (x, w))"
  by (auto simp: keeps_active_def)

lemma inspect_saga_world: "inspect_saga k i w = (r, w') \<Longrightarrow> w' = w"
  by (auto simp: inspect_saga_def split: sum.splits if_splits option.splits)

lemma keeps_inspect: "keeps_active k i s0 (inspect_saga k i')"
  by (auto simp: keeps_active_def dest: inspect_saga_world)

lemma inspect_saga_Inr:
  "inspect_saga k i w = (Inr s, w') \<Longrightarrow> \<exists>i'. saga_uuid i = Inr i' \<and> lookup_saga k w i' = Some s"
  by (auto simp: inspect_saga_def lookup_saga_def split: sum.splits if_splits option.splits)

lemma validateSagas_Inr: "validateSagas h sagas = Inr x \<Longrightarrow> x = sagas"
  by (auto simp: validateSagas_def split: if_splits option.splits)

lemma find_update_first:
  "find p xs = Some x \<Longrightarrow> p y \<Longrightarrow> find p (update_first p (\<lambda>_. y) xs) = Some y"
  by (induction xs) (auto split: if_splits)

lemma update_saga_cases:
  assumes run: "update_saga k i f w = (r, w')" and keep: "\<And>s now s'. f s now = Inr s' \<Longrightarrow> ds_id s' = ds_id s"
  obtains (failed) e where "r = Inl e" "w' = w"
  | (written) s s' sagas where "lookup_saga k w i = Some s" "f s (sk_clock k (length (sw_written w))) = Inr s'"
      "r = Inr s'" "find (\<lambda>s. ds_id s = i) sagas = Some s'" "lookup_saga k w' i = Some s'"
      "w' = w\<lparr>sw_file := StoredSagas sagas, sw_written := sw_written w @ [sagas]\<rparr>"
proof -
  show ?thesis
  proof (cases "read_sagas (sk_hash k) (sw_file w)")
    case (Inl e)
    with run show ?thesis by (intro failed [of e]) (auto simp: update_saga_def mutate_sagas_def)
  next
    case old: (Inr old)
    show ?thesis
    proof (cases "find (\<lambda>s. ds_id s = i) old")
      case None
      with run old show ?thesis by (intro failed) (auto simp: update_saga_def mutate_sagas_def)
    next
      case s: (Some s)
      show ?thesis
      proof (cases "f s (sk_clock k (length (sw_written w)))")
        case (Inl e)
        with run old s show ?thesis by (intro failed [of e]) (auto simp: update_saga_def mutate_sagas_def)
      next
        case s': (Inr s')
        let ?sagas = "update_first (\<lambda>s. ds_id s = i) (\<lambda>_. s') old"
        have "ds_id s' = i" using s s' keep by (auto dest: find_SomeD)
        then have fnd: "find (\<lambda>s. ds_id s = i) ?sagas = Some s'" by (simp add: find_update_first [OF s])
        show ?thesis
        proof (cases "validateSagas (sk_hash k) ?sagas")
          case (Inl e)
          with run old s s' show ?thesis by (intro failed [of e]) (auto simp: update_saga_def mutate_sagas_def)
        next
          case (Inr v)
          with run old s s' have "r = Inr s'"
            "w' = w\<lparr>sw_file := StoredSagas ?sagas, sw_written := sw_written w @ [?sagas]\<rparr>"
            by (auto simp: update_saga_def mutate_sagas_def)
          with fnd old s s' Inr show ?thesis
            by (intro written [of s s' ?sagas]) (auto simp: lookup_saga_def dest: validateSagas_Inr)
        qed
      qed
    qed
  qed
qed

lemma saga_trans_id: "saga_trans s s' \<Longrightarrow> ds_id s' = ds_id s"
  by (auto simp: frozen_def elim: saga_transE)

lemma evolves_update:
  assumes keep: "\<And>s now s'. f s now = Inr s' \<Longrightarrow> ds_id s' = ds_id s"
    and step: "\<And>s now s'. active s \<Longrightarrow> f s now = Inr s' \<Longrightarrow> saga_trans s s'"
  shows "evolves k i s0 (update_saga k i f)"
  unfolding evolves_def
proof (intro allI impI)
  fix w r w'
  assume pre: "evolving k i s0 w" "active_in k i w" and run: "update_saga k i f w = (r, w')"
  show "evolving k i s0 w'"
  proof (cases rule: update_saga_cases [OF run keep])
    case (3 s s' sagas)
    note written = 3
    from pre written(1) have "saga_trans\<^sup>*\<^sup>* s0 s" "active s" by (auto simp: evolving_def active_in_def)
    with step [OF _ written(2)] have "saga_trans\<^sup>*\<^sup>* s0 s'" by (meson rtranclp.rtrancl_into_rtrancl)
    with pre written show ?thesis by (auto simp: evolving_def)
  qed (use pre in auto)
qed

lemma keeps_update:
  assumes keep: "\<And>s now s'. f s now = Inr s' \<Longrightarrow> ds_id s' = ds_id s"
    and step: "\<And>s now s'. active s \<Longrightarrow> f s now = Inr s' \<Longrightarrow> saga_trans s s' \<and> active s'"
  shows "keeps_active k i s0 (update_saga k i f)"
  unfolding keeps_active_def
proof (intro allI impI)
  fix w r w'
  assume pre: "evolving k i s0 w" "active_in k i w" and run: "update_saga k i f w = (r, w')"
  have "evolves k i s0 (update_saga k i f)" using keep step by (blast intro: evolves_update)
  with pre run have "evolving k i s0 w'" unfolding evolves_def by blast
  moreover have "\<forall>x. r = Inr x \<longrightarrow> active_in k i w'"
  proof (cases rule: update_saga_cases [OF run keep])
    case (3 s s' sagas)
    with pre step show ?thesis by (auto simp: active_in_def)
  qed auto
  ultimately show "evolving k i s0 w' \<and> (\<forall>x. r = Inr x \<longrightarrow> active_in k i w')" by simp
qed

text \<open>The changes a run makes to a step never touch what the submission froze.\<close>

definition preserves_frozen :: "(DurableSagaStep \<Rightarrow> DurableSagaStep) \<Rightarrow> bool" where
  "preserves_frozen change \<longleftrightarrow> (\<forall>t. frozen_step (change t) = frozen_step t)"

lemma map_frozen_update_first:
  "preserves_frozen change \<Longrightarrow> map frozen_step (update_first p change sts) = map frozen_step sts"
  by (induction sts) (auto simp: preserves_frozen_def)

lemma touch_step_Inr:
  assumes "preserves_frozen change" "touch_step key change s now = Inr s'"
  shows "frozen s' = frozen s \<and> ds_state s' = ds_state s"
proof -
  from assms(1) have "preserves_frozen (\<lambda>t. change t\<lparr>ss_updatedAt := now\<rparr>)"
    by (simp add: preserves_frozen_def frozen_step_def)
  with assms(2) show ?thesis
    by (auto simp: touch_step_def requireStep_def frozen_def map_frozen_update_first split: option.splits)
qed

lemma keeps_touch_step:
  assumes "preserves_frozen change"
  shows "keeps_active k i s0 (update_saga k i (touch_step key change))"
proof (rule keeps_update)
  fix s now s'
  assume t: "touch_step key change s now = Inr s'"
  note D = touch_step_Inr [OF assms t]
  then show "ds_id s' = ds_id s" by (simp add: frozen_def)
  assume "active s"
  with D show "saga_trans s s' \<and> active s'" by (auto simp: active_def intro: saga_trans.advance)
qed

lemma evolves_touch_both:
  assumes "preserves_frozen change" "st \<noteq> SagaCompleted"
  shows "evolves k i s0 (update_saga k i (touch_both key change st))"
proof (rule evolves_update)
  fix s now s'
  assume "touch_both key change st s now = Inr s'"
  then obtain s1 where t: "touch_step key change s now = Inr s1" and s': "s' = s1\<lparr>ds_state := st\<rparr>"
    by (auto simp: touch_both_def split: sum.splits)
  from touch_step_Inr [OF assms(1) t] have D: "frozen s' = frozen s" by (simp add: s' frozen_def)
  then show "ds_id s' = ds_id s" by (simp add: frozen_def)
  assume "active s"
  with D assms(2) show "saga_trans s s'" by (auto simp: s' intro: saga_trans.advance)
qed

lemma keeps_touch_both:
  assumes "preserves_frozen change" "st \<in> {SagaPending, SagaRunning, SagaCompensating, SagaBlocked}"
  shows "keeps_active k i s0 (update_saga k i (touch_both key change st))"
proof (rule keeps_update)
  fix s now s'
  assume "touch_both key change st s now = Inr s'"
  then obtain s1 where t: "touch_step key change s now = Inr s1" and s': "s' = s1\<lparr>ds_state := st\<rparr>"
    by (auto simp: touch_both_def split: sum.splits)
  from touch_step_Inr [OF assms(1) t] have D: "frozen s' = frozen s" by (simp add: s' frozen_def)
  then show "ds_id s' = ds_id s" by (simp add: frozen_def)
  assume "active s"
  with D assms(2) show "saga_trans s s' \<and> active s'" by (auto simp: s' active_def intro: saga_trans.advance)
qed

lemma keeps_touch_saga:
  "st \<in> {SagaPending, SagaRunning, SagaCompensating, SagaBlocked} \<Longrightarrow>
   keeps_active k i s0 (update_saga k i (touch_saga st))"
  by (rule keeps_update) (auto simp: touch_saga_def frozen_def active_def intro!: saga_trans.advance)

lemma evolves_touch_saga: "st \<noteq> SagaCompleted \<Longrightarrow> evolves k i s0 (update_saga k i (touch_saga st))"
  by (rule evolves_update) (auto simp: touch_saga_def frozen_def intro!: saga_trans.advance)

lemmas logic_rules = evolves_and_then keeps_and_then keeps_external keeps_return keeps_inspect
  keeps_touch_step evolves_touch_both keeps_touch_both keeps_touch_saga evolves_touch_saga

lemma evolvesD: "evolves k i s0 m \<Longrightarrow> evolving k i s0 w \<Longrightarrow> active_in k i w \<Longrightarrow> m w = (r, w') \<Longrightarrow> evolving k i s0 w'"
  unfolding evolves_def by blast

lemma evolves_if_world:
  assumes "evolves k i s0 m" "evolves k i s0 m'"
  shows "evolves k i s0 (\<lambda>w. if b w then m w else m' w)"
  unfolding evolves_def
proof (intro allI impI)
  fix w r w'
  assume "evolving k i s0 w" "active_in k i w" and r: "(if b w then m w else m' w) = (r, w')"
  then show "evolving k i s0 w'"
    using evolvesD [OF assms(1), of w r w'] evolvesD [OF assms(2), of w r w'] by (cases "b w") simp_all
qed

lemma evolves_verified:
  "(\<And>d. evolves k i s0 (m d)) \<Longrightarrow> evolves k i s0 m' \<Longrightarrow>
   evolves k i s0 (case (ok, dg) of (True, Some d) \<Rightarrow> m d | _ \<Rightarrow> m')"
  by (cases ok; cases dg) simp_all

lemmas frozen_simps = preserves_frozen_def frozen_step_def

lemma evolves_compensate_steps: "evolves k i s0 (compensate_steps k i sts)"
proof (induction sts)
  case Nil
  have "compensate_steps k i [] = update_saga k i (touch_saga SagaCompensated)" by (rule ext) simp
  then show ?case by (simp add: evolves_touch_saga)
next
  case (Cons st sts)
  show ?case
  proof (cases "ss_compensation st")
    case None
    show ?thesis unfolding compensate_steps.simps [abs_def] None option.case
      using Cons
      by (intro evolves_if_world logic_rules keeps_evolves [OF keeps_inspect]) (auto simp: frozen_simps)
  next
    case (Some c)
    show ?thesis unfolding compensate_steps.simps [abs_def] Some option.case
      using Cons
      by (intro evolves_if_world evolves_verified logic_rules keeps_evolves [OF keeps_inspect])
        (auto simp: frozen_simps)
  qed
qed

lemma evolves_compensate: "evolves k i s0 (compensate k i)"
  unfolding compensate_def by (intro logic_rules evolves_compensate_steps) simp

lemma evolves_complete:
  "evolves k i s0 (update_saga k i (\<lambda>s now.
     if \<not> list_all (\<lambda>st. ss_state st = StepCompleted) (ds_steps s) then Inl saga_corrupt
     else touch_saga SagaCompleted s now))"
  by (rule evolves_update)
    (auto simp: touch_saga_def frozen_def all_steps_completed_def split: if_splits intro!: saga_trans.finish)

lemma evolves_if: "evolves k i s0 m \<Longrightarrow> evolves k i s0 m' \<Longrightarrow> evolves k i s0 (if b then m else m')"
  by simp

lemma evolves_run_steps: "evolves k i s0 (run_steps k i sts)"
proof (induction sts)
  case Nil
  show ?case using evolves_complete [of k i s0] by (simp add: run_steps.simps(1) [abs_def])
next
  case (Cons st sts)
  show ?case unfolding run_steps.simps [abs_def]
    using Cons
    by (intro evolves_if_world evolves_if evolves_verified evolves_compensate logic_rules keeps_evolves [OF keeps_inspect]
        keeps_evolves [OF keeps_return])
      (auto simp: frozen_simps)
qed

lemma frozen_settle_step: "preserves_frozen (settle_step was v)"
  by (simp add: frozen_simps settle_step_def)

lemma keeps_if_world:
  assumes "keeps_active k i s0 m" "keeps_active k i s0 m'"
  shows "keeps_active k i s0 (\<lambda>w. if b w then m w else m' w)"
  unfolding keeps_active_def
proof (intro allI impI)
  fix w r w'
  assume pre: "evolving k i s0 w" "active_in k i w" and r: "(if b w then m w else m' w) = (r, w')"
  show "evolving k i s0 w' \<and> (\<forall>x. r = Inr x \<longrightarrow> active_in k i w')"
  proof (cases "b w")
    case True
    with r have "m w = (r, w')" by simp
    with assms(1) pre show ?thesis unfolding keeps_active_def by blast
  next
    case False
    with r have "m' w = (r, w')" by simp
    with assms(2) pre show ?thesis unfolding keeps_active_def by blast
  qed
qed

lemma keeps_going_on: "keeps_active k i s0 m \<Longrightarrow> keeps_active k i s0 (going_on m)"
  unfolding going_on_def by (intro keeps_and_then keeps_return)

lemma keeps_stopping: "keeps_active k i s0 m \<Longrightarrow> keeps_active k i s0 (stopping m)"
  unfolding stopping_def by (intro keeps_and_then keeps_return)

lemma keeps_blockRecovery: "keeps_active k i s0 (blockRecovery k i key code)"
  unfolding blockRecovery_def by (intro keeps_touch_both) (auto simp: frozen_simps)

lemmas recovery_rules = keeps_going_on keeps_stopping keeps_blockRecovery keeps_and_then keeps_external
  keeps_touch_step frozen_settle_step

lemma keeps_recover_journalled: "keeps_active k i s0 (recover_journalled k i st action journal)"
proof -
  have outcome: "keeps_active k i s0 (case (pr_status rec, pr_result rec) of
      (RecCompleted, Some result) \<Rightarrow>
        going_on (update_saga k i (touch_step (ss_key st) (settle_step (ss_state st) (kernelVerificationDigest result))))
    | (RecNotApplied, _) \<Rightarrow> going_on (update_saga k i (touch_step (ss_key st) (\<lambda>t. t\<lparr>ss_state := StepPending\<rparr>)))
    | _ \<Rightarrow> stopping (blockRecovery k i (ss_key st) ''SAGA_RECONCILIATION_REQUIRED''))" for rec
    by (cases "pr_status rec"; cases "pr_result rec") (simp_all, (intro recovery_rules; simp add: frozen_simps)+)
  show ?thesis unfolding recover_journalled_def
    by (cases "first_some (\<lambda>t. truthy (jt_provider t)) (rev (je_transitions journal))")
      (auto intro!: recovery_rules outcome [simplified] simp: frozen_simps)
qed

lemma keeps_recover_step: "keeps_active k i s0 (recover_step k i st)"
  unfolding keeps_active_def
proof (intro allI impI)
  fix w r w'
  assume pre: "evolving k i s0 w" "active_in k i w" and run: "recover_step k i st w = (r, w')"
  let ?reset = "\<lambda>x. going_on (update_saga k i (touch_step (ss_key st) (\<lambda>t. t\<lparr>ss_state := x\<rparr>)))"
  have reset: "keeps_active k i s0 (?reset x)" for x by (intro recovery_rules) (simp add: frozen_simps)
  show "evolving k i s0 w' \<and> (\<forall>x. r = Inr x \<longrightarrow> active_in k i w')"
  proof (cases "ss_state st \<noteq> StepRunning \<and> ss_state st \<noteq> StepCompensating")
    case True
    with run pre show ?thesis by (simp add: recover_step_def)
  next
    case busy: False
    show ?thesis
    proof (cases "if ss_state st = StepCompensating then ss_compensation st else Some (ss_action st)")
      case None
      with run busy have "?reset StepCompensated w = (r, w')" by (simp add: recover_step_def)
      with reset pre show ?thesis unfolding keeps_active_def by blast
    next
      case (Some action)
      obtain r1 w1 where ext: "external (sk_journal k (aq_id action)) w = (r1, w1)"
        by (cases "external (sk_journal k (aq_id action)) w")
      then have mid: "evolving k i s0 w1" "active_in k i w1"
        using pre by (auto simp: external_def evolving_def active_in_def lookup_saga_def split: prod.splits)
      show ?thesis
      proof (cases r1)
        case (Inl e)
        have "recover_step k i st w = (if e = OperatorError ''ACTION_JOURNAL_NOT_FOUND'' then ?reset StepPending w1
            else (Inl e, w1))" using busy Some ext Inl by (auto simp: recover_step_def)
        with run have "?reset StepPending w1 = (r, w') \<or> (Inl e, w1) = (r, w')" by metis
        with mid reset [of StepPending] show ?thesis unfolding keeps_active_def by blast
      next
        case (Inr journal)
        with run busy Some ext have "recover_journalled k i st action journal w1 = (r, w')"
          by (simp add: recover_step_def)
        with mid keeps_recover_journalled show ?thesis unfolding keeps_active_def by blast
      qed
    qed
  qed
qed

lemma keeps_recover_steps: "keeps_active k i s0 (recover_steps k i sts)"
proof (induction sts)
  case Nil
  show ?case unfolding recover_steps.simps [abs_def]
    by (auto intro!: keeps_and_then keeps_inspect keeps_touch_saga keeps_return)
next
  case (Cons st sts)
  show ?case unfolding recover_steps.simps [abs_def]
    by (intro keeps_and_then keeps_recover_step)
      (auto split: recovery.splits intro: keeps_return Cons)
qed

lemma evolves_run_recovered: "evolves k i s0 (run_recovered k i s)"
  unfolding run_recovered_def
  by (auto intro!: evolves_compensate evolves_and_then keeps_touch_saga keeps_inspect evolves_run_steps
      keeps_evolves [OF keeps_return])

lemma to_lower_idem [simp]: "to_lower (to_lower s) = to_lower s"
proof -
  have "lower_char (lower_char c) = lower_char c" for c
  proof (cases "is_upper c")
    case True
    then have "(of_char c :: nat) + 32 < 256" by (simp add: is_upper_def char_in_def)
    then have "of_char (lower_char c) = (of_char c :: nat) + 32" using True by (simp add: lower_char_def)
    with True show ?thesis by (simp add: lower_char_def is_upper_def char_in_def)
  qed (simp add: lower_char_def)
  then show ?thesis by (simp add: to_lower_def)
qed

lemma saga_uuid_idem: "saga_uuid s = Inr i \<Longrightarrow> saga_uuid i = Inr j \<Longrightarrow> j = i"
  by (auto simp: saga_uuid_def split: if_splits)

lemma run_saga_evolving:
  assumes "saga_uuid sagaId = Inr i" "lookup_saga k w i = Some s" "sw_written w = []"
    and "run_saga k sagaId w = (r, w')"
  shows "evolving k i s w'" and "\<not> active s \<Longrightarrow> w' = w"
proof -
  have start: "evolving k i s w" using assms(2,3) by (simp add: evolving_def)
  have "evolving k i s w' \<and> (\<not> active s \<longrightarrow> w' = w)"
  proof (cases "inspect_saga k i w")
    case (Pair r1 w1)
    then have w1: "w1 = w" by (rule inspect_saga_world)
    show ?thesis
    proof (cases r1)
      case (Inl e)
      with assms start Pair w1 show ?thesis by (auto simp: run_saga_def and_then_def)
    next
      case (Inr s1)
      obtain j where "saga_uuid i = Inr j" "lookup_saga k w j = Some s1"
        using inspect_saga_Inr [of k i w s1 w1] Pair Inr by auto
      then have s1: "s1 = s" using saga_uuid_idem [OF assms(1)] assms(2) by auto
      show ?thesis
      proof (cases "active s")
        case True
        then have "and_then (recover_steps k i (ds_steps s)) (run_recovered k i) w = (r, w')"
          using assms(1,4) Pair Inr w1 s1 by (simp add: run_saga_def and_then_def [of "inspect_saga k i"] active_def)
        moreover have "evolves k i s (and_then (recover_steps k i (ds_steps s)) (run_recovered k i))"
          by (intro evolves_and_then keeps_recover_steps evolves_run_recovered)
        ultimately have "evolving k i s w'" using start assms(2) True by (auto simp: active_in_def dest: evolvesD)
        with True show ?thesis by simp
      next
        case False
        then show ?thesis
          using assms(1,4) Pair Inr w1 s1 start by (auto simp: run_saga_def and_then_def active_def)
      qed
    qed
  qed
  then show "evolving k i s w'" and "\<not> active s \<Longrightarrow> w' = w" by auto
qed

text \<open>
  C12. A run refines the life cycle, at every write. Whatever the agent kernel answers or throws, and
  wherever the process stops, every version of the state file that a run writes still holds the saga,
  with its contract, its actions and its compensations unchanged, and shows it \<open>COMPLETED\<close> only with
  every step completed; and a run of a saga that is already terminal writes nothing and calls nothing.
\<close>

theorem saga_run_refines_life_cycle:
  assumes "saga_uuid sagaId = Inr i" "lookup_saga k w i = Some s" "sw_written w = []"
    and "run_saga k sagaId w = (r, w')"
  shows "(active s \<longrightarrow>
           (\<forall>v\<in>set (sw_written w'). \<exists>s'. find (\<lambda>x. ds_id x = i) v = Some s' \<and> saga_trans\<^sup>*\<^sup>* s s' \<and> frozen s' = frozen s
              \<and> (ds_state s' = SagaCompleted \<longrightarrow> all_steps_completed s')))
         \<and> (\<not> active s \<longrightarrow> w' = w)"
proof -
  note ev = run_saga_evolving [OF assms]
  have "\<exists>s'. find (\<lambda>x. ds_id x = i) v = Some s' \<and> saga_trans\<^sup>*\<^sup>* s s' \<and> frozen s' = frozen s
      \<and> (ds_state s' = SagaCompleted \<longrightarrow> all_steps_completed s')"
    if "v \<in> set (sw_written w')" "active s" for v
    using ev(1) that saga_trans_frozen saga_trans_completed unfolding evolving_def by metis
  with ev(2) show ?thesis by blast
qed

section \<open>Which actions a run dispatches\<close>

text \<open>The same agent kernel, with a record of every action dispatched and on whose behalf.\<close>

definition logging :: "'w saga_kernel \<Rightarrow> ('w \<times> (string \<times> ActionRequest) list) saga_kernel" where
  "logging k = \<lparr>sk_execute = (\<lambda>owner a (x, log). case sk_execute k owner a x of (r, x') \<Rightarrow> (r, (x', log @ [(owner, a)]))),
     sk_journal = (\<lambda>a (x, log). case sk_journal k a x of (r, x') \<Rightarrow> (r, (x', log))),
     sk_reconcile = (\<lambda>a p (x, log). case sk_reconcile k a p x of (r, x') \<Rightarrow> (r, (x', log))),
     sk_aborted = (\<lambda>(x, log). sk_aborted k x), sk_clock = sk_clock k, sk_hash = sk_hash k, sk_digest = sk_digest k\<rparr>"

abbreviation dispatched :: "('w \<times> (string \<times> ActionRequest) list) saga_world \<Rightarrow> (string \<times> ActionRequest) list" where
  "dispatched w \<equiv> snd (sw_ext w)"

lemma and_thenE:
  assumes "and_then m f w = (r, w')"
  obtains (stop) e where "m w = (Inl e, w')" "r = Inl e" | (go) x w1 where "m w = (Inr x, w1)" "f x w1 = (r, w')"
  using assms by (auto simp: and_then_def split: prod.splits sum.splits)

lemma update_saga_ext: "update_saga k i f w = (r, w') \<Longrightarrow> sw_ext w' = sw_ext w"
  by (auto simp: update_saga_def mutate_sagas_def split: sum.splits)

lemma execute_logged:
  "external (sk_execute (logging k) owner a) w = (r, w') \<Longrightarrow> dispatched w' = dispatched w @ [(owner, a)]"
  by (auto simp: external_def logging_def split: prod.splits)

lemma keeps_activeD:
  "keeps_active k i s0 m \<Longrightarrow> evolving k i s0 w \<Longrightarrow> active_in k i w \<Longrightarrow> m w = (r, w') \<Longrightarrow> evolving k i s0 w'"
  "keeps_active k i s0 m \<Longrightarrow> evolving k i s0 w \<Longrightarrow> active_in k i w \<Longrightarrow> m w = (Inr x, w') \<Longrightarrow> active_in k i w'"
  unfolding keeps_active_def by blast+

lemma touch_both_state: "touch_both key change st s now = Inr s' \<Longrightarrow> ds_state s' = st"
  by (auto simp: touch_both_def split: sum.splits)

lemma update_saga_result: "update_saga k i f w = (Inr s', w') \<Longrightarrow> \<exists>s now. f s now = Inr s'"
  by (auto simp: update_saga_def mutate_sagas_def split: sum.splits option.splits) blast

definition compensations :: "DurableSagaStep list \<Rightarrow> ActionRequest list" where
  "compensations sts = List.map_filter ss_compensation sts"

lemma compensations_simps [simp]:
  "compensations [] = []"
  "compensations (st # sts) = (case ss_compensation st of None \<Rightarrow> compensations sts | Some c \<Rightarrow> c # compensations sts)"
  by (auto simp: compensations_def map_filter_simps split: option.splits)

text \<open>The compensations dispatched so far, and whether they are all of them.\<close>

definition compensated_upto ::
  "('w \<times> (string \<times> ActionRequest) list) saga_world \<Rightarrow> ('w \<times> (string \<times> ActionRequest) list) saga_world
   \<Rightarrow> DurableSaga result \<Rightarrow> ActionRequest list \<Rightarrow> bool" where
  "compensated_upto w w' r all \<longleftrightarrow>
     (\<exists>sent rest. all = sent @ rest \<and> dispatched w' = dispatched w @ map (Pair ''saga-compensation'') sent
        \<and> (\<forall>s'. r = Inr s' \<and> ds_state s' = SagaCompensated \<longrightarrow> rest = []))"

lemma compensated_upto_none:
  "dispatched w' = dispatched w \<Longrightarrow> (\<And>s'. r = Inr s' \<Longrightarrow> ds_state s' \<noteq> SagaCompensated) \<Longrightarrow> compensated_upto w w' r all"
  unfolding compensated_upto_def by (rule exI [of _ "[]"]) auto

lemma compensated_upto_one:
  assumes "dispatched w' = dispatched w @ [(''saga-compensation'', c)]"
    and "\<And>s'. r = Inr s' \<Longrightarrow> ds_state s' \<noteq> SagaCompensated"
  shows "compensated_upto w w' r (c # all)"
  unfolding compensated_upto_def by (rule exI [of _ "[c]"]) (use assms in auto)

lemma compensated_upto_Cons:
  assumes "dispatched w1 = dispatched w @ [(''saga-compensation'', c)]" "compensated_upto w1 w' r all"
  shows "compensated_upto w w' r (c # all)"
proof -
  from assms(2) obtain sent rest where "all = sent @ rest"
    "dispatched w' = dispatched w1 @ map (Pair ''saga-compensation'') sent"
    "\<forall>s'. r = Inr s' \<and> ds_state s' = SagaCompensated \<longrightarrow> rest = []"
    unfolding compensated_upto_def by blast
  then show ?thesis unfolding compensated_upto_def
    by (intro exI [of _ "c # sent"] exI [of _ rest]) (simp add: assms(1))
qed

lemma compensate_steps_log:
  assumes "evolving (logging k) i s0 w" "active_in (logging k) i w" "saga_uuid i = Inr i"
    and "compensate_steps (logging k) i sts w = (r, w')"
  shows "compensated_upto w w' r (compensations sts)"
  using assms
proof (induction sts arbitrary: w r w')
  case Nil
  then show ?case using update_saga_ext [of "logging k" i "touch_saga SagaCompensated" w r w']
    by (auto simp: compensated_upto_def)
next
  case (Cons st sts)
  let ?K = "logging k"
  note ev = Cons.prems(1,2)
  show ?case
  proof (cases "sk_aborted ?K (sw_ext w)")
    case True
    with Cons.prems(4) have ins: "inspect_saga ?K i w = (r, w')" by simp
    have "ds_state s' \<noteq> SagaCompensated" if "r = Inr s'" for s'
      using inspect_saga_Inr [of ?K i w s' w'] ins that Cons.prems(2,3) by (auto simp: active_in_def active_def)
    with inspect_saga_world [OF ins] show ?thesis by (intro compensated_upto_none) auto
  next
    case running: False
    show ?thesis
    proof (cases "ss_compensation st")
      case None
      let ?u = "update_saga ?K i (touch_step (ss_key st) (\<lambda>t. t\<lparr>ss_state := StepCompensated\<rparr>))"
      have u: "keeps_active ?K i s0 ?u" by (rule keeps_touch_step) (simp add: frozen_simps)
      from Cons.prems(4) running None have "and_then ?u (\<lambda>_. compensate_steps ?K i sts) w = (r, w')" by simp
      then show ?thesis
      proof (cases rule: and_thenE)
        case stop
        then show ?thesis using update_saga_ext [OF stop(1)] by (intro compensated_upto_none) auto
      next
        case (go x w1)
        have "compensated_upto w1 w' r (compensations sts)"
          using Cons.IH [OF keeps_activeD(1) [OF u ev go(1)] keeps_activeD(2) [OF u ev go(1)] Cons.prems(3) go(2)] .
        with None update_saga_ext [OF go(1)] show ?thesis by (simp add: compensated_upto_def)
      qed
    next
      case (Some c)
      let ?u = "update_saga ?K i (touch_step (ss_key st) (\<lambda>t. t\<lparr>ss_state := StepCompensating\<rparr>))"
      have u: "keeps_active ?K i s0 ?u" by (rule keeps_touch_step) (simp add: frozen_simps)
      let ?x = "external (sk_execute ?K ''saga-compensation'' c)"
      let ?v = "\<lambda>result d. update_saga ?K i (touch_step (ss_key st) (\<lambda>t. t\<lparr>ss_state := StepCompensated,
                  ss_provider := Some (ar_provider result), ss_compensationVerificationDigest := Some d\<rparr>))"
      have v: "keeps_active ?K i s0 (?v result d)" for result d by (rule keeps_touch_step) (simp add: frozen_simps)
      let ?t = "\<lambda>result. case (ar_ok result, kernelVerificationDigest result) of
          (True, Some d) \<Rightarrow> and_then (?v result d) (\<lambda>_. compensate_steps ?K i sts)
        | _ \<Rightarrow> update_saga ?K i (touch_both (ss_key st)
                 (\<lambda>t. t\<lparr>ss_state := (if uncertain_result result then StepBlocked else StepFailed),
                        ss_errorCode := Some (error_code_or ''SAGA_COMPENSATION_FAILED'' result)\<rparr>)
                 (if uncertain_result result then SagaBlocked else SagaFailed))"
      have settle: "compensated_upto w w' r (c # compensations sts)"
        if "?t result w2 = (r, w')" "evolving ?K i s0 w2" "active_in ?K i w2"
          "dispatched w2 = dispatched w @ [(''saga-compensation'', c)]" for result w2
      proof (cases "ar_ok result \<and> kernelVerificationDigest result \<noteq> None")
        case True
        note run2 = that(1)
        from True obtain d where "and_then (?v result d) (\<lambda>_. compensate_steps ?K i sts) w2 = (r, w')"
          using run2 by auto
        then show ?thesis
        proof (cases rule: and_thenE)
          case stop
          with that(4) update_saga_ext [OF stop(1)] show ?thesis by (intro compensated_upto_one) auto
        next
          case (go x w3)
          have "compensated_upto w3 w' r (compensations sts)"
            using Cons.IH [OF keeps_activeD(1) [OF v that(2,3) go(1)] keeps_activeD(2) [OF v that(2,3) go(1)]
                Cons.prems(3) go(2)] .
          with that(4) update_saga_ext [OF go(1)] show ?thesis by (intro compensated_upto_Cons) auto
        qed
      next
        case False
        note run2 = that(1)
        from False obtain f st' where up: "update_saga ?K i (touch_both (ss_key st) f st') w2 = (r, w')"
          and "st' \<noteq> SagaCompensated"
          using run2 by (cases "ar_ok result"; cases "kernelVerificationDigest result")
            (auto split: if_splits)
        then show ?thesis using that(4) update_saga_ext [OF up] update_saga_result touch_both_state
          by (intro compensated_upto_one) fastforce+
      qed
      from Cons.prems(4) running Some have "and_then ?u (\<lambda>_. and_then ?x ?t) w = (r, w')"
        by (simp only: compensate_steps.simps if_False option.case)
      then have "compensated_upto w w' r (c # compensations sts)"
      proof (cases rule: and_thenE)
        case stop
        then show ?thesis using update_saga_ext [OF stop(1)] by (intro compensated_upto_none) auto
      next
        case (go y w1)
        note ev1 = keeps_activeD(1) [OF u ev go(1)] keeps_activeD(2) [OF u ev go(1)]
        from go(2) show ?thesis
        proof (cases rule: and_thenE)
          case stop
          with update_saga_ext [OF go(1)] execute_logged [OF stop(1)] show ?thesis
            by (intro compensated_upto_one) auto
        next
          case go2: (go result w2)
          show ?thesis using settle [OF go2(2)] keeps_activeD [OF keeps_external ev1 go2(1)]
              update_saga_ext [OF go(1)] execute_logged [OF go2(1)] by simp
        qed
      qed
      with Some show ?thesis by simp
    qed
  qed
qed

lemma compensations_state [simp]: "compensable (s\<lparr>ds_state := st, ds_updatedAt := t\<rparr>) = compensable s"
  by (simp add: compensable_def)

text \<open>
  C25. Compensation runs backwards. The compensations that \<open>compensate\<close> dispatches are, in order, an
  initial part of the compensations of the completed steps in reverse step order, whatever the agent
  kernel answers; and when the saga ends \<open>COMPENSATED\<close>, every one of them was dispatched.
\<close>

theorem compensation_runs_backwards:
  assumes "saga_uuid i = Inr i" "lookup_saga (logging k) w i = Some s" "active s" "sw_written w = []"
    and "compensate (logging k) i w = (r, w')"
  shows "\<exists>sent rest. compensations (rev (filter (\<lambda>st. ss_state st = StepCompleted \<or> ss_state st = StepCompensating)
            (ds_steps s))) = sent @ rest
      \<and> dispatched w' = dispatched w @ map (Pair ''saga-compensation'') sent
      \<and> (\<forall>s'. r = Inr s' \<and> ds_state s' = SagaCompensated \<longrightarrow> rest = [])"
proof -
  let ?K = "logging k"
  let ?u = "update_saga ?K i (touch_saga SagaCompensating)"
  have u: "keeps_active ?K i s ?u" by (rule keeps_touch_saga) simp
  have ev: "evolving ?K i s w" "active_in ?K i w" using assms(2-4) by (auto simp: evolving_def active_in_def)
  have "compensated_upto w w' r (compensations (compensable s))"
    using assms(5) unfolding compensate_def
  proof (cases rule: and_thenE)
    case stop
    then show ?thesis using update_saga_ext [OF stop(1)] by (intro compensated_upto_none) auto
  next
    case (go s1 w1)
    note ev1 = keeps_activeD(1) [OF u ev go(1)] keeps_activeD(2) [OF u ev go(1)]
    have look: "\<exists>t. lookup_saga ?K w1 i = Some (s\<lparr>ds_state := SagaCompensating, ds_updatedAt := t\<rparr>)"
      by (rule update_saga_cases [OF go(1)]) (use assms(2) in \<open>auto simp: touch_saga_def\<close>)
    from go(2) show ?thesis
    proof (cases rule: and_thenE)
      case stop
      then show ?thesis using update_saga_ext [OF go(1)] inspect_saga_world [OF stop(1)]
        by (intro compensated_upto_none) auto
    next
      case go2: (go s2 w2)
      have "w2 = w1" using inspect_saga_world [OF go2(1)] .
      moreover have "compensable s2 = compensable s"
        using look inspect_saga_Inr [OF go2(1)] assms(1) by auto
      ultimately have "compensated_upto w1 w' r (compensations (compensable s))"
        using compensate_steps_log [OF ev1 assms(1)] go2(2) by simp
      with update_saga_ext [OF go(1)] show ?thesis by (simp add: compensated_upto_def)
    qed
  qed
  then show ?thesis by (simp add: compensated_upto_def compensable_def)
qed

lemma update_first_state:
  "find (\<lambda>x. f x = key) xs = Some y \<Longrightarrow> \<exists>x\<in>set (update_first (\<lambda>x. f x = key) g xs). \<exists>x0. x = g x0 \<and> f x0 = key"
  by (induction xs) (auto split: if_splits)

lemma touch_both_step:
  "touch_both key change st s now = Inr s' \<Longrightarrow> \<exists>t\<in>set (ds_steps s'). \<exists>t0. t = change t0\<lparr>ss_updatedAt := now\<rparr>"
  using update_first_state [of ss_key key "ds_steps s"]
  by (force simp: touch_both_def touch_step_def requireStep_def split: option.splits sum.splits)

text \<open>
  No blind compensation. When the agent kernel answers a step with an uncertain side effect, the
  run dispatches nothing further, no compensation and no later step; the step and the saga are left
  \<open>BLOCKED\<close> for reconciliation.
\<close>

theorem uncertain_step_blocks:
  assumes "saga_uuid i = Inr i" "ss_state st = StepPending" "\<not> sk_aborted (logging k) (sw_ext w)"
    and "fst (sk_execute k ''saga'' (ss_action st) (fst (sw_ext w))) = Inr result"
    and "uncertain_result result" "\<not> ar_ok result"
    and "run_steps (logging k) i (st # sts) w = (Inr s', w')"
  shows "ds_state s' = SagaBlocked \<and> (\<exists>t\<in>set (ds_steps s'). ss_state t = StepBlocked)
    \<and> dispatched w' = dispatched w @ [(''saga'', ss_action st)]"
proof -
  let ?K = "logging k"
  let ?u = "update_saga ?K i (touch_step (ss_key st) (\<lambda>t. t\<lparr>ss_state := StepRunning\<rparr>))"
  let ?b = "update_saga ?K i (touch_both (ss_key st) (\<lambda>t. t\<lparr>ss_state := StepBlocked,
      ss_provider := Some (ar_provider result), ss_errorCode := Some (error_code_or ''SAGA_STEP_FAILED'' result)\<rparr>)
      SagaBlocked)"
  obtain s1 w1 where u: "?u w = (Inr s1, w1)" using assms(2,3,7) by (auto elim!: and_thenE)
  have ext1: "sw_ext w1 = sw_ext w" using update_saga_ext [OF u] .
  obtain x2 where x2: "external (sk_execute ?K ''saga'' (ss_action st)) w1 = (Inr result, w1\<lparr>sw_ext := x2\<rparr>)"
    using assms(4) ext1
    by (cases "sw_ext w"; cases "sk_execute k ''saga'' (ss_action st) (fst (sw_ext w))")
      (auto simp: external_def logging_def)
  have log: "dispatched (w1\<lparr>sw_ext := x2\<rparr>) = dispatched w @ [(''saga'', ss_action st)]"
    using execute_logged [OF x2] ext1 by simp
  have "and_then ?b (\<lambda>_. inspect_saga ?K i) (w1\<lparr>sw_ext := x2\<rparr>) = (Inr s', w')"
    using assms(2,3,5,6,7) u x2 by (simp add: and_then_def [of ?u] and_then_def [of "external _"])
  then obtain s3 w3 where b: "?b (w1\<lparr>sw_ext := x2\<rparr>) = (Inr s3, w3)" and ins: "inspect_saga ?K i w3 = (Inr s', w')"
    by (auto elim!: and_thenE)
  have "lookup_saga ?K w3 i = Some s3"
    by (rule update_saga_cases [OF b])
      (auto dest!: touch_both_state simp: touch_both_def touch_step_def requireStep_def split: sum.splits option.splits)
  then have "s' = s3" using inspect_saga_Inr [OF ins] assms(1) by auto
  moreover obtain s now where tb: "touch_both (ss_key st) (\<lambda>t. t\<lparr>ss_state := StepBlocked,
      ss_provider := Some (ar_provider result), ss_errorCode := Some (error_code_or ''SAGA_STEP_FAILED'' result)\<rparr>)
      SagaBlocked s now = Inr s3" using update_saga_result [OF b] by blast
  moreover have "\<exists>t\<in>set (ds_steps s3). ss_state t = StepBlocked" using touch_both_step [OF tb] by force
  moreover have "dispatched w' = dispatched (w1\<lparr>sw_ext := x2\<rparr>)"
    using inspect_saga_world [OF ins] update_saga_ext [OF b] by simp
  ultimately show ?thesis using touch_both_state [OF tb] log by simp
qed

lemma find_remove1_None: "find p xs = None \<Longrightarrow> find p (remove1 x xs) = None"
  using set_remove1_subset [of x xs] by (auto simp: find_None_iff_all)

lemma submit_mutator_again:
  assumes "submit_mutator i d objective intent steps sagas now = Inr (sagas', s)"
  shows "submit_mutator i d objective intent steps sagas' now' = Inr (sagas', s)"
proof (cases "find (\<lambda>s. ds_id s = i) sagas")
  case None
  from assms have "\<exists>kept. sagas' = kept @ [s] \<and> find (\<lambda>s. ds_id s = i) kept = None \<and> ds_id s = i \<and> ds_contractDigest s = d"
    using None find_remove1_None [OF None]
    by (auto simp: submit_mutator_def Let_def split: if_splits list.splits)
  then obtain kept where "find (\<lambda>s. ds_id s = i) kept = None" "sagas' = kept @ [s]" "ds_id s = i" "ds_contractDigest s = d"
    by blast
  then show ?thesis by (simp add: submit_mutator_def find_append_None)
next
  case (Some x)
  with assms show ?thesis by (auto simp: submit_mutator_def split: if_splits)
qed

lemma mutate_sagas_InrD:
  "mutate_sagas k fn w = (Inr out, w') \<Longrightarrow>
   \<exists>old sagas'. fn old (sk_clock k (length (sw_written w))) = Inr (sagas', out)
     \<and> validateSagas (sk_hash k) sagas' = Inr sagas' \<and> sw_file w' = StoredSagas sagas'"
  by (auto simp: mutate_sagas_def split: sum.splits) (metis validateSagas_Inr)+

text \<open>
  Submission is idempotent: submitting the same contract under the same identifier again returns
  the saga the first submission returned, whatever its state is by then recorded as, and leaves the
  state file as it was.
\<close>

theorem submit_saga_idempotent:
  assumes "submit_saga k fresh (Some sagaId) objective intent steps w = (Inr s, w')"
  shows "\<exists>w''. submit_saga k fresh' (Some sagaId) objective intent steps w' = (Inr s, w'') \<and> sw_file w'' = sw_file w'"
proof -
  from assms obtain fn where
    fn: "mutate_sagas k fn w = (Inr s, w')"
    and again: "submit_saga k fresh' (Some sagaId) objective intent steps w' = mutate_sagas k fn w'"
    and idem: "\<And>x now x' now'. fn x now = Inr x' \<Longrightarrow> fn (fst x') now' = Inr x'"
    by (auto simp: submit_saga_def submit_mutator_again split: option.splits sum.splits if_splits)
  from mutate_sagas_InrD [OF fn] obtain old sagas' where
    out: "fn old (sk_clock k (length (sw_written w))) = Inr (sagas', s)"
    and "validateSagas (sk_hash k) sagas' = Inr sagas'" "sw_file w' = StoredSagas sagas'" by blast
  then have "mutate_sagas k fn w' = (Inr s, w'\<lparr>sw_file := StoredSagas sagas', sw_written := sw_written w' @ [sagas']\<rparr>)"
    using idem [OF out] by (simp add: mutate_sagas_def)
  with again \<open>sw_file w' = _\<close> show ?thesis by simp
qed

section \<open>Concrete runs\<close>

definition demo_saga_id :: string where
  "demo_saga_id = ''01234567-89ab-4def-8123-456789abcdef''"

definition demo_digest :: "char \<Rightarrow> string" where
  "demo_digest c = replicate 64 c"

definition demo_hash :: "ActionRequest \<Rightarrow> string" where
  "demo_hash a = demo_digest CHR ''a''"

definition demo_request :: "string \<Rightarrow> ActionRequest" where
  "demo_request i = \<lparr>aq_id = i, aq_capability = ''file.write'', aq_risk = Write, aq_input = [],
     aq_provenance = \<lparr>pv_kind = PUser, pv_source = None\<rparr>, aq_taskId = Some demo_saga_id, aq_target = None,
     aq_intent = None\<rparr>"

definition demo_result :: ActionResult where
  "demo_result = \<lparr>ar_ok = True, ar_capability = ''file.write'', ar_provider = ''p'', ar_output = None,
     ar_evidence = [\<lparr>ev_kind = ''kernel_verification'', ev_status = EvPass, ev_message = ''m'',
       ev_data = Some [(''verificationDigest'', JStr (demo_digest CHR ''b''))], ev_timestamp = 0\<rparr>],
     ar_error = None, ar_durationMs = 1\<rparr>"

definition demo_uncertain :: ActionResult where
  "demo_uncertain = demo_result\<lparr>ar_ok := False, ar_evidence := [], ar_error := Some \<lparr>ae_code = ''X'', ae_message = ''m'',
     ae_retryable = None, ae_sideEffectState = Some SeUncertain, ae_executionPhase = None, ae_details = None\<rparr>\<rparr>"

definition demo_saga_kernel :: "ActionResult \<Rightarrow> unit saga_kernel" where
  "demo_saga_kernel result = \<lparr>sk_execute = (\<lambda>owner a w. (Inr result, w)),
     sk_journal = (\<lambda>i w. (Inl (OperatorError ''ACTION_JOURNAL_NOT_FOUND''), w)),
     sk_reconcile = (\<lambda>a p w. (Inl (OperatorError ''x''), w)), sk_aborted = (\<lambda>w. False), sk_clock = (\<lambda>n. 100 + int n),
     sk_hash = demo_hash, sk_digest = (\<lambda>c. demo_digest CHR ''c'')\<rparr>"

definition demo_step :: "string \<Rightarrow> DurableSagaStepState \<Rightarrow> DurableSagaStep" where
  "demo_step key st = \<lparr>ss_key = key, ss_action = demo_request (''do-'' @ key),
     ss_compensation = Some (demo_request (''undo-'' @ key)), ss_state = st,
     ss_actionDigest = demo_digest CHR ''a'', ss_compensationDigest = Some (demo_digest CHR ''a''),
     ss_verificationDigest = None, ss_compensationVerificationDigest = None, ss_provider = None, ss_errorCode = None,
     ss_updatedAt = 1\<rparr>"

definition demo_saga :: "DurableSagaState \<Rightarrow> DurableSagaStep list \<Rightarrow> DurableSaga" where
  "demo_saga st steps = \<lparr>ds_id = demo_saga_id, ds_contractDigest = demo_digest CHR ''c'', ds_objective = ''o'',
     ds_intent = None, ds_state = st, ds_steps = steps, ds_createdAt = 1, ds_updatedAt = 1\<rparr>"

definition demo_world :: "DurableSaga \<Rightarrow> (unit \<times> (string \<times> ActionRequest) list) saga_world" where
  "demo_world s = \<lparr>sw_file = StoredSagas [s], sw_written = [], sw_ext = ((), [])\<rparr>"

lemma demo_saga_uuid: "saga_uuid demo_saga_id = Inr demo_saga_id"
  by code_simp

lemma demo_digests:
  "hex64_lower (to_lower (demo_digest CHR ''a''))" "hex64_lower (demo_digest CHR ''b'')"
  "hex64_lower (to_lower (demo_digest CHR ''c''))" "to_lower (demo_digest CHR ''b'') = demo_digest CHR ''b''"
  "demo_digest c \<noteq> []"
  by code_simp+

lemma demo_keys: "boundedKey ''a'' = None" "boundedKey ''b'' = None" "boundedKey ''c'' = None"
  "saga_bounded ''p'' n = (if n = 0 then Some saga_invalid else None)"
  "saga_bounded ''X'' n = (if n = 0 then Some saga_invalid else None)"
  "saga_bounded ''o'' n = (if n = 0 then Some saga_invalid else None)"
  by code_simp+ (auto simp: saga_bounded_def nul_char_def)

lemma demo_results:
  "ar_ok demo_result" "ar_provider demo_result = ''p''" "\<not> ar_ok demo_uncertain" "ar_provider demo_uncertain = ''p''"
  "kernelVerificationDigest demo_result = Some (demo_digest CHR ''b'')" "kernelVerificationDigest demo_uncertain = None"
  "uncertain_result demo_uncertain" "error_code_or c demo_uncertain = ''X''"
  by (simp_all add: demo_result_def demo_uncertain_def kernelVerificationDigest_def verification_item_def demo_digests
      uncertain_result_def error_code_or_def)

text \<open>The equations that run the saga programs by rewriting.\<close>

lemmas saga_run_defs = run_saga_def run_recovered_def compensate_def compensable_def inspect_saga_def update_saga_def
  mutate_sagas_def and_then_def external_def going_on_def stopping_def recover_step_def touch_saga_def touch_step_def
  touch_both_def requireStep_def validateSagas_def check_saga_def check_step_def sha_def truthy_def
  MAX_SAGAS_def MAX_STEPS_def logging_def

lemmas demo_defs = demo_world_def demo_saga_def demo_step_def demo_saga_kernel_def demo_results demo_hash_def
  demo_saga_uuid demo_digests demo_keys


definition demo_mid_saga :: DurableSaga where
  "demo_mid_saga = demo_saga SagaRunning [demo_step ''a'' StepCompleted, demo_step ''b'' StepCompleted,
     demo_step ''c'' StepFailed]"

definition demo_final :: "DurableSaga result \<times> (unit \<times> (string \<times> ActionRequest) list) saga_world" where
  "demo_final = compensate (logging (demo_saga_kernel demo_result)) demo_saga_id (demo_world demo_mid_saga)"

theorem compensation_runs_backwards_witness:
  "dispatched (snd demo_final) = [(''saga-compensation'', demo_request ''undo-b''), (''saga-compensation'', demo_request ''undo-a'')]"
proof -
  obtain r w' where run: "demo_final = (r, w')" by (cases demo_final)
  have look: "lookup_saga (logging (demo_saga_kernel demo_result)) (demo_world demo_mid_saga) demo_saga_id = Some demo_mid_saga"
    and act: "active demo_mid_saga" and new: "sw_written (demo_world demo_mid_saga) = []"
    and comp: "case fst demo_final of Inr s \<Rightarrow> ds_state s = SagaCompensated | _ \<Rightarrow> False"
    by (simp_all add: demo_final_def demo_mid_saga_def lookup_saga_def active_def saga_run_defs demo_defs)
  from comp obtain s' where s': "r = Inr s'" "ds_state s' = SagaCompensated"
    by (auto simp: run split: sum.splits)
  from compensation_runs_backwards [OF demo_saga_uuid look act new run [unfolded demo_final_def]] s'
  show ?thesis unfolding run by (auto simp: demo_mid_saga_def demo_saga_def demo_step_def demo_world_def split: sum.splits)
qed

theorem saga_run_refines_life_cycle_witness:
  "list_all (\<lambda>v. map_option frozen (find (\<lambda>x. ds_id x = demo_saga_id) v)
        = Some (frozen (demo_saga SagaPending [demo_step ''a'' StepPending])))
     (sw_written (snd (run_saga (logging (demo_saga_kernel demo_result)) demo_saga_id
        (demo_world (demo_saga SagaPending [demo_step ''a'' StepPending])))))"
proof -
  let ?s = "demo_saga SagaPending [demo_step ''a'' StepPending]"
  let ?k = "logging (demo_saga_kernel demo_result)"
  have look: "lookup_saga ?k (demo_world ?s) demo_saga_id = Some ?s" and act: "active ?s"
    and new: "sw_written (demo_world ?s) = []"
    by (simp_all add: lookup_saga_def active_def saga_run_defs demo_defs)
  from saga_run_refines_life_cycle [OF demo_saga_uuid look new surjective_pairing] act show ?thesis
    by (force simp: list_all_iff)
qed

theorem uncertain_step_blocks_witness:
  "dispatched (snd (run_steps (logging (demo_saga_kernel demo_uncertain)) demo_saga_id
       [demo_step ''a'' StepPending, demo_step ''b'' StepPending]
       (demo_world (demo_saga SagaRunning [demo_step ''a'' StepPending, demo_step ''b'' StepPending]))))
   = [(''saga'', demo_request ''do-a'')]"
proof -
  let ?k = "demo_saga_kernel demo_uncertain"
  let ?w = "demo_world (demo_saga SagaRunning [demo_step ''a'' StepPending, demo_step ''b'' StepPending])"
  let ?r = "run_steps (logging ?k) demo_saga_id [demo_step ''a'' StepPending, demo_step ''b'' StepPending] ?w"
  have "\<exists>s'. fst ?r = Inr s'" by (simp add: saga_run_defs demo_defs)
  then obtain s' where run: "?r = (Inr s', snd ?r)" by (metis prod.collapse)
  have "ss_state (demo_step ''a'' StepPending) = StepPending" "\<not> sk_aborted (logging ?k) (sw_ext ?w)"
    "fst (sk_execute ?k ''saga'' (ss_action (demo_step ''a'' StepPending)) (fst (sw_ext ?w))) = Inr demo_uncertain"
    by (simp_all add: demo_defs logging_def)
  from uncertain_step_blocks [OF demo_saga_uuid this _ _ run] show ?thesis
    by (simp add: demo_results demo_world_def demo_step_def)
qed

theorem submit_saga_idempotent_witness:
  "\<exists>s w' w''. submit_saga (demo_saga_kernel demo_result) ''f'' (Some demo_saga_id) ''o'' None
      [\<lparr>si_key = ''a'', si_action = demo_request ''do'', si_compensation = None\<rparr>]
      \<lparr>sw_file = AbsentSagas, sw_written = [], sw_ext = ()\<rparr> = (Inr s, w')
   \<and> submit_saga (demo_saga_kernel demo_result) ''g'' (Some demo_saga_id) ''o'' None
      [\<lparr>si_key = ''a'', si_action = demo_request ''do'', si_compensation = None\<rparr>] w' = (Inr s, w'')
   \<and> sw_file w'' = sw_file w'"
proof -
  have "\<exists>s w'. submit_saga (demo_saga_kernel demo_result) ''f'' (Some demo_saga_id) ''o'' None
      [\<lparr>si_key = ''a'', si_action = demo_request ''do'', si_compensation = None\<rparr>]
      \<lparr>sw_file = AbsentSagas, sw_written = [], sw_ext = ()\<rparr> = (Inr s, w')"
    by (simp add: submit_saga_def normalize_step_def bindAction_def submit_mutator_def Let_def saga_run_defs demo_defs)
  then show ?thesis using submit_saga_idempotent by blast
qed

end
