(* ===== verification/VerificationKernel.thy ===== *)
theory VerificationKernel
  imports ActionModel "HOL-Library.Multiset"
begin

text \<open>
  The independent verification boundary (\<open>src/core/verification-kernel.ts\<close>): a declared contract is
  bound to explicit checks with evidence digests. SHA-256 over canonical JSON is an argument, one for the
  contract and one for the receipt body; the comparison of names by \<open>localeCompare\<close> is the order of
  collation keys. The tests that a request is an inert record with dense arrays are discharged by typing.
\<close>

record VerificationCheck =
  vc_name :: string
  vc_ok :: bool
  vc_detail :: string
  vc_evidenceDigests :: "string list option"

record ReceiptCheck =
  rc_name :: string
  rc_ok :: bool
  rc_detail :: string
  rc_evidenceDigests :: "string list"

record VerificationBody =
  vb_subjectKind :: string
  vb_subjectId :: string
  vb_contractDigest :: string
  vb_checks :: "ReceiptCheck list"
  vb_verified :: bool

record VerificationReceipt =
  vk_body :: VerificationBody
  vk_digest :: string

definition verification_invalid :: failure where
  "verification_invalid = OperatorError ''VERIFICATION_INPUT_INVALID''"

definition bounded_text :: "string \<Rightarrow> nat \<Rightarrow> bool" where
  "bounded_text v n \<longleftrightarrow> 1 \<le> length v \<and> length v \<le> n \<and> nul_char \<notin> set v"

definition hex64 :: "string \<Rightarrow> bool" where
  "hex64 s \<longleftrightarrow> length s = 64 \<and> list_all is_hex s"

definition normalize_check :: "VerificationCheck \<Rightarrow> ReceiptCheck result" where
  "normalize_check c =
     (let supplied = (case vc_evidenceDigests c of None \<Rightarrow> [] | Some ds \<Rightarrow> ds) in
      if \<not> bounded_text (vc_name c) 256 \<or> \<not> bounded_text (vc_detail c) 16384 \<or> length supplied > 1000
         \<or> \<not> list_all hex64 supplied
      then Inl verification_invalid
      else Inr \<lparr>rc_name = vc_name c, rc_ok = vc_ok c, rc_detail = vc_detail c,
                rc_evidenceDigests = unique_sorted (map to_lower supplied)\<rparr>)"

definition verify ::
  "('c \<Rightarrow> string) \<Rightarrow> (VerificationBody \<Rightarrow> string) \<Rightarrow> (string \<Rightarrow> string) \<Rightarrow> string \<Rightarrow> string \<Rightarrow> 'c
   \<Rightarrow> VerificationCheck list \<Rightarrow> VerificationReceipt result" where
  "verify contractDigest bodyDigest collate subjectKind subjectId contract checks =
     (if \<not> bounded_text subjectKind 128 \<or> \<not> bounded_text subjectId 512 \<or> length checks < 1 \<or> length checks > 10000
      then Inl verification_invalid
      else bind_result (map_throw normalize_check checks) (\<lambda>cs.
        if \<not> distinct (map rc_name cs) then Inl verification_invalid
        else let sorted = sort_key (\<lambda>c. collate (rc_name c)) cs;
                 body = \<lparr>vb_subjectKind = subjectKind, vb_subjectId = subjectId,
                   vb_contractDigest = contractDigest contract, vb_checks = sorted, vb_verified = list_all rc_ok sorted\<rparr>
             in Inr \<lparr>vk_body = body, vk_digest = bodyDigest body\<rparr>))"

lemma normalize_check_InrD:
  "normalize_check c = Inr r \<Longrightarrow> rc_name r = vc_name c \<and> rc_ok r = vc_ok c"
  by (auto simp: normalize_check_def Let_def split: if_split_asm)

lemma map_throw_perm:
  assumes "map_throw f xs = Inr ys" "mset xs' = mset xs"
  shows "\<exists>ys'. map_throw f xs' = Inr ys' \<and> mset ys' = mset ys"
proof -
  define g where "g x = (case f x of Inl _ \<Rightarrow> undefined | Inr y \<Rightarrow> y)" for x
  have total: "f x = Inr (g x)" if "x \<in> set xs" for x
    using that assms(1) by (induction xs arbitrary: ys) (auto simp: g_def split: sum.splits)
  have "set xs' = set xs" using assms(2) by (metis set_mset_mset)
  then have "map_throw f xs' = Inr (map g xs')" "map_throw f xs = Inr (map g xs)"
    using total by (auto simp: map_throw_Inr_iff list_all2_conv_all_nth dest: nth_mem)
  with assms show ?thesis by auto
qed

text \<open>
  The receipt is independent of the order in which the checks were made: as long as the collation tells
  the check names apart, any reordering of the checks gives the very same receipt and digest.
\<close>

theorem receipt_independent_of_check_order:
  assumes "verify contractDigest bodyDigest collate kind subject contract checks = Inr receipt"
    and "mset checks' = mset checks" "inj_on collate (vc_name ` set checks)"
  shows "verify contractDigest bodyDigest collate kind subject contract checks' = Inr receipt"
proof -
  from assms(1) obtain cs where cs: "map_throw normalize_check checks = Inr cs" "distinct (map rc_name cs)"
    and guards: "bounded_text kind 128" "bounded_text subject 512" "\<not> length checks < 1" "\<not> length checks > 10000"
    by (auto simp: verify_def bind_result_Inr Let_def split: if_split_asm)
  from map_throw_perm [OF cs(1) assms(2)] obtain cs' where cs': "map_throw normalize_check checks' = Inr cs'" "mset cs' = mset cs"
    by blast
  have names: "rc_name ` set cs \<subseteq> vc_name ` set checks"
    using map_throw_set [OF cs(1)] normalize_check_InrD by (auto simp: image_iff) blast
  have "inj_on (\<lambda>c. collate (rc_name c)) (set cs)"
    using inj_on_subset [OF assms(3) names] cs(2) by (auto simp: inj_on_def distinct_map)
  then have sorted: "sort_key (\<lambda>c. collate (rc_name c)) cs' = sort_key (\<lambda>c. collate (rc_name c)) cs"
    using cs'(2) by (intro sort_key_inj_key_eq) (auto dest: mset_eq_setD)
  have "mset (map rc_name cs') = mset (map rc_name cs)" using cs'(2) by simp
  then have "distinct (map rc_name cs')" using cs(2) mset_eq_imp_distinct_iff by blast
  moreover have "length checks' = length checks" using assms(2) mset_eq_length by blast
  ultimately show ?thesis
    using assms(1) guards cs cs'(1) sorted by (simp add: verify_def bind_result_Inr_left Let_def)
qed

definition sample_checks :: "VerificationCheck list" where
  "sample_checks = [\<lparr>vc_name = ''a'', vc_ok = True, vc_detail = ''d'', vc_evidenceDigests = None\<rparr>,
     \<lparr>vc_name = ''b'', vc_ok = True, vc_detail = ''d'', vc_evidenceDigests = Some [replicate 64 (CHR ''A'')]\<rparr>]"

definition sample_receipt_body :: VerificationBody where
  "sample_receipt_body = \<lparr>vb_subjectKind = ''k'', vb_subjectId = ''s'', vb_contractDigest = ''c'',
     vb_checks = [\<lparr>rc_name = ''a'', rc_ok = True, rc_detail = ''d'', rc_evidenceDigests = []\<rparr>,
       \<lparr>rc_name = ''b'', rc_ok = True, rc_detail = ''d'', rc_evidenceDigests = [replicate 64 (CHR ''a'')]\<rparr>],
     vb_verified = True\<rparr>"

theorem receipt_independent_of_check_order_witness:
  "verify (\<lambda>_. ''c'') (\<lambda>_. ''r'') (\<lambda>s. s) ''k'' ''s'' () (rev sample_checks) = Inr \<lparr>vk_body = sample_receipt_body, vk_digest = ''r''\<rparr>"
proof (rule receipt_independent_of_check_order)
  show "verify (\<lambda>_. ''c'') (\<lambda>_. ''r'') (\<lambda>s. s) ''k'' ''s'' () sample_checks = Inr \<lparr>vk_body = sample_receipt_body, vk_digest = ''r''\<rparr>"
    by code_simp
qed (auto simp: sample_checks_def)

end
