(* ===== verification/TeamModel.thy ===== *)
theory TeamModel
  imports ResourceIdentity Saga TaskCapsule VerificationKernel "HOL-Library.Product_Lexorder"
begin

text \<open>
  The durable team coordinator (\<open>src/core/team-coordinator.ts\<close>): missions of work items with dependencies,
  workers that claim items under leases, resource locks with revisions, a blackboard with compare-and-set,
  action receipts and verifier-gated completion. An operation is a function on the mission it reads from the
  store; what it throws leaves the file unchanged. A reference to a work item is its position in the mission.

  Arguments of the model: one clock reading and one random UUID per operation, the intent registry, the agent
  kernel's canonical verification, and SHA-256 over canonical JSON of an action, of the verified state, of the
  verification contract and of the receipt. The platform is POSIX.
\<close>

section \<open>Data\<close>

datatype TeamRole = RSupervisor | RPlanner | RCoder | RTester | RBrowser | RUi | RVerifier | RGeneral

datatype TeamMissionState = MPending | MRunning | MPaused | MBlocked | MFailed | MCancelled | MVerified

datatype TeamWorkState = WPending | WLeased | WCompleted | WFailed | WBlocked | WNeedsReconciliation | WCancelled

datatype TeamWorkerState = WsActive | WsOffline | WsRevoked

datatype TeamReceiptState = RsDispatching | RsCompleted | RsUncertain

record TeamBudget =
  tb_maxWorkers :: int
  tb_maxConcurrentLeases :: int
  tb_maxAttemptsPerWorkItem :: int
  tb_maxWallClockMs :: int
  tb_leaseMs :: int

record TeamWorker =
  tw_id :: string
  tw_role :: TeamRole
  tw_label :: string
  tw_capabilities :: "string list"
  tw_registeredAt :: int
  tw_heartbeatAt :: int
  tw_state :: TeamWorkerState

record TeamLock =
  lk_leaseId :: string
  lk_workerId :: string
  lk_workItemId :: string
  lk_expiresAt :: int

record TeamResource =
  tr_key :: string
  tr_revision :: int
  tr_uncertain :: bool
  tr_updatedAt :: int
  tr_lock :: "TeamLock option"

record TeamLease =
  tl_id :: string
  tl_workerId :: string
  tl_workItemId :: string
  tl_epoch :: int
  tl_acquiredAt :: int
  tl_heartbeatAt :: int
  tl_expiresAt :: int
  tl_baseResourceRevisions :: "(string \<times> int) list"

record TeamEvidence =
  tx_kind :: string
  tx_status :: EvidenceStatus
  tx_message :: string

record TeamWorkResult =
  wr_summary :: string
  wr_evidence :: "TeamEvidence list"
  wr_verificationPassed :: "bool option"
  wr_verificationDigest :: "string option"
  wr_worldObservationDigest :: "string option"
  wr_completedAt :: int
  wr_workerId :: string

record TeamFailure =
  tf_code :: string
  tf_message :: string
  tf_at :: int

record TeamWorkItem =
  wi_id :: string
  wi_key :: string
  wi_title :: string
  wi_role :: TeamRole
  wi_risk :: ActionRisk
  wi_priority :: int
  wi_dependsOn :: "string list"
  wi_resources :: "string list"
  wi_allowedCapabilities :: "string list"
  wi_state :: TeamWorkState
  wi_attempts :: int
  wi_lease :: "TeamLease option"
  wi_result :: "TeamWorkResult option"
  wi_failure :: "TeamFailure option"

record TeamBlackboardEntry =
  be_key :: string
  be_revision :: int
  be_value :: json
  be_workerId :: string
  be_updatedAt :: int

record TeamActionReceipt =
  rp_missionId :: string
  rp_workItemId :: string
  rp_workerId :: string
  rp_leaseId :: string
  rp_actionId :: string
  rp_actionDigest :: string
  rp_capability :: string
  rp_risk :: ActionRisk
  rp_state :: TeamReceiptState
  rp_verificationDigest :: "string option"
  rp_result :: "ActionResult option"
  rp_createdAt :: int
  rp_updatedAt :: int

record TeamEvent =
  tv_seq :: int
  tv_at :: int
  tv_type :: string
  tv_workerId :: "string option"
  tv_workItemId :: "string option"
  tv_data :: "json_record option"

record TeamMission =
  tm_version :: int
  tm_id :: string
  tm_objective :: string
  tm_intent :: "IntentBinding option"
  tm_state :: TeamMissionState
  tm_epoch :: int
  tm_budget :: TeamBudget
  tm_workers :: "TeamWorker list"
  tm_resources :: "TeamResource list"
  tm_workItems :: "TeamWorkItem list"
  tm_blackboard :: "TeamBlackboardEntry list"
  tm_events :: "TeamEvent list"
  tm_actionReceipts :: "TeamActionReceipt list"
  tm_startedAt :: "int option"
  tm_deadlineAt :: "int option"
  tm_createdAt :: int
  tm_updatedAt :: int

record TeamWorkInput =
  wn_key :: string
  wn_title :: string
  wn_role :: TeamRole
  wn_risk :: "ActionRisk option"
  wn_priority :: "int option"
  wn_dependsOn :: "string list option"
  wn_resources :: "string list option"
  wn_allowedCapabilities :: "string list option"

record TeamBudgetInput =
  bi_maxWorkers :: "int option"
  bi_maxConcurrentLeases :: "int option"
  bi_maxAttemptsPerWorkItem :: "int option"
  bi_maxWallClockMs :: "int option"
  bi_leaseMs :: "int option"

text \<open>
  What the verified-state digest hashes: the items with the two fields it leaves out (title and priority)
  blanked. What the verification contract of a verifier holds.
\<close>

record TeamStateView =
  sv_missionId :: string
  sv_epoch :: int
  sv_state :: TeamMissionState
  sv_intent :: "IntentBinding option"
  sv_verifierWorkItemId :: string
  sv_workItems :: "TeamWorkItem list"
  sv_resources :: "TeamResource list"
  sv_actionReceipts :: "TeamActionReceipt list"

record TeamContract =
  ct_missionId :: string
  ct_verifierWorkItemId :: string
  ct_coveredWorkItems :: "(string \<times> string \<times> TeamWorkState \<times> ActionRisk \<times> int) list"
  ct_completedActionDigests :: "string list"
  ct_verificationRequest :: "json option"

text \<open>The coordinator, and what one call reads from outside.\<close>

record TeamCoordinator =
  co_requireKernelVerification :: bool
  co_actionJournal :: bool
  co_kernelAvailable :: bool
  co_sha256 :: "string \<Rightarrow> 8 word list"
  co_collate :: "string \<Rightarrow> string"
  co_actionDigest :: "ActionRequest \<Rightarrow> string"
  co_stateDigest :: "TeamStateView \<Rightarrow> string"
  co_contractDigest :: "TeamContract \<Rightarrow> string"
  co_receiptDigest :: "VerificationBody \<Rightarrow> string"

record TeamCall =
  ca_now :: int
  ca_uuid :: string
  ca_intentRegistry :: "(IntentBinding \<Rightarrow> failure option) option"

section \<open>Field checks\<close>

abbreviation team_error :: "string \<Rightarrow> failure" where
  "team_error \<equiv> OperatorError"

definition team_invalid :: failure where
  "team_invalid = team_error ''TEAM_INPUT_INVALID''"

definition team_corrupt :: failure where
  "team_corrupt = team_error ''TEAM_STATE_CORRUPT''"

definition require_that :: "bool \<Rightarrow> failure \<Rightarrow> unit result" where
  "require_that b e = (if b then Inr () else Inl e)"

definition boundedText :: "string \<Rightarrow> nat \<Rightarrow> string result" where
  "boundedText v n = (if bounded_text v n then Inr v else Inl team_invalid)"

definition team_key_shape :: "string \<Rightarrow> bool" where
  "team_key_shape v \<longleftrightarrow> v \<noteq> [] \<and> length v \<le> 128 \<and> list_all key_char v
     \<and> (is_lower (hd v) \<or> is_upper (hd v) \<or> is_digit (hd v))"

definition team_boundedKey :: "string \<Rightarrow> string result" where
  "team_boundedKey v = bind_result (boundedText v 128) (\<lambda>k. if team_key_shape k then Inr k else Inl team_invalid)"

definition validUuid :: "string \<Rightarrow> string result" where
  "validUuid s =
     (let v = to_lower s in
      if length v = 36 \<and> list_all (\<lambda>i. if i \<in> {8, 13, 18, 23} then v ! i = CHR ''-'' else is_hex_lower (v ! i)) [0..<36]
         \<and> v ! 14 \<in> set ''12345678'' \<and> v ! 19 \<in> set ''89ab''
      then Inr v else Inl team_invalid)"

definition team_uniqueStrings :: "nat \<Rightarrow> nat \<Rightarrow> string list \<Rightarrow> string list result" where
  "team_uniqueStrings maxItems maxLength xs =
     (if length xs > maxItems then Inl team_invalid
      else bind_result (map_throw (\<lambda>v. boundedText v maxLength) xs) (\<lambda>vs. if distinct vs then Inr vs else Inl team_invalid))"

definition boundedInteger :: "int \<Rightarrow> int \<Rightarrow> int \<Rightarrow> int result" where
  "boundedInteger v lo hi = (if is_safe_integer v \<and> lo \<le> v \<and> v \<le> hi then Inr v else Inl team_invalid)"

definition normalizeResourceKey :: "string \<Rightarrow> string result" where
  "normalizeResourceKey v =
     (let key = map (\<lambda>c. if c = CHR 0x5C then CHR ''/'' else c) (js_trim v) in
      if key = [] \<or> length key > 1024 \<or> nul_char \<in> set key \<or> includes_str key ''..'' then Inl team_invalid else Inr key)"

text \<open>The bytes of \<open>JSON.stringify\<close> in UTF-8.\<close>

definition json_char_bytes :: "char \<Rightarrow> nat" where
  "json_char_bytes c =
     (let n = (of_char c :: nat) in
      if n \<in> {8, 9, 10, 12, 13, 34, 92} then 2 else if n < 32 then 6 else if n < 128 then 1 else 2)"

definition json_string_bytes :: "string \<Rightarrow> nat" where
  "json_string_bytes s = 2 + sum_list (map json_char_bytes s)"

fun json_bytes :: "json \<Rightarrow> nat" where
  "json_bytes JNull = 4"
| "json_bytes (JBool b) = (if b then 4 else 5)"
| "json_bytes (JNum n) = length (show_int n)"
| "json_bytes (JStr s) = json_string_bytes s"
| "json_bytes (JArr vs) = 2 + (length vs - 1) + sum_list (map json_bytes vs)"
| "json_bytes (JObj kvs) = 2 + (length kvs - 1) + sum_list (map (\<lambda>(k, v). json_string_bytes k + 1 + json_bytes v) kvs)"

definition cloneBoundedJson :: "json option \<Rightarrow> json result" where
  "cloneBoundedJson v = (case v of None \<Rightarrow> Inl team_invalid | Some j \<Rightarrow> if json_bytes j > 65536 then Inl team_invalid else Inr j)"

definition or_default :: "'a \<Rightarrow> 'a option \<Rightarrow> 'a" where
  "or_default d v = (case v of None \<Rightarrow> d | Some x \<Rightarrow> x)"

definition normalizeBudget :: "TeamBudgetInput \<Rightarrow> TeamBudget result" where
  "normalizeBudget b =
     bind_result (boundedInteger (or_default 16 (bi_maxWorkers b)) 1 64) (\<lambda>w.
     bind_result (boundedInteger (or_default 8 (bi_maxConcurrentLeases b)) 1 32) (\<lambda>l.
     bind_result (boundedInteger (or_default 3 (bi_maxAttemptsPerWorkItem b)) 1 10) (\<lambda>a.
     bind_result (boundedInteger (or_default 14400000 (bi_maxWallClockMs b)) 60000 86400000) (\<lambda>c.
     bind_result (boundedInteger (or_default 300000 (bi_leaseMs b)) 10000 1800000) (\<lambda>ms.
       Inr \<lparr>tb_maxWorkers = w, tb_maxConcurrentLeases = l, tb_maxAttemptsPerWorkItem = a, tb_maxWallClockMs = c, tb_leaseMs = ms\<rparr>)))))"

definition validateEvidence :: "TeamEvidence list \<Rightarrow> TeamEvidence list result" where
  "validateEvidence es =
     (if length es > 1000 then Inl team_invalid
      else map_throw (\<lambda>e. bind_result (team_boundedKey (tx_kind e)) (\<lambda>k.
             bind_result (boundedText (tx_message e) 65536) (\<lambda>m. Inr \<lparr>tx_kind = k, tx_status = tx_status e, tx_message = m\<rparr>))) es)"

section \<open>The mission file\<close>

definition full_budget :: "TeamBudget \<Rightarrow> TeamBudgetInput" where
  "full_budget b = \<lparr>bi_maxWorkers = Some (tb_maxWorkers b), bi_maxConcurrentLeases = Some (tb_maxConcurrentLeases b),
     bi_maxAttemptsPerWorkItem = Some (tb_maxAttemptsPerWorkItem b), bi_maxWallClockMs = Some (tb_maxWallClockMs b),
     bi_leaseMs = Some (tb_leaseMs b)\<rparr>"

definition check_blackboard_entry :: "TeamBlackboardEntry \<Rightarrow> failure option" where
  "check_blackboard_entry e =
     (case bind_result (team_boundedKey (be_key e)) (\<lambda>_. bind_result (boundedInteger (be_revision e) 1 max_safe_integer) (\<lambda>_.
        bind_result (validUuid (be_workerId e)) (\<lambda>_. cloneBoundedJson (Some (be_value e)))))
      of Inl e \<Rightarrow> Some e | Inr _ \<Rightarrow> None)"

definition digest_ok :: "string option \<Rightarrow> bool" where
  "digest_ok d = (case d of None \<Rightarrow> True | Some v \<Rightarrow> hex64 v)"

definition validateMission :: "TeamMission \<Rightarrow> TeamMission result" where
  "validateMission m =
     bind_result (require_that (tm_version m = 1) team_corrupt) (\<lambda>_.
     bind_result (validUuid (tm_id m)) (\<lambda>_.
     bind_result (boundedText (tm_objective m) 16384) (\<lambda>_.
     bind_result (case tm_intent m of None \<Rightarrow> Inr () | Some b \<Rightarrow> bind_result (validIntentBinding b) (\<lambda>_. Inr ())) (\<lambda>_.
     bind_result (boundedInteger (tm_epoch m) 1 max_safe_integer) (\<lambda>_.
     bind_result (normalizeBudget (full_budget (tm_budget m))) (\<lambda>_.
     bind_result (require_that (length (tm_workers m) \<le> 64 \<and> length (tm_resources m) \<le> 5000
       \<and> length (tm_workItems m) \<le> 1000 \<and> length (tm_blackboard m) \<le> 2000) team_corrupt) (\<lambda>_.
     case for_all_throw check_blackboard_entry (tm_blackboard m) of Some e \<Rightarrow> Inl e
     | None \<Rightarrow>
     bind_result (require_that (length (tm_events m) \<le> 20000 \<and> length (tm_actionReceipts m) \<le> 4000
       \<and> list_all (\<lambda>r. digest_ok (rp_verificationDigest r)) (tm_actionReceipts m)
       \<and> list_all (\<lambda>i. digest_ok (Option.bind (wi_result i) wr_verificationDigest)) (tm_workItems m)) team_corrupt) (\<lambda>_.
       Inr m))))))))"

text \<open>The directory of mission files, by identifier.\<close>

type_synonym team_store = "(string \<times> TeamMission) list"

definition create_mission :: "TeamMission \<Rightarrow> team_store \<Rightarrow> team_store result" where
  "create_mission m st =
     bind_result (validateMission m) (\<lambda>m'.
     bind_result (validUuid (tm_id m)) (\<lambda>i.
       if map_of st i \<noteq> None then Inl (JsError ''EEXIST'') else Inr (jsmap_set st i m')))"

definition get_mission :: "string \<Rightarrow> team_store \<Rightarrow> TeamMission result" where
  "get_mission idInput st =
     bind_result (validUuid idInput) (\<lambda>i.
       case map_of st i of None \<Rightarrow> Inl (team_error ''TEAM_NOT_FOUND'') | Some m \<Rightarrow> validateMission m)"

definition update_mission :: "string \<Rightarrow> (TeamMission \<Rightarrow> (TeamMission \<times> 'a) result) \<Rightarrow> team_store \<Rightarrow> (team_store \<times> 'a) result" where
  "update_mission idInput mutate st =
     bind_result (validUuid idInput) (\<lambda>i.
     bind_result (get_mission i st) (\<lambda>m.
     bind_result (mutate m) (\<lambda>(m', x).
     bind_result (validateMission m') (\<lambda>m''. Inr (jsmap_set st i m'', x)))))"

definition list_missions :: "TeamCoordinator \<Rightarrow> int \<Rightarrow> team_store \<Rightarrow> (string \<times> string \<times> TeamMissionState \<times> int) list result" where
  "list_missions co limitInput st =
     bind_result (boundedInteger limitInput 1 500) (\<lambda>limit.
     bind_result (map_throw (\<lambda>i. get_mission i st) (sort (map fst st))) (\<lambda>ms.
       Inr (map (\<lambda>m. (tm_id m, tm_objective m, tm_state m, tm_updatedAt m))
         (take (nat limit) (sort_key (\<lambda>m. (- tm_updatedAt m, co_collate co (tm_id m))) ms)))))"

section \<open>Shared steps\<close>

primrec role_text :: "TeamRole \<Rightarrow> string" where
  "role_text RSupervisor = ''supervisor''" | "role_text RPlanner = ''planner''" | "role_text RCoder = ''coder''"
| "role_text RTester = ''tester''" | "role_text RBrowser = ''browser''" | "role_text RUi = ''ui''"
| "role_text RVerifier = ''verifier''" | "role_text RGeneral = ''general''"

primrec risk_text :: "ActionRisk \<Rightarrow> string" where
  "risk_text Read = ''read''" | "risk_text Write = ''write''" | "risk_text External = ''external''"
| "risk_text System = ''system''" | "risk_text Destructive = ''destructive''"

primrec side_effect_text :: "SideEffectState \<Rightarrow> string" where
  "side_effect_text SeNone = ''none''" | "side_effect_text SeKnown = ''known''" | "side_effect_text SeUncertain = ''uncertain''"

definition appendEvent ::
  "int \<Rightarrow> string \<Rightarrow> string option \<Rightarrow> string option \<Rightarrow> json_record option \<Rightarrow> TeamMission \<Rightarrow> TeamMission" where
  "appendEvent now kind workerId workItemId data m =
     (let seq = (if tm_events m = [] then 0 else tv_seq (last (tm_events m))) + 1;
          es = tm_events m @ [\<lparr>tv_seq = seq, tv_at = now, tv_type = kind, tv_workerId = truthy workerId,
                 tv_workItemId = truthy workItemId, tv_data = data\<rparr>]
      in m\<lparr>tm_events := (if length es > 20000 then drop (length es - 20000) es else es)\<rparr>)"

definition requireWorker :: "TeamMission \<Rightarrow> string \<Rightarrow> nat result" where
  "requireWorker m idInput =
     bind_result (validUuid idInput) (\<lambda>i.
       case index_of (\<lambda>w. tw_id w = i) (tm_workers m) of None \<Rightarrow> Inl (team_error ''TEAM_WORKER_NOT_FOUND'')
       | Some n \<Rightarrow> if tw_state (tm_workers m ! n) = WsRevoked then Inl (team_error ''TEAM_WORKER_REVOKED'') else Inr n)"

definition requireWorkItem :: "TeamMission \<Rightarrow> string \<Rightarrow> nat result" where
  "requireWorkItem m idInput =
     bind_result (validUuid idInput) (\<lambda>i.
       case index_of (\<lambda>w. wi_id w = i) (tm_workItems m) of None \<Rightarrow> Inl (team_error ''TEAM_WORK_NOT_FOUND'') | Some n \<Rightarrow> Inr n)"

definition requireLease :: "int \<Rightarrow> TeamWorkItem \<Rightarrow> string \<Rightarrow> string \<Rightarrow> int \<Rightarrow> TeamLease result" where
  "requireLease now item workerId leaseIdInput epoch =
     bind_result (validUuid leaseIdInput) (\<lambda>leaseId.
       case wi_lease item of None \<Rightarrow> Inl (team_error ''TEAM_LEASE_LOST'')
       | Some lease \<Rightarrow>
           if wi_state item \<noteq> WLeased \<or> tl_id lease \<noteq> leaseId \<or> tl_workerId lease \<noteq> workerId \<or> tl_epoch lease \<noteq> epoch
           then Inl (team_error ''TEAM_LEASE_LOST'')
           else if tl_expiresAt lease \<le> now then Inl (team_error ''TEAM_LEASE_EXPIRED'') else Inr lease)"

definition find_resource :: "TeamResource list \<Rightarrow> string \<Rightarrow> TeamResource option" where
  "find_resource rs k = find (\<lambda>r. tr_key r = k) rs"

definition requireResource :: "TeamResource list \<Rightarrow> string \<Rightarrow> TeamResource result" where
  "requireResource rs k = (case find_resource rs k of None \<Rightarrow> Inl (team_error ''TEAM_RESOURCE_NOT_FOUND'') | Some r \<Rightarrow> Inr r)"

text \<open>\<open>for (const key of item.resources)\<close>: each resource is looked up and changed in place.\<close>

definition each_resource :: "(TeamResource \<Rightarrow> TeamResource result) \<Rightarrow> string list \<Rightarrow> TeamResource list \<Rightarrow> TeamResource list result" where
  "each_resource f = fold_throw (\<lambda>k rs. bind_result (requireResource rs k) (\<lambda>r.
     bind_result (f r) (\<lambda>r'. Inr (update_first (\<lambda>x. tr_key x = k) (\<lambda>_. r') rs))))"

definition locked_by :: "string \<Rightarrow> TeamResource \<Rightarrow> bool" where
  "locked_by leaseId r = (case tr_lock r of None \<Rightarrow> False | Some l \<Rightarrow> lk_leaseId l = leaseId)"

definition with_item :: "nat \<Rightarrow> (TeamWorkItem \<Rightarrow> TeamWorkItem) \<Rightarrow> TeamMission \<Rightarrow> TeamMission" where
  "with_item n f m = m\<lparr>tm_workItems := (tm_workItems m)[n := f (tm_workItems m ! n)]\<rparr>"

definition with_worker :: "nat \<Rightarrow> (TeamWorker \<Rightarrow> TeamWorker) \<Rightarrow> TeamMission \<Rightarrow> TeamMission" where
  "with_worker n f m = m\<lparr>tm_workers := (tm_workers m)[n := f (tm_workers m ! n)]\<rparr>"

definition unlock :: "string \<Rightarrow> TeamResource \<Rightarrow> TeamResource" where
  "unlock leaseId r = (if locked_by leaseId r then r\<lparr>tr_lock := None\<rparr> else r)"

definition expire_resource :: "int \<Rightarrow> TeamWorkItem \<Rightarrow> string \<Rightarrow> TeamResource \<Rightarrow> TeamResource" where
  "expire_resource now item leaseId r =
     (let r1 = unlock leaseId r; r2 = (if wi_risk item \<noteq> Read then r1\<lparr>tr_uncertain := True\<rparr> else r1) in r2\<lparr>tr_updatedAt := now\<rparr>)"

definition expireLease :: "int \<Rightarrow> string \<Rightarrow> nat \<Rightarrow> TeamMission \<Rightarrow> TeamMission result" where
  "expireLease now reason n m =
     (let item = tm_workItems m ! n in
      case wi_lease item of None \<Rightarrow> Inr m
      | Some lease \<Rightarrow>
          bind_result (each_resource (\<lambda>r. Inr (expire_resource now item (tl_id lease) r)) (wi_resources item) (tm_resources m)) (\<lambda>rs.
            Inr (appendEvent now ''work.lease_expired'' (Some (tl_workerId lease)) (Some (wi_id item))
                  (Some [(''reason'', JStr reason), (''risk'', JStr (risk_text (wi_risk item)))])
                  (with_item n (\<lambda>i. i\<lparr>wi_lease := None,
                      wi_state := (if wi_risk i = Read then WPending else WNeedsReconciliation)\<rparr>)
                    (m\<lparr>tm_resources := rs\<rparr>)))))"

definition expire_if :: "int \<Rightarrow> string \<Rightarrow> (TeamWorkItem \<Rightarrow> bool) \<Rightarrow> nat \<Rightarrow> TeamMission \<Rightarrow> TeamMission result" where
  "expire_if now reason P n m = (if P (tm_workItems m ! n) then expireLease now reason n m else Inr m)"

definition expire_where :: "int \<Rightarrow> string \<Rightarrow> (TeamWorkItem \<Rightarrow> bool) \<Rightarrow> TeamMission \<Rightarrow> TeamMission result" where
  "expire_where now reason P m = fold_throw (expire_if now reason P) [0..<length (tm_workItems m)] m"

definition lease_expired :: "int \<Rightarrow> TeamWorkItem \<Rightarrow> bool" where
  "lease_expired now i \<longleftrightarrow> wi_state i = WLeased \<and> (case wi_lease i of None \<Rightarrow> False | Some l \<Rightarrow> tl_expiresAt l \<le> now)"

definition worker_offline :: "int \<Rightarrow> int \<Rightarrow> TeamWorker \<Rightarrow> TeamWorker" where
  "worker_offline now leaseMs w =
     (if tw_state w = WsActive \<and> now - tw_heartbeatAt w > max (leaseMs * 2) 60000 then w\<lparr>tw_state := WsOffline\<rparr> else w)"

definition reapExpired :: "int \<Rightarrow> TeamMission \<Rightarrow> TeamMission result" where
  "reapExpired now m =
     bind_result (expire_where now ''lease_expired'' (lease_expired now)
         (m\<lparr>tm_workers := map (worker_offline now (tb_leaseMs (tm_budget m))) (tm_workers m)\<rparr>)) (\<lambda>m'.
       Inr (if list_ex tr_uncertain (tm_resources m') \<and> tm_state m' \<notin> {MFailed, MCancelled, MVerified}
            then m'\<lparr>tm_state := MBlocked\<rparr> else m'))"

definition invalidateLiveLeases :: "int \<Rightarrow> string \<Rightarrow> TeamMission \<Rightarrow> TeamMission result" where
  "invalidateLiveLeases now reason m = expire_where now reason (\<lambda>i. wi_lease i \<noteq> None) m"

definition ensureMissionRunnable :: "int \<Rightarrow> TeamMission \<Rightarrow> (TeamMission \<times> bool) result" where
  "ensureMissionRunnable now m =
     (if tm_state m \<noteq> MRunning then Inl (team_error ''TEAM_STATE_INVALID'')
      else if (case tm_deadlineAt m of None \<Rightarrow> False | Some d \<Rightarrow> now \<ge> d)
      then Inr (appendEvent now ''mission.deadline_exceeded'' None None None (m\<lparr>tm_state := MFailed, tm_updatedAt := now\<rparr>), False)
      else if list_ex tr_uncertain (tm_resources m)
      then Inr (appendEvent now ''mission.reconciliation_required'' None None None (m\<lparr>tm_state := MBlocked, tm_updatedAt := now\<rparr>), False)
      else Inr (m, True))"

definition passing_verifier :: "TeamWorkItem \<Rightarrow> bool" where
  "passing_verifier i \<longleftrightarrow> wi_role i = RVerifier \<and> wi_state i = WCompleted
     \<and> (case wi_result i of None \<Rightarrow> False
        | Some r \<Rightarrow> wr_verificationPassed r = Some True \<and> (case wr_verificationDigest r of None \<Rightarrow> False | Some d \<Rightarrow> hex64 d))"

definition finalizeIfVerified :: "int \<Rightarrow> TeamMission \<Rightarrow> TeamMission" where
  "finalizeIfVerified now m =
     (if list_ex (\<lambda>i. wi_state i \<noteq> WCompleted) (tm_workItems m) then m
      else case find passing_verifier (tm_workItems m) of
          None \<Rightarrow> appendEvent now ''mission.verifier_required'' None None None (m\<lparr>tm_state := MBlocked\<rparr>)
        | Some v \<Rightarrow> appendEvent now ''mission.verified'' (map_option wr_workerId (wi_result v)) (Some (wi_id v)) None
            (m\<lparr>tm_state := MVerified, tm_updatedAt := now\<rparr>))"

definition assertForwardIntent :: "TeamCall \<Rightarrow> TeamMission \<Rightarrow> unit result" where
  "assertForwardIntent ca m =
     (case tm_intent m of None \<Rightarrow> Inr ()
      | Some b \<Rightarrow> (case ca_intentRegistry ca of None \<Rightarrow> Inl (team_error ''INTENT_ENFORCEMENT_UNAVAILABLE'')
         | Some assertExecutable \<Rightarrow> (case assertExecutable b of Some e \<Rightarrow> Inl e | None \<Rightarrow> Inr ())))"

section \<open>Work graph\<close>

definition item_deps :: "TeamWorkItem list \<Rightarrow> string \<Rightarrow> string list" where
  "item_deps items k = (case find (\<lambda>i. wi_key i = k) (rev items) of None \<Rightarrow> [] | Some i \<Rightarrow> wi_dependsOn i)"

definition item_keys :: "TeamWorkItem list \<Rightarrow> string list" where
  "item_keys items = map wi_key items"

lemma item_deps_unknown: "k \<notin> set (item_keys items) \<Longrightarrow> item_deps items k = []"
  by (auto simp: item_deps_def item_keys_def split: option.splits dest!: find_SomeD)

function team_visit :: "TeamWorkItem list \<Rightarrow> string list \<Rightarrow> string list \<Rightarrow> string list \<Rightarrow> string list result" where
  "team_visit items visiting visited [] = Inr visited"
| "team_visit items visiting visited (k # rest) =
     (if k \<in> set visited then team_visit items visiting visited rest
      else if k \<in> set visiting then Inl team_invalid
      else case team_visit items (k # visiting) visited (item_deps items k) of Inl e \<Rightarrow> Inl e
           | Inr visited' \<Rightarrow> team_visit items visiting (k # visited') rest)"
  by pat_completeness auto

termination
proof (relation "measures [\<lambda>(items, visiting, _, _). card (set (item_keys items) - set visiting), \<lambda>(_, _, _, work). length work]", goal_cases)
  case (3 items visiting visited k rest)
  show ?case
  proof (cases "k \<in> set (item_keys items)")
    case True
    with 3 have "card (set (item_keys items) - set (k # visiting)) < card (set (item_keys items) - set visiting)"
      by (intro psubset_card_mono) auto
    then show ?thesis by simp
  next
    case False
    then have "set (item_keys items) - set (k # visiting) = set (item_keys items) - set visiting" by auto
    with False show ?thesis by (simp add: item_deps_unknown)
  qed
qed auto

definition team_assertAcyclic :: "TeamWorkItem list \<Rightarrow> unit result" where
  "team_assertAcyclic items = bind_result (team_visit items [] [] (item_keys items)) (\<lambda>_. Inr ())"

text \<open>The search for the target, with the pending dependencies of the calls in progress as one list.\<close>

function dep_search :: "TeamWorkItem list \<Rightarrow> string \<Rightarrow> string list \<Rightarrow> string list \<Rightarrow> bool" where
  "dep_search items target seen [] = False"
| "dep_search items target seen (d # ds) =
     (if d = target then True
      else if d \<in> set seen then dep_search items target seen ds
      else dep_search items target (d # seen) (item_deps items d @ ds))"
  by pat_completeness auto

termination
proof (relation "measures [\<lambda>(items, _, seen, _). card (set (item_keys items) - set seen), \<lambda>(_, _, _, work). length work]", goal_cases)
  case (3 items target seen d ds)
  show ?case
  proof (cases "d \<in> set (item_keys items)")
    case True
    with 3 have "card (set (item_keys items) - set (d # seen)) < card (set (item_keys items) - set seen)"
      by (intro psubset_card_mono) auto
    then show ?thesis by simp
  next
    case False
    then have "set (item_keys items) - set (d # seen) = set (item_keys items) - set seen" by auto
    with False show ?thesis by (simp add: item_deps_unknown)
  qed
qed auto

definition transitivelyDependsOn :: "string \<Rightarrow> string \<Rightarrow> TeamWorkItem list \<Rightarrow> bool" where
  "transitivelyDependsOn source target items = dep_search items target [source] (item_deps items source)"

section \<open>Submitting a mission\<close>

definition stableWorkItemId :: "(string \<Rightarrow> 8 word list) \<Rightarrow> string \<Rightarrow> string \<Rightarrow> string" where
  "stableWorkItemId sha256 missionId key = stableTaskNodeId sha256 missionId key"

definition normalize_work :: "TeamCoordinator \<Rightarrow> string \<Rightarrow> TeamWorkInput \<Rightarrow> TeamWorkItem result" where
  "normalize_work co missionId w =
     bind_result (team_boundedKey (wn_key w)) (\<lambda>key.
     bind_result (team_uniqueStrings 5000 1024 (or_default [] (wn_resources w))) (\<lambda>raw.
     bind_result (map_throw normalizeResourceKey raw) (\<lambda>resources.
     bind_result (boundedText (wn_title w) 16384) (\<lambda>title.
     bind_result (boundedInteger (or_default 0 (wn_priority w)) (-1000) 1000) (\<lambda>priority.
     bind_result (team_uniqueStrings 1000 128 (or_default [] (wn_dependsOn w))) (\<lambda>deps.
     bind_result (team_uniqueStrings 200 256 (or_default [] (wn_allowedCapabilities w))) (\<lambda>caps.
       Inr \<lparr>wi_id = stableWorkItemId (co_sha256 co) missionId key, wi_key = key, wi_title = title, wi_role = wn_role w,
            wi_risk = or_default Read (wn_risk w), wi_priority = priority, wi_dependsOn = deps, wi_resources = resources,
            wi_allowedCapabilities = sort caps, wi_state = WPending, wi_attempts = 0, wi_lease = None, wi_result = None,
            wi_failure = None\<rparr>)))))))"

definition check_work_graph :: "TeamWorkItem list \<Rightarrow> unit result" where
  "check_work_graph items =
     bind_result (require_that (list_all (\<lambda>i. list_all (\<lambda>d. d \<in> set (item_keys items) \<and> d \<noteq> wi_key i) (wi_dependsOn i)) items)
       team_invalid) (\<lambda>_.
     bind_result (team_assertAcyclic items) (\<lambda>_.
     let verifiers = filter (\<lambda>i. wi_role i = RVerifier) items;
         others = map wi_key (filter (\<lambda>i. wi_role i \<noteq> RVerifier) items) in
     bind_result (require_that (verifiers \<noteq> []) (team_error ''TEAM_VERIFIER_REQUIRED'')) (\<lambda>_.
       require_that (list_ex (\<lambda>v. list_all (\<lambda>k. transitivelyDependsOn (wi_key v) k items) others) verifiers)
         (team_error ''TEAM_VERIFIER_COVERAGE_INVALID''))))"

record TeamSubmission =
  sb_missionId :: "string option"
  sb_objective :: string
  sb_workItems :: "TeamWorkInput list"
  sb_budget :: TeamBudgetInput
  sb_intent :: "IntentBinding option"

definition submit_intent :: "TeamCall \<Rightarrow> IntentBinding option \<Rightarrow> IntentBinding option result" where
  "submit_intent ca i =
     (case i of None \<Rightarrow> Inr None
      | Some b \<Rightarrow> bind_result (validIntentBinding b) (\<lambda>b'.
          case ca_intentRegistry ca of None \<Rightarrow> Inl (team_error ''INTENT_ENFORCEMENT_UNAVAILABLE'')
          | Some assertExecutable \<Rightarrow> (case assertExecutable b' of Some e \<Rightarrow> Inl e | None \<Rightarrow> Inr (Some b'))))"

definition submit_mission :: "TeamCoordinator \<Rightarrow> TeamCall \<Rightarrow> TeamSubmission \<Rightarrow> TeamMission result" where
  "submit_mission co ca inp =
     bind_result (boundedText (sb_objective inp) 16384) (\<lambda>objective.
     bind_result (submit_intent ca (sb_intent inp)) (\<lambda>intent.
     bind_result (require_that (1 \<le> length (sb_workItems inp) \<and> length (sb_workItems inp) \<le> 1000) team_invalid) (\<lambda>_.
     bind_result (case sb_missionId inp of None \<Rightarrow> Inr (ca_uuid ca) | Some i \<Rightarrow> validUuid i) (\<lambda>missionId.
     bind_result (map_throw (normalize_work co missionId) (sb_workItems inp)) (\<lambda>items.
     bind_result (require_that (distinct (item_keys items)) team_invalid) (\<lambda>_.
     bind_result (check_work_graph items) (\<lambda>_.
     bind_result (normalizeBudget (sb_budget inp)) (\<lambda>budget.
     let keys = unique_sorted (concat (map wi_resources items)); now = ca_now ca in
       Inr (appendEvent now ''mission.submitted'' None None
         (Some [(''workItems'', JNum (int (length items))), (''resources'', JNum (int (length keys)))])
         \<lparr>tm_version = 1, tm_id = missionId, tm_objective = objective, tm_intent = intent, tm_state = MPending, tm_epoch = 1,
          tm_budget = budget, tm_workers = [],
          tm_resources = map (\<lambda>k. \<lparr>tr_key = k, tr_revision = 0, tr_uncertain = False, tr_updatedAt = now, tr_lock = None\<rparr>) keys,
          tm_workItems = items, tm_blackboard = [], tm_events = [], tm_actionReceipts = [], tm_startedAt = None,
          tm_deadlineAt = None, tm_createdAt = now, tm_updatedAt = now\<rparr>)))))))))"

definition submit_team :: "TeamCoordinator \<Rightarrow> TeamCall \<Rightarrow> TeamSubmission \<Rightarrow> team_store \<Rightarrow> (team_store \<times> TeamMission) result" where
  "submit_team co ca inp st =
     bind_result (submit_mission co ca inp) (\<lambda>m. bind_result (create_mission m st) (\<lambda>st'. Inr (st', m)))"

section \<open>Life of a mission\<close>

definition start_team :: "TeamCall \<Rightarrow> TeamMission \<Rightarrow> TeamMission result" where
  "start_team ca m0 =
     bind_result (assertForwardIntent ca m0) (\<lambda>_.
     bind_result (reapExpired (ca_now ca) m0) (\<lambda>m.
     if tm_state m \<in> {MVerified, MFailed, MCancelled} then Inl (team_error ''TEAM_TERMINAL'')
     else Inr (appendEvent (ca_now ca) ''mission.started'' None None None
       (m\<lparr>tm_state := MRunning, tm_startedAt := Some (or_default (ca_now ca) (tm_startedAt m)),
          tm_deadlineAt := Some (ca_now ca + tb_maxWallClockMs (tm_budget m)), tm_updatedAt := ca_now ca\<rparr>))))"

definition pause_team :: "TeamCall \<Rightarrow> TeamMission \<Rightarrow> TeamMission result" where
  "pause_team ca m0 =
     (if tm_state m0 \<noteq> MRunning \<and> tm_state m0 \<noteq> MBlocked then Inl (team_error ''TEAM_STATE_INVALID'')
      else bind_result (invalidateLiveLeases (ca_now ca) ''pause'' m0) (\<lambda>m.
        Inr (appendEvent (ca_now ca) ''mission.paused'' None None None
          (m\<lparr>tm_epoch := tm_epoch m + 1, tm_state := MPaused, tm_updatedAt := ca_now ca\<rparr>))))"

definition resume_team :: "TeamCall \<Rightarrow> TeamMission \<Rightarrow> TeamMission result" where
  "resume_team ca m =
     bind_result (assertForwardIntent ca m) (\<lambda>_.
     if tm_state m \<noteq> MPaused \<and> tm_state m \<noteq> MBlocked then Inl (team_error ''TEAM_STATE_INVALID'')
     else if list_ex tr_uncertain (tm_resources m) then Inl (team_error ''TEAM_RECONCILIATION_REQUIRED'')
     else Inr (appendEvent (ca_now ca) ''mission.resumed'' None None None
       (m\<lparr>tm_state := MRunning, tm_deadlineAt := Some (ca_now ca + tb_maxWallClockMs (tm_budget m)), tm_updatedAt := ca_now ca\<rparr>)))"

definition cancel_item :: "TeamWorkItem \<Rightarrow> TeamWorkItem" where
  "cancel_item i = (if wi_state i \<in> {WCompleted, WFailed} then i else i\<lparr>wi_state := WCancelled\<rparr>)"

definition cancel_team :: "TeamCall \<Rightarrow> TeamMission \<Rightarrow> TeamMission result" where
  "cancel_team ca m0 =
     (if tm_state m0 \<in> {MVerified, MFailed, MCancelled} then Inr m0
      else bind_result (invalidateLiveLeases (ca_now ca) ''cancel'' m0) (\<lambda>m.
        Inr (appendEvent (ca_now ca) ''mission.cancelled'' None None None
          (m\<lparr>tm_epoch := tm_epoch m + 1, tm_workItems := map cancel_item (tm_workItems m), tm_state := MCancelled,
             tm_updatedAt := ca_now ca\<rparr>))))"

section \<open>Workers and leases\<close>

record TeamRegistration =
  rg_workerId :: "string option"
  rg_role :: TeamRole
  rg_label :: string
  rg_capabilities :: "string list option"

definition registerWorker :: "TeamCall \<Rightarrow> TeamRegistration \<Rightarrow> TeamMission \<Rightarrow> (TeamMission \<times> TeamWorker) result" where
  "registerWorker ca inp m0 =
     bind_result (reapExpired (ca_now ca) m0) (\<lambda>m.
     bind_result (case rg_workerId inp of None \<Rightarrow> Inr (ca_uuid ca) | Some i \<Rightarrow> validUuid i) (\<lambda>i.
     let fields = bind_result (boundedText (rg_label inp) 256) (\<lambda>label.
           bind_result (team_uniqueStrings 200 256 (or_default [] (rg_capabilities inp))) (\<lambda>caps. Inr (label, sort caps)));
         now = ca_now ca;
         announce = (\<lambda>w m. appendEvent now ''worker.registered'' (Some (tw_id w)) None (Some [(''role'', JStr (role_text (tw_role w)))])
           (m\<lparr>tm_updatedAt := now\<rparr>)) in
     case index_of (\<lambda>w. tw_id w = i) (tm_workers m) of
       Some n \<Rightarrow>
         (if tw_state (tm_workers m ! n) = WsRevoked then Inl (team_error ''TEAM_WORKER_REVOKED'')
          else bind_result fields (\<lambda>(label, caps).
            let w = (tm_workers m ! n)\<lparr>tw_role := rg_role inp, tw_label := label, tw_capabilities := caps, tw_heartbeatAt := now,
                  tw_state := WsActive\<rparr>
            in Inr (announce w (with_worker n (\<lambda>_. w) m), w)))
     | None \<Rightarrow>
         (if int (length (tm_workers m)) \<ge> min (tb_maxWorkers (tm_budget m)) 64 then Inl (team_error ''TEAM_WORKER_LIMIT'')
          else bind_result fields (\<lambda>(label, caps).
            let w = \<lparr>tw_id = i, tw_role = rg_role inp, tw_label = label, tw_capabilities = caps, tw_registeredAt = now,
                  tw_heartbeatAt = now, tw_state = WsActive\<rparr>
            in Inr (announce w (m\<lparr>tm_workers := tm_workers m @ [w]\<rparr>), w)))))"

definition extend_lock :: "string \<Rightarrow> int \<Rightarrow> TeamResource \<Rightarrow> TeamResource" where
  "extend_lock leaseId expiresAt r =
     (if locked_by leaseId r then r\<lparr>tr_lock := map_option (\<lambda>l. l\<lparr>lk_expiresAt := expiresAt\<rparr>) (tr_lock r)\<rparr> else r)"

definition beat_resource :: "string \<Rightarrow> int \<Rightarrow> TeamResource \<Rightarrow> TeamResource result" where
  "beat_resource leaseId expiresAt r =
     (if \<not> locked_by leaseId r then Inl (team_error ''TEAM_LEASE_LOST'') else Inr (extend_lock leaseId expiresAt r))"

definition touch_lease :: "int \<Rightarrow> int \<Rightarrow> TeamWorkItem \<Rightarrow> TeamWorkItem" where
  "touch_lease now expiresAt i = i\<lparr>wi_lease := map_option (\<lambda>l. l\<lparr>tl_heartbeatAt := now, tl_expiresAt := expiresAt\<rparr>) (wi_lease i)\<rparr>"

definition heartbeat :: "TeamCall \<Rightarrow> string \<Rightarrow> string option \<Rightarrow> TeamMission \<Rightarrow> TeamMission result" where
  "heartbeat ca workerId leaseIdInput m0 =
     bind_result (reapExpired (ca_now ca) m0) (\<lambda>m1.
     bind_result (requireWorker m1 workerId) (\<lambda>wn.
     let now = ca_now ca; m = with_worker wn (\<lambda>w. w\<lparr>tw_heartbeatAt := now, tw_state := WsActive\<rparr>) m1; w = tm_workers m ! wn in
     bind_result (case truthy leaseIdInput of None \<Rightarrow> Inr m
       | Some raw \<Rightarrow> bind_result (validUuid raw) (\<lambda>leaseId.
           case index_of (\<lambda>i. case wi_lease i of None \<Rightarrow> False | Some l \<Rightarrow> tl_id l = leaseId \<and> tl_workerId l = tw_id w) (tm_workItems m) of
             None \<Rightarrow> Inl (team_error ''TEAM_LEASE_LOST'')
           | Some n \<Rightarrow>
               let expiresAt = now + tb_leaseMs (tm_budget m) in
               bind_result (each_resource (beat_resource leaseId expiresAt) (wi_resources (tm_workItems m ! n)) (tm_resources m)) (\<lambda>rs.
                 Inr ((with_item n (touch_lease now expiresAt) m)\<lparr>tm_resources := rs\<rparr>)))) (\<lambda>m2.
       Inr (m2\<lparr>tm_updatedAt := now\<rparr>))))"

text \<open>Whether an item may be offered to a worker, resources apart; and whether its resources are free.\<close>

definition claimable :: "TeamMission \<Rightarrow> TeamWorker \<Rightarrow> TeamWorkItem \<Rightarrow> bool" where
  "claimable m w i \<longleftrightarrow> wi_state i = WPending
     \<and> (wi_role i = tw_role w \<or> wi_role i = RGeneral \<or> tw_role w = RSupervisor)
     \<and> list_all (\<lambda>k. k \<in> wi_key ` set (filter (\<lambda>j. wi_state j = WCompleted) (tm_workItems m))) (wi_dependsOn i)
     \<and> list_all (\<lambda>c. c \<in> set (tw_capabilities w)) (wi_allowedCapabilities i)"

fun resources_free :: "TeamResource list \<Rightarrow> string list \<Rightarrow> bool result" where
  "resources_free rs [] = Inr True"
| "resources_free rs (k # ks) =
     bind_result (requireResource rs k) (\<lambda>r. if \<not> tr_uncertain r \<and> tr_lock r = None then resources_free rs ks else Inr False)"

definition candidates :: "TeamCoordinator \<Rightarrow> TeamMission \<Rightarrow> TeamWorker \<Rightarrow> nat list result" where
  "candidates co m w =
     (let offered = filter (\<lambda>n. claimable m w (tm_workItems m ! n)) [0..<length (tm_workItems m)] in
      bind_result (map_throw (\<lambda>n. resources_free (tm_resources m) (wi_resources (tm_workItems m ! n))) offered) (\<lambda>free.
        Inr (sort_key (\<lambda>n. (- wi_priority (tm_workItems m ! n), co_collate co (wi_key (tm_workItems m ! n))))
          (map fst (filter snd (zip offered free))))))"

definition live_leases :: "int \<Rightarrow> TeamMission \<Rightarrow> nat" where
  "live_leases now m = length (filter (\<lambda>i. wi_state i = WLeased \<and> (case wi_lease i of None \<Rightarrow> False | Some l \<Rightarrow> tl_expiresAt l > now)) (tm_workItems m))"

definition base_revisions :: "TeamResource list \<Rightarrow> string list \<Rightarrow> (string \<times> int) list result" where
  "base_revisions rs ks = map_sum id (\<lambda>kvs. fold (\<lambda>(k, v) acc. jsmap_set acc k v) kvs [])
     (map_throw (\<lambda>k. bind_result (requireResource rs k) (\<lambda>r. Inr (k, tr_revision r))) ks)"

definition grant_lease :: "TeamCall \<Rightarrow> nat \<Rightarrow> nat \<Rightarrow> TeamMission \<Rightarrow> (TeamMission \<times> TeamWorkItem option) result" where
  "grant_lease ca wn n m =
     (let item = tm_workItems m ! n; w = tm_workers m ! wn; now = ca_now ca; expiresAt = now + tb_leaseMs (tm_budget m) in
      bind_result (base_revisions (tm_resources m) (wi_resources item)) (\<lambda>base.
      let lease = \<lparr>tl_id = ca_uuid ca, tl_workerId = tw_id w, tl_workItemId = wi_id item, tl_epoch = tm_epoch m, tl_acquiredAt = now,
            tl_heartbeatAt = now, tl_expiresAt = expiresAt, tl_baseResourceRevisions = base\<rparr>;
          item' = item\<lparr>wi_attempts := wi_attempts item + 1, wi_lease := Some lease, wi_state := WLeased\<rparr> in
      bind_result (each_resource (\<lambda>r. Inr (r\<lparr>tr_lock := Some \<lparr>lk_leaseId = tl_id lease, lk_workerId = tw_id w,
             lk_workItemId = wi_id item, lk_expiresAt = expiresAt\<rparr>\<rparr>)) (wi_resources item) (tm_resources m)) (\<lambda>rs.
        Inr (appendEvent now ''work.claimed'' (Some (tw_id w)) (Some (wi_id item))
               (Some [(''leaseId'', JStr (tl_id lease)), (''attempt'', JNum (wi_attempts item'))])
               (with_worker wn (\<lambda>w. w\<lparr>tw_heartbeatAt := now\<rparr>)
                 ((with_item n (\<lambda>_. item') m)\<lparr>tm_resources := rs, tm_updatedAt := now\<rparr>)),
             Some item'))))"

definition exhaust_item :: "TeamCall \<Rightarrow> nat \<Rightarrow> nat \<Rightarrow> TeamMission \<Rightarrow> TeamMission" where
  "exhaust_item ca wn n m =
     appendEvent (ca_now ca) ''work.failed'' (Some (tw_id (tm_workers m ! wn))) (Some (wi_id (tm_workItems m ! n)))
       (Some [(''code'', JStr ''TEAM_ATTEMPT_BUDGET_EXHAUSTED'')])
       ((with_item n (\<lambda>i. i\<lparr>wi_state := WFailed, wi_failure := Some \<lparr>tf_code = ''TEAM_ATTEMPT_BUDGET_EXHAUSTED'',
          tf_message = ''Work item exhausted attempt budget.'', tf_at = ca_now ca\<rparr>\<rparr>) m)\<lparr>tm_state := MFailed\<rparr>)"

definition claim :: "TeamCoordinator \<Rightarrow> TeamCall \<Rightarrow> string \<Rightarrow> TeamMission \<Rightarrow> (TeamMission \<times> TeamWorkItem option) result" where
  "claim co ca workerId m0 =
     bind_result (assertForwardIntent ca m0) (\<lambda>_.
     bind_result (reapExpired (ca_now ca) m0) (\<lambda>m1.
     bind_result (ensureMissionRunnable (ca_now ca) m1) (\<lambda>(m, runnable).
     if \<not> runnable then Inr (m, None)
     else bind_result (requireWorker m workerId) (\<lambda>wn.
     let w = tm_workers m ! wn in
     if tw_state w \<noteq> WsActive then Inl (team_error ''TEAM_WORKER_OFFLINE'')
     else if int (live_leases (ca_now ca) m) \<ge> tb_maxConcurrentLeases (tm_budget m) then Inr (m, None)
     else bind_result (candidates co m w) (\<lambda>cs.
     case cs of [] \<Rightarrow> Inr (m, None)
     | n # _ \<Rightarrow>
         if wi_attempts (tm_workItems m ! n) \<ge> tb_maxAttemptsPerWorkItem (tm_budget m)
         then Inr (exhaust_item ca wn n m, None)
         else grant_lease ca wn n m)))))"

section \<open>Blackboard\<close>

record TeamBlackboardInput =
  bo_workerId :: string
  bo_key :: string
  bo_value :: "json option"
  bo_expectedRevision :: "int option"
  bo_workItemId :: "string option"
  bo_leaseId :: "string option"

definition blackboard_lease :: "int \<Rightarrow> TeamMission \<Rightarrow> TeamWorker \<Rightarrow> TeamBlackboardInput \<Rightarrow> unit result" where
  "blackboard_lease now m w inp =
     (if tw_role w = RSupervisor then Inr ()
      else case (truthy (bo_workItemId inp), truthy (bo_leaseId inp)) of
             (Some itemId, Some leaseId) \<Rightarrow>
               bind_result (requireWorkItem m itemId) (\<lambda>n.
               bind_result (requireLease now (tm_workItems m ! n) (tw_id w) leaseId (tm_epoch m)) (\<lambda>_. Inr ()))
           | _ \<Rightarrow> Inl (team_error ''TEAM_BLACKBOARD_LEASE_REQUIRED''))"

definition put_entry ::
  "TeamCoordinator \<Rightarrow> int \<Rightarrow> string \<Rightarrow> string \<Rightarrow> json \<Rightarrow> int option \<Rightarrow> TeamBlackboardEntry list \<Rightarrow> TeamBlackboardEntry list result" where
  "put_entry co now workerId key value expectedRevision board =
     (case find (\<lambda>e. be_key e = key) board of
        Some e \<Rightarrow>
          (if expectedRevision \<noteq> Some (be_revision e) then Inl (team_error ''TEAM_BLACKBOARD_CONFLICT'')
           else Inr (update_first (\<lambda>e. be_key e = key) (\<lambda>e. e\<lparr>be_revision := be_revision e + 1, be_value := value,
                  be_workerId := workerId, be_updatedAt := now\<rparr>) board))
      | None \<Rightarrow>
          (if expectedRevision \<noteq> None \<and> expectedRevision \<noteq> Some 0 then Inl (team_error ''TEAM_BLACKBOARD_CONFLICT'')
           else if length board \<ge> 2000 then Inl (team_error ''TEAM_BLACKBOARD_LIMIT'')
           else Inr (sort_key (\<lambda>e. co_collate co (be_key e))
                  (board @ [\<lparr>be_key = key, be_revision = 1, be_value = value, be_workerId = workerId, be_updatedAt = now\<rparr>]))))"

definition revision_of :: "string \<Rightarrow> TeamBlackboardEntry list \<Rightarrow> int" where
  "revision_of key board = (case find (\<lambda>e. be_key e = key) board of None \<Rightarrow> 0 | Some e \<Rightarrow> be_revision e)"

definition putBlackboard :: "TeamCoordinator \<Rightarrow> TeamCall \<Rightarrow> TeamBlackboardInput \<Rightarrow> TeamMission \<Rightarrow> TeamMission result" where
  "putBlackboard co ca inp m0 =
     bind_result (reapExpired (ca_now ca) m0) (\<lambda>m.
     bind_result (requireWorker m (bo_workerId inp)) (\<lambda>wn.
     let w = tm_workers m ! wn; now = ca_now ca in
     bind_result (blackboard_lease now m w inp) (\<lambda>_.
     bind_result (team_boundedKey (bo_key inp)) (\<lambda>key.
     bind_result (cloneBoundedJson (bo_value inp)) (\<lambda>value.
     bind_result (put_entry co now (tw_id w) key value (bo_expectedRevision inp) (tm_blackboard m)) (\<lambda>board.
       Inr (appendEvent now ''blackboard.updated'' (Some (tw_id w)) (bo_workItemId inp)
         (Some [(''key'', JStr key), (''revision'', JNum (revision_of key board))])
         (m\<lparr>tm_blackboard := board, tm_updatedAt := now\<rparr>))))))))"

section \<open>Actions\<close>

record TeamExecutionInput =
  xi_workerId :: string
  xi_workItemId :: string
  xi_leaseId :: string
  xi_capability :: string
  xi_risk :: ActionRisk
  xi_resourceKeys :: "string list option"

definition assigned_key :: "TeamWorkItem \<Rightarrow> string \<Rightarrow> string option" where
  "assigned_key item key = find (\<lambda>k. hd (canonicalResourceKeys [k]) = key) (rev (wi_resources item))"

definition check_requested :: "TeamMission \<Rightarrow> TeamWorkItem \<Rightarrow> TeamLease \<Rightarrow> string \<Rightarrow> failure option" where
  "check_requested m item lease key =
     (case assigned_key item key of None \<Rightarrow> Some (team_error ''TEAM_RESOURCE_DENIED'')
      | Some assigned \<Rightarrow> (case requireResource (tm_resources m) assigned of Inl e \<Rightarrow> Some e
         | Inr r \<Rightarrow> if tr_uncertain r \<or> \<not> locked_by (tl_id lease) r then Some (team_error ''TEAM_ARTIFACT_CONFLICT'') else None))"

text \<open>A call that stopped at the mission gate still writes the mission and then throws: the left answer.\<close>

definition authorize_held :: "TeamCall \<Rightarrow> TeamExecutionInput \<Rightarrow> TeamMission \<Rightarrow> (TeamMission \<times> TeamWorkItem) result" where
  "authorize_held ca inp m =
     bind_result (requireWorker m (xi_workerId inp)) (\<lambda>wn.
     bind_result (requireWorkItem m (xi_workItemId inp)) (\<lambda>n.
     let w = tm_workers m ! wn; item = tm_workItems m ! n; now = ca_now ca in
     bind_result (requireLease now item (tw_id w) (xi_leaseId inp) (tm_epoch m)) (\<lambda>lease.
     bind_result (boundedText (xi_capability inp) 256) (\<lambda>capability.
     if capability \<notin> set (wi_allowedCapabilities item) \<or> capability \<notin> set (tw_capabilities w)
     then Inl (team_error ''TEAM_CAPABILITY_DENIED'')
     else if xi_risk inp \<noteq> Read \<and> xi_risk inp \<noteq> wi_risk item then Inl (team_error ''TEAM_RISK_DENIED'')
     else bind_result (team_uniqueStrings 5000 1024 (or_default [] (xi_resourceKeys inp))) (\<lambda>raw.
     bind_result (map_throw normalizeResourceKey raw) (\<lambda>keys.
     let requested = canonicalResourceKeys keys in
     case for_all_throw (check_requested m item lease) requested of Some e \<Rightarrow> Inl e
     | None \<Rightarrow>
       if xi_risk inp \<noteq> Read \<and> wi_resources item \<noteq> [] \<and> requested = [] then Inl (team_error ''TEAM_RESOURCE_REQUIRED'')
       else let expiresAt = now + tb_leaseMs (tm_budget m); item' = touch_lease now expiresAt item in
         bind_result (each_resource (\<lambda>r. Inr (extend_lock (tl_id lease) expiresAt r)) (wi_resources item) (tm_resources m)) (\<lambda>rs.
           Inr (appendEvent now ''work.action_authorized'' (Some (tw_id w)) (Some (wi_id item))
                  (Some [(''capability'', JStr capability), (''risk'', JStr (risk_text (xi_risk inp))), (''resources'', JNum (int (length requested)))])
                  (with_worker wn (\<lambda>w. w\<lparr>tw_heartbeatAt := now\<rparr>)
                    ((with_item n (\<lambda>_. item') m)\<lparr>tm_resources := rs, tm_updatedAt := now\<rparr>)),
                item'))))))))"

definition authorizeExecution ::
  "TeamCall \<Rightarrow> TeamExecutionInput \<Rightarrow> TeamMission \<Rightarrow> (TeamMission \<times> TeamWorkItem result) result" where
  "authorizeExecution ca inp m0 =
     bind_result (assertForwardIntent ca m0) (\<lambda>_.
     bind_result (reapExpired (ca_now ca) m0) (\<lambda>m1.
     bind_result (ensureMissionRunnable (ca_now ca) m1) (\<lambda>(m, runnable).
     if \<not> runnable then Inr (m, Inl (team_error (if tm_state m = MBlocked then ''TEAM_RECONCILIATION_REQUIRED'' else ''TEAM_TIMEOUT'')))
     else bind_result (authorize_held ca inp m) (\<lambda>(m', item'). Inr (m', Inr item')))))"

record TeamActionInput =
  ac_workerId :: string
  ac_workItemId :: string
  ac_leaseId :: string
  ac_action :: ActionRequest

datatype team_dispatch = TdDispatch | TdCompleted ActionResult | TdUncertain

definition set_receipt :: "string \<Rightarrow> (TeamActionReceipt \<Rightarrow> TeamActionReceipt) \<Rightarrow> TeamMission \<Rightarrow> TeamMission" where
  "set_receipt actionId f m = m\<lparr>tm_actionReceipts := update_first (\<lambda>r. rp_actionId r = actionId) f (tm_actionReceipts m)\<rparr>"

text \<open>\<open>TdUncertain\<close>: the mission is written and the call throws TEAM_ACTION_RECONCILIATION_REQUIRED.\<close>

definition beginActionExecution ::
  "TeamCoordinator \<Rightarrow> TeamCall \<Rightarrow> TeamActionInput \<Rightarrow> TeamMission \<Rightarrow> (TeamMission \<times> team_dispatch) result" where
  "beginActionExecution co ca inp m =
     (let action = ac_action inp; digest = co_actionDigest co action; now = ca_now ca;
          event = (\<lambda>kind itemId data. appendEvent now kind (Some (ac_workerId inp)) (Some itemId) (Some data)) in
      if aq_intent action \<noteq> tm_intent m then Inl (team_error ''TEAM_INTENT_MISMATCH'')
      else bind_result (requireWorkItem m (ac_workItemId inp)) (\<lambda>n.
      let item = tm_workItems m ! n in
      bind_result (requireLease now item (ac_workerId inp) (ac_leaseId inp) (tm_epoch m)) (\<lambda>_.
      case find (\<lambda>r. rp_actionId r = aq_id action) (tm_actionReceipts m) of
        Some r \<Rightarrow>
          (if rp_missionId r \<noteq> tm_id m \<or> rp_workItemId r \<noteq> wi_id item \<or> rp_workerId r \<noteq> ac_workerId inp
              \<or> rp_leaseId r \<noteq> ac_leaseId inp \<or> rp_actionDigest r \<noteq> digest \<or> rp_capability r \<noteq> aq_capability action
              \<or> rp_risk r \<noteq> aq_risk action
           then Inl (team_error ''TEAM_ACTION_RECEIPT_CONFLICT'')
           else case (rp_state r, rp_result r) of
               (RsCompleted, Some result) \<Rightarrow> Inr (m, TdCompleted result)
             | _ \<Rightarrow>
                 if co_actionJournal co \<and> rp_state r \<noteq> RsCompleted
                 then Inr (event ''work.action_recovery_routed'' (wi_id item) [(''actionId'', JStr (aq_id action))] m, TdDispatch)
                 else if rp_state r = RsDispatching
                 then Inr (event ''work.action_uncertain'' (wi_id item) [(''actionId'', JStr (aq_id action))]
                        (set_receipt (aq_id action) (\<lambda>r. r\<lparr>rp_state := RsUncertain, rp_updatedAt := now\<rparr>) m), TdUncertain)
                 else Inr (m, TdUncertain))
      | None \<Rightarrow>
          (if length (tm_actionReceipts m) \<ge> 4000 then Inl (team_error ''TEAM_ACTION_RECEIPT_LIMIT'')
           else Inr (event ''work.action_dispatching'' (wi_id item)
                  [(''actionId'', JStr (aq_id action)), (''capability'', JStr (aq_capability action))]
                  (m\<lparr>tm_actionReceipts := tm_actionReceipts m @ [\<lparr>rp_missionId = tm_id m, rp_workItemId = wi_id item,
                       rp_workerId = ac_workerId inp, rp_leaseId = ac_leaseId inp, rp_actionId = aq_id action, rp_actionDigest = digest,
                       rp_capability = aq_capability action, rp_risk = aq_risk action, rp_state = RsDispatching,
                       rp_verificationDigest = None, rp_result = None, rp_createdAt = now, rp_updatedAt = now\<rparr>],
                     tm_updatedAt := now\<rparr>), TdDispatch)))))"

definition completeActionExecution ::
  "TeamCoordinator \<Rightarrow> TeamCall \<Rightarrow> TeamActionInput \<Rightarrow> ActionResult \<Rightarrow> TeamMission \<Rightarrow> TeamMission result" where
  "completeActionExecution co ca inp result m =
     (let action = ac_action inp; digest = co_actionDigest co action; verification = kernelVerificationDigest result; now = ca_now ca;
          event = (\<lambda>kind data. appendEvent now kind (Some (ac_workerId inp)) (Some (ac_workItemId inp)) (Some data)) in
      if ar_ok result \<and> co_requireKernelVerification co \<and> verification = None
      then Inl (team_error ''TEAM_KERNEL_VERIFICATION_REQUIRED'')
      else case find (\<lambda>r. rp_actionId r = aq_id action) (tm_actionReceipts m) of
        None \<Rightarrow> Inl (team_error ''TEAM_ACTION_RECEIPT_CONFLICT'')
      | Some r \<Rightarrow>
          if rp_workItemId r \<noteq> ac_workItemId inp \<or> rp_workerId r \<noteq> ac_workerId inp \<or> rp_leaseId r \<noteq> ac_leaseId inp
             \<or> rp_actionDigest r \<noteq> digest
          then Inl (team_error ''TEAM_ACTION_RECEIPT_CONFLICT'')
          else if rp_state r = RsUncertain \<and> \<not> co_actionJournal co then Inl (team_error ''TEAM_ACTION_RECONCILIATION_REQUIRED'')
          else if rp_state r = RsCompleted then Inr m
          else if \<not> ar_ok result \<and> Option.bind (ar_error result) ae_sideEffectState = Some SeUncertain
          then Inr (event ''work.action_uncertain'' [(''actionId'', JStr (aq_id action))]
                 ((set_receipt (aq_id action) (\<lambda>r. r\<lparr>rp_result := Some result, rp_updatedAt := now, rp_state := RsUncertain\<rparr>) m)
                   \<lparr>tm_updatedAt := now\<rparr>))
          else Inr (event ''work.action_completed'' [(''actionId'', JStr (aq_id action)), (''ok'', JBool (ar_ok result))]
                 ((set_receipt (aq_id action) (\<lambda>r. r\<lparr>rp_result := Some result, rp_updatedAt := now, rp_state := RsCompleted,
                     rp_verificationDigest := (case verification of None \<Rightarrow> rp_verificationDigest r | Some d \<Rightarrow> Some d)\<rparr>) m)
                   \<lparr>tm_updatedAt := now\<rparr>)))"

definition degrade_result :: "int \<Rightarrow> string \<Rightarrow> ActionResult \<Rightarrow> ActionResult" where
  "degrade_result now code result = result\<lparr>ar_evidence := ar_evidence result @ [\<lparr>ev_kind = ''audit_persistence'', ev_status = EvFail,
     ev_message = ''The action result is authoritative, but its post-execution audit record could not be persisted.'',
     ev_data = Some [(''code'', JStr code)], ev_timestamp = now\<rparr>]\<rparr>"

definition recordActionAuditFailure :: "TeamCall \<Rightarrow> string \<Rightarrow> ActionResult \<Rightarrow> string \<Rightarrow> TeamMission \<Rightarrow> (TeamMission \<times> ActionResult) result" where
  "recordActionAuditFailure ca actionId result code m =
     (let degraded = degrade_result (ca_now ca) code result; now = ca_now ca;
          completed = (\<lambda>r. rp_actionId r = actionId \<and> rp_state r = RsCompleted) in
      case find completed (tm_actionReceipts m) of
        None \<Rightarrow> Inl (team_error ''TEAM_ACTION_RECEIPT_NOT_FOUND'')
      | Some r \<Rightarrow> Inr (appendEvent now ''work.action_audit_degraded'' (Some (rp_workerId r)) (Some (rp_workItemId r))
            (Some [(''actionId'', JStr actionId), (''code'', JStr code)])
            (m\<lparr>tm_actionReceipts := update_first completed (\<lambda>r. r\<lparr>rp_result := Some degraded, rp_updatedAt := now\<rparr>) (tm_actionReceipts m),
               tm_updatedAt := now\<rparr>), degraded))"

section \<open>Completing, failing and reconciling work\<close>

record TeamCompletionInput =
  cm_workerId :: string
  cm_workItemId :: string
  cm_leaseId :: string
  cm_summary :: string
  cm_evidence :: "TeamEvidence list option"
  cm_verificationPassed :: "bool option"
  cm_worldObservationDigest :: "string option"

text \<open>What the agent kernel's canonical verification returns: the request and its checks.\<close>

type_synonym canonical_verification = "json \<times> VerificationCheck list"

definition teamVerificationStateDigest :: "TeamCoordinator \<Rightarrow> TeamMission \<Rightarrow> string \<Rightarrow> string" where
  "teamVerificationStateDigest co m verifierId =
     co_stateDigest co \<lparr>sv_missionId = tm_id m, sv_epoch = tm_epoch m, sv_state = tm_state m, sv_intent = tm_intent m,
       sv_verifierWorkItemId = verifierId, sv_workItems = map (\<lambda>i. i\<lparr>wi_title := [], wi_priority := 0\<rparr>) (tm_workItems m),
       sv_resources = tm_resources m, sv_actionReceipts = tm_actionReceipts m\<rparr>"

definition check_base_revision :: "TeamMission \<Rightarrow> TeamLease \<Rightarrow> string \<times> int \<Rightarrow> failure option" where
  "check_base_revision m lease = (\<lambda>(k, base).
     case requireResource (tm_resources m) k of Inl e \<Rightarrow> Some e
     | Inr r \<Rightarrow> if tr_uncertain r \<or> \<not> locked_by (tl_id lease) r \<or> tr_revision r \<noteq> base
         then Some (team_error ''TEAM_ARTIFACT_CONFLICT'') else None)"

text \<open>The worker, the item and its lease, with every locked resource unchanged since the lease was granted.\<close>

definition held_work :: "int \<Rightarrow> TeamCompletionInput \<Rightarrow> TeamMission \<Rightarrow> (nat \<times> nat \<times> TeamLease) result" where
  "held_work now inp m =
     bind_result (requireWorker m (cm_workerId inp)) (\<lambda>wn.
     bind_result (requireWorkItem m (cm_workItemId inp)) (\<lambda>n.
     bind_result (requireLease now (tm_workItems m ! n) (tw_id (tm_workers m ! wn)) (cm_leaseId inp) (tm_epoch m)) (\<lambda>lease.
       case for_all_throw (check_base_revision m lease) (tl_baseResourceRevisions lease) of Some e \<Rightarrow> Inl e
       | None \<Rightarrow> Inr (wn, n, lease))))"

text \<open>
  The part before the transaction, on the mission read at that time: the canonical verification of a verifier
  item, and the digest of the state it verified.
\<close>

definition complete_prepare ::
  "TeamCoordinator \<Rightarrow> int \<Rightarrow> TeamCompletionInput \<Rightarrow> canonical_verification result \<Rightarrow> TeamMission
   \<Rightarrow> (canonical_verification \<times> string) option result" where
  "complete_prepare co now inp canonical before =
     (if \<not> co_requireKernelVerification co then Inr None
      else bind_result (validateMission before) (\<lambda>b0.
      bind_result (reapExpired now b0) (\<lambda>b.
      bind_result (held_work now inp b) (\<lambda>(wn, n, lease).
      let item = tm_workItems b ! n in
      if wi_role item \<noteq> RVerifier then Inr None
      else if \<not> co_kernelAvailable co then Inl (team_error ''TEAM_CANONICAL_VERIFICATION_UNAVAILABLE'')
      else bind_result canonical (\<lambda>cv. Inr (Some (cv, teamVerificationStateDigest co b (wi_id item))))))))"

definition covered_items :: "TeamMission \<Rightarrow> TeamWorkItem \<Rightarrow> TeamWorkItem list" where
  "covered_items m item =
     filter (\<lambda>c. wi_id c \<noteq> wi_id item \<and> transitivelyDependsOn (wi_key item) (wi_key c) (tm_workItems m)) (tm_workItems m)"

definition completed_actions :: "TeamMission \<Rightarrow> TeamWorkItem list \<Rightarrow> TeamActionReceipt list" where
  "completed_actions m covered =
     filter (\<lambda>r. rp_state r = RsCompleted \<and> (case rp_result r of None \<Rightarrow> False | Some x \<Rightarrow> ar_ok x))
       (filter (\<lambda>r. rp_workItemId r \<in> wi_id ` set covered) (tm_actionReceipts m))"

definition team_check :: "string \<Rightarrow> bool \<Rightarrow> string \<Rightarrow> VerificationCheck" where
  "team_check name ok detail = \<lparr>vc_name = name, vc_ok = ok, vc_detail = detail, vc_evidenceDigests = None\<rparr>"

definition team_checks ::
  "TeamCoordinator \<Rightarrow> TeamMission \<Rightarrow> TeamWorkItem \<Rightarrow> canonical_verification option \<Rightarrow> VerificationCheck list" where
  "team_checks co m item canonical =
     (let kernel = co_requireKernelVerification co; covered = covered_items m item; actions = completed_actions m covered;
          all_done = list_all (\<lambda>c. wi_state c = WCompleted) covered;
          backed = list_all (\<lambda>c. wi_allowedCapabilities c = [] \<or> list_ex (\<lambda>a. rp_workItemId a = wi_id c) actions) covered;
          evidence = list_all (\<lambda>a. case rp_result a of None \<Rightarrow> False | Some x \<Rightarrow> list_ex (\<lambda>e. ev_status e = EvPass) (ar_evidence x)) actions;
          observed = (case canonical of None \<Rightarrow> False
            | Some (req, cs) \<Rightarrow> cs \<noteq> [] \<and> list_all (\<lambda>c. vc_ok c \<and> length (or_default [] (vc_evidenceDigests c)) \<ge> 3) cs);
          proofs = list_all (\<lambda>a. truthy (rp_verificationDigest a) \<noteq> None) actions;
          certain = list_all (\<lambda>r. \<not> tr_uncertain r) (tm_resources m) in
      [team_check ''covered-work-completed'' all_done
         (if all_done then ''Every work item covered by this verifier is durably completed.'' else ''Verifier coverage contains incomplete work.''),
       team_check ''covered-work-action-backed'' (\<not> kernel \<or> backed)
         (if \<not> kernel then ''Legacy coordinator mode permits caller-supplied completion evidence; production mode requires action-backed work.''
          else if backed then ''Every covered work item that declares executable capabilities has a durable successful action receipt.''
          else ''One or more executable covered work items has no successful durable action receipt.''),
       team_check ''covered-action-evidence'' (\<not> kernel \<or> evidence)
         (if \<not> kernel then ''Legacy coordinator mode permits caller-supplied completion evidence.''
          else if evidence then ''Every successful covered action has passing provider evidence.''
          else ''One or more successful covered actions lacks passing provider evidence.''),
       team_check ''verifier-observation-evidence'' (\<not> kernel \<or> observed)
         (if \<not> kernel then ''Legacy coordinator mode permits direct verifier completion for isolated scheduling tests.''
          else if observed then ''The verifier has durable passing evidence from its own fresh read-only observation action.''
          else ''The verifier has no durable passing read-only observation action.''),
       team_check ''kernel-action-proofs'' (\<not> kernel \<or> proofs)
         (if \<not> kernel then ''Legacy team mode does not require Agent Kernel action proofs.''
          else if proofs then ''Every successful covered action is bound to an Agent Kernel verification digest; fresh verifier probes carry their own kernel proofs.''
          else ''One or more successful covered/verifier actions lacks an Agent Kernel verification digest.''),
       team_check ''resources-certain'' certain
         (if certain then ''No mission resource has unresolved uncertain side effects.'' else ''Mission still contains an uncertain resource.'')]
      @ (case canonical of None \<Rightarrow> [] | Some (req, cs) \<Rightarrow> cs))"

definition team_contract :: "TeamMission \<Rightarrow> TeamWorkItem \<Rightarrow> canonical_verification option \<Rightarrow> TeamContract" where
  "team_contract m item canonical =
     (let covered = covered_items m item in
      \<lparr>ct_missionId = tm_id m, ct_verifierWorkItemId = wi_id item,
       ct_coveredWorkItems = map (\<lambda>c. (wi_id c, wi_key c, wi_state c, wi_risk c, wi_attempts c)) covered,
       ct_completedActionDigests = sort (map rp_actionDigest (completed_actions m covered)),
       ct_verificationRequest = map_option fst canonical\<rparr>)"

definition verify_work ::
  "TeamCoordinator \<Rightarrow> TeamCompletionInput \<Rightarrow> (canonical_verification \<times> string) option \<Rightarrow> TeamMission \<Rightarrow> TeamWorkItem \<Rightarrow> string option result" where
  "verify_work co inp prepared m item =
     (let kernel = co_requireKernelVerification co in
      if wi_role item \<noteq> RVerifier then Inr None
      else if \<not> kernel \<and> cm_verificationPassed inp \<noteq> Some True then Inl (team_error ''TEAM_VERIFICATION_REQUIRED'')
      else if kernel \<and> (case prepared of None \<Rightarrow> True | Some (cv, d) \<Rightarrow> d \<noteq> teamVerificationStateDigest co m (wi_id item))
      then Inl (team_error ''TEAM_VERIFICATION_STATE_CHANGED'')
      else let canonical = map_option fst prepared in
        bind_result (verify (co_contractDigest co) (co_receiptDigest co) (co_collate co) ''team-verifier'' (tm_id m @ '':'' @ wi_id item)
            (team_contract m item canonical) (team_checks co m item canonical)) (\<lambda>receipt.
          if \<not> vb_verified (vk_body receipt) then Inl (team_error ''TEAM_VERIFICATION_REQUIRED'') else Inr (Some (vk_digest receipt))))"

definition check_world_observation :: "TeamCoordinator \<Rightarrow> TeamCompletionInput \<Rightarrow> TeamWorkItem \<Rightarrow> unit result" where
  "check_world_observation co inp item =
     (case cm_worldObservationDigest inp of None \<Rightarrow> Inr ()
      | Some d \<Rightarrow>
          if wi_role item \<noteq> RVerifier \<or> \<not> co_requireKernelVerification co \<and> cm_verificationPassed inp \<noteq> Some True
          then Inl (team_error ''TEAM_WORLD_OBSERVATION_DENIED'')
          else require_that (hex64 d) team_invalid)"

definition release_resource :: "int \<Rightarrow> TeamWorkItem \<Rightarrow> TeamResource \<Rightarrow> TeamResource" where
  "release_resource now item r =
     r\<lparr>tr_revision := (if wi_risk item \<noteq> Read then tr_revision r + 1 else tr_revision r), tr_lock := None, tr_updatedAt := now\<rparr>"

definition complete_commit ::
  "TeamCoordinator \<Rightarrow> int \<Rightarrow> TeamCompletionInput \<Rightarrow> (canonical_verification \<times> string) option \<Rightarrow> TeamMission \<Rightarrow> TeamMission result" where
  "complete_commit co now inp prepared m0 =
     bind_result (reapExpired now m0) (\<lambda>m.
     bind_result (held_work now inp m) (\<lambda>(wn, n, lease).
     let item = tm_workItems m ! n; w = tm_workers m ! wn in
     bind_result (verify_work co inp prepared m item) (\<lambda>digest.
     bind_result (check_world_observation co inp item) (\<lambda>_.
     bind_result (boundedText (cm_summary inp) 65536) (\<lambda>summary.
     bind_result (validateEvidence (or_default [] (cm_evidence inp))) (\<lambda>evidence.
     let result = \<lparr>wr_summary = summary, wr_evidence = evidence,
           wr_verificationPassed = (if wi_role item = RVerifier then Some True else None),
           wr_verificationDigest = (if wi_role item = RVerifier then truthy digest else None),
           wr_worldObservationDigest = map_option to_lower (truthy (cm_worldObservationDigest inp)),
           wr_completedAt = now, wr_workerId = tw_id w\<rparr> in
     bind_result (each_resource (\<lambda>r. Inr (release_resource now item r)) (wi_resources item) (tm_resources m)) (\<lambda>rs.
       Inr (finalizeIfVerified now (appendEvent now ''work.completed'' (Some (tw_id w)) (Some (wi_id item))
         (Some [(''risk'', JStr (risk_text (wi_risk item)))])
         (with_worker wn (\<lambda>w. w\<lparr>tw_heartbeatAt := now\<rparr>)
           ((with_item n (\<lambda>i. i\<lparr>wi_result := Some result, wi_state := WCompleted, wi_lease := None\<rparr>) m)
              \<lparr>tm_resources := rs, tm_updatedAt := now\<rparr>)))))))))))"

text \<open>
  The whole call: \<open>before\<close> is the mission as read at \<open>earlier\<close>, which other coordinators may have changed
  since; the transaction works on the mission \<open>m\<close> as it is then.
\<close>

definition complete_team ::
  "TeamCoordinator \<Rightarrow> TeamCall \<Rightarrow> TeamCompletionInput \<Rightarrow> int \<Rightarrow> TeamMission \<Rightarrow> canonical_verification result \<Rightarrow> TeamMission \<Rightarrow> TeamMission result" where
  "complete_team co ca inp earlier before canonical m =
     bind_result (complete_prepare co earlier inp canonical before) (\<lambda>prepared. complete_commit co (ca_now ca) inp prepared m)"

record TeamFailureInput =
  fi_workerId :: string
  fi_workItemId :: string
  fi_leaseId :: string
  fi_code :: string
  fi_message :: string
  fi_sideEffectState :: SideEffectState
  fi_retryable :: "bool option"

definition fail_resource :: "int \<Rightarrow> TeamWorkItem \<Rightarrow> string \<Rightarrow> SideEffectState \<Rightarrow> TeamResource \<Rightarrow> TeamResource" where
  "fail_resource now item leaseId se r =
     (let r1 = unlock leaseId r; r2 = (if se = SeUncertain then r1\<lparr>tr_uncertain := True\<rparr> else r1);
          r3 = (if se = SeKnown \<and> wi_risk item \<noteq> Read then r2\<lparr>tr_revision := tr_revision r2 + 1\<rparr> else r2)
      in r3\<lparr>tr_updatedAt := now\<rparr>)"

definition fail_team :: "TeamCall \<Rightarrow> TeamFailureInput \<Rightarrow> TeamMission \<Rightarrow> TeamMission result" where
  "fail_team ca inp m0 =
     bind_result (reapExpired (ca_now ca) m0) (\<lambda>m.
     bind_result (requireWorker m (fi_workerId inp)) (\<lambda>wn.
     bind_result (requireWorkItem m (fi_workItemId inp)) (\<lambda>n.
     let item = tm_workItems m ! n; w = tm_workers m ! wn; now = ca_now ca; se = fi_sideEffectState inp in
     bind_result (requireLease now item (tw_id w) (fi_leaseId inp) (tm_epoch m)) (\<lambda>lease.
     bind_result (team_boundedKey (fi_code inp)) (\<lambda>code.
     bind_result (boundedText (fi_message inp) 65536) (\<lambda>message.
     bind_result (each_resource (\<lambda>r. Inr (fail_resource now item (tl_id lease) se r)) (wi_resources item) (tm_resources m)) (\<lambda>rs.
     let safeRetry = (fi_retryable inp = Some True \<and> se = SeNone \<and> wi_attempts item < tb_maxAttemptsPerWorkItem (tm_budget m)) in
       Inr (appendEvent now ''work.failed'' (Some (tw_id w)) (Some (wi_id item))
         (Some [(''code'', JStr code), (''sideEffectState'', JStr (side_effect_text se)), (''retrying'', JBool safeRetry)])
         ((with_item n (\<lambda>i. i\<lparr>wi_lease := None, wi_failure := Some \<lparr>tf_code = code, tf_message = message, tf_at = now\<rparr>,
              wi_state := (if se = SeUncertain then WNeedsReconciliation else if safeRetry then WPending else WFailed)\<rparr>) m)
            \<lparr>tm_resources := rs, tm_updatedAt := now,
             tm_state := (if se = SeUncertain then MBlocked else if \<not> safeRetry then MFailed else tm_state m)\<rparr>)))))))))"

datatype team_resolution = ResCompleted | ResRetry | ResFailed

primrec resolution_text :: "team_resolution \<Rightarrow> string" where
  "resolution_text ResCompleted = ''completed''" | "resolution_text ResRetry = ''retry''" | "resolution_text ResFailed = ''failed''"

record TeamReconcileInput =
  ri_workerId :: string
  ri_workItemId :: string
  ri_resolution :: team_resolution
  ri_summary :: string
  ri_evidence :: "TeamEvidence list option"

definition reconcile_resource :: "int \<Rightarrow> TeamResource \<Rightarrow> TeamResource" where
  "reconcile_resource now r = r\<lparr>tr_uncertain := False, tr_revision := tr_revision r + 1, tr_lock := None, tr_updatedAt := now\<rparr>"

definition resolve_item ::
  "int \<Rightarrow> string \<Rightarrow> TeamReconcileInput \<Rightarrow> TeamEvidence list \<Rightarrow> int \<Rightarrow> TeamWorkItem \<Rightarrow> TeamWorkItem result" where
  "resolve_item now workerId inp evidence maxAttempts item =
     (case ri_resolution inp of
        ResCompleted \<Rightarrow> bind_result (boundedText (ri_summary inp) 65536) (\<lambda>summary.
          Inr (item\<lparr>wi_state := WCompleted, wi_result := Some \<lparr>wr_summary = summary, wr_evidence = evidence, wr_verificationPassed = None,
            wr_verificationDigest = None, wr_worldObservationDigest = None, wr_completedAt = now, wr_workerId = workerId\<rparr>\<rparr>))
      | ResRetry \<Rightarrow>
          if wi_attempts item \<ge> maxAttempts then Inl (team_error ''TEAM_ATTEMPT_BUDGET_EXHAUSTED'')
          else Inr (item\<lparr>wi_state := WPending, wi_failure := None\<rparr>)
      | ResFailed \<Rightarrow> bind_result (boundedText (ri_summary inp) 65536) (\<lambda>summary.
          Inr (item\<lparr>wi_state := WFailed, wi_failure := Some \<lparr>tf_code = ''TEAM_RECONCILIATION_FAILED'', tf_message = summary, tf_at = now\<rparr>\<rparr>)))"

definition reconcile_team :: "TeamCoordinator \<Rightarrow> TeamCall \<Rightarrow> TeamReconcileInput \<Rightarrow> TeamMission \<Rightarrow> TeamMission result" where
  "reconcile_team co ca inp m =
     bind_result (requireWorker m (ri_workerId inp)) (\<lambda>wn.
     let w = tm_workers m ! wn; now = ca_now ca in
     if tw_role w \<noteq> RSupervisor \<and> tw_role w \<noteq> RVerifier then Inl (team_error ''TEAM_RECONCILIATION_DENIED'')
     else bind_result (requireWorkItem m (ri_workItemId inp)) (\<lambda>n.
     let item = tm_workItems m ! n in
     if wi_state item \<noteq> WNeedsReconciliation then Inl (team_error ''TEAM_RECONCILIATION_INVALID'')
     else if co_requireKernelVerification co \<and> ri_resolution inp \<noteq> ResFailed then Inl (team_error ''TEAM_CANONICAL_RECONCILIATION_REQUIRED'')
     else bind_result (validateEvidence (or_default [] (ri_evidence inp))) (\<lambda>evidence.
     bind_result (if co_requireKernelVerification co then Inr (tm_resources m)
                  else each_resource (\<lambda>r. Inr (reconcile_resource now r)) (wi_resources item) (tm_resources m)) (\<lambda>rs.
     bind_result (resolve_item now (tw_id w) inp evidence (tb_maxAttemptsPerWorkItem (tm_budget m)) item) (\<lambda>item'.
     let m1 = appendEvent now ''work.reconciled'' (Some (tw_id w)) (Some (wi_id item)) (Some [(''resolution'', JStr (resolution_text (ri_resolution inp)))])
           ((with_item n (\<lambda>_. item') m)\<lparr>tm_resources := rs, tm_updatedAt := now,
              tm_state := (if ri_resolution inp = ResFailed then MFailed else tm_state m)\<rparr>);
         m2 = (if tm_state m1 = MBlocked \<and> \<not> list_ex tr_uncertain (tm_resources m1) then m1\<lparr>tm_state := MRunning\<rparr> else m1)
     in Inr (finalizeIfVerified now m2))))))"

definition revokeWorker :: "TeamCall \<Rightarrow> string \<Rightarrow> TeamMission \<Rightarrow> TeamMission result" where
  "revokeWorker ca workerId m =
     bind_result (requireWorker m workerId) (\<lambda>wn.
     let now = ca_now ca; i = tw_id (tm_workers m ! wn) in
     bind_result (expire_where now ''worker_revoked'' (\<lambda>item. map_option tl_workerId (wi_lease item) = Some i)
         (with_worker wn (\<lambda>w. w\<lparr>tw_state := WsRevoked, tw_heartbeatAt := now\<rparr>) m)) (\<lambda>m'.
       Inr (appendEvent now ''worker.revoked'' (Some i) None None (m'\<lparr>tm_updatedAt := now\<rparr>))))"

section \<open>The coordinator as one step function\<close>

datatype team_op =
    TStart TeamCall
  | TPause TeamCall
  | TResume TeamCall
  | TCancel TeamCall
  | TRegister TeamCall TeamRegistration
  | THeartbeat TeamCall string "string option"
  | TClaim TeamCall string
  | TPut TeamCall TeamBlackboardInput
  | TAuthorize TeamCall TeamExecutionInput
  | TBegin TeamCall TeamActionInput
  | TFinish TeamCall TeamActionInput ActionResult
  | TAuditFailure TeamCall string ActionResult string
  | TComplete TeamCall TeamCompletionInput int TeamMission "canonical_verification result"
  | TFail TeamCall TeamFailureInput
  | TReconcile TeamCall TeamReconcileInput
  | TRevoke TeamCall string

primrec mission_step :: "TeamCoordinator \<Rightarrow> TeamMission \<Rightarrow> team_op \<Rightarrow> TeamMission result" where
  "mission_step co m (TStart ca) = start_team ca m"
| "mission_step co m (TPause ca) = pause_team ca m"
| "mission_step co m (TResume ca) = resume_team ca m"
| "mission_step co m (TCancel ca) = cancel_team ca m"
| "mission_step co m (TRegister ca inp) = map_sum id fst (registerWorker ca inp m)"
| "mission_step co m (THeartbeat ca w l) = heartbeat ca w l m"
| "mission_step co m (TClaim ca w) = map_sum id fst (claim co ca w m)"
| "mission_step co m (TPut ca inp) = putBlackboard co ca inp m"
| "mission_step co m (TAuthorize ca inp) = map_sum id fst (authorizeExecution ca inp m)"
| "mission_step co m (TBegin ca inp) = map_sum id fst (beginActionExecution co ca inp m)"
| "mission_step co m (TFinish ca inp r) = completeActionExecution co ca inp r m"
| "mission_step co m (TAuditFailure ca i r c) = map_sum id fst (recordActionAuditFailure ca i r c m)"
| "mission_step co m (TComplete ca inp earlier before canonical) = complete_team co ca inp earlier before canonical m"
| "mission_step co m (TFail ca inp) = fail_team ca inp m"
| "mission_step co m (TReconcile ca inp) = reconcile_team co ca inp m"
| "mission_step co m (TRevoke ca w) = revokeWorker ca w m"

text \<open>A step of the store: a new mission, or an operation on one of its missions as one transaction.\<close>

datatype team_event = TSubmit TeamCall TeamSubmission | TOperate string team_op

primrec team_step :: "TeamCoordinator \<Rightarrow> team_store \<Rightarrow> team_event \<Rightarrow> team_store result" where
  "team_step co st (TSubmit ca inp) = map_sum id fst (submit_team co ca inp st)"
| "team_step co st (TOperate i op) =
     map_sum id fst (update_mission i (\<lambda>m. map_sum id (\<lambda>m'. (m', ())) (mission_step co m op)) st)"

end
