(* ===== verification/TeamInv.thy ===== *)
theory TeamInv
  imports TeamModel
begin

text \<open>
  Invariants of a team mission: every lease holds the locks of its resources and nobody else does, work only
  starts after its dependencies, and the budget is respected. A handful of atomic changes of the work items and
  resources keep them; every operation of the coordinator is a sequence of such changes.
\<close>

section \<open>Loops over resources\<close>

lemma requireResource_Inr: "requireResource rs k = Inr r \<longleftrightarrow> find_resource rs k = Some r"
  by (auto simp: requireResource_def split: option.splits)

lemma find_resource_SomeD: "find_resource rs k = Some r \<Longrightarrow> r \<in> set rs \<and> tr_key r = k"
  unfolding find_resource_def by (drule find_SomeD) simp

lemma find_resource_iff: "distinct (map tr_key rs) \<Longrightarrow> find_resource rs k = Some r \<longleftrightarrow> r \<in> set rs \<and> tr_key r = k"
  unfolding find_resource_def by (rule find_Some_iff_distinct)

text \<open>What one pass does to each resource: those in the list changed once or more, the others not at all.\<close>

definition touched :: "(TeamResource \<Rightarrow> TeamResource result) \<Rightarrow> string list \<Rightarrow> TeamResource \<Rightarrow> TeamResource \<Rightarrow> bool" where
  "touched f ks r r' \<longleftrightarrow> (if tr_key r \<in> set ks then (\<lambda>a b. f a = Inr b)\<^sup>+\<^sup>+ r r' else r' = r)"

lemma touched_inv:
  assumes "touched f ks r r'" "tr_key r \<in> set ks" "\<And>b. f r = Inr b \<Longrightarrow> Q b" "\<And>a b. Q a \<Longrightarrow> f a = Inr b \<Longrightarrow> Q b"
  shows "Q r'"
proof -
  have "(\<lambda>a b. f a = Inr b)\<^sup>+\<^sup>+ r r'" using assms(1,2) by (simp add: touched_def)
  then show ?thesis by (induction rule: tranclp_induct) (auto intro: assms(3,4))
qed

lemma each_resource_touched:
  assumes "each_resource f ks rs = Inr rs'" "distinct (map tr_key rs)" "\<And>a b. f a = Inr b \<Longrightarrow> tr_key b = tr_key a"
  shows "list_all2 (\<lambda>r r'. tr_key r' = tr_key r \<and> touched f ks r r') rs rs'"
  using assms(1,2)
proof (induction ks arbitrary: rs)
  case Nil
  then show ?case by (simp add: each_resource_def touched_def list_all2_refl)
next
  case (Cons k ks)
  from Cons.prems(1) obtain r r1 where r: "find_resource rs k = Some r" "f r = Inr r1"
    and rest: "each_resource f ks (update_first (\<lambda>x. tr_key x = k) (\<lambda>_. r1) rs) = Inr rs'"
    by (auto simp: each_resource_def bind_result_Inr requireResource_Inr)
  let ?u = "map (\<lambda>x. if tr_key x = k then r1 else x) rs"
  have u: "update_first (\<lambda>x. tr_key x = k) (\<lambda>_. r1) rs = ?u" by (rule update_first_distinct [OF Cons.prems(2)])
  have rk: "r \<in> set rs" "tr_key r = k" "tr_key r1 = k" using find_resource_SomeD [OF r(1)] assms(3) [OF r(2)] by auto
  then have keys: "map tr_key ?u = map tr_key rs" by (auto simp: fun_eq_iff)
  have "distinct (map tr_key ?u)" using Cons.prems(2) keys by (simp only:)
  from Cons.IH [OF rest [unfolded u] this]
  have IH: "list_all2 (\<lambda>r r'. tr_key r' = tr_key r \<and> touched f ks r r') ?u rs'" .
  show ?case
  proof (rule list_all2_all_nthI)
    show "length rs = length rs'" using IH by (auto dest: list_all2_lengthD)
  next
    fix i assume i: "i < length rs"
    have "tr_key (rs' ! i) = tr_key (?u ! i) \<and> touched f ks (?u ! i) (rs' ! i)" using list_all2_nthD [OF IH, of i] i by simp
    moreover have "rs ! i = r" if "tr_key (rs ! i) = k"
      using that rk i Cons.prems(2) by (metis distinct_map inj_on_def nth_mem)
    ultimately show "tr_key (rs' ! i) = tr_key (rs ! i) \<and> touched f (k # ks) (rs ! i) (rs' ! i)"
      using i rk r(2) by (auto simp: touched_def split: if_splits intro: tranclp_into_tranclp2)
  qed
qed

lemma each_resource_total:
  assumes "set ks \<subseteq> tr_key ` set rs" "\<And>r. tr_key (g r) = tr_key r"
  shows "\<exists>rs'. each_resource (\<lambda>r. Inr (g r)) ks rs = Inr rs'"
  using assms(1)
proof (induction ks arbitrary: rs)
  case (Cons k ks)
  then obtain r where r: "find_resource rs k = Some r" unfolding find_resource_def
    by (cases "find (\<lambda>r. tr_key r = k) rs") (auto simp: find_None_iff)
  let ?u = "update_first (\<lambda>x. tr_key x = k) (\<lambda>_. g r) rs"
  have "map tr_key ?u = map tr_key rs"
  proof -
    have "tr_key (g r) = k" using find_resource_SomeD [OF r] assms(2) by simp
    then show ?thesis by (induction rs) auto
  qed
  then have "tr_key ` set ?u = tr_key ` set rs" by (metis list.set_map)
  with Cons.IH [of ?u] Cons.prems r show ?case
    by (auto simp: each_resource_def requireResource_def bind_result_Inr_left)
qed (simp add: each_resource_def)

section \<open>The invariant\<close>

definition lease_matches_state :: "TeamWorkItem list \<Rightarrow> bool" where
  "lease_matches_state items \<longleftrightarrow> (\<forall>i\<in>set items. wi_lease i \<noteq> None \<longleftrightarrow> wi_state i = WLeased)"

definition lease_holds_locks :: "TeamResource list \<Rightarrow> TeamWorkItem list \<Rightarrow> bool" where
  "lease_holds_locks rs items \<longleftrightarrow> (\<forall>i\<in>set items. \<forall>l. wi_lease i = Some l \<longrightarrow>
     (\<forall>r\<in>set rs. tr_key r \<in> set (wi_resources i) \<longrightarrow> locked_by (tl_id l) r \<and> \<not> tr_uncertain r))"

definition lock_has_lease :: "TeamResource list \<Rightarrow> TeamWorkItem list \<Rightarrow> bool" where
  "lock_has_lease rs items \<longleftrightarrow> (\<forall>r\<in>set rs. \<forall>k. tr_lock r = Some k \<longrightarrow>
     (\<exists>i\<in>set items. \<exists>l. wi_lease i = Some l \<and> tl_id l = lk_leaseId k \<and> tr_key r \<in> set (wi_resources i)))"

definition leases_distinct :: "TeamWorkItem list \<Rightarrow> bool" where
  "leases_distinct items \<longleftrightarrow> (\<forall>n m l l'. n < length items \<and> m < length items \<and> n \<noteq> m
     \<and> wi_lease (items ! n) = Some l \<and> wi_lease (items ! m) = Some l' \<longrightarrow> tl_id l \<noteq> tl_id l')"

definition uncertain_work :: "TeamResource list \<Rightarrow> TeamWorkItem list \<Rightarrow> bool" where
  "uncertain_work rs items \<longleftrightarrow> (\<forall>i\<in>set items. wi_state i = WNeedsReconciliation \<longrightarrow>
     (\<forall>r\<in>set rs. tr_key r \<in> set (wi_resources i) \<longrightarrow> tr_uncertain r))"

definition uncertain_disjoint :: "TeamWorkItem list \<Rightarrow> bool" where
  "uncertain_disjoint items \<longleftrightarrow> (\<forall>n m. n < length items \<and> m < length items \<and> n \<noteq> m
     \<and> wi_state (items ! n) = WNeedsReconciliation \<and> wi_state (items ! m) = WNeedsReconciliation
     \<longrightarrow> set (wi_resources (items ! n)) \<inter> set (wi_resources (items ! m)) = {})"

definition locks_ok :: "TeamResource list \<Rightarrow> TeamWorkItem list \<Rightarrow> bool" where
  "locks_ok rs items \<longleftrightarrow> distinct (map tr_key rs) \<and> (\<forall>i\<in>set items. set (wi_resources i) \<subseteq> tr_key ` set rs)
     \<and> lease_matches_state items \<and> lease_holds_locks rs items \<and> lock_has_lease rs items \<and> leases_distinct items
     \<and> uncertain_work rs items \<and> uncertain_disjoint items"

lemma locks_okD:
  assumes "locks_ok rs items"
  shows "distinct (map tr_key rs)"
    and "i \<in> set items \<Longrightarrow> set (wi_resources i) \<subseteq> tr_key ` set rs"
    and "i \<in> set items \<Longrightarrow> wi_lease i \<noteq> None \<longleftrightarrow> wi_state i = WLeased"
    and "i \<in> set items \<Longrightarrow> wi_lease i = Some l \<Longrightarrow> r \<in> set rs \<Longrightarrow> tr_key r \<in> set (wi_resources i)
          \<Longrightarrow> locked_by (tl_id l) r \<and> \<not> tr_uncertain r"
    and "r \<in> set rs \<Longrightarrow> tr_lock r = Some k
          \<Longrightarrow> \<exists>i\<in>set items. \<exists>l. wi_lease i = Some l \<and> tl_id l = lk_leaseId k \<and> tr_key r \<in> set (wi_resources i)"
    and "n < length items \<Longrightarrow> m < length items \<Longrightarrow> n \<noteq> m \<Longrightarrow> wi_lease (items ! n) = Some l \<Longrightarrow> wi_lease (items ! m) = Some l'
          \<Longrightarrow> tl_id l \<noteq> tl_id l'"
    and "i \<in> set items \<Longrightarrow> wi_state i = WNeedsReconciliation \<Longrightarrow> r \<in> set rs \<Longrightarrow> tr_key r \<in> set (wi_resources i) \<Longrightarrow> tr_uncertain r"
    and "n < length items \<Longrightarrow> m < length items \<Longrightarrow> n \<noteq> m \<Longrightarrow> wi_state (items ! n) = WNeedsReconciliation
          \<Longrightarrow> wi_state (items ! m) = WNeedsReconciliation \<Longrightarrow> set (wi_resources (items ! n)) \<inter> set (wi_resources (items ! m)) = {}"
proof -
  have L: "distinct (map tr_key rs)" "\<forall>i\<in>set items. set (wi_resources i) \<subseteq> tr_key ` set rs" "lease_matches_state items"
    "lease_holds_locks rs items" "lock_has_lease rs items" "leases_distinct items" "uncertain_work rs items" "uncertain_disjoint items"
    using assms by (simp_all add: locks_ok_def)
  show "distinct (map tr_key rs)" by (rule L(1))
  show "i \<in> set items \<Longrightarrow> set (wi_resources i) \<subseteq> tr_key ` set rs" using L(2) by (rule bspec)
  show "i \<in> set items \<Longrightarrow> wi_lease i \<noteq> None \<longleftrightarrow> wi_state i = WLeased" using L(3) unfolding lease_matches_state_def by (rule bspec)
  show "i \<in> set items \<Longrightarrow> wi_lease i = Some l \<Longrightarrow> r \<in> set rs \<Longrightarrow> tr_key r \<in> set (wi_resources i)
          \<Longrightarrow> locked_by (tl_id l) r \<and> \<not> tr_uncertain r" using L(4) unfolding lease_holds_locks_def by blast
  show "r \<in> set rs \<Longrightarrow> tr_lock r = Some k
          \<Longrightarrow> \<exists>i\<in>set items. \<exists>l. wi_lease i = Some l \<and> tl_id l = lk_leaseId k \<and> tr_key r \<in> set (wi_resources i)"
    using L(5) unfolding lock_has_lease_def by blast
  show "n < length items \<Longrightarrow> m < length items \<Longrightarrow> n \<noteq> m \<Longrightarrow> wi_lease (items ! n) = Some l \<Longrightarrow> wi_lease (items ! m) = Some l'
          \<Longrightarrow> tl_id l \<noteq> tl_id l'" using L(6) unfolding leases_distinct_def by blast
  show "i \<in> set items \<Longrightarrow> wi_state i = WNeedsReconciliation \<Longrightarrow> r \<in> set rs \<Longrightarrow> tr_key r \<in> set (wi_resources i) \<Longrightarrow> tr_uncertain r"
    using L(7) unfolding uncertain_work_def by blast
  show "n < length items \<Longrightarrow> m < length items \<Longrightarrow> n \<noteq> m \<Longrightarrow> wi_state (items ! n) = WNeedsReconciliation
          \<Longrightarrow> wi_state (items ! m) = WNeedsReconciliation \<Longrightarrow> set (wi_resources (items ! n)) \<inter> set (wi_resources (items ! m)) = {}"
    using L(8) unfolding uncertain_disjoint_def by blast
qed

lemma locks_okI:
  assumes "distinct (map tr_key rs)"
    and "\<And>i. i \<in> set items \<Longrightarrow> set (wi_resources i) \<subseteq> tr_key ` set rs"
    and "\<And>i. i \<in> set items \<Longrightarrow> wi_lease i \<noteq> None \<longleftrightarrow> wi_state i = WLeased"
    and "\<And>i l r. i \<in> set items \<Longrightarrow> wi_lease i = Some l \<Longrightarrow> r \<in> set rs \<Longrightarrow> tr_key r \<in> set (wi_resources i)
          \<Longrightarrow> locked_by (tl_id l) r"
    and "\<And>i l r. i \<in> set items \<Longrightarrow> wi_lease i = Some l \<Longrightarrow> r \<in> set rs \<Longrightarrow> tr_key r \<in> set (wi_resources i)
          \<Longrightarrow> \<not> tr_uncertain r"
    and "\<And>r k. r \<in> set rs \<Longrightarrow> tr_lock r = Some k
          \<Longrightarrow> \<exists>i\<in>set items. \<exists>l. wi_lease i = Some l \<and> tl_id l = lk_leaseId k \<and> tr_key r \<in> set (wi_resources i)"
    and "\<And>n m l l'. n < length items \<Longrightarrow> m < length items \<Longrightarrow> n \<noteq> m \<Longrightarrow> wi_lease (items ! n) = Some l
          \<Longrightarrow> wi_lease (items ! m) = Some l' \<Longrightarrow> tl_id l \<noteq> tl_id l'"
    and "\<And>i r. i \<in> set items \<Longrightarrow> wi_state i = WNeedsReconciliation \<Longrightarrow> r \<in> set rs \<Longrightarrow> tr_key r \<in> set (wi_resources i) \<Longrightarrow> tr_uncertain r"
    and "\<And>n m. n < length items \<Longrightarrow> m < length items \<Longrightarrow> n \<noteq> m \<Longrightarrow> wi_state (items ! n) = WNeedsReconciliation
          \<Longrightarrow> wi_state (items ! m) = WNeedsReconciliation \<Longrightarrow> set (wi_resources (items ! n)) \<inter> set (wi_resources (items ! m)) = {}"
  shows "locks_ok rs items"
  unfolding locks_ok_def lease_matches_state_def lease_holds_locks_def lock_has_lease_def leases_distinct_def
    uncertain_work_def uncertain_disjoint_def
  by (intro conjI ballI allI impI; (elim conjE)?) (rule assms; assumption)+

definition busy :: "TeamWorkItem \<Rightarrow> bool" where
  "busy i \<longleftrightarrow> wi_lease i \<noteq> None \<or> wi_state i = WNeedsReconciliation"

lemma leased_disjoint:
  assumes "locks_ok rs items" "n < length items" "m < length items" "n \<noteq> m"
    and "wi_lease (items ! n) = Some l" "wi_lease (items ! m) = Some l'"
  shows "set (wi_resources (items ! n)) \<inter> set (wi_resources (items ! m)) = {}"
proof (rule ccontr)
  assume "\<not> ?thesis"
  then obtain k where k: "k \<in> set (wi_resources (items ! n))" "k \<in> set (wi_resources (items ! m))" by blast
  with locks_okD(2) [OF assms(1) nth_mem [OF assms(2)]] obtain r where r: "r \<in> set rs" "tr_key r = k" by auto
  have "locked_by (tl_id l) r" "locked_by (tl_id l') r"
    using locks_okD(4) [OF assms(1) nth_mem [OF assms(2)] assms(5) r(1)] locks_okD(4) [OF assms(1) nth_mem [OF assms(3)] assms(6) r(1)] r k
    by auto
  then have "tl_id l = tl_id l'" by (auto simp: locked_by_def split: option.splits)
  with locks_okD(6) [OF assms] show False by simp
qed

lemma leased_uncertain_disjoint:
  assumes "locks_ok rs items" "i \<in> set items" "wi_lease i = Some l" "j \<in> set items" "wi_state j = WNeedsReconciliation"
  shows "set (wi_resources i) \<inter> set (wi_resources j) = {}"
proof (rule ccontr)
  assume "\<not> ?thesis"
  then obtain k where k: "k \<in> set (wi_resources i)" "k \<in> set (wi_resources j)" by blast
  with locks_okD(2) [OF assms(1,2)] obtain r where r: "r \<in> set rs" "tr_key r = k" by auto
  from locks_okD(7) [OF assms(1,4,5) r(1)] locks_okD(4) [OF assms(1,2,3) r(1)] r k show False by simp
qed

lemma busy_disjoint:
  assumes "locks_ok rs items" "n < length items" "m < length items" "n \<noteq> m" "busy (items ! n)" "busy (items ! m)"
  shows "set (wi_resources (items ! n)) \<inter> set (wi_resources (items ! m)) = {}"
proof (cases "wi_lease (items ! n)"; cases "wi_lease (items ! m)")
  assume "wi_lease (items ! n) = None" "wi_lease (items ! m) = None"
  with assms(5,6) show ?thesis using locks_okD(8) [OF assms(1-4)] by (simp add: busy_def)
next
  fix l assume "wi_lease (items ! n) = None" "wi_lease (items ! m) = Some l"
  with assms leased_uncertain_disjoint [OF assms(1), of "items ! m" l "items ! n"] show ?thesis by (auto simp: busy_def)
next
  fix l assume "wi_lease (items ! n) = Some l" "wi_lease (items ! m) = None"
  with assms leased_uncertain_disjoint [OF assms(1), of "items ! n" l "items ! m"] show ?thesis by (auto simp: busy_def)
next
  fix l l' assume "wi_lease (items ! n) = Some l" "wi_lease (items ! m) = Some l'"
  with leased_disjoint [OF assms(1-4)] show ?thesis by blast
qed

definition completed_keys :: "TeamWorkItem list \<Rightarrow> string set" where
  "completed_keys items = wi_key ` {i \<in> set items. wi_state i = WCompleted}"

definition started :: "TeamWorkItem \<Rightarrow> bool" where
  "started i \<longleftrightarrow> wi_state i \<in> {WLeased, WCompleted, WNeedsReconciliation}"

definition deps_ok :: "TeamWorkItem list \<Rightarrow> bool" where
  "deps_ok items \<longleftrightarrow> (\<forall>i\<in>set items. started i \<longrightarrow> set (wi_dependsOn i) \<subseteq> completed_keys items)"

definition leased_count :: "TeamWorkItem list \<Rightarrow> nat" where
  "leased_count items = length (filter (\<lambda>i. wi_state i = WLeased) items)"

definition attempts_ok :: "TeamBudget \<Rightarrow> TeamWorkItem \<Rightarrow> bool" where
  "attempts_ok b i \<longleftrightarrow> 0 \<le> wi_attempts i \<and> wi_attempts i \<le> tb_maxAttemptsPerWorkItem b"

definition verifier_ok :: "TeamCoordinator \<Rightarrow> TeamWorkItem \<Rightarrow> bool" where
  "verifier_ok co i \<longleftrightarrow> (co_requireKernelVerification co \<and> wi_role i = RVerifier \<and> wi_state i = WCompleted \<longrightarrow> passing_verifier i)"

definition work_inv :: "TeamCoordinator \<Rightarrow> TeamBudget \<Rightarrow> TeamResource list \<Rightarrow> TeamWorkItem list \<Rightarrow> bool" where
  "work_inv co b rs items \<longleftrightarrow> locks_ok rs items \<and> deps_ok items \<and> list_all (attempts_ok b) items
     \<and> int (leased_count items) \<le> tb_maxConcurrentLeases b \<and> list_all (verifier_ok co) items"

lemma work_invD:
  assumes "work_inv co b rs items"
  shows "locks_ok rs items" "deps_ok items" "i \<in> set items \<Longrightarrow> attempts_ok b i" "int (leased_count items) \<le> tb_maxConcurrentLeases b"
    "i \<in> set items \<Longrightarrow> verifier_ok co i"
  using assms by (auto simp: work_inv_def list_all_iff)

section \<open>Atomic changes\<close>

lemma filter_update_count:
  "n < length xs \<Longrightarrow>
   length (filter P (xs[n := y])) + (if P (xs ! n) then 1 else 0) = length (filter P xs) + (if P y then 1 else 0)"
proof (induction xs arbitrary: n)
  case (Cons x xs)
  then show ?case by (cases n) auto
qed simp

lemma completed_keys_update:
  assumes "n < length items" "wi_key i' = wi_key (items ! n)" "wi_state (items ! n) = WCompleted \<Longrightarrow> wi_state i' = WCompleted"
  shows "completed_keys items \<subseteq> completed_keys (items[n := i'])"
proof
  fix k assume "k \<in> completed_keys items"
  then obtain m where m: "m < length items" "wi_key (items ! m) = k" "wi_state (items ! m) = WCompleted"
    by (auto simp: completed_keys_def in_set_conv_nth)
  have "items[n := i'] ! m \<in> set (items[n := i'])" using m(1) by simp
  moreover have "wi_key (items[n := i'] ! m) = k" "wi_state (items[n := i'] ! m) = WCompleted"
    using m assms by (cases "m = n"; simp)+
  ultimately show "k \<in> completed_keys (items[n := i'])" unfolding completed_keys_def by blast
qed

lemma deps_ok_update:
  assumes "deps_ok items" "n < length items" "wi_key i' = wi_key (items ! n)"
    and "wi_state (items ! n) = WCompleted \<Longrightarrow> wi_state i' = WCompleted"
    and "started i' \<Longrightarrow> set (wi_dependsOn i') \<subseteq> completed_keys items"
  shows "deps_ok (items[n := i'])"
  using assms(1,5) completed_keys_update [OF assms(2,3,4)]
  unfolding deps_ok_def by (blast dest: set_update_subset_insert [THEN subsetD])

text \<open>
  Changes that leave every lock owner, certainty flag, lease identity and state as they are.
\<close>

definition same_resource :: "TeamResource \<Rightarrow> TeamResource \<Rightarrow> bool" where
  "same_resource r r' \<longleftrightarrow> tr_key r' = tr_key r \<and> tr_uncertain r' = tr_uncertain r
     \<and> map_option lk_leaseId (tr_lock r') = map_option lk_leaseId (tr_lock r)"

definition same_item :: "TeamWorkItem \<Rightarrow> TeamWorkItem \<Rightarrow> bool" where
  "same_item i i' \<longleftrightarrow> wi_resources i' = wi_resources i \<and> wi_state i' = wi_state i \<and> map_option tl_id (wi_lease i') = map_option tl_id (wi_lease i)
     \<and> wi_key i' = wi_key i \<and> wi_dependsOn i' = wi_dependsOn i \<and> wi_attempts i' = wi_attempts i \<and> wi_role i' = wi_role i
     \<and> wi_result i' = wi_result i"

lemma same_resource_refl [simp]: "same_resource r r" and same_item_refl [simp]: "same_item i i"
  by (simp_all add: same_resource_def same_item_def)

lemma same_resource_locked: "same_resource r r' \<Longrightarrow> locked_by l r' = locked_by l r"
  unfolding same_resource_def locked_by_def by (cases "tr_lock r"; cases "tr_lock r'") auto

lemma same_item_SomeD: "same_item i i' \<Longrightarrow> wi_lease i' = Some l \<Longrightarrow> \<exists>l0. wi_lease i = Some l0 \<and> tl_id l0 = tl_id l"
  unfolding same_item_def by (cases "wi_lease i") auto

lemma same_item_SomeI: "same_item i i' \<Longrightarrow> wi_lease i = Some l \<Longrightarrow> \<exists>l'. wi_lease i' = Some l' \<and> tl_id l' = tl_id l"
  unfolding same_item_def by (cases "wi_lease i'") auto

lemma same_lists:
  assumes "list_all2 R xs ys"
  shows "length ys = length xs" "y \<in> set ys \<Longrightarrow> \<exists>x\<in>set xs. R x y" "x \<in> set xs \<Longrightarrow> \<exists>y\<in>set ys. R x y"
    "n < length xs \<Longrightarrow> R (xs ! n) (ys ! n)"
  using assms by (auto dest: list_all2_lengthD list_all2_nthD) (metis in_set_conv_nth list_all2_conv_all_nth)+

lemma locks_ok_cong:
  assumes "locks_ok rs items" "list_all2 same_resource rs rs'" "list_all2 same_item items items'"
  shows "locks_ok rs' items'"
proof (rule locks_okI)
  note L = locks_okD [OF assms(1)] and R = same_lists [OF assms(2)] and I = same_lists [OF assms(3)]
  have keys: "map tr_key rs' = map tr_key rs"
    using R(1,4) by (intro nth_equalityI) (auto simp: same_resource_def)
  then have kset: "tr_key ` set rs' = tr_key ` set rs" by (metis list.set_map)
  show "distinct (map tr_key rs')" using L(1) keys by simp
  show "set (wi_resources i) \<subseteq> tr_key ` set rs'" if "i \<in> set items'" for i
  proof -
    from I(2) [OF that] obtain j where "j \<in> set items" "same_item j i" by blast
    with L(2) [of j] kset show ?thesis by (simp add: same_item_def)
  qed
  show "wi_lease i \<noteq> None \<longleftrightarrow> wi_state i = WLeased" if "i \<in> set items'" for i
  proof -
    from I(2) [OF that] obtain j where j: "j \<in> set items" "same_item j i" by blast
    then have "wi_lease i = None \<longleftrightarrow> wi_lease j = None" by (auto simp: same_item_def)
    with L(3) [OF j(1)] j(2) show ?thesis by (simp add: same_item_def)
  qed
  have certain: "locked_by (tl_id l) r \<and> \<not> tr_uncertain r"
    if "i \<in> set items'" "wi_lease i = Some l" "r \<in> set rs'" "tr_key r \<in> set (wi_resources i)" for i l r
  proof -
    from I(2) [OF that(1)] obtain j where j: "j \<in> set items" "same_item j i" by blast
    from R(2) [OF that(3)] obtain q where q: "q \<in> set rs" "same_resource q r" by blast
    from same_item_SomeD [OF j(2) that(2)] obtain l0 where "wi_lease j = Some l0" "tl_id l0 = tl_id l" by blast
    moreover have "tr_key q \<in> set (wi_resources j)" using that(4) j(2) q(2) by (simp add: same_item_def same_resource_def)
    ultimately have "locked_by (tl_id l) q" "\<not> tr_uncertain q" using L(4) [OF j(1) _ q(1)] by auto
    with q(2) show ?thesis by (simp add: same_resource_locked) (simp add: same_resource_def)
  qed
  show "locked_by (tl_id l) r" if "i \<in> set items'" "wi_lease i = Some l" "r \<in> set rs'" "tr_key r \<in> set (wi_resources i)" for i l r
    using certain [OF that] by simp
  show "\<not> tr_uncertain r" if "i \<in> set items'" "wi_lease i = Some l" "r \<in> set rs'" "tr_key r \<in> set (wi_resources i)" for i l r
    using certain [OF that] by simp
  show "\<exists>i\<in>set items'. \<exists>l. wi_lease i = Some l \<and> tl_id l = lk_leaseId k \<and> tr_key r \<in> set (wi_resources i)"
    if "r \<in> set rs'" "tr_lock r = Some k" for r k
  proof -
    from R(2) [OF that(1)] obtain q where q: "q \<in> set rs" "same_resource q r" by blast
    with that(2) obtain k0 where k0: "tr_lock q = Some k0" "lk_leaseId k0 = lk_leaseId k"
      by (cases "tr_lock q") (auto simp: same_resource_def)
    from L(5) [OF q(1) k0(1)] obtain j l where j: "j \<in> set items" "wi_lease j = Some l" "tl_id l = lk_leaseId k0" "tr_key q \<in> set (wi_resources j)"
      by blast
    from I(3) [OF j(1)] obtain i where i: "i \<in> set items'" "same_item j i" by blast
    from same_item_SomeI [OF i(2) j(2)] obtain l' where "wi_lease i = Some l'" "tl_id l' = lk_leaseId k" using j(3) k0(2) by auto
    moreover have "tr_key r \<in> set (wi_resources i)" using j(4) i(2) q(2) by (simp add: same_item_def same_resource_def)
    ultimately show ?thesis using i(1) by blast
  qed
  show "tl_id l \<noteq> tl_id l'" if "n < length items'" "m < length items'" "n \<noteq> m" "wi_lease (items' ! n) = Some l" "wi_lease (items' ! m) = Some l'" for n m l l'
  proof -
    note T = that
    have nm: "n < length items" "m < length items" using that I(1) by auto
    obtain a b where "wi_lease (items ! n) = Some a" "tl_id a = tl_id l" "wi_lease (items ! m) = Some b" "tl_id b = tl_id l'"
      using same_item_SomeD [OF I(4) [OF nm(1)] T(4)] same_item_SomeD [OF I(4) [OF nm(2)] T(5)] by blast
    with L(6) [OF nm T(3), of a b] show ?thesis by simp
  qed
  show "tr_uncertain r" if "i \<in> set items'" "wi_state i = WNeedsReconciliation" "r \<in> set rs'" "tr_key r \<in> set (wi_resources i)" for i r
  proof -
    from I(2) [OF that(1)] obtain j where j: "j \<in> set items" "same_item j i" by blast
    from R(2) [OF that(3)] obtain q where q: "q \<in> set rs" "same_resource q r" by blast
    show ?thesis using L(7) [OF j(1) _ q(1)] that j(2) q(2) by (simp add: same_item_def same_resource_def)
  qed
  show "set (wi_resources (items' ! n)) \<inter> set (wi_resources (items' ! m)) = {}"
    if "n < length items'" "m < length items'" "n \<noteq> m" "wi_state (items' ! n) = WNeedsReconciliation" "wi_state (items' ! m) = WNeedsReconciliation" for n m
    using I(4) [of n] I(4) [of m] L(8) [of n m] that I(1) by (simp add: same_item_def)
qed

lemma length_filter_eq: "map P xs = map P ys \<Longrightarrow> length (filter P xs) = length (filter P ys)"
  by (induction xs ys rule: list_induct2') auto

lemma leased_count_states: "leased_count items = length (filter (\<lambda>st. st = WLeased) (map wi_state items))"
  by (simp add: leased_count_def filter_map comp_def)

lemma work_inv_cong:
  assumes "work_inv co b rs items" "list_all2 same_resource rs rs'" "list_all2 same_item items items'"
  shows "work_inv co b rs' items'"
proof -
  note W = work_invD [OF assms(1)] and I = same_lists [OF assms(3)]
  have "map wi_state items' = map wi_state items" using I(1,4) by (intro nth_equalityI) (auto simp: same_item_def)
  then have count: "leased_count items' = leased_count items" by (simp only: leased_count_states)
  have "completed_keys items \<subseteq> completed_keys items'"
  proof
    fix k assume "k \<in> completed_keys items"
    then obtain j where j: "j \<in> set items" "wi_key j = k" "wi_state j = WCompleted" by (auto simp: completed_keys_def)
    from I(3) [OF j(1)] obtain i where "i \<in> set items'" "same_item j i" by blast
    moreover from this j have "wi_key i = k" "wi_state i = WCompleted" by (auto simp: same_item_def)
    ultimately show "k \<in> completed_keys items'" unfolding completed_keys_def by blast
  qed
  moreover have "started i \<Longrightarrow> set (wi_dependsOn i) \<subseteq> completed_keys items" if "i \<in> set items'" for i
  proof -
    assume st: "started i"
    from I(2) [OF that] obtain j where j: "j \<in> set items" "same_item j i" by blast
    then have "started j" "wi_dependsOn j = wi_dependsOn i" using st by (simp_all add: started_def same_item_def)
    with W(2) j(1) show ?thesis unfolding deps_ok_def by metis
  qed
  ultimately have "deps_ok items'" unfolding deps_ok_def by blast
  moreover have "attempts_ok b i" "verifier_ok co i" if "i \<in> set items'" for i
  proof -
    from I(2) [OF that] obtain j where j: "j \<in> set items" "same_item j i" by blast
    then show "attempts_ok b i" "verifier_ok co i"
      using W(3,5) [OF j(1)] by (simp_all add: attempts_ok_def verifier_ok_def passing_verifier_def same_item_def)
  qed
  ultimately show ?thesis
    using W(4) locks_ok_cong [OF W(1) assms(2,3)] count by (simp add: work_inv_def list_all_iff)
qed

text \<open>
  An item gives up its lease: the locks of its resources are gone, and when the item needs reconciliation
  its resources are uncertain. Nothing else changes.
\<close>

definition freed :: "TeamWorkItem \<Rightarrow> TeamResource \<Rightarrow> TeamResource \<Rightarrow> bool" where
  "freed i r r' \<longleftrightarrow> tr_key r' = tr_key r
     \<and> (if tr_key r \<in> set (wi_resources i) then tr_lock r' = None \<and> (wi_state i = WNeedsReconciliation \<longrightarrow> tr_uncertain r')
        else r' = r)"

lemma same_keys:
  assumes "list_all2 R rs rs'" "\<And>r r'. R r r' \<Longrightarrow> tr_key r' = tr_key r"
  shows "map tr_key rs' = map tr_key rs" "tr_key ` set rs' = tr_key ` set rs"
proof -
  show "map tr_key rs' = map tr_key rs" by (rule nth_equalityI) (use same_lists(1,4) [OF assms(1)] assms(2) in auto)
  then show "tr_key ` set rs' = tr_key ` set rs" by (metis list.set_map)
qed

lemma set_updateE:
  assumes "x \<in> set (xs[n := y])" "n < length xs"
  obtains "x = y" | m where "m < length xs" "m \<noteq> n" "x = xs ! m"
proof -
  from assms(1) obtain m where m: "m < length xs" "x = xs[n := y] ! m" by (auto simp: in_set_conv_nth)
  show thesis
  proof (cases "m = n")
    case True
    with m assms(2) show thesis by (intro that(1)) simp
  next
    case False
    with m show thesis by (intro that(2) [of m]) auto
  qed
qed

lemma locks_ok_freed:
  assumes ok: "locks_ok rs items" and n: "n < length items" "busy (items ! n)"
    and i': "wi_resources i' = wi_resources (items ! n)" "wi_lease i' = None" "wi_state i' \<noteq> WLeased"
    and rs': "list_all2 (freed i') rs rs'"
  shows "locks_ok rs' (items[n := i'])"
proof (rule locks_okI)
  note L = locks_okD [OF ok] and R = same_lists [OF rs']
  have keys: "map tr_key rs' = map tr_key rs" "tr_key ` set rs' = tr_key ` set rs"
    using same_keys [OF rs'] by (auto simp: freed_def)
  let ?old = "items ! n"
  have old: "?old \<in> set items" using n by auto
  have other: "r \<in> set rs" if "r \<in> set rs'" "tr_key r \<notin> set (wi_resources ?old)" for r
    using R(2) [OF that(1)] that(2) i'(1) by (auto simp: freed_def)
  have apart: "set (wi_resources (items ! m)) \<inter> set (wi_resources ?old) = {}" if "m < length items" "m \<noteq> n" "busy (items ! m)" for m
    using busy_disjoint [OF ok that(1) n(1) that(2,3) n(2)] .
  show "distinct (map tr_key rs')" using L(1) keys by simp
  show "set (wi_resources i) \<subseteq> tr_key ` set rs'" if "i \<in> set (items[n := i'])" for i
    using that n(1) by (rule set_updateE) (use L(2) old i'(1) keys(2) in auto)
  show "wi_lease i \<noteq> None \<longleftrightarrow> wi_state i = WLeased" if "i \<in> set (items[n := i'])" for i
    using that n(1) by (rule set_updateE) (use L(3) i' in auto)
  have held: "locked_by (tl_id x) r \<and> \<not> tr_uncertain r"
    if "i \<in> set (items[n := i'])" "wi_lease i = Some x" "r \<in> set rs'" "tr_key r \<in> set (wi_resources i)" for i x r
    using that(1) n(1)
  proof (rule set_updateE)
    assume "i = i'" with that(2) i'(2) show ?thesis by simp
  next
    fix m assume m: "m < length items" "m \<noteq> n" "i = items ! m"
    with apart [of m] that(2,4) have "tr_key r \<notin> set (wi_resources ?old)" by (auto simp: busy_def)
    from L(4) [of i x r] other [OF that(3) this] m that show ?thesis by simp
  qed
  show "locked_by (tl_id x) r"
    if "i \<in> set (items[n := i'])" "wi_lease i = Some x" "r \<in> set rs'" "tr_key r \<in> set (wi_resources i)" for i x r
    using held [OF that] by simp
  show "\<not> tr_uncertain r"
    if "i \<in> set (items[n := i'])" "wi_lease i = Some x" "r \<in> set rs'" "tr_key r \<in> set (wi_resources i)" for i x r
    using held [OF that] by simp
  show "\<exists>i\<in>set (items[n := i']). \<exists>x. wi_lease i = Some x \<and> tl_id x = lk_leaseId k \<and> tr_key r \<in> set (wi_resources i)"
    if "r \<in> set rs'" "tr_lock r = Some k" for r k
  proof -
    have out: "tr_key r \<notin> set (wi_resources ?old)" using R(2) [OF that(1)] that(2) i'(1) by (auto simp: freed_def)
    from L(5) [OF other [OF that(1) this] that(2)] obtain j x where
      j: "j \<in> set items" "wi_lease j = Some x" "tl_id x = lk_leaseId k" "tr_key r \<in> set (wi_resources j)" by blast
    then obtain m where m: "m < length items" "j = items ! m" by (auto simp: in_set_conv_nth)
    with out j have "m \<noteq> n" by auto
    with m have "j \<in> set (items[n := i'])" by (metis length_list_update nth_list_update_neq nth_mem)
    with j show ?thesis by blast
  qed
  show "tl_id x \<noteq> tl_id x'"
    if "k < length (items[n := i'])" "m < length (items[n := i'])" "k \<noteq> m" "wi_lease (items[n := i'] ! k) = Some x" "wi_lease (items[n := i'] ! m) = Some x'" for k m x x'
  proof -
    have "k \<noteq> n" "m \<noteq> n" using that n(1) i'(2) by auto
    with that L(6) [of k m x x'] show ?thesis by simp
  qed
  show "tr_uncertain r"
    if "i \<in> set (items[n := i'])" "wi_state i = WNeedsReconciliation" "r \<in> set rs'" "tr_key r \<in> set (wi_resources i)" for i r
    using that(1) n(1)
  proof (rule set_updateE)
    assume "i = i'" with R(2) [OF that(3)] that(2,4) show ?thesis by (auto simp: freed_def)
  next
    fix m assume m: "m < length items" "m \<noteq> n" "i = items ! m"
    with apart [of m] that(2,4) have "tr_key r \<notin> set (wi_resources ?old)" by (auto simp: busy_def)
    from L(7) [of i r] other [OF that(3) this] m that show ?thesis by simp
  qed
  show "set (wi_resources (items[n := i'] ! k)) \<inter> set (wi_resources (items[n := i'] ! m)) = {}"
    if "k < length (items[n := i'])" "m < length (items[n := i'])" "k \<noteq> m"
      "wi_state (items[n := i'] ! k) = WNeedsReconciliation" "wi_state (items[n := i'] ! m) = WNeedsReconciliation" for k m
    using that L(8) [of k m] apart [of k] apart [of m] i'(1) by (cases "k = n"; cases "m = n") (auto simp: busy_def)
qed

text \<open>Changes of state that touch neither leases nor locks.\<close>

definition quiet :: "TeamWorkItem \<Rightarrow> TeamWorkItem \<Rightarrow> bool" where
  "quiet i i' \<longleftrightarrow> wi_resources i' = wi_resources i \<and> wi_lease i' = wi_lease i \<and> (wi_state i' = WLeased \<longleftrightarrow> wi_state i = WLeased)
     \<and> (wi_state i' = WNeedsReconciliation \<longrightarrow> wi_state i = WNeedsReconciliation)"

lemma quiet_refl [simp]: "quiet i i"
  by (simp add: quiet_def)

lemma locks_ok_quiet:
  assumes "locks_ok rs items" "list_all2 quiet items items'"
  shows "locks_ok rs items'"
proof (rule locks_okI)
  note L = locks_okD [OF assms(1)] and I = same_lists [OF assms(2)]
  have old: "\<exists>j\<in>set items. wi_resources i = wi_resources j \<and> wi_lease i = wi_lease j \<and> (wi_state i = WLeased \<longleftrightarrow> wi_state j = WLeased)
      \<and> (wi_state i = WNeedsReconciliation \<longrightarrow> wi_state j = WNeedsReconciliation)" if "i \<in> set items'" for i
    using I(2) [OF that] by (auto simp: quiet_def)
  show "distinct (map tr_key rs)" by (rule L(1))
  show "set (wi_resources i) \<subseteq> tr_key ` set rs" if "i \<in> set items'" for i using old [OF that] L(2) by metis
  show "wi_lease i \<noteq> None \<longleftrightarrow> wi_state i = WLeased" if "i \<in> set items'" for i using old [OF that] L(3) by metis
  show "locked_by (tl_id l) r" if "i \<in> set items'" "wi_lease i = Some l" "r \<in> set rs" "tr_key r \<in> set (wi_resources i)" for i l r
    using old [OF that(1)] L(4) that(2-4) by metis
  show "\<not> tr_uncertain r" if "i \<in> set items'" "wi_lease i = Some l" "r \<in> set rs" "tr_key r \<in> set (wi_resources i)" for i l r
    using old [OF that(1)] L(4) that(2-4) by metis
  show "\<exists>i\<in>set items'. \<exists>l. wi_lease i = Some l \<and> tl_id l = lk_leaseId k \<and> tr_key r \<in> set (wi_resources i)"
    if "r \<in> set rs" "tr_lock r = Some k" for r k
  proof -
    from L(5) [OF that] obtain j l where j: "j \<in> set items" "wi_lease j = Some l" "tl_id l = lk_leaseId k" "tr_key r \<in> set (wi_resources j)"
      by blast
    from I(3) [OF j(1)] obtain i where "i \<in> set items'" "quiet j i" by blast
    with j show ?thesis unfolding quiet_def by metis
  qed
  show "tl_id l \<noteq> tl_id l'" if "n < length items'" "m < length items'" "n \<noteq> m" "wi_lease (items' ! n) = Some l" "wi_lease (items' ! m) = Some l'" for n m l l'
    using I(4) [of n] I(4) [of m] L(6) [of n m l l'] that I(1) by (simp add: quiet_def)
  show "tr_uncertain r" if "i \<in> set items'" "wi_state i = WNeedsReconciliation" "r \<in> set rs" "tr_key r \<in> set (wi_resources i)" for i r
    using old [OF that(1)] L(7) that(2-4) by metis
  show "set (wi_resources (items' ! n)) \<inter> set (wi_resources (items' ! m)) = {}"
    if "n < length items'" "m < length items'" "n \<noteq> m" "wi_state (items' ! n) = WNeedsReconciliation" "wi_state (items' ! m) = WNeedsReconciliation" for n m
    using I(4) [of n] I(4) [of m] L(8) [of n m] that I(1) by (simp add: quiet_def)
qed

text \<open>A lease is granted on an idle item whose resources are free, under an identity that no lease has.\<close>

definition taken :: "string \<Rightarrow> TeamWorkItem \<Rightarrow> TeamResource \<Rightarrow> TeamResource \<Rightarrow> bool" where
  "taken leaseId i r r' \<longleftrightarrow> tr_key r' = tr_key r
     \<and> (if tr_key r \<in> set (wi_resources i) then locked_by leaseId r' \<and> tr_uncertain r' = tr_uncertain r else r' = r)"

definition fresh_lease :: "string \<Rightarrow> TeamWorkItem list \<Rightarrow> bool" where
  "fresh_lease leaseId items \<longleftrightarrow> (\<forall>i\<in>set items. \<forall>l. wi_lease i = Some l \<longrightarrow> tl_id l \<noteq> leaseId)"

lemma locks_ok_granted:
  assumes ok: "locks_ok rs items" and n: "n < length items" "wi_lease (items ! n) = None" "wi_state (items ! n) \<noteq> WNeedsReconciliation"
    and i': "wi_resources i' = wi_resources (items ! n)" "wi_lease i' = Some l" "wi_state i' = WLeased"
    and free: "\<And>r. r \<in> set rs \<Longrightarrow> tr_key r \<in> set (wi_resources (items ! n)) \<Longrightarrow> tr_lock r = None \<and> \<not> tr_uncertain r"
    and fresh: "fresh_lease (tl_id l) items" and rs': "list_all2 (taken (tl_id l) i') rs rs'"
  shows "locks_ok rs' (items[n := i'])"
proof (rule locks_okI)
  note L = locks_okD [OF ok] and R = same_lists [OF rs']
  let ?old = "items ! n"
  have keys: "map tr_key rs' = map tr_key rs" "tr_key ` set rs' = tr_key ` set rs"
    using same_keys [OF rs'] by (auto simp: taken_def)
  have new: "locked_by (tl_id l) r \<and> \<not> tr_uncertain r" if "r \<in> set rs'" "tr_key r \<in> set (wi_resources ?old)" for r
    using R(2) [OF that(1)] that(2) i'(1) free by (auto simp: taken_def)
  have other: "r \<in> set rs" if "r \<in> set rs'" "tr_key r \<notin> set (wi_resources ?old)" for r
    using R(2) [OF that(1)] that(2) i'(1) by (auto simp: taken_def)
  have apart: "k \<notin> set (wi_resources ?old)" if "j \<in> set items" "busy j" "k \<in> set (wi_resources j)" for j k
  proof
    assume k: "k \<in> set (wi_resources ?old)"
    from L(2) [OF that(1)] that(3) obtain r where r: "r \<in> set rs" "tr_key r = k" by auto
    with free [OF r(1)] k have "tr_lock r = None" "\<not> tr_uncertain r" by auto
    with L(4) [OF that(1) _ r(1)] L(7) [OF that(1) _ r(1)] that(2,3) r(2) show False by (auto simp: busy_def locked_by_def)
  qed
  show "distinct (map tr_key rs')" using L(1) keys by simp
  show "set (wi_resources i) \<subseteq> tr_key ` set rs'" if "i \<in> set (items[n := i'])" for i
    using that n(1) by (rule set_updateE) (use L(2) n(1) i'(1) keys(2) in auto)
  show "wi_lease i \<noteq> None \<longleftrightarrow> wi_state i = WLeased" if "i \<in> set (items[n := i'])" for i
    using that n(1) by (rule set_updateE) (use L(3) i' in auto)
  have held: "locked_by (tl_id x) r \<and> \<not> tr_uncertain r"
    if "i \<in> set (items[n := i'])" "wi_lease i = Some x" "r \<in> set rs'" "tr_key r \<in> set (wi_resources i)" for i x r
    using that(1) n(1)
  proof (rule set_updateE)
    assume "i = i'" with that i' new show ?thesis by auto
  next
    fix m assume m: "m < length items" "m \<noteq> n" "i = items ! m"
    with apart [of i "tr_key r"] that have "tr_key r \<notin> set (wi_resources ?old)" by (auto simp: busy_def)
    from L(4) [of i x r] other [OF that(3) this] m that show ?thesis by simp
  qed
  show "locked_by (tl_id x) r"
    if "i \<in> set (items[n := i'])" "wi_lease i = Some x" "r \<in> set rs'" "tr_key r \<in> set (wi_resources i)" for i x r
    using held [OF that] by simp
  show "\<not> tr_uncertain r"
    if "i \<in> set (items[n := i'])" "wi_lease i = Some x" "r \<in> set rs'" "tr_key r \<in> set (wi_resources i)" for i x r
    using held [OF that] by simp
  show "\<exists>i\<in>set (items[n := i']). \<exists>x. wi_lease i = Some x \<and> tl_id x = lk_leaseId k \<and> tr_key r \<in> set (wi_resources i)"
    if "r \<in> set rs'" "tr_lock r = Some k" for r k
  proof (cases "tr_key r \<in> set (wi_resources ?old)")
    case True
    with new [OF that(1)] that(2) have "lk_leaseId k = tl_id l" by (simp add: locked_by_def)
    moreover have "i' \<in> set (items[n := i'])" using n(1) by (simp add: set_update_memI)
    ultimately show ?thesis using True i' by (intro bexI [of _ i']) auto
  next
    case False
    from L(5) [OF other [OF that(1) False] that(2)] obtain j x where
      j: "j \<in> set items" "wi_lease j = Some x" "tl_id x = lk_leaseId k" "tr_key r \<in> set (wi_resources j)" by blast
    then obtain m where m: "m < length items" "j = items ! m" by (auto simp: in_set_conv_nth)
    with n(2) j have "m \<noteq> n" by auto
    with m have "j \<in> set (items[n := i'])" by (metis length_list_update nth_list_update_neq nth_mem)
    with j show ?thesis by blast
  qed
  show "tl_id x \<noteq> tl_id x'"
    if "k < length (items[n := i'])" "m < length (items[n := i'])" "k \<noteq> m" "wi_lease (items[n := i'] ! k) = Some x" "wi_lease (items[n := i'] ! m) = Some x'" for k m x x'
  proof -
    have "tl_id y \<noteq> tl_id l" if "q < length items" "wi_lease (items ! q) = Some y" for q y
      using fresh that nth_mem unfolding fresh_lease_def by blast
    then show ?thesis
      using that L(6) [of k m x x'] n(1) i'(2) by (cases "k = n"; cases "m = n") (simp_all, metis+)
  qed
  show "tr_uncertain r"
    if "i \<in> set (items[n := i'])" "wi_state i = WNeedsReconciliation" "r \<in> set rs'" "tr_key r \<in> set (wi_resources i)" for i r
    using that(1) n(1)
  proof (rule set_updateE)
    assume "i = i'" with that(2) i'(3) show ?thesis by simp
  next
    fix m assume m: "m < length items" "m \<noteq> n" "i = items ! m"
    with apart [of i "tr_key r"] that have "tr_key r \<notin> set (wi_resources ?old)" by (auto simp: busy_def)
    from L(7) [of i r] other [OF that(3) this] m that show ?thesis by simp
  qed
  show "set (wi_resources (items[n := i'] ! k)) \<inter> set (wi_resources (items[n := i'] ! m)) = {}"
    if "k < length (items[n := i'])" "m < length (items[n := i'])" "k \<noteq> m"
      "wi_state (items[n := i'] ! k) = WNeedsReconciliation" "wi_state (items[n := i'] ! m) = WNeedsReconciliation" for k m
    using that L(8) [of k m] i'(3) by (cases "k = n"; cases "m = n") auto
qed

text \<open>The same changes for the whole invariant.\<close>

definition same_work :: "TeamWorkItem \<Rightarrow> TeamWorkItem \<Rightarrow> bool" where
  "same_work i i' \<longleftrightarrow> wi_key i' = wi_key i \<and> wi_dependsOn i' = wi_dependsOn i \<and> wi_resources i' = wi_resources i"

lemma list_all_update: "list_all P xs \<Longrightarrow> P y \<Longrightarrow> list_all P (xs[n := y])"
  unfolding list_all_iff by (auto dest: set_update_subset_insert [THEN subsetD])

lemma work_inv_freed:
  assumes inv: "work_inv co b rs items" and n: "n < length items" "busy (items ! n)"
    and i': "same_work (items ! n) i'" "wi_lease i' = None" "wi_state i' \<noteq> WLeased" "wi_attempts i' = wi_attempts (items ! n)" "verifier_ok co i'"
    and rs': "list_all2 (freed i') rs rs'"
  shows "work_inv co b rs' (items[n := i'])"
proof -
  note W = work_invD [OF inv]
  have old: "items ! n \<in> set items" using n(1) by simp
  have st: "started (items ! n)" "wi_state (items ! n) \<noteq> WCompleted"
    using n(2) locks_okD(3) [OF W(1) old] by (auto simp: started_def busy_def)
  have "deps_ok (items[n := i'])"
    using W(2) n(1) i'(1) st old by (intro deps_ok_update) (auto simp: same_work_def deps_ok_def)
  moreover have "leased_count (items[n := i']) \<le> leased_count items"
    using filter_update_count [OF n(1), of "\<lambda>i. wi_state i = WLeased" i'] i'(3) by (simp add: leased_count_def split: if_splits)
  moreover have "locks_ok rs' (items[n := i'])"
    using i'(1) by (intro locks_ok_freed [OF W(1) n _ i'(2,3) rs']) (simp add: same_work_def)
  moreover have "attempts_ok b i'" using W(3) [OF old] i'(4) by (simp add: attempts_ok_def)
  ultimately show ?thesis using W(4) inv i'(5) unfolding work_inv_def by (auto intro: list_all_update)
qed

lemma work_inv_granted:
  assumes inv: "work_inv co b rs items" and n: "n < length items" "wi_lease (items ! n) = None" "wi_state (items ! n) = WPending"
    and i': "same_work (items ! n) i'" "wi_lease i' = Some l" "wi_state i' = WLeased" "attempts_ok b i'"
    and deps: "set (wi_dependsOn (items ! n)) \<subseteq> completed_keys items"
    and budget: "int (leased_count items) < tb_maxConcurrentLeases b"
    and free: "\<And>r. r \<in> set rs \<Longrightarrow> tr_key r \<in> set (wi_resources (items ! n)) \<Longrightarrow> tr_lock r = None \<and> \<not> tr_uncertain r"
    and fresh: "fresh_lease (tl_id l) items" and rs': "list_all2 (taken (tl_id l) i') rs rs'"
  shows "work_inv co b rs' (items[n := i'])"
proof -
  note W = work_invD [OF inv]
  have "deps_ok (items[n := i'])"
    using W(2) n i'(1) deps by (intro deps_ok_update) (auto simp: same_work_def)
  moreover have "leased_count (items[n := i']) = leased_count items + 1"
    using filter_update_count [OF n(1), of "\<lambda>i. wi_state i = WLeased" i'] n(3) i'(3) by (simp add: leased_count_def)
  moreover have "locks_ok rs' (items[n := i'])"
    using i'(1) n(3) by (intro locks_ok_granted [OF W(1) n(1,2) _ _ i'(2,3) free fresh rs']) (simp_all add: same_work_def)
  moreover have "verifier_ok co i'" using i'(3) by (simp add: verifier_ok_def)
  ultimately show ?thesis using budget inv i'(4) unfolding work_inv_def by (auto intro: list_all_update)
qed

lemma work_inv_quiet:
  assumes inv: "work_inv co b rs items" and items': "list_all2 (\<lambda>i i'. same_work i i' \<and> quiet i i' \<and> wi_attempts i' = wi_attempts i
      \<and> (i' = i \<or> \<not> started i' \<and> wi_state i \<noteq> WCompleted)) items items'"
  shows "work_inv co b rs items'"
proof -
  note W = work_invD [OF inv] and I = same_lists [OF items']
  have "list_all2 quiet items items'" using items' by (rule list_all2_mono) simp
  then have "locks_ok rs items'" by (rule locks_ok_quiet [OF W(1)])
  moreover have "completed_keys items \<subseteq> completed_keys items'"
    using I(3) unfolding completed_keys_def by fastforce
  then have "deps_ok items'" using W(2) I(2) unfolding deps_ok_def by blast
  moreover have "map (\<lambda>i. wi_state i = WLeased) items' = map (\<lambda>i. wi_state i = WLeased) items"
    by (rule nth_equalityI) (use I(1,4) in \<open>auto simp: quiet_def\<close>)
  then have "map (\<lambda>st. st = WLeased) (map wi_state items') = map (\<lambda>st. st = WLeased) (map wi_state items)" by (simp add: comp_def)
  then have "leased_count items' = leased_count items"
    unfolding leased_count_states by (rule length_filter_eq)
  moreover have "attempts_ok b i" "verifier_ok co i" if "i \<in> set items'" for i
    using I(2) [OF that] W(3,5) by (auto simp: attempts_ok_def verifier_ok_def started_def)
  ultimately show ?thesis using W(4) by (simp add: work_inv_def list_all_iff)
qed

end
