(* ===== verification/TeamSteps.thy ===== *)
theory TeamSteps
  imports TeamInv
begin

text \<open>
  Every operation of the team coordinator keeps the invariant of the work, and leaves what a mission was submitted with as it is.
\<close>

section \<open>Missions\<close>

lemma appendEvent_simps [simp]:
  "tm_resources (appendEvent now k w i d m) = tm_resources m" "tm_workItems (appendEvent now k w i d m) = tm_workItems m"
  "tm_budget (appendEvent now k w i d m) = tm_budget m" "tm_state (appendEvent now k w i d m) = tm_state m"
  "tm_actionReceipts (appendEvent now k w i d m) = tm_actionReceipts m" "tm_blackboard (appendEvent now k w i d m) = tm_blackboard m"
  "tm_workers (appendEvent now k w i d m) = tm_workers m" "tm_id (appendEvent now k w i d m) = tm_id m"
  "tm_intent (appendEvent now k w i d m) = tm_intent m" "tm_epoch (appendEvent now k w i d m) = tm_epoch m"
  "tm_deadlineAt (appendEvent now k w i d m) = tm_deadlineAt m"
  by (simp_all add: appendEvent_def Let_def)

lemma with_simps [simp]:
  "tm_workItems (with_item n f m) = (tm_workItems m)[n := f (tm_workItems m ! n)]" "tm_workItems (with_worker n g m) = tm_workItems m"
  "tm_resources (with_item n f m) = tm_resources m" "tm_resources (with_worker n g m) = tm_resources m"
  "tm_budget (with_item n f m) = tm_budget m" "tm_budget (with_worker n g m) = tm_budget m"
  "tm_state (with_item n f m) = tm_state m" "tm_state (with_worker n g m) = tm_state m"
  "tm_actionReceipts (with_item n f m) = tm_actionReceipts m" "tm_actionReceipts (with_worker n g m) = tm_actionReceipts m"
  "tm_blackboard (with_item n f m) = tm_blackboard m" "tm_blackboard (with_worker n g m) = tm_blackboard m"
  "tm_id (with_item n f m) = tm_id m" "tm_id (with_worker n g m) = tm_id m"
  "tm_intent (with_item n f m) = tm_intent m" "tm_intent (with_worker n g m) = tm_intent m"
  "tm_epoch (with_item n f m) = tm_epoch m" "tm_epoch (with_worker n g m) = tm_epoch m"
  "tm_workers (with_item n f m) = tm_workers m"
  by (simp_all add: with_item_def with_worker_def)

definition winv :: "TeamCoordinator \<Rightarrow> TeamMission \<Rightarrow> bool" where
  "winv co m \<longleftrightarrow> work_inv co (tm_budget m) (tm_resources m) (tm_workItems m)"

text \<open>What no operation changes about a mission.\<close>

definition static_item :: "TeamWorkItem \<Rightarrow> TeamWorkItem" where
  "static_item i = i\<lparr>wi_state := WPending, wi_attempts := 0, wi_lease := None, wi_result := None, wi_failure := None\<rparr>"

definition frame :: "TeamMission \<Rightarrow> TeamMission \<Rightarrow> bool" where
  "frame m m' \<longleftrightarrow> map static_item (tm_workItems m') = map static_item (tm_workItems m) \<and> tm_id m' = tm_id m
     \<and> tm_intent m' = tm_intent m \<and> tm_budget m' = tm_budget m"

lemma frame_refl [simp]: "frame m m"
  by (simp add: frame_def)

lemma frame_trans: "frame a b \<Longrightarrow> frame b c \<Longrightarrow> frame a c"
  by (simp add: frame_def)

lemma static_item_simps:
  "static_item (i\<lparr>wi_state := st\<rparr>) = static_item i" "static_item (i\<lparr>wi_attempts := at\<rparr>) = static_item i"
  "static_item (i\<lparr>wi_lease := le\<rparr>) = static_item i" "static_item (i\<lparr>wi_result := re\<rparr>) = static_item i"
  "static_item (i\<lparr>wi_failure := fa\<rparr>) = static_item i"
  by (simp_all add: static_item_def)

lemma map_static_update: "static_item y = static_item (xs ! n) \<Longrightarrow> map static_item (xs[n := y]) = map static_item xs"
  by (metis list_update_id map_update)

lemma static_same_work: "static_item i' = static_item i \<Longrightarrow> same_work i i'"
  unfolding static_item_def same_work_def
  by (metis (no_types, lifting) TeamWorkItem.select_convs TeamWorkItem.surjective TeamWorkItem.update_convs)

text \<open>The fields of a mission apart from its work, resources and events.\<close>

definition rest :: "TeamMission \<Rightarrow> TeamMission" where
  "rest m = m\<lparr>tm_resources := [], tm_workItems := [], tm_events := []\<rparr>"

lemma restD:
  assumes "rest m' = rest m"
  shows "tm_state m' = tm_state m" "tm_actionReceipts m' = tm_actionReceipts m" "tm_blackboard m' = tm_blackboard m"
    "tm_workers m' = tm_workers m" "tm_budget m' = tm_budget m" "tm_epoch m' = tm_epoch m" "tm_intent m' = tm_intent m"
    "tm_deadlineAt m' = tm_deadlineAt m" "tm_id m' = tm_id m"
  using arg_cong [OF assms, of tm_state] arg_cong [OF assms, of tm_actionReceipts] arg_cong [OF assms, of tm_blackboard]
    arg_cong [OF assms, of tm_workers] arg_cong [OF assms, of tm_budget] arg_cong [OF assms, of tm_epoch]
    arg_cong [OF assms, of tm_intent] arg_cong [OF assms, of tm_deadlineAt] arg_cong [OF assms, of tm_id]
  by (simp_all add: rest_def)

section \<open>Giving up leases\<close>

lemma each_freed:
  assumes "locks_ok rs items" "each_resource (\<lambda>r. Inr (g r)) (wi_resources old) rs = Inr rs'" "wi_resources i' = wi_resources old"
    and "\<And>r. tr_key (g r) = tr_key r" "\<And>r. wi_state i' = WNeedsReconciliation \<Longrightarrow> tr_uncertain (g r)"
    and "\<And>r. r \<in> set rs \<Longrightarrow> tr_key r \<in> set (wi_resources old) \<Longrightarrow> tr_lock (g r) = None" "\<And>r. tr_lock r = None \<Longrightarrow> tr_lock (g r) = None"
  shows "list_all2 (freed i') rs rs'"
proof -
  have T: "list_all2 (\<lambda>r r'. tr_key r' = tr_key r \<and> touched (\<lambda>r. Inr (g r)) (wi_resources old) r r') rs rs'"
    using each_resource_touched [OF assms(2) locks_okD(1) [OF assms(1)]] assms(4) by auto
  show ?thesis
  proof (rule list_all2_all_nthI)
    show "length rs = length rs'" using T by (rule list_all2_lengthD)
    fix n assume n: "n < length rs"
    from list_all2_nthD [OF T n] have t: "tr_key (rs' ! n) = tr_key (rs ! n)" "touched (\<lambda>r. Inr (g r)) (wi_resources old) (rs ! n) (rs' ! n)" by auto
    show "freed i' (rs ! n) (rs' ! n)"
    proof (cases "tr_key (rs ! n) \<in> set (wi_resources old)")
      case True
      have "tr_lock (rs' ! n) = None \<and> (wi_state i' = WNeedsReconciliation \<longrightarrow> tr_uncertain (rs' ! n))"
        using t(2) True by (rule touched_inv) (use assms(5,7) assms(6) [OF nth_mem [OF n] True] in auto)
      with t(1) True assms(3) show ?thesis by (simp add: freed_def)
    next
      case False
      with t assms(3) show ?thesis by (simp add: freed_def touched_def)
    qed
  qed
qed

lemma expireLease_winv:
  assumes "winv co m" "n < length (tm_workItems m)" "expireLease now reason n m = Inr m'"
  shows "winv co m' \<and> rest m' = rest m \<and> frame m m'
    \<and> (\<forall>k. k \<noteq> n \<longrightarrow> tm_workItems m' ! k = tm_workItems m ! k) \<and> wi_lease (tm_workItems m' ! n) = None"
proof (cases "wi_lease (tm_workItems m ! n)")
  case None
  with assms show ?thesis by (auto simp: expireLease_def)
next
  case (Some l)
  let ?old = "tm_workItems m ! n"
  let ?new = "?old\<lparr>wi_lease := None, wi_state := (if wi_risk ?old = Read then WPending else WNeedsReconciliation)\<rparr>"
  have W: "work_inv co (tm_budget m) (tm_resources m) (tm_workItems m)" using assms(1) by (simp add: winv_def)
  from assms(3) Some obtain rs where rs: "each_resource (\<lambda>r. Inr (expire_resource now ?old (tl_id l) r)) (wi_resources ?old) (tm_resources m) = Inr rs"
    and m': "m' = appendEvent now ''work.lease_expired'' (Some (tl_workerId l)) (Some (wi_id ?old))
        (Some [(''reason'', JStr reason), (''risk'', JStr (risk_text (wi_risk ?old)))])
        (with_item n (\<lambda>i. i\<lparr>wi_lease := None, wi_state := (if wi_risk i = Read then WPending else WNeedsReconciliation)\<rparr>) (m\<lparr>tm_resources := rs\<rparr>))"
    by (auto simp: expireLease_def bind_result_Inr Let_def)
  have "list_all2 (freed ?new) (tm_resources m) rs"
  proof (rule each_freed [OF work_invD(1) [OF W] rs])
    show "tr_lock (expire_resource now ?old (tl_id l) r) = None" if "r \<in> set (tm_resources m)" "tr_key r \<in> set (wi_resources ?old)" for r
      using locks_okD(4) [OF work_invD(1) [OF W] nth_mem [OF assms(2)] Some that] by (simp add: expire_resource_def unlock_def Let_def)
  qed (auto simp: expire_resource_def unlock_def Let_def)
  then have "work_inv co (tm_budget m) rs ((tm_workItems m)[n := ?new])"
    using assms(2) Some
    by (intro work_inv_freed [OF W]) (auto simp: busy_def same_work_def verifier_ok_def)
  then have "winv co m'" by (simp add: winv_def m')
  moreover have "frame m m'" unfolding frame_def m' by (simp add: map_static_update static_item_simps)
  moreover have "rest m' = rest m" by (simp add: m' rest_def appendEvent_def with_item_def Let_def)
  ultimately show ?thesis using assms(2) by (simp add: m')
qed

lemma expire_where_upto:
  assumes "winv co m" "k \<le> length (tm_workItems m)" "fold_throw (expire_if now reason P) [0..<k] m = Inr m'"
    and "\<And>i. P i \<Longrightarrow> wi_lease i \<noteq> None"
  shows "winv co m' \<and> rest m' = rest m \<and> frame m m' \<and> length (tm_workItems m') = length (tm_workItems m)
    \<and> (\<forall>n. k \<le> n \<longrightarrow> tm_workItems m' ! n = tm_workItems m ! n) \<and> (\<forall>n<k. \<not> P (tm_workItems m' ! n))
    \<and> (\<forall>n. wi_lease (tm_workItems m' ! n) = None \<or> tm_workItems m' ! n = tm_workItems m ! n)"
  using assms(2,3)
proof (induction k arbitrary: m')
  case 0
  then show ?case using assms(1) by simp
next
  case (Suc k)
  from Suc.prems(2) obtain m1 where m1: "fold_throw (expire_if now reason P) [0..<k] m = Inr m1" "expire_if now reason P k m1 = Inr m'"
    by (auto simp: fold_throw_append bind_result_Inr)
  note IH = Suc.IH [OF _ m1(1)]
  have k: "k < length (tm_workItems m1)" using IH Suc.prems(1) by simp
  show ?case
  proof (cases "P (tm_workItems m1 ! k)")
    case True
    with m1(2) have "expireLease now reason k m1 = Inr m'" by (simp add: expire_if_def)
    from expireLease_winv [OF _ k this] IH Suc.prems(1) have E: "winv co m'" "rest m' = rest m1" "frame m1 m'"
      "\<forall>n. n \<noteq> k \<longrightarrow> tm_workItems m' ! n = tm_workItems m1 ! n" "wi_lease (tm_workItems m' ! k) = None" by auto
    have "length (tm_workItems m') = length (tm_workItems m1)" using E(3) unfolding frame_def by (metis length_map)
    moreover have "\<not> P (tm_workItems m' ! k)" using E(5) assms(4) by blast
    moreover have "wi_lease (tm_workItems m' ! n) = None \<or> tm_workItems m' ! n = tm_workItems m ! n" for n
      using E(4,5) IH Suc.prems(1) by (cases "n = k") auto
    moreover have "rest m' = rest m" "frame m m'" using E(2,3) IH Suc.prems(1) by (auto intro: frame_trans)
    ultimately show ?thesis using E(1,4) IH Suc.prems(1) by (auto simp: less_Suc_eq)
  next
    case False
    with m1(2) IH Suc.prems(1) show ?thesis by (auto simp: expire_if_def less_Suc_eq)
  qed
qed

lemma expire_where_winv:
  assumes "winv co m" "expire_where now reason P m = Inr m'" "\<And>i. P i \<Longrightarrow> wi_lease i \<noteq> None"
  shows "winv co m'" "rest m' = rest m" "frame m m'" "\<forall>i\<in>set (tm_workItems m'). \<not> P i"
    "fresh_lease leaseId (tm_workItems m) \<Longrightarrow> fresh_lease leaseId (tm_workItems m')"
proof -
  note E = expire_where_upto [OF assms(1) le_refl assms(2) [unfolded expire_where_def] assms(3)]
  show "winv co m'" "rest m' = rest m" "frame m m'" "\<forall>i\<in>set (tm_workItems m'). \<not> P i" using E by (auto simp: in_set_conv_nth)
  show "fresh_lease leaseId (tm_workItems m')" if "fresh_lease leaseId (tm_workItems m)"
    unfolding fresh_lease_def
  proof (intro ballI allI impI)
    fix i l assume i: "i \<in> set (tm_workItems m')" "wi_lease i = Some l"
    then obtain n where n: "n < length (tm_workItems m')" "i = tm_workItems m' ! n" by (auto simp: in_set_conv_nth)
    with i(2) E have "i = tm_workItems m ! n" "n < length (tm_workItems m)" by (metis option.distinct(1))+
    with that i(2) show "tl_id l \<noteq> leaseId" by (auto simp: fresh_lease_def)
  qed
qed

lemma winv_cong:
  "tm_budget m' = tm_budget m \<Longrightarrow> tm_resources m' = tm_resources m \<Longrightarrow> tm_workItems m' = tm_workItems m \<Longrightarrow> winv co m' = winv co m"
  by (simp add: winv_def)

lemma reapExpired_winv:
  assumes "winv co m" "reapExpired now m = Inr m'"
  shows "winv co m'" "frame m m'" "\<forall>i\<in>set (tm_workItems m'). \<not> lease_expired now i"
    "tm_actionReceipts m' = tm_actionReceipts m" "tm_blackboard m' = tm_blackboard m"
    "fresh_lease leaseId (tm_workItems m) \<Longrightarrow> fresh_lease leaseId (tm_workItems m')"
proof -
  let ?m = "m\<lparr>tm_workers := map (worker_offline now (tb_leaseMs (tm_budget m))) (tm_workers m)\<rparr>"
  from assms(2) obtain m1 where m1: "expire_where now ''lease_expired'' (lease_expired now) ?m = Inr m1"
    and m': "m' = (if list_ex tr_uncertain (tm_resources m1) \<and> tm_state m1 \<notin> {MFailed, MCancelled, MVerified} then m1\<lparr>tm_state := MBlocked\<rparr> else m1)"
    by (auto simp: reapExpired_def bind_result_Inr)
  have w: "winv co ?m" using assms(1) by (simp add: winv_def)
  have P: "lease_expired now i \<Longrightarrow> wi_lease i \<noteq> None" for i by (auto simp: lease_expired_def split: option.splits)
  note E = expire_where_winv [OF w m1 P]
  show "winv co m'" using E(1) by (auto simp: m' winv_def)
  show "frame m m'" using E(3) by (auto simp: m' frame_def)
  show "\<forall>i\<in>set (tm_workItems m'). \<not> lease_expired now i" using E(4) by (auto simp: m')
  show "tm_actionReceipts m' = tm_actionReceipts m" "tm_blackboard m' = tm_blackboard m"
    using restD(2,3) [OF E(2)] by (auto simp: m')
  show "fresh_lease leaseId (tm_workItems m')" if "fresh_lease leaseId (tm_workItems m)"
    using E(5) that by (auto simp: m')
qed

section \<open>Every operation keeps the invariant\<close>

lemma same_resource_trans: "same_resource a b \<Longrightarrow> same_resource b c \<Longrightarrow> same_resource a c"
  by (simp add: same_resource_def)

lemma each_same:
  assumes "each_resource f ks rs = Inr rs'" "distinct (map tr_key rs)" "\<And>a b. f a = Inr b \<Longrightarrow> same_resource a b"
  shows "list_all2 same_resource rs rs'"
proof -
  have "list_all2 (\<lambda>r r'. tr_key r' = tr_key r \<and> touched f ks r r') rs rs'"
    using each_resource_touched [OF assms(1,2)] assms(3) by (auto simp: same_resource_def)
  then show ?thesis
  proof (rule list_all2_mono, elim conjE)
    fix r r' assume t: "touched f ks r r'"
    show "same_resource r r'"
    proof (cases "tr_key r \<in> set ks")
      case True
      with t show ?thesis by (rule touched_inv) (auto intro: assms(3) same_resource_trans)
    next
      case False
      with t show ?thesis by (simp add: touched_def)
    qed
  qed
qed

lemma extend_lock_same: "same_resource r (extend_lock l e r)"
  by (cases "tr_lock r") (auto simp: extend_lock_def same_resource_def locked_by_def)

lemma beat_resource_same: "beat_resource l e r = Inr r' \<Longrightarrow> same_resource r r'"
  by (auto simp: beat_resource_def extend_lock_same split: if_split_asm)

lemma touch_lease_same: "same_item i (touch_lease now e i)"
  by (cases "wi_lease i") (auto simp: touch_lease_def same_item_def)

lemma list_all2_update_refl:
  assumes "\<And>x. R x x" "R (xs ! n) y"
  shows "list_all2 R xs (xs[n := y])"
proof (rule list_all2_all_nthI)
  fix k assume "k < length xs"
  then show "R (xs ! k) (xs[n := y] ! k)" using assms by (cases "k = n") auto
qed simp

lemma winv_touched:
  assumes "winv co m" "each_resource f ks (tm_resources m) = Inr rs" "\<And>a b. f a = Inr b \<Longrightarrow> same_resource a b"
    and "tm_budget m' = tm_budget m" "tm_resources m' = rs" "tm_workItems m' = (tm_workItems m)[n := touch_lease now e (tm_workItems m ! n)]"
  shows "winv co m'"
  unfolding winv_def assms(4-6)
  using assms(1) unfolding winv_def
proof (rule work_inv_cong)
  have "distinct (map tr_key (tm_resources m))" using assms(1) unfolding winv_def by (blast dest: work_invD(1) locks_okD(1))
  with assms(2) show "list_all2 same_resource (tm_resources m) rs" by (rule each_same) (rule assms(3))
  show "list_all2 same_item (tm_workItems m) ((tm_workItems m)[n := touch_lease now e (tm_workItems m ! n)])"
    by (intro list_all2_update_refl touch_lease_same) simp
qed

lemma touch_lease_static: "static_item (touch_lease now e i) = static_item i"
  by (simp add: touch_lease_def static_item_simps)

lemma start_team_winv:
  assumes "winv co m" "start_team ca m = Inr m'"
  shows "winv co m' \<and> frame m m'"
proof -
  from assms(2) obtain m1 where m1: "reapExpired (ca_now ca) m = Inr m1" and m': "tm_budget m' = tm_budget m1" "tm_resources m' = tm_resources m1"
    "tm_workItems m' = tm_workItems m1" "tm_id m' = tm_id m1" "tm_intent m' = tm_intent m1"
    by (auto simp: start_team_def bind_result_Inr split: if_split_asm)
  with reapExpired_winv(1,2) [OF assms(1) m1] winv_cong [OF m'(1,2,3)] show ?thesis by (auto simp: frame_def)
qed

lemma pause_team_winv:
  assumes "winv co m" "pause_team ca m = Inr m'"
  shows "winv co m' \<and> frame m m'"
proof -
  from assms(2) obtain m1 where m1: "expire_where (ca_now ca) ''pause'' (\<lambda>i. wi_lease i \<noteq> None) m = Inr m1"
    and m': "tm_budget m' = tm_budget m1" "tm_resources m' = tm_resources m1" "tm_workItems m' = tm_workItems m1" "tm_id m' = tm_id m1" "tm_intent m' = tm_intent m1"
    by (auto simp: pause_team_def invalidateLiveLeases_def bind_result_Inr split: if_split_asm)
  with expire_where_winv(1,3) [OF assms(1) m1] winv_cong [OF m'(1,2,3)] show ?thesis by (auto simp: frame_def)
qed

lemma resume_team_winv:
  assumes "winv co m" "resume_team ca m = Inr m'"
  shows "winv co m' \<and> frame m m'"
  using assms by (auto simp: resume_team_def bind_result_Inr winv_def frame_def split: if_split_asm)

lemma cancel_team_winv:
  assumes "winv co m" "cancel_team ca m = Inr m'"
  shows "winv co m' \<and> frame m m'"
proof (cases "tm_state m \<in> {MVerified, MFailed, MCancelled}")
  case True
  with assms show ?thesis by (auto simp: cancel_team_def)
next
  case False
  with assms(2) obtain m1 where m1: "expire_where (ca_now ca) ''cancel'' (\<lambda>i. wi_lease i \<noteq> None) m = Inr m1"
    and m': "tm_budget m' = tm_budget m1" "tm_resources m' = tm_resources m1" "tm_workItems m' = map cancel_item (tm_workItems m1)"
      "tm_id m' = tm_id m1" "tm_intent m' = tm_intent m1"
    by (auto simp: cancel_team_def invalidateLiveLeases_def bind_result_Inr)
  note E = expire_where_winv(1,3,4) [OF assms(1) m1]
  have W: "work_inv co (tm_budget m1) (tm_resources m1) (tm_workItems m1)" using E(1) by (simp add: winv_def)
  have "work_inv co (tm_budget m1) (tm_resources m1) (map cancel_item (tm_workItems m1))"
    using W
  proof (rule work_inv_quiet)
    have idle: "wi_state i \<noteq> WLeased" if "i \<in> set (tm_workItems m1)" for i
      using locks_okD(3) [OF work_invD(1) [OF W] that] E(3) that by auto
    show "list_all2 (\<lambda>i i'. same_work i i' \<and> quiet i i' \<and> wi_attempts i' = wi_attempts i \<and> (i' = i \<or> \<not> started i' \<and> wi_state i \<noteq> WCompleted))
        (tm_workItems m1) (map cancel_item (tm_workItems m1))"
      by (auto simp: list_all2_conv_all_nth cancel_item_def same_work_def quiet_def started_def dest: idle [OF nth_mem])
  qed
  then have "winv co m'" by (simp add: winv_def m')
  moreover have "static_item (cancel_item i) = static_item i" for i by (simp add: cancel_item_def static_item_simps)
  then have "map static_item (tm_workItems m') = map static_item (tm_workItems m1)" by (simp add: m')
  ultimately show ?thesis using E(2) by (simp only: frame_def m' simp_thms)
qed

lemma registerWorker_winv:
  assumes "winv co m" "registerWorker ca inp m = Inr (m', w)"
  shows "winv co m' \<and> frame m m'"
proof -
  from assms(2) obtain m1 where m1: "reapExpired (ca_now ca) m = Inr m1" and m': "tm_budget m' = tm_budget m1" "tm_resources m' = tm_resources m1"
    "tm_workItems m' = tm_workItems m1" "tm_id m' = tm_id m1" "tm_intent m' = tm_intent m1"
    by (auto simp: registerWorker_def bind_result_Inr Let_def split: if_split_asm option.split_asm)
  with reapExpired_winv(1,2) [OF assms(1) m1] winv_cong [OF m'(1,2,3)] show ?thesis by (auto simp: frame_def)
qed

lemma requireWorkItem_Inr: "requireWorkItem m i = Inr n \<Longrightarrow> n < length (tm_workItems m)"
  by (auto simp: requireWorkItem_def bind_result_Inr split: option.split_asm dest: index_of_SomeD)

lemma requireLease_Inr:
  "requireLease now item w l e = Inr lease \<Longrightarrow> wi_lease item = Some lease \<and> wi_state item = WLeased \<and> tl_workerId lease = w \<and> tl_epoch lease = e
     \<and> now < tl_expiresAt lease"
  unfolding requireLease_def bind_result_Inr by (cases "wi_lease item") (auto split: if_split_asm)

text \<open>The work is as in an intermediate mission that is itself a result of the steps so far.\<close>

lemma kept:
  assumes "winv co m1" "frame m m1" "tm_budget m' = tm_budget m1" "tm_resources m' = tm_resources m1" "tm_workItems m' = tm_workItems m1"
    "tm_id m' = tm_id m1" "tm_intent m' = tm_intent m1"
  shows "winv co m' \<and> frame m m'"
  using assms winv_cong [OF assms(3,4,5)] by (simp add: frame_def)

lemma kept_touched:
  assumes "winv co m1" "frame m m1" "each_resource f ks (tm_resources m1) = Inr rs" "\<And>a b. f a = Inr b \<Longrightarrow> same_resource a b"
    and "tm_budget m' = tm_budget m1" "tm_resources m' = rs" "tm_workItems m' = (tm_workItems m1)[n := touch_lease now e (tm_workItems m1 ! n)]"
    "tm_id m' = tm_id m1" "tm_intent m' = tm_intent m1"
  shows "winv co m' \<and> frame m m'"
proof
  show "winv co m'" using assms(1,3) by (rule winv_touched) (use assms in auto)
  have "map static_item (tm_workItems m') = map static_item (tm_workItems m1)"
    unfolding assms(7) by (rule map_static_update) (rule touch_lease_static)
  with assms show "frame m m'" by (simp add: frame_def)
qed

lemma heartbeat_winv:
  assumes "winv co m" "heartbeat ca w leaseId m = Inr m'"
  shows "winv co m' \<and> frame m m'"
proof -
  from assms(2) obtain m1 wn where m1: "reapExpired (ca_now ca) m = Inr m1" "requireWorker m1 w = Inr wn"
    by (auto simp: heartbeat_def bind_result_Inr)
  note R = reapExpired_winv(1,2) [OF assms(1) m1(1)]
  show ?thesis
  proof (cases "truthy leaseId")
    case None
    with assms(2) m1 show ?thesis by (intro kept [OF R]) (auto simp: heartbeat_def bind_result_Inr_left Let_def)
  next
    case (Some raw)
    with assms(2) m1 obtain n l e rs where "each_resource (beat_resource l e) (wi_resources (tm_workItems m1 ! n)) (tm_resources m1) = Inr rs"
      "tm_budget m' = tm_budget m1" "tm_resources m' = rs" "tm_workItems m' = (tm_workItems m1)[n := touch_lease (ca_now ca) e (tm_workItems m1 ! n)]"
      "tm_id m' = tm_id m1" "tm_intent m' = tm_intent m1"
      by (auto simp: heartbeat_def bind_result_Inr Let_def split: option.split_asm)
    then show ?thesis by (intro kept_touched [OF R]) (auto intro: beat_resource_same)
  qed
qed

lemma putBlackboard_winv:
  assumes "winv co m" "putBlackboard co ca inp m = Inr m'"
  shows "winv co m' \<and> frame m m'"
proof -
  from assms(2) obtain m1 where m1: "reapExpired (ca_now ca) m = Inr m1"
    and m': "tm_budget m' = tm_budget m1" "tm_resources m' = tm_resources m1" "tm_workItems m' = tm_workItems m1" "tm_id m' = tm_id m1" "tm_intent m' = tm_intent m1"
    by (auto simp: putBlackboard_def bind_result_Inr Let_def)
  from reapExpired_winv(1,2) [OF assms(1) m1] m' show ?thesis by (rule kept)
qed

lemma ensureMissionRunnable_same:
  "ensureMissionRunnable now m = Inr (m', ok) \<Longrightarrow> tm_budget m' = tm_budget m \<and> tm_resources m' = tm_resources m
     \<and> tm_workItems m' = tm_workItems m \<and> tm_id m' = tm_id m \<and> tm_intent m' = tm_intent m \<and> tm_actionReceipts m' = tm_actionReceipts m
     \<and> tm_epoch m' = tm_epoch m \<and> tm_blackboard m' = tm_blackboard m \<and> tm_state m = MRunning \<and> tm_state m' \<noteq> MVerified \<and> (ok \<longrightarrow> m' = m)"
  by (auto simp: ensureMissionRunnable_def split: if_split_asm)

lemma authorize_held_Inr:
  assumes "authorize_held ca inp m = Inr (m', item')"
  obtains wn n lease keys rs where
      "requireLease (ca_now ca) (tm_workItems m ! n) (tw_id (tm_workers m ! wn)) (xi_leaseId inp) (tm_epoch m) = Inr lease"
      "requireWorker m (xi_workerId inp) = Inr wn" "requireWorkItem m (xi_workItemId inp) = Inr n"
      "xi_capability inp \<in> set (wi_allowedCapabilities (tm_workItems m ! n))" "xi_capability inp \<in> set (tw_capabilities (tm_workers m ! wn))"
      "xi_risk inp = Read \<or> xi_risk inp = wi_risk (tm_workItems m ! n)"
      "\<forall>k\<in>set (canonicalResourceKeys keys). check_requested m (tm_workItems m ! n) lease k = None"
      "each_resource (\<lambda>r. Inr (extend_lock (tl_id lease) (ca_now ca + tb_leaseMs (tm_budget m)) r)) (wi_resources (tm_workItems m ! n)) (tm_resources m) = Inr rs"
      "tm_budget m' = tm_budget m" "tm_resources m' = rs"
      "tm_workItems m' = (tm_workItems m)[n := touch_lease (ca_now ca) (ca_now ca + tb_leaseMs (tm_budget m)) (tm_workItems m ! n)]"
      "tm_id m' = tm_id m" "tm_intent m' = tm_intent m" "tm_state m' = tm_state m" "tm_actionReceipts m' = tm_actionReceipts m"
proof -
  from assms obtain wn n lease where A: "requireWorker m (xi_workerId inp) = Inr wn" "requireWorkItem m (xi_workItemId inp) = Inr n"
    "requireLease (ca_now ca) (tm_workItems m ! n) (tw_id (tm_workers m ! wn)) (xi_leaseId inp) (tm_epoch m) = Inr lease"
    by (auto simp: authorize_held_def bind_result_Inr Let_def)
  from assms have B: "xi_capability inp \<in> set (wi_allowedCapabilities (tm_workItems m ! n))" "xi_capability inp \<in> set (tw_capabilities (tm_workers m ! wn))"
    "xi_risk inp = Read \<or> xi_risk inp = wi_risk (tm_workItems m ! n)"
    unfolding authorize_held_def A bind_result_Inr_left Let_def by (auto simp: bind_result_Inr boundedText_def split: if_split_asm)
  with assms obtain keys where keys: "for_all_throw (check_requested m (tm_workItems m ! n) lease) (canonicalResourceKeys keys) = None"
    and C: "(if xi_risk inp \<noteq> Read \<and> wi_resources (tm_workItems m ! n) \<noteq> [] \<and> canonicalResourceKeys keys = [] then Inl (team_error ''TEAM_RESOURCE_REQUIRED'')
       else bind_result (each_resource (\<lambda>r. Inr (extend_lock (tl_id lease) (ca_now ca + tb_leaseMs (tm_budget m)) r)) (wi_resources (tm_workItems m ! n)) (tm_resources m)) (\<lambda>rs.
           Inr (appendEvent (ca_now ca) ''work.action_authorized'' (Some (tw_id (tm_workers m ! wn))) (Some (wi_id (tm_workItems m ! n)))
                  (Some [(''capability'', JStr (xi_capability inp)), (''risk'', JStr (risk_text (xi_risk inp))), (''resources'', JNum (int (length (canonicalResourceKeys keys))))])
                  (with_worker wn (\<lambda>w. w\<lparr>tw_heartbeatAt := ca_now ca\<rparr>)
                    ((with_item n (\<lambda>_. touch_lease (ca_now ca) (ca_now ca + tb_leaseMs (tm_budget m)) (tm_workItems m ! n)) m)\<lparr>tm_resources := rs, tm_updatedAt := ca_now ca\<rparr>)),
                touch_lease (ca_now ca) (ca_now ca + tb_leaseMs (tm_budget m)) (tm_workItems m ! n)))) = Inr (m', item')"
    unfolding authorize_held_def A bind_result_Inr_left Let_def
    by (auto simp: bind_result_Inr boundedText_def split: if_split_asm option.split_asm)
  from C obtain rs where "each_resource (\<lambda>r. Inr (extend_lock (tl_id lease) (ca_now ca + tb_leaseMs (tm_budget m)) r)) (wi_resources (tm_workItems m ! n)) (tm_resources m) = Inr rs"
     "tm_budget m' = tm_budget m" "tm_resources m' = rs"
      "tm_workItems m' = (tm_workItems m)[n := touch_lease (ca_now ca) (ca_now ca + tb_leaseMs (tm_budget m)) (tm_workItems m ! n)]"
      "tm_id m' = tm_id m" "tm_intent m' = tm_intent m" "tm_state m' = tm_state m" "tm_actionReceipts m' = tm_actionReceipts m"
    by (auto simp: bind_result_Inr split: if_split_asm)
  with A B keys show thesis by (intro that) (auto simp: for_all_throw_None_iff)
qed

lemma authorizeExecution_cases:
  assumes "authorizeExecution ca inp m = Inr (m', answer)"
  obtains (stopped) m1 where "reapExpired (ca_now ca) m = Inr m1" "ensureMissionRunnable (ca_now ca) m1 = Inr (m', False)" "\<exists>e. answer = Inl e"
  | (granted) m1 item' where "reapExpired (ca_now ca) m = Inr m1" "ensureMissionRunnable (ca_now ca) m1 = Inr (m1, True)"
      "authorize_held ca inp m1 = Inr (m', item')" "answer = Inr item'"
proof -
  from assms obtain m1 m2 ok where m1: "reapExpired (ca_now ca) m = Inr m1" "ensureMissionRunnable (ca_now ca) m1 = Inr (m2, ok)"
    by (auto simp: authorizeExecution_def bind_result_Inr)
  show thesis
  proof (cases ok)
    case False
    with assms m1 show thesis by (intro stopped [OF m1(1)]) (auto simp: authorizeExecution_def bind_result_Inr)
  next
    case True
    with ensureMissionRunnable_same [OF m1(2)] have "m2 = m1" by simp
    with assms m1 True show thesis by (auto simp: authorizeExecution_def bind_result_Inr intro: granted)
  qed
qed

lemma authorizeExecution_winv:
  assumes "winv co m" "authorizeExecution ca inp m = Inr (m', answer)"
  shows "winv co m' \<and> frame m m'"
  using assms(2)
proof (cases rule: authorizeExecution_cases)
  case (stopped m1)
  with ensureMissionRunnable_same [OF stopped(2)] reapExpired_winv(1,2) [OF assms(1) stopped(1)] show ?thesis
    by (intro kept [of _ m1]) auto
next
  case (granted m1 item')
  note R = reapExpired_winv(1,2) [OF assms(1) granted(1)]
  from granted(3) obtain n rs lease e where
    A: "each_resource (\<lambda>r. Inr (extend_lock lease e r)) (wi_resources (tm_workItems m1 ! n)) (tm_resources m1) = Inr rs"
      "tm_budget m' = tm_budget m1" "tm_resources m' = rs" "tm_workItems m' = (tm_workItems m1)[n := touch_lease (ca_now ca) e (tm_workItems m1 ! n)]"
      "tm_id m' = tm_id m1" "tm_intent m' = tm_intent m1"
    by (rule authorize_held_Inr) blast
  show ?thesis by (rule kept_touched [OF R A(1) _ A(2-)]) (auto simp: extend_lock_same)
qed

lemma beginActionExecution_work:
  "beginActionExecution co ca inp m = Inr (m', d) \<Longrightarrow> tm_budget m' = tm_budget m \<and> tm_resources m' = tm_resources m
     \<and> tm_workItems m' = tm_workItems m \<and> tm_id m' = tm_id m \<and> tm_intent m' = tm_intent m \<and> tm_state m' = tm_state m"
  by (auto simp: beginActionExecution_def bind_result_Inr set_receipt_def Let_def
      split: if_split_asm option.split_asm TeamReceiptState.split_asm)

lemma completeActionExecution_work:
  "completeActionExecution co ca inp r m = Inr m' \<Longrightarrow> tm_budget m' = tm_budget m \<and> tm_resources m' = tm_resources m
     \<and> tm_workItems m' = tm_workItems m \<and> tm_id m' = tm_id m \<and> tm_intent m' = tm_intent m \<and> tm_state m' = tm_state m"
  by (auto simp: completeActionExecution_def set_receipt_def Let_def split: if_split_asm option.split_asm)

lemma recordActionAuditFailure_work:
  "recordActionAuditFailure ca i r c m = Inr (m', d) \<Longrightarrow> tm_budget m' = tm_budget m \<and> tm_resources m' = tm_resources m
     \<and> tm_workItems m' = tm_workItems m \<and> tm_id m' = tm_id m \<and> tm_intent m' = tm_intent m \<and> tm_state m' = tm_state m"
  by (auto simp: recordActionAuditFailure_def Let_def split: option.split_asm)

lemma revokeWorker_winv:
  assumes "winv co m" "revokeWorker ca w m = Inr m'"
  shows "winv co m' \<and> frame m m'"
proof -
  from assms(2) obtain wn m1 where m1: "expire_where (ca_now ca) ''worker_revoked''
        (\<lambda>item. map_option tl_workerId (wi_lease item) = Some (tw_id (tm_workers m ! wn)))
        (with_worker wn (\<lambda>w. w\<lparr>tw_state := WsRevoked, tw_heartbeatAt := ca_now ca\<rparr>) m) = Inr m1"
    and m': "tm_budget m' = tm_budget m1" "tm_resources m' = tm_resources m1" "tm_workItems m' = tm_workItems m1" "tm_id m' = tm_id m1" "tm_intent m' = tm_intent m1"
    by (auto simp: revokeWorker_def bind_result_Inr Let_def)
  have "winv co (with_worker wn g m)" "frame m (with_worker wn g m)" for g using assms(1) by (simp_all add: winv_def frame_def)
  note W = this
  have E: "winv co m1" by (rule expire_where_winv(1) [OF W(1) m1]) auto
  have "frame m m1" by (rule frame_trans [OF W(2) expire_where_winv(3) [OF W(1) m1]]) auto
  note E this
  then show ?thesis using m' by (rule kept)
qed

section \<open>Claiming work\<close>

lemma resources_free_True:
  "resources_free rs ks = Inr True \<Longrightarrow> k \<in> set ks \<Longrightarrow> \<exists>r. find_resource rs k = Some r \<and> \<not> tr_uncertain r \<and> tr_lock r = None"
  by (induction ks) (auto simp: bind_result_Inr requireResource_Inr split: if_split_asm)

lemma candidates_Inr:
  assumes "candidates co m w = Inr ns" "n \<in> set ns"
  shows "n < length (tm_workItems m)" "claimable m w (tm_workItems m ! n)"
    "resources_free (tm_resources m) (wi_resources (tm_workItems m ! n)) = Inr True"
proof -
  let ?offered = "filter (\<lambda>n. claimable m w (tm_workItems m ! n)) [0..<length (tm_workItems m)]"
  from assms(1) obtain free where free: "map_throw (\<lambda>n. resources_free (tm_resources m) (wi_resources (tm_workItems m ! n))) ?offered = Inr free"
    and ns: "set ns = set (map fst (filter snd (zip ?offered free)))"
    by (auto simp: candidates_def bind_result_Inr Let_def)
  from assms(2) ns have "(n, True) \<in> set (zip ?offered free)" by force
  then obtain j where j: "j < length ?offered" "?offered ! j = n" "free ! j = True"
    using map_throw_length [OF free] by (auto simp: set_zip)
  have "n \<in> set ?offered" using j nth_mem by metis
  then show "n < length (tm_workItems m)" "claimable m w (tm_workItems m ! n)" by auto
  show "resources_free (tm_resources m) (wi_resources (tm_workItems m ! n)) = Inr True"
    using list_all2_nthD [OF free [unfolded map_throw_Inr_iff] j(1)] j by simp
qed

lemma live_leases_eq:
  assumes "locks_ok (tm_resources m) (tm_workItems m)" "\<forall>i\<in>set (tm_workItems m). \<not> lease_expired now i"
  shows "live_leases now m = leased_count (tm_workItems m)"
proof -
  have "wi_state i = WLeased \<longleftrightarrow> wi_state i = WLeased \<and> (case wi_lease i of None \<Rightarrow> False | Some l \<Rightarrow> tl_expiresAt l > now)"
    if "i \<in> set (tm_workItems m)" for i
    using locks_okD(3) [OF assms(1) that] bspec [OF assms(2) that] by (auto simp: lease_expired_def split: option.splits)
  then show ?thesis unfolding live_leases_def leased_count_def by (intro arg_cong [of _ _ length] filter_cong) blast+
qed

lemma each_taken:
  assumes "distinct (map tr_key rs)" "each_resource (\<lambda>r. Inr (r\<lparr>tr_lock := Some k\<rparr>)) (wi_resources i) rs = Inr rs'" "lk_leaseId k = leaseId"
  shows "list_all2 (taken leaseId i) rs rs'"
proof -
  have "list_all2 (\<lambda>r r'. tr_key r' = tr_key r \<and> touched (\<lambda>r. Inr (r\<lparr>tr_lock := Some k\<rparr>)) (wi_resources i) r r') rs rs'"
    by (rule each_resource_touched [OF assms(2,1)]) auto
  then show ?thesis
  proof (rule list_all2_mono, elim conjE)
    fix r r' assume t: "tr_key r' = tr_key r" "touched (\<lambda>r. Inr (r\<lparr>tr_lock := Some k\<rparr>)) (wi_resources i) r r'"
    show "taken leaseId i r r'"
    proof (cases "tr_key r \<in> set (wi_resources i)")
      case True
      have "tr_lock r' = Some k \<and> tr_uncertain r' = tr_uncertain r" using t(2) True by (rule touched_inv) auto
      with True t(1) assms(3) show ?thesis by (simp add: taken_def locked_by_def)
    next
      case False
      with t show ?thesis by (simp add: taken_def touched_def)
    qed
  qed
qed

lemma grant_lease_winv:
  assumes inv: "winv co m" and fresh: "fresh_lease (ca_uuid ca) (tm_workItems m)" and n: "n < length (tm_workItems m)"
    and c: "claimable m w (tm_workItems m ! n)" and f: "resources_free (tm_resources m) (wi_resources (tm_workItems m ! n)) = Inr True"
    and b: "int (leased_count (tm_workItems m)) < tb_maxConcurrentLeases (tm_budget m)"
    and a: "wi_attempts (tm_workItems m ! n) < tb_maxAttemptsPerWorkItem (tm_budget m)"
    and g: "grant_lease ca wn n m = Inr (m', item)"
  shows "winv co m' \<and> frame m m'"
proof -
  have W: "work_inv co (tm_budget m) (tm_resources m) (tm_workItems m)" using inv by (simp add: winv_def)
  note L = work_invD(1) [OF W]
  let ?e = "ca_now ca + tb_leaseMs (tm_budget m)" and ?w = "tw_id (tm_workers m ! wn)" and ?i = "wi_id (tm_workItems m ! n)"
  define k where "k = \<lparr>lk_leaseId = ca_uuid ca, lk_workerId = ?w, lk_workItemId = ?i, lk_expiresAt = ?e\<rparr>"
  from g obtain base rs where rs: "each_resource (\<lambda>r. Inr (r\<lparr>tr_lock := Some k\<rparr>)) (wi_resources (tm_workItems m ! n)) (tm_resources m) = Inr rs"
    and G: "base_revisions (tm_resources m) (wi_resources (tm_workItems m ! n)) = Inr base"
    by (auto simp: grant_lease_def bind_result_Inr Let_def k_def)
  define lease where "lease = \<lparr>tl_id = ca_uuid ca, tl_workerId = ?w, tl_workItemId = ?i, tl_epoch = tm_epoch m, tl_acquiredAt = ca_now ca,
      tl_heartbeatAt = ca_now ca, tl_expiresAt = ?e, tl_baseResourceRevisions = base\<rparr>"
  have k: "lk_leaseId k = ca_uuid ca" "tl_id lease = ca_uuid ca" by (simp_all add: k_def lease_def)
  from g rs G have m': "tm_resources m' = rs" "tm_workItems m' = (tm_workItems m)[n := (tm_workItems m ! n)\<lparr>wi_attempts := wi_attempts (tm_workItems m ! n) + 1,
        wi_lease := Some lease, wi_state := WLeased\<rparr>]" "tm_budget m' = tm_budget m" "tm_id m' = tm_id m" "tm_intent m' = tm_intent m"
    by (auto simp: grant_lease_def bind_result_Inr_left Let_def k_def lease_def)
  let ?new = "(tm_workItems m ! n)\<lparr>wi_attempts := wi_attempts (tm_workItems m ! n) + 1, wi_lease := Some lease, wi_state := WLeased\<rparr>"
  have pending: "wi_state (tm_workItems m ! n) = WPending" using c by (simp add: claimable_def)
  have "work_inv co (tm_budget m) rs ((tm_workItems m)[n := ?new])"
  proof (rule work_inv_granted [OF W n _ pending])
    show "wi_lease (tm_workItems m ! n) = None" using locks_okD(3) [OF L nth_mem [OF n]] pending by auto
    show "set (wi_dependsOn (tm_workItems m ! n)) \<subseteq> completed_keys (tm_workItems m)"
      using c by (auto simp: claimable_def completed_keys_def list_all_iff)
    show "tr_lock r = None \<and> \<not> tr_uncertain r" if "r \<in> set (tm_resources m)" "tr_key r \<in> set (wi_resources (tm_workItems m ! n))" for r
      using resources_free_True [OF f that(2)] that(1) by (auto simp: find_resource_iff [OF locks_okD(1) [OF L]] dest: inj_onD [OF distinct_map [THEN iffD1, OF locks_okD(1) [OF L], THEN conjunct2]])
    show "list_all2 (taken (tl_id lease) ?new) (tm_resources m) rs"
      using rs k by (intro each_taken [OF locks_okD(1) [OF L]]) auto
    show "attempts_ok (tm_budget m) ?new" using a work_invD(3) [OF W nth_mem [OF n]] by (simp add: attempts_ok_def)
  qed (use b fresh k in \<open>simp_all add: same_work_def\<close>)
  then have "winv co m'" by (simp add: winv_def m')
  moreover have "map static_item (tm_workItems m') = map static_item (tm_workItems m)"
    unfolding m'(2) by (rule map_static_update) (simp add: static_item_simps)
  ultimately show ?thesis using m' by (simp add: frame_def)
qed

lemma exhaust_item_winv:
  assumes "winv co m" "n < length (tm_workItems m)" "wi_state (tm_workItems m ! n) = WPending"
  shows "winv co (exhaust_item ca wn n m) \<and> frame m (exhaust_item ca wn n m)"
proof
  show "frame m (exhaust_item ca wn n m)" by (simp add: frame_def exhaust_item_def map_static_update static_item_simps)
  have "work_inv co (tm_budget m) (tm_resources m) (tm_workItems m)" using assms(1) by (simp add: winv_def)
  then have "work_inv co (tm_budget m) (tm_resources m) ((tm_workItems m)[n := (tm_workItems m ! n)\<lparr>wi_state := WFailed,
      wi_failure := Some \<lparr>tf_code = ''TEAM_ATTEMPT_BUDGET_EXHAUSTED'', tf_message = ''Work item exhausted attempt budget.'', tf_at = ca_now ca\<rparr>\<rparr>])"
    by (rule work_inv_quiet [OF _ list_all2_update_refl]) (use assms(3) in \<open>simp_all add: same_work_def quiet_def started_def\<close>)
  then show "winv co (exhaust_item ca wn n m)" by (simp add: winv_def exhaust_item_def)
qed

text \<open>What a claim by an active worker does once the mission may run.\<close>

definition offer :: "TeamCoordinator \<Rightarrow> TeamCall \<Rightarrow> nat \<Rightarrow> TeamMission \<Rightarrow> (TeamMission \<times> TeamWorkItem option) result" where
  "offer co ca wn m =
     (if int (live_leases (ca_now ca) m) \<ge> tb_maxConcurrentLeases (tm_budget m) then Inr (m, None)
      else bind_result (candidates co m (tm_workers m ! wn)) (\<lambda>cs. case cs of [] \<Rightarrow> Inr (m, None)
         | n # _ \<Rightarrow> if wi_attempts (tm_workItems m ! n) \<ge> tb_maxAttemptsPerWorkItem (tm_budget m)
             then Inr (exhaust_item ca wn n m, None) else grant_lease ca wn n m))"

lemma offer_cases:
  assumes "offer co ca wn m = Inr (m', item)"
  obtains (nothing) "m' = m" "item = None"
  | (exhausted) n where "n < length (tm_workItems m)" "claimable m (tm_workers m ! wn) (tm_workItems m ! n)" "m' = exhaust_item ca wn n m" "item = None"
  | (granted) n where "n < length (tm_workItems m)"
      "claimable m (tm_workers m ! wn) (tm_workItems m ! n)" "resources_free (tm_resources m) (wi_resources (tm_workItems m ! n)) = Inr True"
      "int (live_leases (ca_now ca) m) < tb_maxConcurrentLeases (tm_budget m)"
      "wi_attempts (tm_workItems m ! n) < tb_maxAttemptsPerWorkItem (tm_budget m)" "grant_lease ca wn n m = Inr (m', item)"
proof (cases "int (live_leases (ca_now ca) m) \<ge> tb_maxConcurrentLeases (tm_budget m)")
  case True
  show thesis by (rule nothing) (use assms True in \<open>simp_all add: offer_def\<close>)
next
  case False
  with assms obtain cs where cs: "candidates co m (tm_workers m ! wn) = Inr cs" by (auto simp: offer_def bind_result_Inr)
  show thesis
  proof (cases cs)
    case Nil
    show thesis by (rule nothing) (use Nil assms cs False in \<open>simp_all add: offer_def bind_result_Inr_left\<close>)
  next
    case (Cons n ns)
    note C = candidates_Inr [OF cs, of n, unfolded Cons, simplified]
    show thesis
    proof (cases "wi_attempts (tm_workItems m ! n) \<ge> tb_maxAttemptsPerWorkItem (tm_budget m)")
      case True
      with assms cs False Cons show thesis by (intro exhausted [OF C(1,2)]) (simp_all add: offer_def bind_result_Inr_left)
    next
      case small: False
      with assms cs False Cons show thesis by (intro granted [OF C]) (simp_all add: offer_def bind_result_Inr_left)
    qed
  qed
qed

lemma claim_cases:
  assumes "claim co ca w m = Inr (m', item)"
  obtains (idle) m1 where "reapExpired (ca_now ca) m = Inr m1" "ensureMissionRunnable (ca_now ca) m1 = Inr (m', False)" "item = None"
  | (offered) m1 wn where "reapExpired (ca_now ca) m = Inr m1" "ensureMissionRunnable (ca_now ca) m1 = Inr (m1, True)"
      "requireWorker m1 w = Inr wn" "offer co ca wn m1 = Inr (m', item)"
proof -
  from assms obtain m1 m2 ok where m1: "reapExpired (ca_now ca) m = Inr m1" "ensureMissionRunnable (ca_now ca) m1 = Inr (m2, ok)"
    by (auto simp: claim_def bind_result_Inr)
  show thesis
  proof (cases ok)
    case False
    with assms m1 show thesis by (intro idle [OF m1(1)]) (auto simp: claim_def bind_result_Inr)
  next
    case True
    with ensureMissionRunnable_same [OF m1(2)] have m2: "m2 = m1" by simp
    with assms m1 True obtain wn where wn: "requireWorker m1 w = Inr wn" by (auto simp: claim_def bind_result_Inr)
    from assms have "offer co ca wn m1 = Inr (m', item)"
      using m1 m2 True wn unfolding claim_def offer_def by (auto simp: bind_result_Inr Let_def split: if_split_asm)
    with m1 m2 True wn show thesis by (intro offered) simp_all
  qed
qed

lemma offer_winv:
  assumes "winv co m" "\<forall>i\<in>set (tm_workItems m). \<not> lease_expired (ca_now ca) i" "fresh_lease (ca_uuid ca) (tm_workItems m)" "offer co ca wn m = Inr (m', item)"
  shows "winv co m' \<and> frame m m'"
  using assms(4)
proof (cases rule: offer_cases)
  case (exhausted n)
  then have "wi_state (tm_workItems m ! n) = WPending" by (simp add: claimable_def)
  from exhaust_item_winv [OF assms(1) exhausted(1) this] exhausted(3) show ?thesis by simp
next
  case (granted n)
  have "int (leased_count (tm_workItems m)) < tb_maxConcurrentLeases (tm_budget m)"
    using granted(4) live_leases_eq [OF _ assms(2)] assms(1) by (simp add: winv_def work_inv_def)
  from grant_lease_winv [OF assms(1,3) granted(1-3) this granted(5,6)] show ?thesis .
qed (use assms in simp)

lemma claim_winv:
  assumes "winv co m" "fresh_lease (ca_uuid ca) (tm_workItems m)" "claim co ca w m = Inr (m', item)"
  shows "winv co m' \<and> frame m m'"
  using assms(3)
proof (cases rule: claim_cases)
  case (idle m1)
  note R = reapExpired_winv(1,2) [OF assms(1) idle(1)]
  from ensureMissionRunnable_same [OF idle(2)] show ?thesis by (intro kept [OF R]) auto
next
  case (offered m1 wn)
  note R = reapExpired_winv [OF assms(1) offered(1)]
  from offer_winv [OF R(1,3) R(6) [OF assms(2)] offered(4)] R(2) show ?thesis by (auto intro: frame_trans)
qed

section \<open>Finishing work\<close>

lemma finalizeIfVerified_simps [simp]:
  "tm_resources (finalizeIfVerified now m) = tm_resources m" "tm_workItems (finalizeIfVerified now m) = tm_workItems m"
  "tm_budget (finalizeIfVerified now m) = tm_budget m" "tm_id (finalizeIfVerified now m) = tm_id m" "tm_intent (finalizeIfVerified now m) = tm_intent m"
  "tm_actionReceipts (finalizeIfVerified now m) = tm_actionReceipts m"
  by (simp_all add: finalizeIfVerified_def split: option.split)

lemma finalizeIfVerified_state:
  "tm_state (finalizeIfVerified now m) = MVerified \<Longrightarrow> tm_state m \<noteq> MVerified
     \<Longrightarrow> list_all (\<lambda>i. wi_state i = WCompleted) (tm_workItems m) \<and> list_ex passing_verifier (tm_workItems m)"
  by (auto simp: finalizeIfVerified_def list_all_iff list_ex_iff split: if_split_asm option.split_asm dest!: find_SomeD)

lemma freed_step:
  assumes "winv co m" "n < length (tm_workItems m)" "busy (tm_workItems m ! n)"
    and "each_resource (\<lambda>r. Inr (g r)) (wi_resources (tm_workItems m ! n)) (tm_resources m) = Inr rs"
    and "static_item i' = static_item (tm_workItems m ! n)" "wi_lease i' = None" "wi_state i' \<noteq> WLeased"
      "wi_attempts i' = wi_attempts (tm_workItems m ! n)" "verifier_ok co i'"
    and "\<And>r. tr_key (g r) = tr_key r" "\<And>r. wi_state i' = WNeedsReconciliation \<Longrightarrow> tr_uncertain (g r)"
    and "\<And>r. r \<in> set (tm_resources m) \<Longrightarrow> tr_key r \<in> set (wi_resources (tm_workItems m ! n)) \<Longrightarrow> tr_lock (g r) = None"
      "\<And>r. tr_lock r = None \<Longrightarrow> tr_lock (g r) = None"
    and "tm_budget m' = tm_budget m" "tm_resources m' = rs" "tm_workItems m' = (tm_workItems m)[n := i']" "tm_id m' = tm_id m" "tm_intent m' = tm_intent m"
  shows "winv co m' \<and> frame m m'"
proof
  have W: "work_inv co (tm_budget m) (tm_resources m) (tm_workItems m)" using assms(1) by (simp add: winv_def)
  have sw: "same_work (tm_workItems m ! n) i'" by (rule static_same_work [OF assms(5)])
  have "list_all2 (freed i') (tm_resources m) rs"
    by (rule each_freed [OF work_invD(1) [OF W] assms(4)]) (use sw assms in \<open>auto simp: same_work_def\<close>)
  with work_inv_freed [OF W assms(2,3) sw assms(6-9)] show "winv co m'" using assms by (simp add: winv_def)
  have "map static_item (tm_workItems m') = map static_item (tm_workItems m)" unfolding assms(16) by (rule map_static_update [OF assms(5)])
  with assms show "frame m m'" by (simp add: frame_def)
qed

lemma lease_unlocks:
  assumes "winv co m" "n < length (tm_workItems m)" "wi_lease (tm_workItems m ! n) = Some lease" "r \<in> set (tm_resources m)"
    "tr_key r \<in> set (wi_resources (tm_workItems m ! n))"
  shows "locked_by (tl_id lease) r"
  using assms locks_okD(4) [OF work_invD(1) nth_mem [OF assms(2)] assms(3-5)] by (simp add: winv_def)

definition digests_hex :: "TeamCoordinator \<Rightarrow> bool" where
  "digests_hex co \<longleftrightarrow> (\<forall>b. hex64 (co_receiptDigest co b))"

lemma held_work_Inr:
  assumes "held_work now inp m = Inr (wn, n, lease)"
  shows "requireWorker m (cm_workerId inp) = Inr wn" "n < length (tm_workItems m)" "wi_lease (tm_workItems m ! n) = Some lease"
    "wi_state (tm_workItems m ! n) = WLeased" "requireWorkItem m (cm_workItemId inp) = Inr n"
    "\<forall>kb\<in>set (tl_baseResourceRevisions lease). check_base_revision m lease kb = None"
proof -
  from assms have A: "requireWorker m (cm_workerId inp) = Inr wn" "requireWorkItem m (cm_workItemId inp) = Inr n"
    "requireLease now (tm_workItems m ! n) (tw_id (tm_workers m ! wn)) (cm_leaseId inp) (tm_epoch m) = Inr lease"
    "for_all_throw (check_base_revision m lease) (tl_baseResourceRevisions lease) = None"
    by (auto simp: held_work_def bind_result_Inr split: option.split_asm)
  then show "requireWorker m (cm_workerId inp) = Inr wn" "requireWorkItem m (cm_workItemId inp) = Inr n" "n < length (tm_workItems m)"
    by (simp_all add: requireWorkItem_Inr)
  show "wi_lease (tm_workItems m ! n) = Some lease" "wi_state (tm_workItems m ! n) = WLeased" using requireLease_Inr [OF A(3)] by simp_all
  show "\<forall>kb\<in>set (tl_baseResourceRevisions lease). check_base_revision m lease kb = None" using A(4) by (simp add: for_all_throw_None_iff)
qed

lemma complete_commit_Inr:
  assumes "complete_commit co now inp prepared m = Inr m'"
  obtains m1 wn n lease digest rs result where "reapExpired now m = Inr m1" "held_work now inp m1 = Inr (wn, n, lease)"
      "verify_work co inp prepared m1 (tm_workItems m1 ! n) = Inr digest"
      "each_resource (\<lambda>r. Inr (release_resource now (tm_workItems m1 ! n) r)) (wi_resources (tm_workItems m1 ! n)) (tm_resources m1) = Inr rs"
      "wi_role (tm_workItems m1 ! n) = RVerifier \<Longrightarrow> wr_verificationPassed result = Some True \<and> wr_verificationDigest result = truthy digest"
      "tm_resources m' = rs" "tm_workItems m' = (tm_workItems m1)[n := (tm_workItems m1 ! n)\<lparr>wi_result := Some result, wi_state := WCompleted, wi_lease := None\<rparr>]"
      "tm_budget m' = tm_budget m1" "tm_id m' = tm_id m1" "tm_intent m' = tm_intent m1" "tm_actionReceipts m' = tm_actionReceipts m1"
      "\<exists>x. m' = finalizeIfVerified now x \<and> tm_state x = tm_state m1 \<and> tm_workItems x = tm_workItems m'"
proof -
  from assms obtain m1 wn n lease digest where A: "reapExpired now m = Inr m1" "held_work now inp m1 = Inr (wn, n, lease)"
      "verify_work co inp prepared m1 (tm_workItems m1 ! n) = Inr digest"
    by (auto simp: complete_commit_def bind_result_Inr Let_def)
  from assms obtain summary evidence rs where
    B: "each_resource (\<lambda>r. Inr (release_resource now (tm_workItems m1 ! n) r)) (wi_resources (tm_workItems m1 ! n)) (tm_resources m1) = Inr rs"
      "boundedText (cm_summary inp) 65536 = Inr summary" "validateEvidence (or_default [] (cm_evidence inp)) = Inr evidence"
      "check_world_observation co inp (tm_workItems m1 ! n) = Inr ()"
    by (auto simp: complete_commit_def bind_result_Inr Let_def A)
  define result where "result = \<lparr>wr_summary = summary, wr_evidence = evidence,
           wr_verificationPassed = (if wi_role (tm_workItems m1 ! n) = RVerifier then Some True else None),
           wr_verificationDigest = (if wi_role (tm_workItems m1 ! n) = RVerifier then truthy digest else None),
           wr_worldObservationDigest = map_option to_lower (truthy (cm_worldObservationDigest inp)),
           wr_completedAt = now, wr_workerId = tw_id (tm_workers m1 ! wn)\<rparr>"
  let ?x = "appendEvent now ''work.completed'' (Some (tw_id (tm_workers m1 ! wn))) (Some (wi_id (tm_workItems m1 ! n)))
         (Some [(''risk'', JStr (risk_text (wi_risk (tm_workItems m1 ! n))))])
         (with_worker wn (\<lambda>w. w\<lparr>tw_heartbeatAt := now\<rparr>)
           ((with_item n (\<lambda>i. i\<lparr>wi_result := Some result, wi_state := WCompleted, wi_lease := None\<rparr>) m1)
              \<lparr>tm_resources := rs, tm_updatedAt := now\<rparr>))"
  from assms have "m' = finalizeIfVerified now ?x"
    unfolding complete_commit_def A B bind_result_Inr_left prod.case Let_def result_def by simp
  then obtain x where x: "m' = finalizeIfVerified now x" "tm_state x = tm_state m1" "tm_resources x = rs"
    "tm_workItems x = (tm_workItems m1)[n := (tm_workItems m1 ! n)\<lparr>wi_result := Some result, wi_state := WCompleted, wi_lease := None\<rparr>]"
    "tm_budget x = tm_budget m1" "tm_id x = tm_id m1" "tm_intent x = tm_intent m1" "tm_actionReceipts x = tm_actionReceipts m1"
    by (rule that) simp_all
  show thesis
    by (rule that [OF A B(1), of result]) (use x in \<open>auto simp: result_def\<close>)
qed

lemma verify_work_digest:
  assumes "digests_hex co" "verify_work co inp prepared m item = Inr digest" "wi_role item = RVerifier"
  shows "\<exists>d. digest = Some d \<and> hex64 d"
  using assms by (auto simp: verify_work_def verify_def bind_result_Inr digests_hex_def Let_def split: if_split_asm)

lemma complete_commit_winv:
  assumes "digests_hex co" "winv co m" "complete_commit co now inp prepared m = Inr m'"
  shows "winv co m' \<and> frame m m'"
  using assms(3)
proof (rule complete_commit_Inr)
  fix m1 wn n lease digest rs result
  assume A: "reapExpired now m = Inr m1" "held_work now inp m1 = Inr (wn, n, lease)" "verify_work co inp prepared m1 (tm_workItems m1 ! n) = Inr digest"
      "each_resource (\<lambda>r. Inr (release_resource now (tm_workItems m1 ! n) r)) (wi_resources (tm_workItems m1 ! n)) (tm_resources m1) = Inr rs"
      "wi_role (tm_workItems m1 ! n) = RVerifier \<Longrightarrow> wr_verificationPassed result = Some True \<and> wr_verificationDigest result = truthy digest"
      "tm_resources m' = rs" "tm_workItems m' = (tm_workItems m1)[n := (tm_workItems m1 ! n)\<lparr>wi_result := Some result, wi_state := WCompleted, wi_lease := None\<rparr>]"
      "tm_budget m' = tm_budget m1" "tm_id m' = tm_id m1" "tm_intent m' = tm_intent m1"
  let ?i = "(tm_workItems m1 ! n)\<lparr>wi_result := Some result, wi_state := WCompleted, wi_lease := None\<rparr>"
  note R = reapExpired_winv(1,2) [OF assms(2) A(1)] and H = held_work_Inr [OF A(2)]
  have "verifier_ok co ?i"
    using verify_work_digest [OF assms(1) A(3)] A(5) by (auto simp: verifier_ok_def passing_verifier_def truthy_def hex64_def)
  then have "winv co m' \<and> frame m1 m'"
    using A H by (intro freed_step [OF R(1) H(2) _ A(4), of ?i]) (auto simp: busy_def static_item_simps release_resource_def)
  with R(2) show ?thesis by (auto intro: frame_trans)
qed

lemma fail_team_Inr:
  assumes "fail_team ca inp m = Inr m'"
  obtains m1 n lease rs i' where "reapExpired (ca_now ca) m = Inr m1" "n < length (tm_workItems m1)"
      "wi_lease (tm_workItems m1 ! n) = Some lease" "wi_state (tm_workItems m1 ! n) = WLeased"
      "each_resource (\<lambda>r. Inr (fail_resource (ca_now ca) (tm_workItems m1 ! n) (tl_id lease) (fi_sideEffectState inp) r))
         (wi_resources (tm_workItems m1 ! n)) (tm_resources m1) = Inr rs"
      "static_item i' = static_item (tm_workItems m1 ! n)" "wi_lease i' = None" "wi_attempts i' = wi_attempts (tm_workItems m1 ! n)"
      "wi_state i' = WNeedsReconciliation \<longleftrightarrow> fi_sideEffectState inp = SeUncertain" "wi_state i' \<in> {WNeedsReconciliation, WPending, WFailed}"
      "tm_resources m' = rs" "tm_workItems m' = (tm_workItems m1)[n := i']" "tm_budget m' = tm_budget m1" "tm_id m' = tm_id m1"
      "tm_intent m' = tm_intent m1" "tm_actionReceipts m' = tm_actionReceipts m1" "tm_state m' \<in> {MBlocked, MFailed, tm_state m1}"
proof -
  from assms obtain m1 wn n lease code message rs where A: "reapExpired (ca_now ca) m = Inr m1" "requireWorker m1 (fi_workerId inp) = Inr wn"
      "requireWorkItem m1 (fi_workItemId inp) = Inr n"
      "requireLease (ca_now ca) (tm_workItems m1 ! n) (tw_id (tm_workers m1 ! wn)) (fi_leaseId inp) (tm_epoch m1) = Inr lease"
      "team_boundedKey (fi_code inp) = Inr code" "boundedText (fi_message inp) 65536 = Inr message"
      "each_resource (\<lambda>r. Inr (fail_resource (ca_now ca) (tm_workItems m1 ! n) (tl_id lease) (fi_sideEffectState inp) r))
         (wi_resources (tm_workItems m1 ! n)) (tm_resources m1) = Inr rs"
    by (auto simp: fail_team_def bind_result_Inr Let_def)
  define retry where "retry = (fi_retryable inp = Some True \<and> fi_sideEffectState inp = SeNone
      \<and> wi_attempts (tm_workItems m1 ! n) < tb_maxAttemptsPerWorkItem (tm_budget m1))"
  define i' where "i' = (tm_workItems m1 ! n)\<lparr>wi_lease := None, wi_failure := Some \<lparr>tf_code = code, tf_message = message, tf_at = ca_now ca\<rparr>,
      wi_state := (if fi_sideEffectState inp = SeUncertain then WNeedsReconciliation else if retry then WPending else WFailed)\<rparr>"
  have "tm_resources m' = rs \<and> tm_workItems m' = (tm_workItems m1)[n := i'] \<and> tm_budget m' = tm_budget m1 \<and> tm_id m' = tm_id m1
     \<and> tm_intent m' = tm_intent m1 \<and> tm_actionReceipts m' = tm_actionReceipts m1 \<and> tm_state m' \<in> {MBlocked, MFailed, tm_state m1}"
    using assms unfolding fail_team_def A bind_result_Inr_left Let_def i'_def retry_def by (auto simp del: if_image_distrib)
  moreover have "static_item i' = static_item (tm_workItems m1 ! n)" by (simp add: i'_def static_item_simps)
  moreover have "wi_state i' = WNeedsReconciliation \<longleftrightarrow> fi_sideEffectState inp = SeUncertain" "wi_state i' \<in> {WNeedsReconciliation, WPending, WFailed}"
    "wi_lease i' = None" "wi_attempts i' = wi_attempts (tm_workItems m1 ! n)" by (auto simp: i'_def)
  ultimately show thesis
    using requireLease_Inr [OF A(4)] requireWorkItem_Inr [OF A(3)] by (intro that [OF A(1) _ _ _ A(7), of i']) auto
qed

lemma fail_team_winv:
  assumes "winv co m" "fail_team ca inp m = Inr m'"
  shows "winv co m' \<and> frame m m'"
  using assms(2)
proof (rule fail_team_Inr)
  fix m1 n lease rs i'
  assume A: "reapExpired (ca_now ca) m = Inr m1" "n < length (tm_workItems m1)"
      "wi_lease (tm_workItems m1 ! n) = Some lease" "wi_state (tm_workItems m1 ! n) = WLeased"
      "each_resource (\<lambda>r. Inr (fail_resource (ca_now ca) (tm_workItems m1 ! n) (tl_id lease) (fi_sideEffectState inp) r))
         (wi_resources (tm_workItems m1 ! n)) (tm_resources m1) = Inr rs"
      "static_item i' = static_item (tm_workItems m1 ! n)" "wi_lease i' = None" "wi_attempts i' = wi_attempts (tm_workItems m1 ! n)"
      "wi_state i' = WNeedsReconciliation \<longleftrightarrow> fi_sideEffectState inp = SeUncertain" "wi_state i' \<in> {WNeedsReconciliation, WPending, WFailed}"
      "tm_resources m' = rs" "tm_workItems m' = (tm_workItems m1)[n := i']" "tm_budget m' = tm_budget m1" "tm_id m' = tm_id m1" "tm_intent m' = tm_intent m1"
  note R = reapExpired_winv(1,2) [OF assms(1) A(1)]
  have "winv co m' \<and> frame m1 m'"
    using A by (intro freed_step [OF R(1) A(2) _ A(5,6,7) _ A(8)])
      (auto simp: busy_def verifier_ok_def fail_resource_def unlock_def Let_def dest: lease_unlocks [OF R(1) A(2,3)])
  with R(2) show ?thesis by (auto intro: frame_trans)
qed

lemma reconcile_team_Inr:
  assumes "reconcile_team co ca inp m = Inr m'"
  obtains n rs i' where "n < length (tm_workItems m)" "wi_state (tm_workItems m ! n) = WNeedsReconciliation"
      "if co_requireKernelVerification co then rs = tm_resources m \<and> wi_state i' = WFailed
       else each_resource (\<lambda>r. Inr (reconcile_resource (ca_now ca) r)) (wi_resources (tm_workItems m ! n)) (tm_resources m) = Inr rs"
      "static_item i' = static_item (tm_workItems m ! n)" "wi_lease i' = wi_lease (tm_workItems m ! n)" "wi_attempts i' = wi_attempts (tm_workItems m ! n)"
      "wi_state i' \<in> {WCompleted, WPending, WFailed}"
      "tm_resources m' = rs" "tm_workItems m' = (tm_workItems m)[n := i']" "tm_budget m' = tm_budget m" "tm_id m' = tm_id m"
      "tm_intent m' = tm_intent m" "tm_actionReceipts m' = tm_actionReceipts m"
      "\<exists>x. m' = finalizeIfVerified (ca_now ca) x \<and> tm_state x \<in> {MFailed, MRunning, tm_state m} \<and> tm_workItems x = tm_workItems m'"
proof -
  from assms obtain wn n where A0: "requireWorker m (ri_workerId inp) = Inr wn" "requireWorkItem m (ri_workItemId inp) = Inr n"
    by (auto simp: reconcile_team_def bind_result_Inr Let_def split: if_split_asm)
  let ?k = "co_requireKernelVerification co"
  from assms have A1: "wi_state (tm_workItems m ! n) = WNeedsReconciliation" "\<not> (?k \<and> ri_resolution inp \<noteq> ResFailed)"
      "\<not> (tw_role (tm_workers m ! wn) \<noteq> RSupervisor \<and> tw_role (tm_workers m ! wn) \<noteq> RVerifier)"
    unfolding reconcile_team_def A0 bind_result_Inr_left Let_def by (auto split: if_split_asm)
  from assms obtain evidence rs i' where A2: "validateEvidence (or_default [] (ri_evidence inp)) = Inr evidence"
      "(if ?k then Inr (tm_resources m)
        else each_resource (\<lambda>r. Inr (reconcile_resource (ca_now ca) r)) (wi_resources (tm_workItems m ! n)) (tm_resources m)) = Inr rs"
      "resolve_item (ca_now ca) (tw_id (tm_workers m ! wn)) inp evidence (tb_maxAttemptsPerWorkItem (tm_budget m)) (tm_workItems m ! n) = Inr i'"
    unfolding reconcile_team_def A0 bind_result_Inr_left Let_def using A1 by (simp only: bind_result_Inr if_False simp_thms) blast
  note A = A0 A1(1,2) A2
  from A(7) have I: "static_item i' = static_item (tm_workItems m ! n)" "wi_lease i' = wi_lease (tm_workItems m ! n)"
    "wi_attempts i' = wi_attempts (tm_workItems m ! n)" "wi_state i' \<in> {WCompleted, WPending, WFailed}"
    "ri_resolution inp = ResFailed \<Longrightarrow> wi_state i' = WFailed"
    by (auto simp: resolve_item_def bind_result_Inr static_item_simps split: team_resolution.split_asm if_split_asm)
  let ?m1 = "appendEvent (ca_now ca) ''work.reconciled'' (Some (tw_id (tm_workers m ! wn))) (Some (wi_id (tm_workItems m ! n)))
      (Some [(''resolution'', JStr (resolution_text (ri_resolution inp)))])
      ((with_item n (\<lambda>_. i') m)\<lparr>tm_resources := rs, tm_updatedAt := ca_now ca, tm_state := (if ri_resolution inp = ResFailed then MFailed else tm_state m)\<rparr>)"
  define x where "x = (if tm_state ?m1 = MBlocked \<and> \<not> list_ex tr_uncertain (tm_resources ?m1) then ?m1\<lparr>tm_state := MRunning\<rparr> else ?m1)"
  have m': "m' = finalizeIfVerified (ca_now ca) x"
    using assms A1 unfolding reconcile_team_def A bind_result_Inr_left Let_def x_def by (simp only: if_False simp_thms sum.inject)
  have "tm_resources x = rs" "tm_workItems x = (tm_workItems m)[n := i']" "tm_budget x = tm_budget m" "tm_id x = tm_id m"
    "tm_intent x = tm_intent m" "tm_actionReceipts x = tm_actionReceipts m" "tm_state x \<in> {MFailed, MRunning, tm_state m}"
    by (auto simp: x_def)
  with m' I A show thesis
    by (intro that [OF requireWorkItem_Inr [OF A(2)] A(3) _ I(1-4)]) (auto split: if_split_asm)
qed

lemma reconcile_team_winv:
  assumes "winv co m" "reconcile_team co ca inp m = Inr m'"
  shows "winv co m' \<and> frame m m'"
  using assms(2)
proof (rule reconcile_team_Inr)
  fix n rs i'
  assume A: "n < length (tm_workItems m)" "wi_state (tm_workItems m ! n) = WNeedsReconciliation"
      "if co_requireKernelVerification co then rs = tm_resources m \<and> wi_state i' = WFailed
       else each_resource (\<lambda>r. Inr (reconcile_resource (ca_now ca) r)) (wi_resources (tm_workItems m ! n)) (tm_resources m) = Inr rs"
      "static_item i' = static_item (tm_workItems m ! n)" "wi_lease i' = wi_lease (tm_workItems m ! n)" "wi_attempts i' = wi_attempts (tm_workItems m ! n)"
      "wi_state i' \<in> {WCompleted, WPending, WFailed}"
      "tm_resources m' = rs" "tm_workItems m' = (tm_workItems m)[n := i']" "tm_budget m' = tm_budget m" "tm_id m' = tm_id m" "tm_intent m' = tm_intent m"
  have W: "work_inv co (tm_budget m) (tm_resources m) (tm_workItems m)" using assms(1) by (simp add: winv_def)
  have none: "wi_lease (tm_workItems m ! n) = None" using locks_okD(3) [OF work_invD(1) [OF W] nth_mem [OF A(1)]] A(2) by auto
  show ?thesis
  proof (cases "co_requireKernelVerification co")
    case True
    with A have B: "rs = tm_resources m" "wi_state i' = WFailed" by simp_all
    have "work_inv co (tm_budget m) (tm_resources m) ((tm_workItems m)[n := i'])"
      using W by (rule work_inv_quiet [OF _ list_all2_update_refl])
        (use A B static_same_work [OF A(4)] in \<open>simp_all add: same_work_def quiet_def started_def\<close>)
    with A B show ?thesis by (simp add: winv_def frame_def map_static_update)
  next
    case False
    with A(3) have rs: "each_resource (\<lambda>r. Inr (reconcile_resource (ca_now ca) r)) (wi_resources (tm_workItems m ! n)) (tm_resources m) = Inr rs" by simp
    show ?thesis
      by (rule freed_step [OF assms(1) A(1) _ rs A(4)]) (use A none False in \<open>auto simp: busy_def verifier_ok_def reconcile_resource_def\<close>)
  qed
qed

end
