(* ===== verification/TeamDemo.thy ===== *)
theory TeamDemo
  imports TeamSteps
begin

text \<open>
  One concrete mission, evaluated step by step: two work items, two workers, kernel verification required. Other
  theories use it as an instance of their properties.
\<close>

definition demo_uuid :: "char \<Rightarrow> string" where
  "demo_uuid c = ''00000000-0000-4000-8000-00000000000'' @ [c]"

definition demo_co :: TeamCoordinator where
  "demo_co = \<lparr>co_requireKernelVerification = True, co_actionJournal = False, co_kernelAvailable = True,
     co_sha256 = (\<lambda>s. replicate 32 (if last s = CHR ''d'' then 1 else 2)), co_collate = id, co_actionDigest = (\<lambda>_. ''digest''),
     co_stateDigest = (\<lambda>_. ''state''), co_contractDigest = (\<lambda>_. ''contract''), co_receiptDigest = (\<lambda>_. replicate 64 CHR ''a'')\<rparr>"

definition demo_call :: "int \<Rightarrow> char \<Rightarrow> TeamCall" where
  "demo_call now c = \<lparr>ca_now = now, ca_uuid = demo_uuid c, ca_intentRegistry = None\<rparr>"

definition demo_build :: string where
  "demo_build = ''01010101-0101-5101-8101-010101010101''"

definition demo_verify :: string where
  "demo_verify = ''02020202-0202-5202-8202-020202020202''"

lemma demo_ids:
  "stableWorkItemId (co_sha256 demo_co) (demo_uuid CHR ''1'') ''build'' = demo_build"
  "stableWorkItemId (co_sha256 demo_co) (demo_uuid CHR ''1'') ''verify'' = demo_verify"
  by code_simp+

lemma demo_uuids: "validUuid demo_build = Inr demo_build" "validUuid demo_verify = Inr demo_verify"
  by code_simp+

lemma demo_uuid_valid:
  "validUuid (demo_uuid CHR ''1'') = Inr (demo_uuid CHR ''1'')" "validUuid (demo_uuid CHR ''2'') = Inr (demo_uuid CHR ''2'')"
  "validUuid (demo_uuid CHR ''3'') = Inr (demo_uuid CHR ''3'')" "validUuid (demo_uuid CHR ''4'') = Inr (demo_uuid CHR ''4'')"
  "validUuid (demo_uuid CHR ''5'') = Inr (demo_uuid CHR ''5'')"
  by code_simp+

lemma demo_distinct: "demo_build \<noteq> demo_verify" "(demo_uuid c = demo_uuid d) = (c = d)"
  by (simp_all add: demo_build_def demo_verify_def demo_uuid_def)

definition demo_submission :: TeamSubmission where
  "demo_submission = \<lparr>sb_missionId = None, sb_objective = ''ship'',
     sb_workItems =
      [\<lparr>wn_key = ''build'', wn_title = ''build'', wn_role = RCoder, wn_risk = Some Write, wn_priority = None, wn_dependsOn = None,
        wn_resources = Some [''repo''], wn_allowedCapabilities = None\<rparr>,
       \<lparr>wn_key = ''verify'', wn_title = ''verify'', wn_role = RVerifier, wn_risk = None, wn_priority = None, wn_dependsOn = Some [''build''],
        wn_resources = Some [''repo''], wn_allowedCapabilities = None\<rparr>],
     sb_budget = \<lparr>bi_maxWorkers = None, bi_maxConcurrentLeases = None, bi_maxAttemptsPerWorkItem = None, bi_maxWallClockMs = Some 60000,
       bi_leaseMs = None\<rparr>,
     sb_intent = None\<rparr>"

text \<open>An item of the mission and its resource, in the states they go through.\<close>

definition demo_item :: "string \<Rightarrow> TeamRole \<Rightarrow> TeamWorkState \<Rightarrow> int \<Rightarrow> TeamLease option \<Rightarrow> TeamWorkResult option \<Rightarrow> TeamWorkItem" where
  "demo_item key role st attempts lease result =
     \<lparr>wi_id = (if role = RCoder then demo_build else demo_verify), wi_key = key, wi_title = key, wi_role = role,
      wi_risk = (if role = RCoder then Write else Read), wi_priority = 0, wi_dependsOn = (if role = RCoder then [] else [''build'']),
      wi_resources = [''repo''], wi_allowedCapabilities = [], wi_state = st, wi_attempts = attempts, wi_lease = lease, wi_result = result,
      wi_failure = None\<rparr>"

definition demo_repo :: "int \<Rightarrow> int \<Rightarrow> TeamLock option \<Rightarrow> TeamResource" where
  "demo_repo revision now lock = \<lparr>tr_key = ''repo'', tr_revision = revision, tr_uncertain = False, tr_updatedAt = now, tr_lock = lock\<rparr>"

definition demo_worker :: "char \<Rightarrow> TeamRole \<Rightarrow> int \<Rightarrow> int \<Rightarrow> TeamWorker" where
  "demo_worker c role registered beat = \<lparr>tw_id = demo_uuid c, tw_role = role, tw_label = ''worker'', tw_capabilities = [], tw_registeredAt = registered,
     tw_heartbeatAt = beat, tw_state = WsActive\<rparr>"

definition demo_budget :: TeamBudget where
  "demo_budget = \<lparr>tb_maxWorkers = 16, tb_maxConcurrentLeases = 8, tb_maxAttemptsPerWorkItem = 3, tb_maxWallClockMs = 60000, tb_leaseMs = 300000\<rparr>"

definition demo_m0 :: TeamMission where
  "demo_m0 = appendEvent 0 ''mission.submitted'' None None (Some [(''workItems'', JNum 2), (''resources'', JNum 1)])
     \<lparr>tm_version = 1, tm_id = demo_uuid CHR ''1'', tm_objective = ''ship'', tm_intent = None, tm_state = MPending, tm_epoch = 1,
      tm_budget = demo_budget, tm_workers = [], tm_resources = [demo_repo 0 0 None],
      tm_workItems = [demo_item ''build'' RCoder WPending 0 None None, demo_item ''verify'' RVerifier WPending 0 None None], tm_blackboard = [],
      tm_events = [], tm_actionReceipts = [], tm_startedAt = None, tm_deadlineAt = None, tm_createdAt = 0, tm_updatedAt = 0\<rparr>"

lemmas demo_data = demo_item_def demo_repo_def demo_worker_def demo_budget_def demo_call_def

lemma demo_text: "team_boundedKey ''build'' = Inr ''build''" "team_boundedKey ''verify'' = Inr ''verify''"
  "normalizeResourceKey ''repo'' = Inr ''repo''"
  by code_simp+

lemma demo_work:
  "map_throw (normalize_work demo_co (demo_uuid CHR ''1'')) (sb_workItems demo_submission) = Inr (tm_workItems demo_m0)"
  by (simp add: demo_submission_def normalize_work_def demo_text bind_result_Inr_left demo_ids demo_m0_def demo_item_def boundedText_def
      bounded_text_def nul_char_def team_uniqueStrings_def or_default_def boundedInteger_def is_safe_integer_def max_safe_integer_def)

lemma demo_graph: "check_work_graph (tm_workItems demo_m0) = Inr ()"
  by (simp add: check_work_graph_def demo_m0_def demo_item_def require_that_def item_keys_def team_assertAcyclic_def item_deps_def
      transitivelyDependsOn_def bind_result_Inr_left Let_def)

lemma demo_submit: "submit_mission demo_co (demo_call 0 CHR ''1'') demo_submission = Inr demo_m0"
proof -
  have fields: "sb_objective demo_submission = ''ship''" "sb_intent demo_submission = None" "sb_missionId demo_submission = None"
    "length (sb_workItems demo_submission) = 2" "normalizeBudget (sb_budget demo_submission) = Inr demo_budget"
    by (simp_all add: demo_submission_def normalizeBudget_def demo_budget_def boundedInteger_def is_safe_integer_def max_safe_integer_def
        or_default_def bind_result_Inr_left)
  have keys: "distinct (item_keys (tm_workItems demo_m0))" "unique_sorted (concat (map wi_resources (tm_workItems demo_m0))) = [''repo'']"
    by (simp_all add: item_keys_def demo_m0_def demo_item_def unique_sorted_def)
  have "length (tm_workItems demo_m0) = 2" by (simp add: demo_m0_def)
  then show ?thesis
    unfolding submit_mission_def fields
    by (simp add: keys demo_work demo_graph bind_result_Inr_left boundedText_def bounded_text_def nul_char_def submit_intent_def require_that_def
        Let_def demo_call_def) (simp add: demo_m0_def demo_repo_def)
qed

text \<open>What the next steps read of the mission.\<close>

definition demo_view :: "TeamMission \<Rightarrow> TeamMissionState \<Rightarrow> int option \<Rightarrow> TeamWorker list \<Rightarrow> TeamResource list \<Rightarrow> TeamWorkItem list \<Rightarrow> bool" where
  "demo_view m st deadline workers resources items \<longleftrightarrow> tm_version m = 1 \<and> tm_id m = demo_uuid CHR ''1'' \<and> tm_objective m = ''ship'' \<and> tm_intent m = None
     \<and> tm_state m = st \<and> tm_epoch m = 1 \<and> tm_budget m = demo_budget \<and> tm_workers m = workers \<and> tm_resources m = resources \<and> tm_workItems m = items
     \<and> tm_blackboard m = [] \<and> tm_actionReceipts m = [] \<and> tm_deadlineAt m = deadline \<and> length (tm_events m) \<le> 20000"

lemma appendEvent_view: "demo_view m st dl ws rs is \<Longrightarrow> demo_view (appendEvent now k w i d m) st dl ws rs is"
  by (auto simp: demo_view_def appendEvent_def Let_def)

lemma demo_pass [simp]:
  "tm_version (appendEvent now k w i d m) = tm_version m" "tm_objective (appendEvent now k w i d m) = tm_objective m"
  "length (tm_events (appendEvent now k w i d m)) \<le> 20000"
  "tm_version (with_item n f m) = tm_version m" "tm_objective (with_item n f m) = tm_objective m" "tm_events (with_item n f m) = tm_events m"
  "tm_version (with_worker n g m) = tm_version m" "tm_objective (with_worker n g m) = tm_objective m" "tm_events (with_worker n g m) = tm_events m"
  "tm_deadlineAt (with_item n f m) = tm_deadlineAt m" "tm_deadlineAt (with_worker n g m) = tm_deadlineAt m"
  "tm_workers (with_worker n g m) = (tm_workers m)[n := g (tm_workers m ! n)]"
  by (simp_all add: appendEvent_def with_item_def with_worker_def Let_def)

lemma demo_view0: "demo_view demo_m0 MPending None [] [demo_repo 0 0 None]
   [demo_item ''build'' RCoder WPending 0 None None, demo_item ''verify'' RVerifier WPending 0 None None]"
  unfolding demo_m0_def by (rule appendEvent_view) (simp add: demo_view_def)

text \<open>No lease is due.\<close>

lemma demo_reap:
  assumes "demo_view m st dl ws rs is" "\<forall>i\<in>set is. \<not> lease_expired now i" "\<forall>w\<in>set ws. now - tw_heartbeatAt w \<le> 600000" "\<forall>r\<in>set rs. \<not> tr_uncertain r"
  shows "reapExpired now m = Inr m"
proof -
  have "fold_throw (expire_if now r (lease_expired now)) ns m = Inr m" if "set ns \<subseteq> {0..<length is}" for ns r
    using that assms(1,2) by (induction ns) (auto simp: expire_if_def demo_view_def bind_result_Inr_left)
  moreover have "map (worker_offline now (tb_leaseMs (tm_budget m))) (tm_workers m) = tm_workers m"
    using assms(1,3) by (intro map_idI) (auto simp: demo_view_def worker_offline_def demo_budget_def)
  ultimately show ?thesis using assms(1,4)
    by (auto simp: reapExpired_def expire_where_def demo_view_def bind_result_Inr_left list_ex_iff)
qed

definition demo_lease :: "char \<Rightarrow> char \<Rightarrow> string \<Rightarrow> int \<Rightarrow> int \<Rightarrow> TeamLease" where
  "demo_lease c worker item now revision = \<lparr>tl_id = demo_uuid c, tl_workerId = demo_uuid worker, tl_workItemId = item, tl_epoch = 1, tl_acquiredAt = now,
     tl_heartbeatAt = now, tl_expiresAt = now + 300000, tl_baseResourceRevisions = [(''repo'', revision)]\<rparr>"

definition demo_lock :: "char \<Rightarrow> char \<Rightarrow> string \<Rightarrow> int \<Rightarrow> TeamLock" where
  "demo_lock c worker item now = \<lparr>lk_leaseId = demo_uuid c, lk_workerId = demo_uuid worker, lk_workItemId = item, lk_expiresAt = now + 300000\<rparr>"

definition demo_result :: "TeamRole \<Rightarrow> int \<Rightarrow> char \<Rightarrow> TeamWorkResult" where
  "demo_result role now worker = \<lparr>wr_summary = ''ok'', wr_evidence = [], wr_verificationPassed = (if role = RVerifier then Some True else None),
     wr_verificationDigest = (if role = RVerifier then Some (replicate 64 CHR ''a'') else None), wr_worldObservationDigest = None, wr_completedAt = now,
     wr_workerId = demo_uuid worker\<rparr>"

definition demo_completion :: "char \<Rightarrow> string \<Rightarrow> char \<Rightarrow> TeamCompletionInput" where
  "demo_completion worker item lease = \<lparr>cm_workerId = demo_uuid worker, cm_workItemId = item, cm_leaseId = demo_uuid lease, cm_summary = ''ok'',
     cm_evidence = None, cm_verificationPassed = None, cm_worldObservationDigest = None\<rparr>"

definition demo_canonical :: "canonical_verification result" where
  "demo_canonical = Inr (JNull, [\<lparr>vc_name = ''probe'', vc_ok = True, vc_detail = ''fresh'',
     vc_evidenceDigests = Some [replicate 64 CHR ''a'', replicate 64 CHR ''b'', replicate 64 CHR ''c'']\<rparr>])"

abbreviation "build0 \<equiv> demo_item ''build'' RCoder WPending 0 None None"
abbreviation "build1 \<equiv> demo_item ''build'' RCoder WLeased 1 (Some (demo_lease CHR ''4'' CHR ''2'' demo_build 4 0)) None"
abbreviation "build2 \<equiv> demo_item ''build'' RCoder WCompleted 1 None (Some (demo_result RCoder 5 CHR ''2''))"
abbreviation "verify0 \<equiv> demo_item ''verify'' RVerifier WPending 0 None None"
abbreviation "verify1 \<equiv> demo_item ''verify'' RVerifier WLeased 1 (Some (demo_lease CHR ''5'' CHR ''3'' demo_verify 6 1)) None"
abbreviation "verify2 \<equiv> demo_item ''verify'' RVerifier WCompleted 1 None (Some (demo_result RVerifier 62000 CHR ''3''))"

text \<open>The mission starts, a coder and a verifier join, and the coder claims the work.\<close>

lemma demo_start:
  assumes "demo_view m MPending None [] [demo_repo 0 0 None] [build0, verify0]"
  shows "\<exists>m'. mission_step demo_co m (TStart (demo_call 1 CHR ''0'')) = Inr m' \<and> demo_view m' MRunning (Some 60001) [] [demo_repo 0 0 None] [build0, verify0]"
proof -
  have "reapExpired 1 m = Inr m" by (rule demo_reap [OF assms]) (auto simp: lease_expired_def demo_data)
  then show ?thesis using assms
    by (simp add: start_team_def assertForwardIntent_def bind_result_Inr_left demo_view_def demo_call_def demo_budget_def)
qed

definition demo_register :: "char \<Rightarrow> TeamRole \<Rightarrow> TeamRegistration" where
  "demo_register c role = \<lparr>rg_workerId = Some (demo_uuid c), rg_role = role, rg_label = ''worker'', rg_capabilities = None\<rparr>"

lemma demo_coder_joins:
  assumes "demo_view m MRunning (Some 60001) [] [demo_repo 0 0 None] [build0, verify0]"
  shows "\<exists>m'. mission_step demo_co m (TRegister (demo_call 2 CHR ''0'') (demo_register CHR ''2'' RCoder)) = Inr m'
    \<and> demo_view m' MRunning (Some 60001) [demo_worker CHR ''2'' RCoder 2 2] [demo_repo 0 0 None] [build0, verify0]"
proof -
  have "reapExpired 2 m = Inr m" by (rule demo_reap [OF assms]) (auto simp: lease_expired_def demo_data)
  then show ?thesis using assms
    by (simp add: registerWorker_def demo_register_def demo_uuid_valid bind_result_Inr_left demo_view_def demo_call_def demo_budget_def Let_def
        boundedText_def bounded_text_def nul_char_def team_uniqueStrings_def or_default_def demo_worker_def)
qed

lemma demo_verifier_joins:
  assumes "demo_view m MRunning (Some 60001) [demo_worker CHR ''2'' RCoder 2 2] [demo_repo 0 0 None] [build0, verify0]"
  shows "\<exists>m'. mission_step demo_co m (TRegister (demo_call 3 CHR ''0'') (demo_register CHR ''3'' RVerifier)) = Inr m'
    \<and> demo_view m' MRunning (Some 60001) [demo_worker CHR ''2'' RCoder 2 2, demo_worker CHR ''3'' RVerifier 3 3] [demo_repo 0 0 None] [build0, verify0]"
proof -
  have "reapExpired 3 m = Inr m" by (rule demo_reap [OF assms]) (auto simp: lease_expired_def demo_data)
  then show ?thesis using assms
    by (simp add: registerWorker_def demo_register_def demo_uuid_valid demo_distinct bind_result_Inr_left demo_view_def demo_call_def demo_budget_def Let_def
        boundedText_def bounded_text_def nul_char_def team_uniqueStrings_def or_default_def demo_worker_def)
qed

lemma demo_coder_claims:
  assumes "demo_view m MRunning (Some 60001) [demo_worker CHR ''2'' RCoder 2 2, demo_worker CHR ''3'' RVerifier 3 3] [demo_repo 0 0 None] [build0, verify0]"
  shows "\<exists>m'. mission_step demo_co m (TClaim (demo_call 4 CHR ''4'') (demo_uuid CHR ''2'')) = Inr m'
    \<and> demo_view m' MRunning (Some 60001) [demo_worker CHR ''2'' RCoder 2 4, demo_worker CHR ''3'' RVerifier 3 3]
        [demo_repo 0 0 (Some (demo_lock CHR ''4'' CHR ''2'' demo_build 4))] [build1, verify0]"
proof -
  have "reapExpired 4 m = Inr m" by (rule demo_reap [OF assms]) (auto simp: lease_expired_def demo_data)
  then show ?thesis using assms
    by (simp add: claim_def assertForwardIntent_def ensureMissionRunnable_def requireWorker_def live_leases_def candidates_def claimable_def
        requireResource_def find_resource_def grant_lease_def base_revisions_def each_resource_def demo_lock_def demo_lease_def
        demo_uuid_valid demo_distinct bind_result_Inr_left demo_view_def demo_data Let_def)
qed

text \<open>The coder completes the work; the verifier claims; the deadline passes; the verifier completes.\<close>

lemma demo_valid:
  assumes "demo_view m st dl ws rs is" "length ws \<le> 64" "length rs \<le> 5000" "length is \<le> 1000"
    "\<forall>i\<in>set is. case wi_result i of None \<Rightarrow> True | Some r \<Rightarrow> wr_verificationDigest r = None"
  shows "validateMission m = Inr m"
  using assms
  by (auto simp: validateMission_def demo_view_def require_that_def demo_uuid_valid boundedText_def bounded_text_def nul_char_def boundedInteger_def
      is_safe_integer_def max_safe_integer_def normalizeBudget_def full_budget_def or_default_def demo_budget_def bind_result_Inr_left digest_ok_def
      list_all_iff bind_eq_Some_conv split: option.splits)

lemma demo_coder_completes:
  assumes "demo_view m MRunning (Some 60001) [demo_worker CHR ''2'' RCoder 2 4, demo_worker CHR ''3'' RVerifier 3 3]
        [demo_repo 0 0 (Some (demo_lock CHR ''4'' CHR ''2'' demo_build 4))] [build1, verify0]"
  shows "\<exists>m'. mission_step demo_co m (TComplete (demo_call 5 CHR ''0'') (demo_completion CHR ''2'' demo_build CHR ''4'') 5 m demo_canonical) = Inr m'
    \<and> demo_view m' MRunning (Some 60001) [demo_worker CHR ''2'' RCoder 2 5, demo_worker CHR ''3'' RVerifier 3 3] [demo_repo 1 5 None] [build2, verify0]"
proof -
  have R: "reapExpired 5 m = Inr m" by (rule demo_reap [OF assms]) (auto simp: lease_expired_def demo_data demo_lease_def)
  have V: "validateMission m = Inr m" by (rule demo_valid [OF assms]) (auto simp: demo_item_def)
  have H: "held_work 5 (demo_completion CHR ''2'' demo_build CHR ''4'') m = Inr (0, 0, demo_lease CHR ''4'' CHR ''2'' demo_build 4 0)"
    using assms by (simp add: held_work_def demo_completion_def requireWorker_def requireWorkItem_def requireLease_def demo_uuid_valid demo_uuids
        demo_distinct check_base_revision_def requireResource_def find_resource_def locked_by_def demo_lock_def demo_lease_def bind_result_Inr_left demo_view_def demo_data)
  have P: "complete_prepare demo_co 5 (demo_completion CHR ''2'' demo_build CHR ''4'') demo_canonical m = Inr None"
    using assms V R H by (simp add: complete_prepare_def bind_result_Inr_left demo_view_def demo_item_def Let_def demo_co_def)
  show ?thesis using assms R H
    by (simp add: complete_team_def complete_commit_def P demo_call_def bind_result_Inr_left Let_def)
      (simp add: verify_work_def check_world_observation_def demo_completion_def boundedText_def bounded_text_def nul_char_def
        validateEvidence_def or_default_def each_resource_def release_resource_def requireResource_def find_resource_def finalizeIfVerified_def
        demo_result_def truthy_def bind_result_Inr_left demo_view_def demo_data Let_def)
qed

lemma demo_verifier_claims:
  assumes "demo_view m MRunning (Some 60001) [demo_worker CHR ''2'' RCoder 2 5, demo_worker CHR ''3'' RVerifier 3 3] [demo_repo 1 5 None] [build2, verify0]"
  shows "\<exists>m'. mission_step demo_co m (TClaim (demo_call 6 CHR ''5'') (demo_uuid CHR ''3'')) = Inr m'
    \<and> demo_view m' MRunning (Some 60001) [demo_worker CHR ''2'' RCoder 2 5, demo_worker CHR ''3'' RVerifier 3 6]
        [demo_repo 1 5 (Some (demo_lock CHR ''5'' CHR ''3'' demo_verify 6))] [build2, verify1]"
proof -
  have "reapExpired 6 m = Inr m" by (rule demo_reap [OF assms]) (auto simp: lease_expired_def demo_data)
  then show ?thesis using assms
    by (simp add: claim_def assertForwardIntent_def ensureMissionRunnable_def requireWorker_def live_leases_def candidates_def claimable_def
        requireResource_def find_resource_def grant_lease_def base_revisions_def each_resource_def demo_lock_def demo_lease_def
        demo_uuid_valid demo_distinct bind_result_Inr_left demo_view_def demo_data Let_def)
qed

lemma demo_deadline:
  assumes "demo_view m MRunning (Some 60001) [demo_worker CHR ''2'' RCoder 2 5, demo_worker CHR ''3'' RVerifier 3 6]
        [demo_repo 1 5 (Some (demo_lock CHR ''5'' CHR ''3'' demo_verify 6))] [build2, verify1]"
  shows "\<exists>m'. mission_step demo_co m (TClaim (demo_call 61000 CHR ''6'') (demo_uuid CHR ''2'')) = Inr m'
    \<and> demo_view m' MFailed (Some 60001) [demo_worker CHR ''2'' RCoder 2 5, demo_worker CHR ''3'' RVerifier 3 6]
        [demo_repo 1 5 (Some (demo_lock CHR ''5'' CHR ''3'' demo_verify 6))] [build2, verify1]"
proof -
  have "reapExpired 61000 m = Inr m" by (rule demo_reap [OF assms]) (auto simp: lease_expired_def demo_data demo_lease_def)
  then show ?thesis using assms
    by (simp add: claim_def assertForwardIntent_def ensureMissionRunnable_def bind_result_Inr_left demo_view_def demo_call_def)
qed

lemma demo_held:
  assumes "demo_view m MFailed (Some 60001) [demo_worker CHR ''2'' RCoder 2 5, demo_worker CHR ''3'' RVerifier 3 6]
        [demo_repo 1 5 (Some (demo_lock CHR ''5'' CHR ''3'' demo_verify 6))] [build2, verify1]"
  shows "reapExpired 62000 m = Inr m"
    "held_work 62000 (demo_completion CHR ''3'' demo_verify CHR ''5'') m = Inr (1, 1, demo_lease CHR ''5'' CHR ''3'' demo_verify 6 1)"
proof -
  show "reapExpired 62000 m = Inr m" by (rule demo_reap [OF assms]) (auto simp: lease_expired_def demo_data demo_lease_def)
  show "held_work 62000 (demo_completion CHR ''3'' demo_verify CHR ''5'') m = Inr (1, 1, demo_lease CHR ''5'' CHR ''3'' demo_verify 6 1)"
    using assms demo_distinct(1) by (simp add: held_work_def demo_completion_def requireWorker_def requireWorkItem_def requireLease_def demo_uuid_valid demo_uuids
        demo_distinct check_base_revision_def requireResource_def find_resource_def locked_by_def demo_lock_def demo_lease_def bind_result_Inr_left demo_view_def demo_data)
qed

lemma demo_verify_passes:
  assumes "length contract < 400" "nul_char \<notin> set contract" "\<forall>c\<in>set checks. \<exists>r. normalize_check c = Inr r \<and> rc_ok r" "distinct (map vc_name checks)"
    "checks \<noteq> []" "length checks < 100" "contract \<noteq> []"
  shows "\<exists>r. verify cd (\<lambda>_. d) collate ''team-verifier'' contract x checks = Inr r \<and> vb_verified (vk_body r) \<and> vk_digest r = d"
proof -
  from assms(3) obtain cs where cs: "map_throw normalize_check checks = Inr cs" using map_throw_total [of checks normalize_check] by blast
  then have L: "list_all2 (\<lambda>c r. normalize_check c = Inr r) checks cs" by (simp add: map_throw_Inr_iff)
  then have "map rc_name cs = map vc_name checks" by (induction rule: list_all2_induct) (auto dest: normalize_check_InrD)
  moreover have "list_all rc_ok cs" using L assms(3) by (induction rule: list_all2_induct) auto
  moreover have "\<not> length checks < 1" using assms(5) by (cases checks) auto
  ultimately show ?thesis
    using assms cs by (cases contract) (auto simp: verify_def bounded_text_def nul_char_def bind_result_Inr_left Let_def list_all_iff)
qed

lemma demo_verifier_completes:
  assumes "demo_view m MFailed (Some 60001) [demo_worker CHR ''2'' RCoder 2 5, demo_worker CHR ''3'' RVerifier 3 6]
        [demo_repo 1 5 (Some (demo_lock CHR ''5'' CHR ''3'' demo_verify 6))] [build2, verify1]"
  shows "\<exists>m'. mission_step demo_co m (TComplete (demo_call 62000 CHR ''0'') (demo_completion CHR ''3'' demo_verify CHR ''5'') 62000 m demo_canonical) = Inr m'
    \<and> demo_view m' MVerified (Some 60001) [demo_worker CHR ''2'' RCoder 2 5, demo_worker CHR ''3'' RVerifier 3 62000] [demo_repo 1 62000 None] [build2, verify2]"
proof -
  let ?c = "[\<lparr>vc_name = ''probe'', vc_ok = True, vc_detail = ''fresh'',
     vc_evidenceDigests = Some [replicate 64 CHR ''a'', replicate 64 CHR ''b'', replicate 64 CHR ''c'']\<rparr>]"
  note H = demo_held [OF assms]
  have V: "validateMission m = Inr m" by (rule demo_valid [OF assms]) (auto simp: demo_item_def demo_result_def)
  have P: "complete_prepare demo_co 62000 (demo_completion CHR ''3'' demo_verify CHR ''5'') demo_canonical m = Inr (Some ((JNull, ?c), ''state''))"
    using assms V H by (simp add: complete_prepare_def bind_result_Inr_left demo_view_def demo_item_def Let_def demo_co_def demo_canonical_def
        teamVerificationStateDigest_def)
  have digests: "hex64 (replicate 64 CHR ''a'')" "hex64 (replicate 64 CHR ''b'')" "hex64 (replicate 64 CHR ''c'')"
    by (simp_all add: hex64_def list_all_iff is_hex_def is_hex_lower_def is_digit_def char_in_def)
  have W: "verify_work demo_co (demo_completion CHR ''3'' demo_verify CHR ''5'') (Some ((JNull, ?c), ''state'')) m verify1 = Inr (Some (replicate 64 CHR ''a''))"
  proof -
    have deps: "transitivelyDependsOn ''verify'' ''build'' [build2, verify1]" "\<not> transitivelyDependsOn ''verify'' ''verify'' [build2, verify1]"
      by (simp_all add: transitivelyDependsOn_def item_deps_def demo_item_def)
    have ids: "wi_id build2 = demo_build" "wi_id verify1 = demo_verify" "wi_key build2 = ''build''" "wi_key verify1 = ''verify''" "wi_role verify1 = RVerifier"
      "wi_state build2 = WCompleted" "wi_allowedCapabilities build2 = []" by (simp_all add: demo_item_def)
    have m: "tm_workItems m = [build2, verify1]" "tm_id m = demo_uuid CHR ''1''" "tm_actionReceipts m = []" "list_all (\<lambda>r. \<not> tr_uncertain r) (tm_resources m)"
      using assms by (auto simp: demo_view_def demo_repo_def)
    have covered: "covered_items m verify1 = [build2]" by (simp add: covered_items_def m ids deps demo_distinct)
    have actions: "completed_actions m [build2] = []" by (simp add: completed_actions_def m)
    define checks where "checks = team_checks demo_co m verify1 (Some (JNull, ?c))"
    have k: "co_requireKernelVerification demo_co" "co_receiptDigest demo_co = (\<lambda>_. replicate 64 CHR ''a'')" "co_stateDigest demo_co = (\<lambda>_. ''state'')"
      by (simp_all add: demo_co_def)
    have names: "map vc_name checks = [''covered-work-completed'', ''covered-work-action-backed'', ''covered-action-evidence'',
        ''verifier-observation-evidence'', ''kernel-action-proofs'', ''resources-certain'', ''probe'']"
      by (simp add: checks_def team_checks_def Let_def team_check_def)
    have norm: "\<forall>c\<in>set checks. \<exists>r. normalize_check c = Inr r \<and> rc_ok r"
      by (simp add: checks_def team_checks_def covered actions m(4) k ids Let_def team_check_def normalize_check_def bounded_text_def nul_char_def digests or_default_def)
    have "length checks = 7" using arg_cong [OF names, of length] by simp
    with demo_verify_passes [of "demo_uuid CHR ''1'' @ '':'' @ demo_verify" checks] norm names obtain r where
      "verify (co_contractDigest demo_co) (\<lambda>_. replicate 64 CHR ''a'') (co_collate demo_co) ''team-verifier'' (demo_uuid CHR ''1'' @ '':'' @ demo_verify)
        (team_contract m verify1 (Some (JNull, ?c))) checks = Inr r" "vb_verified (vk_body r)" "vk_digest r = replicate 64 CHR ''a''"
      by (force simp: demo_uuid_def demo_verify_def nul_char_def)
    then show ?thesis by (simp add: verify_work_def k ids m teamVerificationStateDigest_def Let_def checks_def bind_result_Inr_left)
  qed
  have I: "tm_workItems m ! Suc 0 = verify1" using assms by (simp add: demo_view_def)
  show ?thesis using assms H
    by (simp add: complete_team_def complete_commit_def P I W demo_call_def bind_result_Inr_left Let_def)
      (simp add: check_world_observation_def demo_completion_def boundedText_def bounded_text_def nul_char_def
        validateEvidence_def or_default_def each_resource_def release_resource_def requireResource_def find_resource_def finalizeIfVerified_def
        passing_verifier_def digests demo_result_def truthy_def bind_result_Inr_left demo_view_def demo_data Let_def)
qed

end
