(* ===== verification/Team.thy ===== *)
theory Team
  imports TeamDemo
begin

text \<open>
  Histories of the team coordinator: the mission invariant, verified missions, action receipts and the
  blackboard, with the properties of the coordinator.
\<close>

section \<open>One step\<close>

text \<open>\<open>randomUUID\<close> gives a lease an identity that no lease of the mission has.\<close>

definition lease_unused :: "TeamMission \<Rightarrow> team_op \<Rightarrow> bool" where
  "lease_unused m op = (case op of TClaim ca w \<Rightarrow> fresh_lease (ca_uuid ca) (tm_workItems m) | _ \<Rightarrow> True)"

lemma map_sum_Inr: "map_sum id f r = Inr y \<longleftrightarrow> (\<exists>x. r = Inr x \<and> y = f x)"
  by (cases r) auto

lemma complete_team_Inr:
  "complete_team co ca inp earlier before canonical m = Inr m'
     \<longleftrightarrow> (\<exists>prepared. complete_prepare co earlier inp canonical before = Inr prepared \<and> complete_commit co (ca_now ca) inp prepared m = Inr m')"
  by (simp add: complete_team_def bind_result_Inr)

lemma mission_step_winv:
  assumes "digests_hex co" "winv co m" "lease_unused m op" "mission_step co m op = Inr m'"
  shows "winv co m' \<and> frame m m'"
proof (cases op)
  case (TClaim ca w)
  with assms(3,4) show ?thesis by (auto simp: lease_unused_def map_sum_Inr dest: claim_winv [OF assms(2)])
next
  case (TBegin ca inp)
  with assms(4) obtain d where "beginActionExecution co ca inp m = Inr (m', d)" by (auto simp: map_sum_Inr)
  from beginActionExecution_work [OF this] show ?thesis by (intro kept [OF assms(2) frame_refl]) auto
next
  case (TFinish ca inp r)
  with assms(4) completeActionExecution_work [of co ca inp r m m'] show ?thesis by (intro kept [OF assms(2) frame_refl]) auto
next
  case (TAuditFailure ca i r c)
  with assms(4) obtain d where "recordActionAuditFailure ca i r c m = Inr (m', d)" by (auto simp: map_sum_Inr)
  from recordActionAuditFailure_work [OF this] show ?thesis by (intro kept [OF assms(2) frame_refl]) auto
qed (use assms in \<open>auto simp: map_sum_Inr complete_team_Inr
      dest: start_team_winv pause_team_winv resume_team_winv cancel_team_winv registerWorker_winv heartbeat_winv putBlackboard_winv
        authorizeExecution_winv complete_commit_winv fail_team_winv reconcile_team_winv revokeWorker_winv\<close>)

section \<open>A verified mission\<close>

definition all_completed :: "TeamMission \<Rightarrow> bool" where
  "all_completed m \<longleftrightarrow> list_all (\<lambda>i. wi_state i = WCompleted) (tm_workItems m)"

definition verified_ok :: "TeamMission \<Rightarrow> bool" where
  "verified_ok m \<longleftrightarrow> (tm_state m = MVerified \<longrightarrow> all_completed m \<and> list_ex passing_verifier (tm_workItems m))"

text \<open>A verified mission stays as it is; a mission becomes verified with all its work completed and a passing verifier.\<close>

definition final :: "TeamMission \<Rightarrow> TeamMission \<Rightarrow> bool" where
  "final m m' \<longleftrightarrow> (if tm_state m = MVerified then tm_state m' = MVerified \<and> tm_workItems m' = tm_workItems m else verified_ok m')"

lemma expire_where_none: "(\<And>i. i \<in> set (tm_workItems m) \<Longrightarrow> \<not> P i) \<Longrightarrow> expire_where now reason P m = Inr m"
proof -
  assume none: "\<And>i. i \<in> set (tm_workItems m) \<Longrightarrow> \<not> P i"
  have "fold_throw (expire_if now reason P) ns m = Inr m" if "set ns \<subseteq> {0..<length (tm_workItems m)}" for ns
    using that by (induction ns) (auto simp: expire_if_def none bind_result_Inr_left)
  then show ?thesis by (simp add: expire_where_def)
qed

lemma completed_no_lease:
  assumes "winv co m" "all_completed m" "i \<in> set (tm_workItems m)"
  shows "wi_lease i = None" "wi_state i = WCompleted"
  using assms locks_okD(3) [OF work_invD(1) assms(3)] by (auto simp: winv_def all_completed_def list_all_iff)

lemma reapExpired_final:
  assumes "winv co m" "verified_ok m" "reapExpired now m = Inr m1"
  shows "final m m1" "verified_ok m1"
proof -
  let ?m = "m\<lparr>tm_workers := map (worker_offline now (tb_leaseMs (tm_budget m))) (tm_workers m)\<rparr>"
  from assms(3) obtain m2 where m2: "expire_where now ''lease_expired'' (lease_expired now) ?m = Inr m2"
    and m1: "m1 = (if list_ex tr_uncertain (tm_resources m2) \<and> tm_state m2 \<notin> {MFailed, MCancelled, MVerified} then m2\<lparr>tm_state := MBlocked\<rparr> else m2)"
    by (auto simp: reapExpired_def bind_result_Inr)
  have w: "winv co ?m" using assms(1) by (simp add: winv_def)
  have "rest m2 = rest ?m" by (rule expire_where_winv(2) [OF w m2]) (auto simp: lease_expired_def split: option.splits)
  from restD(1) [OF this] have st: "tm_state m2 = tm_state m" by simp
  have "final m m1 \<and> verified_ok m1"
  proof (cases "tm_state m = MVerified")
    case True
    with assms(2) have "all_completed m" by (simp add: verified_ok_def)
    then have "\<not> lease_expired now i" if "i \<in> set (tm_workItems ?m)" for i
      using that by (auto simp: lease_expired_def all_completed_def list_all_iff)
    with m2 expire_where_none [of ?m "lease_expired now"] have "m2 = ?m" by simp
    with True m1 assms(2) show ?thesis by (simp add: final_def verified_ok_def all_completed_def)
  next
    case False
    with st m1 show ?thesis by (auto simp: final_def verified_ok_def)
  qed
  then show "final m m1" "verified_ok m1" by auto
qed

lemma final_refl: "verified_ok m \<Longrightarrow> final m m"
  by (simp add: final_def)

lemma final_trans: "final m m1 \<Longrightarrow> final m1 m2 \<Longrightarrow> verified_ok m1 \<Longrightarrow> final m m2"
  by (auto simp: final_def verified_ok_def all_completed_def split: if_split_asm)

text \<open>After a step that changes neither the state nor the work, or that leaves the mission unverified.\<close>

lemma final_same: "verified_ok m \<Longrightarrow> tm_state m' = tm_state m \<Longrightarrow> tm_workItems m' = tm_workItems m \<Longrightarrow> final m m'"
  by (simp add: final_def verified_ok_def all_completed_def)

lemma final_unverified: "tm_state m \<noteq> MVerified \<Longrightarrow> tm_state m' \<noteq> MVerified \<Longrightarrow> final m m'"
  by (simp add: final_def verified_ok_def)

lemma leased_not_verified:
  assumes "verified_ok m" "n < length (tm_workItems m)" "wi_state (tm_workItems m ! n) \<noteq> WCompleted"
  shows "tm_state m \<noteq> MVerified"
  using assms nth_mem [OF assms(2)] by (auto simp: verified_ok_def all_completed_def list_all_iff)

lemma finalizeIfVerified_ok: "tm_state m \<noteq> MVerified \<Longrightarrow> verified_ok (finalizeIfVerified now m)"
  using finalizeIfVerified_state [of now m] by (auto simp: verified_ok_def all_completed_def)

lemma grant_lease_state: "grant_lease ca wn n m = Inr (m', item) \<Longrightarrow> tm_state m' = tm_state m"
  by (auto simp: grant_lease_def bind_result_Inr Let_def)

lemma claim_final:
  assumes "winv co m" "verified_ok m" "claim co ca w m = Inr (m', item)"
  shows "final m m'"
  using assms(3)
proof (cases rule: claim_cases)
  case (idle m1)
  note R = reapExpired_final [OF assms(1,2) idle(1)]
  show ?thesis by (rule final_trans [OF R(1) _ R(2)], rule final_unverified) (use ensureMissionRunnable_same [OF idle(2)] in auto)
next
  case (offered m1 wn)
  note R = reapExpired_final [OF assms(1,2) offered(1)]
  have run: "tm_state m1 = MRunning" using ensureMissionRunnable_same [OF offered(2)] by simp
  from offered(4) have "tm_state m' \<noteq> MVerified"
    by (cases rule: offer_cases) (use run in \<open>auto simp: exhaust_item_def dest: grant_lease_state\<close>)
  with run show ?thesis by (intro final_trans [OF R(1) _ R(2)] final_unverified) auto
qed

lemma authorizeExecution_final:
  assumes "winv co m" "verified_ok m" "authorizeExecution ca inp m = Inr (m', answer)"
  shows "final m m'"
  using assms(3)
proof (cases rule: authorizeExecution_cases)
  case (stopped m1)
  note R = reapExpired_final [OF assms(1,2) stopped(1)]
  show ?thesis by (rule final_trans [OF R(1) _ R(2)], rule final_unverified) (use ensureMissionRunnable_same [OF stopped(2)] in auto)
next
  case (granted m1 item')
  note R = reapExpired_final [OF assms(1,2) granted(1)]
  have run: "tm_state m1 = MRunning" using ensureMissionRunnable_same [OF granted(2)] by simp
  from granted(3) have "tm_state m' = tm_state m1" by (rule authorize_held_Inr)
  with run show ?thesis by (intro final_trans [OF R(1) _ R(2)] final_unverified) auto
qed

lemma heartbeat_final:
  assumes "winv co m" "verified_ok m" "heartbeat ca w leaseId m = Inr m'"
  shows "final m m'"
proof -
  from assms(3) obtain m1 where m1: "reapExpired (ca_now ca) m = Inr m1" by (auto simp: heartbeat_def bind_result_Inr)
  note R = reapExpired_final [OF assms(1,2) m1] and W = reapExpired_winv(1) [OF assms(1) m1]
  from assms(3) m1 have st: "tm_state m' = tm_state m1"
    by (auto simp: heartbeat_def bind_result_Inr Let_def split: option.split_asm)
  have "final m1 m'"
  proof (cases "tm_state m1 = MVerified")
    case True
    with R(2) have none: "wi_lease i = None" if "i \<in> set (tm_workItems m1)" for i
      using completed_no_lease(1) [OF W _ that] by (simp add: verified_ok_def)
    then have idx: "index_of (\<lambda>i. case wi_lease i of None \<Rightarrow> False | Some l \<Rightarrow> Q l) (tm_workItems m1) = None" for Q
      by (cases "index_of (\<lambda>i. case wi_lease i of None \<Rightarrow> False | Some l \<Rightarrow> Q l) (tm_workItems m1)") (auto dest!: index_of_SomeD)
    have "tm_workItems m' = tm_workItems m1"
      using assms(3) m1 idx by (auto simp: heartbeat_def bind_result_Inr Let_def split: option.split_asm)
    with st R(2) show ?thesis by (intro final_same) auto
  next
    case False
    with st show ?thesis by (intro final_unverified) auto
  qed
  with R show ?thesis by (auto intro: final_trans)
qed

lemma complete_commit_final:
  assumes "winv co m" "verified_ok m" "complete_commit co now inp prepared m = Inr m'"
  shows "final m m'"
  using assms(3)
proof (rule complete_commit_Inr)
  fix m1 wn n lease
  assume m1: "reapExpired now m = Inr m1" "held_work now inp m1 = Inr (wn, n, lease)"
    and x: "\<exists>x. m' = finalizeIfVerified now x \<and> tm_state x = tm_state m1 \<and> tm_workItems x = tm_workItems m'"
  note R = reapExpired_final [OF assms(1,2) m1(1)] and H = held_work_Inr [OF m1(2)]
  have "tm_state m1 \<noteq> MVerified" using leased_not_verified [OF R(2) H(2)] H(4) by simp
  with x have "final m1 m'" by (auto simp: final_def finalizeIfVerified_ok)
  with R show ?thesis by (auto intro: final_trans)
qed

lemma fail_team_final:
  assumes "winv co m" "verified_ok m" "fail_team ca inp m = Inr m'"
  shows "final m m'"
  using assms(3)
proof (rule fail_team_Inr)
  fix m1 n
  assume m1: "reapExpired (ca_now ca) m = Inr m1" "n < length (tm_workItems m1)" "wi_state (tm_workItems m1 ! n) = WLeased"
    "tm_state m' \<in> {MBlocked, MFailed, tm_state m1}"
  note R = reapExpired_final [OF assms(1,2) m1(1)]
  have "tm_state m1 \<noteq> MVerified" using leased_not_verified [OF R(2) m1(2)] m1(3) by simp
  with m1(4) have "final m1 m'" by (intro final_unverified) auto
  with R show ?thesis by (auto intro: final_trans)
qed

lemma reconcile_team_final:
  assumes "verified_ok m" "reconcile_team co ca inp m = Inr m'"
  shows "final m m'"
  using assms(2)
proof (rule reconcile_team_Inr)
  fix n
  assume n: "n < length (tm_workItems m)" "wi_state (tm_workItems m ! n) = WNeedsReconciliation"
    and x: "\<exists>x. m' = finalizeIfVerified (ca_now ca) x \<and> tm_state x \<in> {MFailed, MRunning, tm_state m} \<and> tm_workItems x = tm_workItems m'"
  have "tm_state m \<noteq> MVerified" using leased_not_verified [OF assms(1) n(1)] n(2) by simp
  with x show ?thesis by (auto simp: final_def finalizeIfVerified_ok)
qed

lemma revokeWorker_final:
  assumes "winv co m" "verified_ok m" "revokeWorker ca w m = Inr m'"
  shows "final m m'"
proof -
  let ?P = "\<lambda>wn item. map_option tl_workerId (wi_lease item) = Some (tw_id (tm_workers m ! wn))"
    and ?m = "\<lambda>wn. with_worker wn (\<lambda>w. w\<lparr>tw_state := WsRevoked, tw_heartbeatAt := ca_now ca\<rparr>) m"
  from assms(3) obtain wn m1 where m1: "expire_where (ca_now ca) ''worker_revoked'' (?P wn) (?m wn) = Inr m1"
    and m': "tm_state m' = tm_state m1" "tm_workItems m' = tm_workItems m1"
    by (auto simp: revokeWorker_def bind_result_Inr Let_def)
  have w: "winv co (?m wn)" using assms(1) by (simp add: winv_def)
  have "rest m1 = rest (?m wn)" by (rule expire_where_winv(2) [OF w m1]) auto
  from restD(1) [OF this] have st: "tm_state m1 = tm_state m" by simp
  show ?thesis
  proof (cases "tm_state m = MVerified")
    case True
    with assms(2) have "all_completed m" by (simp add: verified_ok_def)
    then have "\<not> ?P wn i" if "i \<in> set (tm_workItems (?m wn))" for i using completed_no_lease(1) [OF assms(1)] that by simp
    with m1 expire_where_none [of "?m wn" "?P wn"] have "m1 = ?m wn" by simp
    with m' assms(2) show ?thesis by (intro final_same) simp_all
  next
    case False
    with st m' show ?thesis by (intro final_unverified) auto
  qed
qed

lemma registerWorker_final:
  assumes "winv co m" "verified_ok m" "registerWorker ca inp m = Inr (m', w)"
  shows "final m m'"
proof -
  from assms(3) obtain m1 where m1: "reapExpired (ca_now ca) m = Inr m1" and m': "tm_state m' = tm_state m1" "tm_workItems m' = tm_workItems m1"
    by (auto simp: registerWorker_def bind_result_Inr Let_def split: if_split_asm option.split_asm)
  note R = reapExpired_final [OF assms(1,2) m1]
  show ?thesis by (rule final_trans [OF R(1) final_same [OF R(2) m'] R(2)])
qed

lemma putBlackboard_final:
  assumes "winv co m" "verified_ok m" "putBlackboard co ca inp m = Inr m'"
  shows "final m m'"
proof -
  from assms(3) obtain m1 where m1: "reapExpired (ca_now ca) m = Inr m1" and m': "tm_state m' = tm_state m1" "tm_workItems m' = tm_workItems m1"
    by (auto simp: putBlackboard_def bind_result_Inr Let_def)
  note R = reapExpired_final [OF assms(1,2) m1]
  show ?thesis by (rule final_trans [OF R(1) final_same [OF R(2) m'] R(2)])
qed

lemma start_team_final:
  assumes "winv co m" "verified_ok m" "start_team ca m = Inr m'"
  shows "final m m'"
proof -
  from assms(3) obtain m1 where m1: "reapExpired (ca_now ca) m = Inr m1" "tm_state m1 \<noteq> MVerified" "tm_state m' = MRunning"
    by (auto simp: start_team_def bind_result_Inr split: if_split_asm)
  note R = reapExpired_final [OF assms(1,2) m1(1)]
  show ?thesis by (rule final_trans [OF R(1) final_unverified R(2)]) (use m1 in auto)
qed

lemma pause_resume_cancel_final:
  assumes "verified_ok m"
  shows "pause_team ca m = Inr m' \<Longrightarrow> final m m'" "resume_team ca m = Inr m' \<Longrightarrow> final m m'" "cancel_team ca m = Inr m' \<Longrightarrow> final m m'"
proof -
  show "pause_team ca m = Inr m' \<Longrightarrow> final m m'" "resume_team ca m = Inr m' \<Longrightarrow> final m m'"
    by (rule final_unverified; auto simp: pause_team_def resume_team_def bind_result_Inr split: if_split_asm)+
  assume c: "cancel_team ca m = Inr m'"
  show "final m m'"
  proof (cases "tm_state m = MVerified")
    case True
    with c assms show ?thesis by (auto simp: cancel_team_def intro: final_refl)
  next
    case False
    then show ?thesis by (rule final_unverified) (use c False in \<open>auto simp: cancel_team_def bind_result_Inr split: if_split_asm\<close>)
  qed
qed

lemma mission_step_final:
  assumes "winv co m" "verified_ok m" "mission_step co m op = Inr m'"
  shows "final m m'"
proof (cases op)
  case (TBegin ca inp)
  with assms(3) obtain d where "beginActionExecution co ca inp m = Inr (m', d)" by (auto simp: map_sum_Inr)
  from beginActionExecution_work [OF this] show ?thesis by (intro final_same [OF assms(2)]) auto
next
  case (TFinish ca inp r)
  with assms(3) completeActionExecution_work [of co ca inp r m m'] show ?thesis by (intro final_same [OF assms(2)]) auto
next
  case (TAuditFailure ca i r c)
  with assms(3) obtain d where "recordActionAuditFailure ca i r c m = Inr (m', d)" by (auto simp: map_sum_Inr)
  from recordActionAuditFailure_work [OF this] show ?thesis by (intro final_same [OF assms(2)]) auto
qed (use assms in \<open>auto simp: map_sum_Inr complete_team_Inr
      dest: start_team_final pause_resume_cancel_final registerWorker_final heartbeat_final putBlackboard_final claim_final
        authorizeExecution_final complete_commit_final fail_team_final reconcile_team_final revokeWorker_final\<close>)

section \<open>The work graph\<close>

definition depends :: "TeamWorkItem list \<Rightarrow> string \<Rightarrow> string \<Rightarrow> bool" where
  "depends items a b \<longleftrightarrow> b \<in> set (item_deps items a)"

lemma dep_search_sound: "dep_search items t seen work \<Longrightarrow> \<exists>d\<in>set work. (depends items)\<^sup>*\<^sup>* d t"
proof (induction items t seen work rule: dep_search.induct)
  case (2 items target seen d ds)
  show ?case
  proof (cases "d = target \<or> d \<in> set seen")
    case True
    with 2 show ?thesis by (auto split: if_split_asm)
  next
    case False
    with 2 obtain e where "e \<in> set (item_deps items d @ ds)" "(depends items)\<^sup>*\<^sup>* e target" by auto
    then show ?thesis by (auto simp: depends_def [symmetric] intro: converse_rtranclp_into_rtranclp [of "depends items" d e])
  qed
qed simp

lemma dep_search_complete:
  assumes "\<not> dep_search items t seen work" "s \<in> set seen" "\<forall>a\<in>set seen. set (item_deps items a) \<subseteq> set seen - {t} \<union> set work"
  shows "\<not> (depends items)\<^sup>+\<^sup>+ s t"
  using assms
proof (induction items t seen work rule: dep_search.induct)
  case (1 items target seen)
  have "b \<in> set seen - {target}" if "(depends items)\<^sup>+\<^sup>+ s b" for b
    using that by (induction rule: tranclp_induct) (use 1 in \<open>auto simp: depends_def\<close>)
  then show ?case by blast
next
  case (2 items target seen d ds)
  have d: "d \<noteq> target" using 2(3) by auto
  show ?case
  proof (cases "d \<in> set seen")
    case True
    with d 2(3-5) show ?thesis by (intro 2(1)) auto
  next
    case False
    with d 2(3-5) show ?thesis by (intro 2(2)) auto
  qed
qed

lemma dep_reach: "transitivelyDependsOn source target items \<longleftrightarrow> (depends items)\<^sup>+\<^sup>+ source target"
proof
  assume "transitivelyDependsOn source target items"
  then obtain d where "depends items source d" "(depends items)\<^sup>*\<^sup>* d target"
    unfolding transitivelyDependsOn_def by (auto dest!: dep_search_sound simp: depends_def)
  then show "(depends items)\<^sup>+\<^sup>+ source target" by (rule rtranclp_into_tranclp2)
next
  assume "(depends items)\<^sup>+\<^sup>+ source target"
  then show "transitivelyDependsOn source target items"
    using dep_search_complete [of items target "[source]" "item_deps items source" source]
    unfolding transitivelyDependsOn_def by auto
qed

text \<open>Some verifier depends on all the work that is not a verification.\<close>

definition covering_verifier :: "TeamWorkItem list \<Rightarrow> TeamWorkItem \<Rightarrow> bool" where
  "covering_verifier items v \<longleftrightarrow> wi_role v = RVerifier
     \<and> list_all (\<lambda>i. wi_role i \<noteq> RVerifier \<longrightarrow> transitivelyDependsOn (wi_key v) (wi_key i) items) items"

definition graph_ok :: "TeamWorkItem list \<Rightarrow> bool" where
  "graph_ok items \<longleftrightarrow> list_ex (covering_verifier items) items"

lemma static_fields:
  assumes "static_item a = static_item b"
  shows "wi_key a = wi_key b" "wi_dependsOn a = wi_dependsOn b" "wi_role a = wi_role b" "wi_resources a = wi_resources b"
  using arg_cong [OF assms, of wi_key] arg_cong [OF assms, of wi_dependsOn] arg_cong [OF assms, of wi_role] arg_cong [OF assms, of wi_resources]
  by (simp_all add: static_item_def)

lemma item_deps_static: "item_deps (map static_item items) = item_deps items"
proof
  fix k
  have "find (\<lambda>i. wi_key i = k) (map static_item xs) = map_option static_item (find (\<lambda>i. wi_key i = k) xs)" for xs
    by (induction xs) (simp_all add: static_item_def)
  then show "item_deps (map static_item items) k = item_deps items k"
    by (cases "find (\<lambda>i. wi_key i = k) (rev items)") (simp_all add: item_deps_def rev_map static_item_def)
qed

lemma dep_search_cong: "item_deps items = item_deps items' \<Longrightarrow> dep_search items t seen work = dep_search items' t seen work"
  by (induction items t seen work rule: dep_search.induct) auto

lemma graph_ok_static:
  assumes "map static_item items' = map static_item items"
  shows "graph_ok items' = graph_ok items"
proof -
  have "transitivelyDependsOn a b items = transitivelyDependsOn a b (map static_item items)" for a b items
    unfolding transitivelyDependsOn_def item_deps_static by (rule dep_search_cong) (simp add: item_deps_static)
  moreover have "wi_key (static_item i) = wi_key i" "wi_role (static_item i) = wi_role i" for i by (simp_all add: static_item_def)
  ultimately have "graph_ok items = graph_ok (map static_item items)" for items
    by (simp add: graph_ok_def covering_verifier_def list_ex_iff list_all_iff)
  with assms show ?thesis by metis
qed

section \<open>The mission invariant\<close>

definition minv :: "TeamCoordinator \<Rightarrow> TeamMission \<Rightarrow> bool" where
  "minv co m \<longleftrightarrow> winv co m \<and> verified_ok m \<and> graph_ok (tm_workItems m)"

lemma mission_step_minv:
  assumes "digests_hex co" "minv co m" "lease_unused m op" "mission_step co m op = Inr m'"
  shows "minv co m'"
proof -
  have M: "winv co m" "verified_ok m" "graph_ok (tm_workItems m)" using assms(2) by (simp_all add: minv_def)
  from mission_step_winv [OF assms(1) M(1) assms(3,4)] have w: "winv co m'" "frame m m'" by auto
  have "verified_ok m'" using mission_step_final [OF M(1,2) assms(4)] M(2)
    by (auto simp: final_def verified_ok_def all_completed_def split: if_split_asm)
  with w M(3) graph_ok_static show ?thesis unfolding minv_def frame_def by blast
qed

lemma normalize_work_new:
  "normalize_work co missionId w = Inr i \<Longrightarrow> wi_state i = WPending \<and> wi_lease i = None \<and> wi_attempts i = 0"
  by (auto simp: normalize_work_def bind_result_Inr)

lemma submit_mission_Inr:
  assumes "submit_mission co ca inp = Inr m"
  obtains items missionId budget where "map_throw (normalize_work co missionId) (sb_workItems inp) = Inr items" "check_work_graph items = Inr ()"
      "normalizeBudget (sb_budget inp) = Inr budget" "tm_workItems m = items" "tm_budget m = budget" "tm_state m = MPending" "tm_blackboard m = []"
      "tm_actionReceipts m = []" "map tr_key (tm_resources m) = unique_sorted (concat (map wi_resources items))"
      "\<forall>r\<in>set (tm_resources m). tr_lock r = None"
  using assms by (auto simp: submit_mission_def bind_result_Inr require_that_def Let_def comp_def split: if_split_asm intro!: that)

lemma submit_minv:
  assumes "submit_mission co ca inp = Inr m"
  shows "minv co m"
  using assms
proof (rule submit_mission_Inr)
  fix items missionId budget
  assume A: "map_throw (normalize_work co missionId) (sb_workItems inp) = Inr items" "check_work_graph items = Inr ()"
      "normalizeBudget (sb_budget inp) = Inr budget" "tm_workItems m = items" "tm_budget m = budget" "tm_state m = MPending"
      "map tr_key (tm_resources m) = unique_sorted (concat (map wi_resources items))" "\<forall>r\<in>set (tm_resources m). tr_lock r = None"
  have new: "wi_state i = WPending" "wi_lease i = None" "wi_attempts i = 0" if "i \<in> set items" for i
    using that map_throw_set [OF A(1)] normalize_work_new by blast+
  have b: "1 \<le> tb_maxConcurrentLeases budget" "1 \<le> tb_maxAttemptsPerWorkItem budget"
    using A(3) by (auto simp: normalizeBudget_def bind_result_Inr boundedInteger_def split: if_split_asm)
  have "tr_key ` set (tm_resources m) = set (concat (map wi_resources items))" by (metis A(7) list.set_map set_unique_sorted)
  moreover have "distinct (map tr_key (tm_resources m))" by (simp add: A(7))
  ultimately have "locks_ok (tm_resources m) items"
    by (intro locks_okI) (use new A(8) in \<open>auto dest: nth_mem\<close>)
  moreover have "leased_count items = 0" using new by (auto simp: leased_count_def filter_empty_conv)
  moreover have "deps_ok items" using new by (auto simp: deps_ok_def started_def)
  ultimately have "winv co m"
    unfolding winv_def work_inv_def A(4,5) using new b by (auto simp: list_all_iff attempts_ok_def verifier_ok_def)
  moreover have "graph_ok items"
    using A(2) by (auto simp: check_work_graph_def require_that_def bind_result_Inr Let_def graph_ok_def covering_verifier_def list_ex_iff list_all_iff split: if_split_asm)
  ultimately show ?thesis using A(4,6) by (simp add: minv_def verified_ok_def)
qed

text \<open>The missions a coordinator can reach, one operation at a time.\<close>

inductive reachable_mission :: "TeamCoordinator \<Rightarrow> TeamMission \<Rightarrow> bool" for co where
  submitted: "submit_mission co ca inp = Inr m \<Longrightarrow> reachable_mission co m"
| operated: "reachable_mission co m \<Longrightarrow> lease_unused m op \<Longrightarrow> mission_step co m op = Inr m' \<Longrightarrow> reachable_mission co m'"

lemma reachable_minv:
  assumes "reachable_mission co m" "digests_hex co"
  shows "minv co m"
  using assms by (induction rule: reachable_mission.induct) (auto intro: submit_minv mission_step_minv)

interpretation mission: transactional_store "mission_step co" "reachable_mission co" lease_unused for co
  by unfold_locales (rule reachable_mission.operated)

text \<open>
  The store of missions: whatever is submitted and operated on, every mission file is the result of a history of
  that mission alone. A lease identity is new to the whole store.
\<close>

definition team_admissible :: "team_store \<Rightarrow> team_event \<Rightarrow> bool" where
  "team_admissible st e = (case e of TSubmit _ _ \<Rightarrow> True | TOperate _ op \<Rightarrow> list_all (\<lambda>(_, m). lease_unused m op) st)"

definition store_reachable :: "TeamCoordinator \<Rightarrow> team_store \<Rightarrow> bool" where
  "store_reachable co st \<longleftrightarrow> (\<forall>i m. map_of st i = Some m \<longrightarrow> reachable_mission co m)"

lemma validateMission_Inr: "validateMission m = Inr m' \<Longrightarrow> m' = m"
  by (auto simp: validateMission_def bind_result_Inr split: option.split_asm)

lemma validUuid_Inr: "validUuid s = Inr v \<Longrightarrow> v = to_lower s"
  unfolding validUuid_def Let_def by (simp only: sum.inject sum.distinct split: if_split_asm)

lemma validUuid_idem: "validUuid s = Inr v \<Longrightarrow> validUuid v = Inr v' \<Longrightarrow> v' = v"
  by (drule validUuid_Inr)+ simp

lemma team_submit_Inr:
  assumes "team_step co st (TSubmit ca inp) = Inr st'"
  obtains m i where "submit_mission co ca inp = Inr m" "map_of st i = None" "st' = jsmap_set st i m"
  using assms by (auto simp: map_sum_Inr submit_team_def create_mission_def bind_result_Inr split: if_split_asm dest!: validateMission_Inr intro: that)

lemma team_operate_Inr:
  assumes "team_step co st (TOperate j op) = Inr st'"
  obtains m m' i where "map_of st i = Some m" "mission_step co m op = Inr m'" "st' = jsmap_set st i m'"
proof -
  from assms obtain i i' m0 m m' m'' where i: "validUuid j = Inr i" "validUuid i = Inr i'" "map_of st i' = Some m0" "validateMission m0 = Inr m"
    and m: "mission_step co m op = Inr m'" "validateMission m' = Inr m''" "st' = jsmap_set st i m''"
    by (auto simp: map_sum_Inr update_mission_def get_mission_def bind_result_Inr split: option.split_asm)
  have "i' = i" "m = m0" "m'' = m'"
    using validUuid_idem [OF i(1,2)] validateMission_Inr [OF i(4)] validateMission_Inr [OF m(2)] by simp_all
  with i m show thesis by (intro that) simp_all
qed

lemma team_step_reachable:
  assumes "store_reachable co st" "team_admissible st e" "team_step co st e = Inr st'"
  shows "store_reachable co st'"
proof (cases e)
  case (TSubmit ca inp)
  from assms(3) [unfolded TSubmit] obtain m i where "submit_mission co ca inp = Inr m" "st' = jsmap_set st i m" by (rule team_submit_Inr)
  with assms(1) show ?thesis by (auto simp: store_reachable_def intro: submitted)
next
  case (TOperate j op)
  from assms(3) [unfolded TOperate] obtain m m' i where m: "map_of st i = Some m" "mission_step co m op = Inr m'" "st' = jsmap_set st i m'"
    by (rule team_operate_Inr)
  have "lease_unused m op" using assms(2) TOperate map_of_SomeD [OF m(1)] by (auto simp: team_admissible_def list_all_iff)
  with m assms(1) show ?thesis by (auto simp: store_reachable_def intro: operated)
qed

interpretation team: transactional_store "team_step co" "store_reachable co" team_admissible for co
  by unfold_locales (rule team_step_reachable)

section \<open>A history of the demonstration mission\<close>

lemma demo_hex: "digests_hex demo_co"
  by (simp add: digests_hex_def demo_co_def hex64_def list_all_iff is_hex_def is_hex_lower_def is_digit_def char_in_def)

lemma demo_unused:
  "demo_view m st dl ws rs items \<Longrightarrow> \<forall>i\<in>set items. wi_lease i = None \<or> map_option tl_id (wi_lease i) \<noteq> Some (demo_uuid c)
   \<Longrightarrow> lease_unused m (TClaim (demo_call now c) w)"
  by (auto simp: lease_unused_def fresh_lease_def demo_view_def demo_call_def)

lemma demo_history:
  obtains m4 m6 m7 m8 where "reachable_mission demo_co m4" "reachable_mission demo_co m6" "reachable_mission demo_co m7" "reachable_mission demo_co m8"
    "demo_view m4 MRunning (Some 60001) [demo_worker CHR ''2'' RCoder 2 4, demo_worker CHR ''3'' RVerifier 3 3]
        [demo_repo 0 0 (Some (demo_lock CHR ''4'' CHR ''2'' demo_build 4))] [build1, verify0]"
    "demo_view m6 MRunning (Some 60001) [demo_worker CHR ''2'' RCoder 2 5, demo_worker CHR ''3'' RVerifier 3 6]
        [demo_repo 1 5 (Some (demo_lock CHR ''5'' CHR ''3'' demo_verify 6))] [build2, verify1]"
    "demo_view m7 MFailed (Some 60001) [demo_worker CHR ''2'' RCoder 2 5, demo_worker CHR ''3'' RVerifier 3 6]
        [demo_repo 1 5 (Some (demo_lock CHR ''5'' CHR ''3'' demo_verify 6))] [build2, verify1]"
    "mission_step demo_co m7 (TComplete (demo_call 62000 CHR ''0'') (demo_completion CHR ''3'' demo_verify CHR ''5'') 62000 m7 demo_canonical) = Inr m8"
    "demo_view m8 MVerified (Some 60001) [demo_worker CHR ''2'' RCoder 2 5, demo_worker CHR ''3'' RVerifier 3 62000] [demo_repo 1 62000 None] [build2, verify2]"
proof -
  have any: "lease_unused m (TStart ca)" "lease_unused m (TRegister ca rg)" "lease_unused m (TComplete ca inp e b cv)" for m ca rg inp e b cv
    by (simp_all add: lease_unused_def)
  have r0: "reachable_mission demo_co demo_m0" using demo_submit by (rule submitted)
  from demo_start [OF demo_view0] obtain m1 where m1: "reachable_mission demo_co m1" and v1: "demo_view m1 MRunning (Some 60001) [] [demo_repo 0 0 None] [build0, verify0]"
    using operated [OF r0 any(1)] by blast
  from demo_coder_joins [OF v1] obtain m2 where m2: "reachable_mission demo_co m2"
    and v2: "demo_view m2 MRunning (Some 60001) [demo_worker CHR ''2'' RCoder 2 2] [demo_repo 0 0 None] [build0, verify0]"
    using operated [OF m1 any(2)] by blast
  from demo_verifier_joins [OF v2] obtain m3 where m3: "reachable_mission demo_co m3"
    and v3: "demo_view m3 MRunning (Some 60001) [demo_worker CHR ''2'' RCoder 2 2, demo_worker CHR ''3'' RVerifier 3 3] [demo_repo 0 0 None] [build0, verify0]"
    using operated [OF m2 any(2)] by blast
  have u3: "lease_unused m3 (TClaim (demo_call 4 CHR ''4'') (demo_uuid CHR ''2''))" by (rule demo_unused [OF v3]) (auto simp: demo_item_def)
  from demo_coder_claims [OF v3] obtain m4 where m4: "reachable_mission demo_co m4"
    and v4: "demo_view m4 MRunning (Some 60001) [demo_worker CHR ''2'' RCoder 2 4, demo_worker CHR ''3'' RVerifier 3 3]
        [demo_repo 0 0 (Some (demo_lock CHR ''4'' CHR ''2'' demo_build 4))] [build1, verify0]"
    using operated [OF m3 u3] by blast
  from demo_coder_completes [OF v4] obtain m5 where m5: "reachable_mission demo_co m5"
    and v5: "demo_view m5 MRunning (Some 60001) [demo_worker CHR ''2'' RCoder 2 5, demo_worker CHR ''3'' RVerifier 3 3] [demo_repo 1 5 None] [build2, verify0]"
    using operated [OF m4 any(3)] by blast
  have u5: "lease_unused m5 (TClaim (demo_call 6 CHR ''5'') (demo_uuid CHR ''3''))" by (rule demo_unused [OF v5]) (auto simp: demo_item_def)
  from demo_verifier_claims [OF v5] obtain m6 where m6: "reachable_mission demo_co m6"
    and v6: "demo_view m6 MRunning (Some 60001) [demo_worker CHR ''2'' RCoder 2 5, demo_worker CHR ''3'' RVerifier 3 6]
        [demo_repo 1 5 (Some (demo_lock CHR ''5'' CHR ''3'' demo_verify 6))] [build2, verify1]"
    using operated [OF m5 u5] by blast
  have u6: "lease_unused m6 (TClaim (demo_call 61000 CHR ''6'') (demo_uuid CHR ''2''))"
    by (rule demo_unused [OF v6]) (auto simp: demo_item_def demo_lease_def demo_distinct)
  from demo_deadline [OF v6] obtain m7 where m7: "reachable_mission demo_co m7"
    and v7: "demo_view m7 MFailed (Some 60001) [demo_worker CHR ''2'' RCoder 2 5, demo_worker CHR ''3'' RVerifier 3 6]
        [demo_repo 1 5 (Some (demo_lock CHR ''5'' CHR ''3'' demo_verify 6))] [build2, verify1]"
    using operated [OF m6 u6] by blast
  from demo_verifier_completes [OF v7] obtain m8 where
    s8: "mission_step demo_co m7 (TComplete (demo_call 62000 CHR ''0'') (demo_completion CHR ''3'' demo_verify CHR ''5'') 62000 m7 demo_canonical) = Inr m8"
    and v8: "demo_view m8 MVerified (Some 60001) [demo_worker CHR ''2'' RCoder 2 5, demo_worker CHR ''3'' RVerifier 3 62000] [demo_repo 1 62000 None] [build2, verify2]"
    by blast
  show thesis by (rule that [OF m4 m6 m7 operated [OF m7 any(3) s8] v4 v6 v7 s8 v8])
qed

section \<open>Properties of a mission\<close>



lemma verified_run:
  assumes "reachable_mission co m" "digests_hex co" "tm_state m = MVerified" "all_admissible lease_unused (mission_step co) m ops"
  shows "tm_state (run_ops (mission_step co) m ops) = MVerified \<and> tm_workItems (run_ops (mission_step co) m ops) = tm_workItems m"
  using assms
proof (induction ops arbitrary: m)
  case (Cons op ops)
  show ?case
  proof (cases "mission_step co m op")
    case (Inl e)
    with Cons show ?thesis by simp
  next
    case (Inr m')
    have "final m m'" using reachable_minv [OF Cons.prems(1,2)] mission_step_final [OF _ _ Inr] by (simp add: minv_def)
    with Cons.prems(3) have "tm_state m' = MVerified" "tm_workItems m' = tm_workItems m" by (simp_all add: final_def)
    moreover have "reachable_mission co m'" using operated [OF Cons.prems(1) _ Inr] Cons.prems(4) by simp
    ultimately show ?thesis using Cons.IH [of m'] Cons.prems(2,4) Inr by simp
  qed
qed simp

text \<open>
  C19. Team work is mutually exclusive on resources. In every mission a coordinator can reach, two different work
  items that are leased have no resource in common; every resource of a leased item is locked by exactly that
  lease and carries no unresolved side effect; and a lock always belongs to a live lease on that resource.
\<close>

theorem team_resources_exclusive:
  assumes "reachable_mission co m" "digests_hex co"
    and "n < length (tm_workItems m)" "wi_lease (tm_workItems m ! n) = Some lease"
  shows "(\<forall>k l. k < length (tm_workItems m) \<and> k \<noteq> n \<and> wi_lease (tm_workItems m ! k) = Some l
            \<longrightarrow> set (wi_resources (tm_workItems m ! k)) \<inter> set (wi_resources (tm_workItems m ! n)) = {} \<and> tl_id l \<noteq> tl_id lease)
       \<and> (\<forall>r\<in>set (tm_resources m). (tr_key r \<in> set (wi_resources (tm_workItems m ! n)) \<longleftrightarrow> locked_by (tl_id lease) r)
            \<and> (locked_by (tl_id lease) r \<longrightarrow> \<not> tr_uncertain r))"
proof (intro conjI)
  have L: "locks_ok (tm_resources m) (tm_workItems m)"
    using reachable_minv [OF assms(1,2)] by (simp add: minv_def winv_def work_inv_def)
  show "\<forall>k l. k < length (tm_workItems m) \<and> k \<noteq> n \<and> wi_lease (tm_workItems m ! k) = Some l
            \<longrightarrow> set (wi_resources (tm_workItems m ! k)) \<inter> set (wi_resources (tm_workItems m ! n)) = {} \<and> tl_id l \<noteq> tl_id lease"
    using leased_disjoint [OF L] locks_okD(6) [OF L] assms(3,4) by blast
  have "locked_by (tl_id lease) r \<and> \<not> tr_uncertain r" if "r \<in> set (tm_resources m)" "tr_key r \<in> set (wi_resources (tm_workItems m ! n))" for r
    using locks_okD(4) [OF L nth_mem [OF assms(3)] assms(4) that] .
  moreover have "tr_key r \<in> set (wi_resources (tm_workItems m ! n))" if "r \<in> set (tm_resources m)" "locked_by (tl_id lease) r" for r
  proof -
    from that(2) obtain k where k: "tr_lock r = Some k" "lk_leaseId k = tl_id lease" by (auto simp: locked_by_def split: option.splits)
    from locks_okD(5) [OF L that(1) k(1)] obtain q l where q: "q < length (tm_workItems m)" "wi_lease (tm_workItems m ! q) = Some l"
      "tl_id l = tl_id lease" "tr_key r \<in> set (wi_resources (tm_workItems m ! q))"
      using k(2) by (auto simp: in_set_conv_nth [of _ "tm_workItems m"])
    with locks_okD(6) [OF L q(1) assms(3) _ q(2) assms(4)] show ?thesis by (cases "q = n") auto
  qed
  ultimately show "\<forall>r\<in>set (tm_resources m). (tr_key r \<in> set (wi_resources (tm_workItems m ! n)) \<longleftrightarrow> locked_by (tl_id lease) r)
            \<and> (locked_by (tl_id lease) r \<longrightarrow> \<not> tr_uncertain r)" by blast
qed

theorem team_resources_exclusive_witness:
  "\<exists>m lease r. reachable_mission demo_co m \<and> wi_lease (tm_workItems m ! 0) = Some lease \<and> tm_resources m = [r]
     \<and> locked_by (tl_id lease) r \<and> \<not> tr_uncertain r"
proof -
  obtain m where m: "reachable_mission demo_co m" and v: "demo_view m MRunning (Some 60001) [demo_worker CHR ''2'' RCoder 2 4, demo_worker CHR ''3'' RVerifier 3 3]
        [demo_repo 0 0 (Some (demo_lock CHR ''4'' CHR ''2'' demo_build 4))] [build1, verify0]" by (rule demo_history)
  let ?lease = "demo_lease CHR ''4'' CHR ''2'' demo_build 4 0"
  have "0 < length (tm_workItems m)" "wi_lease (tm_workItems m ! 0) = Some ?lease" using v by (simp_all add: demo_view_def demo_item_def)
  with team_resources_exclusive [OF m demo_hex this] m v show ?thesis by (auto simp: demo_view_def demo_item_def demo_repo_def)
qed

text \<open>
  C33. Work starts only after what it depends on, and within its budget: in every reachable mission an item that is
  leased, completed or waiting for reconciliation has only completed dependencies, no more items are leased than
  the budget allows at a time, and no item was attempted more often than the budget allows.
\<close>

theorem team_order_and_budget:
  assumes "reachable_mission co m" "digests_hex co" "i \<in> set (tm_workItems m)"
  shows "(wi_state i \<in> {WLeased, WCompleted, WNeedsReconciliation} \<longrightarrow>
            (\<forall>d\<in>set (wi_dependsOn i). \<exists>j\<in>set (tm_workItems m). wi_key j = d \<and> wi_state j = WCompleted))
       \<and> (0 \<le> wi_attempts i \<and> wi_attempts i \<le> tb_maxAttemptsPerWorkItem (tm_budget m))
       \<and> int (length (filter (\<lambda>i. wi_state i = WLeased) (tm_workItems m))) \<le> tb_maxConcurrentLeases (tm_budget m)"
proof (intro conjI impI ballI)
  have W: "work_inv co (tm_budget m) (tm_resources m) (tm_workItems m)" using reachable_minv [OF assms(1,2)] by (simp add: minv_def winv_def)
  show "0 \<le> wi_attempts i" "wi_attempts i \<le> tb_maxAttemptsPerWorkItem (tm_budget m)"
    "int (length (filter (\<lambda>i. wi_state i = WLeased) (tm_workItems m))) \<le> tb_maxConcurrentLeases (tm_budget m)"
    using work_invD(3) [OF W assms(3)] work_invD(4) [OF W] by (simp_all add: attempts_ok_def leased_count_def)
  fix d assume "wi_state i \<in> {WLeased, WCompleted, WNeedsReconciliation}" "d \<in> set (wi_dependsOn i)"
  with work_invD(2) [OF W] assms(3) have "d \<in> completed_keys (tm_workItems m)" by (auto simp: deps_ok_def started_def)
  then show "\<exists>j\<in>set (tm_workItems m). wi_key j = d \<and> wi_state j = WCompleted" by (auto simp: completed_keys_def)
qed

theorem team_order_and_budget_witness:
  "\<exists>m j. reachable_mission demo_co m \<and> wi_state (tm_workItems m ! 1) = WLeased \<and> wi_dependsOn (tm_workItems m ! 1) = [''build'']
     \<and> j \<in> set (tm_workItems m) \<and> wi_key j = ''build'' \<and> wi_state j = WCompleted"
proof -
  obtain m where m: "reachable_mission demo_co m" and v: "demo_view m MRunning (Some 60001) [demo_worker CHR ''2'' RCoder 2 5, demo_worker CHR ''3'' RVerifier 3 6]
        [demo_repo 1 5 (Some (demo_lock CHR ''5'' CHR ''3'' demo_verify 6))] [build2, verify1]" by (rule demo_history)
  have i: "tm_workItems m ! 1 \<in> set (tm_workItems m)" "wi_state (tm_workItems m ! 1) = WLeased" "wi_dependsOn (tm_workItems m ! 1) = [''build'']"
    using v by (simp_all add: demo_view_def demo_item_def)
  with team_order_and_budget [OF m demo_hex i(1)] obtain j where "j \<in> set (tm_workItems m)" "wi_key j = ''build''" "wi_state j = WCompleted" by auto
  with m i show ?thesis by blast
qed



text \<open>
  C35. FAILED is not final. A mission that failed because its deadline passed still has its live leases, and the
  completion of work does not look at the state of the mission: a reachable mission of a coordinator that requires
  kernel verification goes from FAILED (deadline exceeded) to VERIFIED when the verifier completes afterwards.
\<close>

theorem failed_mission_becomes_verified:
  "\<exists>co m m' op. reachable_mission co m \<and> co_requireKernelVerification co \<and> tm_state m = MFailed \<and> tm_deadlineAt m = Some 60001
     \<and> mission_step co m op = Inr m' \<and> reachable_mission co m' \<and> tm_state m' = MVerified"
proof -
  obtain m m' where m: "reachable_mission demo_co m" "reachable_mission demo_co m'"
    and s: "mission_step demo_co m (TComplete (demo_call 62000 CHR ''0'') (demo_completion CHR ''3'' demo_verify CHR ''5'') 62000 m demo_canonical) = Inr m'"
    and v: "demo_view m MFailed (Some 60001) [demo_worker CHR ''2'' RCoder 2 5, demo_worker CHR ''3'' RVerifier 3 6]
        [demo_repo 1 5 (Some (demo_lock CHR ''5'' CHR ''3'' demo_verify 6))] [build2, verify1]"
      "demo_view m' MVerified (Some 60001) [demo_worker CHR ''2'' RCoder 2 5, demo_worker CHR ''3'' RVerifier 3 62000] [demo_repo 1 62000 None] [build2, verify2]"
    by (rule demo_history)
  have "co_requireKernelVerification demo_co" by (simp add: demo_co_def)
  moreover have "tm_state m = MFailed" "tm_deadlineAt m = Some 60001" "tm_state m' = MVerified" using v by (simp_all add: demo_view_def)
  ultimately show ?thesis using m s by blast
qed

end
