(* ===== verification/TeamEffects.thy ===== *)
theory TeamEffects
  imports Team
begin

text \<open>
  Effects of team work: actions are dispatched at most once, the blackboard loses no update, and what a verifier's
  completion was checked against.
\<close>

section \<open>What the operations leave alone\<close>

lemma rest_simps: "rest (appendEvent now k w i d m) = rest m" "rest (with_item n f m) = rest m" "rest (m\<lparr>tm_resources := rs\<rparr>) = rest m"
  by (simp_all add: rest_def appendEvent_def with_item_def Let_def)

lemma expireLease_rest: "expireLease now reason n m = Inr m' \<Longrightarrow> rest m' = rest m"
  by (cases "wi_lease (tm_workItems m ! n)") (auto simp: expireLease_def Let_def bind_result_Inr rest_simps)

lemma expire_where_rest:
  assumes "expire_where now reason P m = Inr m'"
  shows "rest m' = rest m"
  using assms unfolding expire_where_def
  by (rule fold_throw_inv) (auto simp: expire_if_def expireLease_rest split: if_split_asm)

lemma reapExpired_rest:
  assumes "reapExpired now m = Inr m'"
  shows "tm_actionReceipts m' = tm_actionReceipts m" "tm_blackboard m' = tm_blackboard m"
proof -
  from assms obtain m1 where m1: "expire_where now ''lease_expired'' (lease_expired now)
      (m\<lparr>tm_workers := map (worker_offline now (tb_leaseMs (tm_budget m))) (tm_workers m)\<rparr>) = Inr m1" "m' = m1 \<or> m' = m1\<lparr>tm_state := MBlocked\<rparr>"
    by (auto simp: reapExpired_def bind_result_Inr)
  with restD(2,3) [OF expire_where_rest [OF m1(1)]] show "tm_actionReceipts m' = tm_actionReceipts m" "tm_blackboard m' = tm_blackboard m" by auto
qed

text \<open>The two logs of a mission that only its own operations write.\<close>

definition logs :: "TeamMission \<Rightarrow> TeamActionReceipt list \<times> TeamBlackboardEntry list" where
  "logs m = (tm_actionReceipts m, tm_blackboard m)"

lemma logs_simps [simp]:
  "logs (appendEvent now k w i d m) = logs m" "logs (with_item n f m) = logs m" "logs (with_worker n g m) = logs m"
  "logs (m\<lparr>tm_state := st\<rparr>) = logs m" "logs (m\<lparr>tm_updatedAt := t\<rparr>) = logs m" "logs (m\<lparr>tm_resources := rs\<rparr>) = logs m"
  "logs (m\<lparr>tm_epoch := ep\<rparr>) = logs m" "logs (m\<lparr>tm_workItems := ws\<rparr>) = logs m" "logs (m\<lparr>tm_workers := wk\<rparr>) = logs m"
  "logs (m\<lparr>tm_startedAt := sa\<rparr>) = logs m" "logs (m\<lparr>tm_deadlineAt := da\<rparr>) = logs m" "logs (finalizeIfVerified now m) = logs m"
  by (simp_all add: logs_def with_item_def with_worker_def finalizeIfVerified_def split: option.split)

lemma logs_kept:
  "reapExpired now m = Inr m' \<Longrightarrow> logs m' = logs m" "expire_where now reason P m = Inr m' \<Longrightarrow> logs m' = logs m"
  "ensureMissionRunnable now m = Inr (m', ok) \<Longrightarrow> logs m' = logs m"
  using reapExpired_rest restD(2,3) [OF expire_where_rest] by (auto simp: logs_def dest: ensureMissionRunnable_same)

lemma claim_logs: "claim co ca w m = Inr (m', item) \<Longrightarrow> logs m' = logs m"
proof (erule claim_cases)
  fix m1 wn assume m1: "reapExpired (ca_now ca) m = Inr m1" "offer co ca wn m1 = Inr (m', item)"
  from m1(2) have "logs m' = logs m1"
    by (cases rule: offer_cases) (auto simp: exhaust_item_def grant_lease_def bind_result_Inr Let_def)
  with m1 show ?thesis by (simp add: logs_kept)
qed (simp add: logs_kept)

lemma authorizeExecution_logs: "authorizeExecution ca inp m = Inr (m', answer) \<Longrightarrow> logs m' = logs m"
proof (erule authorizeExecution_cases)
  fix m1 item' assume m1: "reapExpired (ca_now ca) m = Inr m1" "authorize_held ca inp m1 = Inr (m', item')"
  from m1(2) have "logs m' = logs m1"
    by (auto simp: authorize_held_def bind_result_Inr Let_def split: if_split_asm option.split_asm)
  with m1 show ?thesis by (simp add: logs_kept)
qed (simp add: logs_kept)

lemma other_logs:
  assumes "mission_step co m op = Inr m'"
    and "case op of TPut _ _ \<Rightarrow> False | TBegin _ _ \<Rightarrow> False | TFinish _ _ _ \<Rightarrow> False | TAuditFailure _ _ _ _ \<Rightarrow> False | _ \<Rightarrow> True"
  shows "logs m' = logs m"
proof (cases op)
  case (TClaim ca w)
  with assms show ?thesis by (auto simp: map_sum_Inr claim_logs)
next
  case (TAuthorize ca inp)
  with assms show ?thesis by (auto simp: map_sum_Inr authorizeExecution_logs)
next
  case (TComplete ca inp earlier before canonical)
  with assms show ?thesis by (auto simp: complete_team_Inr complete_commit_def bind_result_Inr Let_def logs_kept)
next
  case (TReconcile ca inp)
  with assms show ?thesis by (auto simp: reconcile_team_def bind_result_Inr Let_def split: if_split_asm)
qed (use assms in \<open>auto simp: map_sum_Inr start_team_def pause_team_def resume_team_def cancel_team_def registerWorker_def heartbeat_def
       fail_team_def revokeWorker_def invalidateLiveLeases_def bind_result_Inr Let_def logs_kept split: if_split_asm option.split_asm\<close>)

section \<open>Action receipts\<close>

definition receipt_of :: "string \<Rightarrow> TeamMission \<Rightarrow> TeamActionReceipt option" where
  "receipt_of a m = find (\<lambda>r. rp_actionId r = a) (tm_actionReceipts m)"

text \<open>The result of the action is recorded.\<close>

definition recorded :: "string \<Rightarrow> TeamMission \<Rightarrow> bool" where
  "recorded a m = (case receipt_of a m of None \<Rightarrow> False | Some r \<Rightarrow> rp_state r = RsCompleted \<and> rp_result r \<noteq> None)"

lemma receipt_of_same: "tm_actionReceipts m' = tm_actionReceipts m \<Longrightarrow> receipt_of a m' = receipt_of a m"
  by (simp add: receipt_of_def)

lemma set_receipt_of:
  assumes "\<And>r. rp_actionId (f r) = rp_actionId r"
  shows "receipt_of a (set_receipt b f m) = (if a = b then map_option f (receipt_of a m) else receipt_of a m)"
proof -
  have "find (\<lambda>r. rp_actionId r = a) (update_first (\<lambda>r. rp_actionId r = b) f rs)
      = (if a = b then map_option f (find (\<lambda>r. rp_actionId r = a) rs) else find (\<lambda>r. rp_actionId r = a) rs)" for rs
    by (induction rs) (use assms in auto)
  then show ?thesis by (simp add: receipt_of_def set_receipt_def)
qed

lemma find_app: "find p (xs @ [y]) = (if find p xs = None \<and> p y then Some y else find p xs)"
  by (induction xs) auto

lemma audit_find:
  "find (\<lambda>r. rp_actionId r = a) rs = Some r \<Longrightarrow> rp_state r = RsCompleted \<Longrightarrow> rp_result r \<noteq> None
   \<Longrightarrow> \<exists>r'. find (\<lambda>r. rp_actionId r = a) (update_first (\<lambda>r. rp_actionId r = b \<and> rp_state r = RsCompleted) (\<lambda>r. r\<lparr>rp_result := Some d, rp_updatedAt := t\<rparr>) rs)
         = Some r' \<and> rp_state r' = RsCompleted \<and> rp_result r' \<noteq> None"
  by (induction rs) (auto split: if_split_asm)

lemma audit_ids:
  "map rp_actionId (update_first p (\<lambda>r. r\<lparr>rp_result := d, rp_updatedAt := t\<rparr>) rs) = map rp_actionId rs"
  by (induction rs) auto

lemma receipt_of_None: "receipt_of a m = None \<longleftrightarrow> a \<notin> set (map rp_actionId (tm_actionReceipts m))"
  by (auto simp: receipt_of_def find_None_iff)

text \<open>How a step changes the receipt of an action.\<close>

lemma begin_receipt:
  assumes "beginActionExecution co ca inp m = Inr (m', d)"
  shows "receipt_of a m \<noteq> None \<Longrightarrow> receipt_of a m' \<noteq> None" "recorded a m \<Longrightarrow> recorded a m'"
    "d = TdDispatch \<Longrightarrow> receipt_of (aq_id (ac_action inp)) m' \<noteq> None"
    "d = TdDispatch \<Longrightarrow> \<not> co_actionJournal co \<Longrightarrow> receipt_of (aq_id (ac_action inp)) m = None"
    "d = TdDispatch \<Longrightarrow> \<not> recorded (aq_id (ac_action inp)) m"
proof -
  let ?a = "aq_id (ac_action inp)"
  consider (old) r where "receipt_of ?a m = Some r" "d \<noteq> TdDispatch \<or> co_actionJournal co \<and> rp_state r \<noteq> RsCompleted" "tm_actionReceipts m' = tm_actionReceipts m"
    | (uncertain) r now where "receipt_of ?a m = Some r" "rp_state r = RsDispatching" "d = TdUncertain"
        "tm_actionReceipts m' = tm_actionReceipts (set_receipt ?a (\<lambda>r. r\<lparr>rp_state := RsUncertain, rp_updatedAt := now\<rparr>) m)"
    | (fresh) r where "receipt_of ?a m = None" "rp_actionId r = ?a" "tm_actionReceipts m' = tm_actionReceipts m @ [r]" "rp_state r = RsDispatching"
  proof (cases "receipt_of ?a m")
    case None
    with assms have "\<exists>r. rp_actionId r = ?a \<and> tm_actionReceipts m' = tm_actionReceipts m @ [r] \<and> rp_state r = RsDispatching"
      by (auto simp: beginActionExecution_def receipt_of_def bind_result_Inr Let_def split: if_split_asm)
    with None that(3) show ?thesis by blast
  next
    case (Some r)
    with assms have "if d = TdUncertain \<and> rp_state r = RsDispatching
      then \<exists>now. tm_actionReceipts m' = tm_actionReceipts (set_receipt ?a (\<lambda>r. r\<lparr>rp_state := RsUncertain, rp_updatedAt := now\<rparr>) m)
      else tm_actionReceipts m' = tm_actionReceipts m \<and> (d \<noteq> TdDispatch \<or> co_actionJournal co \<and> rp_state r \<noteq> RsCompleted)"
      by (auto simp: beginActionExecution_def receipt_of_def bind_result_Inr Let_def split: if_split_asm option.split_asm TeamReceiptState.split_asm)
    with Some that(1,2) show ?thesis by (auto split: if_split_asm)
  qed
  then have "(\<forall>b. receipt_of b m \<noteq> None \<longrightarrow> receipt_of b m' \<noteq> None) \<and> (\<forall>b. recorded b m \<longrightarrow> receipt_of b m' = receipt_of b m)
      \<and> (d = TdDispatch \<longrightarrow> receipt_of ?a m' \<noteq> None \<and> (\<not> co_actionJournal co \<longrightarrow> receipt_of ?a m = None) \<and> \<not> recorded ?a m)"
  proof cases
    case (old r)
    have "receipt_of b m' = receipt_of b m" for b using old(3) by (rule receipt_of_same)
    with old(1,2) show ?thesis by (auto simp: recorded_def)
  next
    case (uncertain r now)
    have "receipt_of b m' = (if b = ?a then map_option (\<lambda>r. r\<lparr>rp_state := RsUncertain, rp_updatedAt := now\<rparr>) (receipt_of b m) else receipt_of b m)" for b
      using receipt_of_same [OF uncertain(4)] by (simp add: set_receipt_of)
    with uncertain(1-3) show ?thesis by (auto simp: recorded_def)
  next
    case (fresh r)
    have "receipt_of b m' = (if receipt_of b m = None \<and> b = ?a then Some r else receipt_of b m)" for b
      using fresh(2,3) by (auto simp: receipt_of_def find_app)
    with fresh(1) show ?thesis by (auto simp: recorded_def)
  qed
  then show "receipt_of a m \<noteq> None \<Longrightarrow> receipt_of a m' \<noteq> None" "recorded a m \<Longrightarrow> recorded a m'"
    "d = TdDispatch \<Longrightarrow> receipt_of ?a m' \<noteq> None" "d = TdDispatch \<Longrightarrow> \<not> co_actionJournal co \<Longrightarrow> receipt_of ?a m = None"
    "d = TdDispatch \<Longrightarrow> \<not> recorded ?a m"
    by (simp_all add: recorded_def)
qed

lemma finish_receipt:
  assumes "completeActionExecution co ca inp result m = Inr m'"
  shows "receipt_of a m \<noteq> None \<Longrightarrow> receipt_of a m' \<noteq> None" "recorded a m \<Longrightarrow> recorded a m'"
proof -
  let ?a = "aq_id (ac_action inp)"
  from assms obtain r where r: "receipt_of ?a m = Some r" by (auto simp: completeActionExecution_def receipt_of_def Let_def split: if_split_asm option.split_asm)
  let ?u = "\<lambda>r. r\<lparr>rp_result := Some result, rp_updatedAt := ca_now ca, rp_state := RsUncertain\<rparr>"
    and ?c = "\<lambda>r. r\<lparr>rp_result := Some result, rp_updatedAt := ca_now ca, rp_state := RsCompleted,
      rp_verificationDigest := (case kernelVerificationDigest result of None \<Rightarrow> rp_verificationDigest r | Some d \<Rightarrow> Some d)\<rparr>"
  have "m' = m \<or> rp_state r \<noteq> RsCompleted \<and> (\<exists>f\<in>{?u, ?c}. tm_actionReceipts m' = tm_actionReceipts (set_receipt ?a f m))"
    using assms r unfolding completeActionExecution_def receipt_of_def Let_def by (simp split: if_split_asm) (hypsubst, simp)+
  then have "\<forall>b. (receipt_of b m \<noteq> None \<longrightarrow> receipt_of b m' \<noteq> None) \<and> (recorded b m \<longrightarrow> receipt_of b m' = receipt_of b m)"
  proof (elim disjE conjE bexE)
    fix f assume f: "rp_state r \<noteq> RsCompleted" "f \<in> {?u, ?c}" "tm_actionReceipts m' = tm_actionReceipts (set_receipt ?a f m)"
    have "receipt_of b m' = (if b = ?a then map_option f (receipt_of b m) else receipt_of b m)" for b
      using receipt_of_same [OF f(3)] set_receipt_of [of f b ?a m] f(2) by auto
    with r f(1) show ?thesis by (auto simp: recorded_def)
  qed simp
  then show "receipt_of a m \<noteq> None \<Longrightarrow> receipt_of a m' \<noteq> None" "recorded a m \<Longrightarrow> recorded a m'" by (simp_all add: recorded_def)
qed

lemma audit_receipt:
  assumes "recordActionAuditFailure ca i result code m = Inr (m', d)"
  shows "receipt_of a m \<noteq> None \<Longrightarrow> receipt_of a m' \<noteq> None" "recorded a m \<Longrightarrow> recorded a m'"
proof -
  from assms have m': "tm_actionReceipts m' = update_first (\<lambda>r. rp_actionId r = i \<and> rp_state r = RsCompleted)
      (\<lambda>r. r\<lparr>rp_result := Some (degrade_result (ca_now ca) code result), rp_updatedAt := ca_now ca\<rparr>) (tm_actionReceipts m)"
    by (auto simp: recordActionAuditFailure_def Let_def split: option.split_asm)
  then show "receipt_of a m \<noteq> None \<Longrightarrow> receipt_of a m' \<noteq> None" by (simp only: receipt_of_None audit_ids) simp
  show "recorded a m'" if r: "recorded a m"
  proof -
    from r obtain x where "find (\<lambda>r. rp_actionId r = a) (tm_actionReceipts m) = Some x" "rp_state x = RsCompleted" "rp_result x \<noteq> None"
      by (auto simp: recorded_def receipt_of_def split: option.splits)
    from audit_find [OF this, where b = i and d = "degrade_result (ca_now ca) code result" and t = "ca_now ca"] show ?thesis unfolding recorded_def receipt_of_def m' by auto
  qed
qed

lemma step_receipt:
  assumes "mission_step co m op = Inr m'"
  shows "receipt_of a m \<noteq> None \<Longrightarrow> receipt_of a m' \<noteq> None" "recorded a m \<Longrightarrow> recorded a m'"
proof -
  have "(receipt_of a m \<noteq> None \<longrightarrow> receipt_of a m' \<noteq> None) \<and> (recorded a m \<longrightarrow> recorded a m')"
  proof (cases op)
    case (TPut ca inp)
    with assms have "tm_actionReceipts m' = tm_actionReceipts m" by (auto simp: putBlackboard_def bind_result_Inr Let_def reapExpired_rest)
    from receipt_of_same [OF this] show ?thesis by (simp add: recorded_def)
  next
    case (TBegin ca inp)
    with assms obtain d where "beginActionExecution co ca inp m = Inr (m', d)" by (auto simp: map_sum_Inr)
    from begin_receipt(1,2) [OF this] show ?thesis by blast
  next
    case (TFinish ca inp r)
    with assms have "completeActionExecution co ca inp r m = Inr m'" by simp
    from finish_receipt [OF this] show ?thesis by blast
  next
    case (TAuditFailure ca i r c)
    with assms obtain d where "recordActionAuditFailure ca i r c m = Inr (m', d)" by (auto simp: map_sum_Inr)
    from audit_receipt [OF this] show ?thesis by blast
  qed (use other_logs [OF assms] in \<open>auto simp: logs_def recorded_def receipt_of_def\<close>)
  then show "receipt_of a m \<noteq> None \<Longrightarrow> receipt_of a m' \<noteq> None" "recorded a m \<Longrightarrow> recorded a m'" by auto
qed

text \<open>Whether a step dispatches the action, and how often a history does.\<close>

definition dispatched :: "TeamCoordinator \<Rightarrow> string \<Rightarrow> TeamMission \<Rightarrow> team_op \<Rightarrow> bool" where
  "dispatched co a m op = (case op of
     TBegin ca inp \<Rightarrow> aq_id (ac_action inp) = a \<and> (case beginActionExecution co ca inp m of Inl _ \<Rightarrow> False | Inr (_, d) \<Rightarrow> d = TdDispatch)
   | _ \<Rightarrow> False)"

fun dispatches :: "TeamCoordinator \<Rightarrow> string \<Rightarrow> TeamMission \<Rightarrow> team_op list \<Rightarrow> nat" where
  "dispatches co a m [] = 0"
| "dispatches co a m (op # ops) =
     (if dispatched co a m op then 1 else 0) + dispatches co a (case mission_step co m op of Inl _ \<Rightarrow> m | Inr m' \<Rightarrow> m') ops"

lemma dispatchedD:
  assumes "dispatched co a m op"
  shows "\<exists>m'. mission_step co m op = Inr m' \<and> receipt_of a m' \<noteq> None" "\<not> co_actionJournal co \<Longrightarrow> receipt_of a m = None" "\<not> recorded a m"
proof -
  from assms obtain ca inp m' where "op = TBegin ca inp" "aq_id (ac_action inp) = a" "beginActionExecution co ca inp m = Inr (m', TdDispatch)"
    by (auto simp: dispatched_def split: team_op.split_asm sum.split_asm)
  with begin_receipt(3-5) [OF this(3)] show "\<exists>m'. mission_step co m op = Inr m' \<and> receipt_of a m' \<noteq> None"
    "\<not> co_actionJournal co \<Longrightarrow> receipt_of a m = None" "\<not> recorded a m" by (auto simp: map_sum_Inr)
qed

lemma no_more_dispatches:
  assumes "recorded a m \<or> \<not> co_actionJournal co \<and> receipt_of a m \<noteq> None"
  shows "dispatches co a m ops = 0"
  using assms
proof (induction ops arbitrary: m)
  case (Cons op ops)
  have "\<not> dispatched co a m op" using dispatchedD(2,3) [of co a m op] Cons.prems by blast
  moreover have "recorded a m' \<or> \<not> co_actionJournal co \<and> receipt_of a m' \<noteq> None" if "mission_step co m op = Inr m'" for m'
    using step_receipt [OF that] Cons.prems by blast
  ultimately show ?case using Cons by (cases "mission_step co m op") auto
qed simp

text \<open>
  C21. Team actions are dispatched at most once. Without an action journal to consult, no history of a mission
  dispatches an action identifier twice, whatever retries, replays, lease losses and restarts it contains; and
  with or without one, an action whose result is recorded is never dispatched again.
\<close>

theorem team_action_dispatched_once:
  "(\<not> co_actionJournal co \<longrightarrow> dispatches co a m ops \<le> 1) \<and> (recorded a m \<longrightarrow> dispatches co a m ops = 0)"
proof (intro conjI)
  show "recorded a m \<longrightarrow> dispatches co a m ops = 0" using no_more_dispatches [of a m co ops] by simp
  show "\<not> co_actionJournal co \<longrightarrow> dispatches co a m ops \<le> 1"
  proof (induction ops arbitrary: m)
    case (Cons op ops)
    show ?case
    proof (cases "dispatched co a m op \<and> \<not> co_actionJournal co")
      case True
      with dispatchedD(1) obtain m' where "mission_step co m op = Inr m'" "receipt_of a m' \<noteq> None" by blast
      with True no_more_dispatches [of a m' co ops] show ?thesis by simp
    next
      case False
      with Cons.IH show ?thesis by (auto split: sum.split)
    qed
  qed simp
qed

theorem team_action_dispatched_once_witness:
  "\<exists>m op. reachable_mission demo_co m \<and> dispatched demo_co ''a1'' m op \<and> dispatches demo_co ''a1'' m [op, op] = 1"
proof -
  obtain m where m: "reachable_mission demo_co m" and v: "demo_view m MRunning (Some 60001) [demo_worker CHR ''2'' RCoder 2 4, demo_worker CHR ''3'' RVerifier 3 3]
        [demo_repo 0 0 (Some (demo_lock CHR ''4'' CHR ''2'' demo_build 4))] [build1, verify0]" by (rule demo_history)
  define act where "act = \<lparr>aq_id = ''a1'', aq_capability = ''fs.write'', aq_risk = Write, aq_input = [], aq_provenance = \<lparr>pv_kind = PUser, pv_source = None\<rparr>, aq_taskId = None,
    aq_target = None, aq_intent = None\<rparr>"
  define op where "op = TBegin (demo_call 5 CHR ''0'') \<lparr>ac_workerId = demo_uuid CHR ''2'', ac_workItemId = demo_build, ac_leaseId = demo_uuid CHR ''4'', ac_action = act\<rparr>"
  have d: "dispatched demo_co ''a1'' m op"
    using v by (simp add: dispatched_def op_def act_def beginActionExecution_def requireWorkItem_def requireLease_def demo_uuid_valid demo_uuids
        bind_result_Inr_left demo_view_def demo_data demo_lease_def Let_def)
  moreover have "dispatches demo_co ''a1'' m [op, op] \<le> 1"
    using team_action_dispatched_once [of demo_co "''a1''" m "[op, op]"] by (simp add: demo_co_def)
  ultimately show ?thesis using m by (intro exI [of _ m] exI [of _ op]) simp
qed

section \<open>The blackboard\<close>

definition board_ok :: "TeamBlackboardEntry list \<Rightarrow> bool" where
  "board_ok board \<longleftrightarrow> distinct (map be_key board) \<and> list_all (\<lambda>e. 1 \<le> be_revision e) board"

lemma distinct_sort_key: "distinct (map key (sort_key f xs)) = distinct (map key xs)"
  by (rule mset_eq_imp_distinct_iff) simp

lemma find_sort_key:
  assumes "distinct (map key xs)"
  shows "find (\<lambda>x. key x = k) (sort_key f xs) = find (\<lambda>x. key x = k) xs"
proof (rule option.expand)
  have S: "find (\<lambda>x. key x = k) (sort_key f xs) = Some x \<longleftrightarrow> find (\<lambda>x. key x = k) xs = Some x" for x
    using find_Some_iff_distinct [of key "sort_key f xs" k x] find_Some_iff_distinct [of key xs k x] assms by (simp add: distinct_sort_key)
  show "(find (\<lambda>x. key x = k) (sort_key f xs) = None) = (find (\<lambda>x. key x = k) xs = None)" using S by (metis not_None_eq)
  show "the (find (\<lambda>x. key x = k) (sort_key f xs)) = the (find (\<lambda>x. key x = k) xs)" if "find (\<lambda>x. key x = k) (sort_key f xs) \<noteq> None"
    using S that by (metis option.collapse)
qed

lemma find_update_key:
  assumes "\<And>e. be_key (f e) = be_key e"
  shows "find (\<lambda>e. be_key e = k) (update_first (\<lambda>e. be_key e = key) f board)
     = (if k = key then map_option f (find (\<lambda>e. be_key e = k) board) else find (\<lambda>e. be_key e = k) board)"
  by (induction board) (use assms in auto)

lemma put_entry_Inr:
  assumes "board_ok board" "put_entry co now w key v expected board = Inr board'"
  shows "board_ok board'" "\<forall>k. k \<noteq> key \<longrightarrow> find (\<lambda>e. be_key e = k) board' = find (\<lambda>e. be_key e = k) board"
    "revision_of key board' = revision_of key board + 1" "or_default 0 expected = revision_of key board"
    "\<exists>e. find (\<lambda>e. be_key e = key) board' = Some e \<and> be_value e = v \<and> be_workerId e = w"
proof -
  have "board_ok board' \<and> (\<forall>k. k \<noteq> key \<longrightarrow> find (\<lambda>e. be_key e = k) board' = find (\<lambda>e. be_key e = k) board)
    \<and> revision_of key board' = revision_of key board + 1 \<and> or_default 0 expected = revision_of key board
    \<and> (\<exists>e. find (\<lambda>e. be_key e = key) board' = Some e \<and> be_value e = v \<and> be_workerId e = w)"
  proof (cases "find (\<lambda>e. be_key e = key) board")
    case None
    let ?new = "\<lparr>be_key = key, be_revision = 1, be_value = v, be_workerId = w, be_updatedAt = now\<rparr>"
    from None assms(2) have b: "board' = sort_key (\<lambda>e. co_collate co (be_key e)) (board @ [?new])" "expected = None \<or> expected = Some 0"
      by (auto simp: put_entry_def split: if_split_asm)
    have "key \<notin> be_key ` set board" using None by (auto simp: find_None_iff)
    with assms(1) have d: "distinct (map be_key (board @ [?new]))" by (auto simp: board_ok_def)
    have "find (\<lambda>e. be_key e = k) board' = (if k = key then Some ?new else find (\<lambda>e. be_key e = k) board)" for k
      unfolding b(1) find_sort_key [OF d] using None by (auto simp: find_app)
    with None b assms(1) d show ?thesis
      by (auto simp: revision_of_def board_ok_def or_default_def distinct_sort_key list_all_iff)
  next
    case (Some e)
    let ?f = "\<lambda>e. e\<lparr>be_revision := be_revision e + 1, be_value := v, be_workerId := w, be_updatedAt := now\<rparr>"
    from Some assms(2) have b: "board' = update_first (\<lambda>e. be_key e = key) ?f board" "expected = Some (be_revision e)"
      by (auto simp: put_entry_def split: if_split_asm)
    have "map be_key board' = map be_key board" unfolding b(1) by (induction board) auto
    moreover have "list_all (\<lambda>e. 1 \<le> be_revision e) board'"
      using assms(1) unfolding b(1) board_ok_def by (induction board) auto
    ultimately have "board_ok board'" using assms(1) by (simp add: board_ok_def)
    with Some b find_update_key [of ?f _ key board] show ?thesis by (simp add: revision_of_def or_default_def)
  qed
  then show "board_ok board'" "\<forall>k. k \<noteq> key \<longrightarrow> find (\<lambda>e. be_key e = k) board' = find (\<lambda>e. be_key e = k) board"
    "revision_of key board' = revision_of key board + 1" "or_default 0 expected = revision_of key board"
    "\<exists>e. find (\<lambda>e. be_key e = key) board' = Some e \<and> be_value e = v \<and> be_workerId e = w" by blast+
qed

lemma putBlackboard_Inr:
  assumes "putBlackboard co ca inp m = Inr m'"
  obtains w v where "put_entry co (ca_now ca) w (bo_key inp) v (bo_expectedRevision inp) (tm_blackboard m) = Inr (tm_blackboard m')" "bo_value inp = Some v"
  using assms
  by (auto simp: putBlackboard_def bind_result_Inr Let_def reapExpired_rest team_boundedKey_def boundedText_def cloneBoundedJson_def
      split: if_split_asm option.split_asm)

lemma step_board:
  assumes "mission_step co m op = Inr m'" "board_ok (tm_blackboard m)"
  shows "board_ok (tm_blackboard m') \<and> revision_of k (tm_blackboard m) \<le> revision_of k (tm_blackboard m')"
proof (cases op)
  case (TPut ca inp)
  with assms(1) have "putBlackboard co ca inp m = Inr m'" by simp
  then obtain w v where p: "put_entry co (ca_now ca) w (bo_key inp) v (bo_expectedRevision inp) (tm_blackboard m) = Inr (tm_blackboard m')"
    by (rule putBlackboard_Inr)
  note P = put_entry_Inr [OF assms(2) p]
  show ?thesis using P(1-3) by (cases "k = bo_key inp") (auto simp: revision_of_def)
next
  case (TBegin ca inp)
  with assms have "tm_blackboard m' = tm_blackboard m"
    by (auto simp: map_sum_Inr beginActionExecution_def bind_result_Inr set_receipt_def Let_def
        split: if_split_asm option.split_asm TeamReceiptState.split_asm)
  with assms(2) show ?thesis by simp
next
  case (TFinish ca inp r)
  with assms have "tm_blackboard m' = tm_blackboard m"
    by (auto simp: completeActionExecution_def set_receipt_def Let_def split: if_split_asm option.split_asm)
  with assms(2) show ?thesis by simp
next
  case (TAuditFailure ca i r c)
  with assms have "tm_blackboard m' = tm_blackboard m"
    by (auto simp: map_sum_Inr recordActionAuditFailure_def Let_def split: option.split_asm)
  with assms(2) show ?thesis by simp
qed (use other_logs [OF assms(1)] assms(2) in \<open>auto simp: logs_def\<close>)

lemma run_board:
  assumes "board_ok (tm_blackboard m)"
  shows "board_ok (tm_blackboard (run_ops (mission_step co) m ops))
    \<and> revision_of k (tm_blackboard m) \<le> revision_of k (tm_blackboard (run_ops (mission_step co) m ops))"
  using assms
proof (induction ops arbitrary: m)
  case (Cons op ops)
  show ?case
  proof (cases "mission_step co m op")
    case (Inl e)
    with Cons show ?thesis by simp
  next
    case (Inr m')
    from step_board [OF Inr Cons.prems, of k] Cons.IH [of m'] Inr show ?thesis by auto
  qed
qed simp

lemma reachable_board: "reachable_mission co m \<Longrightarrow> board_ok (tm_blackboard m)"
proof (induction rule: reachable_mission.induct)
  case (submitted ca inp m)
  then show ?case by (rule submit_mission_Inr) (simp add: board_ok_def)
qed (use step_board in blast)

text \<open>
  The blackboard loses no update. A successful write of a reachable mission sees exactly the revision it
  expected, stores its value under the next revision and leaves every other key alone; and whatever happens
  afterwards, no write that expects the same revision of that key ever succeeds.
\<close>

theorem blackboard_no_lost_update:
  assumes "reachable_mission co m" "putBlackboard co ca inp m = Inr m'"
    and "bo_key inp' = bo_key inp" "bo_expectedRevision inp' = bo_expectedRevision inp"
  shows "or_default 0 (bo_expectedRevision inp) = revision_of (bo_key inp) (tm_blackboard m)
       \<and> revision_of (bo_key inp) (tm_blackboard m') = revision_of (bo_key inp) (tm_blackboard m) + 1
       \<and> (\<exists>e. find (\<lambda>e. be_key e = bo_key inp) (tm_blackboard m') = Some e \<and> Some (be_value e) = bo_value inp)
       \<and> (\<forall>k. k \<noteq> bo_key inp \<longrightarrow> find (\<lambda>e. be_key e = k) (tm_blackboard m') = find (\<lambda>e. be_key e = k) (tm_blackboard m))
       \<and> (\<exists>e. putBlackboard co ca' inp' (run_ops (mission_step co) m' ops) = Inl e)"
proof -
  from assms(2) obtain w v where p: "put_entry co (ca_now ca) w (bo_key inp) v (bo_expectedRevision inp) (tm_blackboard m) = Inr (tm_blackboard m')"
    and v: "bo_value inp = Some v" by (rule putBlackboard_Inr)
  note P = put_entry_Inr [OF reachable_board [OF assms(1)] p]
  have "\<exists>e. putBlackboard co ca' inp' (run_ops (mission_step co) m' ops) = Inl e"
  proof (cases "putBlackboard co ca' inp' (run_ops (mission_step co) m' ops)")
    case (Inr m2)
    then obtain w' v' where p': "put_entry co (ca_now ca') w' (bo_key inp') v' (bo_expectedRevision inp') (tm_blackboard (run_ops (mission_step co) m' ops)) = Inr (tm_blackboard m2)"
      by (rule putBlackboard_Inr)
    have "board_ok (tm_blackboard (run_ops (mission_step co) m' ops))" using run_board [OF P(1)] by blast
    from put_entry_Inr(4) [OF this p'] P(3,4) run_board [OF P(1), where k = "bo_key inp" and co = co and ops = ops] assms(3,4) show ?thesis by simp
  qed simp
  with P v show ?thesis by auto
qed

theorem blackboard_no_lost_update_witness:
  "\<exists>m m' inp e. reachable_mission demo_co m \<and> putBlackboard demo_co (demo_call 5 CHR ''0'') inp m = Inr m'
     \<and> revision_of ''build'' (tm_blackboard m') = 1 \<and> putBlackboard demo_co (demo_call 6 CHR ''0'') inp m' = Inl e"
proof -
  obtain m where m: "reachable_mission demo_co m" and v: "demo_view m MRunning (Some 60001) [demo_worker CHR ''2'' RCoder 2 4, demo_worker CHR ''3'' RVerifier 3 3]
        [demo_repo 0 0 (Some (demo_lock CHR ''4'' CHR ''2'' demo_build 4))] [build1, verify0]" by (rule demo_history)
  let ?inp = "\<lparr>bo_workerId = demo_uuid CHR ''2'', bo_key = ''build'', bo_value = Some JNull, bo_expectedRevision = None, bo_workItemId = Some demo_build,
    bo_leaseId = Some (demo_uuid CHR ''4'')\<rparr>"
  have T: "truthy (Some demo_build) = Some demo_build" "truthy (Some (demo_uuid CHR ''4'')) = Some (demo_uuid CHR ''4'')"
    by (simp_all add: truthy_def demo_build_def demo_uuid_def)
  have "reapExpired 5 m = Inr m" by (rule demo_reap [OF v]) (auto simp: lease_expired_def demo_data demo_lease_def)
  then obtain m' where m': "putBlackboard demo_co (demo_call 5 CHR ''0'') ?inp m = Inr m'"
    using v by (simp add: putBlackboard_def requireWorker_def blackboard_lease_def requireWorkItem_def requireLease_def demo_uuid_valid demo_uuids demo_text
        put_entry_def cloneBoundedJson_def T bind_result_Inr_left demo_view_def demo_data demo_lease_def Let_def)
  from blackboard_no_lost_update [OF m m' refl refl, where ops = "[]" and ca' = "demo_call 6 CHR ''0''"] m m' v show ?thesis
    by (auto simp: demo_view_def revision_of_def or_default_def)
qed

section \<open>Verifier-gated completion\<close>

lemma verify_all_ok:
  assumes "verify cd bd collate kind subject contract checks = Inr receipt" "vb_verified (vk_body receipt)" "c \<in> set checks"
  shows "vc_ok c"
proof -
  from assms(1) obtain cs where cs: "map_throw normalize_check checks = Inr cs"
    "receipt = (let sorted = sort_key (\<lambda>c. collate (rc_name c)) cs;
        body = \<lparr>vb_subjectKind = kind, vb_subjectId = subject, vb_contractDigest = cd contract, vb_checks = sorted, vb_verified = list_all rc_ok sorted\<rparr>
      in \<lparr>vk_body = body, vk_digest = bd body\<rparr>)"
    by (auto simp: verify_def bind_result_Inr Let_def split: if_split_asm)
  from cs(1) assms(3) obtain r where r: "normalize_check c = Inr r" "r \<in> set cs"
    by (auto simp: map_throw_Inr_iff in_set_conv_nth [of c] list_all2_conv_all_nth)
  have "list_all rc_ok cs" using assms(2) cs(2) by (simp add: Let_def list_all_iff)
  with r normalize_check_InrD [OF r(1)] show ?thesis by (simp add: list_all_iff)
qed

lemma complete_prepare_Some: "complete_prepare co now inp canonical before = Inr (Some (cv, d)) \<Longrightarrow> canonical = Inr cv"
  by (auto simp: complete_prepare_def bind_result_Inr Let_def split: if_split_asm)

lemma verify_work_checks:
  assumes "co_requireKernelVerification co" "wi_role item = RVerifier" "verify_work co inp prepared m item = Inr digest"
  obtains cv d where "prepared = Some (cv, d)" "d = teamVerificationStateDigest co m (wi_id item)"
    "\<forall>c\<in>set (team_checks co m item (Some cv)). vc_ok c"
proof -
  from assms obtain cv d where p: "prepared = Some (cv, d)" "d = teamVerificationStateDigest co m (wi_id item)"
    by (auto simp: verify_work_def Let_def split: if_split_asm option.split_asm)
  with assms obtain receipt where "verify (co_contractDigest co) (co_receiptDigest co) (co_collate co) ''team-verifier'' (tm_id m @ '':'' @ wi_id item)
      (team_contract m item (Some cv)) (team_checks co m item (Some cv)) = Inr receipt" "vb_verified (vk_body receipt)"
    by (auto simp: verify_work_def bind_result_Inr Let_def split: if_split_asm)
  from verify_all_ok [OF this] that [OF p] show thesis by blast
qed

text \<open>
  A verifier completes only against checked state. Where kernel verification is required, a completion of a
  verifier item that succeeds had a canonical verification with at least one check, all of them passed with at
  least three pieces of evidence each; every other item the verifier depends on is completed, and if it declares
  capabilities it has a successful action receipt with passing evidence and a kernel verification digest; and no
  resource of the mission has unresolved side effects.
\<close>

theorem verifier_completion_checked:
  assumes "co_requireKernelVerification co" "complete_team co ca inp earlier before canonical m = Inr m'"
    and "reapExpired (ca_now ca) m = Inr m1" "held_work (ca_now ca) inp m1 = Inr (wn, n, lease)" "wi_role (tm_workItems m1 ! n) = RVerifier"
  shows "(\<exists>req cs. canonical = Inr (req, cs) \<and> cs \<noteq> [] \<and> (\<forall>c\<in>set cs. vc_ok c \<and> 3 \<le> length (or_default [] (vc_evidenceDigests c))))
       \<and> (\<forall>c\<in>set (tm_workItems m1). wi_id c \<noteq> wi_id (tm_workItems m1 ! n) \<and> (depends (tm_workItems m1))\<^sup>+\<^sup>+ (wi_key (tm_workItems m1 ! n)) (wi_key c)
            \<longrightarrow> wi_state c = WCompleted \<and> (wi_allowedCapabilities c = [] \<or>
              (\<exists>r\<in>set (tm_actionReceipts m1). \<exists>x. rp_workItemId r = wi_id c \<and> rp_state r = RsCompleted \<and> rp_result r = Some x \<and> ar_ok x
                 \<and> (\<exists>e\<in>set (ar_evidence x). ev_status e = EvPass) \<and> truthy (rp_verificationDigest r) \<noteq> None)))
       \<and> (\<forall>r\<in>set (tm_resources m1). \<not> tr_uncertain r)"
proof -
  let ?item = "tm_workItems m1 ! n"
  from assms(2) obtain prepared where prep: "complete_prepare co earlier inp canonical before = Inr prepared"
    and commit: "complete_commit co (ca_now ca) inp prepared m = Inr m'" by (auto simp: complete_team_Inr)
  from commit assms(3,4) obtain digest where "verify_work co inp prepared m1 ?item = Inr digest"
    by (auto simp: complete_commit_def bind_result_Inr Let_def)
  from verify_work_checks [OF assms(1,5) this] obtain req cs d where p: "prepared = Some ((req, cs), d)"
    and ok: "\<forall>c\<in>set (team_checks co m1 ?item (Some (req, cs))). vc_ok c" by (metis surj_pair)
  define covered where "covered = covered_items m1 ?item"
  define actions where "actions = completed_actions m1 covered"
  have C: "canonical = Inr (req, cs)" using complete_prepare_Some prep p by blast
  from ok have K: "list_all (\<lambda>c. wi_state c = WCompleted) covered"
      "list_all (\<lambda>c. wi_allowedCapabilities c = [] \<or> list_ex (\<lambda>a. rp_workItemId a = wi_id c) actions) covered"
      "list_all (\<lambda>a. case rp_result a of None \<Rightarrow> False | Some x \<Rightarrow> list_ex (\<lambda>e. ev_status e = EvPass) (ar_evidence x)) actions"
      "list_all (\<lambda>a. truthy (rp_verificationDigest a) \<noteq> None) actions" "list_all (\<lambda>r. \<not> tr_uncertain r) (tm_resources m1)"
      "cs \<noteq> [] \<and> list_all (\<lambda>c. vc_ok c \<and> length (or_default [] (vc_evidenceDigests c)) \<ge> 3) cs"
    using assms(1) by (simp_all add: team_checks_def team_check_def Let_def covered_def actions_def)
  have "wi_state c = WCompleted \<and> (wi_allowedCapabilities c = [] \<or>
      (\<exists>r\<in>set (tm_actionReceipts m1). \<exists>x. rp_workItemId r = wi_id c \<and> rp_state r = RsCompleted \<and> rp_result r = Some x \<and> ar_ok x
         \<and> (\<exists>e\<in>set (ar_evidence x). ev_status e = EvPass) \<and> truthy (rp_verificationDigest r) \<noteq> None))"
    if c: "c \<in> set (tm_workItems m1)" "wi_id c \<noteq> wi_id ?item" "(depends (tm_workItems m1))\<^sup>+\<^sup>+ (wi_key ?item) (wi_key c)" for c
  proof -
    have cov: "c \<in> set covered" using c by (simp add: covered_def covered_items_def dep_reach)
    have act: "\<exists>x. rp_result a = Some x \<and> ar_ok x \<and> (\<exists>e\<in>set (ar_evidence x). ev_status e = EvPass)" "rp_state a = RsCompleted"
        "a \<in> set (tm_actionReceipts m1)" "truthy (rp_verificationDigest a) \<noteq> None" if "a \<in> set actions" for a
      using that K(3,4) by (auto simp: actions_def completed_actions_def list_all_iff list_ex_iff split: option.splits)
    have "wi_state c = WCompleted" "wi_allowedCapabilities c = [] \<or> (\<exists>a\<in>set actions. rp_workItemId a = wi_id c)"
      using K(1,2) cov by (auto simp: list_all_iff list_ex_iff)
    with act show ?thesis by (elim disjE bexE) blast+
  qed
  with C K(5,6) show ?thesis by (auto simp: list_all_iff)
qed

theorem verifier_completion_checked_witness:
  "\<exists>m m'. reachable_mission demo_co m \<and> complete_team demo_co (demo_call 62000 CHR ''0'') (demo_completion CHR ''3'' demo_verify CHR ''5'') 62000 m demo_canonical m = Inr m'
     \<and> wi_state (tm_workItems m ! 0) = WCompleted \<and> list_all (\<lambda>r. \<not> tr_uncertain r) (tm_resources m)"
proof -
  obtain m m' where m: "reachable_mission demo_co m"
    and s: "mission_step demo_co m (TComplete (demo_call 62000 CHR ''0'') (demo_completion CHR ''3'' demo_verify CHR ''5'') 62000 m demo_canonical) = Inr m'"
    and v: "demo_view m MFailed (Some 60001) [demo_worker CHR ''2'' RCoder 2 5, demo_worker CHR ''3'' RVerifier 3 6]
        [demo_repo 1 5 (Some (demo_lock CHR ''5'' CHR ''3'' demo_verify 6))] [build2, verify1]"
    by (rule demo_history)
  from s have c: "complete_team demo_co (demo_call 62000 CHR ''0'') (demo_completion CHR ''3'' demo_verify CHR ''5'') 62000 m demo_canonical m = Inr m'" by simp
  have k: "co_requireKernelVerification demo_co" "ca_now (demo_call 62000 CHR ''0'') = 62000" by (simp_all add: demo_co_def demo_call_def)
  have i: "wi_role (tm_workItems m ! 1) = RVerifier" "tm_workItems m ! 0 \<in> set (tm_workItems m)" "wi_id (tm_workItems m ! 0) \<noteq> wi_id (tm_workItems m ! 1)"
    "depends (tm_workItems m) (wi_key (tm_workItems m ! 1)) (wi_key (tm_workItems m ! 0))"
    using v demo_distinct(1) by (simp_all add: demo_view_def demo_item_def depends_def item_deps_def)
  note H = demo_held [OF v]
  from verifier_completion_checked [OF k(1) c, unfolded k(2), OF H i(1)] i tranclp.r_into_trancl [of "depends (tm_workItems m)", OF i(4)] m c show ?thesis
    by (auto simp: list_all_iff)
qed

end
