(* ===== verification/ProcessInstance.thy ===== *)
theory ProcessInstance
  imports Prelude
begin

text \<open>
  Process identities and when a recorded owner may be declared dead
  (\<open>src/core/process-instance.ts\<close>). The regular expressions of the source are written out as
  recognisers. \<open>Date.parse\<close> on arbitrary text is implementation-defined and is the argument
  \<open>date_parse\<close>; the files under \<open>/proc\<close> are arguments of the Linux probe. The Windows and
  portable probes only start other programs and are not modelled.
\<close>

record ProcessInstanceIdentity =
  pi_pid :: int
  pi_started :: string

datatype ProcessInstanceObservation =
    Live "ProcessInstanceIdentity option"
  | Dead
  | Unknown

section \<open>Recognisers\<close>

definition all_digits :: "string \<Rightarrow> bool" where
  "all_digits s \<longleftrightarrow> s \<noteq> [] \<and> list_all is_digit s"

definition strip_prefix :: "string \<Rightarrow> string \<Rightarrow> string option" where
  "strip_prefix p s = (if starts_with s p then Some (drop (length p) s) else None)"

text \<open>\<open>[0-9a-f]{8}(?:-[0-9a-f]{4}){3}-[0-9a-f]{12}\<close>\<close>

definition boot_uuid :: "string \<Rightarrow> bool" where
  "boot_uuid s \<longleftrightarrow> length s = 36
     \<and> list_all (\<lambda>i. if i \<in> {8, 13, 18, 23} then s ! i = CHR ''-'' else is_hex_lower (s ! i)) [0..<36]"

definition hex_dash_36 :: "string \<Rightarrow> bool" where
  "hex_dash_36 s \<longleftrightarrow> length s = 36 \<and> list_all (\<lambda>c. is_hex_lower c \<or> c = CHR ''-'') s"

text \<open>\<open>linux-boot-id:(...36...):pidns:(\d+):ticks:\d+\<close> with the two groups it captures.\<close>

definition parse_pidns :: "string \<Rightarrow> string option" where
  "parse_pidns s =
     (case strip_prefix '':pidns:'' s of None \<Rightarrow> None
      | Some t \<Rightarrow>
         (let ns = takeWhile is_digit t in
          if ns = [] then None
          else case strip_prefix '':ticks:'' (drop (length ns) t) of None \<Rightarrow> None
               | Some ticks \<Rightarrow> (if all_digits ticks then Some ns else None)))"

definition linux_v3 :: "string \<Rightarrow> (string \<times> string) option" where
  "linux_v3 s =
     (case strip_prefix ''linux-boot-id:'' s of None \<Rightarrow> None
      | Some t \<Rightarrow>
         (if boot_uuid (take 36 t)
          then map_option (Pair (take 36 t)) (parse_pidns (drop 36 t)) else None))"

definition identity_format :: "string \<Rightarrow> nat" where
  "identity_format s =
     (if (case strip_prefix ''linux-boot-ticks:'' s of None \<Rightarrow> False | Some t \<Rightarrow> all_digits t) then 1
      else case strip_prefix ''linux-boot-id:'' s of None \<Rightarrow> 0
           | Some t \<Rightarrow>
              (if \<not> hex_dash_36 (take 36 t) then 0
               else if (case strip_prefix '':ticks:'' (drop 36 t) of None \<Rightarrow> False | Some u \<Rightarrow> all_digits u) then 2
               else if parse_pidns (drop 36 t) \<noteq> None then 3 else 0))"

definition linuxIdentityUpgradeUncertain :: "string \<Rightarrow> string \<Rightarrow> bool" where
  "linuxIdentityUpgradeUncertain left right \<longleftrightarrow>
     identity_format left > 0 \<and> identity_format right > 0 \<and> identity_format left \<noteq> identity_format right"

section \<open>Identities\<close>

definition WINDOWS_EPOCH_FILETIME_MS :: int where
  "WINDOWS_EPOCH_FILETIME_MS = 11644473600000"

definition digit_value :: "char \<Rightarrow> int" where
  "digit_value c = int (of_char c) - 48"

definition decimal_value :: "string \<Rightarrow> int" where
  "decimal_value s = foldl (\<lambda>n c. 10 * n + digit_value c) 0 s"

text \<open>\<open>\d{4}-\d{2}-\d{2}T\<close> at the start of the text.\<close>

definition iso_date_start :: "string \<Rightarrow> bool" where
  "iso_date_start s \<longleftrightarrow> length s \<ge> 11
     \<and> list_all (\<lambda>i. is_digit (s ! i)) [0, 1, 2, 3, 5, 6, 8, 9]
     \<and> s ! 4 = CHR ''-'' \<and> s ! 7 = CHR ''-'' \<and> s ! 10 = CHR ''T''"

definition windowsStartedMillisecond :: "(string \<Rightarrow> int option) \<Rightarrow> string \<Rightarrow> int option" where
  "windowsStartedMillisecond date_parse s =
     (case (case strip_prefix ''windows-filetime:'' s of None \<Rightarrow> None
            | Some t \<Rightarrow> if all_digits t \<and> 15 \<le> length t \<and> length t \<le> 20 then Some t else None) of
        Some digits \<Rightarrow> Some (decimal_value digits div 10000)
      | None \<Rightarrow>
          (case date_parse s of None \<Rightarrow> None
           | Some parsed \<Rightarrow>
               (if \<not> iso_date_start s then None else Some (parsed + WINDOWS_EPOCH_FILETIME_MS))))"

definition sameProcessInstance ::
  "(string \<Rightarrow> int option) \<Rightarrow> ProcessInstanceIdentity \<Rightarrow> ProcessInstanceIdentity option \<Rightarrow> bool" where
  "sameProcessInstance date_parse left right =
     (case right of None \<Rightarrow> False
      | Some r \<Rightarrow>
         (if pi_pid left \<noteq> pi_pid r then False
          else if pi_started left = pi_started r then True
          else case (windowsStartedMillisecond date_parse (pi_started left),
                     windowsStartedMillisecond date_parse (pi_started r)) of
                 (Some a, Some b) \<Rightarrow> a = b | _ \<Rightarrow> False))"

definition validProcessInstance :: "ProcessInstanceIdentity \<Rightarrow> ProcessInstanceIdentity option" where
  "validProcessInstance v =
     (if \<not> is_safe_integer (pi_pid v) \<or> pi_pid v < 1 \<or> pi_pid v > 2147483647
         \<or> length (pi_started v) < 1 \<or> length (pi_started v) > 256 \<or> nul_char \<in> set (pi_started v)
      then None else Some \<lparr>pi_pid = pi_pid v, pi_started = pi_started v\<rparr>)"

definition processInstanceDefinitelyStale ::
  "(string \<Rightarrow> int option) \<Rightarrow> ProcessInstanceIdentity option \<Rightarrow> ProcessInstanceObservation \<Rightarrow> bool" where
  "processInstanceDefinitelyStale date_parse storedIdentity observation =
     (case observation of
        Dead \<Rightarrow> True
      | Unknown \<Rightarrow> False
      | Live observed \<Rightarrow>
          (case (storedIdentity, observed) of
             (Some stored, Some current) \<Rightarrow>
               (if linuxIdentityUpgradeUncertain (pi_started stored) (pi_started current) then False
                else \<not> sameProcessInstance date_parse stored (Some current))
           | _ \<Rightarrow> False))"

definition localPidObservationAdmissible ::
  "ProcessInstanceIdentity option \<Rightarrow> ProcessInstanceIdentity \<Rightarrow> bool" where
  "localPidObservationAdmissible storedIdentity localIdentity =
     (case storedIdentity of None \<Rightarrow> False
      | Some stored \<Rightarrow>
         (case linux_v3 (pi_started stored) of
            Some (boot, ns) \<Rightarrow>
              (case linux_v3 (pi_started localIdentity) of
                 None \<Rightarrow> False | Some (boot', ns') \<Rightarrow> boot' = boot \<and> ns' = ns)
          | None \<Rightarrow> \<not> starts_with (pi_started stored) ''linux-boot-''))"

text \<open>Wrapping the deprecated inspector: a missing identity or a failure is never proof of death.\<close>

definition observerFromLegacyInspector ::
  "(int \<Rightarrow> ProcessInstanceIdentity option result) \<Rightarrow> int \<Rightarrow> ProcessInstanceObservation" where
  "observerFromLegacyInspector inspector pid =
     (case inspector pid of Inl _ \<Rightarrow> Unknown | Inr None \<Rightarrow> Unknown | Inr (Some i) \<Rightarrow> Live (Some i))"

section \<open>The Linux probe\<close>

text \<open>A read under \<open>/proc\<close>: its text, or the error code.\<close>

type_synonym os_read = "string + string"

function split_space :: "string \<Rightarrow> string \<Rightarrow> string list" where
  "split_space acc [] = [rev acc]"
| "split_space acc (c # s) =
     (if is_js_space c then rev acc # split_space [] (dropWhile is_js_space s) else split_space (c # acc) s)"
  by pat_completeness auto
termination
  by (relation "measure (\<lambda>(acc, s). length s)") (auto simp: le_imp_less_Suc length_dropWhile_le)

definition after_last_paren :: "string \<Rightarrow> string option" where
  "after_last_paren stat =
     (if CHR '')'' \<in> set stat then Some (drop 1 (rev (takeWhile (\<lambda>c. c \<noteq> CHR '')'') (rev stat)))) else None)"

definition pid_namespace :: "string \<Rightarrow> string option" where
  "pid_namespace link =
     (case strip_prefix ''pid:['' link of None \<Rightarrow> None
      | Some t \<Rightarrow>
         (let inode = takeWhile is_digit t in
          if inode \<noteq> [] \<and> drop (length inode) t = '']'' then Some inode else None))"

definition probe_failure :: "string \<Rightarrow> ProcessInstanceObservation" where
  "probe_failure code = (if code = ''ENOENT'' \<or> code = ''ESRCH'' then Dead else Unknown)"

definition linux_started :: "string \<Rightarrow> string \<Rightarrow> string \<Rightarrow> string" where
  "linux_started bootId inode startTicks =
     ''linux-boot-id:'' @ bootId @ '':pidns:'' @ inode @ '':ticks:'' @ startTicks"

definition observeLinuxProcess ::
  "os_read \<Rightarrow> (int \<Rightarrow> os_read) \<Rightarrow> (int \<Rightarrow> os_read) \<Rightarrow> int \<Rightarrow> ProcessInstanceObservation" where
  "observeLinuxProcess bootIdFile statFile nsLink pid =
     (case bootIdFile of Inl _ \<Rightarrow> Unknown
      | Inr text \<Rightarrow>
         (let bootId = to_lower (js_trim text) in
          if \<not> boot_uuid bootId then Unknown
          else case statFile pid of Inl code \<Rightarrow> probe_failure code
               | Inr stat \<Rightarrow>
                  (case after_last_paren stat of None \<Rightarrow> Unknown
                   | Some rest \<Rightarrow>
                      (let flds = split_space [] (js_trim rest) in
                       if length flds \<le> 19 \<or> \<not> all_digits (flds ! 19) then Unknown
                       else case nsLink pid of Inl code \<Rightarrow> probe_failure code
                            | Inr link \<Rightarrow>
                               (case pid_namespace link of None \<Rightarrow> Unknown
                                | Some inode \<Rightarrow>
                                   Live (Some \<lparr>pi_pid = pid, pi_started =
                                     linux_started bootId inode (flds ! 19)\<rparr>))))))"

definition observeProcessInstance ::
  "(int \<Rightarrow> ProcessInstanceObservation) \<Rightarrow> ProcessInstanceIdentity option \<Rightarrow> int \<Rightarrow> int
   \<Rightarrow> ProcessInstanceObservation" where
  "observeProcessInstance uncached currentIdentity processPid pid =
     (if \<not> is_safe_integer pid \<or> pid < 1 \<or> pid > 2147483647 then Dead
      else case (if pid = processPid then currentIdentity else None) of
             Some i \<Rightarrow> Live (Some i)
           | None \<Rightarrow> uncached pid)"

section \<open>Lemmas\<close>

lemma strip_prefix_append [simp]: "strip_prefix p (p @ s) = Some s"
  by (simp add: strip_prefix_def starts_with_def)

lemma strip_prefix_Some_iff: "strip_prefix p s = Some t \<longleftrightarrow> s = p @ t"
  by (auto simp: strip_prefix_def starts_with_iff)

lemma takeWhile_digits_stop:
  "list_all is_digit ns \<Longrightarrow> takeWhile is_digit (ns @ CHR '':'' # t) = ns"
  by (induction ns) (auto simp: is_digit_def char_in_def)

lemma linux_v3_roundtrip:
  assumes "boot_uuid b" "all_digits ns" "all_digits ticks"
  shows "linux_v3 (linux_started b ns ticks) = Some (b, ns)"
proof -
  have "length b = 36" using assms(1) by (simp add: boot_uuid_def)
  then have "take 36 (b @ s) = b" "drop 36 (b @ s) = s" for s by auto
  moreover have "parse_pidns ('':pidns:'' @ ns @ '':ticks:'' @ ticks) = Some ns"
    using assms(2,3) takeWhile_digits_stop [of ns "''ticks:'' @ ticks"] strip_prefix_append [of "'':ticks:''" ticks]
    by (simp add: parse_pidns_def strip_prefix_def starts_with_def all_digits_def Let_def)
  ultimately show ?thesis
    using assms(1) strip_prefix_append [of "''linux-boot-id:''"] by (simp add: linux_v3_def linux_started_def)
qed

lemma same_refl [simp]: "sameProcessInstance date_parse i (Some i)"
  by (simp add: sameProcessInstance_def)

lemma same_commute: "sameProcessInstance date_parse i (Some j) = sameProcessInstance date_parse j (Some i)"
  by (auto simp: sameProcessInstance_def split: option.splits)

lemma observeLinux_Live:
  assumes "observeLinuxProcess bootIdFile statFile nsLink pid = Live oi"
  obtains b ns ticks where "boot_uuid b" "all_digits ns" "all_digits ticks"
    "oi = Some \<lparr>pi_pid = pid, pi_started = linux_started b ns ticks\<rparr>"
proof -
  have digits: "pid_namespace l = Some inode \<Longrightarrow> all_digits inode" for l inode
    by (auto simp: pid_namespace_def Let_def all_digits_def list_all_iff split: option.splits if_splits
        dest: set_takeWhileD)
  show ?thesis
    using assms digits that
    by (auto simp: observeLinuxProcess_def Let_def probe_failure_def split: sum.splits option.splits if_splits)
      blast
qed

text \<open>
  An identity that the Linux probe reports is admissible as evidence about itself: a process that
  records its own probed identity and later inspects it from the same boot and PID namespace may act on
  the observation, and the same identity observed live is never declared stale.
\<close>

theorem probed_identity_recognises_itself:
  assumes "observeLinuxProcess bootIdFile statFile nsLink pid = Live (Some i)"
  shows "localPidObservationAdmissible (Some i) i \<and> \<not> processInstanceDefinitelyStale date_parse (Some i) (Live (Some i))"
proof -
  from assms obtain b ns ticks where v: "boot_uuid b" "all_digits ns" "all_digits ticks"
    and i: "i = \<lparr>pi_pid = pid, pi_started = linux_started b ns ticks\<rparr>"
    using observeLinux_Live by (metis option.inject)
  have "linux_v3 (pi_started i) = Some (b, ns)" using linux_v3_roundtrip [OF v] by (simp add: i)
  then have "localPidObservationAdmissible (Some i) i" by (simp add: localPidObservationAdmissible_def)
  then show ?thesis by (simp add: processInstanceDefinitelyStale_def linuxIdentityUpgradeUncertain_def)
qed

text \<open>
  Death of a recorded owner is only ever concluded from a confirmed absence or from a different
  process observed under the same PID; an unknown observation, a missing identity and a Linux identity
  written in another format version never prove it.
\<close>

theorem stale_needs_proof:
  assumes "processInstanceDefinitelyStale date_parse stored observation"
  shows "observation = Dead \<or>
    (\<exists>s c. stored = Some s \<and> observation = Live (Some c)
       \<and> \<not> linuxIdentityUpgradeUncertain (pi_started s) (pi_started c)
       \<and> (pi_pid s \<noteq> pi_pid c \<or> pi_started s \<noteq> pi_started c))"
  using assms
  by (auto simp: processInstanceDefinitelyStale_def sameProcessInstance_def
      split: ProcessInstanceObservation.splits option.splits if_splits)

definition demo_identity :: "string \<Rightarrow> ProcessInstanceIdentity" where
  "demo_identity ticks = \<lparr>pi_pid = 7, pi_started =
     ''linux-boot-id:01234567-89ab-cdef-0123-456789abcdef:pidns:4026531836:ticks:'' @ ticks\<rparr>"

theorem probed_identity_recognises_itself_witness:
  "localPidObservationAdmissible (Some (demo_identity ''15'')) (demo_identity ''15'')"
proof -
  have "observeLinuxProcess (Inr ''01234567-89ab-cdef-0123-456789abcdef '')
     (\<lambda>p. Inr ''7 (sh) S 1 7 7 0 1 4 5 6 7 8 9 1 2 3 4 5 1 0 15 99'') (\<lambda>p. Inr ''pid:[4026531836]'') 7
     = Live (Some (demo_identity ''15''))" by code_simp
  from probed_identity_recognises_itself [OF this] show ?thesis by simp
qed

theorem stale_needs_proof_witness:
  "\<not> linuxIdentityUpgradeUncertain (pi_started (demo_identity ''15'')) (pi_started (demo_identity ''16''))"
proof -
  have "processInstanceDefinitelyStale (\<lambda>s. None) (Some (demo_identity ''15'')) (Live (Some (demo_identity ''16'')))"
    by code_simp
  from stale_needs_proof [OF this] show ?thesis by simp
qed

end
