(* ===== verification/ActionJournal.thy ===== *)
theory ActionJournal
  imports Saga VerificationKernel ResourceIdentity ProcessInstance
begin

text \<open>
  The action transition journal (\<open>src/core/action-transition-journal.ts\<close>), with \<open>verifyActionOutcome\<close> of
  \<open>src/core/action-verification.ts\<close>.

  A program runs on a world: the journal file, and per action id a staged completion file and a published
  result file, named by the SHA-256 of the action id. A mutation reads and validates the journal, runs,
  validates the outcome and writes it under a lock that serialises mutations; files it created or removed
  before an error stay created or removed. A durable file is missing, refused by the durable reader, or
  holds a value. Arguments of the model (\<open>journal_env\<close>): SHA-256 over canonical JSON for each kind of
  value hashed, canonical text, serialised sizes, the collation key behind \<open>localeCompare\<close>, the error of a
  failing file removal, and the completion fault hook of the source.
\<close>

section \<open>State\<close>

datatype 'a durable = Missing | Unreadable | Stored 'a

record StagedCompletedResult =
  sr_actionId :: string
  sr_actionDigest :: string
  sr_journalGeneration :: int
  sr_capability :: string
  sr_verificationDigest :: string
  sr_resultDigest :: string
  sr_result :: ActionResult

datatype ActionCompletionFaultPoint = AfterResultStaged | AfterJournalCompleted | AfterResultPublished

text \<open>The metadata of a transition: everything but its number, state and time.\<close>

record TransitionMetadata =
  md_provider :: "string option"
  md_resultDigest :: "string option"
  md_verificationDigest :: "string option"
  md_reconciliationStatus :: "ReconciliationStatus option"

datatype result_path = ResultFile string | StagedResultFile string

record outcome_contract =
  oc_actionDigest :: string
  oc_capability :: string
  oc_risk :: ActionRisk
  oc_provider :: string
  oc_outputDigest :: string
  oc_evidenceDigest :: string
  oc_journalState :: "ActionJournalState option"
  oc_intent :: "IntentBinding option"

record journal_env =
  jv_action :: "ActionRequest \<Rightarrow> string"
  jv_result :: "ActionResult \<Rightarrow> string"
  jv_fence :: "string \<Rightarrow> string \<Rightarrow> string"
  jv_transitions :: "ActionJournalTransition list \<Rightarrow> string"
  jv_evidence :: "Evidence list \<Rightarrow> string"
  jv_output :: "json \<Rightarrow> string"
  jv_contract :: "outcome_contract \<Rightarrow> string"
  jv_body :: "VerificationBody \<Rightarrow> string"
  jv_key :: "string \<Rightarrow> string"
  jv_canonical :: "StagedCompletedResult \<Rightarrow> string"
  jv_resultBytes :: "ActionResult \<Rightarrow> nat"
  jv_stagedBytes :: "StagedCompletedResult \<Rightarrow> nat"
  jv_journalBytes :: "ActionJournalEntry list \<Rightarrow> nat"
  jv_collate :: "string \<Rightarrow> string"
  jv_rm :: "result_path \<Rightarrow> failure option"
  jv_fault :: "ActionCompletionFaultPoint \<Rightarrow> string \<Rightarrow> failure option"

record journal_world =
  jw_file :: "ActionJournalEntry list durable"
  jw_staged :: "string \<Rightarrow> StagedCompletedResult durable"
  jw_results :: "string \<Rightarrow> ActionResult durable"

type_synonym 'a journal_prog = "journal_world \<Rightarrow> 'a result \<times> journal_world"

definition MAX_ENTRIES :: nat where "MAX_ENTRIES = 20000"
definition MAX_TRANSITIONS :: nat where "MAX_TRANSITIONS = 64"
definition TERMINAL_RETENTION_MS :: int where "TERMINAL_RETENTION_MS = 14 * 24 * 60 * 60000"
definition STORE_MAX_BYTES :: nat where "STORE_MAX_BYTES = 64 * 1024 * 1024"
definition RESULT_MAX_BYTES :: nat where "RESULT_MAX_BYTES = 16 * 1024 * 1024"
definition STAGED_MAX_BYTES :: nat where "STAGED_MAX_BYTES = RESULT_MAX_BYTES + 128 * 1024"

section \<open>Field checks\<close>

definition journal_invalid :: failure where
  "journal_invalid = OperatorError ''ACTION_JOURNAL_INPUT_INVALID''"

definition journal_corrupt :: failure where
  "journal_corrupt = OperatorError ''ACTION_JOURNAL_CORRUPT''"

definition resultCorrupt :: failure where
  "resultCorrupt = OperatorError ''ACTION_JOURNAL_RESULT_CORRUPT''"

definition completionConflict :: failure where
  "completionConflict = OperatorError ''ACTION_JOURNAL_COMPLETION_CONFLICT''"

definition journal_bounded :: "string \<Rightarrow> nat \<Rightarrow> failure option" where
  "journal_bounded s n = (if length s < 1 \<or> length s > n \<or> nul_char \<in> set s then Some journal_invalid else None)"

definition journal_sha :: "string \<Rightarrow> string result" where
  "journal_sha s = (if hex64_lower (to_lower s) then Inr (to_lower s) else Inl journal_invalid)"

definition opt_check :: "('a \<Rightarrow> failure option) \<Rightarrow> 'a option \<Rightarrow> failure option" where
  "opt_check check v = (case v of None \<Rightarrow> None | Some x \<Rightarrow> check x)"

definition sha_check :: "string \<Rightarrow> failure option" where
  "sha_check s = (case journal_sha s of Inl e \<Rightarrow> Some e | Inr _ \<Rightarrow> None)"

definition uniqueKeys :: "string list \<Rightarrow> string list result" where
  "uniqueKeys input =
     (if length input > 5000 then Inl journal_invalid
      else case for_all_throw (\<lambda>v. journal_bounded v 1024) input of Some e \<Rightarrow> Inl e
           | None \<Rightarrow> Inr (unique_sorted input))"

definition journal_integer :: "int \<Rightarrow> int \<Rightarrow> int \<Rightarrow> failure option" where
  "journal_integer n low high =
     (if \<not> is_safe_integer n \<or> n < low \<or> n > high then Some journal_invalid else None)"

text \<open>The first error of a list of checks made in order.\<close>

fun first_failure :: "failure option list \<Rightarrow> failure option" where
  "first_failure [] = None"
| "first_failure (Some e # _) = Some e"
| "first_failure (None # rest) = first_failure rest"

definition ensure :: "failure \<Rightarrow> bool \<Rightarrow> failure option" where
  "ensure e ok = (if ok then None else Some e)"

section \<open>Transitions\<close>

definition allowedTransition :: "ActionJournalState \<Rightarrow> ActionJournalState \<Rightarrow> bool" where
  "allowedTransition current nxt \<longleftrightarrow> current = nxt \<or>
     (case current of
        JPrepared \<Rightarrow> nxt \<in> {JDeferred, JDispatched, JCompleted, JInterrupted}
      | JDeferred \<Rightarrow> nxt \<in> {JDeferred, JDispatched, JCompleted, JInterrupted}
      | JDispatched \<Rightarrow> nxt \<in> {JPrepared, JObserved, JUncertain, JReconciled, JCompleted}
      | JObserved \<Rightarrow> nxt \<in> {JReconciled, JCompleted, JUncertain}
      | JUncertain \<Rightarrow> nxt \<in> {JReconciled, JUncertain}
      | JReconciled \<Rightarrow> nxt \<in> {JDispatched, JCompleted, JUncertain}
      | _ \<Rightarrow> False)"

definition metadata_of :: "ActionJournalTransition \<Rightarrow> TransitionMetadata" where
  "metadata_of t = \<lparr>md_provider = jt_provider t, md_resultDigest = jt_resultDigest t,
     md_verificationDigest = jt_verificationDigest t, md_reconciliationStatus = jt_reconciliationStatus t\<rparr>"

definition transition_of :: "int \<Rightarrow> ActionJournalState \<Rightarrow> int \<Rightarrow> TransitionMetadata \<Rightarrow> ActionJournalTransition" where
  "transition_of seq st at md = \<lparr>jt_seq = seq, jt_state = st, jt_at = at, jt_provider = md_provider md,
     jt_resultDigest = md_resultDigest md, jt_verificationDigest = md_verificationDigest md,
     jt_reconciliationStatus = md_reconciliationStatus md\<rparr>"

definition no_metadata :: TransitionMetadata where
  "no_metadata = \<lparr>md_provider = None, md_resultDigest = None, md_verificationDigest = None, md_reconciliationStatus = None\<rparr>"

definition applyTransition ::
  "ActionJournalEntry \<Rightarrow> ActionJournalState \<Rightarrow> int \<Rightarrow> TransitionMetadata \<Rightarrow> ActionJournalEntry result" where
  "applyTransition entry nxt now metadata =
     (if \<not> allowedTransition (je_state entry) nxt
      then (if je_state entry = nxt then Inr entry
            else Inl (OperatorError ''ACTION_JOURNAL_TRANSITION_INVALID''))
      else if je_state entry = nxt \<and> metadata_of (last (je_transitions entry)) = metadata then Inr entry
      else if length (je_transitions entry) \<ge> MAX_TRANSITIONS
      then Inl (OperatorError ''ACTION_JOURNAL_TRANSITION_LIMIT'')
      else Inr (entry\<lparr>je_state := nxt, je_updatedAt := now,
        je_transitions := je_transitions entry @
          [transition_of (int (length (je_transitions entry)) + 1) nxt now metadata]\<rparr>))"

definition validateTransitionMetadata :: "ActionJournalTransition \<Rightarrow> bool \<Rightarrow> failure option" where
  "validateTransitionMetadata t initial = first_failure
     [ensure journal_corrupt (\<not> (initial \<and> metadata_of t \<noteq> no_metadata)),
      ensure journal_corrupt (\<not> (jt_verificationDigest t \<noteq> None \<and> jt_state t \<noteq> JCompleted)),
      ensure journal_corrupt (\<not> (jt_reconciliationStatus t \<noteq> None \<and> jt_state t \<noteq> JReconciled \<and> jt_state t \<noteq> JUncertain)),
      ensure journal_corrupt (\<not> (jt_state t \<in> {JDeferred, JObserved}
         \<and> (truthy (jt_provider t) = None \<or> truthy (jt_resultDigest t) = None))),
      ensure journal_corrupt (\<not> (jt_state t = JPrepared \<and> \<not> initial
         \<and> (truthy (jt_provider t) = None \<or> truthy (jt_resultDigest t) = None))),
      ensure journal_corrupt (jt_state t = JUncertain \<longrightarrow>
         (jt_provider t \<noteq> None \<and> jt_resultDigest t \<noteq> None \<and> jt_reconciliationStatus t = None)
         \<or> (jt_provider t = None \<and> jt_reconciliationStatus t = Some RecUncertain)),
      ensure journal_corrupt (\<not> (jt_state t = JReconciled
         \<and> jt_reconciliationStatus t \<notin> {Some RecCompleted, Some RecNotApplied})),
      ensure journal_corrupt (\<not> (jt_state t = JInterrupted
         \<and> (truthy (jt_provider t) = None \<or> truthy (jt_resultDigest t) = None
            \<or> jt_verificationDigest t \<noteq> None \<or> jt_reconciliationStatus t \<noteq> None))),
      ensure journal_corrupt (jt_state t = JCompleted \<longrightarrow>
         jt_verificationDigest t \<noteq> None \<or> (jt_provider t \<noteq> None \<and> jt_resultDigest t \<noteq> None))]"

text \<open>One transition of a history, after the one before it, if any.\<close>

definition check_transition :: "nat \<Rightarrow> ActionJournalTransition option \<Rightarrow> ActionJournalTransition \<Rightarrow> failure option" where
  "check_transition index previous t = first_failure
     [ensure journal_corrupt (jt_seq t = int index + 1),
      ensure journal_corrupt (case previous of None \<Rightarrow> True | Some p \<Rightarrow> \<not> jt_at t < jt_at p),
      opt_check (\<lambda>v. journal_bounded v 256) (jt_provider t),
      opt_check sha_check (jt_resultDigest t),
      opt_check sha_check (jt_verificationDigest t),
      ensure journal_corrupt (case previous of None \<Rightarrow> True | Some p \<Rightarrow> allowedTransition (jt_state p) (jt_state t)),
      validateTransitionMetadata t (index = 0)]"

fun check_transitions :: "nat \<Rightarrow> ActionJournalTransition option \<Rightarrow> ActionJournalTransition list \<Rightarrow> failure option" where
  "check_transitions index previous [] = None"
| "check_transitions index previous (t # ts) =
     (case check_transition index previous t of Some e \<Rightarrow> Some e
      | None \<Rightarrow> check_transitions (Suc index) (Some t) ts)"

definition policy_deferred :: "ActionJournalTransition \<Rightarrow> bool" where
  "policy_deferred t \<longleftrightarrow> jt_state t = JDeferred \<and> jt_provider t = Some ''policy'' \<and> jt_resultDigest t \<noteq> None"

definition interrupted_bound :: "journal_env \<Rightarrow> ActionJournalEntry \<Rightarrow> bool" where
  "interrupted_bound env entry \<longleftrightarrow>
     (let ts = je_transitions entry; proof_step = last ts in
      je_risk entry \<noteq> Read \<and> je_generation entry = 1
      \<and> (length ts = 2 \<or> (length ts = 3 \<and> policy_deferred (ts ! 1)))
      \<and> jt_state proof_step = JInterrupted \<and> jt_provider proof_step = Some ''agent-kernel''
      \<and> jt_resultDigest proof_step = Some (jv_fence env (je_actionId entry) (je_actionDigest entry)))"

section \<open>Validation of the journal\<close>

definition check_history :: "journal_env \<Rightarrow> ActionJournalEntry \<Rightarrow> failure option" where
  "check_history env entry =
     (let ts = je_transitions entry in
      if length ts < 1 \<or> length ts > MAX_TRANSITIONS then Some journal_corrupt
      else if jt_state (hd ts) \<noteq> JPrepared then Some journal_corrupt
      else case check_transitions 0 None ts of Some e \<Rightarrow> Some e
      | None \<Rightarrow> first_failure
         [ensure journal_corrupt (jt_state (last ts) = je_state entry),
          ensure journal_corrupt (\<not> (je_state entry = JInterrupted \<and> \<not> interrupted_bound env entry)),
          ensure journal_corrupt (\<not> je_createdAt entry > jt_at (hd ts)),
          ensure journal_corrupt (je_updatedAt entry = jt_at (last ts))])"

definition validate_journal_entry :: "journal_env \<Rightarrow> string list \<Rightarrow> ActionJournalEntry \<Rightarrow> ActionJournalEntry result" where
  "validate_journal_entry env ids entry =
     (case first_failure
        [journal_bounded (je_actionId entry) 512,
         sha_check (je_actionDigest entry),
         ensure journal_corrupt (je_actionId entry \<notin> set ids),
         journal_bounded (je_ownerKind entry) 128,
         journal_bounded (je_ownerId entry) 512,
         journal_bounded (je_capability entry) 256,
         opt_check (\<lambda>b. case validIntentBinding b of Inl e \<Rightarrow> Some e | Inr _ \<Rightarrow> None) (je_intent entry)] of
        Some e \<Rightarrow> Inl e
      | None \<Rightarrow> bind_result (uniqueKeys (je_resourceKeys entry)) (\<lambda>keys.
          case journal_integer (je_generation entry) 1 max_safe_integer of Some e \<Rightarrow> Inl e
          | None \<Rightarrow> (case check_history env entry of Some e \<Rightarrow> Inl e
             | None \<Rightarrow> Inr (entry\<lparr>je_resourceKeys := keys\<rparr>))))"

fun validate_journal_entries :: "journal_env \<Rightarrow> string list \<Rightarrow> ActionJournalEntry list \<Rightarrow> ActionJournalEntry list result" where
  "validate_journal_entries env ids [] = Inr []"
| "validate_journal_entries env ids (entry # rest) =
     bind_result (validate_journal_entry env ids entry) (\<lambda>e.
       bind_result (validate_journal_entries env (je_actionId entry # ids) rest) (\<lambda>es. Inr (e # es)))"

definition validateJournal :: "journal_env \<Rightarrow> ActionJournalEntry list \<Rightarrow> ActionJournalEntry list result" where
  "validateJournal env entries =
     (if length entries > MAX_ENTRIES then Inl journal_corrupt else validate_journal_entries env [] entries)"

fun read_journal :: "journal_env \<Rightarrow> ActionJournalEntry list durable \<Rightarrow> ActionJournalEntry list result" where
  "read_journal env Missing = Inr []"
| "read_journal env Unreadable = Inl journal_corrupt"
| "read_journal env (Stored entries) = validateJournal env entries"

section \<open>Staged and published results\<close>

definition evidence_check :: "Evidence \<Rightarrow> failure option" where
  "evidence_check item = first_failure [journal_bounded (ev_kind item) 256, journal_bounded (ev_message item) 65536]"

definition validateReplayResult :: "ActionResult \<Rightarrow> string \<Rightarrow> ActionResult result" where
  "validateReplayResult raw expectedCapability =
     (case first_failure
        [ensure resultCorrupt (ar_ok raw),
         journal_bounded (ar_capability raw) 256,
         ensure resultCorrupt (\<not> (expectedCapability \<noteq> [] \<and> ar_capability raw \<noteq> expectedCapability)),
         journal_bounded (ar_provider raw) 256,
         ensure resultCorrupt (length (ar_evidence raw) \<le> 10000),
         for_all_throw evidence_check (ar_evidence raw),
         ensure resultCorrupt (0 \<le> ar_durationMs raw)] of
        Some e \<Rightarrow> Inl e | None \<Rightarrow> Inr raw)"

definition validateStagedResult :: "journal_env \<Rightarrow> StagedCompletedResult \<Rightarrow> StagedCompletedResult result" where
  "validateStagedResult env raw =
     (case journal_bounded (sr_capability raw) 256 of Some e \<Rightarrow> Inl e
      | None \<Rightarrow> bind_result (validateReplayResult (sr_result raw) (sr_capability raw)) (\<lambda>result.
          case journal_bounded (sr_actionId raw) 512 of Some e \<Rightarrow> Inl e
          | None \<Rightarrow> bind_result (journal_sha (sr_actionDigest raw)) (\<lambda>actionDigest.
              case journal_integer (sr_journalGeneration raw) 1 max_safe_integer of Some e \<Rightarrow> Inl e
              | None \<Rightarrow> bind_result (journal_sha (sr_verificationDigest raw)) (\<lambda>verificationDigest.
                  bind_result (journal_sha (sr_resultDigest raw)) (\<lambda>resultDigest.
                    if jv_result env result \<noteq> resultDigest then Inl resultCorrupt
                    else if kernelVerificationDigest result \<noteq> Some verificationDigest then Inl resultCorrupt
                    else Inr \<lparr>sr_actionId = sr_actionId raw, sr_actionDigest = actionDigest,
                      sr_journalGeneration = sr_journalGeneration raw, sr_capability = sr_capability raw,
                      sr_verificationDigest = verificationDigest, sr_resultDigest = resultDigest,
                      sr_result = result\<rparr>)))))"

definition recorded_provider :: "ActionJournalEntry \<Rightarrow> string option" where
  "recorded_provider entry = first_some (\<lambda>t. truthy (jt_provider t)) (rev (je_transitions entry))"

definition assertStageMatchesEntry :: "StagedCompletedResult \<Rightarrow> ActionJournalEntry \<Rightarrow> failure option" where
  "assertStageMatchesEntry staged entry =
     ensure completionConflict (sr_actionId staged = je_actionId entry \<and> sr_actionDigest staged = je_actionDigest entry
       \<and> sr_journalGeneration staged = je_generation entry \<and> sr_capability staged = je_capability entry
       \<and> recorded_provider entry = Some (ar_provider (sr_result staged)))"

definition assertStageMatchesCompletion :: "StagedCompletedResult \<Rightarrow> ActionJournalEntry \<Rightarrow> failure option" where
  "assertStageMatchesCompletion staged entry =
     (case find (\<lambda>t. jt_state t = JCompleted) (rev (je_transitions entry)) of None \<Rightarrow> Some completionConflict
      | Some completion \<Rightarrow>
          ensure completionConflict (truthy (jt_verificationDigest completion) \<noteq> None
            \<and> truthy (jt_resultDigest completion) \<noteq> None
            \<and> jt_verificationDigest completion = Some (sr_verificationDigest staged)
            \<and> jt_resultDigest completion = Some (sr_resultDigest staged)))"

fun readStagedResult :: "journal_env \<Rightarrow> StagedCompletedResult durable \<Rightarrow> StagedCompletedResult option result" where
  "readStagedResult env Missing = Inr None"
| "readStagedResult env Unreadable = Inl resultCorrupt"
| "readStagedResult env (Stored raw) = map_sum id Some (validateStagedResult env raw)"

text \<open>Exclusive creation of a durable file: an existing file is left as it is.\<close>

definition create_durable :: "'a \<Rightarrow> 'a durable \<Rightarrow> 'a durable" where
  "create_durable v f = (case f of Missing \<Rightarrow> Stored v | _ \<Rightarrow> f)"

definition writeStagedResult :: "journal_env \<Rightarrow> StagedCompletedResult \<Rightarrow> unit journal_prog" where
  "writeStagedResult env staged w =
     (if jv_resultBytes env (sr_result staged) > RESULT_MAX_BYTES
      then (Inl (OperatorError ''ACTION_JOURNAL_RESULT_TOO_LARGE''), w)
      else if jv_stagedBytes env staged > STAGED_MAX_BYTES then (Inl resultCorrupt, w)
      else let k = jv_key env (sr_actionId staged);
               w' = w\<lparr>jw_staged := (jw_staged w)(k := create_durable staged (jw_staged w k))\<rparr> in
        (case readStagedResult env (jw_staged w' k) of Inl e \<Rightarrow> (Inl e, w')
         | Inr None \<Rightarrow> (Inl completionConflict, w')
         | Inr (Some persisted) \<Rightarrow>
             if jv_canonical env persisted \<noteq> jv_canonical env staged then (Inl completionConflict, w')
             else (Inr (), w')))"

definition publishStagedResult :: "journal_env \<Rightarrow> StagedCompletedResult \<Rightarrow> unit journal_prog" where
  "publishStagedResult env staged w =
     (if jv_resultBytes env (sr_result staged) > RESULT_MAX_BYTES then (Inl resultCorrupt, w)
      else let k = jv_key env (sr_actionId staged);
               w' = w\<lparr>jw_results := (jw_results w)(k := create_durable (sr_result staged) (jw_results w k))\<rparr> in
        (case jw_results w' k of
           Stored stored \<Rightarrow>
             (case validateReplayResult stored (sr_capability staged) of Inl e \<Rightarrow> (Inl e, w')
              | Inr persisted \<Rightarrow>
                  if jv_result env persisted \<noteq> sr_resultDigest staged then (Inl completionConflict, w')
                  else (case jv_fault env AfterResultPublished (sr_actionId staged) of Some e \<Rightarrow> (Inl e, w')
                  | None \<Rightarrow> (case jv_rm env (StagedResultFile k) of Some e \<Rightarrow> (Inl e, w')
                     | None \<Rightarrow> (Inr (), w'\<lparr>jw_staged := (jw_staged w')(k := Missing)\<rparr>))))
         | _ \<Rightarrow> (Inl resultCorrupt, w')))"

section \<open>Reading and mutating the journal\<close>

definition findEntry :: "ActionJournalEntry list \<Rightarrow> string \<Rightarrow> ActionJournalEntry result" where
  "findEntry entries actionId =
     (case journal_bounded actionId 512 of Some e \<Rightarrow> Inl e
      | None \<Rightarrow> (case find (\<lambda>e. je_actionId e = actionId) entries of
          None \<Rightarrow> Inl (OperatorError ''ACTION_JOURNAL_NOT_FOUND'') | Some e \<Rightarrow> Inr e))"

definition store_entry :: "ActionJournalEntry \<Rightarrow> ActionJournalEntry list \<Rightarrow> ActionJournalEntry list" where
  "store_entry entry entries = update_first (\<lambda>e. je_actionId e = je_actionId entry) (\<lambda>_. entry) entries"

definition mutate_journal ::
  "journal_env
   \<Rightarrow> (ActionJournalEntry list \<Rightarrow> (ActionJournalEntry \<times> ActionJournalEntry list) journal_prog)
   \<Rightarrow> ActionJournalEntry journal_prog" where
  "mutate_journal env fn w =
     (case read_journal env (jw_file w) of Inl e \<Rightarrow> (Inl e, w)
      | Inr entries \<Rightarrow> (case fn entries w of (Inl e, w') \<Rightarrow> (Inl e, w')
         | (Inr (out, entries'), w') \<Rightarrow> (case validateJournal env entries' of Inl e \<Rightarrow> (Inl e, w')
            | Inr valid \<Rightarrow>
                if jv_journalBytes env valid > STORE_MAX_BYTES then (Inl journal_corrupt, w')
                else (Inr out, w'\<lparr>jw_file := Stored valid\<rparr>))))"

text \<open>A mutation of one entry that touches no other file.\<close>

definition mutate_entry ::
  "journal_env \<Rightarrow> string \<Rightarrow> (ActionJournalEntry \<Rightarrow> ActionJournalEntry result) \<Rightarrow> ActionJournalEntry journal_prog" where
  "mutate_entry env actionId change = mutate_journal env (\<lambda>entries w.
     (bind_result (findEntry entries actionId) (\<lambda>entry.
        bind_result (change entry) (\<lambda>entry'. Inr (entry', store_entry entry' entries))), w))"

definition inspect_journal :: "journal_env \<Rightarrow> string \<Rightarrow> ActionJournalEntry journal_prog" where
  "inspect_journal env actionId w =
     (case journal_bounded actionId 512 of Some e \<Rightarrow> (Inl e, w)
      | None \<Rightarrow> (bind_result (read_journal env (jw_file w)) (\<lambda>entries.
          case find (\<lambda>e. je_actionId e = actionId) entries of
            None \<Rightarrow> Inl (OperatorError ''ACTION_JOURNAL_NOT_FOUND'') | Some e \<Rightarrow> Inr e), w))"

definition list_journal :: "journal_env \<Rightarrow> int \<Rightarrow> ActionJournalEntry list journal_prog" where
  "list_journal env limit w =
     (case journal_integer limit 1 1000 of Some e \<Rightarrow> (Inl e, w)
      | None \<Rightarrow> (bind_result (read_journal env (jw_file w)) (\<lambda>entries.
          Inr (take (nat limit) (sort_key (\<lambda>e. - je_updatedAt e) entries))), w))"

definition unresolvedMutations :: "journal_env \<Rightarrow> ActionJournalEntry list journal_prog" where
  "unresolvedMutations env w =
     (bind_result (read_journal env (jw_file w)) (\<lambda>entries.
        Inr (sort_key (\<lambda>e. jv_collate env (je_actionId e))
          (filter (\<lambda>e. je_risk e \<noteq> Read \<and> je_state e \<in> {JDispatched, JUncertain}) entries))), w)"

section \<open>Preparation\<close>

record prepare_input =
  pi_action :: ActionRequest
  pi_ownerKind :: string
  pi_ownerId :: string
  pi_resourceKeys :: "string list"

definition retained :: "int \<Rightarrow> ActionJournalEntry \<Rightarrow> bool" where
  "retained now entry \<longleftrightarrow> je_state entry \<noteq> JCompleted \<or> je_updatedAt entry > now - TERMINAL_RETENTION_MS"

definition pruneTerminal :: "int \<Rightarrow> ActionJournalEntry list \<Rightarrow> ActionJournalEntry list \<times> string list" where
  "pruneTerminal now entries =
     (filter (retained now) entries, map je_actionId (filter (\<lambda>e. \<not> retained now e) entries))"

definition cleanup_failed :: failure where
  "cleanup_failed = OperatorError ''ACTION_JOURNAL_RESULT_CLEANUP_FAILED''"

fun reclaim_results :: "journal_env \<Rightarrow> string list \<Rightarrow> unit journal_prog" where
  "reclaim_results env [] w = (Inr (), w)"
| "reclaim_results env (actionId # rest) w =
     (let k = jv_key env actionId in
      if jv_rm env (ResultFile k) \<noteq> None then (Inl cleanup_failed, w)
      else let w1 = w\<lparr>jw_results := (jw_results w)(k := Missing)\<rparr> in
        if jv_rm env (StagedResultFile k) \<noteq> None then (Inl cleanup_failed, w1)
        else reclaim_results env rest (w1\<lparr>jw_staged := (jw_staged w1)(k := Missing)\<rparr>))"

definition id_conflict :: failure where
  "id_conflict = OperatorError ''ACTION_JOURNAL_ID_CONFLICT''"

definition initial_transitions :: "int \<Rightarrow> ActionJournalTransition list" where
  "initial_transitions now = [transition_of 1 JPrepared now no_metadata]"

definition prepare_existing ::
  "journal_env \<Rightarrow> prepare_input \<Rightarrow> int \<Rightarrow> ActionJournalEntry \<Rightarrow> ActionJournalEntry result" where
  "prepare_existing env input now existing =
     (let action = pi_action input;
          refreshing = je_state existing = JCompleted \<and> aq_risk action = Read in
      if je_actionDigest existing \<noteq> jv_action env action
         \<or> (\<not> refreshing \<and> (je_ownerKind existing \<noteq> pi_ownerKind input \<or> je_ownerId existing \<noteq> pi_ownerId input))
         \<or> je_capability existing \<noteq> aq_capability action \<or> je_risk existing \<noteq> aq_risk action
         \<or> je_intent existing \<noteq> aq_intent action
      then Inl id_conflict
      else bind_result (uniqueKeys (pi_resourceKeys input)) (\<lambda>keys.
        if canonicalResourceKeys (je_resourceKeys existing) \<noteq> canonicalResourceKeys keys then Inl id_conflict
        else if \<not> refreshing then Inr existing
        else case journal_bounded (pi_ownerKind input) 128 of Some e \<Rightarrow> Inl e
        | None \<Rightarrow> (case journal_bounded (pi_ownerId input) 512 of Some e \<Rightarrow> Inl e
           | None \<Rightarrow> Inr (existing\<lparr>je_generation := je_generation existing + 1,
               je_ownerKind := pi_ownerKind input, je_ownerId := pi_ownerId input, je_state := JPrepared,
               je_transitions := initial_transitions now, je_updatedAt := now\<rparr>))))"

definition new_entry :: "journal_env \<Rightarrow> prepare_input \<Rightarrow> int \<Rightarrow> ActionJournalEntry result" where
  "new_entry env input now =
     (let action = pi_action input in
      case first_failure
        [journal_bounded (aq_id action) 512, journal_bounded (pi_ownerKind input) 128,
         journal_bounded (pi_ownerId input) 512, journal_bounded (aq_capability action) 256] of Some e \<Rightarrow> Inl e
      | None \<Rightarrow> bind_result (case aq_intent action of None \<Rightarrow> Inr None
                              | Some b \<Rightarrow> map_sum id Some (validIntentBinding b)) (\<lambda>intent.
          bind_result (uniqueKeys (pi_resourceKeys input)) (\<lambda>keys.
            Inr \<lparr>je_actionId = aq_id action, je_actionDigest = jv_action env action,
              je_ownerKind = pi_ownerKind input, je_ownerId = pi_ownerId input,
              je_capability = aq_capability action, je_risk = aq_risk action, je_intent = intent,
              je_resourceKeys = keys, je_generation = 1, je_state = JPrepared,
              je_transitions = initial_transitions now, je_createdAt = now, je_updatedAt = now\<rparr>)))"

definition prepare_entries ::
  "journal_env \<Rightarrow> prepare_input \<Rightarrow> int \<Rightarrow> ActionJournalEntry list \<Rightarrow> (ActionJournalEntry \<times> ActionJournalEntry list) result" where
  "prepare_entries env input now entries =
     (case find (\<lambda>e. je_actionId e = aq_id (pi_action input)) entries of
        Some existing \<Rightarrow> bind_result (prepare_existing env input now existing) (\<lambda>e. Inr (e, store_entry e entries))
      | None \<Rightarrow>
          if length entries \<ge> MAX_ENTRIES then Inl (OperatorError ''ACTION_JOURNAL_LIMIT'')
          else bind_result (new_entry env input now) (\<lambda>e.
            Inr (e, sort_key (\<lambda>e. jv_collate env (je_actionId e)) (entries @ [e]))))"

definition prepare :: "journal_env \<Rightarrow> prepare_input \<Rightarrow> int \<Rightarrow> ActionJournalEntry journal_prog" where
  "prepare env input now = mutate_journal env (\<lambda>entries w.
     case pruneTerminal now entries of (kept, removed) \<Rightarrow>
       (case reclaim_results env removed w of (Inl e, w') \<Rightarrow> (Inl e, w')
        | (Inr _, w') \<Rightarrow> (prepare_entries env input now kept, w')))"

section \<open>Interruption before dispatch\<close>

definition pre_dispatch_unproven :: failure where
  "pre_dispatch_unproven = OperatorError ''ACTION_JOURNAL_PRE_DISPATCH_UNPROVEN''"

definition initially_prepared :: "ActionJournalEntry \<Rightarrow> bool" where
  "initially_prepared entry \<longleftrightarrow> je_state entry = JPrepared \<and> length (je_transitions entry) = 1"

definition initially_policy_deferred :: "ActionJournalEntry \<Rightarrow> bool" where
  "initially_policy_deferred entry \<longleftrightarrow>
     je_state entry = JDeferred \<and> length (je_transitions entry) = 2 \<and> policy_deferred (je_transitions entry ! 1)"

definition interruption_metadata :: "journal_env \<Rightarrow> ActionJournalEntry \<Rightarrow> TransitionMetadata" where
  "interruption_metadata env entry = no_metadata\<lparr>md_provider := Some ''agent-kernel'',
     md_resultDigest := Some (jv_fence env (je_actionId entry) (je_actionDigest entry))\<rparr>"

definition interrupt_entry :: "journal_env \<Rightarrow> ActionRequest \<Rightarrow> int \<Rightarrow> ActionJournalEntry \<Rightarrow> ActionJournalEntry result" where
  "interrupt_entry env action now entry =
     (if je_actionDigest entry \<noteq> jv_action env action \<or> je_capability entry \<noteq> aq_capability action
         \<or> je_risk entry \<noteq> aq_risk action \<or> je_risk entry = Read then Inl id_conflict
      else if je_state entry = JInterrupted then Inr entry
      else if je_generation entry \<noteq> 1 \<or> jt_state (hd (je_transitions entry)) \<noteq> JPrepared
         \<or> (\<not> initially_prepared entry \<and> \<not> initially_policy_deferred entry) then Inl pre_dispatch_unproven
      else applyTransition entry JInterrupted now (interruption_metadata env entry))"

definition interruptPreparedBeforeDispatch :: "journal_env \<Rightarrow> ActionRequest \<Rightarrow> int \<Rightarrow> ActionJournalEntry journal_prog" where
  "interruptPreparedBeforeDispatch env action now = mutate_entry env (aq_id action) (interrupt_entry env action now)"

text \<open>
  The evidence of an operator review: the ledger of signed decisions, the device of this state directory
  with its Ed25519 signature check, the action execution receipts, the platform and the process observer.
\<close>

record OperatorDecision =
  od_actionId :: string
  od_deviceId :: string
  od_deviceFingerprint :: string
  od_actionDigest :: string
  od_transitionsDigest :: string
  od_journalGeneration :: int
  od_operatorAttestation :: string
  od_epoch :: int
  od_caseDigest :: string
  od_receiptOwnerId :: "string option"
  od_receiptAuthorityHash :: "string option"
  od_receiptOwnerProcessDigest :: "string option"
  od_signature :: string

record ActionExecutionRecord =
  ax_actionId :: string
  ax_status :: string
  ax_risk :: ActionRisk
  ax_ownerId :: "string option"
  ax_ownerProcess :: "ProcessInstanceIdentity option"
  ax_actionHash :: string
  ax_authorityHash :: "string option"

record operator_evidence =
  oe_ledger :: "OperatorDecision list durable"
  oe_device :: "(string \<times> string) option"
  oe_verify :: "OperatorDecision \<Rightarrow> bool"
  oe_receipts :: "ActionExecutionRecord list durable"
  oe_win32 :: bool
  oe_observe :: "int \<Rightarrow> ProcessInstanceObservation"
  oe_processDigest :: "ProcessInstanceIdentity \<Rightarrow> string"

record operator_review =
  ov_actionId :: string
  ov_actionDigest :: string
  ov_generation :: int
  ov_transitionsDigest :: string

definition recovery_proof_invalid :: failure where
  "recovery_proof_invalid = OperatorError ''OPERATOR_RECOVERY_PROOF_INVALID''"

definition recovery_proof_required :: failure where
  "recovery_proof_required = OperatorError ''OPERATOR_RECOVERY_PROOF_REQUIRED''"

definition windows_filetime :: "string \<Rightarrow> bool" where
  "windows_filetime s \<longleftrightarrow> starts_with s ''windows-filetime:''
     \<and> (let ds = drop (length ''windows-filetime:'') s in 15 \<le> length ds \<and> length ds \<le> 20 \<and> list_all is_digit ds)"

definition decision_bound ::
  "operator_evidence \<Rightarrow> operator_review \<Rightarrow> ActionJournalEntry \<Rightarrow> OperatorDecision \<Rightarrow> bool" where
  "decision_bound oe input entry d \<longleftrightarrow>
     oe_device oe = Some (od_deviceId d, od_deviceFingerprint d)
     \<and> od_actionDigest d = je_actionDigest entry \<and> od_transitionsDigest d = ov_transitionsDigest input
     \<and> od_journalGeneration d = je_generation entry
     \<and> od_operatorAttestation d = ''I-CONFIRM-ORIGINAL-OWNER-STOPPED-AND-STATE-NOT-COPIED''
     \<and> is_safe_integer (od_epoch d) \<and> 1 \<le> od_epoch d \<and> hex64_lower (od_caseDigest d)"

definition receipt_bound :: "ActionJournalEntry \<Rightarrow> OperatorDecision \<Rightarrow> ActionExecutionRecord \<Rightarrow> bool" where
  "receipt_bound entry d receipt \<longleftrightarrow>
     ax_status receipt = ''processing'' \<and> ax_risk receipt = je_risk entry
     \<and> \<not> (je_risk entry = Write \<and> (ax_ownerProcess receipt = None \<or> truthy (od_receiptOwnerProcessDigest d) = None))
     \<and> ax_ownerId receipt = od_receiptOwnerId d \<and> ax_actionHash receipt = je_actionDigest entry
     \<and> ax_authorityHash receipt = od_receiptAuthorityHash d"

definition owner_stopped :: "operator_evidence \<Rightarrow> OperatorDecision \<Rightarrow> ActionExecutionRecord \<Rightarrow> bool" where
  "owner_stopped oe d receipt =
     (case ax_ownerProcess receipt of None \<Rightarrow> od_receiptOwnerProcessDigest d = None
      | Some owner \<Rightarrow> oe_win32 oe \<and> is_safe_integer (pi_pid owner) \<and> 1 \<le> pi_pid owner
          \<and> windows_filetime (pi_started owner)
          \<and> od_receiptOwnerProcessDigest d = Some (oe_processDigest oe owner)
          \<and> oe_observe oe (pi_pid owner) = Dead)"

definition review_proof :: "operator_evidence \<Rightarrow> operator_review \<Rightarrow> ActionJournalEntry \<Rightarrow> failure option" where
  "review_proof oe input entry =
     (case oe_ledger oe of
        Stored decisions \<Rightarrow>
          (case filter (\<lambda>d. od_actionId d = je_actionId entry) decisions of
             [decision] \<Rightarrow>
               (if \<not> decision_bound oe input entry decision then Some recovery_proof_invalid
                else if \<not> oe_verify oe decision then Some recovery_proof_invalid
                else case oe_receipts oe of
                  Stored records \<Rightarrow>
                    (case filter (\<lambda>r. ax_actionId r = je_actionId entry) records of
                       [receipt] \<Rightarrow>
                         (if \<not> receipt_bound entry decision receipt then Some recovery_proof_invalid
                          else if \<not> owner_stopped oe decision receipt then Some recovery_proof_invalid
                          else None)
                     | _ \<Rightarrow> Some recovery_proof_invalid)
                | _ \<Rightarrow> Some recovery_proof_invalid)
           | _ \<Rightarrow> Some recovery_proof_required)
      | _ \<Rightarrow> Some recovery_proof_required)"

definition review_entry ::
  "journal_env \<Rightarrow> operator_evidence \<Rightarrow> operator_review \<Rightarrow> int \<Rightarrow> ActionJournalEntry \<Rightarrow> ActionJournalEntry result" where
  "review_entry env oe input now entry =
     (if je_actionDigest entry \<noteq> ov_actionDigest input \<or> je_generation entry \<noteq> ov_generation input
         \<or> (je_risk entry \<noteq> External \<and> je_risk entry \<noteq> Write) then Inl id_conflict
      else if je_generation entry \<noteq> 1
         \<or> (\<not> (je_risk entry = External \<and> initially_policy_deferred entry \<and> jt_state (hd (je_transitions entry)) = JPrepared
                \<and> truthy (jt_resultDigest (je_transitions entry ! 1)) \<noteq> None)
            \<and> \<not> (je_risk entry = Write \<and> initially_prepared entry \<and> jt_state (hd (je_transitions entry)) = JPrepared))
         \<or> jv_transitions env (je_transitions entry) \<noteq> ov_transitionsDigest input
      then Inl pre_dispatch_unproven
      else case review_proof oe input entry of Some e \<Rightarrow> Inl e
           | None \<Rightarrow> applyTransition entry JInterrupted now (interruption_metadata env entry))"

definition interruptOperatorReviewedPolicyDeferral ::
  "journal_env \<Rightarrow> operator_evidence \<Rightarrow> operator_review \<Rightarrow> int \<Rightarrow> ActionJournalEntry journal_prog" where
  "interruptOperatorReviewedPolicyDeferral env oe input now =
     mutate_entry env (ov_actionId input) (review_entry env oe input now)"

section \<open>Dispatch, observation and reconciliation\<close>

definition journal_transition ::
  "journal_env \<Rightarrow> int \<Rightarrow> string \<Rightarrow> ActionJournalState \<Rightarrow> TransitionMetadata \<Rightarrow> ActionJournalEntry journal_prog" where
  "journal_transition env now actionId nxt metadata =
     mutate_entry env actionId (\<lambda>entry. applyTransition entry nxt now metadata)"

definition markDispatched :: "journal_env \<Rightarrow> int \<Rightarrow> string \<Rightarrow> string option \<Rightarrow> ActionJournalEntry journal_prog" where
  "markDispatched env now actionId provider w =
     (case truthy provider of
        None \<Rightarrow> journal_transition env now actionId JDispatched no_metadata w
      | Some p \<Rightarrow> (case journal_bounded p 256 of Some e \<Rightarrow> (Inl e, w)
          | None \<Rightarrow> journal_transition env now actionId JDispatched (no_metadata\<lparr>md_provider := Some p\<rparr>) w))"

definition result_metadata :: "journal_env \<Rightarrow> ActionResult \<Rightarrow> TransitionMetadata" where
  "result_metadata env r = no_metadata\<lparr>md_provider := Some (ar_provider r), md_resultDigest := Some (jv_result env r)\<rparr>"

definition defer_action :: "journal_env \<Rightarrow> int \<Rightarrow> string \<Rightarrow> ActionResult \<Rightarrow> ActionJournalEntry journal_prog" where
  "defer_action env now actionId r w =
     (case journal_bounded (ar_provider r) 256 of Some e \<Rightarrow> (Inl e, w)
      | None \<Rightarrow> journal_transition env now actionId JDeferred (result_metadata env r) w)"

definition observed_state :: "ActionResult \<Rightarrow> ActionJournalState" where
  "observed_state r =
     (let effects = Option.bind (ar_error r) ae_sideEffectState; phase = Option.bind (ar_error r) ae_executionPhase in
      if ar_ok r then JObserved
      else if effects = Some SeUncertain then JUncertain
      else if phase = Some PreDispatch \<or> effects = Some SeNone then JPrepared
      else JCompleted)"

definition observe_action :: "journal_env \<Rightarrow> int \<Rightarrow> string \<Rightarrow> ActionResult \<Rightarrow> ActionJournalEntry journal_prog" where
  "observe_action env now actionId r w =
     (case journal_bounded (ar_provider r) 256 of Some e \<Rightarrow> (Inl e, w)
      | None \<Rightarrow> journal_transition env now actionId (observed_state r) (result_metadata env r) w)"

definition reconcile_action ::
  "journal_env \<Rightarrow> int \<Rightarrow> string \<Rightarrow> ProviderReconciliationResult \<Rightarrow> ActionJournalEntry journal_prog" where
  "reconcile_action env now actionId reconciliation =
     journal_transition env now actionId
       (if pr_status reconciliation = RecUncertain then JUncertain else JReconciled)
       (no_metadata\<lparr>md_resultDigest := map_option (jv_result env) (pr_result reconciliation),
          md_reconciliationStatus := Some (pr_status reconciliation)\<rparr>)"

section \<open>Completion\<close>

definition completion_metadata :: "StagedCompletedResult \<Rightarrow> TransitionMetadata" where
  "completion_metadata staged = no_metadata\<lparr>md_verificationDigest := Some (sr_verificationDigest staged),
     md_resultDigest := Some (sr_resultDigest staged)\<rparr>"

definition stage_for :: "ActionJournalEntry \<Rightarrow> string \<Rightarrow> string \<Rightarrow> ActionResult \<Rightarrow> StagedCompletedResult" where
  "stage_for entry verificationDigest resultDigest result =
     \<lparr>sr_actionId = je_actionId entry, sr_actionDigest = je_actionDigest entry,
      sr_journalGeneration = je_generation entry, sr_capability = je_capability entry,
      sr_verificationDigest = verificationDigest, sr_resultDigest = resultDigest, sr_result = result\<rparr>"

definition result_invalid :: failure where
  "result_invalid = OperatorError ''ACTION_JOURNAL_RESULT_INVALID''"

definition complete_stage ::
  "journal_env \<Rightarrow> string \<Rightarrow> ActionResult option \<Rightarrow> ActionJournalEntry \<Rightarrow> StagedCompletedResult result" where
  "complete_stage env digestValue result current =
     (case result of None \<Rightarrow> Inl result_invalid
      | Some r \<Rightarrow>
         (if \<not> ar_ok r \<or> ar_capability r \<noteq> je_capability current then Inl result_invalid
          else bind_result (validateReplayResult r (je_capability current)) (\<lambda>safeResult.
            if kernelVerificationDigest safeResult \<noteq> Some digestValue then Inl result_invalid
            else Inr (stage_for current digestValue (jv_result env safeResult) safeResult))))"

text \<open>The mutation of \<open>complete\<close>: the result is staged before the entry is completed.\<close>

definition commit_completion :: "journal_env \<Rightarrow> int \<Rightarrow> string \<Rightarrow> StagedCompletedResult \<Rightarrow> ActionJournalEntry journal_prog" where
  "commit_completion env now actionId staged = mutate_journal env (\<lambda>entries w.
     case findEntry entries actionId of Inl e \<Rightarrow> (Inl e, w)
     | Inr entry \<Rightarrow> (case assertStageMatchesEntry staged entry of Some e \<Rightarrow> (Inl e, w)
        | None \<Rightarrow>
           (if je_state entry = JCompleted
            then (case assertStageMatchesCompletion staged entry of Some e \<Rightarrow> (Inl e, w)
                  | None \<Rightarrow> (Inr (entry, entries), w))
            else if je_state entry \<noteq> JObserved \<and> je_state entry \<noteq> JReconciled
            then (Inl (OperatorError ''ACTION_JOURNAL_TRANSITION_INVALID''), w)
            else case writeStagedResult env staged w of (Inl e, w') \<Rightarrow> (Inl e, w')
                 | (Inr _, w') \<Rightarrow> (case jv_fault env AfterResultStaged (je_actionId entry) of Some e \<Rightarrow> (Inl e, w')
                    | None \<Rightarrow> (bind_result (applyTransition entry JCompleted now (completion_metadata staged)) (\<lambda>entry'.
                        Inr (entry', store_entry entry' entries)), w')))))"

definition complete_action ::
  "journal_env \<Rightarrow> int \<Rightarrow> string \<Rightarrow> string \<Rightarrow> ActionResult option \<Rightarrow> ActionJournalEntry journal_prog" where
  "complete_action env now actionId verificationDigest result w =
     (case journal_sha verificationDigest of Inl e \<Rightarrow> (Inl e, w)
      | Inr digestValue \<Rightarrow> (case inspect_journal env actionId w of (Inl e, w) \<Rightarrow> (Inl e, w)
         | (Inr current, w) \<Rightarrow>
            (if je_risk current = Read
             then journal_transition env now actionId JCompleted (no_metadata\<lparr>md_verificationDigest := Some digestValue\<rparr>) w
             else case complete_stage env digestValue result current of Inl e \<Rightarrow> (Inl e, w)
               | Inr staged \<Rightarrow> (case commit_completion env now actionId staged w of (Inl e, w') \<Rightarrow> (Inl e, w')
                  | (Inr completed, w') \<Rightarrow>
                     (case jv_fault env AfterJournalCompleted (je_actionId completed) of Some e \<Rightarrow> (Inl e, w')
                      | None \<Rightarrow> (case publishStagedResult env staged w' of (Inl e, w'') \<Rightarrow> (Inl e, w'')
                         | (Inr _, w'') \<Rightarrow> (Inr completed, w'')))))))"

section \<open>Verification of an outcome\<close>

definition outcome_checks :: "journal_env \<Rightarrow> ActionRequest \<Rightarrow> ActionResult \<Rightarrow> ActionJournalEntry option \<Rightarrow> VerificationCheck list" where
  "outcome_checks env action result journal =
     (let digests = Some [jv_evidence env (ar_evidence result)];
          bound = ar_capability result = aq_capability action;
          present = list_ex (\<lambda>item. ev_status item = EvPass) (ar_evidence result) in
      [\<lparr>vc_name = ''action-succeeded'', vc_ok = ar_ok result,
        vc_detail = (if ar_ok result then ''Provider returned a successful action result.''
                     else ''Provider did not return a successful action result.''), vc_evidenceDigests = digests\<rparr>,
       \<lparr>vc_name = ''capability-bound'', vc_ok = bound,
        vc_detail = (if bound then ''Result capability matches the authorized action.''
                     else ''Result capability does not match the authorized action.''), vc_evidenceDigests = digests\<rparr>,
       \<lparr>vc_name = ''provider-evidence-present'', vc_ok = present,
        vc_detail = (if present then ''At least one provider-generated passing evidence item supports the outcome.''
                     else ''No provider-generated passing evidence item supports the outcome.''), vc_evidenceDigests = digests\<rparr>,
       \<lparr>vc_name = ''journal-identity'',
        vc_ok = (case journal of None \<Rightarrow> True
                 | Some j \<Rightarrow> je_actionDigest j = jv_action env action \<and> je_actionId j = aq_id action
                     \<and> je_state j \<in> {JObserved, JReconciled, JCompleted}),
        vc_detail = (case journal of
            None \<Rightarrow> ''No durable journal was supplied; verification is result/evidence bound only.''
          | Some _ \<Rightarrow> ''Durable action journal identity and execution state match the action being verified.''),
        vc_evidenceDigests = digests\<rparr>])"

definition verifyActionOutcome ::
  "journal_env \<Rightarrow> ActionRequest \<Rightarrow> ActionResult \<Rightarrow> ActionJournalEntry option \<Rightarrow> VerificationReceipt result" where
  "verifyActionOutcome env action result journal =
     verify (jv_contract env) (jv_body env) (jv_collate env) ''action-outcome'' (aq_id action)
       \<lparr>oc_actionDigest = jv_action env action, oc_capability = aq_capability action, oc_risk = aq_risk action,
        oc_provider = ar_provider result,
        oc_outputDigest = jv_output env (case ar_output result of None \<Rightarrow> JNull | Some v \<Rightarrow> v),
        oc_evidenceDigest = jv_evidence env (ar_evidence result),
        oc_journalState = map_option je_state journal, oc_intent = aq_intent action\<rparr>
       (outcome_checks env action result journal)"

section \<open>Recovery and replay\<close>

definition verification_evidence :: "string \<Rightarrow> Evidence \<Rightarrow> bool" where
  "verification_evidence verificationDigest item \<longleftrightarrow> ev_kind item = ''kernel_verification'' \<and> ev_status item = EvPass
     \<and> (case ev_data item of None \<Rightarrow> False | Some d \<Rightarrow> map_of d ''verificationDigest'' = Some (JStr verificationDigest))"

text \<open>The evidence without the last item that holds the verification digest.\<close>

fun drop_first :: "('a \<Rightarrow> bool) \<Rightarrow> 'a list \<Rightarrow> 'a list option" where
  "drop_first p [] = None"
| "drop_first p (x # xs) = (if p x then Some xs else map_option ((#) x) (drop_first p xs))"

definition before_kernel_verification :: "string \<Rightarrow> ActionResult \<Rightarrow> ActionResult option" where
  "before_kernel_verification verificationDigest result =
     map_option (\<lambda>items. result\<lparr>ar_evidence := rev items\<rparr>)
       (drop_first (verification_evidence verificationDigest) (rev (ar_evidence result)))"

definition orphan_stage ::
  "journal_env \<Rightarrow> ActionJournalEntry \<Rightarrow> ActionRequest option \<Rightarrow> ActionResult \<Rightarrow> StagedCompletedResult result" where
  "orphan_stage env entry action stored =
     bind_result (validateReplayResult stored (je_capability entry)) (\<lambda>result.
       case (kernelVerificationDigest result, action) of
         (Some verificationDigest, Some a) \<Rightarrow>
           (if aq_id a \<noteq> je_actionId entry \<or> jv_action env a \<noteq> je_actionDigest entry then Inl resultCorrupt
            else case before_kernel_verification verificationDigest result of None \<Rightarrow> Inl resultCorrupt
            | Some before \<Rightarrow> bind_result (verifyActionOutcome env a before (Some entry)) (\<lambda>receipt.
                if \<not> vb_verified (vk_body receipt) \<or> vk_digest receipt \<noteq> verificationDigest then Inl resultCorrupt
                else Inr (stage_for entry verificationDigest (jv_result env result) result)))
       | _ \<Rightarrow> Inl resultCorrupt)"

definition readLegacyOrphanResult ::
  "journal_env \<Rightarrow> ActionJournalEntry \<Rightarrow> ActionRequest option \<Rightarrow> StagedCompletedResult option journal_prog" where
  "readLegacyOrphanResult env entry action w =
     (case jw_results w (jv_key env (je_actionId entry)) of
        Missing \<Rightarrow> (Inr None, w)
      | Unreadable \<Rightarrow> (Inl resultCorrupt, w)
      | Stored stored \<Rightarrow> (case orphan_stage env entry action stored of Inl e \<Rightarrow> (Inl e, w)
          | Inr staged \<Rightarrow> (case writeStagedResult env staged w of (Inl e, w') \<Rightarrow> (Inl e, w')
              | (Inr _, w') \<Rightarrow> (Inr (Some staged), w'))))"

definition recover_entry :: "int \<Rightarrow> StagedCompletedResult \<Rightarrow> ActionJournalEntry \<Rightarrow> ActionJournalEntry result" where
  "recover_entry now staged entry =
     (case assertStageMatchesEntry staged entry of Some e \<Rightarrow> Inl e
      | None \<Rightarrow>
         (if je_state entry = JCompleted
          then (case assertStageMatchesCompletion staged entry of Some e \<Rightarrow> Inl e | None \<Rightarrow> Inr entry)
          else if je_state entry \<noteq> JObserved \<and> je_state entry \<noteq> JReconciled then Inl completionConflict
          else applyTransition entry JCompleted now (completion_metadata staged)))"

definition recover_commit :: "journal_env \<Rightarrow> int \<Rightarrow> string \<Rightarrow> StagedCompletedResult \<Rightarrow> ActionJournalEntry journal_prog" where
  "recover_commit env now actionId staged = mutate_entry env actionId (recover_entry now staged)"

definition recover_staged :: "journal_env \<Rightarrow> int \<Rightarrow> string \<Rightarrow> StagedCompletedResult \<Rightarrow> ActionJournalEntry journal_prog" where
  "recover_staged env now actionId staged w =
     (case recover_commit env now actionId staged w of (Inl e, w') \<Rightarrow> (Inl e, w')
      | (Inr completed, w') \<Rightarrow> (case publishStagedResult env staged w' of (Inl e, w'') \<Rightarrow> (Inl e, w'')
         | (Inr _, w'') \<Rightarrow> (Inr completed, w'')))"

definition recoverPendingCompletion ::
  "journal_env \<Rightarrow> int \<Rightarrow> string \<Rightarrow> ActionRequest option \<Rightarrow> ActionJournalEntry journal_prog" where
  "recoverPendingCompletion env now actionId action w =
     (case journal_bounded actionId 512 of Some e \<Rightarrow> (Inl e, w)
      | None \<Rightarrow> (case readStagedResult env (jw_staged w (jv_key env actionId)) of Inl e \<Rightarrow> (Inl e, w)
         | Inr (Some staged) \<Rightarrow> recover_staged env now actionId staged w
         | Inr None \<Rightarrow> (case inspect_journal env actionId w of (Inl e, w) \<Rightarrow> (Inl e, w)
            | (Inr entry, w) \<Rightarrow>
               (if je_state entry = JObserved \<or> je_state entry = JReconciled
                then (case readLegacyOrphanResult env entry action w of (Inl e, w') \<Rightarrow> (Inl e, w')
                      | (Inr None, w') \<Rightarrow> (Inr entry, w')
                      | (Inr (Some staged), w') \<Rightarrow> recover_staged env now actionId staged w')
                else (Inr entry, w)))))"

definition verified_completion :: "ActionJournalEntry \<Rightarrow> ActionJournalTransition option" where
  "verified_completion entry = find (\<lambda>t. jt_state t = JCompleted \<and> truthy (jt_verificationDigest t) \<noteq> None
     \<and> truthy (jt_resultDigest t) \<noteq> None) (rev (je_transitions entry))"

definition replay_result :: "journal_env \<Rightarrow> ActionJournalEntry \<Rightarrow> ActionResult option journal_prog" where
  "replay_result env entry w =
     (if je_state entry \<noteq> JCompleted \<or> je_risk entry = Read then (Inr None, w)
      else case verified_completion entry of None \<Rightarrow> (Inr None, w)
      | Some t \<Rightarrow>
         (case jw_results w (jv_key env (je_actionId entry)) of
            Missing \<Rightarrow> (Inr None, w)
          | Unreadable \<Rightarrow> (Inl resultCorrupt, w)
          | Stored stored \<Rightarrow> (bind_result (validateReplayResult stored (je_capability entry)) (\<lambda>result.
              if Some (jv_result env result) \<noteq> jt_resultDigest t then Inl resultCorrupt else Inr (Some result)), w)))"

definition replayCompleted :: "journal_env \<Rightarrow> int \<Rightarrow> string \<Rightarrow> ActionResult option journal_prog" where
  "replayCompleted env now actionId w =
     (case inspect_journal env actionId w of (Inl e, w) \<Rightarrow> (Inl e, w)
      | (Inr entry, w) \<Rightarrow>
         (if je_risk entry = Read then replay_result env entry w
          else case recoverPendingCompletion env now (je_actionId entry) None w of (Inl e, w') \<Rightarrow> (Inl e, w')
               | (Inr entry', w') \<Rightarrow> replay_result env entry' w'))"

end
