(* ===== verification/JournalInv.thy ===== *)
theory JournalInv
  imports ActionJournal
begin

text \<open>
  The journal as a family of entries, one per action id. A valid journal reads back as itself, and every
  mutation of the journal changes what the lookup of each action id returns only along the life cycle of
  an entry: creation in \<open>PREPARED\<close>, allowed transitions, the refresh of a completed read, and the removal of
  a completed entry after its retention.
\<close>

section \<open>Checks\<close>

lemma first_failure_None: "first_failure xs = None \<longleftrightarrow> (\<forall>x\<in>set xs. x = None)"
  by (induction xs rule: first_failure.induct) auto

lemma hex64_lower_id: "hex64_lower s \<Longrightarrow> to_lower s = s"
proof -
  have "is_hex_lower c \<Longrightarrow> lower_char c = c" for c
    by (auto simp: is_hex_lower_def lower_char_def is_upper_def is_digit_def char_in_def)
  then have "list_all is_hex_lower s \<Longrightarrow> to_lower s = s" by (induction s) (auto simp: to_lower_def)
  then show "hex64_lower s \<Longrightarrow> to_lower s = s" by (simp add: hex64_lower_def)
qed

lemma ensure_None [simp]: "ensure e ok = None \<longleftrightarrow> ok"
  by (simp add: ensure_def)

lemma check_transition_allowed:
  "check_transition n (Some p) t = None \<Longrightarrow> allowedTransition (jt_state p) (jt_state t)"
  by (simp add: check_transition_def first_failure_None)

abbreviation chain :: "ActionJournalTransition list \<Rightarrow> bool" where
  "chain \<equiv> successively (\<lambda>a b. allowedTransition (jt_state a) (jt_state b))"

lemma check_transitions_chain:
  "check_transitions n previous ts = None \<Longrightarrow> chain (case previous of None \<Rightarrow> ts | Some p \<Rightarrow> p # ts)"
proof (induction n previous ts rule: check_transitions.induct)
  case (2 n previous t ts)
  then have "chain (t # ts)" "check_transition n previous t = None" by (auto split: option.splits)
  then show ?case by (auto split: option.splits dest: check_transition_allowed)
qed (auto split: option.splits)

lemma uniqueKeys_idem: "uniqueKeys ks = Inr ks' \<Longrightarrow> uniqueKeys ks' = Inr ks'"
proof -
  assume keys: "uniqueKeys ks = Inr ks'"
  then have ks': "ks' = unique_sorted ks" "\<not> length ks > 5000" "\<forall>v\<in>set ks. journal_bounded v 1024 = None"
    by (auto simp: uniqueKeys_def for_all_throw_None_iff split: if_split_asm option.split_asm)
  have "length ks' \<le> length ks" using ks'(1) by (metis card_length distinct_card distinct_unique_sorted set_unique_sorted)
  moreover have "for_all_throw (\<lambda>v. journal_bounded v 1024) ks' = None" using ks' by (simp add: for_all_throw_None_iff)
  moreover have "unique_sorted ks' = ks'"
    using ks'(1) by (simp add: unique_sorted_def sorted_sort_id)
  ultimately show ?thesis using ks'(2) by (simp add: uniqueKeys_def)
qed

section \<open>Valid journals\<close>

definition good_entry :: "journal_env \<Rightarrow> ActionJournalEntry \<Rightarrow> bool" where
  "good_entry env e \<longleftrightarrow> validate_journal_entry env [] e = Inr e"

lemma check_history_keys [simp]: "check_history env (e\<lparr>je_resourceKeys := ks\<rparr>) = check_history env e"
  by (simp add: check_history_def interrupted_bound_def Let_def split: option.split)

lemma validate_journal_entry_Inr:
  assumes "validate_journal_entry env ids e = Inr e'"
  shows "\<exists>ks. uniqueKeys (je_resourceKeys e) = Inr ks \<and> e' = e\<lparr>je_resourceKeys := ks\<rparr>"
    and "je_actionId e \<notin> set ids" "good_entry env e'" "validate_journal_entry env ids e' = Inr e'"
proof -
  from assms obtain ks where ks: "uniqueKeys (je_resourceKeys e) = Inr ks" "e' = e\<lparr>je_resourceKeys := ks\<rparr>"
    and fresh: "je_actionId e \<notin> set ids"
    by (auto simp: validate_journal_entry_def bind_result_Inr first_failure_None split: option.split_asm)
  then show "\<exists>ks. uniqueKeys (je_resourceKeys e) = Inr ks \<and> e' = e\<lparr>je_resourceKeys := ks\<rparr>"
    "je_actionId e \<notin> set ids" by auto
  have idem: "uniqueKeys ks = Inr ks" using ks(1) by (rule uniqueKeys_idem)
  show "validate_journal_entry env ids e' = Inr e'" "good_entry env e'"
    using assms ks idem fresh
    by (auto simp: good_entry_def validate_journal_entry_def bind_result_def first_failure_None split: option.splits)
qed

lemma validate_journal_entries_Inr:
  "validate_journal_entries env ids es = Inr es' \<Longrightarrow>
   map je_actionId es' = map je_actionId es \<and> distinct (map je_actionId es) \<and> set ids \<inter> je_actionId ` set es = {}
   \<and> validate_journal_entries env ids es' = Inr es' \<and> (\<forall>e\<in>set es'. good_entry env e)
   \<and> list_all2 (\<lambda>e e'. validate_journal_entry env [] e = Inr e') es es'"
proof (induction env ids es arbitrary: es' rule: validate_journal_entries.induct)
  case (2 env ids e es)
  from "2.prems" obtain e' es'' where parts: "validate_journal_entry env ids e = Inr e'"
      "validate_journal_entries env (je_actionId e # ids) es = Inr es''" and es': "es' = e' # es''"
    by (auto simp: bind_result_Inr)
  note entry = validate_journal_entry_Inr [OF parts(1)]
  have "validate_journal_entry env [] e = Inr e'"
    using parts(1) by (auto simp: validate_journal_entry_def bind_result_def first_failure_None split: option.splits)
  moreover have "je_actionId e' = je_actionId e" using entry(1) by auto
  moreover have "map je_actionId es'' = map je_actionId es \<and> distinct (map je_actionId es)
    \<and> set (je_actionId e # ids) \<inter> je_actionId ` set es = {}
    \<and> validate_journal_entries env (je_actionId e # ids) es'' = Inr es'' \<and> (\<forall>e\<in>set es''. good_entry env e)
    \<and> list_all2 (\<lambda>e e'. validate_journal_entry env [] e = Inr e') es es''"
    by (rule "2.IH" [OF parts(2)])
  ultimately show ?case using entry(2-4) by (auto simp: es' bind_result_def)
qed simp

definition journal_ok :: "journal_env \<Rightarrow> ActionJournalEntry list \<Rightarrow> bool" where
  "journal_ok env es \<longleftrightarrow> validateJournal env es = Inr es"

lemma validateJournal_ok: "validateJournal env es = Inr es' \<Longrightarrow> journal_ok env es'"
proof -
  assume "validateJournal env es = Inr es'"
  then have "validate_journal_entries env [] es = Inr es'" "\<not> length es > MAX_ENTRIES"
    by (auto simp: validateJournal_def split: if_split_asm)
  with validate_journal_entries_Inr [OF this(1)] show ?thesis
    by (metis journal_ok_def length_map validateJournal_def)
qed

lemma journal_okD:
  "journal_ok env es \<Longrightarrow> distinct (map je_actionId es) \<and> (\<forall>e\<in>set es. good_entry env e)"
  using validate_journal_entries_Inr [of env "[]" es es]
  by (auto simp: validateJournal_def journal_ok_def split: if_split_asm)

lemma read_journal_ok: "read_journal env f = Inr es \<Longrightarrow> journal_ok env es"
  by (cases f) (auto simp: validateJournal_ok, simp add: journal_ok_def validateJournal_def)

lemma good_entryD:
  assumes "good_entry env e"
  shows "je_transitions e \<noteq> []" "jt_state (hd (je_transitions e)) = JPrepared" "chain (je_transitions e)"
    "jt_state (last (je_transitions e)) = je_state e" "length (je_transitions e) \<le> MAX_TRANSITIONS"
    "je_state e = JInterrupted \<Longrightarrow> interrupted_bound env e" "uniqueKeys (je_resourceKeys e) = Inr (je_resourceKeys e)"
proof -
  from assms obtain ks where hist: "check_history env e = None" and ks: "uniqueKeys (je_resourceKeys e) = Inr ks"
    "e\<lparr>je_resourceKeys := ks\<rparr> = e"
    by (auto simp: good_entry_def validate_journal_entry_def bind_result_Inr split: option.split_asm)
  show "uniqueKeys (je_resourceKeys e) = Inr (je_resourceKeys e)"
    using ks(1) arg_cong [OF ks(2), of je_resourceKeys] by simp
  show "je_transitions e \<noteq> []" "jt_state (hd (je_transitions e)) = JPrepared"
    "jt_state (last (je_transitions e)) = je_state e" "length (je_transitions e) \<le> MAX_TRANSITIONS"
    using hist by (auto simp: check_history_def Let_def first_failure_None split: if_split_asm option.split_asm)
  show "je_state e = JInterrupted \<Longrightarrow> interrupted_bound env e"
    using hist by (auto simp: check_history_def Let_def first_failure_None split: if_split_asm option.split_asm)
  have "check_transitions 0 None (je_transitions e) = None"
    using hist by (auto simp: check_history_def Let_def split: if_split_asm option.split_asm)
  from check_transitions_chain [OF this] show "chain (je_transitions e)" by simp
qed

section \<open>Lookups\<close>

definition entry_at :: "journal_env \<Rightarrow> journal_world \<Rightarrow> string \<Rightarrow> ActionJournalEntry option" where
  "entry_at env w i =
     (case read_journal env (jw_file w) of Inl _ \<Rightarrow> None | Inr es \<Rightarrow> find (\<lambda>e. je_actionId e = i) es)"

lemma entry_at_file: "jw_file w' = jw_file w \<Longrightarrow> entry_at env w' = entry_at env w"
  by (simp add: entry_at_def fun_eq_iff)

lemma entry_atD: "entry_at env w i = Some e \<Longrightarrow> je_actionId e = i \<and> good_entry env e"
  using journal_okD [OF read_journal_ok, of env "jw_file w"]
  by (auto simp: entry_at_def split: sum.splits dest: find_SomeD)

text \<open>Resource keys that are already unique and sorted are left alone by the validation.\<close>

definition normal_keys :: "ActionJournalEntry \<Rightarrow> bool" where
  "normal_keys e \<longleftrightarrow> uniqueKeys (je_resourceKeys e) = Inr (je_resourceKeys e)"

lemma normal_keys_entries: "journal_ok env es \<Longrightarrow> e \<in> set es \<Longrightarrow> normal_keys e"
  using journal_okD [of env es] good_entryD(7) [of env e] by (simp add: normal_keys_def)

lemma validateJournal_normal:
  assumes "validateJournal env es = Inr es'" "\<forall>e\<in>set es. normal_keys e"
  shows "es' = es"
proof -
  from assms(1) have "list_all2 (\<lambda>e e'. validate_journal_entry env [] e = Inr e') es es'"
    using validate_journal_entries_Inr by (auto simp: validateJournal_def split: if_split_asm)
  moreover have "e = e'" if "e \<in> set es" "validate_journal_entry env [] e = Inr e'" for e e'
    using validate_journal_entry_Inr(1) [OF that(2)] that(1) assms(2) by (auto simp: normal_keys_def)
  ultimately have "list_all2 (=) es es'"
    by (rule list.rel_mono_strong) simp
  then show ?thesis by (metis list_all2_eq)
qed

lemma mutate_journal_cases [consumes 1, case_names files unchanged written]:
  assumes "mutate_journal env fn w = (r, w')"
    and "\<And>es r w1. fn es w = (r, w1) \<Longrightarrow> jw_file w1 = jw_file w"
  obtains (unchanged) es rr where "jw_file w' = jw_file w" "w' = w \<or> (read_journal env (jw_file w) = Inr es \<and> fn es w = (rr, w'))"
      "\<exists>f. r = Inl f"
    | (written) es out es' valid w1 where "read_journal env (jw_file w) = Inr es" "journal_ok env es"
        "fn es w = (Inr (out, es'), w1)" "validateJournal env es' = Inr valid" "r = Inr out"
        "w' = w1\<lparr>jw_file := Stored valid\<rparr>" "journal_ok env valid" "\<not> jv_journalBytes env valid > STORE_MAX_BYTES"
proof (cases "read_journal env (jw_file w)")
  case (Inl e)
  with assms(1) that(1) show ?thesis by (auto simp: mutate_journal_def)
next
  case (Inr es)
  obtain q w1 where q: "fn es w = (q, w1)" by (cases "fn es w")
  note kept = assms(2) [OF q]
  show ?thesis
  proof (cases q)
    case (Inl e)
    with assms(1) Inr q kept that(1) show ?thesis by (auto simp: mutate_journal_def)
  next
    case (Inr p)
    obtain out es' where p: "p = (out, es')" by (cases p)
    show ?thesis
    proof (cases "validateJournal env es'")
      case (Inl e)
      with assms(1) \<open>read_journal env (jw_file w) = Inr es\<close> q Inr p kept that(1) show ?thesis
        by (auto simp: mutate_journal_def)
    next
      case (Inr valid)
      with assms(1) \<open>read_journal env (jw_file w) = Inr es\<close> q \<open>q = Inr p\<close> p kept that
        read_journal_ok [of env "jw_file w" es] validateJournal_ok [OF Inr]
      show ?thesis by (auto simp: mutate_journal_def split: if_split_asm)
    qed
  qed
qed

lemma entry_at_written: "journal_ok env valid \<Longrightarrow> entry_at env (w\<lparr>jw_file := Stored valid\<rparr>) i = find (\<lambda>e. je_actionId e = i) valid"
  by (simp add: entry_at_def journal_ok_def)

lemma find_store_entry:
  "\<exists>x\<in>set es. je_actionId x = je_actionId e \<Longrightarrow>
   find (\<lambda>x. je_actionId x = j) (store_entry e es) = (if j = je_actionId e then Some e else find (\<lambda>x. je_actionId x = j) es)"
proof (induction es)
  case (Cons a es)
  then show ?case
    by (cases "je_actionId a = je_actionId e") (auto simp: store_entry_def)
qed simp

lemma mutate_entry_cases [consumes 1, case_names keep error changed]:
  assumes "mutate_entry env i change w = (r, w')"
    and keep: "\<And>e e'. change e = Inr e' \<Longrightarrow> je_actionId e' = je_actionId e \<and> je_resourceKeys e' = je_resourceKeys e"
  obtains (error) f where "r = Inl f" "w' = w"
    | (changed) e e' where "r = Inr e'" "entry_at env w i = Some e" "change e = Inr e'" "good_entry env e'"
        "entry_at env w' = (entry_at env w)(i \<mapsto> e')" "jw_staged w' = jw_staged w" "jw_results w' = jw_results w"
  using assms(1) unfolding mutate_entry_def
proof (cases rule: mutate_journal_cases)
  case (files es r w1)
  then show ?case by auto
next
  case (unchanged es rr)
  then obtain f where "r = Inl f" by blast
  moreover have "w' = w" using unchanged(2) by auto
  ultimately show ?thesis by (rule that(1))
next
  case (written es out es' valid w1)
  from written(3) obtain e where e: "findEntry es i = Inr e" "change e = Inr out"
    and w1: "w1 = w" and es': "es' = store_entry out es" by (auto simp: bind_result_Inr)
  from e(1) have find: "find (\<lambda>e. je_actionId e = i) es = Some e"
    by (auto simp: findEntry_def split: option.split_asm)
  from find_SomeD [OF find] have mem: "e \<in> set es" and ei: "je_actionId e = i" by auto
  have keys: "\<forall>x\<in>set es'. normal_keys x"
  proof
    fix x assume "x \<in> set es'"
    then have "x \<in> set es \<or> x = out" unfolding es' store_entry_def by (auto dest: set_update_first_subset)
    moreover have "normal_keys out"
      using keep [OF e(2)] normal_keys_entries [OF written(2) mem] by (simp add: normal_keys_def)
    ultimately show "normal_keys x" using normal_keys_entries [OF written(2)] by auto
  qed
  have valid: "valid = es'" by (rule validateJournal_normal [OF written(4) keys])
  have "out \<in> set es'"
    using mem keep [OF e(2)] unfolding es' store_entry_def by (induction es) auto
  then have "good_entry env out" using journal_okD [OF written(7)] valid by auto
  moreover have "entry_at env w' = (entry_at env w)(i \<mapsto> out)"
  proof
    fix j
    have "entry_at env w' j = find (\<lambda>x. je_actionId x = j) (store_entry out es)"
      using entry_at_written [OF written(7)] written(6) valid es' by simp
    also have "\<dots> = (if j = i then Some out else find (\<lambda>x. je_actionId x = j) es)"
    proof -
      have "\<exists>x\<in>set es. je_actionId x = je_actionId out" using mem keep [OF e(2)] by auto
      from find_store_entry [OF this] show ?thesis using ei keep [OF e(2)] by simp
    qed
    finally show "entry_at env w' j = ((entry_at env w)(i \<mapsto> out)) j" using written(1) by (simp add: entry_at_def)
  qed
  moreover have "entry_at env w i = Some e" using written(1) find by (simp add: entry_at_def)
  ultimately show ?thesis using that(2) [of out e] e(2) written(5,6) w1 by auto
qed

section \<open>The life cycle of an entry\<close>

definition advance :: "ActionJournalEntry \<Rightarrow> ActionJournalState \<Rightarrow> int \<Rightarrow> TransitionMetadata \<Rightarrow> ActionJournalEntry" where
  "advance e nxt now md = e\<lparr>je_state := nxt, je_updatedAt := now,
     je_transitions := je_transitions e @ [transition_of (int (length (je_transitions e)) + 1) nxt now md]\<rparr>"

lemma advance_simps [simp]:
  "je_state (advance e nxt now md) = nxt" "je_risk (advance e nxt now md) = je_risk e"
  "je_generation (advance e nxt now md) = je_generation e" "je_actionId (advance e nxt now md) = je_actionId e"
  "je_actionDigest (advance e nxt now md) = je_actionDigest e" "je_capability (advance e nxt now md) = je_capability e"
  "je_resourceKeys (advance e nxt now md) = je_resourceKeys e" "je_updatedAt (advance e nxt now md) = now"
  "je_createdAt (advance e nxt now md) = je_createdAt e"
  "je_transitions (advance e nxt now md) =
     je_transitions e @ [transition_of (int (length (je_transitions e)) + 1) nxt now md]"
  by (simp_all add: advance_def)

text \<open>
  An abstract entry is created in \<open>PREPARED\<close>; advances by an allowed transition, where only a never
  dispatched mutation is interrupted and a mutation is completed with a verification digest only after an
  observation or a reconciliation; starts over as a completed read; and disappears when completed.
\<close>

inductive life_cycle :: "journal_env \<Rightarrow> ActionJournalEntry option \<Rightarrow> ActionJournalEntry option \<Rightarrow> bool" for env where
  same: "life_cycle env x x"
| created: "\<forall>old. x = Some old \<longrightarrow> je_state old = JCompleted \<Longrightarrow> je_state e = JPrepared \<Longrightarrow> je_generation e = 1
    \<Longrightarrow> je_transitions e = initial_transitions now \<Longrightarrow> life_cycle env x (Some e)"
| pruned: "je_state e = JCompleted \<Longrightarrow> life_cycle env (Some e) None"
| refreshed: "je_state e = JCompleted \<Longrightarrow> je_risk e = Read \<Longrightarrow> je_risk e' = Read \<Longrightarrow> je_state e' = JPrepared
    \<Longrightarrow> je_generation e' = je_generation e + 1 \<Longrightarrow> je_transitions e' = initial_transitions now
    \<Longrightarrow> life_cycle env (Some e) (Some e')"
| advanced: "allowedTransition (je_state e) nxt \<Longrightarrow> nxt \<noteq> JInterrupted
    \<Longrightarrow> (nxt = JCompleted \<and> je_risk e \<noteq> Read \<and> md_verificationDigest md \<noteq> None \<longrightarrow> je_state e \<in> {JObserved, JReconciled})
    \<Longrightarrow> life_cycle env (Some e) (Some (advance e nxt now md))"
| interrupted: "initially_prepared e \<or> initially_policy_deferred e \<Longrightarrow> je_risk e \<noteq> Read \<Longrightarrow> je_generation e = 1
    \<Longrightarrow> life_cycle env (Some e) (Some (advance e JInterrupted now (interruption_metadata env e)))"

inductive_cases life_cycle_SomeE: "life_cycle env (Some e) x"

abbreviation follows :: "journal_env \<Rightarrow> journal_world \<Rightarrow> journal_world \<Rightarrow> bool" where
  "follows env w w' \<equiv> \<forall>i. life_cycle env (entry_at env w i) (entry_at env w' i)"

lemma follows_file: "jw_file w' = jw_file w \<Longrightarrow> follows env w w'"
  using entry_at_file [of w' w env] by (simp add: life_cycle.same)

lemma applyTransition_Inr:
  "applyTransition e nxt now md = Inr e' \<Longrightarrow> e' = e \<or> (allowedTransition (je_state e) nxt \<and> e' = advance e nxt now md)"
  by (auto simp: applyTransition_def advance_def split: if_split_asm)

lemma applyTransition_frame:
  "applyTransition e nxt now md = Inr e' \<Longrightarrow> je_actionId e' = je_actionId e \<and> je_resourceKeys e' = je_resourceKeys e"
  by (auto simp: applyTransition_def split: if_split_asm)

lemma applyTransition_life_cycle:
  assumes "applyTransition e nxt now md = Inr e'" "nxt \<noteq> JInterrupted"
    and "nxt = JCompleted \<and> je_risk e \<noteq> Read \<and> md_verificationDigest md \<noteq> None \<longrightarrow> je_state e \<in> {JObserved, JReconciled}"
  shows "life_cycle env (Some e) (Some e')"
  using applyTransition_Inr [OF assms(1)] life_cycle.advanced [OF _ assms(2,3)] life_cycle.same by blast

lemma follows_mutate_entry:
  assumes "mutate_entry env i change w = (r, w')"
    and keep: "\<And>e e'. change e = Inr e' \<Longrightarrow> je_actionId e' = je_actionId e \<and> je_resourceKeys e' = je_resourceKeys e"
    and step: "\<And>e e'. entry_at env w i = Some e \<Longrightarrow> good_entry env e \<Longrightarrow> change e = Inr e'
      \<Longrightarrow> life_cycle env (Some e) (Some e')"
  shows "follows env w w'"
  using assms(1)
proof (cases rule: mutate_entry_cases)
  case (changed e e')
  then show ?thesis using step [OF changed(2) _ changed(3)] entry_atD [OF changed(2)] by (auto intro: life_cycle.same)
qed (auto simp: keep intro: life_cycle.same)

lemma follows_transition:
  assumes "journal_transition env now i nxt md w = (r, w')" "nxt \<noteq> JInterrupted"
    and "\<And>e. entry_at env w i = Some e \<Longrightarrow> nxt = JCompleted \<and> je_risk e \<noteq> Read \<and> md_verificationDigest md \<noteq> None
      \<Longrightarrow> je_state e \<in> {JObserved, JReconciled}"
  shows "follows env w w'"
  using assms(1) unfolding journal_transition_def
  by (rule follows_mutate_entry)
    (use assms(2,3) applyTransition_frame in \<open>blast intro: applyTransition_life_cycle\<close>)+

section \<open>Every operation follows the life cycle\<close>

lemma no_metadata_simps [simp]:
  "md_provider no_metadata = None" "md_resultDigest no_metadata = None"
  "md_verificationDigest no_metadata = None" "md_reconciliationStatus no_metadata = None"
  by (simp_all add: no_metadata_def)

lemma result_metadata_simps [simp]:
  "md_provider (result_metadata env r) = Some (ar_provider r)" "md_resultDigest (result_metadata env r) = Some (jv_result env r)"
  "md_verificationDigest (result_metadata env r) = None" "md_reconciliationStatus (result_metadata env r) = None"
  by (simp_all add: result_metadata_def)

lemma follows_markDispatched: "markDispatched env now i p w = (r, w') \<Longrightarrow> follows env w w'"
  by (auto simp: markDispatched_def life_cycle.same split: option.split_asm dest!: follows_transition)

lemma follows_defer: "defer_action env now i res w = (r, w') \<Longrightarrow> follows env w w'"
  by (auto simp: defer_action_def life_cycle.same split: option.split_asm dest!: follows_transition)

lemma observed_not_interrupted: "observed_state res \<noteq> JInterrupted"
  by (simp add: observed_state_def Let_def)

lemma follows_observe: "observe_action env now i res w = (r, w') \<Longrightarrow> follows env w w'"
  by (auto simp: observe_action_def life_cycle.same observed_not_interrupted
      split: option.split_asm dest!: follows_transition)

lemma follows_reconcile: "reconcile_action env now i rec w = (r, w') \<Longrightarrow> follows env w w'"
  unfolding reconcile_action_def by (erule follows_transition) auto

lemma interrupt_life_cycle:
  "initially_prepared e \<or> initially_policy_deferred e \<Longrightarrow> je_risk e \<noteq> Read \<Longrightarrow> je_generation e = 1
   \<Longrightarrow> applyTransition e JInterrupted now (interruption_metadata env e) = Inr e'
   \<Longrightarrow> life_cycle env (Some e) (Some e')"
  by (auto dest!: applyTransition_Inr intro: life_cycle.same life_cycle.interrupted)

lemma follows_interrupt: "interruptPreparedBeforeDispatch env action now w = (r, w') \<Longrightarrow> follows env w w'"
  unfolding interruptPreparedBeforeDispatch_def
  by (erule follows_mutate_entry)
    (auto simp: interrupt_entry_def split: if_split_asm dest: applyTransition_frame intro: interrupt_life_cycle life_cycle.same)

lemma follows_review: "interruptOperatorReviewedPolicyDeferral env oe input now w = (r, w') \<Longrightarrow> follows env w w'"
  unfolding interruptOperatorReviewedPolicyDeferral_def
  by (erule follows_mutate_entry)
    (auto simp: review_entry_def split: if_split_asm option.split_asm dest: applyTransition_frame intro: interrupt_life_cycle)

lemma follows_recover_commit: "recover_commit env now i staged w = (r, w') \<Longrightarrow> follows env w w'"
  unfolding recover_commit_def
  by (erule follows_mutate_entry)
    (auto simp: recover_entry_def split: if_split_asm option.split_asm
      dest: applyTransition_frame intro: life_cycle.same applyTransition_life_cycle)

lemma writeStagedResult_frame:
  "writeStagedResult env staged w = (r, w') \<Longrightarrow> jw_file w' = jw_file w \<and> jw_results w' = jw_results w"
  by (auto simp: writeStagedResult_def Let_def split: if_split_asm sum.split_asm option.split_asm)

lemma publishStagedResult_frame: "publishStagedResult env staged w = (r, w') \<Longrightarrow> jw_file w' = jw_file w"
  by (auto simp: publishStagedResult_def Let_def split: if_split_asm sum.split_asm option.split_asm durable.split_asm)

lemma reclaim_results_frame: "reclaim_results env ids w = (r, w') \<Longrightarrow> jw_file w' = jw_file w"
  by (induction env ids w rule: reclaim_results.induct) (auto simp: Let_def split: if_split_asm)

lemma store_entry_same: "find (\<lambda>x. je_actionId x = i) es = Some e \<Longrightarrow> store_entry e es = es"
  by (frule find_SomeD) (induction es, auto simp: store_entry_def split: if_split_asm)

lemma findEntry_Inr: "findEntry es i = Inr e \<Longrightarrow> find (\<lambda>x. je_actionId x = i) es = Some e"
  by (auto simp: findEntry_def split: option.split_asm)

text \<open>The staged result of a completion is written inside the mutation that completes the entry.\<close>

lemma commit_completion_cases:
  assumes "commit_completion env now i staged w = (r, w')"
  obtains (error) f where "r = Inl f" "jw_file w' = jw_file w"
    | (completed) e e' where "r = Inr e'" "entry_at env w i = Some e" "recover_entry now staged e = Inr e'"
        "entry_at env w' = (entry_at env w)(i \<mapsto> e')" "good_entry env e'"
        "je_state e = JCompleted \<and> jw_staged w' = jw_staged w \<or> je_state e \<in> {JObserved, JReconciled}
           \<and> (\<exists>w1. writeStagedResult env staged w = (Inr (), w1) \<and> jw_staged w' = jw_staged w1)"
        "jw_results w' = jw_results w"
  using assms unfolding commit_completion_def
proof (cases rule: mutate_journal_cases)
  case (files es r w1)
  then show ?case
    by (auto split: sum.split_asm option.split_asm if_split_asm prod.split_asm dest: writeStagedResult_frame)
next
  case (unchanged es rr)
  then show ?thesis using that(1) by blast
next
  case (written es out es' valid w1)
  from written(3) obtain e where e: "findEntry es i = Inr e" "assertStageMatchesEntry staged e = None"
    and change: "recover_entry now staged e = Inr out" "es' = store_entry out es"
    and files: "je_state e = JCompleted \<and> w1 = w \<or> je_state e \<in> {JObserved, JReconciled}
      \<and> writeStagedResult env staged w = (Inr (), w1)"
    by (auto simp: recover_entry_def bind_result_Inr store_entry_same [OF findEntry_Inr]
        split: sum.split_asm option.split_asm if_split_asm prod.split_asm)
  have frame: "je_actionId out = je_actionId e \<and> je_resourceKeys out = je_resourceKeys e"
    using change(1) by (auto simp: recover_entry_def split: if_split_asm option.split_asm dest: applyTransition_frame)
  have w1: "jw_file w1 = jw_file w" "jw_results w1 = jw_results w" using files writeStagedResult_frame by auto
  have same: "mutate_entry env i (recover_entry now staged) w = (Inr out, w\<lparr>jw_file := Stored valid\<rparr>)"
    using written e(1) change by (auto simp: mutate_entry_def mutate_journal_def bind_result_def)
  then show ?thesis
  proof (cases rule: mutate_entry_cases)
    case (keep e e')
    then show ?case by (auto simp: recover_entry_def split: if_split_asm option.split_asm dest: applyTransition_frame)
  next
    case (changed e2 e')
    have "e2 = e" using changed(2) findEntry_Inr [OF e(1)] written(1) by (simp add: entry_at_def)
    moreover have "entry_at env w' = entry_at env (w\<lparr>jw_file := Stored valid\<rparr>)"
      using written(6) by (intro entry_at_file) simp
    ultimately show ?thesis using that(2) [of out e] changed files written(5,6) w1 by auto
  qed simp
qed

lemma follows_complete_commit: "commit_completion env now i staged w = (r, w') \<Longrightarrow> follows env w w'"
proof (erule commit_completion_cases)
  fix e e' assume "entry_at env w i = Some e" "recover_entry now staged e = Inr e'"
    "entry_at env w' = (entry_at env w)(i \<mapsto> e')"
  then show ?thesis
    by (auto simp: recover_entry_def split: if_split_asm option.split_asm intro: life_cycle.same applyTransition_life_cycle)
qed (rule follows_file)

lemma find_unique_perm:
  assumes "distinct (map key xs)" "distinct (map key ys)" "set xs = set ys"
  shows "find (\<lambda>x. key x = k) xs = find (\<lambda>x. key x = k) ys"
proof (cases "find (\<lambda>x. key x = k) ys")
  case None
  then have "find (\<lambda>x. key x = k) xs = None" using assms(3) by (simp add: find_None_iff_all)
  with None show ?thesis by simp
next
  case (Some y)
  then have "find (\<lambda>x. key x = k) xs = Some y" using assms by (simp add: find_Some_iff_distinct)
  with Some show ?thesis by simp
qed

lemma find_snoc: "find p (xs @ [x]) = (case find p xs of Some y \<Rightarrow> Some y | None \<Rightarrow> if p x then Some x else None)"
  by (induction xs) auto

lemma find_retained:
  assumes "distinct (map je_actionId es)"
  shows "find (\<lambda>e. je_actionId e = j) (filter (retained now) es) = Some e \<Longrightarrow> find (\<lambda>e. je_actionId e = j) es = Some e"
    and "find (\<lambda>e. je_actionId e = j) (filter (retained now) es) = None \<Longrightarrow> find (\<lambda>e. je_actionId e = j) es = Some old
      \<Longrightarrow> je_state old = JCompleted"
proof -
  note dist = assms distinct_map_filter [OF assms, of "retained now"]
  show "find (\<lambda>e. je_actionId e = j) (filter (retained now) es) = Some e \<Longrightarrow> find (\<lambda>e. je_actionId e = j) es = Some e"
    by (simp add: find_Some_iff_distinct [OF dist(1)] find_Some_iff_distinct [OF dist(2)])
  show "find (\<lambda>e. je_actionId e = j) (filter (retained now) es) = None \<Longrightarrow> find (\<lambda>e. je_actionId e = j) es = Some old
      \<Longrightarrow> je_state old = JCompleted"
    by (auto simp: find_Some_iff_distinct [OF dist(1)] find_None_iff_all retained_def)
qed

lemma prepare_existing_Inr:
  assumes "prepare_existing env input now e = Inr e'"
  shows "je_actionId e' = je_actionId e" "je_resourceKeys e' = je_resourceKeys e" "life_cycle env (Some e) (Some e')"
proof -
  from assms have e': "e' = e \<or> (je_state e = JCompleted \<and> je_risk e = Read \<and> je_risk e' = Read \<and> je_state e' = JPrepared
      \<and> je_generation e' = je_generation e + 1 \<and> je_transitions e' = initial_transitions now
      \<and> je_actionId e' = je_actionId e \<and> je_resourceKeys e' = je_resourceKeys e)"
    by (auto simp: prepare_existing_def Let_def bind_result_Inr split: if_split_asm option.split_asm)
  then show "je_actionId e' = je_actionId e" "je_resourceKeys e' = je_resourceKeys e" by auto
  show "life_cycle env (Some e) (Some e')"
    using e' by (auto intro: life_cycle.same life_cycle.refreshed)
qed

lemma new_entry_Inr:
  assumes "new_entry env input now = Inr e"
  shows "je_actionId e = aq_id (pi_action input)" "normal_keys e" "je_state e = JPrepared" "je_generation e = 1"
    "je_transitions e = initial_transitions now"
  using assms uniqueKeys_idem
  by (auto simp: new_entry_def Let_def bind_result_Inr normal_keys_def split: option.split_asm)

lemma prepare_entries_cases:
  assumes "prepare_entries env input now kept = Inr (out, es')" "distinct (map je_actionId es')"
    and "\<forall>e\<in>set kept. normal_keys e"
  shows "\<forall>e\<in>set es'. normal_keys e"
    and "find (\<lambda>e. je_actionId e = j) es' =
      (if j = aq_id (pi_action input) then Some out else find (\<lambda>e. je_actionId e = j) kept)"
    and "case find (\<lambda>e. je_actionId e = aq_id (pi_action input)) kept of
        Some e \<Rightarrow> life_cycle env (Some e) (Some out)
      | None \<Rightarrow> je_state out = JPrepared \<and> je_generation out = 1 \<and> je_transitions out = initial_transitions now"
proof -
  let ?i = "aq_id (pi_action input)"
  have "(\<forall>e\<in>set es'. normal_keys e)
    \<and> find (\<lambda>e. je_actionId e = j) es' = (if j = ?i then Some out else find (\<lambda>e. je_actionId e = j) kept)
    \<and> (case find (\<lambda>e. je_actionId e = ?i) kept of Some e \<Rightarrow> life_cycle env (Some e) (Some out)
      | None \<Rightarrow> je_state out = JPrepared \<and> je_generation out = 1 \<and> je_transitions out = initial_transitions now)"
  proof (cases "find (\<lambda>e. je_actionId e = ?i) kept")
    case (Some e)
    with assms(1) have out: "prepare_existing env input now e = Inr out" "es' = store_entry out kept"
      by (auto simp: prepare_entries_def bind_result_Inr)
    note old = find_SomeD [OF Some] and facts = prepare_existing_Inr [OF out(1)]
    have "normal_keys out" using assms(3) old facts(2) by (auto simp: normal_keys_def)
    moreover have "\<exists>x\<in>set kept. je_actionId x = je_actionId out" using old facts(1) by auto
    ultimately show ?thesis
      using assms(3) Some old facts out(2) find_store_entry [of kept out j]
      by (auto simp: store_entry_def dest: set_update_first_subset)
  next
    case None
    with assms(1) have out: "new_entry env input now = Inr out"
      and es': "es' = sort_key (\<lambda>e. jv_collate env (je_actionId e)) (kept @ [out])"
      by (auto simp: prepare_entries_def bind_result_Inr split: if_split_asm)
    note facts = new_entry_Inr [OF out]
    have fresh: "je_actionId out \<notin> je_actionId ` set kept" using None facts(1) by (auto simp: find_None_iff_all)
    have sets: "set es' = set (kept @ [out])" by (simp add: es')
    have "mset (map je_actionId (kept @ [out])) = mset (map je_actionId es')" by (simp add: es')
    then have "distinct (map je_actionId (kept @ [out]))" using assms(2) mset_eq_imp_distinct_iff by blast
    from find_unique_perm [OF assms(2) this sets]
    have "find (\<lambda>e. je_actionId e = j) es' = find (\<lambda>e. je_actionId e = j) (kept @ [out])" .
    moreover have "find (\<lambda>e. je_actionId e = j) (kept @ [out])
        = (if j = ?i then Some out else find (\<lambda>e. je_actionId e = j) kept)"
      using None facts(1) by (auto simp: find_snoc split: option.split)
    ultimately show ?thesis using assms(3) facts sets None by auto
  qed
  then show "\<forall>e\<in>set es'. normal_keys e"
    "find (\<lambda>e. je_actionId e = j) es' = (if j = ?i then Some out else find (\<lambda>e. je_actionId e = j) kept)"
    "case find (\<lambda>e. je_actionId e = ?i) kept of Some e \<Rightarrow> life_cycle env (Some e) (Some out)
      | None \<Rightarrow> je_state out = JPrepared \<and> je_generation out = 1 \<and> je_transitions out = initial_transitions now"
    by blast+
qed

lemma follows_prepare:
  assumes "prepare env input now w = (r, w')"
  shows "follows env w w'"
  using assms unfolding prepare_def
proof (cases rule: mutate_journal_cases)
  case (files es r w1)
  then show ?case by (auto simp: pruneTerminal_def split: prod.split_asm sum.split_asm dest: reclaim_results_frame)
next
  case (unchanged es rr)
  then show ?thesis by (simp add: follows_file)
next
  case (written es out es' valid w1)
  let ?kept = "filter (retained now) es" and ?i = "aq_id (pi_action input)"
  have prep: "prepare_entries env input now ?kept = Inr (out, es')"
    using written(3) by (auto simp: pruneTerminal_def split: prod.split_asm sum.split_asm)
  have kept: "\<forall>e\<in>set ?kept. normal_keys e" using normal_keys_entries [OF written(2)] by auto
  have dist: "distinct (map je_actionId es')"
    using written(4) validate_journal_entries_Inr by (auto simp: validateJournal_def split: if_split_asm)
  note facts = prepare_entries_cases [OF prep dist kept]
  have valid: "valid = es'" by (rule validateJournal_normal [OF written(4) facts(1)])
  have es: "distinct (map je_actionId es)" using journal_okD [OF written(2)] by simp
  show ?thesis
  proof
    fix j
    have before: "entry_at env w j = find (\<lambda>e. je_actionId e = j) es" using written(1) by (simp add: entry_at_def)
    have after: "entry_at env w' j = (if j = ?i then Some out else find (\<lambda>e. je_actionId e = j) ?kept)"
      using entry_at_written [OF written(7)] written(6) valid facts(2) by simp
    show "life_cycle env (entry_at env w j) (entry_at env w' j)"
    proof (cases "find (\<lambda>e. je_actionId e = j) ?kept")
      case (Some e)
      with find_retained(1) [OF es Some] facts(3) before after show ?thesis
        by (auto intro: life_cycle.same)
    next
      case None
      note gone = find_retained(2) [OF es None]
      show ?thesis
      proof (cases "j = ?i")
        case True
        with None facts(3) before after gone show ?thesis by (auto intro!: life_cycle.created)
      next
        case False
        with None before after gone show ?thesis
          by (cases "find (\<lambda>e. je_actionId e = j) es") (auto intro: life_cycle.same life_cycle.pruned)
      qed
    qed
  qed
qed

end
