(* ===== verification/Intents.thy ===== *)
theory Intents
  imports JournalInv
begin

text \<open>
  Conversation intents: the intent kernel (\<open>src/core/intent-kernel.ts\<close>) and the registry over it
  (\<open>src/core/intent-registry.ts\<close>). A conversation has one durable file with its newest intent; an update
  writes the next version, bound by digest to the one before, and an action may go forward only under the
  newest version and only if its directive asks for progress. Arguments: SHA-256 over the JSON text of an
  intent, the UTF-8 length of a text, the size of the file and the clock.
\<close>

section \<open>State\<close>

datatype IntentDirective = DContinue | DRefine | DExtend | DPause | DCancel | DRedirect | DAuthorize | DRevoke

record IntentBase =
  ie_conversationId :: string
  ie_intentVersion :: int
  ie_objective :: string
  ie_authorizedScope :: "string list"
  ie_prohibitedScope :: "string list"
  ie_directive :: IntentDirective
  ie_sourceTurnId :: string
  ie_previousIntentDigest :: "string option"
  ie_createdAt :: int

record IntentEnvelope =
  ie_base :: IntentBase
  ie_digest :: string

type_synonym intent_files = "string \<Rightarrow> IntentEnvelope durable"

record intent_env =
  iv_digestOf :: "IntentBase \<Rightarrow> string"
  iv_utf8 :: "string \<Rightarrow> nat"
  iv_size :: "IntentEnvelope \<Rightarrow> nat"

definition INTENT_MAX_BYTES :: nat where "INTENT_MAX_BYTES = 1024 * 1024"

section \<open>Checks\<close>

definition intent_input_invalid :: failure where
  "intent_input_invalid = OperatorError ''INTENT_INPUT_INVALID''"

definition intent_corrupt :: failure where
  "intent_corrupt = OperatorError ''INTENT_STATE_CORRUPT''"

definition boundedId :: "string \<Rightarrow> string result" where
  "boundedId s = (if 1 \<le> length s \<and> length s \<le> 128 \<and> list_all key_char s then Inr s else Inl intent_input_invalid)"

definition intent_boundedText :: "intent_env \<Rightarrow> nat \<Rightarrow> string \<Rightarrow> string result" where
  "intent_boundedText env maxBytes s =
     (if s = [] \<or> nul_char \<in> set s \<or> iv_utf8 env s > maxBytes then Inl intent_input_invalid else Inr s)"

definition uniqueText :: "intent_env \<Rightarrow> nat \<Rightarrow> nat \<Rightarrow> string list \<Rightarrow> string list result" where
  "uniqueText env maxItems maxBytes xs =
     (if length xs > maxItems then Inl intent_input_invalid
      else case for_all_throw (\<lambda>s. case intent_boundedText env maxBytes s of Inl e \<Rightarrow> Some e | Inr _ \<Rightarrow> None) xs of Some e \<Rightarrow> Inl e
      | None \<Rightarrow> if distinct xs then Inr xs else Inl intent_input_invalid)"

definition intent_digest :: "string \<Rightarrow> string result" where
  "intent_digest s = (if hex64_lower (to_lower s) then Inr (to_lower s) else Inl intent_corrupt)"

definition intent_integer :: "int \<Rightarrow> int \<Rightarrow> int \<Rightarrow> int result" where
  "intent_integer n low high = (if \<not> is_safe_integer n \<or> n < low \<or> n > high then Inl intent_corrupt else Inr n)"

definition validateEnvelope :: "intent_env \<Rightarrow> IntentEnvelope \<Rightarrow> IntentEnvelope result" where
  "validateEnvelope env raw =
     (let b = ie_base raw in
      bind_result (boundedId (ie_conversationId b)) (\<lambda>_.
      bind_result (intent_integer (ie_intentVersion b) 1 max_safe_integer) (\<lambda>_.
      bind_result (intent_boundedText env (256 * 1024) (ie_objective b)) (\<lambda>_.
      bind_result (uniqueText env 1000 4096 (ie_authorizedScope b)) (\<lambda>_.
      bind_result (uniqueText env 1000 4096 (ie_prohibitedScope b)) (\<lambda>_.
      bind_result (boundedId (ie_sourceTurnId b)) (\<lambda>_.
      bind_result (case ie_previousIntentDigest b of None \<Rightarrow> Inr None
                   | Some d \<Rightarrow> map_sum id Some (intent_digest d)) (\<lambda>previous.
      bind_result (intent_digest (ie_digest raw)) (\<lambda>actual.
        let base = b\<lparr>ie_previousIntentDigest := previous\<rparr> in
        if actual \<noteq> iv_digestOf env base then Inl intent_corrupt
        else Inr \<lparr>ie_base = base, ie_digest = actual\<rparr>)))))))))"

section \<open>Intent kernel\<close>

definition current_intent :: "intent_env \<Rightarrow> string \<Rightarrow> IntentEnvelope durable \<Rightarrow> IntentEnvelope option result" where
  "current_intent env conversationId stored =
     (case stored of Missing \<Rightarrow> Inr None
      | Unreadable \<Rightarrow> Inl intent_corrupt
      | Stored raw \<Rightarrow> bind_result (validateEnvelope env raw) (\<lambda>e.
          if ie_conversationId (ie_base e) \<noteq> conversationId then Inl intent_corrupt else Inr (Some e)))"

record intent_input =
  ii_objective :: string
  ii_authorizedScope :: "string list option"
  ii_prohibitedScope :: "string list option"
  ii_directive :: IntentDirective
  ii_sourceTurnId :: string

definition next_base ::
  "intent_env \<Rightarrow> string \<Rightarrow> int \<Rightarrow> intent_input \<Rightarrow> IntentEnvelope option \<Rightarrow> IntentBase result" where
  "next_base env conversationId now input previous =
     bind_result (intent_boundedText env (256 * 1024) (ii_objective input)) (\<lambda>objective.
     bind_result (uniqueText env 1000 4096 (case ii_authorizedScope input of None \<Rightarrow> [] | Some xs \<Rightarrow> xs)) (\<lambda>authorized.
     bind_result (uniqueText env 1000 4096 (case ii_prohibitedScope input of None \<Rightarrow> [] | Some xs \<Rightarrow> xs)) (\<lambda>prohibited.
     bind_result (boundedId (ii_sourceTurnId input)) (\<lambda>turn.
       Inr \<lparr>ie_conversationId = conversationId,
         ie_intentVersion = (case previous of None \<Rightarrow> 0 | Some p \<Rightarrow> ie_intentVersion (ie_base p)) + 1,
         ie_objective = objective, ie_authorizedScope = authorized, ie_prohibitedScope = prohibited,
         ie_directive = ii_directive input, ie_sourceTurnId = turn,
         ie_previousIntentDigest = map_option ie_digest previous, ie_createdAt = now\<rparr>))))"

definition update_intent ::
  "intent_env \<Rightarrow> string \<Rightarrow> int \<Rightarrow> intent_input \<Rightarrow> IntentEnvelope durable \<Rightarrow> IntentEnvelope result" where
  "update_intent env conversationId now input stored =
     bind_result (current_intent env conversationId stored) (\<lambda>previous.
       if (case previous of None \<Rightarrow> False | Some p \<Rightarrow> ie_intentVersion (ie_base p) \<ge> max_safe_integer)
       then Inl (OperatorError ''INTENT_VERSION_EXHAUSTED'')
       else bind_result (next_base env conversationId now input previous) (\<lambda>base.
         let result = \<lparr>ie_base = base, ie_digest = iv_digestOf env base\<rparr> in
         if iv_size env result > INTENT_MAX_BYTES then Inl intent_corrupt else Inr result))"

definition assertCurrent_kernel ::
  "intent_env \<Rightarrow> string \<Rightarrow> int \<Rightarrow> string \<Rightarrow> IntentEnvelope durable \<Rightarrow> IntentEnvelope result" where
  "assertCurrent_kernel env conversationId intentVersion digest stored =
     bind_result (current_intent env conversationId stored) (\<lambda>current.
       case current of None \<Rightarrow> Inl (OperatorError ''INTENT_NOT_FOUND'')
       | Some e \<Rightarrow> if ie_intentVersion (ie_base e) \<noteq> intentVersion \<or> ie_digest e \<noteq> digest
           then Inl (OperatorError ''INTENT_STALE'') else Inr e)"

section \<open>Registry\<close>

definition current_of :: "intent_env \<Rightarrow> string \<Rightarrow> intent_files \<Rightarrow> IntentEnvelope option result" where
  "current_of env conversationId files =
     bind_result (boundedId conversationId) (\<lambda>i. current_intent env i (files i))"

definition update_registry ::
  "intent_env \<Rightarrow> int \<Rightarrow> string \<Rightarrow> intent_input \<Rightarrow> intent_files \<Rightarrow> (IntentEnvelope \<times> intent_files) result" where
  "update_registry env now conversationId input files =
     bind_result (boundedId conversationId) (\<lambda>i.
     bind_result (update_intent env i now input (files i)) (\<lambda>e. Inr (e, files(i := Stored e))))"

definition assertCurrent :: "intent_env \<Rightarrow> intent_files \<Rightarrow> IntentBinding \<Rightarrow> IntentEnvelope result" where
  "assertCurrent env files binding =
     bind_result (validIntentBinding binding) (\<lambda>b.
     bind_result (boundedId (ib_conversationId b)) (\<lambda>i.
       assertCurrent_kernel env i (ib_intentVersion b) (ib_digest b) (files i)))"

definition assertExecutable :: "intent_env \<Rightarrow> intent_files \<Rightarrow> IntentBinding \<Rightarrow> IntentEnvelope result" where
  "assertExecutable env files binding =
     bind_result (assertCurrent env files binding) (\<lambda>intent.
       if ie_directive (ie_base intent) \<in> {DPause, DCancel, DRevoke} then Inl (OperatorError ''INTENT_NOT_EXECUTABLE'')
       else Inr intent)"

definition bindingForIntent :: "IntentEnvelope \<Rightarrow> IntentBinding" where
  "bindingForIntent e =
     \<lparr>ib_conversationId = ie_conversationId (ie_base e), ib_intentVersion = ie_intentVersion (ie_base e), ib_digest = ie_digest e\<rparr>"

section \<open>Only the newest intent\<close>

lemma boundedId_Inr: "boundedId s = Inr t \<longleftrightarrow> t = s \<and> 1 \<le> length s \<and> length s \<le> 128 \<and> list_all key_char s"
  by (auto simp: boundedId_def)

lemma intent_boundedText_Inr: "intent_boundedText env n s = Inr t \<longleftrightarrow> t = s \<and> s \<noteq> [] \<and> nul_char \<notin> set s \<and> iv_utf8 env s \<le> n"
  by (auto simp: intent_boundedText_def)

lemma uniqueText_stable: "uniqueText env n m xs = Inr ys \<Longrightarrow> uniqueText env n m ys = Inr ys"
  by (auto simp: uniqueText_def split: if_split_asm option.split_asm)

lemmas intent_checks = bind_result_Inr boundedId_Inr intent_boundedText_Inr intent_integer_def

text \<open>What is read back keeps the conversation and the version that are stored.\<close>

lemma validateEnvelope_keeps:
  "validateEnvelope env raw = Inr e \<Longrightarrow> ie_conversationId (ie_base e) = ie_conversationId (ie_base raw)
     \<and> ie_intentVersion (ie_base e) = ie_intentVersion (ie_base raw) \<and> 1 \<le> ie_intentVersion (ie_base e)
     \<and> hex64_lower (ie_digest e)"
  by (auto simp: validateEnvelope_def Let_def intent_checks intent_digest_def split: if_split_asm)

lemma current_intent_Some:
  "current_intent env i stored = Inr (Some e) \<longleftrightarrow> (\<exists>raw. stored = Stored raw \<and> validateEnvelope env raw = Inr e \<and> ie_conversationId (ie_base e) = i)"
  by (auto simp: current_intent_def bind_result_Inr split: durable.splits if_split_asm)

lemma update_intent_Inr:
  assumes "update_intent env i now input stored = Inr e"
  obtains previous where "current_intent env i stored = Inr previous" "next_base env i now input previous = Inr (ie_base e)"
    "ie_digest e = iv_digestOf env (ie_base e)"
    "previous = None \<or> (\<exists>p. previous = Some p \<and> ie_intentVersion (ie_base p) < max_safe_integer)"
  using assms by (fastforce simp: update_intent_def bind_result_Inr Let_def split: if_split_asm option.split_asm)

lemma next_base_Inr:
  "next_base env i now input previous = Inr base \<Longrightarrow> ie_conversationId base = i
     \<and> ie_intentVersion base = (case previous of None \<Rightarrow> 0 | Some p \<Rightarrow> ie_intentVersion (ie_base p)) + 1
     \<and> ie_previousIntentDigest base = map_option ie_digest previous \<and> ie_directive base = ii_directive input"
  by (auto simp: next_base_def bind_result_Inr)

lemma next_base_checks:
  assumes "next_base env i now input previous = Inr base"
  shows "intent_boundedText env (256 * 1024) (ie_objective base) = Inr (ie_objective base)"
    "uniqueText env 1000 4096 (ie_authorizedScope base) = Inr (ie_authorizedScope base)"
    "uniqueText env 1000 4096 (ie_prohibitedScope base) = Inr (ie_prohibitedScope base)"
    "boundedId (ie_sourceTurnId base) = Inr (ie_sourceTurnId base)"
proof -
  from assms obtain objective authorized prohibited turn where
    "intent_boundedText env (256 * 1024) (ii_objective input) = Inr objective" "boundedId (ii_sourceTurnId input) = Inr turn"
    "uniqueText env 1000 4096 (case ii_authorizedScope input of None \<Rightarrow> [] | Some xs \<Rightarrow> xs) = Inr authorized"
    "uniqueText env 1000 4096 (case ii_prohibitedScope input of None \<Rightarrow> [] | Some xs \<Rightarrow> xs) = Inr prohibited"
    and base: "ie_objective base = objective" "ie_authorizedScope base = authorized" "ie_prohibitedScope base = prohibited"
      "ie_sourceTurnId base = turn"
    by (auto simp: next_base_def bind_result_Inr)
  then show "intent_boundedText env (256 * 1024) (ie_objective base) = Inr (ie_objective base)"
    "uniqueText env 1000 4096 (ie_authorizedScope base) = Inr (ie_authorizedScope base)"
    "uniqueText env 1000 4096 (ie_prohibitedScope base) = Inr (ie_prohibitedScope base)"
    "boundedId (ie_sourceTurnId base) = Inr (ie_sourceTurnId base)"
    by (auto simp: intent_boundedText_Inr boundedId_Inr intro: uniqueText_stable)
qed

text \<open>An intent that was written is read back unchanged.\<close>

lemma update_reads_back:
  assumes "update_intent env i now input stored = Inr e" "boundedId i = Inr i" "\<And>b. hex64_lower (iv_digestOf env b)"
  shows "current_intent env i (Stored e) = Inr (Some e)"
proof -
  from assms(1) obtain previous where previous: "current_intent env i stored = Inr previous"
    and base: "next_base env i now input previous = Inr (ie_base e)" and digest: "ie_digest e = iv_digestOf env (ie_base e)"
    and room: "previous = None \<or> (\<exists>p. previous = Some p \<and> ie_intentVersion (ie_base p) < max_safe_integer)"
    by (rule update_intent_Inr)
  have old: "case previous of None \<Rightarrow> True | Some p \<Rightarrow> 1 \<le> ie_intentVersion (ie_base p) \<and> hex64_lower (ie_digest p)"
    using previous by (auto simp: current_intent_Some split: option.split dest: validateEnvelope_keeps)
  note facts = next_base_Inr [OF base]
  have version: "intent_integer (ie_intentVersion (ie_base e)) 1 max_safe_integer = Inr (ie_intentVersion (ie_base e))"
    using facts old room by (auto simp: intent_integer_def is_safe_integer_def max_safe_integer_def split: option.split_asm)
  have chain: "(case ie_previousIntentDigest (ie_base e) of None \<Rightarrow> Inr None | Some d \<Rightarrow> map_sum id Some (intent_digest d))
      = Inr (ie_previousIntentDigest (ie_base e))"
    using facts old by (auto simp: intent_digest_def hex64_lower_id split: option.split)
  have own: "intent_digest (ie_digest e) = Inr (ie_digest e)" "boundedId (ie_conversationId (ie_base e)) = Inr (ie_conversationId (ie_base e))"
    using assms(2,3) digest facts by (simp_all add: intent_digest_def hex64_lower_id)
  have "validateEnvelope env e = Inr e"
    unfolding validateEnvelope_def Let_def own version next_base_checks [OF base] chain bind_result_Inr_left by (simp add: digest)
  then show ?thesis using facts by (simp add: current_intent_Some)
qed

text \<open>
  Histories of the registry: updates of any conversations in any order. The version of a conversation that
  has an intent never goes back.
\<close>

datatype intent_op = IntentUpdate int string intent_input

fun intent_step :: "intent_env \<Rightarrow> intent_files \<Rightarrow> intent_op \<Rightarrow> intent_files result" where
  "intent_step env files (IntentUpdate now conversationId input) = map_sum id snd (update_registry env now conversationId input files)"

definition reached_version :: "string \<Rightarrow> int \<Rightarrow> intent_files \<Rightarrow> bool" where
  "reached_version i n files \<longleftrightarrow> (\<exists>e. files i = Stored e \<and> n \<le> ie_intentVersion (ie_base e))"

lemma update_advances:
  assumes "update_intent env i now input stored = Inr e"
  shows "ie_conversationId (ie_base e) = i" "stored = Stored p \<Longrightarrow> ie_intentVersion (ie_base p) < ie_intentVersion (ie_base e)"
proof -
  from assms obtain previous where previous: "current_intent env i stored = Inr previous"
    and base: "next_base env i now input previous = Inr (ie_base e)" by (rule update_intent_Inr)
  show "ie_conversationId (ie_base e) = i" using next_base_Inr [OF base] by simp
  show "ie_intentVersion (ie_base p) < ie_intentVersion (ie_base e)" if "stored = Stored p"
    using next_base_Inr [OF base] previous that
    by (auto simp: current_intent_def bind_result_Inr split: if_split_asm dest: validateEnvelope_keeps)
qed

lemma intent_step_reached:
  assumes "reached_version i n files" "intent_step env files op = Inr files'"
  shows "reached_version i n files'"
proof (cases op)
  case (IntentUpdate now c input)
  with assms(2) obtain e where e: "update_intent env c now input (files c) = Inr e" "files' = files(c := Stored e)"
    by (auto simp: update_registry_def bind_result_Inr boundedId_Inr map_sum_def split: sum.split_asm)
  show ?thesis using assms(1) update_advances(2) [OF e(1)] e(2) by (fastforce simp: reached_version_def)
qed

interpretation intents: transactional_store "intent_step env" "reached_version i n" "\<lambda>_ _. True" for env i n
  by unfold_locales (rule intent_step_reached)

lemma assertCurrent_kernel_Inr:
  "assertCurrent_kernel env i n d stored = Inr e
     \<longleftrightarrow> current_intent env i stored = Inr (Some e) \<and> ie_intentVersion (ie_base e) = n \<and> ie_digest e = d"
  by (auto simp: assertCurrent_kernel_def bind_result_Inr split: option.splits if_split_asm)

lemma assertExecutable_Inr:
  assumes "assertExecutable env files b = Inr e"
  shows "\<exists>raw. files (ib_conversationId b) = Stored raw \<and> ie_intentVersion (ie_base raw) = ib_intentVersion b"
proof -
  from assms have "assertCurrent_kernel env (ib_conversationId b) (ib_intentVersion b) (to_lower (ib_digest b)) (files (ib_conversationId b)) = Inr e"
    by (auto simp: assertExecutable_def assertCurrent_def bind_result_Inr boundedId_Inr validIntentBinding_def split: if_split_asm)
  then show ?thesis by (auto simp: assertCurrent_kernel_Inr current_intent_Some dest: validateEnvelope_keeps)
qed

text \<open>
  C22. Only the newest intent of a conversation authorises progress. Right after an update the binding of the new
  intent is executable exactly when its directive is not pause, cancel or revoke; and from then on, whatever
  updates of any conversations follow, a binding to an older version of that conversation is refused.
\<close>

theorem newest_intent_only:
  assumes "update_registry env now c input files = Inr (e, files')" "\<And>b. hex64_lower (iv_digestOf env b)"
  shows "((\<exists>r. assertExecutable env files' (bindingForIntent e) = Inr r) \<longleftrightarrow> ii_directive input \<notin> {DPause, DCancel, DRevoke})
    \<and> (\<forall>b later. ib_conversationId b = c \<and> ib_intentVersion b < ie_intentVersion (ie_base e)
        \<longrightarrow> (\<exists>err. assertExecutable env (run_ops (intent_step env) files' later) b = Inl err))"
proof -
  from assms(1) have c: "boundedId c = Inr c" and e: "update_intent env c now input (files c) = Inr e" and files': "files' = files(c := Stored e)"
    by (auto simp: update_registry_def bind_result_Inr boundedId_Inr)
  obtain previous where base: "next_base env c now input previous = Inr (ie_base e)" and d: "ie_digest e = iv_digestOf env (ie_base e)"
    using e by (rule update_intent_Inr)
  have reads: "current_intent env c (Stored e) = Inr (Some e)" by (rule update_reads_back [OF e c assms(2)])
  then have "boundedKey c = None" "is_safe_integer (ie_intentVersion (ie_base e))" "1 \<le> ie_intentVersion (ie_base e)"
    using c by (auto simp: boundedId_Inr boundedKey_def current_intent_Some validateEnvelope_def Let_def bind_result_Inr intent_integer_def
        split: if_split_asm)
  then have "validIntentBinding (bindingForIntent e) = Inr (bindingForIntent e)"
    using assms(2) d next_base_Inr [OF base] by (simp add: validIntentBinding_def bindingForIntent_def hex64_lower_id)
  then have "assertCurrent env files' (bindingForIntent e) = Inr e"
    using reads c next_base_Inr [OF base] files'
    by (simp add: assertCurrent_def assertCurrent_kernel_def bind_result_Inr_left bindingForIntent_def)
  then have "(\<exists>r. assertExecutable env files' (bindingForIntent e) = Inr r) \<longleftrightarrow> ii_directive input \<notin> {DPause, DCancel, DRevoke}"
    using next_base_Inr [OF base] by (auto simp: assertExecutable_def bind_result_Inr_left)
  moreover have "\<exists>err. assertExecutable env (run_ops (intent_step env) files' later) b = Inl err"
    if b: "ib_conversationId b = c" "ib_intentVersion b < ie_intentVersion (ie_base e)" for b later
  proof (cases "assertExecutable env (run_ops (intent_step env) files' later) b")
    case (Inr r)
    have "reached_version c (ie_intentVersion (ie_base e)) files'" by (simp add: reached_version_def files')
    then have "reached_version c (ie_intentVersion (ie_base e)) (run_ops (intent_step env) files' later)" by (rule intents.run_inv) simp
    with assertExecutable_Inr [OF Inr] b show ?thesis by (auto simp: reached_version_def)
  qed simp
  ultimately show ?thesis by blast
qed

definition demo_intent_env :: intent_env where
  "demo_intent_env = \<lparr>iv_digestOf = (\<lambda>b. replicate 64 (if ie_intentVersion b = 1 then CHR ''a'' else CHR ''b'')),
     iv_utf8 = length, iv_size = (\<lambda>_. 100)\<rparr>"

definition demo_turn :: "string \<Rightarrow> IntentDirective \<Rightarrow> intent_input" where
  "demo_turn turn d = \<lparr>ii_objective = ''deploy'', ii_authorizedScope = None, ii_prohibitedScope = Some [''prod''], ii_directive = d, ii_sourceTurnId = turn\<rparr>"

definition demo_first :: IntentEnvelope where
  "demo_first = (let b = \<lparr>ie_conversationId = ''c'', ie_intentVersion = 1, ie_objective = ''deploy'', ie_authorizedScope = [],
     ie_prohibitedScope = [''prod''], ie_directive = DContinue, ie_sourceTurnId = ''t1'', ie_previousIntentDigest = None, ie_createdAt = 5\<rparr>
     in \<lparr>ie_base = b, ie_digest = iv_digestOf demo_intent_env b\<rparr>)"

text \<open>A first intent, then a revocation: its binding is not executable, and the binding of the first intent is stale for ever.\<close>

definition demo_second :: IntentEnvelope where
  "demo_second = (let b = (ie_base demo_first)\<lparr>ie_intentVersion := 2, ie_directive := DRevoke, ie_sourceTurnId := ''t2'',
       ie_previousIntentDigest := Some (ie_digest demo_first), ie_createdAt := 6\<rparr>
     in \<lparr>ie_base = b, ie_digest = iv_digestOf demo_intent_env b\<rparr>)"

lemma demo_digests_hex: "hex64_lower (iv_digestOf demo_intent_env b)"
  by (simp add: demo_intent_env_def hex64_lower_def list_all_iff is_hex_lower_def is_digit_def char_in_def)

lemma demo_ids_bounded: "boundedId ''c'' = Inr ''c''" "boundedId ''t1'' = Inr ''t1''" "boundedId ''t2'' = Inr ''t2''"
  by (simp_all add: boundedId_def key_char_def is_lower_def is_digit_def char_in_def)

lemmas demo_update_defs = bind_result_def update_intent_def next_base_def intent_boundedText_def uniqueText_def demo_turn_def
  demo_intent_env_def demo_second_def demo_first_def Let_def nul_char_def INTENT_MAX_BYTES_def max_safe_integer_def demo_ids_bounded

lemma demo_first_update: "update_intent demo_intent_env ''c'' 5 (demo_turn ''t1'' DContinue) Missing = Inr demo_first"
  by (simp add: demo_update_defs current_intent_def)

lemma demo_second_update:
  "update_registry demo_intent_env 6 ''c'' (demo_turn ''t2'' DRevoke) ((\<lambda>_. Missing)(''c'' := Stored demo_first))
   = Inr (demo_second, (\<lambda>_. Missing)(''c'' := Stored demo_second))"
  using update_reads_back [OF demo_first_update demo_ids_bounded(1) demo_digests_hex]
  by (simp add: update_registry_def demo_update_defs)

theorem newest_intent_only_witness:
  "\<not> (\<exists>r. assertExecutable demo_intent_env ((\<lambda>_. Missing)(''c'' := Stored demo_second)) (bindingForIntent demo_second) = Inr r)
   \<and> (\<exists>err. assertExecutable demo_intent_env (run_ops (intent_step demo_intent_env) ((\<lambda>_. Missing)(''c'' := Stored demo_second))
        [IntentUpdate 7 ''c'' (demo_turn ''t3'' DContinue)]) (bindingForIntent demo_first) = Inl err)"
proof -
  have older: "ib_conversationId (bindingForIntent demo_first) = ''c'' \<and> ib_intentVersion (bindingForIntent demo_first) < ie_intentVersion (ie_base demo_second)"
    by (simp add: bindingForIntent_def demo_first_def demo_second_def Let_def)
  have revoked: "ii_directive (demo_turn ''t2'' DRevoke) = DRevoke" by (simp add: demo_turn_def)
  note newest = newest_intent_only [OF demo_second_update demo_digests_hex]
  show ?thesis
    using conjunct1 [OF newest] conjunct2 [OF newest, rule_format, OF older, of "[IntentUpdate 7 ''c'' (demo_turn ''t3'' DContinue)]"]
    unfolding revoked by blast
qed

end
