(* ===== verification/Leases.thy ===== *)
theory Leases
  imports ResourceIdentity ProcessInstance
begin

text \<open>
  The resource lease store (\<open>src/core/resource-leases.ts\<close>): shared and exclusive leases over resource
  keys, the quarantine of resources with an unresolved mutation, and the reaping of owners that are
  proven dead. The state file is a value of \<open>lease_file\<close>; a mutation reads it, validates it, runs,
  validates the outcome and writes it, under a lock that serialises mutations, so an error leaves the
  file as it was. Arguments: \<open>collate\<close>, the collation key behind \<open>localeCompare\<close>; the fresh lease
  identifier; the clock; the identity of this process; and the observer of other processes.
\<close>

section \<open>State\<close>

datatype ResourceLeaseMode = Shared | Exclusive

record Holder =
  ho_leaseId :: string
  ho_ownerId :: string
  ho_pid :: int
  ho_processInstance :: "ProcessInstanceIdentity option"
  ho_mode :: ResourceLeaseMode
  ho_acquiredAt :: int

record ResourceEntry =
  re_key :: string
  re_holders :: "Holder list"

record ResourceQuarantine =
  rq_actionId :: string
  rq_key :: string
  rq_armedAt :: int

record LeaseState =
  ls_resources :: "ResourceEntry list"
  ls_quarantines :: "ResourceQuarantine list"

text \<open>The state as it is stored, with its schema version; version 1 has no quarantines.\<close>

record raw_lease_state =
  rl_version :: int
  rl_resources :: "ResourceEntry list"
  rl_quarantines :: "ResourceQuarantine list option"

datatype lease_file = AbsentFile | UnreadableFile | StoredFile raw_lease_state

definition MAX_RESOURCES :: nat where "MAX_RESOURCES = 20000"
definition MAX_HOLDERS :: nat where "MAX_HOLDERS = 512"
definition MAX_QUARANTINES :: nat where "MAX_QUARANTINES = 20000"

section \<open>Validation\<close>

definition bounded :: "string \<Rightarrow> nat \<Rightarrow> failure option" where
  "bounded s n = (if length s < 1 \<or> length s > n \<or> nul_char \<in> set s
                  then Some (OperatorError ''RESOURCE_LEASE_INPUT_INVALID'') else None)"

definition normalizeKeys :: "string list \<Rightarrow> string list result" where
  "normalizeKeys input =
     (if length input > 5000 then Inl (OperatorError ''RESOURCE_LEASE_INPUT_INVALID'')
      else case for_all_throw (\<lambda>v. bounded v 1024) input of Some e \<Rightarrow> Inl e
           | None \<Rightarrow>
              (let keys = unique_sorted input in
               if list_ex (\<lambda>key. nul_char \<in> set key \<or> includes_str key ''..'') keys
               then Inl (OperatorError ''RESOURCE_LEASE_INPUT_INVALID'') else Inr keys))"

definition lease_uuid :: "string \<Rightarrow> bool" where
  "lease_uuid s \<longleftrightarrow> length s = 36 \<and> list_all (\<lambda>c. is_hex c \<or> c = CHR ''-'') s"

definition corrupt :: failure where
  "corrupt = OperatorError ''RESOURCE_LEASE_CORRUPT''"

definition validate_holder :: "string list \<Rightarrow> Holder \<Rightarrow> failure option" where
  "validate_holder ids holder =
     (if \<not> lease_uuid (ho_leaseId holder) \<or> ho_leaseId holder \<in> set ids then Some corrupt
      else case bounded (ho_ownerId holder) 256 of Some e \<Rightarrow> Some e
           | None \<Rightarrow>
              (if \<not> is_safe_integer (ho_pid holder) \<or> ho_pid holder < 1 then Some corrupt
               else case ho_processInstance holder of None \<Rightarrow> None
                    | Some stored \<Rightarrow>
                       (case validProcessInstance stored of None \<Rightarrow> Some corrupt
                        | Some identity \<Rightarrow> if pi_pid identity \<noteq> ho_pid holder then Some corrupt else None)))"

fun validate_holders :: "string list \<Rightarrow> Holder list \<Rightarrow> failure option" where
  "validate_holders ids [] = None"
| "validate_holders ids (h # hs) =
     (case validate_holder ids h of Some e \<Rightarrow> Some e | None \<Rightarrow> validate_holders (ho_leaseId h # ids) hs)"

fun validate_entries :: "string list \<Rightarrow> ResourceEntry list \<Rightarrow> failure option" where
  "validate_entries keys [] = None"
| "validate_entries keys (e # es) =
     (case bounded (re_key e) 1024 of Some err \<Rightarrow> Some err
      | None \<Rightarrow>
         (if re_key e \<in> set keys then Some corrupt
          else if length (re_holders e) > MAX_HOLDERS then Some corrupt
          else case validate_holders [] (re_holders e) of Some err \<Rightarrow> Some err
               | None \<Rightarrow> validate_entries (re_key e # keys) es))"

definition quarantine_identity :: "ResourceQuarantine \<Rightarrow> string" where
  "quarantine_identity q = rq_actionId q @ nul_char # rq_key q"

fun validate_quarantines :: "string list \<Rightarrow> ResourceQuarantine list \<Rightarrow> failure option" where
  "validate_quarantines ids [] = None"
| "validate_quarantines ids (q # qs) =
     (case bounded (rq_actionId q) 512 of Some e \<Rightarrow> Some e
      | None \<Rightarrow> (case bounded (rq_key q) 1024 of Some e \<Rightarrow> Some e
         | None \<Rightarrow>
            (if quarantine_identity q \<in> set ids then Some corrupt
             else validate_quarantines (quarantine_identity q # ids) qs)))"

definition validateState :: "raw_lease_state \<Rightarrow> LeaseState result" where
  "validateState raw =
     (if (rl_version raw \<noteq> 1 \<and> rl_version raw \<noteq> 2) \<or> length (rl_resources raw) > MAX_RESOURCES
      then Inl corrupt
      else case validate_entries [] (rl_resources raw) of Some e \<Rightarrow> Inl e
           | None \<Rightarrow>
              (if rl_version raw = 1 \<and> rl_quarantines raw \<noteq> None then Inl corrupt
               else case (if rl_version raw = 1 then Some [] else rl_quarantines raw) of
                      None \<Rightarrow> Inl corrupt
                    | Some quarantines \<Rightarrow>
                        (if length quarantines > MAX_QUARANTINES then Inl corrupt
                         else case validate_quarantines [] quarantines of Some e \<Rightarrow> Inl e
                              | None \<Rightarrow> Inr \<lparr>ls_resources = rl_resources raw, ls_quarantines = quarantines\<rparr>)))"

definition empty_leases :: LeaseState where
  "empty_leases = \<lparr>ls_resources = [], ls_quarantines = []\<rparr>"

fun read_leases :: "lease_file \<Rightarrow> LeaseState result" where
  "read_leases AbsentFile = Inr empty_leases"
| "read_leases UnreadableFile = Inl corrupt"
| "read_leases (StoredFile raw) = validateState raw"

definition to_raw :: "LeaseState \<Rightarrow> raw_lease_state" where
  "to_raw st = \<lparr>rl_version = 2, rl_resources = ls_resources st, rl_quarantines = Some (ls_quarantines st)\<rparr>"

definition mutate :: "(LeaseState \<Rightarrow> LeaseState result) \<Rightarrow> lease_file \<Rightarrow> lease_file result" where
  "mutate mutator f =
     (case read_leases f of Inl e \<Rightarrow> Inl e
      | Inr st \<Rightarrow> (case mutator st of Inl e \<Rightarrow> Inl e
         | Inr st' \<Rightarrow> (case validateState (to_raw st') of Inl e \<Rightarrow> Inl e
            | Inr _ \<Rightarrow> Inr (StoredFile (to_raw st')))))"

section \<open>Reaping\<close>

text \<open>The observations made so far, one per PID; an observer that throws is \<open>None\<close>.\<close>

fun observe_all ::
  "(int \<Rightarrow> ProcessInstanceObservation option) \<Rightarrow> ProcessInstanceIdentity \<Rightarrow> Holder list
   \<Rightarrow> (int, ProcessInstanceObservation) jsmap \<Rightarrow> (int, ProcessInstanceObservation) jsmap" where
  "observe_all observer localInstance [] observations = observations"
| "observe_all observer localInstance (h # hs) observations =
     (if \<not> localPidObservationAdmissible (ho_processInstance h) localInstance
         \<or> jsmap_get observations (ho_pid h) \<noteq> None
      then observe_all observer localInstance hs observations
      else observe_all observer localInstance hs (jsmap_set observations (ho_pid h)
             (case observer (ho_pid h) of None \<Rightarrow> Unknown | Some seen \<Rightarrow> seen)))"

definition keep_holder ::
  "(string \<Rightarrow> int option) \<Rightarrow> (int, ProcessInstanceObservation) jsmap \<Rightarrow> ProcessInstanceIdentity \<Rightarrow> Holder \<Rightarrow> bool" where
  "keep_holder date_parse observations localInstance h =
     (if \<not> localPidObservationAdmissible (ho_processInstance h) localInstance then True
      else \<not> processInstanceDefinitelyStale date_parse (ho_processInstance h)
              (case jsmap_get observations (ho_pid h) of None \<Rightarrow> Unknown | Some seen \<Rightarrow> seen))"

definition filter_holders :: "(Holder \<Rightarrow> bool) \<Rightarrow> ResourceEntry list \<Rightarrow> ResourceEntry list" where
  "filter_holders keep resources =
     filter (\<lambda>e. re_holders e \<noteq> []) (map (\<lambda>e. e\<lparr>re_holders := filter keep (re_holders e)\<rparr>) resources)"

definition all_holders :: "ResourceEntry list \<Rightarrow> Holder list" where
  "all_holders resources = concat (map re_holders resources)"

definition reapDeadHolders ::
  "(string \<Rightarrow> int option) \<Rightarrow> (int \<Rightarrow> ProcessInstanceObservation option) \<Rightarrow> ProcessInstanceIdentity
   \<Rightarrow> LeaseState \<Rightarrow> LeaseState" where
  "reapDeadHolders date_parse observer localInstance st =
     (let observations = observe_all observer localInstance (all_holders (ls_resources st)) [] in
      st\<lparr>ls_resources := filter_holders (keep_holder date_parse observations localInstance) (ls_resources st)\<rparr>)"

section \<open>Operations\<close>

record lease_env =
  le_collate :: "string \<Rightarrow> string"
  le_date_parse :: "string \<Rightarrow> int option"

record ResourceLease =
  rh_id :: string
  rh_ownerId :: string
  rh_keys :: "string list"
  rh_mode :: ResourceLeaseMode
  rh_instance :: ProcessInstanceIdentity
  rh_released :: bool

definition quarantine_check :: "ResourceQuarantine list \<Rightarrow> string option \<Rightarrow> string \<Rightarrow> failure option" where
  "quarantine_check quarantines mutationActionId key =
     (case find (\<lambda>item. Some (rq_actionId item) \<noteq> mutationActionId \<and> resourceKeysConflict (rq_key item) key) quarantines of
        None \<Rightarrow> None | Some _ \<Rightarrow> Some (OperatorError ''RESOURCE_QUARANTINED''))"

definition busy_check :: "ResourceEntry list \<Rightarrow> ResourceLeaseMode \<Rightarrow> string \<Rightarrow> failure option" where
  "busy_check resources mode key =
     for_all_throw
       (\<lambda>entry. if filter (\<lambda>holder. mode = Exclusive \<or> ho_mode holder = Exclusive) (re_holders entry) \<noteq> []
                then Some (OperatorError ''RESOURCE_BUSY'') else None)
       (filter (\<lambda>item. resourceKeysConflict (re_key item) key) resources)"

definition push_holder :: "(string \<Rightarrow> string) \<Rightarrow> Holder \<Rightarrow> ResourceEntry \<Rightarrow> ResourceEntry" where
  "push_holder collate holder entry =
     entry\<lparr>re_holders := sort_key (\<lambda>h. collate (ho_leaseId h)) (re_holders entry @ [holder])\<rparr>"

fun add_holders ::
  "(string \<Rightarrow> string) \<Rightarrow> Holder \<Rightarrow> string list \<Rightarrow> ResourceEntry list \<Rightarrow> ResourceEntry list result" where
  "add_holders collate holder [] resources = Inr resources"
| "add_holders collate holder (key # keys) resources =
     (case find (\<lambda>item. re_key item = key) resources of
        None \<Rightarrow>
          (if length resources \<ge> MAX_RESOURCES then Inl (OperatorError ''RESOURCE_LEASE_LIMIT'')
           else add_holders collate holder keys
                  (resources @ [push_holder collate holder \<lparr>re_key = key, re_holders = []\<rparr>]))
      | Some entry \<Rightarrow>
          (if length (re_holders entry) \<ge> MAX_HOLDERS then Inl (OperatorError ''RESOURCE_LEASE_LIMIT'')
           else add_holders collate holder keys
                  (update_first (\<lambda>item. re_key item = key) (push_holder collate holder) resources)))"

definition acquire_mutator ::
  "lease_env \<Rightarrow> (int \<Rightarrow> ProcessInstanceObservation option) \<Rightarrow> Holder \<Rightarrow> ProcessInstanceIdentity \<Rightarrow> string list
   \<Rightarrow> string option \<Rightarrow> LeaseState \<Rightarrow> LeaseState result" where
  "acquire_mutator env observer holder processInstance keys mutationActionId st0 =
     (let st = reapDeadHolders (le_date_parse env) observer processInstance st0;
          mode = ho_mode holder in
      case (if mode = Exclusive then for_all_throw (quarantine_check (ls_quarantines st) mutationActionId) keys
            else None) of Some e \<Rightarrow> Inl e
      | None \<Rightarrow> (case for_all_throw (busy_check (ls_resources st) mode) keys of Some e \<Rightarrow> Inl e
         | None \<Rightarrow> (case add_holders (le_collate env) holder keys (ls_resources st) of Inl e \<Rightarrow> Inl e
            | Inr resources \<Rightarrow>
                Inr (st\<lparr>ls_resources := sort_key (\<lambda>e. le_collate env (re_key e)) resources\<rparr>))))"

definition acquire ::
  "lease_env \<Rightarrow> (int \<Rightarrow> ProcessInstanceObservation option) \<Rightarrow> ProcessInstanceIdentity \<Rightarrow> string \<Rightarrow> int
   \<Rightarrow> string \<Rightarrow> string list \<Rightarrow> ResourceLeaseMode \<Rightarrow> string option \<Rightarrow> lease_file \<Rightarrow> (ResourceLease \<times> lease_file) result" where
  "acquire env observer processInstance leaseId now ownerId keysInput mode mutationActionId f =
     (case bounded ownerId 256 of Some e \<Rightarrow> Inl e
      | None \<Rightarrow> (case normalizeKeys keysInput of Inl e \<Rightarrow> Inl e
         | Inr keys \<Rightarrow>
           (case (case mutationActionId of None \<Rightarrow> None | Some m \<Rightarrow> bounded m 512) of Some e \<Rightarrow> Inl e
            | None \<Rightarrow>
              (let lease = \<lparr>rh_id = leaseId, rh_ownerId = ownerId, rh_keys = keys, rh_mode = mode,
                            rh_instance = processInstance, rh_released = False\<rparr>;
                   holder = \<lparr>ho_leaseId = leaseId, ho_ownerId = ownerId, ho_pid = pi_pid processInstance,
                             ho_processInstance = Some processInstance, ho_mode = mode, ho_acquiredAt = now\<rparr> in
               if keys = [] then Inr (lease, f)
               else case mutate (acquire_mutator env observer holder processInstance keys mutationActionId) f of
                      Inl e \<Rightarrow> Inl e
                    | Inr f' \<Rightarrow> Inr (lease, f')))))"

definition owns_key :: "lease_env \<Rightarrow> ResourceLease \<Rightarrow> LeaseState \<Rightarrow> string \<Rightarrow> bool" where
  "owns_key env lease st key =
     (case find (\<lambda>item. re_key item = key) (ls_resources st) of None \<Rightarrow> False
      | Some entry \<Rightarrow>
          list_ex (\<lambda>h. ho_leaseId h = rh_id lease \<and> ho_ownerId h = rh_ownerId lease
                   \<and> ho_pid h = pi_pid (rh_instance lease) \<and> ho_processInstance h \<noteq> None
                   \<and> sameProcessInstance (le_date_parse env) (rh_instance lease) (ho_processInstance h)
                   \<and> ho_mode h = rh_mode lease) (re_holders entry))"

definition assertOwned :: "lease_env \<Rightarrow> ResourceLease \<Rightarrow> lease_file \<Rightarrow> unit result" where
  "assertOwned env lease f =
     (if rh_released lease then Inl (OperatorError ''RESOURCE_LEASE_LOST'')
      else if rh_keys lease = [] then Inr ()
      else case read_leases f of Inl e \<Rightarrow> Inl e
           | Inr st \<Rightarrow>
               (if list_all (owns_key env lease st) (rh_keys lease) then Inr ()
                else Inl (OperatorError ''RESOURCE_LEASE_LOST'')))"

definition release_mutator :: "string \<Rightarrow> LeaseState \<Rightarrow> LeaseState result" where
  "release_mutator leaseId st =
     Inr (st\<lparr>ls_resources := filter_holders (\<lambda>h. ho_leaseId h \<noteq> leaseId) (ls_resources st)\<rparr>)"

definition release :: "ResourceLease \<Rightarrow> lease_file \<Rightarrow> (ResourceLease \<times> lease_file) result" where
  "release lease f =
     (if rh_released lease then Inr (lease, f)
      else if rh_keys lease = [] then Inr (lease\<lparr>rh_released := True\<rparr>, f)
      else case mutate (release_mutator (rh_id lease)) f of Inl e \<Rightarrow> Inl e
           | Inr f' \<Rightarrow> Inr (lease\<lparr>rh_released := True\<rparr>, f'))"

fun add_quarantines :: "string \<Rightarrow> int \<Rightarrow> string list \<Rightarrow> ResourceQuarantine list \<Rightarrow> ResourceQuarantine list result" where
  "add_quarantines actionId now [] qs = Inr qs"
| "add_quarantines actionId now (key # keys) qs =
     (if list_ex (\<lambda>item. rq_actionId item = actionId \<and> rq_key item = key) qs
      then add_quarantines actionId now keys qs
      else if length qs \<ge> MAX_QUARANTINES then Inl (OperatorError ''RESOURCE_QUARANTINE_LIMIT'')
      else add_quarantines actionId now keys
             (qs @ [\<lparr>rq_actionId = actionId, rq_key = key, rq_armedAt = now\<rparr>]))"

definition quarantine_mutator ::
  "lease_env \<Rightarrow> string \<Rightarrow> int \<Rightarrow> string list \<Rightarrow> LeaseState \<Rightarrow> LeaseState result" where
  "quarantine_mutator env actionId now keys st =
     (case for_all_throw (quarantine_check (ls_quarantines st) (Some actionId)) keys of Some e \<Rightarrow> Inl e
      | None \<Rightarrow> (case add_quarantines actionId now keys (ls_quarantines st) of Inl e \<Rightarrow> Inl e
         | Inr qs \<Rightarrow>
             Inr (st\<lparr>ls_quarantines :=
               sort_key (\<lambda>q. [le_collate env (rq_key q), le_collate env (rq_actionId q)]) qs\<rparr>)))"

definition quarantine :: "lease_env \<Rightarrow> string \<Rightarrow> int \<Rightarrow> string list \<Rightarrow> lease_file \<Rightarrow> lease_file result" where
  "quarantine env actionId now keysInput f =
     (case bounded actionId 512 of Some e \<Rightarrow> Inl e
      | None \<Rightarrow> (case normalizeKeys keysInput of Inl e \<Rightarrow> Inl e
         | Inr keys \<Rightarrow> (if keys = [] then Inr f else mutate (quarantine_mutator env actionId now keys) f)))"

definition clearQuarantine :: "string \<Rightarrow> lease_file \<Rightarrow> lease_file result" where
  "clearQuarantine actionId f =
     (case bounded actionId 512 of Some e \<Rightarrow> Inl e
      | None \<Rightarrow>
          mutate (\<lambda>st. Inr (st\<lparr>ls_quarantines := filter (\<lambda>item. rq_actionId item \<noteq> actionId) (ls_quarantines st)\<rparr>)) f)"

definition inspect_leases ::
  "lease_env \<Rightarrow> (int \<Rightarrow> ProcessInstanceObservation option) \<Rightarrow> ProcessInstanceIdentity \<Rightarrow> lease_file \<Rightarrow> LeaseState result" where
  "inspect_leases env observer localInstance f =
     (case read_leases f of Inl e \<Rightarrow> Inl e
      | Inr st \<Rightarrow> Inr (reapDeadHolders (le_date_parse env) observer localInstance st))"

section \<open>Histories\<close>

datatype lease_op =
    AcquireOp "int \<Rightarrow> ProcessInstanceObservation option" ProcessInstanceIdentity string int string "string list"
      ResourceLeaseMode "string option"
  | ReleaseOp ResourceLease
  | QuarantineOp string int "string list"
  | ClearOp string

fun lease_step :: "lease_env \<Rightarrow> lease_file \<Rightarrow> lease_op \<Rightarrow> lease_file result" where
  "lease_step env f (AcquireOp observer processInstance leaseId now ownerId keys mode mutationActionId) =
     map_sum id snd (acquire env observer processInstance leaseId now ownerId keys mode mutationActionId f)"
| "lease_step env f (ReleaseOp lease) = map_sum id snd (release lease f)"
| "lease_step env f (QuarantineOp actionId now keys) = quarantine env actionId now keys f"
| "lease_step env f (ClearOp actionId) = clearQuarantine actionId f"

section \<open>Interface: a table of grants over a conflict relation\<close>

type_synonym 'k grant = "string \<times> 'k \<times> ResourceLeaseMode"

definition exclusion :: "('k \<Rightarrow> 'k \<Rightarrow> bool) \<Rightarrow> 'k grant set \<Rightarrow> bool" where
  "exclusion conflict T \<longleftrightarrow>
     (\<forall>(l, k, m)\<in>T. \<forall>(l', k', m')\<in>T. conflict k k' \<and> l \<noteq> l' \<longrightarrow> m = Shared \<and> m' = Shared)"

text \<open>
  The store relies on one law of the conflict relation, its symmetry: a grant that was checked against
  the grants present then keeps the table exclusive in both directions.
\<close>

lemma exclusionD:
  "exclusion conflict T \<Longrightarrow> (l, k, m) \<in> T \<Longrightarrow> (l', k', m') \<in> T \<Longrightarrow> conflict k k' \<Longrightarrow> l \<noteq> l'
   \<Longrightarrow> m = Shared \<and> m' = Shared"
  unfolding exclusion_def by blast

lemma exclusionI:
  "(\<And>l k m l' k' m'. (l, k, m) \<in> T \<Longrightarrow> (l', k', m') \<in> T \<Longrightarrow> conflict k k' \<Longrightarrow> l \<noteq> l'
     \<Longrightarrow> m = Shared \<and> m' = Shared) \<Longrightarrow> exclusion conflict T"
  unfolding exclusion_def by blast

locale conflict_table =
  fixes conflict :: "'k \<Rightarrow> 'k \<Rightarrow> bool"
  assumes conflict_sym: "conflict a b \<Longrightarrow> conflict b a"
begin

lemma exclusion_mono: "exclusion conflict T \<Longrightarrow> U \<subseteq> T \<Longrightarrow> exclusion conflict U"
  by (rule exclusionI) (blast dest: exclusionD)

lemma exclusion_grant:
  assumes "exclusion conflict T"
    and free: "\<And>l k m k'. (l, k, m) \<in> T \<Longrightarrow> k' \<in> K \<Longrightarrow> conflict k k' \<Longrightarrow> m = Shared \<and> mode = Shared"
  shows "exclusion conflict (T \<union> (\<lambda>k. (lease, k, mode)) ` K)"
proof (rule exclusionI)
  fix l k m l' k' m'
  assume x: "(l, k, m) \<in> T \<union> (\<lambda>k. (lease, k, mode)) ` K" and y: "(l', k', m') \<in> T \<union> (\<lambda>k. (lease, k, mode)) ` K"
    and c: "conflict k k'" and ne: "l \<noteq> l'"
  show "m = Shared \<and> m' = Shared"
  proof (cases "(l, k, m) \<in> T")
    case True
    show ?thesis
    proof (cases "(l', k', m') \<in> T")
      case in2: True
      with True assms(1) c ne show ?thesis by (blast dest: exclusionD)
    next
      case False
      with y True c free show ?thesis by auto
    qed
  next
    case False
    with x y ne have "l = lease" "m = mode" "k \<in> K" "(l', k', m') \<in> T" by auto
    with c conflict_sym free show ?thesis by blast
  qed
qed

end

interpretation resource_conflicts: conflict_table resourceKeysConflict
  by unfold_locales (simp add: resourceKeysConflict_commute)

section \<open>Grants of a lease table\<close>

definition held :: "ResourceEntry list \<Rightarrow> (string \<times> Holder) list" where
  "held resources = concat (map (\<lambda>e. map (Pair (re_key e)) (re_holders e)) resources)"

definition grants :: "ResourceEntry list \<Rightarrow> string grant list" where
  "grants resources = map (\<lambda>(k, h). (ho_leaseId h, k, ho_mode h)) (held resources)"

lemma mem_held: "(k, h) \<in> set (held rs) \<longleftrightarrow> (\<exists>e\<in>set rs. re_key e = k \<and> h \<in> set (re_holders e))"
  by (force simp: held_def)

lemma mem_grants:
  "(l, k, m) \<in> set (grants rs) \<longleftrightarrow> (\<exists>h. (k, h) \<in> set (held rs) \<and> ho_leaseId h = l \<and> ho_mode h = m)"
  by (force simp: grants_def)

lemma held_append: "held (xs @ ys) = held xs @ held ys"
  by (simp add: held_def)

lemma held_sort_key [simp]: "set (held (sort_key f rs)) = set (held rs)"
  by (simp add: held_def)

lemma grants_sort_key [simp]: "set (grants (sort_key f rs)) = set (grants rs)"
  by (simp add: grants_def)

lemma held_filter_holders:
  "(k, h) \<in> set (held (filter_holders keep rs)) \<longleftrightarrow> (k, h) \<in> set (held rs) \<and> keep h"
  by (induction rs) (auto simp: held_def filter_holders_def filter_empty_conv)

lemma grants_filter_holders: "set (grants (filter_holders keep rs)) \<subseteq> set (grants rs)"
  by (auto simp: grants_def held_filter_holders)

lemma held_push: "set (held (push_holder collate h e # es)) = insert (re_key e, h) (set (held (e # es)))"
  by (auto simp: held_def push_holder_def)

lemma held_update_first:
  assumes "find (\<lambda>e. re_key e = key) rs \<noteq> None"
  shows "set (held (update_first (\<lambda>e. re_key e = key) (push_holder collate h) rs)) = insert (key, h) (set (held rs))"
  using assms
proof (induction rs)
  case (Cons e rs)
  show ?case
  proof (cases "re_key e = key")
    case True
    then show ?thesis using held_push [of collate h e rs] by simp
  next
    case False
    with Cons show ?thesis by (auto simp: held_def)
  qed
qed simp

lemma held_add_holders:
  "add_holders collate h keys rs = Inr rs' \<Longrightarrow> set (held rs') = set (held rs) \<union> (\<lambda>k. (k, h)) ` set keys"
proof (induction collate h keys rs arbitrary: rs' rule: add_holders.induct)
  case (2 collate holder key keys resources)
  show ?case
  proof (cases "find (\<lambda>e. re_key e = key) resources")
    case None
    with 2 show ?thesis
      by (auto simp: held_append held_push held_def push_holder_def split: if_splits)
  next
    case (Some e)
    with "2.prems" "2.IH"(2) [OF Some] held_update_first [of key resources collate holder]
    show ?thesis by (auto split: if_splits)
  qed
qed simp

lemma grants_add_holders:
  "add_holders collate h keys rs = Inr rs' \<Longrightarrow>
   set (grants rs') = set (grants rs) \<union> (\<lambda>k. (ho_leaseId h, k, ho_mode h)) ` set keys"
  by (simp add: grants_def held_add_holders image_Un image_image)

lemma busy_check_None:
  assumes "for_all_throw (busy_check rs mode) keys = None"
    and "(l, k, m) \<in> set (grants rs)" "k' \<in> set keys" "resourceKeysConflict k k'"
  shows "m = Shared \<and> mode = Shared"
proof -
  from assms(2) obtain e h where "e \<in> set rs" "re_key e = k" "h \<in> set (re_holders e)" "ho_mode h = m"
    by (auto simp: mem_grants mem_held)
  with assms(1,3,4) have "\<not> (mode = Exclusive \<or> m = Exclusive)"
    by (force simp: for_all_throw_None_iff busy_check_def filter_empty_conv split: if_splits)
  then show ?thesis by (cases m; cases mode) auto
qed

definition quarantines_exclusive :: "ResourceQuarantine list \<Rightarrow> bool" where
  "quarantines_exclusive qs \<longleftrightarrow>
     (\<forall>q\<in>set qs. \<forall>q'\<in>set qs. resourceKeysConflict (rq_key q) (rq_key q') \<longrightarrow> rq_actionId q = rq_actionId q')"

lemma quarantines_exclusiveD:
  "quarantines_exclusive qs \<Longrightarrow> q \<in> set qs \<Longrightarrow> q' \<in> set qs \<Longrightarrow> resourceKeysConflict (rq_key q) (rq_key q')
   \<Longrightarrow> rq_actionId q = rq_actionId q'"
  unfolding quarantines_exclusive_def by blast

lemma quarantines_exclusiveI:
  "(\<And>q q'. q \<in> set qs \<Longrightarrow> q' \<in> set qs \<Longrightarrow> resourceKeysConflict (rq_key q) (rq_key q')
     \<Longrightarrow> rq_actionId q = rq_actionId q') \<Longrightarrow> quarantines_exclusive qs"
  unfolding quarantines_exclusive_def by blast

definition lease_state_inv :: "LeaseState \<Rightarrow> bool" where
  "lease_state_inv st \<longleftrightarrow>
     exclusion resourceKeysConflict (set (grants (ls_resources st))) \<and> quarantines_exclusive (ls_quarantines st)"

definition lease_inv :: "lease_file \<Rightarrow> bool" where
  "lease_inv f = (case read_leases f of Inl _ \<Rightarrow> True | Inr st \<Rightarrow> lease_state_inv st)"

lemma validateState_to_raw: "validateState (to_raw st) = Inr st' \<Longrightarrow> st' = st"
  by (auto simp: validateState_def to_raw_def split: if_splits option.splits)

lemma mutate_InrE:
  assumes "mutate m f = Inr f'"
  obtains st st' where "read_leases f = Inr st" "m st = Inr st'" "read_leases f' = Inr st'"
    "f' = StoredFile (to_raw st')"
  using assms by (auto simp: mutate_def split: sum.splits dest: validateState_to_raw)

lemma mutate_inv:
  assumes "mutate m f = Inr f'" "lease_inv f"
    and "\<And>st st'. lease_state_inv st \<Longrightarrow> m st = Inr st' \<Longrightarrow> lease_state_inv st'"
  shows "lease_inv f'"
  using assms by (auto simp: lease_inv_def elim!: mutate_InrE)

lemma reap_inv: "lease_state_inv st \<Longrightarrow> lease_state_inv (reapDeadHolders dp ob pid st)"
  by (auto simp: lease_state_inv_def reapDeadHolders_def Let_def
      intro: resource_conflicts.exclusion_mono [OF _ grants_filter_holders])

lemma acquire_mutator_inv:
  assumes "lease_state_inv st0" "acquire_mutator env ob h pid keys maid st0 = Inr st'"
  shows "lease_state_inv st'"
proof -
  let ?st = "reapDeadHolders (le_date_parse env) ob pid st0"
  have inv: "lease_state_inv ?st" using assms(1) by (rule reap_inv)
  from assms(2) obtain rs where free: "for_all_throw (busy_check (ls_resources ?st) (ho_mode h)) keys = None"
    and add: "add_holders (le_collate env) h keys (ls_resources ?st) = Inr rs"
    and st': "st' = ?st\<lparr>ls_resources := sort_key (\<lambda>e. le_collate env (re_key e)) rs\<rparr>"
    by (auto simp: acquire_mutator_def Let_def split: option.splits sum.splits)
  have "exclusion resourceKeysConflict (set (grants (ls_resources ?st)) \<union> (\<lambda>k. (ho_leaseId h, k, ho_mode h)) ` set keys)"
    using inv busy_check_None [OF free]
    by (intro resource_conflicts.exclusion_grant) (auto simp: lease_state_inv_def)
  with inv show ?thesis by (simp add: st' lease_state_inv_def grants_add_holders [OF add])
qed

lemma set_add_quarantines:
  "add_quarantines a now keys qs = Inr qs' \<Longrightarrow>
   set qs \<subseteq> set qs' \<and> (\<forall>q\<in>set qs'. q \<in> set qs \<or> (rq_actionId q = a \<and> rq_key q \<in> set keys))
   \<and> (\<forall>k\<in>set keys. \<exists>q\<in>set qs'. rq_actionId q = a \<and> rq_key q = k)"
proof (induction a now keys qs arbitrary: qs' rule: add_quarantines.induct)
  case (2 a now key keys qs)
  show ?case
  proof (cases "list_ex (\<lambda>item. rq_actionId item = a \<and> rq_key item = key) qs")
    case True
    then obtain q where q: "q \<in> set qs" "rq_actionId q = a" "rq_key q = key" by (auto simp: list_ex_iff)
    from True "2.prems" have "add_quarantines a now keys qs = Inr qs'" by simp
    from "2.IH"(1) [OF True this] q show ?thesis by auto
  next
    case False
    let ?q = "\<lparr>rq_actionId = a, rq_key = key, rq_armedAt = now\<rparr>"
    from False "2.prems" have n: "\<not> MAX_QUARANTINES \<le> length qs"
      and "add_quarantines a now keys (qs @ [?q]) = Inr qs'" by (auto split: if_splits)
    from "2.IH"(2) [OF False n this(2)] have "set (qs @ [?q]) \<subseteq> set qs'"
      "\<forall>q\<in>set qs'. q \<in> set (qs @ [?q]) \<or> (rq_actionId q = a \<and> rq_key q \<in> set keys)"
      "\<forall>k\<in>set keys. \<exists>q\<in>set qs'. rq_actionId q = a \<and> rq_key q = k" by blast+
    then show ?thesis by auto force
  qed
qed simp

lemma quarantine_check_None_iff:
  "quarantine_check qs maid key = None \<longleftrightarrow>
     (\<forall>q\<in>set qs. resourceKeysConflict (rq_key q) key \<longrightarrow> Some (rq_actionId q) = maid)"
  by (auto simp: quarantine_check_def find_None_iff_all split: option.splits dest!: find_SomeD)

lemma quarantine_mutator_InrD:
  assumes "quarantine_mutator env a now keys st = Inr st'"
  shows "ls_resources st' = ls_resources st"
    and "set (ls_quarantines st) \<subseteq> set (ls_quarantines st')"
    and "q \<in> set (ls_quarantines st') \<Longrightarrow>
      q \<in> set (ls_quarantines st) \<or> (rq_actionId q = a \<and> rq_key q \<in> set keys)"
    and "k \<in> set keys \<Longrightarrow> \<exists>q\<in>set (ls_quarantines st'). rq_actionId q = a \<and> rq_key q = k"
    and "k \<in> set keys \<Longrightarrow> q \<in> set (ls_quarantines st) \<Longrightarrow> resourceKeysConflict (rq_key q) k \<Longrightarrow> rq_actionId q = a"
  using assms set_add_quarantines [of a now keys "ls_quarantines st"]
  by (auto simp: quarantine_mutator_def for_all_throw_None_iff quarantine_check_None_iff
      split: option.splits sum.splits)

lemma quarantine_mutator_inv:
  assumes inv: "lease_state_inv st" and m: "quarantine_mutator env a now keys st = Inr st'"
  shows "lease_state_inv st'"
proof -
  note D = quarantine_mutator_InrD [OF m]
  have "rq_actionId q = rq_actionId q'"
    if "q \<in> set (ls_quarantines st')" "q' \<in> set (ls_quarantines st')" "resourceKeysConflict (rq_key q) (rq_key q')"
    for q q'
  proof -
    note m1 = D(3) [OF that(1)] and m2 = D(3) [OF that(2)]
    have c': "resourceKeysConflict (rq_key q') (rq_key q)"
      using that(3) by (simp add: resourceKeysConflict_commute)
    consider (old) "q \<in> set (ls_quarantines st)" "q' \<in> set (ls_quarantines st)"
      | (left) "q \<in> set (ls_quarantines st)" "rq_actionId q' = a" "rq_key q' \<in> set keys"
      | (right) "q' \<in> set (ls_quarantines st)" "rq_actionId q = a" "rq_key q \<in> set keys"
      | (new) "rq_actionId q = a" "rq_actionId q' = a"
      using m1 m2 by blast
    then show ?thesis
    proof cases
      case old
      with inv that(3) show ?thesis unfolding lease_state_inv_def by (blast dest: quarantines_exclusiveD)
    qed (use D(5) that(3) c' in simp_all)
  qed
  then have "quarantines_exclusive (ls_quarantines st')" by (rule quarantines_exclusiveI)
  with inv D(1) show ?thesis by (simp add: lease_state_inv_def)
qed

lemma release_mutator_inv: "lease_state_inv st \<Longrightarrow> release_mutator l st = Inr st' \<Longrightarrow> lease_state_inv st'"
  using resource_conflicts.exclusion_mono [OF _ grants_filter_holders]
  by (auto simp: release_mutator_def lease_state_inv_def)

lemma clear_inv:
  "lease_state_inv st \<Longrightarrow> lease_state_inv (st\<lparr>ls_quarantines := filter p (ls_quarantines st)\<rparr>)"
  by (simp add: lease_state_inv_def quarantines_exclusive_def)

lemma lease_step_inv:
  assumes "lease_inv f" "lease_step env f op = Inr f'"
  shows "lease_inv f'"
proof (cases op)
  case (AcquireOp ob pid lid now owner keys mode maid)
  with assms show ?thesis
    by (auto simp: acquire_def Let_def split: option.splits sum.splits if_splits
        elim!: mutate_inv intro: acquire_mutator_inv)
next
  case (ReleaseOp lease)
  with assms show ?thesis
    by (auto simp: release_def split: sum.splits if_splits elim!: mutate_inv intro: release_mutator_inv)
next
  case (QuarantineOp a now keys)
  with assms show ?thesis
    by (auto simp: quarantine_def split: option.splits sum.splits if_splits elim!: mutate_inv
        intro: quarantine_mutator_inv)
next
  case (ClearOp a)
  with assms show ?thesis
    by (auto simp: clearQuarantine_def split: option.splits elim!: mutate_inv intro: clear_inv)
qed

interpretation lease_store: transactional_store "lease_step env" lease_inv "\<lambda>f op. True"
  by unfold_locales (blast intro: lease_step_inv)

lemma lease_inv_Absent [simp]: "lease_inv AbsentFile"
  by (simp add: lease_inv_def lease_state_inv_def empty_leases_def grants_def held_def exclusion_def quarantines_exclusive_def)

section \<open>Properties\<close>

lemma validate_entries_distinct:
  "validate_entries seen es = None \<Longrightarrow> distinct (map re_key es) \<and> set seen \<inter> re_key ` set es = {}"
  by (induction seen es rule: validate_entries.induct) (auto split: option.splits if_splits)

lemma read_leases_distinct: "read_leases f = Inr st \<Longrightarrow> distinct (map re_key (ls_resources st))"
  by (cases f) (auto simp: empty_leases_def validateState_def dest!: validate_entries_distinct
      split: if_splits option.splits)

lemma owns_key_held:
  assumes "distinct (map re_key (ls_resources st))"
  shows "owns_key env lease st key \<longleftrightarrow>
    (\<exists>h. (key, h) \<in> set (held (ls_resources st)) \<and> ho_leaseId h = rh_id lease \<and> ho_ownerId h = rh_ownerId lease
       \<and> ho_pid h = pi_pid (rh_instance lease) \<and> ho_processInstance h \<noteq> None
       \<and> sameProcessInstance (le_date_parse env) (rh_instance lease) (ho_processInstance h)
       \<and> ho_mode h = rh_mode lease)"
proof (cases "find (\<lambda>e. re_key e = key) (ls_resources st)")
  case None
  then have "\<forall>e\<in>set (ls_resources st). re_key e \<noteq> key" by (simp add: find_None_iff_all)
  with None show ?thesis by (auto simp: owns_key_def mem_held)
next
  case (Some e)
  have "(key, h) \<in> set (held (ls_resources st)) \<longleftrightarrow> h \<in> set (re_holders e)" for h
    using find_SomeD [OF Some] assms by (auto simp: mem_held distinct_map inj_on_def)
  then show ?thesis using Some by (auto simp: owns_key_def list_ex_iff)
qed

lemma assertOwned_grant:
  assumes "assertOwned env lease f = Inr ()" "k \<in> set (rh_keys lease)"
  obtains st where "read_leases f = Inr st" "(rh_id lease, k, rh_mode lease) \<in> set (grants (ls_resources st))"
proof -
  from assms obtain st where st: "read_leases f = Inr st" "owns_key env lease st k"
    by (cases "rh_keys lease") (auto simp: assertOwned_def list_all_iff split: if_splits sum.splits)
  with owns_key_held [OF read_leases_distinct [OF st(1)]] that show ?thesis by (auto simp: mem_grants)
qed

text \<open>
  C1. Mutual exclusion. In every state file that any sequence of acquisitions, releases, quarantines
  and reapings can produce from an empty store, two leases that both pass \<open>assertOwned\<close> and hold
  conflicting keys, one of them exclusively, are the same lease.
\<close>

theorem lease_mutual_exclusion:
  assumes "f = run_ops (lease_step env) AbsentFile history"
    and "assertOwned env a f = Inr ()" "assertOwned env b f = Inr ()"
    and "k \<in> set (rh_keys a)" "k' \<in> set (rh_keys b)" "resourceKeysConflict k k'" "rh_mode a = Exclusive"
  shows "rh_id a = rh_id b"
proof (rule ccontr)
  assume ne: "rh_id a \<noteq> rh_id b"
  obtain st where st: "read_leases f = Inr st" and ga: "(rh_id a, k, rh_mode a) \<in> set (grants (ls_resources st))"
    using assertOwned_grant [OF assms(2,4)] .
  obtain st' where "read_leases f = Inr st'" "(rh_id b, k', rh_mode b) \<in> set (grants (ls_resources st'))"
    using assertOwned_grant [OF assms(3,5)] .
  with st have gb: "(rh_id b, k', rh_mode b) \<in> set (grants (ls_resources st))" by simp
  have "lease_inv f" using lease_store.run_inv [of AbsentFile env history] by (simp add: assms(1))
  then have "exclusion resourceKeysConflict (set (grants (ls_resources st)))"
    by (simp add: lease_inv_def st lease_state_inv_def)
  from exclusionD [OF this ga gb assms(6) ne] assms(7) show False by simp
qed

text \<open>
  A granted lease is owned: right after \<open>acquire\<close> returns, \<open>assertOwned\<close> accepts the handle
  against the file that was written.
\<close>

theorem acquired_lease_is_owned:
  assumes "acquire env observer pid leaseId now ownerId keys mode maid f = Inr (lease, f')"
  shows "assertOwned env lease f' = Inr ()"
proof (cases "rh_keys lease = []")
  case True
  with assms show ?thesis
    by (auto simp: acquire_def assertOwned_def Let_def split: option.splits sum.splits if_splits)
next
  case False
  let ?h = "\<lparr>ho_leaseId = leaseId, ho_ownerId = ownerId, ho_pid = pi_pid pid, ho_processInstance = Some pid,
    ho_mode = mode, ho_acquiredAt = now\<rparr>"
  from assms False obtain ks where
    m: "mutate (acquire_mutator env observer ?h pid ks maid) f = Inr f'"
    and lease: "lease = \<lparr>rh_id = leaseId, rh_ownerId = ownerId, rh_keys = ks, rh_mode = mode, rh_instance = pid,
      rh_released = False\<rparr>"
    by (auto simp: acquire_def Let_def split: option.splits sum.splits if_splits)
  from m obtain st st' where am: "acquire_mutator env observer ?h pid ks maid st = Inr st'"
    and st': "read_leases f' = Inr st'" by (rule mutate_InrE)
  have "(k, ?h) \<in> set (held (ls_resources st'))" if "k \<in> set ks" for k
    using am that by (auto simp: acquire_mutator_def Let_def held_add_holders split: option.splits sum.splits)
  then have "owns_key env lease st' k" if "k \<in> set ks" for k
    using that owns_key_held [OF read_leases_distinct [OF st']] by (force simp: lease)
  with False st' show ?thesis by (simp add: assertOwned_def lease list_all_iff)
qed

text \<open>How one operation changes who holds what.\<close>

definition reaps :: "lease_env \<Rightarrow> lease_file \<Rightarrow> lease_op \<Rightarrow> Holder \<Rightarrow> bool" where
  "reaps env f op h =
     (case op of
        AcquireOp observer pid leaseId now ownerId keys mode maid \<Rightarrow>
          (case read_leases f of Inl _ \<Rightarrow> False
           | Inr st \<Rightarrow>
               localPidObservationAdmissible (ho_processInstance h) pid
               \<and> processInstanceDefinitelyStale (le_date_parse env) (ho_processInstance h)
                   (case observer (ho_pid h) of None \<Rightarrow> Unknown | Some seen \<Rightarrow> seen))
      | ReleaseOp lease \<Rightarrow> rh_id lease = ho_leaseId h
      | _ \<Rightarrow> False)"

lemma observe_all_get:
  "jsmap_get (observe_all observer pid hs obs) p =
     (case jsmap_get obs p of Some seen \<Rightarrow> Some seen
      | None \<Rightarrow> (if \<exists>h\<in>set hs. ho_pid h = p \<and> localPidObservationAdmissible (ho_processInstance h) pid
                then Some (case observer p of None \<Rightarrow> Unknown | Some seen \<Rightarrow> seen) else None))"
  by (induction observer pid hs obs rule: observe_all.induct) (auto split: option.splits)

lemma held_reap:
  "(k, h) \<in> set (held (ls_resources (reapDeadHolders dp observer pid st))) \<longleftrightarrow>
     (k, h) \<in> set (held (ls_resources st))
     \<and> \<not> (localPidObservationAdmissible (ho_processInstance h) pid
          \<and> processInstanceDefinitelyStale dp (ho_processInstance h)
              (case observer (ho_pid h) of None \<Rightarrow> Unknown | Some seen \<Rightarrow> seen))"
proof -
  have "(k, h) \<in> set (held (ls_resources st)) \<Longrightarrow> h \<in> set (all_holders (ls_resources st))"
    by (auto simp: mem_held all_holders_def)
  then show ?thesis
    by (auto simp: reapDeadHolders_def Let_def held_filter_holders keep_holder_def observe_all_get)
qed

lemma held_step:
  assumes "lease_step env f op = Inr f'" "read_leases f = Inr st" "(k, h) \<in> set (held (ls_resources st))"
    and "\<not> reaps env f op h"
  shows "\<exists>st'. read_leases f' = Inr st' \<and> (k, h) \<in> set (held (ls_resources st'))"
proof (cases op)
  case (AcquireOp ob pid lid now owner keys mode maid)
  have *: "(k, h) \<in> set (held (ls_resources st'))" if "acquire_mutator env ob x pid ks maid st = Inr st'" for x ks st'
    using that assms(2-) AcquireOp
    by (auto simp: acquire_mutator_def Let_def reaps_def held_add_holders held_reap split: option.splits sum.splits)
  show ?thesis using assms(1-3) AcquireOp
    by (auto simp: acquire_def Let_def split: option.splits sum.splits if_splits elim!: mutate_InrE intro: *)
next
  case (ReleaseOp lease)
  with assms show ?thesis
    by (auto simp: release_def release_mutator_def reaps_def held_filter_holders split: sum.splits if_splits
        elim!: mutate_InrE)
next
  case (QuarantineOp a now keys)
  with assms show ?thesis
    by (auto simp: quarantine_def quarantine_mutator_InrD(1) split: option.splits sum.splits if_splits elim!: mutate_InrE)
next
  case (ClearOp a)
  with assms show ?thesis by (auto simp: clearQuarantine_def split: option.splits elim!: mutate_InrE)
qed

text \<open>
  A lease is lost only by its own release or by proof of its owner's death: through any sequence of
  operations none of which releases that lease or observes its owner as confirmed dead or replaced,
  from inside its PID namespace, the holder stays in the table.
\<close>

theorem lease_survives_others:
  assumes "read_leases f = Inr st" "(k, h) \<in> set (held (ls_resources st))"
    and "all_admissible (\<lambda>f op. \<not> reaps env f op h) (lease_step env) f history"
  shows "\<exists>st'. read_leases (run_ops (lease_step env) f history) = Inr st' \<and> (k, h) \<in> set (held (ls_resources st'))"
  using assms
proof (induction history arbitrary: f st)
  case (Cons op history)
  show ?case
  proof (cases "lease_step env f op")
    case (Inl e)
    with Cons show ?thesis by simp
  next
    case (Inr f')
    with Cons.prems held_step [OF Inr Cons.prems(1,2)] obtain st' where
      "read_leases f' = Inr st'" "(k, h) \<in> set (held (ls_resources st'))" by auto
    with Cons.IH Cons.prems(3) Inr show ?thesis by simp
  qed
qed simp

lemma quarantine_step:
  assumes "lease_step env f op = Inr f'" "read_leases f = Inr st" "q \<in> set (ls_quarantines st)"
    and "op \<noteq> ClearOp (rq_actionId q)"
  shows "\<exists>st'. read_leases f' = Inr st' \<and> q \<in> set (ls_quarantines st')"
proof (cases op)
  case (AcquireOp ob pid lid now owner keys mode maid)
  have *: "q \<in> set (ls_quarantines st')" if "acquire_mutator env ob x pid ks maid st = Inr st'" for x ks st'
    using that assms(3) by (auto simp: acquire_mutator_def Let_def reapDeadHolders_def split: option.splits sum.splits)
  show ?thesis using assms(1-3) AcquireOp
    by (auto simp: acquire_def Let_def split: option.splits sum.splits if_splits elim!: mutate_InrE intro: *)
next
  case (ReleaseOp lease)
  with assms show ?thesis
    by (auto simp: release_def release_mutator_def split: sum.splits if_splits elim!: mutate_InrE)
next
  case (QuarantineOp a now keys)
  with assms quarantine_mutator_InrD(2) show ?thesis
    by (auto simp: quarantine_def split: option.splits sum.splits if_splits elim!: mutate_InrE) blast
next
  case (ClearOp a)
  with assms show ?thesis by (auto simp: clearQuarantine_def split: option.splits elim!: mutate_InrE)
qed

lemma quarantine_run:
  assumes "read_leases f = Inr st" "q \<in> set (ls_quarantines st)" "ClearOp (rq_actionId q) \<notin> set history"
  shows "\<exists>st'. read_leases (run_ops (lease_step env) f history) = Inr st' \<and> q \<in> set (ls_quarantines st')"
  using assms
proof (induction history arbitrary: f st)
  case (Cons op history)
  show ?case
  proof (cases "lease_step env f op")
    case (Inr f')
    with Cons.prems quarantine_step [OF Inr Cons.prems(1,2)] obtain st' where
      "read_leases f' = Inr st'" "q \<in> set (ls_quarantines st')" by auto
    with Cons.IH Cons.prems(3) Inr show ?thesis by simp
  qed (use Cons in simp)
qed simp

lemma acquire_respects_quarantine:
  assumes "acquire env observer pid leaseId now ownerId keys Exclusive maid f = Inr (lease, f')"
    and "read_leases f = Inr st" "q \<in> set (ls_quarantines st)" "k \<in> set keys" "resourceKeysConflict (rq_key q) k"
  shows "Some (rq_actionId q) = maid"
proof -
  from assms(4) have "unique_sorted keys \<noteq> []" by auto
  let ?h = "\<lparr>ho_leaseId = leaseId, ho_ownerId = ownerId, ho_pid = pi_pid pid, ho_processInstance = Some pid,
    ho_mode = Exclusive, ho_acquiredAt = now\<rparr>"
  from assms(1,2) \<open>unique_sorted keys \<noteq> []\<close> obtain st' where
    "acquire_mutator env observer ?h pid (unique_sorted keys) maid st = Inr st'"
    by (auto simp: acquire_def normalizeKeys_def Let_def split: option.splits sum.splits if_splits elim!: mutate_InrE)
  with assms(3-5) show ?thesis
    by (auto simp: acquire_mutator_def Let_def reapDeadHolders_def for_all_throw_None_iff quarantine_check_None_iff
        split: option.splits sum.splits)
qed

text \<open>
  C31. A quarantine fences its resources: once action A has quarantined a key, no exclusive lease on a
  conflicting key is granted to any other action, whatever operations run in between, until A's own
  quarantine is cleared.
\<close>

theorem quarantine_fences_until_cleared:
  assumes "quarantine env a now keys f = Inr f'" "k \<in> set keys" "resourceKeysConflict k k'" "k' \<in> set keys'"
    and "ClearOp a \<notin> set history" "maid \<noteq> Some a"
  shows "\<exists>e. acquire env observer pid leaseId t ownerId keys' Exclusive maid
               (run_ops (lease_step env) f' history) = Inl e"
proof -
  from assms(1,2) obtain st' q where st': "read_leases f' = Inr st'"
    and q: "q \<in> set (ls_quarantines st')" "rq_actionId q = a" "rq_key q = k"
    by (auto simp: quarantine_def normalizeKeys_def Let_def split: option.splits sum.splits if_splits elim!: mutate_InrE
        dest: quarantine_mutator_InrD(4))
  from quarantine_run [OF st' q(1)] q(2) assms(5) obtain st'' where
    st'': "read_leases (run_ops (lease_step env) f' history) = Inr st''" "q \<in> set (ls_quarantines st'')" by auto
  show ?thesis
  proof (cases "acquire env observer pid leaseId t ownerId keys' Exclusive maid (run_ops (lease_step env) f' history)")
    case (Inr r)
    then have "Some (rq_actionId q) = maid"
      using acquire_respects_quarantine [OF _ st'' assms(4)] assms(3) q(3) by (cases r) auto
    with assms(6) q(2) show ?thesis by simp
  qed simp
qed

section \<open>Concrete runs\<close>

definition demo_env :: lease_env where
  "demo_env = \<lparr>le_collate = (\<lambda>s. s), le_date_parse = (\<lambda>s. None)\<rparr>"

definition demo_lease_id :: string where
  "demo_lease_id = ''01234567-89ab-cdef-0123-456789abcdef''"

definition demo_op :: lease_op where
  "demo_op = AcquireOp (\<lambda>p. Some Dead) (demo_identity ''15'') demo_lease_id 5 ''o'' [''file:/w/a''] Exclusive None"

definition demo_holder :: Holder where
  "demo_holder = \<lparr>ho_leaseId = demo_lease_id, ho_ownerId = ''o'', ho_pid = 7,
     ho_processInstance = Some (demo_identity ''15''), ho_mode = Exclusive, ho_acquiredAt = 5\<rparr>"

definition demo_lease :: ResourceLease where
  "demo_lease = \<lparr>rh_id = demo_lease_id, rh_ownerId = ''o'', rh_keys = [''file:/w/a''], rh_mode = Exclusive,
     rh_instance = demo_identity ''15'', rh_released = False\<rparr>"

definition demo_state :: LeaseState where
  "demo_state = \<lparr>ls_resources = [\<lparr>re_key = ''file:/w/a'', re_holders = [demo_holder]\<rparr>], ls_quarantines = []\<rparr>"

lemma demo_acquire:
  "acquire demo_env (\<lambda>p. Some Dead) (demo_identity ''15'') demo_lease_id 5 ''o'' [''file:/w/a''] Exclusive None AbsentFile
   = Inr (demo_lease, StoredFile (to_raw demo_state))"
  by code_simp

lemma demo_run: "run_ops (lease_step demo_env) AbsentFile [demo_op] = StoredFile (to_raw demo_state)"
  by (simp add: demo_op_def demo_acquire)

lemma demo_owned: "assertOwned demo_env demo_lease (StoredFile (to_raw demo_state)) = Inr ()"
  by code_simp

theorem acquired_lease_is_owned_witness:
  "assertOwned demo_env demo_lease (StoredFile (to_raw demo_state)) = Inr ()"
  by (rule acquired_lease_is_owned [OF demo_acquire])

theorem lease_mutual_exclusion_witness: "rh_id demo_lease = rh_id (demo_lease\<lparr>rh_keys := [''file:/w/a'']\<rparr>)"
  by (rule lease_mutual_exclusion [OF demo_run [symmetric] demo_owned, of _ "''file:/w/a''" "''file:/w/a''"])
    (use demo_owned in \<open>simp_all add: demo_lease_def\<close>)

theorem lease_survives_others_witness:
  "\<exists>st'. read_leases (run_ops (lease_step demo_env) (StoredFile (to_raw demo_state))
       [AcquireOp (\<lambda>p. Some (Live (Some (demo_identity ''15'')))) (demo_identity ''15'')
          ''11234567-89ab-cdef-0123-456789abcdef'' 9 ''p'' [''file:/w/a''] Shared None]) = Inr st'
     \<and> (''file:/w/a'', demo_holder) \<in> set (held (ls_resources st'))"
proof (rule lease_survives_others)
  show "read_leases (StoredFile (to_raw demo_state)) = Inr demo_state" by code_simp
  show "(''file:/w/a'', demo_holder) \<in> set (held (ls_resources demo_state))"
    by (simp add: demo_state_def held_def)
  show "all_admissible (\<lambda>f op. \<not> reaps demo_env f op demo_holder) (lease_step demo_env) (StoredFile (to_raw demo_state))
       [AcquireOp (\<lambda>p. Some (Live (Some (demo_identity ''15'')))) (demo_identity ''15'')
          ''11234567-89ab-cdef-0123-456789abcdef'' 9 ''p'' [''file:/w/a''] Shared None]"
    by (simp add: reaps_def processInstanceDefinitelyStale_def demo_holder_def linuxIdentityUpgradeUncertain_def
        split: sum.splits)
qed

theorem quarantine_fences_until_cleared_witness:
  "\<exists>e. acquire demo_env (\<lambda>p. None) (demo_identity ''15'') demo_lease_id 5 ''o'' [''file:/w/a''] Exclusive (Some ''B'')
     (run_ops (lease_step demo_env) (StoredFile (to_raw \<lparr>ls_resources = [],
        ls_quarantines = [\<lparr>rq_actionId = ''A'', rq_key = ''file:/w/a'', rq_armedAt = 3\<rparr>]\<rparr>)) [ClearOp ''B'']) = Inl e"
proof (rule quarantine_fences_until_cleared [where k = "''file:/w/a''" and k' = "''file:/w/a''"])
  show "quarantine demo_env ''A'' 3 [''file:/w/a''] AbsentFile = Inr (StoredFile (to_raw \<lparr>ls_resources = [],
      ls_quarantines = [\<lparr>rq_actionId = ''A'', rq_key = ''file:/w/a'', rq_armedAt = 3\<rparr>]\<rparr>))" by code_simp
qed simp_all

end
