(* ===== verification/Authority.thy ===== *)
theory Authority
  imports ResourceIdentity
begin

text \<open>
  The policy engine (\<open>src/core/policy.ts\<close>) and the authority kernel with its attenuating
  capability tokens (\<open>src/core/authority-kernel.ts\<close>). Arguments stand for the working directory,
  the clock, the fresh token identifier, the keyed MAC over a token's claims, and the router's
  dynamic risk resolution.
\<close>

section \<open>Policy engine\<close>

fun RISK_ORDER :: "ActionRisk \<Rightarrow> nat" where
  "RISK_ORDER Read = 0"
| "RISK_ORDER Write = 1"
| "RISK_ORDER External = 2"
| "RISK_ORDER System = 3"
| "RISK_ORDER Destructive = 4"

definition capabilityAllowed :: "string \<Rightarrow> string list \<Rightarrow> bool" where
  "capabilityAllowed capability allowed =
     list_ex (\<lambda>rule. rule = capability \<or> (ends_with rule ''.*'' \<and> starts_with capability (butlast rule))) allowed"

definition policyPath :: "string \<Rightarrow> string \<Rightarrow> string list \<Rightarrow> string option" where
  "policyPath cwd inputPath roots =
     (case normalizeScopedPathSyntax cwd inputPath of
        NativeAbsolute value \<Rightarrow> Some value
      | ForeignWindowsAbsolute value \<Rightarrow> None
      | Relative value \<Rightarrow>
          (case roots of [root] \<Rightarrow> Some (path_resolve2 cwd root value) | _ \<Rightarrow> None))"

definition operand_check :: "string \<Rightarrow> string list \<Rightarrow> string \<Rightarrow> failure option" where
  "operand_check cwd roots targetPath =
     (case policyPath cwd targetPath roots of
        None \<Rightarrow> Some (PolicyError ''PATH_OUTSIDE_SCOPE'')
      | Some candidate \<Rightarrow>
          (if list_ex (pathWithin cwd candidate) roots then None
           else Some (PolicyError ''PATH_OUTSIDE_SCOPE'')))"

definition authorizeBase :: "string \<Rightarrow> ActionRequest \<Rightarrow> PermissionProfile \<Rightarrow> unit result" where
  "authorizeBase cwd action permissions =
     (case assertInstructionAuthority (aq_provenance action) of Inl e \<Rightarrow> Inl e
      | Inr _ \<Rightarrow>
        (if \<not> capabilityAllowed (aq_capability action) (pp_allowedCapabilities permissions)
         then Inl (PolicyError ''CAPABILITY_DENIED'')
         else if pp_allowedRoots permissions = [] then Inr ()
         else case resourcePathOperandsForAction cwd action of Inl e \<Rightarrow> Inl e
              | Inr operands \<Rightarrow>
                  (case for_all_throw (operand_check cwd (pp_allowedRoots permissions)) operands of
                     Some e \<Rightarrow> Inl e | None \<Rightarrow> Inr ())))"

definition flag_set :: "bool option \<Rightarrow> bool" where
  "flag_set f \<longleftrightarrow> f = Some True"

definition approved_ids :: "PermissionProfile \<Rightarrow> string list" where
  "approved_ids permissions = (case pp_approvedActionIds permissions of None \<Rightarrow> [] | Some ids \<Rightarrow> ids)"

definition authorizeRisk :: "ActionRequest \<Rightarrow> PermissionProfile \<Rightarrow> unit result" where
  "authorizeRisk action permissions =
     (let approved = aq_id action \<in> set (approved_ids permissions) in
      if (case pp_maxRisk permissions of None \<Rightarrow> False
          | Some m \<Rightarrow> RISK_ORDER (aq_risk action) > RISK_ORDER m)
      then Inl (PolicyError ''RISK_CEILING_EXCEEDED'')
      else if aq_risk action = External \<and> \<not> flag_set (pp_allowExternalWrites permissions) \<and> \<not> approved
      then Inl (PolicyError ''APPROVAL_REQUIRED'')
      else if aq_risk action = System \<and> \<not> flag_set (pp_allowSystemChanges permissions) \<and> \<not> approved
      then Inl (PolicyError ''APPROVAL_REQUIRED'')
      else if aq_risk action = Destructive \<and> \<not> flag_set (pp_allowDestructive permissions) \<and> \<not> approved
      then Inl (PolicyError ''APPROVAL_REQUIRED'')
      else Inr ())"

definition policy_authorize ::
  "string \<Rightarrow> extension_registry \<Rightarrow> ActionRequest \<Rightarrow> PermissionProfile \<Rightarrow> unit result" where
  "policy_authorize cwd reg action permissions =
     (case authorizeBase cwd action permissions of Inl e \<Rightarrow> Inl e
      | Inr _ \<Rightarrow> (case capabilityRiskRule reg (aq_capability action) of Inl e \<Rightarrow> Inl e
         | Inr Dynamic \<Rightarrow> Inl (PolicyError ''CAPABILITY_RISK_UNRESOLVED'')
         | Inr (Fixed rule) \<Rightarrow> (case assertCanonicalRisk action rule of Inl e \<Rightarrow> Inl e
             | Inr _ \<Rightarrow> authorizeRisk action permissions)))"

section \<open>Authority kernel\<close>

record CapabilityTokenClaims =
  ct_tokenId :: string
  ct_capability :: string
  ct_roots :: "string list"
  ct_maxRisk :: ActionRisk
  ct_actionIds :: "string list"
  ct_issuedAt :: int
  ct_expiresAt :: int

record CapabilityToken =
  tk_claims :: CapabilityTokenClaims
  tk_mac :: string

record CapabilityTokenRequest =
  tr_capability :: string
  tr_roots :: "string list option"
  tr_maxRisk :: "ActionRisk option"
  tr_actionIds :: "string list option"
  tr_ttlMs :: "int option"

record AuthorityDecision =
  ad_canonicalAction :: ActionRequest
  ad_canonicalRisk :: ActionRisk
  ad_capability :: string

definition hex64 :: "string \<Rightarrow> bool" where
  "hex64 s \<longleftrightarrow> length s = 64 \<and> list_all is_hex s"

definition safeEqualHex :: "string \<Rightarrow> string \<Rightarrow> bool" where
  "safeEqualHex left right \<longleftrightarrow> hex64 left \<and> hex64 right \<and> to_lower left = to_lower right"

text \<open>The authority kernel's containment test resolves the child as well.\<close>

definition kernelPathWithin :: "string \<Rightarrow> string \<Rightarrow> string \<Rightarrow> bool" where
  "kernelPathWithin cwd child root = pathWithin cwd (path_resolve cwd child) root"

fun resolve_operands :: "string \<Rightarrow> string list \<Rightarrow> string list \<Rightarrow> string list option" where
  "resolve_operands cwd parentRoots [] = Some []"
| "resolve_operands cwd parentRoots (raw # rest) =
     (case normalizeScopedPathSyntax cwd raw of
        NativeAbsolute value \<Rightarrow> map_option ((#) (path_resolve cwd value)) (resolve_operands cwd parentRoots rest)
      | ForeignWindowsAbsolute value \<Rightarrow> None
      | Relative value \<Rightarrow>
          (case parentRoots of
             [root] \<Rightarrow> map_option ((#) (path_resolve2 cwd root value)) (resolve_operands cwd parentRoots rest)
           | _ \<Rightarrow> None))"

definition targetPaths :: "string \<Rightarrow> ActionRequest \<Rightarrow> string list \<Rightarrow> string list option result" where
  "targetPaths cwd action parentRoots =
     (case resourcePathOperandsForAction cwd action of Inl e \<Rightarrow> Inl e
      | Inr operands \<Rightarrow> Inr (resolve_operands cwd parentRoots operands))"

definition issueToken ::
  "string \<Rightarrow> (CapabilityTokenClaims \<Rightarrow> string) \<Rightarrow> string \<Rightarrow> int \<Rightarrow> PermissionProfile \<Rightarrow> CapabilityTokenRequest
   \<Rightarrow> CapabilityToken result" where
  "issueToken cwd sign uuid now permissions request =
     (if \<not> capabilityAllowed (tr_capability request) (pp_allowedCapabilities permissions)
      then Inl (PolicyError ''AUTHORITY_CAPABILITY_ESCALATION'')
      else
       (let ttlMs = (case tr_ttlMs request of None \<Rightarrow> 300000 | Some t \<Rightarrow> t) in
        if ttlMs < 1000 \<or> ttlMs > 3600000 then Inl (PolicyError ''AUTHORITY_TTL_INVALID'')
        else
         (let roots = unique_sorted (map (path_resolve cwd)
                (case tr_roots request of None \<Rightarrow> pp_allowedRoots permissions | Some rs \<Rightarrow> rs)) in
          if pp_allowedRoots permissions \<noteq> []
             \<and> \<not> list_all (\<lambda>root. list_ex (kernelPathWithin cwd root) (pp_allowedRoots permissions)) roots
          then Inl (PolicyError ''AUTHORITY_SCOPE_ESCALATION'')
          else
           (let actionIds = unique_sorted (case tr_actionIds request of None \<Rightarrow> [] | Some ids \<Rightarrow> ids) in
            if list_ex (\<lambda>i. length i < 1 \<or> length i > 512) actionIds
            then Inl (PolicyError ''AUTHORITY_ACTION_ID_INVALID'')
            else
             (let parentMaxRisk = (case pp_maxRisk permissions of None \<Rightarrow> Destructive | Some m \<Rightarrow> m);
                  requestedMaxRisk = (case tr_maxRisk request of None \<Rightarrow> parentMaxRisk | Some m \<Rightarrow> m) in
              if RISK_ORDER requestedMaxRisk > RISK_ORDER parentMaxRisk
              then Inl (PolicyError ''AUTHORITY_RISK_ESCALATION'')
              else
               (let claims = \<lparr>ct_tokenId = uuid, ct_capability = tr_capability request, ct_roots = roots,
                      ct_maxRisk = requestedMaxRisk, ct_actionIds = actionIds, ct_issuedAt = now,
                      ct_expiresAt = now + ttlMs\<rparr>
                in Inr \<lparr>tk_claims = claims, tk_mac = sign claims\<rparr>))))))"

definition verifyToken ::
  "string \<Rightarrow> (CapabilityTokenClaims \<Rightarrow> string) \<Rightarrow> int \<Rightarrow> CapabilityToken \<Rightarrow> ActionRequest \<Rightarrow> PermissionProfile
   \<Rightarrow> unit result" where
  "verifyToken cwd sign now token action permissions =
     (let claims = tk_claims token in
      if \<not> safeEqualHex (tk_mac token) (sign claims) then Inl (PolicyError ''AUTHORITY_TOKEN_TAMPERED'')
      else if ct_issuedAt claims > now + 30000 \<or> ct_expiresAt claims \<le> now
      then Inl (PolicyError ''AUTHORITY_TOKEN_EXPIRED'')
      else if ct_capability claims \<noteq> aq_capability action
      then Inl (PolicyError ''AUTHORITY_TOKEN_CAPABILITY_MISMATCH'')
      else if \<not> capabilityAllowed (aq_capability action) (pp_allowedCapabilities permissions)
      then Inl (PolicyError ''AUTHORITY_CAPABILITY_ESCALATION'')
      else if RISK_ORDER (aq_risk action) > RISK_ORDER (ct_maxRisk claims)
      then Inl (PolicyError ''AUTHORITY_TOKEN_RISK_EXCEEDED'')
      else if ct_actionIds claims \<noteq> [] \<and> aq_id action \<notin> set (ct_actionIds claims)
      then Inl (PolicyError ''AUTHORITY_TOKEN_ACTION_MISMATCH'')
      else case targetPaths cwd action (pp_allowedRoots permissions) of
             Inl e \<Rightarrow> Inl e
           | Inr None \<Rightarrow>
               (if ct_roots claims \<noteq> [] then Inl (PolicyError ''AUTHORITY_TOKEN_SCOPE_MISMATCH'') else Inr ())
           | Inr (Some candidates) \<Rightarrow>
               (if ct_roots claims \<noteq> []
                   \<and> list_ex (\<lambda>candidate. \<not> list_ex (kernelPathWithin cwd candidate) (ct_roots claims)) candidates
                then Inl (PolicyError ''AUTHORITY_TOKEN_SCOPE_MISMATCH'') else Inr ()))"

text \<open>The environment of a kernel: working directory, MAC, clock, registry and router.\<close>

record kernel_env =
  ke_cwd :: string
  ke_sign :: "CapabilityTokenClaims \<Rightarrow> string"
  ke_now :: int
  ke_registry :: extension_registry
  ke_resolveDynamicRisk :: "ActionRequest \<Rightarrow> ActionRisk result"

definition authorizeRecovery ::
  "kernel_env \<Rightarrow> ActionRequest \<Rightarrow> PermissionProfile \<Rightarrow> CapabilityToken option \<Rightarrow> AuthorityDecision result" where
  "authorizeRecovery env action permissions token =
     (case authorizeBase (ke_cwd env) action permissions of Inl e \<Rightarrow> Inl e
      | Inr _ \<Rightarrow>
        (case (case capabilityRiskRule (ke_registry env) (aq_capability action) of Inl e \<Rightarrow> Inl e
               | Inr Dynamic \<Rightarrow> ke_resolveDynamicRisk env action
               | Inr (Fixed r) \<Rightarrow> Inr r) of Inl e \<Rightarrow> Inl e
         | Inr canonicalRisk \<Rightarrow>
           (case assertCanonicalRisk action canonicalRisk of Inl e \<Rightarrow> Inl e
            | Inr _ \<Rightarrow>
              (let canonicalAction = action\<lparr>aq_risk := canonicalRisk\<rparr>;
                   decision = \<lparr>ad_canonicalAction = canonicalAction, ad_canonicalRisk = canonicalRisk,
                               ad_capability = aq_capability action\<rparr> in
               case token of None \<Rightarrow> Inr decision
               | Some t \<Rightarrow>
                   (case verifyToken (ke_cwd env) (ke_sign env) (ke_now env) t canonicalAction permissions of
                      Inl e \<Rightarrow> Inl e | Inr _ \<Rightarrow> Inr decision)))))"

definition kernel_authorize ::
  "kernel_env \<Rightarrow> ActionRequest \<Rightarrow> PermissionProfile \<Rightarrow> CapabilityToken option \<Rightarrow> AuthorityDecision result" where
  "kernel_authorize env action permissions token =
     (case authorizeRecovery env action permissions token of Inl e \<Rightarrow> Inl e
      | Inr decision \<Rightarrow>
          (case authorizeRisk (ad_canonicalAction decision) permissions of Inl e \<Rightarrow> Inl e
           | Inr _ \<Rightarrow> Inr decision))"

section \<open>Interface: attenuation\<close>

text \<open>
  A permission check together with an order in which permissions are narrowed. The only law is that a
  narrower permission permits no more; along any chain of delegations nothing is gained.
\<close>

locale attenuation =
  fixes permits :: "'p \<Rightarrow> 'a \<Rightarrow> bool"
    and narrows :: "'p \<Rightarrow> 'p \<Rightarrow> bool"
  assumes attenuate: "narrows q p \<Longrightarrow> permits q a \<Longrightarrow> permits p a"
begin

lemma delegation_chain: "narrows\<^sup>*\<^sup>* q p \<Longrightarrow> permits q a \<Longrightarrow> permits p a"
  by (induction rule: rtranclp_induct) (auto intro: attenuate)

end

definition risk_permitted :: "PermissionProfile \<Rightarrow> ActionRequest \<Rightarrow> bool" where
  "risk_permitted permissions action \<longleftrightarrow> authorizeRisk action permissions = Inr ()"

text \<open>A profile narrows another when its ceiling is lower, its flags weaker and its approvals fewer.\<close>

definition ceiling_rank :: "PermissionProfile \<Rightarrow> nat" where
  "ceiling_rank p = (case pp_maxRisk p of None \<Rightarrow> 4 | Some m \<Rightarrow> RISK_ORDER m)"

definition profile_narrows :: "PermissionProfile \<Rightarrow> PermissionProfile \<Rightarrow> bool" where
  "profile_narrows q p \<longleftrightarrow>
     ceiling_rank q \<le> ceiling_rank p
     \<and> (flag_set (pp_allowExternalWrites q) \<longrightarrow> flag_set (pp_allowExternalWrites p))
     \<and> (flag_set (pp_allowSystemChanges q) \<longrightarrow> flag_set (pp_allowSystemChanges p))
     \<and> (flag_set (pp_allowDestructive q) \<longrightarrow> flag_set (pp_allowDestructive p))
     \<and> set (approved_ids q) \<subseteq> set (approved_ids p)"

lemma RISK_ORDER_max: "RISK_ORDER r \<le> 4"
  by (cases r) auto

lemma risk_permitted_iff:
  "risk_permitted p action \<longleftrightarrow>
     RISK_ORDER (aq_risk action) \<le> ceiling_rank p
     \<and> (aq_risk action = External \<longrightarrow> flag_set (pp_allowExternalWrites p) \<or> aq_id action \<in> set (approved_ids p))
     \<and> (aq_risk action = System \<longrightarrow> flag_set (pp_allowSystemChanges p) \<or> aq_id action \<in> set (approved_ids p))
     \<and> (aq_risk action = Destructive \<longrightarrow> flag_set (pp_allowDestructive p) \<or> aq_id action \<in> set (approved_ids p))"
  using RISK_ORDER_max [of "aq_risk action"]
  by (auto simp: risk_permitted_def authorizeRisk_def ceiling_rank_def Let_def split: option.splits)

interpretation risk_policy: attenuation risk_permitted profile_narrows
  by unfold_locales (auto simp: risk_permitted_iff profile_narrows_def)

definition capability_permitted :: "string list \<Rightarrow> string \<Rightarrow> bool" where
  "capability_permitted allowed cap = capabilityAllowed cap allowed"

interpretation capability_policy: attenuation capability_permitted "\<lambda>q p. set q \<subseteq> set p"
  by unfold_locales (auto simp: capability_permitted_def capabilityAllowed_def list_ex_iff)

definition root_permitted :: "string \<Rightarrow> string list \<Rightarrow> string \<Rightarrow> bool" where
  "root_permitted cwd roots child \<longleftrightarrow> list_ex (pathWithin cwd child) roots"

text \<open>Path scopes are narrowed by taking subtrees.\<close>

interpretation path_policy: attenuation "root_permitted cwd"
    "\<lambda>q p. list_all (\<lambda>root. list_ex (pathWithin cwd root) p) q"
proof unfold_locales
  fix q p :: "string list" and a :: string
  assume sub: "list_all (\<lambda>root. list_ex (pathWithin cwd root) p) q" and "root_permitted cwd q a"
  then obtain r where r: "r \<in> set q" "pathWithin cwd a r" by (auto simp: root_permitted_def list_ex_iff)
  with sub obtain s where "s \<in> set p" "pathWithin cwd r s" by (auto simp: list_all_iff list_ex_iff)
  with r show "root_permitted cwd p a" by (auto simp: root_permitted_def list_ex_iff intro: pathWithin_trans)
qed

section \<open>What a granted decision guarantees\<close>

lemma authorizeBase_iff:
  "authorizeBase cwd action p = Inr () \<longleftrightarrow>
     assertInstructionAuthority (aq_provenance action) = Inr ()
     \<and> capabilityAllowed (aq_capability action) (pp_allowedCapabilities p)
     \<and> (pp_allowedRoots p = []
        \<or> (\<exists>operands. resourcePathOperandsForAction cwd action = Inr operands
             \<and> (\<forall>x\<in>set operands. operand_check cwd (pp_allowedRoots p) x = None)))"
  by (auto simp: authorizeBase_def for_all_throw_None_iff [symmetric] split: sum.splits option.splits)

lemma operand_check_None_iff:
  "operand_check cwd roots x = None \<longleftrightarrow>
     (\<exists>candidate. policyPath cwd x roots = Some candidate \<and> root_permitted cwd roots candidate)"
  by (auto simp: operand_check_def root_permitted_def split: option.splits)

lemma assertCanonicalRisk_iff [simp]: "assertCanonicalRisk action r = Inr () \<longleftrightarrow> aq_risk action = r"
  by (simp add: assertCanonicalRisk_def)

definition canonical_risk :: "kernel_env \<Rightarrow> ActionRequest \<Rightarrow> ActionRisk result" where
  "canonical_risk env action =
     (case capabilityRiskRule (ke_registry env) (aq_capability action) of Inl e \<Rightarrow> Inl e
      | Inr Dynamic \<Rightarrow> ke_resolveDynamicRisk env action
      | Inr (Fixed r) \<Rightarrow> Inr r)"

lemma authorizeRecovery_iff:
  "authorizeRecovery env action p token = Inr d \<longleftrightarrow>
     authorizeBase (ke_cwd env) action p = Inr ()
     \<and> canonical_risk env action = Inr (aq_risk action)
     \<and> (\<forall>t. token = Some t \<longrightarrow>
           verifyToken (ke_cwd env) (ke_sign env) (ke_now env) t action p = Inr ())
     \<and> d = \<lparr>ad_canonicalAction = action, ad_canonicalRisk = aq_risk action,
            ad_capability = aq_capability action\<rparr>"
  unfolding authorizeRecovery_def canonical_risk_def [symmetric]
  by (cases token) (auto simp: Let_def assertCanonicalRisk_def split: sum.splits if_splits)

lemma kernel_authorize_iff:
  "kernel_authorize env action p token = Inr d \<longleftrightarrow>
     authorizeRecovery env action p token = Inr d \<and> risk_permitted p (ad_canonicalAction d)"
  by (auto simp: kernel_authorize_def risk_permitted_def split: sum.splits)


definition demo_profile :: PermissionProfile where
  "demo_profile = \<lparr>pp_allowedCapabilities = [''file.*''], pp_allowedRoots = [''/w''], pp_maxRisk = Some Write,
     pp_approvedActionIds = None, pp_allowExternalWrites = None, pp_allowSystemChanges = None,
     pp_allowDestructive = None, pp_enterprisePolicyDigest = None, pp_enterprisePolicyGeneration = None\<rparr>"

definition demo_kernel :: "int \<Rightarrow> kernel_env" where
  "demo_kernel now = \<lparr>ke_cwd = ''/'', ke_sign = (\<lambda>c. replicate 64 CHR ''a''), ke_now = now, ke_registry = [],
     ke_resolveDynamicRisk = (\<lambda>a. Inl (PolicyError ''x''))\<rparr>"

definition demo_write :: ActionRequest where
  "demo_write = demo_action ''file.write'' Write [(''path'', JStr ''/w/a/../b'')]"

definition demo_token :: CapabilityToken where
  "demo_token = \<lparr>tk_claims = \<lparr>ct_tokenId = ''t'', ct_capability = ''file.write'', ct_roots = [''/w''],
     ct_maxRisk = Write, ct_actionIds = [], ct_issuedAt = 1000, ct_expiresAt = 301000\<rparr>,
     tk_mac = replicate 64 CHR ''a''\<rparr>"

lemma demo_authorized:
  "kernel_authorize (demo_kernel 2000) demo_write demo_profile (Some demo_token)
   = Inr \<lparr>ad_canonicalAction = demo_write, ad_canonicalRisk = Write, ad_capability = ''file.write''\<rparr>"
  by code_simp


text \<open>
  A capability token only narrows: whatever is authorised (or may be recovered) with a token is
  authorised without it, with the same decision.
\<close>

theorem token_only_narrows:
  assumes "kernel_authorize env action p (Some token) = Inr d"
  shows "kernel_authorize env action p None = Inr d \<and> authorizeRecovery env action p None = Inr d"
  using assms by (auto simp: kernel_authorize_iff authorizeRecovery_iff)

theorem token_only_narrows_witness:
  "kernel_authorize (demo_kernel 2000) demo_write demo_profile None
   = Inr \<lparr>ad_canonicalAction = demo_write, ad_canonicalRisk = Write, ad_capability = ''file.write''\<rparr>"
  using token_only_narrows [OF demo_authorized] by simp

lemma kernelPathWithin_eq: "kernelPathWithin cwd = pathWithin cwd"
  by (simp add: kernelPathWithin_def fun_eq_iff)

lemma issueToken_InrD:
  assumes "issueToken cwd sign uuid now p request = Inr token"
  shows "tk_mac token = sign (tk_claims token)"
    and "ct_capability (tk_claims token) = tr_capability request"
    and "ct_issuedAt (tk_claims token) = now"
    and "now + 1000 \<le> ct_expiresAt (tk_claims token)"
    and "ct_expiresAt (tk_claims token) \<le> now + 3600000"
    and "RISK_ORDER (ct_maxRisk (tk_claims token)) \<le> ceiling_rank p"
    and "capabilityAllowed (tr_capability request) (pp_allowedCapabilities p)"
    and "pp_allowedRoots p = [] \<or>
      list_all (\<lambda>root. list_ex (pathWithin cwd root) (pp_allowedRoots p)) (ct_roots (tk_claims token))"
  using assms unfolding issueToken_def Let_def
  by (simp_all add: ceiling_rank_def kernelPathWithin_eq split: if_split_asm option.split_asm)
    auto

lemma verifyToken_InrD:
  assumes "verifyToken cwd sign now token action p = Inr ()"
  shows "now < ct_expiresAt (tk_claims token)"
    and "ct_issuedAt (tk_claims token) \<le> now + 30000"
    and "aq_capability action = ct_capability (tk_claims token)"
    and "RISK_ORDER (aq_risk action) \<le> RISK_ORDER (ct_maxRisk (tk_claims token))"
    and "ct_actionIds (tk_claims token) = [] \<or> aq_id action \<in> set (ct_actionIds (tk_claims token))"
    and "safeEqualHex (tk_mac token) (sign (tk_claims token))"
    and "ct_roots (tk_claims token) = [] \<or>
      (\<exists>targets. targetPaths cwd action (pp_allowedRoots p) = Inr (Some targets)
         \<and> (\<forall>x\<in>set targets. root_permitted cwd (ct_roots (tk_claims token)) x))"
  using assms
  by (auto simp: verifyToken_def Let_def kernelPathWithin_eq root_permitted_def list_ex_iff
      split: if_splits sum.splits option.splits)


lemma demo_issue:
  "issueToken ''/'' (\<lambda>c. replicate 64 CHR ''a'') ''t'' 1000 demo_profile
     \<lparr>tr_capability = ''file.write'', tr_roots = None, tr_maxRisk = None, tr_actionIds = None, tr_ttlMs = None\<rparr>
   = Inr demo_token"
  by code_simp


text \<open>
  Delegation is monotone along any chain of profiles: if each profile narrows the next (lower or
  equal ceiling, weaker flags, fewer approved action identifiers), the risk gate of the narrowest
  profile lets through nothing that the widest refuses.
\<close>

theorem delegated_risk_never_exceeds_origin:
  assumes "profile_narrows\<^sup>*\<^sup>* child origin" and "authorizeRisk action child = Inr ()"
  shows "authorizeRisk action origin = Inr ()"
  using risk_policy.delegation_chain [of child origin action] assms by (simp add: risk_permitted_def)

theorem delegated_risk_never_exceeds_origin_witness:
  "authorizeRisk demo_write (demo_profile\<lparr>pp_maxRisk := None\<rparr>) = Inr ()"
  by (rule delegated_risk_never_exceeds_origin [OF r_into_rtranclp, of demo_profile]) code_simp+

end
