(* ===== verification/AgentKernel.thy ===== *)
theory AgentKernel
  imports ActionJournal Leases Authority
begin

text \<open>
  The agent kernel (\<open>src/core/agent-kernel.ts\<close>): the path of every action through intent check, authority,
  journal, resource leases, provider dispatch, reconciliation, verification and durable completion. It is
  composed of the models of the authority kernel, the lease store and the action journal.

  The world has the journal, the lease file, a counter of fresh identifiers, the flags that the dispatch
  callback shares with the run that created it, and an outside world. Arguments (\<open>agent_env\<close>): the provider
  runtime, which receives the dispatch callback and may call it any number of times on the world; provider
  reconciliation; the physical resource keys of an action; the current intents; the abort signals; the
  caller's hooks; the clock; and the text of an error. The operation trace, which the source keeps from
  influencing execution, is left out.
\<close>

section \<open>State\<close>

record 'x agent_world =
  aw_journal :: journal_world
  aw_leases :: lease_file
  aw_fresh :: nat
  aw_armed :: bool
  aw_retain :: bool
  aw_dispatched :: bool
  aw_ext :: 'x

type_synonym ('x, 'a) agent_prog = "'x agent_world \<Rightarrow> 'a result \<times> 'x agent_world"

record 'x agent_env =
  ag_journal :: journal_env
  ag_leases :: lease_env
  ag_authority :: "'x \<Rightarrow> kernel_env"
  ag_instance :: ProcessInstanceIdentity
  ag_observer :: "'x \<Rightarrow> int \<Rightarrow> ProcessInstanceObservation option"
  ag_uuid :: "nat \<Rightarrow> string"
  ag_now :: "'x \<Rightarrow> int"
  ag_message :: "failure \<Rightarrow> string"
  ag_keys :: "ActionRequest \<Rightarrow> 'x \<Rightarrow> string list result"
  ag_intent :: "IntentBinding \<Rightarrow> 'x \<Rightarrow> failure option"
  ag_aborted :: "'x \<Rightarrow> bool"
  ag_beforeDispatch :: "ActionRequest \<Rightarrow> string \<Rightarrow> 'x \<Rightarrow> unit result \<times> 'x"
  ag_onDispatch :: "string \<Rightarrow> 'x \<Rightarrow> unit result \<times> 'x"
  ag_observe :: "ActionRequest \<Rightarrow> ActionResult \<Rightarrow> 'x \<Rightarrow> unit result \<times> 'x"
  ag_execute :: "ActionRequest \<Rightarrow> (string \<Rightarrow> ('x, unit) agent_prog) \<Rightarrow> ('x, ActionResult) agent_prog"
  ag_reconcile :: "ActionRequest \<Rightarrow> string \<Rightarrow> ActionResult option \<Rightarrow> 'x \<Rightarrow> ProviderReconciliationResult result \<times> 'x"

record AgentKernelExecuteContext =
  cx_ownerKind :: "string option"
  cx_ownerId :: "string option"
  cx_recovery :: bool
  cx_authorityToken :: "CapabilityToken option"

section \<open>Programs\<close>

definition chain_to :: "('x, 'a) agent_prog \<Rightarrow> ('a \<Rightarrow> ('x, 'b) agent_prog) \<Rightarrow> ('x, 'b) agent_prog" where
  "chain_to m f w = (case m w of (Inl e, w') \<Rightarrow> (Inl e, w') | (Inr v, w') \<Rightarrow> f v w')"

definition give :: "'a \<Rightarrow> ('x, 'a) agent_prog" where
  "give v w = (Inr v, w)"

definition lift_result :: "'a result \<Rightarrow> ('x, 'a) agent_prog" where
  "lift_result r w = (r, w)"

definition in_journal :: "'a journal_prog \<Rightarrow> ('x, 'a) agent_prog" where
  "in_journal p w = (case p (aw_journal w) of (r, j) \<Rightarrow> (r, w\<lparr>aw_journal := j\<rparr>))"

definition in_leases :: "(lease_file \<Rightarrow> ('a \<times> lease_file) result) \<Rightarrow> ('x, 'a) agent_prog" where
  "in_leases p w = (case p (aw_leases w) of Inl e \<Rightarrow> (Inl e, w) | Inr (v, f) \<Rightarrow> (Inr v, w\<lparr>aw_leases := f\<rparr>))"

definition outside :: "('x \<Rightarrow> 'a result \<times> 'x) \<Rightarrow> ('x, 'a) agent_prog" where
  "outside call w = (case call (aw_ext w) of (r, x) \<Rightarrow> (r, w\<lparr>aw_ext := x\<rparr>))"

definition error_code :: "failure \<Rightarrow> string option" where
  "error_code f = (case f of OperatorError c \<Rightarrow> Some c | PolicyError c \<Rightarrow> Some c | JsError _ \<Rightarrow> None)"

section \<open>Results of the kernel\<close>

definition kernel_evidence :: "string \<Rightarrow> EvidenceStatus \<Rightarrow> string \<Rightarrow> json_record option \<Rightarrow> int \<Rightarrow> Evidence" where
  "kernel_evidence kind status message data now =
     \<lparr>ev_kind = kind, ev_status = status, ev_message = message, ev_data = data, ev_timestamp = now\<rparr>"

definition failed_result ::
  "ActionRequest \<Rightarrow> string \<Rightarrow> Evidence \<Rightarrow> string \<Rightarrow> string \<Rightarrow> SideEffectState \<Rightarrow> ExecutionPhase \<Rightarrow> ActionResult" where
  "failed_result action provider item code message effects phase =
     \<lparr>ar_ok = False, ar_capability = aq_capability action, ar_provider = provider, ar_output = None, ar_evidence = [item],
      ar_error = Some \<lparr>ae_code = code, ae_message = message, ae_retryable = Some False,
        ae_sideEffectState = Some effects, ae_executionPhase = Some phase, ae_details = None\<rparr>, ar_durationMs = 0\<rparr>"

definition authorityFailure :: "'x agent_env \<Rightarrow> int \<Rightarrow> ActionRequest \<Rightarrow> failure \<Rightarrow> ActionResult" where
  "authorityFailure env now action e =
     (let code = (case error_code e of Some c \<Rightarrow> c | None \<Rightarrow> ''POLICY_ERROR'') in
      failed_result action ''policy''
        (kernel_evidence ''policy'' EvFail (ag_message env e) (Some [(''code'', JStr code)]) now)
        code (ag_message env e) SeNone PreDispatch)"

definition reconciliationRequired :: "int \<Rightarrow> ActionRequest \<Rightarrow> string \<Rightarrow> ActionResult" where
  "reconciliationRequired now action message =
     failed_result action ''agent-kernel'' (kernel_evidence ''reconciliation'' EvFail message None now)
       ''ACTION_RECONCILIATION_REQUIRED'' message SeUncertain Reconciled"

definition abortedBeforeDispatch :: "int \<Rightarrow> ActionRequest \<Rightarrow> ActionResult" where
  "abortedBeforeDispatch now action =
     failed_result action ''agent-kernel''
       (kernel_evidence ''execution'' EvFail ''Execution was cancelled before dispatch.'' (Some [(''code'', JStr ''EXECUTION_ABORTED'')]) now)
       ''EXECUTION_ABORTED'' ''Execution was cancelled before dispatch.'' SeNone PreDispatch"

definition kernelVerificationEvidence :: "int \<Rightarrow> VerificationReceipt \<Rightarrow> Evidence" where
  "kernelVerificationEvidence now receipt =
     (let ok = vb_verified (vk_body receipt) in
      kernel_evidence ''kernel_verification'' (if ok then EvPass else EvFail)
        (if ok then ''Agent Kernel independently bound this action result to its authorized action, provider evidence, and durable transition journal.''
         else ''Agent Kernel rejected this action result against its execution contract.'')
        (Some [(''verificationDigest'', JStr (vk_digest receipt)), (''contractDigest'', JStr (vb_contractDigest (vk_body receipt)))]) now)"

definition reconciledResult :: "ActionRequest \<Rightarrow> ActionResult \<Rightarrow> ProviderReconciliationResult \<Rightarrow> ActionResult" where
  "reconciledResult action prior rec =
     (case (pr_status rec, pr_result rec) of
        (RecCompleted, Some r) \<Rightarrow> r\<lparr>ar_evidence := ar_evidence prior @ pr_evidence rec @ ar_evidence r\<rparr>
      | (RecNotApplied, _) \<Rightarrow>
          \<lparr>ar_ok = False, ar_capability = aq_capability action, ar_provider = ar_provider prior, ar_output = None,
           ar_evidence = ar_evidence prior @ pr_evidence rec,
           ar_error = Some \<lparr>ae_code = ''ACTION_RECONCILED_NOT_APPLIED'',
             ae_message = ''Provider reconciliation proved the uncertain action was not applied.'', ae_retryable = Some True,
             ae_sideEffectState = Some SeNone, ae_executionPhase = Some Reconciled, ae_details = None\<rparr>,
           ar_durationMs = ar_durationMs prior\<rparr>
      | _ \<Rightarrow>
          prior\<lparr>ar_evidence := ar_evidence prior @ pr_evidence rec,
            ar_error := Some ((case ar_error prior of Some e \<Rightarrow> e
              | None \<Rightarrow> \<lparr>ae_code = ''ACTION_RECONCILIATION_REQUIRED'', ae_message = ''Action outcome remains uncertain.'',
                  ae_retryable = None, ae_sideEffectState = None, ae_executionPhase = None, ae_details = None\<rparr>)
              \<lparr>ae_retryable := Some False, ae_sideEffectState := Some SeUncertain, ae_executionPhase := Some Reconciled\<rparr>)\<rparr>)"

definition inferOwnerKind :: "ActionRequest \<Rightarrow> string" where
  "inferOwnerKind action =
     (let source = (case pv_source (aq_provenance action) of None \<Rightarrow> [] | Some s \<Rightarrow> s) in
      if starts_with source ''task-planner:'' then ''task''
      else if starts_with source ''studio-workflow:'' then ''studio''
      else if starts_with source ''team:'' then ''team''
      else if truthy (aq_taskId action) \<noteq> None then ''workload'' else ''direct'')"

definition agent_bounded :: "string \<Rightarrow> nat \<Rightarrow> string result" where
  "agent_bounded s n = (if length s < 1 \<or> length s > n \<or> nul_char \<in> set s
     then Inl (JsError ''Agent Kernel owner identity is invalid.'') else Inr s)"

definition intentFailure ::
  "'x agent_env \<Rightarrow> ActionRequest \<Rightarrow> bool \<Rightarrow> ('x, ActionResult option) agent_prog" where
  "intentFailure env action recovery w =
     (case aq_intent action of None \<Rightarrow> (Inr None, w)
      | Some b \<Rightarrow>
         (if recovery then (Inr None, w)
          else case ag_intent env b (aw_ext w) of None \<Rightarrow> (Inr None, w)
          | Some e \<Rightarrow>
             (case error_code e of
                Some code \<Rightarrow>
                  (if code = ''INTENT_STALE'' \<or> code = ''INTENT_NOT_EXECUTABLE''
                   then (Inr (Some (failed_result action ''agent-kernel''
                      (kernel_evidence ''intent_superseded'' EvFail
                         ''A newer conversation intent superseded this action before provider dispatch.''
                         (Some [(''conversationId'', JStr (ib_conversationId b)), (''intentVersion'', JNum (ib_intentVersion b))])
                         (ag_now env (aw_ext w)))
                      code
                      (if code = ''INTENT_STALE'' then ''Execution intent is stale and must be rebound to the newest user intent.''
                       else ag_message env e) SeNone PreDispatch)), w)
                   else (Inl e, w))
              | None \<Rightarrow> (Inl e, w))))"

definition publishObservation ::
  "'x agent_env \<Rightarrow> ActionRequest \<Rightarrow> ActionResult \<Rightarrow> ('x, ActionResult) agent_prog" where
  "publishObservation env action result w =
     (case outside (ag_observe env action result) w of
        (Inr _, w') \<Rightarrow> (Inr result, w')
      | (Inl e, w') \<Rightarrow>
          (Inr (result\<lparr>ar_evidence := ar_evidence result @ [kernel_evidence ''perception_publication'' EvFail
             ''Action result remained authoritative, but the shared perception graph could not ingest its observation.''
             (Some [(''code'', JStr (case error_code e of Some c \<Rightarrow> c | None \<Rightarrow> ''PERCEPTION_PUBLICATION_FAILED''))])
             (ag_now env (aw_ext w'))]\<rparr>), w'))"

section \<open>Leases around a run\<close>

definition quarantine_keys :: "'x agent_env \<Rightarrow> string \<Rightarrow> string list \<Rightarrow> ('x, unit) agent_prog" where
  "quarantine_keys env actionId keys w =
     in_leases (\<lambda>f. map_sum id (Pair ()) (quarantine (ag_leases env) actionId (ag_now env (aw_ext w)) keys f)) w"

text \<open>The owner text and the lease identifier take two fresh identifiers.\<close>

definition acquire_lease ::
  "'x agent_env \<Rightarrow> string \<Rightarrow> string list \<Rightarrow> ResourceLeaseMode \<Rightarrow> string option \<Rightarrow> ('x, ResourceLease) agent_prog" where
  "acquire_lease env owner keys mode mutationActionId w =
     in_leases (acquire (ag_leases env) (ag_observer env (aw_ext w)) (ag_instance env) (ag_uuid env (aw_fresh w + 1))
       (ag_now env (aw_ext w)) (owner @ '':'' @ ag_uuid env (aw_fresh w)) keys mode mutationActionId)
       (w\<lparr>aw_fresh := aw_fresh w + 2\<rparr>)"

definition with_lease :: "ActionRequest \<Rightarrow> ResourceLease \<Rightarrow> ('x, 'a) agent_prog \<Rightarrow> ('x, 'a) agent_prog" where
  "with_lease action lease body w =
     (case body w of (r, w1) \<Rightarrow>
       (case (if aw_armed w1 \<and> \<not> aw_retain w1
              then in_leases (\<lambda>f. map_sum id (Pair ()) (clearQuarantine (aq_id action) f)) w1 else (Inr (), w1)) of
          (c, w2) \<Rightarrow>
            (case in_leases (release lease) w2 of
               (Inl e, w3) \<Rightarrow> (Inl e, w3)
             | (Inr _, w3) \<Rightarrow> (case c of Inl e \<Rightarrow> (Inl e, w3) | Inr _ \<Rightarrow> (r, w3)))))"

definition lease_lost :: failure where
  "lease_lost = OperatorError ''RESOURCE_LEASE_LOST''"

definition assertDispatchLease :: "'x agent_env \<Rightarrow> ResourceLease \<Rightarrow> ('x, unit) agent_prog" where
  "assertDispatchLease env lease w =
     (case assertOwned (ag_leases env) lease (aw_leases w) of Inl _ \<Rightarrow> (Inl lease_lost, w) | Inr _ \<Rightarrow> (Inr (), w))"

definition assertDispatchActive :: "'x agent_env \<Rightarrow> ('x, unit) agent_prog" where
  "assertDispatchActive env w =
     (if ag_aborted env (aw_ext w) then (Inl (OperatorError ''EXECUTION_ABORTED''), w) else (Inr (), w))"

definition assertDispatchIntent :: "'x agent_env \<Rightarrow> ActionRequest \<Rightarrow> bool \<Rightarrow> ('x, unit) agent_prog" where
  "assertDispatchIntent env action recovery = chain_to (intentFailure env action recovery) (\<lambda>changed.
     case changed of None \<Rightarrow> give ()
     | Some r \<Rightarrow> lift_result (Inl (OperatorError (case ar_error r of Some e \<Rightarrow> ae_code e | None \<Rightarrow> ''INTENT_STALE''))))"

section \<open>The dispatch callback\<close>

definition arm_quarantine :: "'x agent_env \<Rightarrow> ActionRequest \<Rightarrow> string list \<Rightarrow> ('x, unit) agent_prog" where
  "arm_quarantine env action keys =
     (if aq_risk action = Read then give ()
      else chain_to (quarantine_keys env (aq_id action) keys)
             (\<lambda>_ w. (Inr (), w\<lparr>aw_armed := True, aw_retain := True\<rparr>)))"

definition record_dispatch :: "'x agent_env \<Rightarrow> ActionRequest \<Rightarrow> string \<Rightarrow> ('x, unit) agent_prog" where
  "record_dispatch env action provider = chain_to
     (\<lambda>w. in_journal (markDispatched (ag_journal env) (ag_now env (aw_ext w)) (aq_id action) (Some provider)) w)
     (\<lambda>_ w. (Inr (), w\<lparr>aw_dispatched := True\<rparr>))"

definition onProviderDispatch ::
  "'x agent_env \<Rightarrow> ActionRequest \<Rightarrow> bool \<Rightarrow> string list \<Rightarrow> ResourceLease \<Rightarrow> string \<Rightarrow> ('x, unit) agent_prog" where
  "onProviderDispatch env action recovery keys lease provider =
     chain_to (assertDispatchActive env) (\<lambda>_.
     chain_to (assertDispatchLease env lease) (\<lambda>_.
     chain_to (assertDispatchActive env) (\<lambda>_.
     chain_to (assertDispatchIntent env action recovery) (\<lambda>_.
     chain_to (assertDispatchActive env) (\<lambda>_.
     chain_to (outside (ag_beforeDispatch env action provider)) (\<lambda>_.
     chain_to (assertDispatchActive env) (\<lambda>_.
     chain_to (assertDispatchLease env lease) (\<lambda>_.
     chain_to (assertDispatchActive env) (\<lambda>_.
     chain_to (assertDispatchIntent env action recovery) (\<lambda>_.
     chain_to (outside (ag_onDispatch env provider)) (\<lambda>_.
     chain_to (assertDispatchActive env) (\<lambda>_.
     chain_to (arm_quarantine env action keys) (\<lambda>_.
     chain_to (assertDispatchActive env) (\<lambda>_.
     record_dispatch env action provider))))))))))))))"

section \<open>Reconciliation\<close>

definition set_retain :: "bool \<Rightarrow> ('x, unit) agent_prog" where
  "set_retain b w = (Inr (), w\<lparr>aw_retain := b\<rparr>)"

definition verify_and_complete ::
  "'x agent_env \<Rightarrow> ActionRequest \<Rightarrow> ActionResult \<Rightarrow> ActionJournalEntry
   \<Rightarrow> ('x, VerificationReceipt \<times> ActionResult option) agent_prog" where
  "verify_and_complete env action result entry w =
     (case verifyActionOutcome (ag_journal env) action result (Some entry) of Inl e \<Rightarrow> (Inl e, w)
      | Inr receipt \<Rightarrow>
         (if \<not> vb_verified (vk_body receipt) then (Inr (receipt, None), w)
          else let verified = result\<lparr>ar_evidence := ar_evidence result @ [kernelVerificationEvidence (ag_now env (aw_ext w)) receipt]\<rparr> in
            chain_to (in_journal (complete_action (ag_journal env) (ag_now env (aw_ext w)) (aq_id action) (vk_digest receipt) (Some verified)))
              (\<lambda>_ w'. (Inr (receipt, Some verified), w'\<lparr>aw_retain := False\<rparr>)) w))"

definition settle_reconciliation ::
  "'x agent_env \<Rightarrow> ActionRequest \<Rightarrow> ProviderReconciliationResult \<Rightarrow> ActionJournalEntry
   \<Rightarrow> ('x, ProviderReconciliationResult) agent_prog" where
  "settle_reconciliation env action outcome entry =
     (case (pr_status outcome, pr_result outcome) of
        (RecCompleted, Some r) \<Rightarrow>
          chain_to (publishObservation env action r) (\<lambda>observed.
          chain_to (verify_and_complete env action observed entry) (\<lambda>(receipt, completed) w.
            let item = kernelVerificationEvidence (ag_now env (aw_ext w)) receipt in
            case completed of
              None \<Rightarrow> (Inr \<lparr>pr_status = RecUncertain, pr_result = None, pr_evidence = pr_evidence outcome @ [item]\<rparr>, w)
            | Some result \<Rightarrow> (Inr \<lparr>pr_status = RecCompleted, pr_result = Some result, pr_evidence = pr_evidence outcome @ [item]\<rparr>, w)))
      | _ \<Rightarrow> chain_to (set_retain (pr_status outcome = RecUncertain)) (\<lambda>_. give outcome))"

definition reconcile_body ::
  "'x agent_env \<Rightarrow> ActionRequest \<Rightarrow> string \<Rightarrow> ActionResult option \<Rightarrow> ActionJournalEntry
   \<Rightarrow> ('x, ProviderReconciliationResult) agent_prog" where
  "reconcile_body env action provider prior existing =
     chain_to (outside (ag_reconcile env action provider prior)) (\<lambda>outcome.
     chain_to (if je_state existing = JCompleted then give existing
               else (\<lambda>w. in_journal (reconcile_action (ag_journal env) (ag_now env (aw_ext w)) (aq_id action) outcome) w))
       (settle_reconciliation env action outcome))"

definition reconcilable :: "ActionJournalState \<Rightarrow> bool" where
  "reconcilable st \<longleftrightarrow> st \<in> {JDispatched, JObserved, JUncertain, JReconciled, JCompleted}"

definition reconcile_leased ::
  "'x agent_env \<Rightarrow> ActionRequest \<Rightarrow> string \<Rightarrow> ActionResult option \<Rightarrow> string list \<Rightarrow> ActionJournalEntry
   \<Rightarrow> ('x, ProviderReconciliationResult) agent_prog" where
  "reconcile_leased env action provider prior keys existing =
     chain_to (quarantine_keys env (aq_id action) keys) (\<lambda>_.
       chain_to (acquire_lease env (''kernel-reconcile:'' @ aq_id action) keys Exclusive (Some (aq_id action))) (\<lambda>lease w.
         with_lease action lease (reconcile_body env action provider prior existing)
           (w\<lparr>aw_armed := True, aw_retain := True\<rparr>)))"

definition agent_reconcile ::
  "'x agent_env \<Rightarrow> ActionRequest \<Rightarrow> string \<Rightarrow> ActionResult option \<Rightarrow> ('x, ProviderReconciliationResult) agent_prog" where
  "agent_reconcile env action provider prior =
     chain_to (\<lambda>w. lift_result (ag_keys env action (aw_ext w)) w) (\<lambda>keys.
     chain_to (in_journal (inspect_journal (ag_journal env) (aq_id action))) (\<lambda>existing.
       if je_actionDigest existing \<noteq> jv_action (ag_journal env) action
          \<or> canonicalResourceKeys (je_resourceKeys existing) \<noteq> canonicalResourceKeys keys
       then lift_result (Inl (OperatorError ''ACTION_JOURNAL_ID_CONFLICT''))
       else if \<not> reconcilable (je_state existing)
       then lift_result (Inl (OperatorError ''ACTION_RECONCILIATION_NOT_DISPATCHED''))
       else if recorded_provider existing \<noteq> Some provider
       then lift_result (Inl (OperatorError ''ACTION_RECONCILIATION_PROVIDER_MISMATCH''))
       else reconcile_leased env action provider prior keys existing))"

section \<open>Execution\<close>

definition record_outcome ::
  "'x agent_env \<Rightarrow> ActionRequest \<Rightarrow> ActionResult \<Rightarrow> ('x, ActionJournalEntry) agent_prog" where
  "record_outcome env action result w =
     (let now = ag_now env (aw_ext w); J = ag_journal env in
      chain_to (in_journal (if \<not> aw_dispatched w \<and> Option.bind (ar_error result) ae_executionPhase = Some PreDispatch
                            then defer_action J now (aq_id action) result
                            else observe_action J now (aq_id action) result))
        (\<lambda>entry w'. (Inr entry, if aw_armed w' then w'\<lparr>aw_retain := je_state entry \<in> {JDispatched, JUncertain}\<rparr> else w')) w)"

definition reconcile_uncertain ::
  "'x agent_env \<Rightarrow> ActionRequest \<Rightarrow> ActionResult \<Rightarrow> ActionJournalEntry \<Rightarrow> ('x, ActionResult \<times> ActionJournalEntry) agent_prog" where
  "reconcile_uncertain env action result entry =
     (if \<not> ar_ok result \<and> aq_risk action \<noteq> Read \<and> Option.bind (ar_error result) ae_sideEffectState = Some SeUncertain
         \<and> ar_provider result \<noteq> ''policy'' \<and> ar_provider result \<noteq> ''router''
      then chain_to (outside (ag_reconcile env action (ar_provider result) (Some result))) (\<lambda>rec.
           chain_to (\<lambda>w. in_journal (reconcile_action (ag_journal env) (ag_now env (aw_ext w)) (aq_id action) rec) w) (\<lambda>entry'.
           chain_to (set_retain (je_state entry' = JUncertain)) (\<lambda>_.
             give (reconciledResult action result rec, entry'))))
      else give (result, entry))"

definition verification_failed :: "int \<Rightarrow> ActionRequest \<Rightarrow> ActionResult \<Rightarrow> VerificationReceipt \<Rightarrow> ActionResult" where
  "verification_failed now action result receipt =
     \<lparr>ar_ok = False, ar_capability = aq_capability action, ar_provider = ''agent-kernel'', ar_output = None,
      ar_evidence = ar_evidence result @ [kernelVerificationEvidence now receipt],
      ar_error = Some \<lparr>ae_code = ''KERNEL_VERIFICATION_FAILED'',
        ae_message = ''Agent Kernel could not independently bind the successful provider result to its execution contract.'',
        ae_retryable = Some False, ae_sideEffectState = Some (if aq_risk action = Read then SeNone else SeKnown),
        ae_executionPhase = Some EffectObserved, ae_details = None\<rparr>,
      ar_durationMs = ar_durationMs result\<rparr>"

definition note_superseded :: "'x agent_env \<Rightarrow> ActionRequest \<Rightarrow> bool \<Rightarrow> ActionResult \<Rightarrow> ('x, ActionResult) agent_prog" where
  "note_superseded env action recovery result w =
     (case aq_intent action of None \<Rightarrow> (Inr result, w)
      | Some b \<Rightarrow>
         (if recovery then (Inr result, w)
          else case ag_intent env b (aw_ext w) of None \<Rightarrow> (Inr result, w)
          | Some e \<Rightarrow>
             (if error_code e = Some ''INTENT_STALE''
              then (Inr (result\<lparr>ar_evidence := ar_evidence result @ [kernel_evidence ''intent_superseded_after_dispatch'' EvInfo
                     ''The action completed under the intent that was current at dispatch; a newer intent now exists, so no later action may reuse this binding.''
                     None (ag_now env (aw_ext w))]\<rparr>), w)
              else (Inl e, w))))"

definition run_body ::
  "'x agent_env \<Rightarrow> ActionRequest \<Rightarrow> bool \<Rightarrow> string list \<Rightarrow> ResourceLease \<Rightarrow> ('x, ActionResult) agent_prog" where
  "run_body env action recovery keys lease =
     chain_to (intentFailure env action recovery) (\<lambda>stale.
       case stale of Some r \<Rightarrow> give r
       | None \<Rightarrow> (\<lambda>w.
          if ag_aborted env (aw_ext w) then (Inr (abortedBeforeDispatch (ag_now env (aw_ext w)) action), w)
          else chain_to (ag_execute env action (onProviderDispatch env action recovery keys lease)) (\<lambda>result0.
            chain_to (record_outcome env action result0) (\<lambda>entry0.
            chain_to (reconcile_uncertain env action result0 entry0) (\<lambda>(result1, entry).
            chain_to (publishObservation env action result1) (\<lambda>result.
              if \<not> ar_ok result then give result
              else chain_to (verify_and_complete env action result entry) (\<lambda>(receipt, completed) w'.
                case completed of
                  None \<Rightarrow> (Inr (verification_failed (ag_now env (aw_ext w')) action result receipt), w')
                | Some verified \<Rightarrow> note_superseded env action recovery verified w'))))) w))"

definition quarantine_unresolved :: "'x agent_env \<Rightarrow> string list \<Rightarrow> ActionJournalEntry list \<Rightarrow> ('x, unit) agent_prog" where
  "quarantine_unresolved env keys entries =
     foldr (\<lambda>entry rest.
       if list_ex (\<lambda>left. list_ex (resourceKeysConflict left) keys) (je_resourceKeys entry)
       then chain_to (quarantine_keys env (je_actionId entry) (je_resourceKeys entry)) (\<lambda>_. rest)
       else rest) entries (give ())"

definition dispatch_action ::
  "'x agent_env \<Rightarrow> ActionRequest \<Rightarrow> bool \<Rightarrow> string \<Rightarrow> string list \<Rightarrow> ('x, ActionResult) agent_prog" where
  "dispatch_action env action recovery owner keys =
     chain_to (if aq_risk action = Read then give ()
               else chain_to (in_journal (unresolvedMutations (ag_journal env))) (quarantine_unresolved env keys)) (\<lambda>_.
     chain_to (acquire_lease env owner keys (if aq_risk action = Read then Shared else Exclusive)
         (if aq_risk action = Read then None else Some (aq_id action))) (\<lambda>lease w.
       with_lease action lease (run_body env action recovery keys lease)
         (w\<lparr>aw_armed := False, aw_retain := False, aw_dispatched := False\<rparr>)))"

definition resume_completed ::
  "'x agent_env \<Rightarrow> ActionRequest \<Rightarrow> ActionJournalEntry \<Rightarrow> ('x, ActionResult) agent_prog" where
  "resume_completed env action prepared = chain_to
     (\<lambda>w. in_journal (replayCompleted (ag_journal env) (ag_now env (aw_ext w)) (aq_id action)) w) (\<lambda>replay w.
       let now = ag_now env (aw_ext w);
           required = reconciliationRequired now action ''A completed mutation is recorded but neither its retained result nor provider post-state can safely reconstruct the outcome.'' in
       case replay of
         Some r \<Rightarrow> (Inr (r\<lparr>ar_evidence := ar_evidence r @ [kernel_evidence ''action_journal_replay'' EvInfo
            ''Returned the previously completed kernel-verified mutation result without redispatching the provider.'' None now]\<rparr>), w)
       | None \<Rightarrow> (case recorded_provider prepared of None \<Rightarrow> (Inr required, w)
          | Some provider \<Rightarrow> chain_to (agent_reconcile env action provider None) (\<lambda>rec w'.
              case (pr_status rec, pr_result rec) of
                (RecCompleted, Some r) \<Rightarrow>
                  (Inr (r\<lparr>ar_evidence := ar_evidence r @ [kernel_evidence ''action_journal_recovered'' EvInfo
                     ''Recovered a completed mutation from provider post-state because its retained replay result was unavailable.'' None
                     (ag_now env (aw_ext w'))]\<rparr>), w')
              | _ \<Rightarrow> (Inr required, w')) w))"

text \<open>What an earlier dispatch of a mutation demands: a final result, or leave to dispatch again.\<close>

definition resume_dispatched ::
  "'x agent_env \<Rightarrow> ActionRequest \<Rightarrow> ActionJournalEntry \<Rightarrow> ('x, ActionResult option) agent_prog" where
  "resume_dispatched env action prepared w =
     (case recorded_provider prepared of
        None \<Rightarrow> (Inr (Some (reconciliationRequired (ag_now env (aw_ext w)) action
                   ''A prior mutation dispatch has no provider identity for safe reconciliation.'')), w)
      | Some provider \<Rightarrow> chain_to (agent_reconcile env action provider None) (\<lambda>rec w'.
          case (pr_status rec, pr_result rec) of
            (RecCompleted, Some r) \<Rightarrow> (Inr (Some r), w')
          | (RecNotApplied, _) \<Rightarrow> (Inr None, w')
          | _ \<Rightarrow> (Inr (Some (reconciliationRequired (ag_now env (aw_ext w')) action
                   ''Provider reconciliation could not prove whether the prior mutation was applied.'')), w')) w)"

definition latest_reconciliation :: "ActionJournalEntry \<Rightarrow> ReconciliationStatus option" where
  "latest_reconciliation entry = first_some jt_reconciliationStatus (rev (je_transitions entry))"

definition resume_mutation ::
  "'x agent_env \<Rightarrow> ActionRequest \<Rightarrow> ActionJournalEntry \<Rightarrow> ('x, ActionResult option) agent_prog" where
  "resume_mutation env action prepared w =
     (let required = (\<lambda>message. (Inr (Some (reconciliationRequired (ag_now env (aw_ext w)) action message)), w)) in
      if je_state prepared = JInterrupted
      then required ''Prior owner ended before dispatch; this action is terminal and cannot be replayed.''
      else if je_state prepared = JCompleted then chain_to (resume_completed env action prepared) (\<lambda>r. give (Some r)) w
      else if je_state prepared \<in> {JDispatched, JObserved, JUncertain} then resume_dispatched env action prepared w
      else if je_state prepared = JReconciled \<and> latest_reconciliation prepared \<noteq> Some RecNotApplied
      then required ''Prior mutation reconciliation did not prove a safe redispatch state.''
      else (Inr None, w))"

definition authorize_action ::
  "'x agent_env \<Rightarrow> (kernel_env \<Rightarrow> ActionRequest \<Rightarrow> PermissionProfile \<Rightarrow> CapabilityToken option \<Rightarrow> AuthorityDecision result)
   \<Rightarrow> ActionRequest \<Rightarrow> PermissionProfile \<Rightarrow> AgentKernelExecuteContext \<Rightarrow> 'x agent_world \<Rightarrow> failure + ActionRequest" where
  "authorize_action env authorize action permissions ctx w =
     map_sum id ad_canonicalAction (authorize (ag_authority env (aw_ext w)) action permissions (cx_authorityToken ctx))"

definition approval_required :: "ActionResult \<Rightarrow> bool" where
  "approval_required denied \<longleftrightarrow> map_option ae_code (ar_error denied) = Some ''APPROVAL_REQUIRED''"

definition prepare_action ::
  "'x agent_env \<Rightarrow> ActionRequest \<Rightarrow> string \<Rightarrow> string \<Rightarrow> string list \<Rightarrow> ('x, ActionJournalEntry) agent_prog" where
  "prepare_action env action ownerKind ownerId keys w =
     in_journal (prepare (ag_journal env) \<lparr>pi_action = action, pi_ownerKind = ownerKind, pi_ownerId = ownerId, pi_resourceKeys = keys\<rparr>
       (ag_now env (aw_ext w))) w"

definition defer_denied :: "'x agent_env \<Rightarrow> ActionRequest \<Rightarrow> ActionResult \<Rightarrow> ('x, ActionResult) agent_prog" where
  "defer_denied env action denied w =
     chain_to (in_journal (defer_action (ag_journal env) (ag_now env (aw_ext w)) (aq_id action) denied)) (\<lambda>_. give denied) w"

definition recover_prepared :: "'x agent_env \<Rightarrow> ActionRequest \<Rightarrow> ActionJournalEntry \<Rightarrow> ('x, ActionJournalEntry) agent_prog" where
  "recover_prepared env action prepared w =
     (if aq_risk action = Read then (Inr prepared, w)
      else in_journal (recoverPendingCompletion (ag_journal env) (ag_now env (aw_ext w)) (aq_id action) (Some action)) w)"

text \<open>After the journal entry is prepared: settle an earlier run, authorise again if there was one, dispatch.\<close>

definition continue_prepared ::
  "'x agent_env \<Rightarrow> PermissionProfile \<Rightarrow> AgentKernelExecuteContext \<Rightarrow> bool \<Rightarrow> ActionRequest \<Rightarrow> string \<Rightarrow> string
   \<Rightarrow> string list \<Rightarrow> ActionJournalEntry \<Rightarrow> ('x, ActionResult) agent_prog" where
  "continue_prepared env permissions ctx existed action ownerKind ownerId keys prepared =
     chain_to (if aq_risk action = Read then give None else resume_mutation env action prepared) (\<lambda>settled.
       case settled of Some r \<Rightarrow> give r
       | None \<Rightarrow> (\<lambda>w.
          let dispatch = (\<lambda>action. dispatch_action env action (cx_recovery ctx)
                (''kernel:'' @ ownerKind @ '':'' @ ownerId) keys w) in
          if \<not> existed then dispatch action
          else case authorize_action env kernel_authorize action permissions ctx w of
            Inr action' \<Rightarrow> dispatch action'
          | Inl e \<Rightarrow>
             (let denied = authorityFailure env (ag_now env (aw_ext w)) action e in
              if approval_required denied \<and> je_state prepared \<in> {JPrepared, JDeferred} then defer_denied env action denied w
              else (Inr denied, w))))"

definition find_existing :: "'x agent_env \<Rightarrow> ActionRequest \<Rightarrow> ('x, bool) agent_prog" where
  "find_existing env action w =
     (case in_journal (inspect_journal (ag_journal env) (aq_id action)) w of
        (Inr _, w') \<Rightarrow> (Inr True, w')
      | (Inl e, w') \<Rightarrow> (if error_code e = Some ''ACTION_JOURNAL_NOT_FOUND'' then (Inr False, w') else (Inl e, w')))"

definition executeCore ::
  "'x agent_env \<Rightarrow> ActionRequest \<Rightarrow> PermissionProfile \<Rightarrow> AgentKernelExecuteContext \<Rightarrow> ('x, ActionResult) agent_prog" where
  "executeCore env action0 permissions ctx =
     chain_to (lift_result (agent_bounded (case cx_ownerKind ctx of Some k \<Rightarrow> k | None \<Rightarrow> inferOwnerKind action0) 128)) (\<lambda>ownerKind.
     chain_to (lift_result (agent_bounded (case cx_ownerId ctx of Some i \<Rightarrow> i
         | None \<Rightarrow> (case aq_taskId action0 of Some t \<Rightarrow> t | None \<Rightarrow> aq_id action0)) 512)) (\<lambda>ownerId.
     chain_to (intentFailure env action0 (cx_recovery ctx)) (\<lambda>stale.
       case stale of Some r \<Rightarrow> give r
       | None \<Rightarrow> (\<lambda>w.
         case authorize_action env authorizeRecovery action0 permissions ctx w of
           Inl e \<Rightarrow> (Inr (authorityFailure env (ag_now env (aw_ext w)) action0 e), w)
         | Inr action1 \<Rightarrow>
            chain_to (find_existing env action1) (\<lambda>existed.
            chain_to (\<lambda>w. lift_result (ag_keys env action1 (aw_ext w)) w) (\<lambda>keys w.
              let go = (\<lambda>action. chain_to (prepare_action env action ownerKind ownerId keys) (\<lambda>prepared0.
                    chain_to (recover_prepared env action prepared0)
                      (continue_prepared env permissions ctx existed action ownerKind ownerId keys)) w) in
              if existed then go action1
              else case authorize_action env kernel_authorize action1 permissions ctx w of
                Inr action2 \<Rightarrow> go action2
              | Inl e \<Rightarrow>
                 (let denied = authorityFailure env (ag_now env (aw_ext w)) action1 e in
                  if approval_required denied
                  then chain_to (prepare_action env action1 ownerKind ownerId keys) (\<lambda>_. defer_denied env action1 denied) w
                  else (Inr denied, w)))) w))))"

end
