(* ===== verification/Runtime.thy ===== *)
theory Runtime
  imports Complex_Main AgentKernel "HOL-Library.Product_Lexorder"
begin

text \<open>
  The provider runtime under the agent kernel: the router (\<open>src/core/router.ts\<close>), the contract that a provider's
  answer has to meet (\<open>provider-result-contract.ts\<close>), the reconciliation policies
  (\<open>reconciliation-coverage.ts\<close>) and the runtime itself (\<open>src/core/runtime.ts\<close>), which tries the ranked providers
  one after the other and calls the dispatch callback of the agent kernel before each.

  What a provider answers about an action (support, score, risk, schemas) is a function of the outside world;
  executing an action may change the whole world, files of the kernel included. Provider names are unique, so the
  execution and the reconciliation of providers are functions of the name. Finite double precision numbers are
  rationals and \<open>rn_round\<close> is the rounding of their arithmetic; a score that is not finite is \<open>None\<close>. The JSON form
  of a number, the elapsed time, the learned adjustment and the exception object behind an error of the dispatch
  callback are arguments.
\<close>

section \<open>Thrown values\<close>

record OperatorThrow =
  te_code :: string
  te_message :: string
  te_retryable :: bool
  te_details :: "json_record option"

datatype thrown = Operator OperatorThrow | AbortError string | OtherError string

definition isAbortError :: "thrown \<Rightarrow> bool" where
  "isAbortError t = (case t of Operator op \<Rightarrow> te_message op = ''The operation was aborted''
     | AbortError _ \<Rightarrow> True | OtherError m \<Rightarrow> m = ''The operation was aborted'')"

definition no_details :: "string \<Rightarrow> string \<Rightarrow> OperatorThrow" where
  "no_details code message = \<lparr>te_code = code, te_message = message, te_retryable = False, te_details = None\<rparr>"

text \<open>The error of an authority decision that a provider's answer caused.\<close>

definition failure_of :: "thrown \<Rightarrow> failure" where
  "failure_of t = (case t of Operator op \<Rightarrow> OperatorError (te_code op) | AbortError m \<Rightarrow> JsError m | OtherError m \<Rightarrow> JsError m)"

section \<open>Providers and router\<close>

record CapabilityScore =
  sc_reliability :: "rat option"
  sc_latency :: "rat option"
  sc_determinism :: "rat option"
  sc_security :: "rat option"
  sc_reversibility :: "rat option"
  sc_informationQuality :: "rat option"
  sc_interactionCost :: "rat option"

record ProviderCapabilitySchema =
  ps_capability :: string
  ps_risk :: CapabilityRiskRule
  ps_inputMaxBytes :: int
  ps_resourceKinds :: "string list"

record 'x CapabilityProvider =
  cp_name :: string
  cp_capabilitySchemas :: "ProviderCapabilitySchema list option"
  cp_supports :: "ActionRequest \<Rightarrow> 'x \<Rightarrow> thrown + bool"
  cp_advertises :: "(ActionRequest \<Rightarrow> 'x \<Rightarrow> thrown + bool) option"
  cp_score :: "ActionRequest \<Rightarrow> 'x \<Rightarrow> thrown + CapabilityScore"
  cp_resolveRisk :: "(ActionRequest \<Rightarrow> 'x \<Rightarrow> thrown + ActionRisk) option"
  cp_reconciles :: bool

record 'x runtime_env =
  rn_providers :: "'x CapabilityProvider list"
  rn_learning :: "(string \<Rightarrow> string \<Rightarrow> string \<Rightarrow> 'x \<Rightarrow> thrown + rat) option"
  rn_learningContext :: "string option"
  rn_round :: "rat \<Rightarrow> rat"
  rn_number :: "rat \<Rightarrow> json"
  rn_collate :: "string \<Rightarrow> string"
  rn_elapsed :: "'x \<Rightarrow> int"
  rn_string :: "failure \<Rightarrow> string"
  rn_explain :: "failure \<Rightarrow> thrown"
  rn_execute :: "string \<Rightarrow> ActionRequest \<Rightarrow> 'x agent_world \<Rightarrow> (thrown + ActionResult) \<times> 'x agent_world"
  rn_reconcile :: "string \<Rightarrow> ActionRequest \<Rightarrow> ActionResult option \<Rightarrow> 'x \<Rightarrow> (thrown + ProviderReconciliationResult) \<times> 'x"

definition name_char :: "char \<Rightarrow> bool" where
  "name_char c \<longleftrightarrow> is_lower c \<or> is_upper c \<or> is_digit c \<or> c \<in> set ''._:-''"

definition provider_name :: "string \<Rightarrow> bool" where
  "provider_name s \<longleftrightarrow> s \<noteq> [] \<and> length s \<le> 256 \<and> (is_lower (hd s) \<or> is_upper (hd s) \<or> is_digit (hd s)) \<and> list_all name_char s"

definition register_provider :: "'x CapabilityProvider \<Rightarrow> 'x CapabilityProvider list \<Rightarrow> 'x CapabilityProvider list result" where
  "register_provider p ps =
     (if \<not> provider_name (cp_name p) \<or> list_ex (\<lambda>q. cp_name q = cp_name p) ps then Inl (OperatorError ''PROVIDER_REGISTRY_INVALID'')
      else Inr (ps @ [p]))"

fun router_supports :: "'x CapabilityProvider list \<Rightarrow> ActionRequest \<Rightarrow> 'x \<Rightarrow> thrown + bool" where
  "router_supports [] action x = Inr False"
| "router_supports (p # ps) action x =
     (case cp_supports p action x of Inl t \<Rightarrow> Inl t | Inr True \<Rightarrow> Inr True | Inr False \<Rightarrow> router_supports ps action x)"

definition providerAdvertises :: "'x CapabilityProvider \<Rightarrow> ActionRequest \<Rightarrow> 'x \<Rightarrow> thrown + bool" where
  "providerAdvertises p action x = (case cp_advertises p of None \<Rightarrow> Inr True | Some f \<Rightarrow> f action x)"

fun router_advertises :: "'x CapabilityProvider list \<Rightarrow> ActionRequest \<Rightarrow> 'x \<Rightarrow> thrown + bool" where
  "router_advertises [] action x = Inr False"
| "router_advertises (p # ps) action x =
     (case cp_supports p action x of Inl t \<Rightarrow> Inl t
      | Inr False \<Rightarrow> router_advertises ps action x
      | Inr True \<Rightarrow> (case providerAdvertises p action x of Inl t \<Rightarrow> Inl t | Inr True \<Rightarrow> Inr True
          | Inr False \<Rightarrow> router_advertises ps action x))"

subsection \<open>Ranking\<close>

definition normalize_score :: "rat \<Rightarrow> rat" where
  "normalize_score score = max 0 (min 1 score)"

definition score_invalid :: "string \<Rightarrow> thrown" where
  "score_invalid name = Operator (no_details ''PROVIDER_SCORE_CONTRACT_INVALID'' (''Provider '' @ name @ '' returned an invalid capability score.''))"

text \<open>The seven values in the order of the weights; costs count against a provider.\<close>

definition checkedScore :: "CapabilityScore \<Rightarrow> string \<Rightarrow> thrown + (rat \<times> bool \<times> rat) list" where
  "checkedScore s name =
     (case (sc_reliability s, sc_latency s, sc_determinism s, sc_security s, sc_reversibility s, sc_informationQuality s, sc_interactionCost s) of
        (Some reliability, Some latency, Some determinism, Some security, Some reversibility, Some informationQuality, Some interactionCost) \<Rightarrow>
          Inr [(reliability, False, 24 / 100), (latency, True, 13 / 100), (determinism, False, 19 / 100), (security, False, 17 / 100),
               (reversibility, False, 10 / 100), (informationQuality, False, 12 / 100), (interactionCost, True, 5 / 100)]
      | _ \<Rightarrow> Inl (score_invalid name))"

definition weightedScore :: "(rat \<Rightarrow> rat) \<Rightarrow> (rat \<times> bool \<times> rat) list \<Rightarrow> rat" where
  "weightedScore rnd values =
     foldl (\<lambda>total (raw, cost, weight).
       let v = (if cost then rnd (1 - normalize_score raw) else normalize_score raw) in
       rnd (total + rnd (v * rnd weight))) 0 values"

record 'x ranked =
  rk_provider :: "'x CapabilityProvider"
  rk_score :: rat
  rk_baseScore :: rat
  rk_learnedAdjustment :: rat

definition rank_candidate :: "'x runtime_env \<Rightarrow> ActionRequest \<Rightarrow> 'x \<Rightarrow> 'x CapabilityProvider \<Rightarrow> thrown + 'x ranked" where
  "rank_candidate rn action x p =
     (case cp_score p action x of Inl t \<Rightarrow> Inl t
      | Inr s \<Rightarrow> (case checkedScore s (cp_name p) of Inl t \<Rightarrow> Inl t
         | Inr values \<Rightarrow>
            (case (case rn_learning rn of None \<Rightarrow> Inr 0
                   | Some adjustment \<Rightarrow> adjustment (aq_capability action) (cp_name p)
                       (case rn_learningContext rn of None \<Rightarrow> ''global'' | Some c \<Rightarrow> c) x) of Inl t \<Rightarrow> Inl t
             | Inr learned \<Rightarrow>
                (let base = weightedScore (rn_round rn) values in
                 Inr \<lparr>rk_provider = p, rk_score = normalize_score (rn_round rn (base + learned)), rk_baseScore = base,
                      rk_learnedAdjustment = learned\<rparr>))))"

fun rank_candidates :: "'x runtime_env \<Rightarrow> ActionRequest \<Rightarrow> 'x \<Rightarrow> 'x CapabilityProvider list \<Rightarrow> thrown + 'x ranked list" where
  "rank_candidates rn action x [] = Inr []"
| "rank_candidates rn action x (p # ps) =
     (case cp_supports p action x of Inl t \<Rightarrow> Inl t
      | Inr False \<Rightarrow> rank_candidates rn action x ps
      | Inr True \<Rightarrow> (case rank_candidate rn action x p of Inl t \<Rightarrow> Inl t
          | Inr c \<Rightarrow> (case rank_candidates rn action x ps of Inl t \<Rightarrow> Inl t | Inr cs \<Rightarrow> Inr (c # cs))))"

definition rank :: "'x runtime_env \<Rightarrow> ActionRequest \<Rightarrow> 'x \<Rightarrow> thrown + 'x ranked list" where
  "rank rn action x =
     map_sum id (sort_key (\<lambda>c. (- rk_score c, - rk_baseScore c, rn_collate rn (cp_name (rk_provider c)))))
       (rank_candidates rn action x (rn_providers rn))"

definition select_provider :: "'x runtime_env \<Rightarrow> ActionRequest \<Rightarrow> 'x \<Rightarrow> thrown + 'x CapabilityProvider" where
  "select_provider rn action x =
     (case rank rn action x of Inl t \<Rightarrow> Inl t
      | Inr [] \<Rightarrow> Inl (Operator (no_details ''CAPABILITY_UNAVAILABLE'' (''No provider can execute '' @ aq_capability action @ ''.'')))
      | Inr (c # _) \<Rightarrow> Inr (rk_provider c))"

subsection \<open>Dynamic risk\<close>

fun resolved_risks :: "'x CapabilityProvider list \<Rightarrow> ActionRequest \<Rightarrow> 'x \<Rightarrow> thrown + ActionRisk list" where
  "resolved_risks [] action x = Inr []"
| "resolved_risks (p # ps) action x =
     (case cp_supports p action x of Inl t \<Rightarrow> Inl t
      | Inr supported \<Rightarrow>
         (case (if supported then cp_resolveRisk p else None) of
            None \<Rightarrow> resolved_risks ps action x
          | Some resolve \<Rightarrow> (case resolve action x of Inl t \<Rightarrow> Inl t
              | Inr r \<Rightarrow> (case resolved_risks ps action x of Inl t \<Rightarrow> Inl t | Inr rs \<Rightarrow> Inr (r # rs)))))"

definition risk_unresolved :: "string \<Rightarrow> thrown" where
  "risk_unresolved message = Operator (no_details ''CAPABILITY_RISK_UNRESOLVED'' message)"

definition resolveRisk :: "'x CapabilityProvider list \<Rightarrow> ActionRequest \<Rightarrow> 'x \<Rightarrow> thrown + ActionRisk" where
  "resolveRisk ps action x =
     (case resolved_risks ps action x of Inl t \<Rightarrow> Inl t
      | Inr rs \<Rightarrow> (case remdups rs of [r] \<Rightarrow> Inr r
          | _ \<Rightarrow> Inl (risk_unresolved (''Capability '' @ aq_capability action @ '' does not have one trusted dynamic risk.''))))"

definition find_provider :: "'x CapabilityProvider list \<Rightarrow> string \<Rightarrow> 'x CapabilityProvider option" where
  "find_provider ps name = find (\<lambda>p. cp_name p = name) ps"

subsection \<open>Schemas\<close>

definition schema_capability :: "string \<Rightarrow> bool" where
  "schema_capability s \<longleftrightarrow> s \<noteq> [] \<and> length s \<le> 256 \<and> (is_lower (hd s) \<or> is_upper (hd s)) \<and> list_all name_char s"

definition schema_valid :: "ProviderCapabilitySchema \<Rightarrow> bool" where
  "schema_valid d \<longleftrightarrow> schema_capability (ps_capability d) \<and> length (ps_resourceKinds d) \<le> 128
     \<and> list_all (\<lambda>k. 1 \<le> length k \<and> length k \<le> 128) (ps_resourceKinds d)
     \<and> is_safe_integer (ps_inputMaxBytes d) \<and> 1 \<le> ps_inputMaxBytes d \<and> ps_inputMaxBytes d \<le> 4 * 1024 * 1024"

definition declared_schemas :: "'x CapabilityProvider \<Rightarrow> ProviderCapabilitySchema list \<Rightarrow> ActionRequest \<Rightarrow> thrown + (ProviderCapabilitySchema \<times> string) list" where
  "declared_schemas p ds action =
     (if length ds > 256 \<or> \<not> list_all schema_valid ds \<or> \<not> distinct (map ps_capability ds)
      then Inl (Operator (no_details ''CAPABILITY_SCHEMA_INVALID'' (''Provider '' @ cp_name p @ '' returned an invalid capability schema collection.'')))
      else Inr (map (\<lambda>d. (d, cp_name p)) (filter (\<lambda>d. ps_capability d = aq_capability action) ds)))"

fun collect_schemas :: "'x CapabilityProvider list \<Rightarrow> ActionRequest \<Rightarrow> 'x \<Rightarrow> thrown + (ProviderCapabilitySchema \<times> string) list" where
  "collect_schemas [] action x = Inr []"
| "collect_schemas (p # ps) action x =
     (case cp_capabilitySchemas p of None \<Rightarrow> collect_schemas ps action x
      | Some ds \<Rightarrow> (case cp_supports p action x of Inl t \<Rightarrow> Inl t
          | Inr False \<Rightarrow> collect_schemas ps action x
          | Inr True \<Rightarrow> (case declared_schemas p ds action of Inl t \<Rightarrow> Inl t
              | Inr own \<Rightarrow> (case collect_schemas ps action x of Inl t \<Rightarrow> Inl t | Inr rest \<Rightarrow> Inr (own @ rest)))))"

definition capabilitySchemas :: "'x runtime_env \<Rightarrow> ActionRequest \<Rightarrow> 'x \<Rightarrow> thrown + (ProviderCapabilitySchema \<times> string) list" where
  "capabilitySchemas rn action x =
     map_sum id (sort_key (\<lambda>(_, name). rn_collate rn name)) (collect_schemas (rn_providers rn) action x)"

section \<open>What a provider's answer has to meet\<close>

text \<open>
  The walk over a JSON value counts the nodes it has met so far, over the whole value, and stops at 20000 nodes, at
  depth 33 and at collections of more than 10000 members. The result is the count, or nothing when it refuses.
\<close>

fun inert_visit :: "json \<Rightarrow> nat \<Rightarrow> nat \<Rightarrow> nat option"
  and inert_items :: "json list \<Rightarrow> nat \<Rightarrow> nat \<Rightarrow> nat option"
  and inert_members :: "(string \<times> json) list \<Rightarrow> nat \<Rightarrow> nat \<Rightarrow> nat option" where
  "inert_visit item depth nodes =
     (if Suc nodes > 20000 \<or> depth > 32 then None
      else case item of
        JArr xs \<Rightarrow> if length xs > 10000 then None else inert_items xs (Suc depth) (Suc nodes)
      | JObj ms \<Rightarrow> if length ms > 10000 then None else inert_members ms (Suc depth) (Suc nodes)
      | _ \<Rightarrow> Some (Suc nodes))"
| "inert_items [] depth nodes = Some nodes"
| "inert_items (x # xs) depth nodes = (case inert_visit x depth nodes of None \<Rightarrow> None | Some n \<Rightarrow> inert_items xs depth n)"
| "inert_members [] depth nodes = Some nodes"
| "inert_members (m # ms) depth nodes = (case inert_visit (snd m) depth nodes of None \<Rightarrow> None | Some n \<Rightarrow> inert_members ms depth n)"

definition inertJson :: "json \<Rightarrow> bool" where
  "inertJson v \<longleftrightarrow> inert_visit v 0 0 \<noteq> None"

definition result_contract_invalid :: thrown where
  "result_contract_invalid = Operator \<lparr>te_code = ''PROVIDER_RESULT_CONTRACT_INVALID'',
     te_message = ''Provider response failed the required action identity or result contract.'', te_retryable = False,
     te_details = Some [(''executionPhase'', JStr ''dispatched''), (''sideEffectState'', JStr ''uncertain'')]\<rparr>"

definition RECOVERY_REMEDIES :: "string list" where
  "RECOVERY_REMEDIES = [''reobserve_before_retry'', ''reobserve_dialog_do_not_retry'', ''reobserve_tab_focus_before_retry'',
     ''select_page_target'', ''select_target_id_from_current_tabs'', ''close_the_dialog_manually_then_reobserve'']"

definition error_code_text :: "string \<Rightarrow> bool" where
  "error_code_text s \<longleftrightarrow> 2 \<le> length s \<and> length s \<le> 128 \<and> is_upper (hd s) \<and> list_all (\<lambda>c. is_upper c \<or> is_digit c \<or> c = CHR ''_'') s"

definition evidence_contract :: "Evidence \<Rightarrow> bool" where
  "evidence_contract item \<longleftrightarrow> ev_kind item \<noteq> [] \<and> length (ev_kind item) \<le> 128 \<and> length (ev_message item) \<le> 8192
     \<and> (case ev_data item of None \<Rightarrow> True | Some d \<Rightarrow> inertJson (JObj d))"

definition details_contract :: "json_record \<Rightarrow> bool" where
  "details_contract d \<longleftrightarrow> inertJson (JObj d)
     \<and> (case map_of d ''remedy'' of None \<Rightarrow> True | Some (JStr r) \<Rightarrow> r \<in> set RECOVERY_REMEDIES | Some _ \<Rightarrow> False)"

definition error_contract :: "ActionError \<Rightarrow> bool" where
  "error_contract e \<longleftrightarrow> error_code_text (ae_code e) \<and> length (ae_message e) \<le> 8192
     \<and> \<not> (ae_retryable e = Some True \<and> ae_sideEffectState e = Some SeUncertain)
     \<and> (case ae_details e of None \<Rightarrow> True | Some d \<Rightarrow> details_contract d)"

definition assertProviderResultContract :: "ActionResult \<Rightarrow> string \<Rightarrow> string \<Rightarrow> thrown + ActionResult" where
  "assertProviderResultContract result capability providerName =
     (if length (ar_evidence result) \<le> 256
         \<and> ar_capability result = capability \<and> ar_provider result = providerName
         \<and> 0 \<le> ar_durationMs result \<and> ar_durationMs result \<le> 24 * 60 * 60000
         \<and> list_all evidence_contract (ar_evidence result)
         \<and> (case ar_output result of None \<Rightarrow> True | Some v \<Rightarrow> inertJson v)
         \<and> \<not> (ar_ok result \<and> ar_error result \<noteq> None)
         \<and> (case ar_error result of None \<Rightarrow> True | Some e \<Rightarrow> error_contract e)
      then Inr result else Inl result_contract_invalid)"

definition reconciliation_contract_invalid :: thrown where
  "reconciliation_contract_invalid = Operator \<lparr>te_code = ''PROVIDER_RECONCILIATION_CONTRACT_INVALID'',
     te_message = ''Provider reconciliation did not establish a valid source-bound outcome.'', te_retryable = False,
     te_details = Some [(''executionPhase'', JStr ''reconciled''), (''sideEffectState'', JStr ''uncertain'')]\<rparr>"

definition assertProviderReconciliationContract ::
  "ProviderReconciliationResult \<Rightarrow> string \<Rightarrow> string \<Rightarrow> thrown + ProviderReconciliationResult" where
  "assertProviderReconciliationContract value capability providerName =
     (let envelope = \<lparr>ar_ok = True, ar_capability = capability, ar_provider = providerName, ar_output = None,
            ar_evidence = pr_evidence value, ar_error = None, ar_durationMs = 0\<rparr> in
      if length (pr_evidence value) > 256 then Inl reconciliation_contract_invalid
      else case assertProviderResultContract envelope capability providerName of
        Inl _ \<Rightarrow> Inl reconciliation_contract_invalid
      | Inr _ \<Rightarrow>
         (if pr_status value = RecCompleted
          then (case pr_result value of None \<Rightarrow> Inl reconciliation_contract_invalid
            | Some r \<Rightarrow> (case assertProviderResultContract r capability providerName of
                Inl _ \<Rightarrow> Inl reconciliation_contract_invalid
              | Inr result \<Rightarrow> if ar_ok result then Inr value else Inl reconciliation_contract_invalid))
          else if pr_result value \<noteq> None then Inl reconciliation_contract_invalid else Inr value))"

section \<open>Reconciliation policies\<close>

datatype reconciliation_mode = ByProvider | SideEffectFree

definition MUTATION_RECONCILIATION_POLICIES :: "(string \<times> reconciliation_mode) list" where
  "MUTATION_RECONCILIATION_POLICIES =
     [(''project.command.run'', ByProvider), (''project.transaction.run'', ByProvider), (''workspace.edit.transaction'', ByProvider),
      (''workspace.edit.rollback'', ByProvider), (''workspace.worktree.create'', ByProvider), (''workspace.worktree.release'', ByProvider),
      (''file.write'', ByProvider), (''file.create'', ByProvider), (''file.replace'', ByProvider), (''file.manage'', ByProvider),
      (''git.checkpoint.create'', ByProvider), (''git.checkpoint.restore'', ByProvider), (''git.write'', ByProvider),
      (''docker.manage'', ByProvider), (''compute.run'', SideEffectFree), (''vscode.open'', ByProvider), (''terminal.execute'', ByProvider),
      (''terminal.session'', ByProvider), (''process.manage'', ByProvider), (''browser.navigate'', ByProvider), (''browser.interact'', ByProvider),
      (''browser.tab.focus'', ByProvider), (''browser.tab.close'', ByProvider), (''app.operate'', ByProvider), (''input.operate'', ByProvider),
      (''perception.observe'', ByProvider)]"

text \<open>The check that runs when the module is loaded: the two sorted lists of capabilities agree.\<close>

definition assertCanonicalMutationPolicies :: "unit result" where
  "assertCanonicalMutationPolicies =
     (if sort (map fst (filter (\<lambda>(_, rule). rule \<noteq> Fixed Read) CAPABILITY_RISK_RULES)) \<noteq> sort (map fst MUTATION_RECONCILIATION_POLICIES)
      then Inl (OperatorError ''MUTATION_RECONCILIATION_POLICY_INCOMPLETE'') else Inr ())"

definition coverage_action :: "string \<Rightarrow> ActionRequest" where
  "coverage_action capability =
     \<lparr>aq_id = ''reconciliation-coverage:'' @ capability, aq_capability = capability,
      aq_risk = (case map_of CAPABILITY_RISK_RULES capability of Some (Fixed r) \<Rightarrow> r | _ \<Rightarrow> Write), aq_input = [],
      aq_provenance = \<lparr>pv_kind = PRuntime, pv_source = None\<rparr>, aq_taskId = None, aq_target = None, aq_intent = None\<rparr>"

definition reconciliation_missing :: thrown where
  "reconciliation_missing = Operator (no_details ''PROVIDER_RECONCILIATION_CONTRACT_MISSING'' ''A provider has no reconciliation contract for a mutable capability.'')"

fun check_coverage :: "'x \<Rightarrow> string \<Rightarrow> reconciliation_mode \<Rightarrow> 'x CapabilityProvider list \<Rightarrow> thrown option" where
  "check_coverage x capability mode [] = None"
| "check_coverage x capability mode (p # ps) =
     (case cp_supports p (coverage_action capability) x of Inl t \<Rightarrow> Some t
      | Inr supported \<Rightarrow> (if supported \<and> mode = ByProvider \<and> \<not> cp_reconciles p then Some reconciliation_missing
          else check_coverage x capability mode ps))"

fun check_policies :: "'x \<Rightarrow> 'x CapabilityProvider list \<Rightarrow> (string \<times> reconciliation_mode) list \<Rightarrow> thrown option" where
  "check_policies x ps [] = None"
| "check_policies x ps ((capability, mode) # rest) =
     (case check_coverage x capability mode ps of Some t \<Rightarrow> Some t | None \<Rightarrow> check_policies x ps rest)"

definition assertRegisteredMutationReconciliation :: "'x CapabilityProvider list \<Rightarrow> 'x \<Rightarrow> thrown option" where
  "assertRegisteredMutationReconciliation ps x =
     (case assertCanonicalMutationPolicies of
        Inl _ \<Rightarrow> Some (Operator (no_details ''MUTATION_RECONCILIATION_POLICY_INCOMPLETE''
                   ''Every canonical mutable capability must have exactly one reconciliation policy.''))
      | Inr _ \<Rightarrow> check_policies x ps MUTATION_RECONCILIATION_POLICIES)"

definition reconcileFromDurableResult :: "int \<Rightarrow> string \<Rightarrow> string \<Rightarrow> ActionResult option \<Rightarrow> ProviderReconciliationResult" where
  "reconcileFromDurableResult now provider capability priorResult =
     (let item = (\<lambda>status message. kernel_evidence ''reconciliation'' status message
            (Some [(''provider'', JStr provider), (''capability'', JStr capability)]) now);
          uncertain = \<lparr>pr_status = RecUncertain, pr_result = None,
            pr_evidence = [item EvInfo ''No durable observation proves whether the dispatched mutation completed.'']\<rparr> in
      case priorResult of None \<Rightarrow> uncertain
      | Some prior \<Rightarrow>
         (if ar_ok prior
          then \<lparr>pr_status = RecCompleted, pr_result = Some prior,
                pr_evidence = [item EvPass ''Durably recorded successful provider result proves completion.'']\<rparr>
          else if Option.bind (ar_error prior) ae_sideEffectState = Some SeNone
              \<or> Option.bind (ar_error prior) ae_executionPhase = Some PreDispatch
          then \<lparr>pr_status = RecNotApplied, pr_result = None,
                pr_evidence = [item EvPass ''Durable failure metadata proves the mutation was not dispatched or applied.'']\<rparr>
          else uncertain))"

section \<open>Results of the runtime\<close>

definition phase_text :: "ExecutionPhase \<Rightarrow> string" where
  "phase_text ph = (case ph of PreDispatch \<Rightarrow> ''pre_dispatch'' | Dispatched \<Rightarrow> ''dispatched''
     | EffectObserved \<Rightarrow> ''effect_observed'' | Reconciled \<Rightarrow> ''reconciled'')"

definition effect_text :: "SideEffectState \<Rightarrow> string" where
  "effect_text st = (case st of SeNone \<Rightarrow> ''none'' | SeKnown \<Rightarrow> ''known'' | SeUncertain \<Rightarrow> ''uncertain'')"

definition effect_of_json :: "json \<Rightarrow> SideEffectState option" where
  "effect_of_json v = (if v = JStr ''none'' then Some SeNone else if v = JStr ''known'' then Some SeKnown
     else if v = JStr ''uncertain'' then Some SeUncertain else None)"

definition json_field :: "string \<Rightarrow> ('a \<Rightarrow> json) \<Rightarrow> 'a option \<Rightarrow> json_record" where
  "json_field k f v = (case v of None \<Rightarrow> [] | Some x \<Rightarrow> [(k, f x)])"

definition error_json :: "ActionError \<Rightarrow> json" where
  "error_json e = JObj ([(''code'', JStr (ae_code e)), (''message'', JStr (ae_message e))]
     @ json_field ''retryable'' JBool (ae_retryable e)
     @ json_field ''sideEffectState'' (JStr \<circ> effect_text) (ae_sideEffectState e)
     @ json_field ''executionPhase'' (JStr \<circ> phase_text) (ae_executionPhase e)
     @ json_field ''details'' JObj (ae_details e))"

definition run_error :: "string \<Rightarrow> string \<Rightarrow> bool option \<Rightarrow> SideEffectState option \<Rightarrow> ExecutionPhase option \<Rightarrow> ActionError" where
  "run_error code message retryable effects phase =
     \<lparr>ae_code = code, ae_message = message, ae_retryable = retryable, ae_sideEffectState = effects, ae_executionPhase = phase, ae_details = None\<rparr>"

definition run_failed :: "string \<Rightarrow> string \<Rightarrow> Evidence list \<Rightarrow> ActionError \<Rightarrow> int \<Rightarrow> ActionResult" where
  "run_failed capability provider items e duration =
     \<lparr>ar_ok = False, ar_capability = capability, ar_provider = provider, ar_output = None, ar_evidence = items,
      ar_error = Some e, ar_durationMs = duration\<rparr>"

text \<open>The code and the message of an error of the authority.\<close>

definition policy_code :: "failure \<Rightarrow> string" where
  "policy_code e = (case error_code e of Some c \<Rightarrow> c | None \<Rightarrow> ''POLICY_ERROR'')"

definition policy_message :: "'x runtime_env \<Rightarrow> 'x agent_env \<Rightarrow> failure \<Rightarrow> string" where
  "policy_message rn env e = (case error_code e of Some _ \<Rightarrow> ag_message env e | None \<Rightarrow> rn_string rn e)"

definition policyDenied :: "'x runtime_env \<Rightarrow> 'x agent_env \<Rightarrow> 'x \<Rightarrow> ActionRequest \<Rightarrow> failure \<Rightarrow> ActionResult" where
  "policyDenied rn env x action e =
     run_failed (aq_capability action) ''policy''
       [kernel_evidence ''policy'' EvFail (policy_message rn env e) (Some [(''code'', JStr (policy_code e))]) (ag_now env x)]
       (run_error (policy_code e) (policy_message rn env e) (Some False) None (Some PreDispatch)) (rn_elapsed rn x)"

definition policyDeniedBeforeDispatch :: "'x runtime_env \<Rightarrow> 'x agent_env \<Rightarrow> 'x \<Rightarrow> ActionRequest \<Rightarrow> failure \<Rightarrow> ActionResult" where
  "policyDeniedBeforeDispatch rn env x action e =
     run_failed (aq_capability action) ''policy''
       [kernel_evidence ''policy_dispatch'' EvFail ''Authority changed or could not be revalidated immediately before provider dispatch.''
          (Some [(''code'', JStr (policy_code e))]) (ag_now env x)]
       (run_error (policy_code e) (policy_message rn env e) (Some False) (Some SeNone) (Some PreDispatch)) (rn_elapsed rn x)"

definition routingFailed :: "'x runtime_env \<Rightarrow> 'x agent_env \<Rightarrow> 'x \<Rightarrow> ActionRequest \<Rightarrow> thrown \<Rightarrow> ActionResult" where
  "routingFailed rn env x action t =
     (let (code, message) = (case t of Operator op \<Rightarrow> (te_code op, te_message op)
            | AbortError m \<Rightarrow> (''ROUTING_STATE_ERROR'', m) | OtherError m \<Rightarrow> (''ROUTING_STATE_ERROR'', m)) in
      run_failed (aq_capability action) ''router''
        [kernel_evidence ''routing'' EvFail ''Provider ranking failed closed before execution.'' (Some [(''code'', JStr code)]) (ag_now env x)]
        (run_error code message (Some False) None (Some PreDispatch)) (rn_elapsed rn x))"

definition unavailable :: "'x runtime_env \<Rightarrow> 'x agent_env \<Rightarrow> 'x \<Rightarrow> ActionRequest \<Rightarrow> ActionResult" where
  "unavailable rn env x action =
     (let message = ''No provider supports '' @ aq_capability action @ ''.'' in
      run_failed (aq_capability action) ''router'' [kernel_evidence ''routing'' EvFail message None (ag_now env x)]
        (run_error ''CAPABILITY_UNAVAILABLE'' message (Some False) None (Some PreDispatch)) (rn_elapsed rn x))"

definition abortedResult :: "'x runtime_env \<Rightarrow> 'x agent_env \<Rightarrow> 'x \<Rightarrow> ActionRequest \<Rightarrow> bool \<Rightarrow> ActionResult" where
  "abortedResult rn env x action afterDispatch =
     (let phase = (if afterDispatch then Dispatched else PreDispatch);
          effects = (if aq_risk action = Read \<or> phase = PreDispatch then SeNone else SeUncertain) in
      run_failed (aq_capability action) ''runtime''
        [kernel_evidence ''execution'' EvFail ''Execution was cancelled before completion.'' (Some [(''code'', JStr ''EXECUTION_ABORTED'')]) (ag_now env x)]
        (run_error ''EXECUTION_ABORTED'' ''Execution was cancelled before completion.'' (Some False) (Some effects) (Some phase)) (rn_elapsed rn x))"

definition thrownExecutionPhase :: "OperatorThrow \<Rightarrow> ExecutionPhase" where
  "thrownExecutionPhase op =
     (case Option.bind (te_details op) (\<lambda>d. Option.bind (map_of d ''executionPhase'') phase_of_json) of Some ph \<Rightarrow> ph | None \<Rightarrow> Dispatched)"

definition thrownSideEffectState :: "ActionRisk \<Rightarrow> OperatorThrow \<Rightarrow> SideEffectState" where
  "thrownSideEffectState risk op =
     (if risk = Read then SeNone
      else case Option.bind (te_details op) (\<lambda>d. Option.bind (map_of d ''sideEffectState'') effect_of_json) of Some st \<Rightarrow> st | None \<Rightarrow> SeUncertain)"

definition cancelledReconciliation :: "int \<Rightarrow> string \<Rightarrow> string \<Rightarrow> ProviderReconciliationResult" where
  "cancelledReconciliation now providerName boundary =
     \<lparr>pr_status = RecUncertain, pr_result = None,
      pr_evidence = [kernel_evidence ''reconciliation_cancelled'' EvFail
        ''Provider reconciliation was cancelled; the prior side effect remains uncertain.''
        (Some [(''code'', JStr ''EXECUTION_ABORTED''), (''provider'', JStr providerName), (''boundary'', JStr boundary)]) now]\<rparr>"

section \<open>Execution\<close>

text \<open>
  One provider of the ranking: the run ends with a result, or goes on after a failure, or leaves the loop. The
  canonical action is the one of the last authority decision.
\<close>

datatype attempt = Ended ActionResult | Failed ActionError ActionRequest | LeftLoop ActionError ActionRequest

definition selected_evidence :: "'x runtime_env \<Rightarrow> 'x agent_env \<Rightarrow> 'x \<Rightarrow> 'x ranked \<Rightarrow> Evidence" where
  "selected_evidence rn env x c =
     kernel_evidence ''routing'' EvInfo (''Selected '' @ cp_name (rk_provider c) @ ''.'')
       (Some [(''score'', rn_number rn (rk_score c)), (''baseScore'', rn_number rn (rk_baseScore c)),
              (''learnedAdjustment'', rn_number rn (rk_learnedAdjustment c))]) (ag_now env x)"

definition retry_unsafe :: "ActionRequest \<Rightarrow> bool \<Rightarrow> SideEffectState \<Rightarrow> bool" where
  "retry_unsafe action retryable effects \<longleftrightarrow>
     aq_risk action \<noteq> Read \<and> (\<not> retryable \<or> \<not> retrySafeWithoutReconciliation (aq_risk action) effects)"

text \<open>The answer of a provider that met its contract.\<close>

definition settle_result :: "'x runtime_env \<Rightarrow> 'x agent_env \<Rightarrow> 'x \<Rightarrow> 'x ranked \<Rightarrow> ActionRequest \<Rightarrow> ActionResult \<Rightarrow> attempt" where
  "settle_result rn env x c action answer =
     (let result = answer\<lparr>ar_evidence := selected_evidence rn env x c # ar_evidence answer, ar_durationMs := rn_elapsed rn x\<rparr> in
      if ar_ok result then Ended result
      else let phase = conservativeExecutionPhase result;
               effects = conservativeSideEffectState (aq_risk action) result;
               e = (case ar_error result of Some e \<Rightarrow> e
                    | None \<Rightarrow> run_error ''PROVIDER_FAILED'' (cp_name (rk_provider c) @ '' failed.'') None None None)
                 \<lparr>ae_sideEffectState := Some effects, ae_executionPhase := Some phase\<rparr> in
        if retry_unsafe action (ae_retryable e = Some True) effects then Ended (result\<lparr>ar_error := Some e\<rparr>) else Failed e action)"

text \<open>An exception of the support question, the dispatch callback, the provider or the contract check.\<close>

definition caught :: "'x runtime_env \<Rightarrow> 'x agent_env \<Rightarrow> 'x \<Rightarrow> 'x ranked \<Rightarrow> ActionRequest \<Rightarrow> bool \<Rightarrow> thrown \<Rightarrow> attempt" where
  "caught rn env x c action trustedPreDispatchAbort t =
     (if ag_aborted env x \<or> isAbortError t then Ended (abortedResult rn env x action (\<not> trustedPreDispatchAbort))
      else let op = (case t of Operator op \<Rightarrow> op
               | _ \<Rightarrow> \<lparr>te_code = ''PROVIDER_EXCEPTION'', te_message = ''Provider execution failed.'', te_retryable = True, te_details = None\<rparr>);
               phase = thrownExecutionPhase op;
               effects = (if phase = PreDispatch then SeNone else thrownSideEffectState (aq_risk action) op);
               e = run_error (te_code op) (te_message op) (Some (te_retryable op)) (Some effects) (Some phase) in
        if retry_unsafe action (te_retryable op) effects
        then Ended (run_failed (aq_capability action) (cp_name (rk_provider c))
          [selected_evidence rn env x c,
           kernel_evidence ''execution'' EvFail (te_message op) (Some [(''code'', JStr (te_code op)), (''sideEffectState'', JStr (effect_text effects))]) (ag_now env x)]
          e (rn_elapsed rn x))
        else if \<not> te_retryable op then LeftLoop e action else Failed e action)"

definition trusted_veto :: "thrown \<Rightarrow> bool" where
  "trusted_veto t = (case t of
     Operator op \<Rightarrow> te_code op = ''EXECUTION_ABORTED''
       \<and> (case te_details op of None \<Rightarrow> False
          | Some d \<Rightarrow> map_of d ''executionPhase'' = Some (JStr ''pre_dispatch'') \<and> map_of d ''sideEffectState'' = Some (JStr ''none''))
   | _ \<Rightarrow> False)"

definition router_authority :: "'x runtime_env \<Rightarrow> 'x agent_env \<Rightarrow> 'x \<Rightarrow> kernel_env" where
  "router_authority rn env x =
     (ag_authority env x)\<lparr>ke_resolveDynamicRisk := (\<lambda>candidate. map_sum failure_of id (resolveRisk (rn_providers rn) candidate x))\<rparr>"

text \<open>The authority right before dispatch asks the selected provider for the dynamic risk.\<close>

definition dispatch_authority :: "'x agent_env \<Rightarrow> 'x \<Rightarrow> 'x CapabilityProvider \<Rightarrow> kernel_env" where
  "dispatch_authority env x p =
     (ag_authority env x)\<lparr>ke_resolveDynamicRisk := (\<lambda>candidate.
        if ag_aborted env x then Inl (OperatorError ''EXECUTION_ABORTED'')
        else case cp_resolveRisk p of None \<Rightarrow> Inl (OperatorError ''CAPABILITY_RISK_UNRESOLVED'')
        | Some resolve \<Rightarrow> map_sum failure_of id (resolve candidate x))\<rparr>"

definition call_provider ::
  "'x runtime_env \<Rightarrow> 'x agent_env \<Rightarrow> 'x ranked \<Rightarrow> ActionRequest \<Rightarrow> 'x agent_world \<Rightarrow> attempt \<times> 'x agent_world" where
  "call_provider rn env c action w =
     (let name = cp_name (rk_provider c) in
      if ag_aborted env (aw_ext w) then (Ended (abortedResult rn env (aw_ext w) action True), w)
      else case rn_execute rn name action w of
        (Inl t, w') \<Rightarrow> (caught rn env (aw_ext w') c action False t, w')
      | (Inr answer, w') \<Rightarrow>
         (case assertProviderResultContract answer (aq_capability action) name of
            Inl t \<Rightarrow> (caught rn env (aw_ext w') c action False t, w')
          | Inr result \<Rightarrow> (settle_result rn env (aw_ext w') c action result, w')))"

definition try_provider ::
  "'x runtime_env \<Rightarrow> 'x agent_env \<Rightarrow> PermissionProfile \<Rightarrow> CapabilityToken option \<Rightarrow> (string \<Rightarrow> ('x, unit) agent_prog)
   \<Rightarrow> ActionRequest \<Rightarrow> 'x ranked \<Rightarrow> 'x agent_world \<Rightarrow> attempt \<times> 'x agent_world" where
  "try_provider rn env permissions token onDispatch action c w =
     (let p = rk_provider c; x = aw_ext w in
      if ag_aborted env x then (Ended (abortedResult rn env x action False), w)
      else case cp_supports p action x of
        Inl t \<Rightarrow> (caught rn env x c action False t, w)
      | Inr False \<Rightarrow> (Failed (run_error ''PROVIDER_SUPPORT_CHANGED'' (cp_name p @ '' no longer supports the canonical action.'')
            (Some True) (Some SeNone) (Some PreDispatch)) action, w)
      | Inr True \<Rightarrow>
         (case kernel_authorize (dispatch_authority env x p) action permissions token of
            Inl e \<Rightarrow> (Ended (policyDeniedBeforeDispatch rn env x action e), w)
          | Inr decision \<Rightarrow>
             (let canonical = ad_canonicalAction decision in
              if ag_aborted env x then (Ended (abortedResult rn env x canonical False), w)
              else case onDispatch (cp_name p) w of
                (Inl e, w') \<Rightarrow> (caught rn env (aw_ext w') c canonical (trusted_veto (rn_explain rn e)) (rn_explain rn e), w')
              | (Inr _, w') \<Rightarrow> call_provider rn env c canonical w')))"

fun try_ranked ::
  "'x runtime_env \<Rightarrow> 'x agent_env \<Rightarrow> PermissionProfile \<Rightarrow> CapabilityToken option \<Rightarrow> (string \<Rightarrow> ('x, unit) agent_prog)
   \<Rightarrow> ActionRequest \<Rightarrow> ActionError list \<Rightarrow> 'x ranked list \<Rightarrow> 'x agent_world \<Rightarrow> (ActionError list + ActionResult) \<times> 'x agent_world" where
  "try_ranked rn env permissions token onDispatch action failures [] w = (Inl failures, w)"
| "try_ranked rn env permissions token onDispatch action failures (c # cs) w =
     (case try_provider rn env permissions token onDispatch action c w of
        (Ended r, w') \<Rightarrow> (Inr r, w')
      | (LeftLoop e _, w') \<Rightarrow> (Inl (failures @ [e]), w')
      | (Failed e action', w') \<Rightarrow> try_ranked rn env permissions token onDispatch action' (failures @ [e]) cs w')"

definition exhausted :: "'x runtime_env \<Rightarrow> 'x agent_env \<Rightarrow> 'x \<Rightarrow> ActionRequest \<Rightarrow> string \<Rightarrow> ActionError list \<Rightarrow> ActionResult" where
  "exhausted rn env x action provider failures =
     (let final = (if failures = [] then run_error ''EXECUTION_FAILED'' ''Execution failed.'' None None None else last failures) in
      run_failed (aq_capability action) provider
        [kernel_evidence ''execution'' EvFail (ae_message final) (Some [(''failures'', JArr (map error_json failures))]) (ag_now env x)]
        final (rn_elapsed rn x))"

definition runtime_execute ::
  "'x runtime_env \<Rightarrow> 'x agent_env \<Rightarrow> PermissionProfile \<Rightarrow> CapabilityToken option
   \<Rightarrow> ActionRequest \<Rightarrow> (string \<Rightarrow> ('x, unit) agent_prog) \<Rightarrow> ('x, ActionResult) agent_prog" where
  "runtime_execute rn env permissions token action onDispatch w =
     (let x = aw_ext w in
      if ag_aborted env x then (Inr (abortedResult rn env x action False), w)
      else case kernel_authorize (router_authority rn env x) action permissions token of
        Inl e \<Rightarrow> (Inr (policyDenied rn env x action e), w)
      | Inr decision \<Rightarrow>
         (let canonical = ad_canonicalAction decision in
          case rank rn canonical x of
            Inl t \<Rightarrow> (Inr (routingFailed rn env x action t), w)
          | Inr ranked \<Rightarrow>
             (if ag_aborted env x then (Inr (abortedResult rn env x canonical False), w)
              else case ranked of [] \<Rightarrow> (Inr (unavailable rn env x action), w)
              | c # _ \<Rightarrow>
                 (case try_ranked rn env permissions token onDispatch canonical [] ranked w of
                    (Inr r, w') \<Rightarrow> (Inr r, w')
                  | (Inl failures, w') \<Rightarrow> (Inr (exhausted rn env (aw_ext w') action (cp_name (rk_provider c)) failures), w')))))"

section \<open>Reconciliation\<close>

definition runtime_reconcile ::
  "'x runtime_env \<Rightarrow> 'x agent_env \<Rightarrow> ActionRequest \<Rightarrow> string \<Rightarrow> ActionResult option \<Rightarrow> 'x
   \<Rightarrow> (thrown + ProviderReconciliationResult) \<times> 'x" where
  "runtime_reconcile rn env action providerName priorResult x =
     (let cancelled = cancelledReconciliation (ag_now env x) providerName in
      if ag_aborted env x then (Inr (cancelled ''before provider selection''), x)
      else let provider = find_provider (rn_providers rn) providerName in
        case (case provider of None \<Rightarrow> Inr False | Some p \<Rightarrow> cp_supports p action x) of
          Inl t \<Rightarrow> if ag_aborted env x \<or> isAbortError t then (Inr (cancelled ''while provider support was being revalidated''), x) else (Inl t, x)
        | Inr supported \<Rightarrow>
           (case (if supported then provider else None) of
              None \<Rightarrow> (Inl (Operator (no_details ''PROVIDER_RECONCILIATION_UNAVAILABLE''
                        (''Provider '' @ providerName @ '' is not available for reconciliation.''))), x)
            | Some p \<Rightarrow>
               (if \<not> cp_reconciles p
                then if map_of MUTATION_RECONCILIATION_POLICIES (aq_capability action) = Some SideEffectFree
                     then (assertProviderReconciliationContract
                             (reconcileFromDurableResult (ag_now env x) providerName (aq_capability action) priorResult)
                             (aq_capability action) providerName, x)
                     else (Inl (Operator (no_details ''PROVIDER_RECONCILIATION_CONTRACT_MISSING''
                        (''Provider '' @ providerName @ '' has no reconciliation contract for mutable capability '' @ aq_capability action @ ''.''))), x)
                else case rn_reconcile rn providerName action priorResult x of (answer, x') \<Rightarrow>
                  (let late = cancelledReconciliation (ag_now env x') providerName ''while provider reconciliation was in progress'' in
                   case answer of
                     Inl t \<Rightarrow> if ag_aborted env x' \<or> isAbortError t then (Inr late, x') else (Inl t, x')
                   | Inr outcome \<Rightarrow> if ag_aborted env x' then (Inr late, x')
                       else (case assertProviderReconciliationContract outcome (aq_capability action) providerName of
                          Inl t \<Rightarrow> if isAbortError t then (Inr late, x') else (Inl t, x')
                        | Inr value \<Rightarrow> (Inr value, x'))))))"

text \<open>The agent kernel on this runtime.\<close>

definition on_runtime ::
  "'x agent_env \<Rightarrow> 'x runtime_env \<Rightarrow> PermissionProfile \<Rightarrow> CapabilityToken option \<Rightarrow> 'x agent_env" where
  "on_runtime env rn permissions token =
     env\<lparr>ag_authority := router_authority rn env,
         ag_execute := runtime_execute rn env permissions token,
         ag_reconcile := (\<lambda>action providerName priorResult x.
           case runtime_reconcile rn env action providerName priorResult x of (r, x') \<Rightarrow> (map_sum failure_of id r, x'))\<rparr>"

end
