(* ===== verification/JournalSafety.thy ===== *)
theory JournalSafety
  imports JournalInv
begin

text \<open>
  Histories of the action journal and what they guarantee: every action follows its life cycle, an
  interrupted action was never and will never be dispatched, a verified mutation was dispatched and keeps its
  completion, and a completion survives a failure at any of its fault points.
\<close>

section \<open>Histories\<close>

text \<open>
  The completion hook and the file removals may fail in a different way in every operation. The atomic
  pieces of the operations of several processes interleave freely, so a process may also stop between any
  two of its pieces. One thing is kept from the inspection that starts the completion of a read: the action
  is still a read when the transition is made.
\<close>

definition faulty ::
  "journal_env \<Rightarrow> (ActionCompletionFaultPoint \<Rightarrow> string \<Rightarrow> failure option) \<Rightarrow> (result_path \<Rightarrow> failure option) \<Rightarrow> journal_env" where
  "faulty env f g = env\<lparr>jv_fault := f, jv_rm := g\<rparr>"

lemma faulty_simps [simp]:
  "jv_action (faulty env f g) = jv_action env" "jv_result (faulty env f g) = jv_result env"
  "jv_fence (faulty env f g) = jv_fence env" "jv_key (faulty env f g) = jv_key env"
  "jv_canonical (faulty env f g) = jv_canonical env" "jv_resultBytes (faulty env f g) = jv_resultBytes env"
  "jv_stagedBytes (faulty env f g) = jv_stagedBytes env" "jv_journalBytes (faulty env f g) = jv_journalBytes env"
  "jv_fault (faulty env f g) = f" "jv_rm (faulty env f g) = g"
  by (simp_all add: faulty_def)

inductive journal_step :: "journal_env \<Rightarrow> journal_world \<Rightarrow> journal_world \<Rightarrow> bool" for env where
  prepares: "prepare (faulty env f g) input now w = (r, w') \<Longrightarrow> journal_step env w w'"
| interrupts: "interruptPreparedBeforeDispatch (faulty env f g) action now w = (r, w') \<Longrightarrow> journal_step env w w'"
| reviews: "interruptOperatorReviewedPolicyDeferral (faulty env f g) oe review now w = (r, w') \<Longrightarrow> journal_step env w w'"
| dispatches: "markDispatched (faulty env f g) now i provider w = (r, w') \<Longrightarrow> journal_step env w w'"
| defers: "defer_action (faulty env f g) now i res w = (r, w') \<Longrightarrow> journal_step env w w'"
| observes: "observe_action (faulty env f g) now i res w = (r, w') \<Longrightarrow> journal_step env w w'"
| reconciles: "reconcile_action (faulty env f g) now i rec w = (r, w') \<Longrightarrow> journal_step env w w'"
| completes_read: "\<forall>e. entry_at env w i = Some e \<longrightarrow> je_risk e = Read
    \<Longrightarrow> journal_transition (faulty env f g) now i JCompleted md w = (r, w') \<Longrightarrow> journal_step env w w'"
| stages: "writeStagedResult (faulty env f g) staged w = (r, w') \<Longrightarrow> journal_step env w w'"
| commits: "commit_completion (faulty env f g) now i staged w = (r, w') \<Longrightarrow> journal_step env w w'"
| recovers: "recover_commit (faulty env f g) now i staged w = (r, w') \<Longrightarrow> journal_step env w w'"
| publishes: "publishStagedResult (faulty env f g) staged w = (r, w') \<Longrightarrow> journal_step env w w'"

abbreviation journal_run :: "journal_env \<Rightarrow> journal_world \<Rightarrow> journal_world \<Rightarrow> bool" where
  "journal_run env \<equiv> (journal_step env)\<^sup>*\<^sup>*"

definition empty_journal :: journal_world where
  "empty_journal = \<lparr>jw_file = Missing, jw_staged = (\<lambda>_. Missing), jw_results = (\<lambda>_. Missing)\<rparr>"

definition reachable_journal :: "journal_env \<Rightarrow> journal_world \<Rightarrow> bool" where
  "reachable_journal env w \<longleftrightarrow> journal_run env empty_journal w"

lemma interrupted_bound_faulty [simp]: "interrupted_bound (faulty env f g) e = interrupted_bound env e"
  by (simp add: interrupted_bound_def)

lemma check_history_faulty [simp]: "check_history (faulty env f g) e = check_history env e"
  unfolding check_history_def interrupted_bound_faulty ..

lemma validate_journal_entry_faulty [simp]:
  "validate_journal_entry (faulty env f g) ids e = validate_journal_entry env ids e"
  unfolding validate_journal_entry_def check_history_faulty ..

lemma validate_journal_entries_faulty [simp]:
  "validate_journal_entries (faulty env f g) ids es = validate_journal_entries env ids es"
  by (induction es arbitrary: ids) simp_all

lemma validateJournal_faulty [simp]: "validateJournal (faulty env f g) es = validateJournal env es"
  by (simp add: validateJournal_def)

lemma read_journal_faulty [simp]: "read_journal (faulty env f g) x = read_journal env x"
  by (cases x) simp_all

lemma entry_at_faulty [simp]: "entry_at (faulty env f g) = entry_at env"
  by (simp add: entry_at_def fun_eq_iff)

lemma life_cycle_faulty: "life_cycle (faulty env f g) x y \<Longrightarrow> life_cycle env x y"
proof (induction rule: life_cycle.induct)
  case (interrupted e now)
  then show ?case
    using life_cycle.interrupted [of e env now] by (simp add: interruption_metadata_def)
qed (auto intro: life_cycle.intros)

lemma follows_faulty: "follows (faulty env f g) w w' \<Longrightarrow> follows env w w'"
  using life_cycle_faulty by fastforce

lemma journal_step_follows: "journal_step env w w' \<Longrightarrow> follows env w w'"
proof (induction rule: journal_step.induct)
  case (completes_read w i f g now md r w')
  show ?case by (rule follows_faulty, rule follows_transition [OF completes_read(2)]) (use completes_read(1) in auto)
next
  case (stages f g staged w r w')
  then show ?case using writeStagedResult_frame [OF stages] by (simp add: follows_file)
next
  case (publishes f g staged w r w')
  then show ?case using publishStagedResult_frame [OF publishes] by (simp add: follows_file)
qed (rule follows_faulty, erule follows_prepare follows_interrupt follows_review follows_markDispatched follows_defer
  follows_observe follows_reconcile follows_complete_commit follows_recover_commit)+

lemma journal_run_follows: "journal_run env w w' \<Longrightarrow> (life_cycle env)\<^sup>*\<^sup>* (entry_at env w i) (entry_at env w' i)"
  by (induction rule: rtranclp_induct) (auto dest!: journal_step_follows intro: rtranclp.rtrancl_into_rtrancl)

section \<open>Operations as runs\<close>

lemma run_step: "journal_step env w w1 \<Longrightarrow> journal_run env w1 w2 \<Longrightarrow> journal_run env w w2"
  by (rule converse_rtranclp_into_rtranclp)

lemma inspect_frame: "inspect_journal env i w = (r, w') \<Longrightarrow> w' = w"
  by (auto simp: inspect_journal_def split: option.split_asm)

lemma inspect_entry: "inspect_journal env i w = (Inr e, w') \<Longrightarrow> entry_at env w i = Some e"
  by (auto simp: inspect_journal_def entry_at_def bind_result_Inr split: option.split_asm)

lemma run_complete:
  assumes "complete_action (faulty env f g) now i vd res w = (r, w')"
  shows "journal_run env w w'"
proof (cases "journal_sha vd")
  case (Inl e)
  with assms show ?thesis by (simp add: complete_action_def)
next
  case (Inr d)
  obtain q w0 where q: "inspect_journal (faulty env f g) i w = (q, w0)" by (cases "inspect_journal (faulty env f g) i w")
  have w0: "w0 = w" using inspect_frame [OF q] .
  show ?thesis
  proof (cases q)
    case (Inl e)
    with assms Inr q w0 show ?thesis by (simp add: complete_action_def \<open>journal_sha vd = Inr d\<close>)
  next
    case (Inr e)
    note entry = inspect_entry [OF q [unfolded Inr]]
    show ?thesis
    proof (cases "je_risk e = Read")
      case True
      with assms Inr q w0 \<open>journal_sha vd = Inr d\<close> have "journal_transition (faulty env f g) now i JCompleted
          (no_metadata\<lparr>md_verificationDigest := Some d\<rparr>) w = (r, w')" by (simp add: complete_action_def)
      then have "journal_step env w w'" by (rule journal_step.completes_read [rotated]) (use entry True in simp)
      then show ?thesis by blast
    next
      case False
      have commit: "commit_completion (faulty env f g) now i staged w = (x, w1) \<Longrightarrow> journal_step env w w1" for staged x w1
        by (rule journal_step.commits)
      have publish: "publishStagedResult (faulty env f g) staged w1 = (x, w2) \<Longrightarrow> journal_step env w1 w2" for staged x w1 w2
        by (rule journal_step.publishes)
      show ?thesis
        using assms Inr q w0 \<open>journal_sha vd = Inr d\<close> False
        by (auto simp: complete_action_def split: sum.split_asm option.split_asm prod.split_asm
            dest!: commit publish intro: run_step)
    qed
  qed
qed

lemma run_recover_staged:
  "recover_staged (faulty env f g) now i staged w = (r, w') \<Longrightarrow> journal_run env w w'"
  by (auto simp: recover_staged_def split: sum.split_asm prod.split_asm
      dest!: journal_step.recovers journal_step.publishes intro: run_step)

lemma run_recover:
  assumes "recoverPendingCompletion (faulty env f g) now i action w = (r, w')"
  shows "journal_run env w w'"
proof -
  have orphan: "readLegacyOrphanResult (faulty env f g) e action w = (x, w1) \<Longrightarrow> journal_run env w w1" for e x w1
    by (auto simp: readLegacyOrphanResult_def split: durable.split_asm sum.split_asm prod.split_asm
        dest!: journal_step.stages)
  show ?thesis
    using assms
    by (auto simp: recoverPendingCompletion_def split: sum.split_asm option.split_asm prod.split_asm if_split_asm
        dest!: run_recover_staged orphan inspect_frame intro: rtranclp_trans)
qed

lemma replay_result_frame: "replay_result env e w = (r, w') \<Longrightarrow> w' = w"
  by (auto simp: replay_result_def split: if_split_asm option.split_asm durable.split_asm)

lemma run_replay:
  "replayCompleted (faulty env f g) now i w = (r, w') \<Longrightarrow> journal_run env w w'"
  by (auto simp: replayCompleted_def split: sum.split_asm prod.split_asm if_split_asm
      dest!: inspect_frame replay_result_frame run_recover)

datatype journal_op =
    PrepareOp prepare_input int
  | InterruptOp ActionRequest int
  | ReviewOp operator_evidence operator_review int
  | DispatchOp int string "string option"
  | DeferOp int string ActionResult
  | ObserveOp int string ActionResult
  | ReconcileOp int string ProviderReconciliationResult
  | CompleteOp int string string "ActionResult option"
  | RecoverOp int string "ActionRequest option"
  | ReplayOp int string

fun journal_exec :: "journal_env \<Rightarrow> journal_op \<Rightarrow> journal_world \<Rightarrow> journal_world" where
  "journal_exec env (PrepareOp input now) w = snd (prepare env input now w)"
| "journal_exec env (InterruptOp action now) w = snd (interruptPreparedBeforeDispatch env action now w)"
| "journal_exec env (ReviewOp oe review now) w = snd (interruptOperatorReviewedPolicyDeferral env oe review now w)"
| "journal_exec env (DispatchOp now i provider) w = snd (markDispatched env now i provider w)"
| "journal_exec env (DeferOp now i res) w = snd (defer_action env now i res w)"
| "journal_exec env (ObserveOp now i res) w = snd (observe_action env now i res w)"
| "journal_exec env (ReconcileOp now i rec) w = snd (reconcile_action env now i rec w)"
| "journal_exec env (CompleteOp now i vd res) w = snd (complete_action env now i vd res w)"
| "journal_exec env (RecoverOp now i action) w = snd (recoverPendingCompletion env now i action w)"
| "journal_exec env (ReplayOp now i) w = snd (replayCompleted env now i w)"

lemma journal_exec_run: "journal_run env w (journal_exec (faulty env f g) op w)"
proof (cases op)
  case (CompleteOp now i vd res)
  then show ?thesis using run_complete [OF surjective_pairing] by simp
next
  case (RecoverOp now i action)
  then show ?thesis using run_recover [OF surjective_pairing] by simp
next
  case (ReplayOp now i)
  then show ?thesis using run_replay [OF surjective_pairing] by simp
qed (auto intro!: r_into_rtranclp intro: journal_step.intros(1-7) [OF surjective_pairing])

section \<open>Invariants of an entry\<close>

text \<open>An entry is observed, uncertain or reconciled only after a dispatch.\<close>

lemma chain_needs_dispatch:
  assumes "chain ts" "ts \<noteq> []" "jt_state (hd ts) = JPrepared" "jt_state (last ts) \<in> {JObserved, JUncertain, JReconciled}"
  shows "JDispatched \<in> jt_state ` set ts"
  using assms
proof (induction ts rule: rev_induct)
  case (snoc t ts)
  show ?case
  proof (cases "ts = []")
    case False
    then have "chain ts" "allowedTransition (jt_state (last ts)) (jt_state t)"
      using snoc.prems(1) by (auto simp: successively_append_iff)
    moreover have "jt_state (last ts) \<in> {JDispatched, JObserved, JUncertain, JReconciled}"
      using calculation(2) snoc.prems(4) by (cases "jt_state (last ts)") (auto simp: allowedTransition_def)
    ultimately show ?thesis using snoc.IH snoc.prems(3) False by (auto simp: image_iff) (metis last_in_set)
  qed (use snoc.prems in auto)
qed simp

definition dispatch_proved :: "ActionJournalEntry \<Rightarrow> bool" where
  "dispatch_proved e \<longleftrightarrow>
     (je_risk e \<noteq> Read \<and> verified_completion e \<noteq> None \<longrightarrow> JDispatched \<in> jt_state ` set (je_transitions e))"

lemma verified_completion_initial: "je_transitions e = initial_transitions now \<Longrightarrow> verified_completion e = None"
  by (simp add: verified_completion_def initial_transitions_def transition_of_def)

lemma verified_completion_advance:
  "verified_completion (advance e nxt now md) =
     (if nxt = JCompleted \<and> truthy (md_verificationDigest md) \<noteq> None \<and> truthy (md_resultDigest md) \<noteq> None
      then Some (transition_of (int (length (je_transitions e)) + 1) nxt now md) else verified_completion e)"
  by (auto simp: verified_completion_def transition_of_def)

lemma truthy_None [simp]: "truthy None = None"
  by (simp add: truthy_def)

lemma truthy_SomeD [dest]: "truthy v = Some s \<Longrightarrow> v = Some s"
  by (auto simp: truthy_def split: option.split_asm if_split_asm)

lemma life_cycle_dispatch_proved:
  assumes "life_cycle env x y" "\<And>e. x = Some e \<Longrightarrow> good_entry env e \<and> dispatch_proved e" "y = Some e'"
  shows "dispatch_proved e'"
  using assms
proof (cases rule: life_cycle.cases)
  case (advanced e nxt md now)
  have "good_entry env e" "dispatch_proved e" using assms(2) advanced(1) by auto
  note good = good_entryD [OF this(1)]
  have "je_state e \<in> {JObserved, JReconciled} \<Longrightarrow> JDispatched \<in> jt_state ` set (je_transitions e)"
    using chain_needs_dispatch [OF good(3,1,2)] good(4) by auto
  moreover have "e' = advance e nxt now md" using advanced(2) assms(3) by simp
  ultimately show ?thesis
    using \<open>dispatch_proved e\<close> advanced(5)
    by (auto simp: dispatch_proved_def verified_completion_advance split: if_split_asm)
next
  case (interrupted e now)
  then show ?thesis
    using assms(2,3) by (auto simp: dispatch_proved_def verified_completion_advance)
qed (auto simp: dispatch_proved_def verified_completion_initial)

lemma reachable_dispatch_proved:
  assumes "reachable_journal env w" "entry_at env w i = Some e"
  shows "dispatch_proved e"
  using assms unfolding reachable_journal_def
proof (induction arbitrary: e rule: rtranclp_induct)
  case base
  then show ?case by (simp add: entry_at_def empty_journal_def)
next
  case (step w w')
  have "life_cycle env (entry_at env w i) (entry_at env w' i)" using journal_step_follows [OF step(2)] by blast
  then show ?case by (rule life_cycle_dispatch_proved) (use step entry_atD in auto)
qed

lemma interrupted_unchanged:
  assumes "life_cycle env (Some e) y" "je_state e = JInterrupted"
  shows "y = Some e"
  using assms
  by (cases rule: life_cycle.cases)
    (auto simp: allowedTransition_def initially_prepared_def initially_policy_deferred_def)

lemma interrupted_forever:
  assumes "journal_run env w w'" "entry_at env w i = Some e" "je_state e = JInterrupted"
  shows "entry_at env w' i = Some e"
  using assms(1)
proof (induction rule: rtranclp_induct)
  case (step w1 w2)
  have "life_cycle env (entry_at env w1 i) (entry_at env w2 i)" using journal_step_follows [OF step(2)] by blast
  then show ?case using step(3) interrupted_unchanged assms(3) by metis
qed (rule assms(2))

lemma interrupted_never_dispatched:
  assumes "good_entry env e" "je_state e = JInterrupted"
  shows "JDispatched \<notin> jt_state ` set (je_transitions e)"
proof -
  note good = good_entryD [OF assms(1)] and bound = good_entryD(6) [OF assms]
  obtain ts where ts: "je_transitions e = ts" by simp
  from bound have shape: "length ts = 2 \<or> (length ts = 3 \<and> policy_deferred (ts ! 1))"
    by (auto simp: interrupted_bound_def Let_def ts)
  then show ?thesis
    using good(2,4) assms(2)
    by (auto simp: ts numeral_2_eq_2 numeral_3_eq_3 length_Suc_conv policy_deferred_def)
qed

lemma transition_refused:
  assumes "entry_at env w i = Some e" "\<not> allowedTransition (je_state e) nxt"
  shows "\<exists>err. journal_transition env now i nxt md w = (Inl err, w)"
proof -
  obtain r w' where run: "journal_transition env now i nxt md w = (r, w')" by (cases "journal_transition env now i nxt md w")
  from run have "mutate_entry env i (\<lambda>e. applyTransition e nxt now md) w = (r, w')" by (simp add: journal_transition_def)
  then have "\<exists>err. r = Inl err \<and> w' = w"
  proof (cases rule: mutate_entry_cases)
    case (changed e2 e')
    then show ?thesis using assms by (auto simp: applyTransition_def allowedTransition_def)
  qed (auto dest: applyTransition_frame)
  with run show ?thesis by auto
qed

lemma dispatch_refused:
  assumes "entry_at env w i = Some e" "\<not> allowedTransition (je_state e) JDispatched"
  shows "\<exists>err. markDispatched env now i provider w = (Inl err, w)"
  using transition_refused [OF assms] by (auto simp: markDispatched_def split: option.split)

section \<open>Properties of histories\<close>

text \<open>
  C9. The journal refines the life cycle of its actions: after any interleaving of the atomic pieces of
  journal operations, and then any whole operation with any failure of its completion hook or of its file
  removals, the entry of every action has followed the abstract life cycle.
\<close>

theorem journal_refines_life_cycle:
  assumes "journal_run env w w'"
  shows "(life_cycle env)\<^sup>*\<^sup>* (entry_at env w i) (entry_at env (journal_exec (faulty env f g) op w') i)"
  using journal_run_follows [OF rtranclp_trans [OF assms journal_exec_run]] .

text \<open>
  C11. The pre-dispatch fence holds: an interrupted entry has no dispatch in its history, no later run of
  journal operations changes it, and a dispatch is refused in every later world.
\<close>

theorem interruption_fences_dispatch:
  assumes "entry_at env w i = Some e" "je_state e = JInterrupted" "journal_run env w w'"
  shows "JDispatched \<notin> jt_state ` set (je_transitions e) \<and> entry_at env w' i = Some e
    \<and> (\<exists>err. markDispatched env now i provider w' = (Inl err, w'))"
proof -
  have later: "entry_at env w' i = Some e" using interrupted_forever [OF assms(3,1,2)] .
  have "\<not> allowedTransition (je_state e) JDispatched" using assms(2) by (simp add: allowedTransition_def)
  with later dispatch_refused interrupted_never_dispatched [OF _ assms(2)] entry_atD [OF assms(1)] show ?thesis by blast
qed

lemma completed_life_cycle:
  assumes "life_cycle env (Some e) (Some e')" "je_state e = JCompleted" "je_risk e \<noteq> Read"
  shows "(je_state e' = JCompleted \<and> verified_completion e' = verified_completion e)
    \<or> (\<exists>at. je_transitions e' = initial_transitions at)"
  using assms
proof (cases rule: life_cycle.cases)
  case (advanced nxt md now)
  then show ?thesis using assms(2,3) by (auto simp: allowedTransition_def verified_completion_advance)
qed (auto simp: initially_prepared_def initially_policy_deferred_def)


section \<open>Completion after a failure\<close>

lemma check_transitions_snoc:
  "check_transitions n previous (ts @ [t]) = None \<longleftrightarrow>
     check_transitions n previous ts = None
     \<and> check_transition (n + length ts) (if ts = [] then previous else Some (last ts)) t = None"
  by (induction n previous ts rule: check_transitions.induct) (auto split: option.split)

lemma good_entry_history:
  "good_entry env e \<Longrightarrow> check_history env e = None"
  by (auto simp: good_entry_def validate_journal_entry_def bind_result_Inr split: option.split_asm)

lemma good_entry_advance:
  assumes "good_entry env e" "allowedTransition (je_state e) nxt" "nxt \<noteq> JInterrupted"
    and "length (je_transitions e) < MAX_TRANSITIONS" "je_updatedAt e \<le> now"
    and "check_transition (length (je_transitions e)) (Some (last (je_transitions e)))
      (transition_of (int (length (je_transitions e)) + 1) nxt now md) = None"
  shows "good_entry env (advance e nxt now md)"
proof -
  note good = good_entryD [OF assms(1)] and hist = good_entry_history [OF assms(1)]
  let ?ts = "je_transitions e" and ?t = "transition_of (int (length (je_transitions e)) + 1) nxt now md"
  have parts: "check_transitions 0 None ?ts = None" "je_createdAt e \<le> jt_at (hd ?ts)"
    using hist by (auto simp: check_history_def Let_def first_failure_None split: if_split_asm option.split_asm)
  have "check_transitions 0 None (?ts @ [?t]) = None"
    using check_transitions_snoc [of 0 None ?ts ?t] parts(1) assms(6) good(1) by simp
  then have "check_history env (advance e nxt now md) = None"
    using parts(2) good(1,2) assms(3,4) by (simp add: check_history_def first_failure_None transition_of_def)
  then show ?thesis
    using assms(1) good(7)
    by (auto simp: good_entry_def validate_journal_entry_def bind_result_def advance_def split: option.split_asm)
qed

lemma validate_good_entries:
  "distinct (map je_actionId es) \<Longrightarrow> set ids \<inter> je_actionId ` set es = {} \<Longrightarrow> \<forall>e\<in>set es. good_entry env e
   \<Longrightarrow> validate_journal_entries env ids es = Inr es"
proof (induction es arbitrary: ids)
  case (Cons e es)
  have "validate_journal_entry env ids e = Inr e"
    using Cons.prems(2,3)
    by (auto simp: good_entry_def validate_journal_entry_def bind_result_def first_failure_None split: option.split_asm option.split)
  moreover have "validate_journal_entries env (je_actionId e # ids) es = Inr es" using Cons.prems by (intro Cons.IH) auto
  ultimately show ?case by (simp add: bind_result_def)
qed simp

lemma validate_store_entry:
  assumes "journal_ok env es" "find (\<lambda>x. je_actionId x = i) es = Some e" "good_entry env e'" "je_actionId e' = je_actionId e"
  shows "validateJournal env (store_entry e' es) = Inr (store_entry e' es)"
proof -
  note ok = journal_okD [OF assms(1)]
  have "\<not> length es > MAX_ENTRIES" using assms(1) by (auto simp: journal_ok_def validateJournal_def split: if_split_asm)
  moreover have "map je_actionId (store_entry e' es) = map je_actionId es"
    unfolding store_entry_def by (induction es) auto
  moreover have "\<forall>x\<in>set (store_entry e' es). good_entry env x"
    using ok assms(3) by (auto simp: store_entry_def dest: set_update_first_subset)
  ultimately show ?thesis
    using validate_good_entries [of "store_entry e' es" "[]" env] ok by (auto simp: validateJournal_def store_entry_def)
qed

lemma mutate_entry_ok:
  assumes "read_journal env (jw_file w) = Inr es" "find (\<lambda>x. je_actionId x = i) es = Some e" "change e = Inr e'"
    and "good_entry env e'" "je_actionId e' = je_actionId e" "jv_journalBytes env (store_entry e' es) \<le> STORE_MAX_BYTES"
  shows "mutate_entry env i change w = (Inr e', w\<lparr>jw_file := Stored (store_entry e' es)\<rparr>)"
proof -
  have ok: "journal_ok env es" by (rule read_journal_ok [OF assms(1)])
  have "good_entry env e" "je_actionId e = i" using journal_okD [OF ok] find_SomeD [OF assms(2)] by auto
  then have "journal_bounded i 512 = None"
    by (auto simp: good_entry_def validate_journal_entry_def first_failure_None split: option.split_asm)
  then have "findEntry es i = Inr e" using assms(2) by (simp add: findEntry_def)
  then show ?thesis
    using assms validate_store_entry [OF ok assms(2,4,5)]
    by (simp add: mutate_entry_def mutate_journal_def bind_result_def)
qed

lemma journal_sha_id: "hex64_lower s \<Longrightarrow> journal_sha s = Inr s"
  by (simp add: journal_sha_def hex64_lower_id)

lemma journal_sha_Inr: "journal_sha s = Inr d \<Longrightarrow> hex64_lower d"
  by (auto simp: journal_sha_def split: if_split_asm)

text \<open>
  A mutation that was observed or reconciled and whose verified result is about to be completed at time
  \<open>now\<close>: nothing is staged or published for it yet, and the history and the files have room for it.
\<close>

definition pending_completion ::
  "journal_env \<Rightarrow> journal_world \<Rightarrow> string \<Rightarrow> ActionJournalEntry \<Rightarrow> string \<Rightarrow> ActionResult \<Rightarrow> int \<Rightarrow> bool" where
  "pending_completion env w i e d res now \<longleftrightarrow>
     entry_at env w i = Some e \<and> je_risk e \<noteq> Read \<and> je_state e \<in> {JObserved, JReconciled}
     \<and> complete_stage env d (Some res) e = Inr (stage_for e d (jv_result env res) res)
     \<and> recorded_provider e = Some (ar_provider res)
     \<and> jw_staged w (jv_key env i) = Missing \<and> jw_results w (jv_key env i) = Missing
     \<and> length (je_transitions e) < MAX_TRANSITIONS \<and> je_updatedAt e \<le> now
     \<and> hex64_lower (jv_result env res) \<and> hex64_lower (je_actionDigest e) \<and> hex64_lower d
     \<and> jv_resultBytes env res \<le> RESULT_MAX_BYTES
     \<and> jv_stagedBytes env (stage_for e d (jv_result env res) res) \<le> STAGED_MAX_BYTES"

definition room_for :: "journal_env \<Rightarrow> journal_world \<Rightarrow> ActionJournalEntry \<Rightarrow> TransitionMetadata \<Rightarrow> bool" where
  "room_for env w e md \<longleftrightarrow> (\<forall>es at. read_journal env (jw_file w) = Inr es
     \<longrightarrow> jv_journalBytes env (store_entry (advance e JCompleted at md) es) \<le> STORE_MAX_BYTES)"

lemma stage_simps [simp]:
  "sr_actionId (stage_for e d rd res) = je_actionId e" "sr_result (stage_for e d rd res) = res"
  "sr_actionDigest (stage_for e d rd res) = je_actionDigest e" "sr_capability (stage_for e d rd res) = je_capability e"
  "sr_journalGeneration (stage_for e d rd res) = je_generation e"
  "sr_verificationDigest (stage_for e d rd res) = d" "sr_resultDigest (stage_for e d rd res) = rd"
  by (simp_all add: stage_for_def)

lemma completion_metadata_simps [simp]:
  "md_provider (completion_metadata s) = None" "md_reconciliationStatus (completion_metadata s) = None"
  "md_verificationDigest (completion_metadata s) = Some (sr_verificationDigest s)"
  "md_resultDigest (completion_metadata s) = Some (sr_resultDigest s)"
  by (simp_all add: completion_metadata_def)

lemma pending_stage:
  assumes "pending_completion env w i e d res now"
  defines "staged \<equiv> stage_for e d (jv_result env res) res"
  shows "validateReplayResult res (je_capability e) = Inr res" "kernelVerificationDigest res = Some d"
    "validateStagedResult env staged = Inr staged" "assertStageMatchesEntry staged e = None"
proof -
  have good: "good_entry env e" "je_actionId e = i" using assms(1) entry_atD by (auto simp: pending_completion_def)
  have stage: "complete_stage env d (Some res) e = Inr staged" using assms by (simp add: pending_completion_def)
  obtain r where "validateReplayResult res (je_capability e) = Inr r" "kernelVerificationDigest r = Some d"
    using stage by (auto simp: complete_stage_def bind_result_Inr split: if_split_asm)
  moreover have "r = res"
    using calculation(1) by (auto simp: validateReplayResult_def split: option.split_asm)
  ultimately show replay: "validateReplayResult res (je_capability e) = Inr res" "kernelVerificationDigest res = Some d"
    by auto
  have entry: "journal_bounded (je_actionId e) 512 = None" "journal_bounded (je_capability e) 256 = None"
    "journal_integer (je_generation e) 1 max_safe_integer = None"
    using good(1)
    by (auto simp: good_entry_def validate_journal_entry_def bind_result_Inr first_failure_None split: option.split_asm)
  have hex: "hex64_lower (jv_result env res)" "hex64_lower (je_actionDigest e)" "hex64_lower d"
    using assms(1) by (auto simp: pending_completion_def)
  show "validateStagedResult env staged = Inr staged"
    unfolding validateStagedResult_def staged_def
    by (simp add: entry replay bind_result_def journal_sha_id [OF hex(1)] journal_sha_id [OF hex(2)] journal_sha_id [OF hex(3)])
  show "assertStageMatchesEntry staged e = None"
    using assms(1) by (simp add: assertStageMatchesEntry_def staged_def pending_completion_def)
qed

lemma pending_advance:
  assumes "pending_completion env w i e d res now" "now \<le> at"
  defines "staged \<equiv> stage_for e d (jv_result env res) res"
  shows "good_entry env (advance e JCompleted at (completion_metadata staged))"
    "recover_entry at staged e = Inr (advance e JCompleted at (completion_metadata staged))"
    "applyTransition e JCompleted at (completion_metadata staged) = Inr (advance e JCompleted at (completion_metadata staged))"
proof -
  have good: "good_entry env e" using assms(1) entry_atD by (auto simp: pending_completion_def)
  have st: "je_state e \<in> {JObserved, JReconciled}" "je_updatedAt e \<le> at" "length (je_transitions e) < MAX_TRANSITIONS"
    "hex64_lower (jv_result env res)" "hex64_lower d"
    using assms(1,2) by (auto simp: pending_completion_def)
  have allowed: "allowedTransition (je_state e) JCompleted" using st(1) by (auto simp: allowedTransition_def)
  note facts = good_entryD [OF good]
  have last_at: "jt_at (last (je_transitions e)) = je_updatedAt e"
    using good_entry_history [OF good]
    by (auto simp: check_history_def Let_def first_failure_None split: if_split_asm option.split_asm)
  have "check_transition (length (je_transitions e)) (Some (last (je_transitions e)))
      (transition_of (int (length (je_transitions e)) + 1) JCompleted at (completion_metadata staged)) = None"
    using allowed st facts(1,4) last_at journal_sha_id
    by (simp add: check_transition_def first_failure_None transition_of_def opt_check_def sha_check_def
        validateTransitionMetadata_def staged_def)
  from good_entry_advance [OF good allowed _ st(3,2) this]
  show "good_entry env (advance e JCompleted at (completion_metadata staged))" by simp
  show apply_ok: "applyTransition e JCompleted at (completion_metadata staged) = Inr (advance e JCompleted at (completion_metadata staged))"
    using allowed st(1,3) by (auto simp: applyTransition_def advance_def)
  show "recover_entry at staged e = Inr (advance e JCompleted at (completion_metadata staged))"
    using pending_stage(4) [OF assms(1)] apply_ok st(1) unfolding recover_entry_def staged_def by auto
qed

lemma hex64_truthy: "hex64_lower s \<Longrightarrow> truthy (Some s) = Some s"
  by (auto simp: hex64_lower_def truthy_def)

lemma pending_completed:
  assumes "pending_completion env w i e d res now"
  defines "staged \<equiv> stage_for e d (jv_result env res) res"
  defines "c at \<equiv> advance e JCompleted at (completion_metadata staged)"
  shows "recover_entry at' staged (c at) = Inr (c at)" "assertStageMatchesEntry staged (c at) = None"
    "\<exists>t. verified_completion (c at) = Some t \<and> jt_resultDigest t = Some (jv_result env res)"
proof -
  have hex: "hex64_lower (jv_result env res)" "hex64_lower d" using assms(1) by (auto simp: pending_completion_def)
  have "recorded_provider (c at) = recorded_provider e"
    by (simp add: recorded_provider_def c_def transition_of_def)
  then show entry: "assertStageMatchesEntry staged (c at) = None"
    using pending_stage(4) [OF assms(1)] by (simp add: assertStageMatchesEntry_def c_def staged_def)
  have "assertStageMatchesCompletion staged (c at) = None"
    using hex by (simp add: assertStageMatchesCompletion_def c_def staged_def transition_of_def hex64_truthy)
  with entry show "recover_entry at' staged (c at) = Inr (c at)" by (simp add: recover_entry_def c_def)
  show "\<exists>t. verified_completion (c at) = Some t \<and> jt_resultDigest t = Some (jv_result env res)"
    unfolding c_def using hex by (simp add: verified_completion_advance hex64_truthy staged_def transition_of_def)
qed

definition published :: "string \<Rightarrow> ActionResult \<Rightarrow> journal_world \<Rightarrow> journal_world" where
  "published k res w = w\<lparr>jw_staged := (jw_staged w)(k := Missing), jw_results := (jw_results w)(k := Stored res)\<rparr>"

text \<open>Replaying an action that is completed and published.\<close>

lemma replay_published:
  assumes "entry_at env w i = Some c" "je_state c = JCompleted" "je_risk c \<noteq> Read"
    and "verified_completion c = Some t" "jt_resultDigest t = Some (jv_result env res)"
    and "validateReplayResult res (je_capability c) = Inr res" "jw_results w (jv_key env i) = Stored res"
  shows "replay_result env c w = (Inr (Some res), w)"
    "jw_staged w (jv_key env i) = Missing \<Longrightarrow> replayCompleted env now i w = (Inr (Some res), w)"
proof -
  have good: "good_entry env c" "je_actionId c = i" using entry_atD [OF assms(1)] by auto
  show replay: "replay_result env c w = (Inr (Some res), w)"
    using assms good(2) by (simp add: replay_result_def bind_result_def)
  have bound: "journal_bounded i 512 = None"
    using good by (auto simp: good_entry_def validate_journal_entry_def first_failure_None split: option.split_asm)
  then have "inspect_journal env i w = (Inr c, w)"
    using assms(1) by (auto simp: inspect_journal_def entry_at_def bind_result_def split: sum.splits)
  then show "jw_staged w (jv_key env i) = Missing \<Longrightarrow> replayCompleted env now i w = (Inr (Some res), w)"
    using assms(2,3) good(2) bound replay by (simp add: replayCompleted_def recoverPendingCompletion_def)
qed

text \<open>Replaying an action whose completion is staged, whether or not the journal and the result file have it.\<close>

lemma replay_staged:
  assumes pending: "pending_completion env w i e d res now"
  defines "staged \<equiv> stage_for e d (jv_result env res) res" and "k \<equiv> jv_key env i"
  assumes hooks: "jv_fault env = (\<lambda>_ _. None)" "jv_rm env = (\<lambda>_. None)"
    and v: "read_journal env (jw_file v) = Inr es" "find (\<lambda>x. je_actionId x = i) es = Some x"
      "recover_entry at' staged x = Inr c" "c = advance e JCompleted at (completion_metadata staged)" "now \<le> at"
      "je_actionId x = i" "je_risk x \<noteq> Read" "jv_journalBytes env (store_entry c es) \<le> STORE_MAX_BYTES"
      "jw_staged v k = Stored staged" "jw_results v k \<in> {Missing, Stored res}"
  shows "replayCompleted env at' i v = (Inr (Some res), published k res (v\<lparr>jw_file := Stored (store_entry c es)\<rparr>))"
proof -
  let ?v1 = "v\<lparr>jw_file := Stored (store_entry c es)\<rparr>"
  have e: "je_actionId e = i" "je_risk e \<noteq> Read" "jv_resultBytes env res \<le> RESULT_MAX_BYTES"
    using pending entry_atD by (auto simp: pending_completion_def)
  have good: "good_entry env c" using pending_advance(1) [OF pending v(5)] v(4) by (simp add: staged_def)
  have ok: "journal_ok env es" by (rule read_journal_ok [OF v(1)])
  have x: "good_entry env x" using journal_okD [OF ok] find_SomeD [OF v(2)] by auto
  have bound: "journal_bounded i 512 = None"
    using x v(6) by (auto simp: good_entry_def validate_journal_entry_def first_failure_None split: option.split_asm)
  have commit: "recover_commit env at' i staged v = (Inr c, ?v1)"
    unfolding recover_commit_def
    by (rule mutate_entry_ok [OF v(1,2)]) (use v e good in simp_all)
  note stage = pending_stage [OF pending, folded staged_def]
  have publish: "publishStagedResult env staged ?v1 = (Inr (), published k res ?v1)"
    using stage(1) e v(10) hooks
    by (auto simp: publishStagedResult_def published_def create_durable_def Let_def staged_def k_def)
  have inspect: "inspect_journal env i v = (Inr x, v)"
    using bound v(1,2) by (simp add: inspect_journal_def bind_result_def)
  have recover: "recoverPendingCompletion env at' i None v = (Inr c, published k res ?v1)"
    using bound v(9) stage(3) commit publish
    by (simp add: recoverPendingCompletion_def recover_staged_def k_def)
  have "validateJournal env (store_entry c es) = Inr (store_entry c es)"
    by (rule validate_store_entry [OF ok v(2) good]) (use v(4,6) e in simp)
  then have "journal_ok env (store_entry c es)" by (simp add: journal_ok_def)
  then have "entry_at env (published k res ?v1) i = find (\<lambda>x. je_actionId x = i) (store_entry c es)"
    by (simp add: entry_at_def published_def journal_ok_def)
  also have "\<dots> = Some c" using find_store_entry [of es c i] v(2,4) find_SomeD [OF v(2)] e by auto
  finally have entry: "entry_at env (published k res ?v1) i = Some c" .
  obtain t where t: "verified_completion c = Some t" "jt_resultDigest t = Some (jv_result env res)"
    using pending_completed(3) [OF pending, of at] v(4) by (auto simp: staged_def)
  have "replay_result env c (published k res ?v1) = (Inr (Some res), published k res ?v1)"
    by (rule replay_published(1) [OF entry _ _ t]) (use v(4) e stage(1) in \<open>auto simp: published_def k_def\<close>)
  then show ?thesis using inspect recover v(6,7) by (simp add: replayCompleted_def)
qed

text \<open>The worlds in which \<open>complete\<close> can stop once its result is staged.\<close>

definition staged_world :: "string \<Rightarrow> StagedCompletedResult \<Rightarrow> journal_world \<Rightarrow> journal_world" where
  "staged_world k staged w = w\<lparr>jw_staged := (jw_staged w)(k := Stored staged)\<rparr>"

definition completed_world ::
  "string \<Rightarrow> StagedCompletedResult \<Rightarrow> ActionJournalEntry list \<Rightarrow> journal_world \<Rightarrow> journal_world" where
  "completed_world k staged es w = (staged_world k staged w)\<lparr>jw_file := Stored es\<rparr>"

definition unswept_world ::
  "string \<Rightarrow> StagedCompletedResult \<Rightarrow> ActionJournalEntry list \<Rightarrow> journal_world \<Rightarrow> journal_world" where
  "unswept_world k staged es w =
     (completed_world k staged es w)\<lparr>jw_results := (jw_results w)(k := Stored (sr_result staged))\<rparr>"

lemmas stop_worlds = staged_world_def completed_world_def unswept_world_def published_def

lemma validateStagedResult_faulty [simp]: "validateStagedResult (faulty env f g) raw = validateStagedResult env raw"
  unfolding validateStagedResult_def faulty_simps ..

lemma complete_stops:
  assumes pending: "pending_completion env w i e d res now"
  defines "staged \<equiv> stage_for e d (jv_result env res) res" and "k \<equiv> jv_key env i"
  defines "c \<equiv> advance e JCompleted now (completion_metadata staged)"
  assumes es: "read_journal env (jw_file w) = Inr es" and room: "jv_journalBytes env (store_entry c es) \<le> STORE_MAX_BYTES"
    and vd: "journal_sha vd = Inr d" and run: "complete_action (faulty env f g) now i vd (Some res) w = (r, w1)"
  shows "w1 \<in> {staged_world k staged w, completed_world k staged (store_entry c es) w,
      unswept_world k staged (store_entry c es) w, published k res (completed_world k staged (store_entry c es) w)}"
proof -
  let ?env = "faulty env f g"
  have e: "je_actionId e = i" "je_risk e \<noteq> Read" "je_state e \<in> {JObserved, JReconciled}" "jw_staged w k = Missing"
      "jw_results w k = Missing" "jv_resultBytes env res \<le> RESULT_MAX_BYTES" "jv_stagedBytes env staged \<le> STAGED_MAX_BYTES"
      "good_entry env e" "complete_stage env d (Some res) e = Inr staged"
    using pending entry_atD by (auto simp: pending_completion_def k_def staged_def)
  have find: "find (\<lambda>x. je_actionId x = i) es = Some e" using pending es by (simp add: pending_completion_def entry_at_def)
  note stage = pending_stage [OF pending, folded staged_def] and adv = pending_advance [OF pending order_refl, folded staged_def c_def]
  have bound: "journal_bounded i 512 = None"
    using e(1,8) by (auto simp: good_entry_def validate_journal_entry_def first_failure_None split: option.split_asm)
  have valid: "validateJournal env (store_entry c es) = Inr (store_entry c es)"
    by (rule validate_store_entry [OF read_journal_ok [OF es] find adv(1)]) (simp add: c_def)
  have write_ok: "writeStagedResult ?env staged w = (Inr (), staged_world k staged w)"
    using e stage(3)
    by (simp add: writeStagedResult_def Let_def create_durable_def staged_world_def k_def staged_def)
  have commit: "commit_completion ?env now i staged w = (case f AfterResultStaged i of Some err \<Rightarrow> (Inl err, staged_world k staged w)
      | None \<Rightarrow> (Inr c, completed_world k staged (store_entry c es) w))"
  proof -
    have "findEntry es i = Inr e" using find bound by (simp add: findEntry_def)
    moreover have "validateJournal ?env (store_entry c es) = Inr (store_entry c es)" using valid by simp
    ultimately show ?thesis
      using es e stage(4) write_ok adv(3) room
      by (auto simp: commit_completion_def mutate_journal_def bind_result_def completed_world_def split: option.split)
  qed
  have publish: "snd (publishStagedResult ?env staged (completed_world k staged (store_entry c es) w)) \<in>
      {unswept_world k staged (store_entry c es) w, published k res (completed_world k staged (store_entry c es) w)}"
    using e stage(1)
    by (auto simp: publishStagedResult_def Let_def create_durable_def stop_worlds k_def staged_def split: option.split)
  have inspect: "inspect_journal ?env i w = (Inr e, w)"
    using es find bound by (simp add: inspect_journal_def bind_result_def)
  have stage_ok: "complete_stage ?env d (Some res) e = Inr staged"
    using e(9) unfolding complete_stage_def faulty_simps .
  show ?thesis
    using run publish
    by (auto simp: complete_action_def vd inspect e(2) stage_ok commit split: option.split_asm prod.split_asm sum.split_asm)
qed

text \<open>The journal after the completion: it is valid, and the entry of the action is the completed one.\<close>

lemma pending_store:
  assumes pending: "pending_completion env w i e d res now" and es: "read_journal env (jw_file w) = Inr es"
  defines "c \<equiv> \<lambda>at. advance e JCompleted at (completion_metadata (stage_for e d (jv_result env res) res))"
  shows "find (\<lambda>x. je_actionId x = i) es = Some e" "je_actionId e = i"
    "now \<le> at \<Longrightarrow> validateJournal env (store_entry (c at) es) = Inr (store_entry (c at) es)"
    "find (\<lambda>x. je_actionId x = i) (store_entry (c at) es) = Some (c at)"
proof -
  show find: "find (\<lambda>x. je_actionId x = i) es = Some e" using pending es by (simp add: pending_completion_def entry_at_def)
  show e: "je_actionId e = i" using pending entry_atD by (auto simp: pending_completion_def)
  show "validateJournal env (store_entry (c at) es) = Inr (store_entry (c at) es)" if "now \<le> at"
    by (rule validate_store_entry [OF read_journal_ok [OF es] find])
      (use pending_advance(1) [OF pending that] in \<open>simp_all add: c_def\<close>)
  show "find (\<lambda>x. je_actionId x = i) (store_entry (c at) es) = Some (c at)"
    using find_store_entry [of es "c at" i] find_SomeD [OF find] e by (auto simp: c_def)
qed

lemma replay_settled:
  assumes pending: "pending_completion env w i e d res now" and es: "read_journal env (jw_file w) = Inr es"
  defines "staged \<equiv> stage_for e d (jv_result env res) res"
  defines "c \<equiv> advance e JCompleted now (completion_metadata staged)"
  assumes "jv_journalBytes env (store_entry c es) \<le> STORE_MAX_BYTES" "jv_fault env = (\<lambda>_ _. None)" "jv_rm env = (\<lambda>_. None)"
    and v: "jw_file v = Stored (store_entry c es)" "jw_staged v (jv_key env i) = Stored staged"
      "jw_results v (jv_key env i) \<in> {Missing, Stored res}"
  shows "replayCompleted env now' i v = (Inr (Some res), published (jv_key env i) res v)"
proof -
  note store = pending_store(1,2) [OF pending es] pending_store(3,4) [OF pending es, of now, folded staged_def, folded c_def]
  have twice: "store_entry c (store_entry c es) = store_entry c es" using store_entry_same [OF store(4)] .
  have "je_risk e \<noteq> Read" using pending by (auto simp: pending_completion_def)
  then have "replayCompleted env now' i v
      = (Inr (Some res), published (jv_key env i) res (v\<lparr>jw_file := Stored (store_entry c (store_entry c es))\<rparr>))"
    by (intro replay_staged [OF pending assms(6,7), folded staged_def, where at = now and x = c])
      (use v store assms(5) pending_completed(1) [OF pending, folded staged_def] twice in \<open>auto simp: c_def\<close>)
  also have "v\<lparr>jw_file := Stored (store_entry c (store_entry c es))\<rparr> = v" using v(1) twice by simp
  finally show ?thesis .
qed

text \<open>
  C8. Completion survives a failure: when the verified result of an observed or reconciled mutation is
  completed, then however the completion hook and the file removals fail on the way (after the result is
  staged, after the journal is completed, after the result is published, or not at all), replaying the
  action afterwards returns exactly that result, the entry is completed once with its digests, the result
  file holds the result and nothing is left staged.
\<close>

theorem completion_survives_failure:
  assumes "pending_completion env w i e d res now" "journal_sha vd = Inr d" "now \<le> now'"
    and "room_for env w e (completion_metadata (stage_for e d (jv_result env res) res))"
    and "jv_fault env = (\<lambda>_ _. None)" "jv_rm env = (\<lambda>_. None)"
    and "complete_action (faulty env f g) now i vd (Some res) w = (r, w1)"
  shows "\<exists>w2 at. replayCompleted env now' i w1 = (Inr (Some res), w2) \<and> at \<in> {now, now'}
    \<and> entry_at env w2 i = Some (advance e JCompleted at (completion_metadata (stage_for e d (jv_result env res) res)))
    \<and> jw_staged w2 (jv_key env i) = Missing \<and> jw_results w2 (jv_key env i) = Stored res"
proof -
  define staged where "staged = stage_for e d (jv_result env res) res"
  define c where "c at = advance e JCompleted at (completion_metadata staged)" for at
  let ?k = "jv_key env i"
  note pending = assms(1)
  obtain es where es: "read_journal env (jw_file w) = Inr es"
    using pending by (auto simp: pending_completion_def entry_at_def split: sum.split_asm)
  note store = pending_store [OF pending es, folded staged_def, folded c_def]
  have e: "je_risk e \<noteq> Read" "jw_results w ?k = Missing" using pending by (auto simp: pending_completion_def)
  have room: "jv_journalBytes env (store_entry (c at) es) \<le> STORE_MAX_BYTES" for at
    using assms(4) es by (simp add: room_for_def c_def staged_def)
  have final: "entry_at env (published ?k res v) i = Some (c at)"
    if "jw_file v = Stored (store_entry (c at) es)" "now \<le> at" for v at
    using that store(3,4) by (simp add: entry_at_def published_def)
  have "w1 \<in> {staged_world ?k staged w, completed_world ?k staged (store_entry (c now) es) w,
      unswept_world ?k staged (store_entry (c now) es) w, published ?k res (completed_world ?k staged (store_entry (c now) es) w)}"
    using complete_stops [OF pending es _ assms(2,7)] room [of now] by (simp add: staged_def c_def)
  then consider (staged) "w1 = staged_world ?k staged w"
    | (completed) "w1 = completed_world ?k staged (store_entry (c now) es) w \<or> w1 = unswept_world ?k staged (store_entry (c now) es) w"
    | (published) "w1 = published ?k res (completed_world ?k staged (store_entry (c now) es) w)" by auto
  then show ?thesis
  proof cases
    case staged
    have "replayCompleted env now' i w1 = (Inr (Some res), published ?k res (w1\<lparr>jw_file := Stored (store_entry (c now') es)\<rparr>))"
      by (rule replay_staged [OF pending assms(5,6), folded staged_def, where at = now' and x = e])
        (use staged es store(1,2) room pending_advance(2) [OF pending assms(3)] e assms(3) in
          \<open>auto simp: c_def staged_world_def staged_def [symmetric]\<close>)
    then show ?thesis using final [of "w1\<lparr>jw_file := Stored (store_entry (c now') es)\<rparr>" now'] assms(3)
      by (auto simp: published_def c_def staged_def)
  next
    case completed
    then have "replayCompleted env now' i w1 = (Inr (Some res), published ?k res w1)"
      using e(2) room [of now] assms(5,6)
      by (intro replay_settled [OF pending es]) (auto simp: stop_worlds c_def staged_def)
    then show ?thesis using final [of w1 now] completed by (auto simp: stop_worlds c_def staged_def)
  next
    case published
    have entry: "entry_at env w1 i = Some (c now)" 
      using final [of "completed_world ?k staged (store_entry (c now) es) w" now] published by (simp add: completed_world_def)
    obtain t where t: "verified_completion (c now) = Some t" "jt_resultDigest t = Some (jv_result env res)"
      using pending_completed(3) [OF pending, of now] by (auto simp: c_def staged_def)
    have "replayCompleted env now' i w1 = (Inr (Some res), w1)"
      by (rule replay_published(2) [OF entry _ _ t])
        (use published e(1) pending_stage(1) [OF pending] in \<open>auto simp: stop_worlds c_def\<close>)
    then show ?thesis using entry published by (auto simp: stop_worlds c_def staged_def)
  qed
qed

section \<open>A concrete journal\<close>

definition demo_journal_env :: journal_env where
  "demo_journal_env = \<lparr>jv_action = demo_hash, jv_result = (\<lambda>_. demo_digest CHR ''b''), jv_fence = (\<lambda>_ _. demo_digest CHR ''c''),
     jv_transitions = (\<lambda>_. demo_digest CHR ''c''), jv_evidence = (\<lambda>_. demo_digest CHR ''c''), jv_output = (\<lambda>_. demo_digest CHR ''c''),
     jv_contract = (\<lambda>_. demo_digest CHR ''c''), jv_body = (\<lambda>_. demo_digest CHR ''b''), jv_key = (\<lambda>i. i),
     jv_canonical = sr_actionId, jv_resultBytes = (\<lambda>_. 10), jv_stagedBytes = (\<lambda>_. 20), jv_journalBytes = (\<lambda>_. 100),
     jv_collate = (\<lambda>s. s), jv_rm = (\<lambda>_. None), jv_fault = (\<lambda>_ _. None)\<rparr>"

definition demo_prepare :: prepare_input where
  "demo_prepare = \<lparr>pi_action = demo_request ''x'', pi_ownerKind = ''task'', pi_ownerId = ''o'', pi_resourceKeys = [''file:/a'']\<rparr>"

definition demo_prepared :: ActionJournalEntry where
  "demo_prepared = \<lparr>je_actionId = ''x'', je_actionDigest = demo_digest CHR ''a'', je_ownerKind = ''task'', je_ownerId = ''o'',
     je_capability = ''file.write'', je_risk = Write, je_intent = None, je_resourceKeys = [''file:/a''], je_generation = 1,
     je_state = JPrepared, je_transitions = initial_transitions 1, je_createdAt = 1, je_updatedAt = 1\<rparr>"

definition demo_dispatched :: ActionJournalEntry where
  "demo_dispatched = advance demo_prepared JDispatched 2 (no_metadata\<lparr>md_provider := Some ''p''\<rparr>)"

definition demo_observed :: ActionJournalEntry where
  "demo_observed = advance demo_dispatched JObserved 3 (result_metadata demo_journal_env demo_result)"

definition demo_staged :: StagedCompletedResult where
  "demo_staged = stage_for demo_observed (demo_digest CHR ''b'') (demo_digest CHR ''b'') demo_result"

definition demo_completed :: ActionJournalEntry where
  "demo_completed = advance demo_observed JCompleted 4 (completion_metadata demo_staged)"

definition demo_interrupted :: ActionJournalEntry where
  "demo_interrupted = advance demo_prepared JInterrupted 2 (interruption_metadata demo_journal_env demo_prepared)"

definition demo_journal :: "ActionJournalEntry \<Rightarrow> journal_world" where
  "demo_journal e = empty_journal\<lparr>jw_file := Stored [e]\<rparr>"

lemma faulty_self [simp]: "faulty env (jv_fault env) (jv_rm env) = env"
  by (simp add: faulty_def)

lemma demo_env_simps [simp]:
  "jv_action demo_journal_env = demo_hash" "jv_result demo_journal_env r = demo_digest CHR ''b''"
  "jv_fence demo_journal_env i d = demo_digest CHR ''c''" "jv_key demo_journal_env i = i"
  "jv_journalBytes demo_journal_env es = 100" "jv_fault demo_journal_env = (\<lambda>_ _. None)" "jv_rm demo_journal_env = (\<lambda>_. None)"
  "jv_resultBytes demo_journal_env r = 10" "jv_stagedBytes demo_journal_env st = 20" "jv_collate demo_journal_env s = s"
  by (simp_all add: demo_journal_env_def)

lemma demo_digest_hex [simp]: "hex64_lower (demo_digest CHR ''a'')" "hex64_lower (demo_digest CHR ''b'')" "hex64_lower (demo_digest CHR ''c'')"
  by code_simp+

lemma demo_texts [simp]:
  "journal_bounded ''x'' 512 = None" "journal_bounded ''task'' 128 = None" "journal_bounded ''o'' 512 = None"
  "journal_bounded ''file.write'' 256 = None" "journal_bounded ''p'' 256 = None" "journal_bounded ''agent-kernel'' 256 = None"
  "uniqueKeys [''file:/a''] = Inr [''file:/a'']"
  by (simp_all add: journal_bounded_def uniqueKeys_def nul_char_def unique_sorted_def)

lemma good_demo_prepared: "good_entry demo_journal_env demo_prepared"
  by (simp add: good_entry_def validate_journal_entry_def demo_prepared_def ensure_def sha_check_def journal_sha_id
      opt_check_def bind_result_def journal_integer_def is_safe_integer_def max_safe_integer_def check_history_def
      initial_transitions_def transition_of_def MAX_TRANSITIONS_def check_transition_def validateTransitionMetadata_def
      metadata_of_def no_metadata_def)

lemma demo_entry_history [simp]:
  "je_state demo_prepared = JPrepared" "je_transitions demo_prepared = initial_transitions 1" "je_updatedAt demo_prepared = 1"
  "je_actionId demo_prepared = ''x''" "je_risk demo_prepared = Write" "je_generation demo_prepared = 1"
  "je_capability demo_prepared = ''file.write''" "je_actionDigest demo_prepared = demo_digest CHR ''a''"
  "jt_state (transition_of n st at md) = st" "jt_at (transition_of n st at md) = at"
  "length (initial_transitions at) = 1"
  by (simp_all add: demo_prepared_def transition_of_def initial_transitions_def)

lemmas demo_transition_defs = allowedTransition_def MAX_TRANSITIONS_def initial_transitions_def check_transition_def
  first_failure_None transition_of_def opt_check_def sha_check_def journal_sha_id validateTransitionMetadata_def truthy_def

lemma good_demo_dispatched: "good_entry demo_journal_env demo_dispatched"
  unfolding demo_dispatched_def
  by (rule good_entry_advance [OF good_demo_prepared]) (simp_all add: demo_transition_defs)

lemma good_demo_observed: "good_entry demo_journal_env demo_observed"
  unfolding demo_observed_def
  by (rule good_entry_advance [OF good_demo_dispatched])
    (simp_all add: demo_transition_defs demo_dispatched_def demo_results demo_digests)

lemma read_demo: "good_entry env e \<Longrightarrow> read_journal env (jw_file (demo_journal e)) = Inr [e]"
  using validate_good_entries [of "[e]" "[]" env] by (simp add: demo_journal_def validateJournal_def MAX_ENTRIES_def)

lemma entry_at_demo: "good_entry env e \<Longrightarrow> entry_at env (demo_journal e) i = (if je_actionId e = i then Some e else None)"
  using read_demo [of env e] by (simp add: entry_at_def)

lemma demo_entry_ids [simp]:
  "je_actionId demo_dispatched = ''x''" "je_actionId demo_observed = ''x''" "je_actionId demo_completed = ''x''"
  "je_actionId demo_interrupted = ''x''" "je_risk demo_dispatched = Write" "je_risk demo_observed = Write"
  "je_risk demo_completed = Write" "je_state demo_observed = JObserved" "je_state demo_completed = JCompleted"
  "je_state demo_interrupted = JInterrupted" "je_state demo_dispatched = JDispatched"
  by (simp_all add: demo_dispatched_def demo_observed_def demo_completed_def demo_interrupted_def)

lemma demo_mutation:
  assumes "good_entry demo_journal_env e" "je_actionId e = ''x''" "change e = Inr e'" "good_entry demo_journal_env e'" "je_actionId e' = ''x''"
  shows "mutate_entry demo_journal_env ''x'' change (demo_journal e) = (Inr e', demo_journal e')"
  using mutate_entry_ok [OF read_demo [OF assms(1)], of "''x''" e change e'] assms
  by (simp add: store_entry_def demo_journal_def STORE_MAX_BYTES_def)

lemma demo_run_prepared: "journal_exec demo_journal_env (PrepareOp demo_prepare 1) empty_journal = demo_journal demo_prepared"
proof -
  have "new_entry demo_journal_env demo_prepare 1 = Inr demo_prepared"
    by (simp add: new_entry_def demo_prepare_def demo_request_def demo_prepared_def demo_hash_def bind_result_def)
  then show ?thesis
    using read_demo [OF good_demo_prepared]
    by (simp add: prepare_def mutate_journal_def empty_journal_def pruneTerminal_def prepare_entries_def MAX_ENTRIES_def
        bind_result_def STORE_MAX_BYTES_def demo_journal_def)
qed

lemma demo_run_dispatched:
  "journal_exec demo_journal_env (DispatchOp 2 ''x'' (Some ''p'')) (demo_journal demo_prepared) = demo_journal demo_dispatched"
proof -
  have "applyTransition demo_prepared JDispatched 2 (no_metadata\<lparr>md_provider := Some ''p''\<rparr>) = Inr demo_dispatched"
    by (simp add: applyTransition_def demo_dispatched_def advance_def allowedTransition_def MAX_TRANSITIONS_def)
  then show ?thesis
    using demo_mutation [OF good_demo_prepared _ _ good_demo_dispatched]
    by (simp add: markDispatched_def truthy_def journal_transition_def)
qed

lemma demo_run_observed:
  "journal_exec demo_journal_env (ObserveOp 3 ''x'' demo_result) (demo_journal demo_dispatched) = demo_journal demo_observed"
proof -
  have "applyTransition demo_dispatched JObserved 3 (result_metadata demo_journal_env demo_result) = Inr demo_observed"
    by (simp add: applyTransition_def demo_observed_def demo_dispatched_def advance_def allowedTransition_def MAX_TRANSITIONS_def)
  then show ?thesis
    using demo_mutation [OF good_demo_dispatched _ _ good_demo_observed]
    by (simp add: observe_action_def demo_results observed_state_def journal_transition_def)
qed

lemma demo_reachable: "reachable_journal demo_journal_env (demo_journal demo_prepared)"
  "reachable_journal demo_journal_env (demo_journal demo_dispatched)" "reachable_journal demo_journal_env (demo_journal demo_observed)"
proof -
  have step: "reachable_journal demo_journal_env w \<Longrightarrow> reachable_journal demo_journal_env (journal_exec demo_journal_env op w)" for w op
    using journal_exec_run [of demo_journal_env w "jv_fault demo_journal_env" "jv_rm demo_journal_env" op]
    unfolding reachable_journal_def faulty_self by (meson rtranclp_trans)
  have "reachable_journal demo_journal_env empty_journal" by (simp add: reachable_journal_def)
  from step [OF this, of "PrepareOp demo_prepare 1"] show prepared: "reachable_journal demo_journal_env (demo_journal demo_prepared)"
    unfolding demo_run_prepared .
  from step [OF this, of "DispatchOp 2 ''x'' (Some ''p'')"] show "reachable_journal demo_journal_env (demo_journal demo_dispatched)"
    unfolding demo_run_dispatched .
  from step [OF this, of "ObserveOp 3 ''x'' demo_result"] show "reachable_journal demo_journal_env (demo_journal demo_observed)"
    unfolding demo_run_observed .
qed

lemma demo_pending: "pending_completion demo_journal_env (demo_journal demo_observed) ''x'' demo_observed (demo_digest CHR ''b'') demo_result 4"
proof -
  have "validateReplayResult demo_result ''file.write'' = Inr demo_result"
    by (simp add: validateReplayResult_def demo_result_def ensure_def evidence_check_def journal_bounded_def nul_char_def)
  moreover have "ar_capability demo_result = ''file.write''" by (simp add: demo_result_def)
  moreover have "recorded_provider demo_observed = Some ''p''"
    by (simp add: recorded_provider_def demo_observed_def transition_of_def truthy_def demo_results)
  ultimately show ?thesis
    by (simp add: pending_completion_def entry_at_demo [OF good_demo_observed] complete_stage_def bind_result_def demo_results)
      (simp add: demo_observed_def demo_dispatched_def demo_journal_def empty_journal_def MAX_TRANSITIONS_def
        RESULT_MAX_BYTES_def STAGED_MAX_BYTES_def demo_results)
qed

lemma demo_staged_eq: "stage_for demo_observed (demo_digest CHR ''b'') (jv_result demo_journal_env demo_result) demo_result = demo_staged"
  by (simp add: demo_staged_def)

lemma good_demo_completed: "good_entry demo_journal_env demo_completed"
  using pending_advance(1) [OF demo_pending order_refl] by (simp add: demo_completed_def demo_staged_def)

lemma demo_completed_reachable: "reachable_journal demo_journal_env (demo_journal demo_completed)"
proof -
  have "recover_commit demo_journal_env 4 ''x'' demo_staged (demo_journal demo_observed) = (Inr demo_completed, demo_journal demo_completed)"
    unfolding recover_commit_def
    by (rule demo_mutation [OF good_demo_observed _ _ good_demo_completed])
      (use pending_advance(2) [OF demo_pending order_refl] in \<open>simp_all add: demo_completed_def demo_staged_def\<close>)
  then have "journal_step demo_journal_env (demo_journal demo_observed) (demo_journal demo_completed)"
    using journal_step.recovers [of demo_journal_env "jv_fault demo_journal_env" "jv_rm demo_journal_env"] unfolding faulty_self by blast
  with demo_reachable(3) show ?thesis unfolding reachable_journal_def by (rule rtranclp.rtrancl_into_rtrancl)
qed

lemma good_demo_interrupted: "good_entry demo_journal_env demo_interrupted"
  by (simp add: good_entry_def validate_journal_entry_def demo_interrupted_def demo_prepared_def ensure_def sha_check_def journal_sha_id
      opt_check_def bind_result_def journal_integer_def is_safe_integer_def max_safe_integer_def check_history_def advance_def
      initial_transitions_def transition_of_def MAX_TRANSITIONS_def check_transition_def validateTransitionMetadata_def
      metadata_of_def no_metadata_def interruption_metadata_def allowedTransition_def interrupted_bound_def truthy_def demo_digests)

section \<open>Witnesses\<close>

theorem journal_refines_life_cycle_witness:
  "(life_cycle demo_journal_env)\<^sup>*\<^sup>* None (Some demo_dispatched) \<and> je_state demo_dispatched = JDispatched"
proof -
  have "journal_run demo_journal_env empty_journal (demo_journal demo_prepared)" using demo_reachable(1) by (simp add: reachable_journal_def)
  from journal_refines_life_cycle [OF this, of "''x''" "jv_fault demo_journal_env" "jv_rm demo_journal_env" "DispatchOp 2 ''x'' (Some ''p'')"]
  show ?thesis unfolding faulty_self demo_run_dispatched entry_at_demo [OF good_demo_dispatched]
    by (simp add: entry_at_def empty_journal_def)
qed

theorem interruption_fences_dispatch_witness:
  "JDispatched \<notin> jt_state ` set (je_transitions demo_interrupted)
   \<and> (\<exists>err. markDispatched demo_journal_env 3 ''x'' (Some ''p'') (demo_journal demo_interrupted) = (Inl err, demo_journal demo_interrupted))"
  using interruption_fences_dispatch [of demo_journal_env "demo_journal demo_interrupted" "''x''" demo_interrupted
      "demo_journal demo_interrupted"]
  by (simp add: entry_at_demo [OF good_demo_interrupted])


theorem completion_survives_failure_witness:
  "\<exists>w2. replayCompleted demo_journal_env 5 ''x''
     (snd (complete_action (faulty demo_journal_env
        (\<lambda>point _. if point = AfterJournalCompleted then Some (JsError ''crash'') else None) (\<lambda>_. None))
        4 ''x'' (demo_digest CHR ''b'') (Some demo_result) (demo_journal demo_observed))) = (Inr (Some demo_result), w2)"
proof -
  have "room_for demo_journal_env (demo_journal demo_observed) demo_observed (completion_metadata demo_staged)"
    by (simp add: room_for_def STORE_MAX_BYTES_def)
  from completion_survives_failure [OF demo_pending journal_sha_id [OF demo_digest_hex(2)] _ this [folded demo_staged_eq] _ _ surjective_pairing, of 5]
  show ?thesis by auto
qed

end
