(* ===== verification/AgentSafety.thy ===== *)
theory AgentSafety
  imports AgentKernel JournalSafety
begin

text \<open>
  What the agent kernel guarantees on top of its parts: a mutation reaches the provider runtime only with
  authority, a current intent and a journal entry that proves it has no unsettled earlier dispatch, and a
  successful mutation is completed in the journal.
\<close>

section \<open>Changing the provider runtime\<close>

definition with_runtime ::
  "'x agent_env \<Rightarrow> (ActionRequest \<Rightarrow> (string \<Rightarrow> ('x, unit) agent_prog) \<Rightarrow> ('x, ActionResult) agent_prog) \<Rightarrow> 'x agent_env" where
  "with_runtime env rt = env\<lparr>ag_execute := rt\<rparr>"

lemma runtime_simps [simp]:
  "ag_journal (with_runtime env rt) = ag_journal env" "ag_leases (with_runtime env rt) = ag_leases env"
  "ag_authority (with_runtime env rt) = ag_authority env" "ag_instance (with_runtime env rt) = ag_instance env"
  "ag_observer (with_runtime env rt) = ag_observer env" "ag_uuid (with_runtime env rt) = ag_uuid env"
  "ag_now (with_runtime env rt) = ag_now env" "ag_message (with_runtime env rt) = ag_message env"
  "ag_keys (with_runtime env rt) = ag_keys env" "ag_intent (with_runtime env rt) = ag_intent env"
  "ag_aborted (with_runtime env rt) = ag_aborted env" "ag_beforeDispatch (with_runtime env rt) = ag_beforeDispatch env"
  "ag_onDispatch (with_runtime env rt) = ag_onDispatch env" "ag_observe (with_runtime env rt) = ag_observe env"
  "ag_execute (with_runtime env rt) = rt" "ag_reconcile (with_runtime env rt) = ag_reconcile env"
  by (simp_all add: with_runtime_def)

lemma runtime_results:
  "authorityFailure (with_runtime env rt) = authorityFailure env"
  "intentFailure (with_runtime env rt) = intentFailure env"
  "publishObservation (with_runtime env rt) = publishObservation env"
  "quarantine_keys (with_runtime env rt) = quarantine_keys env"
  "acquire_lease (with_runtime env rt) = acquire_lease env"
  "assertDispatchLease (with_runtime env rt) = assertDispatchLease env"
  "assertDispatchActive (with_runtime env rt) = assertDispatchActive env"
  "verify_and_complete (with_runtime env rt) = verify_and_complete env"
  "record_outcome (with_runtime env rt) = record_outcome env"
  "reconcile_uncertain (with_runtime env rt) = reconcile_uncertain env"
  "note_superseded (with_runtime env rt) = note_superseded env"
  "authorize_action (with_runtime env rt) = authorize_action env"
  "prepare_action (with_runtime env rt) = prepare_action env"
  "defer_denied (with_runtime env rt) = defer_denied env"
  "recover_prepared (with_runtime env rt) = recover_prepared env"
  "find_existing (with_runtime env rt) = find_existing env"
  "record_dispatch (with_runtime env rt) = record_dispatch env"
  unfolding fun_eq_iff authorityFailure_def intentFailure_def publishObservation_def quarantine_keys_def acquire_lease_def
    assertDispatchLease_def assertDispatchActive_def verify_and_complete_def record_outcome_def reconcile_uncertain_def
    note_superseded_def authorize_action_def prepare_action_def defer_denied_def recover_prepared_def find_existing_def
    record_dispatch_def runtime_simps
  by (rule allI refl)+

lemma runtime_settle: "settle_reconciliation (with_runtime env rt) = settle_reconciliation env"
  unfolding fun_eq_iff settle_reconciliation_def runtime_simps runtime_results by (rule allI refl)+

lemma runtime_programs:
  "assertDispatchIntent (with_runtime env rt) = assertDispatchIntent env"
  "arm_quarantine (with_runtime env rt) = arm_quarantine env"
  "reconcile_body (with_runtime env rt) = reconcile_body env"
  "quarantine_unresolved (with_runtime env rt) = quarantine_unresolved env"
  unfolding fun_eq_iff assertDispatchIntent_def arm_quarantine_def reconcile_body_def quarantine_unresolved_def
    runtime_simps runtime_results runtime_settle
  by (rule allI refl)+

lemma runtime_leased: "reconcile_leased (with_runtime env rt) = reconcile_leased env"
  unfolding fun_eq_iff reconcile_leased_def runtime_results runtime_programs by (rule allI refl)+

lemma runtime_callback:
  "onProviderDispatch (with_runtime env rt) = onProviderDispatch env"
  "agent_reconcile (with_runtime env rt) = agent_reconcile env"
  unfolding fun_eq_iff onProviderDispatch_def agent_reconcile_def runtime_simps runtime_results runtime_programs runtime_leased
  by (rule allI refl)+

lemma runtime_resume:
  "resume_completed (with_runtime env rt) = resume_completed env"
  "resume_dispatched (with_runtime env rt) = resume_dispatched env"
  unfolding fun_eq_iff resume_completed_def resume_dispatched_def runtime_simps runtime_callback
  by (rule allI refl)+

lemma runtime_resume_mutation: "resume_mutation (with_runtime env rt) = resume_mutation env"
  unfolding fun_eq_iff resume_mutation_def runtime_simps runtime_resume by (rule allI refl)+

lemmas runtime_parts = runtime_simps runtime_results runtime_programs runtime_callback runtime_resume_mutation

section \<open>Programs and the journal\<close>

lemma chain_to_Inr:
  "chain_to m f w = (Inr v, w') \<longleftrightarrow> (\<exists>u w1. m w = (Inr u, w1) \<and> f u w1 = (Inr v, w'))"
  by (auto simp: chain_to_def split: prod.splits sum.splits)

lemma chain_toE:
  assumes "chain_to m f w = (Inr v, w')"
  obtains u w1 where "m w = (Inr u, w1)" "f u w1 = (Inr v, w')"
  using assms unfolding chain_to_Inr by blast

lemma in_leases_frame:
  "in_leases p w = (r, w') \<Longrightarrow> aw_journal w' = aw_journal w \<and> aw_ext w' = aw_ext w \<and> aw_armed w' = aw_armed w"
  by (auto simp: in_leases_def split: sum.split_asm)

lemma in_journal_result: "in_journal p w = (r, w') \<Longrightarrow> p (aw_journal w) = (r, aw_journal w') \<and> aw_ext w' = aw_ext w"
  by (auto simp: in_journal_def split: prod.split_asm)

lemma outside_frame: "outside c w = (r, w') \<Longrightarrow> aw_journal w' = aw_journal w"
  by (auto simp: outside_def split: prod.split_asm)

lemma with_lease_Inr:
  "with_lease action lease body w = (Inr v, w') \<Longrightarrow> \<exists>w1. body w = (Inr v, w1) \<and> aw_journal w' = aw_journal w1"
  unfolding with_lease_def
  by (auto split: prod.split_asm sum.split_asm if_split_asm dest!: in_leases_frame)

abbreviation entry_of :: "'x agent_env \<Rightarrow> 'x agent_world \<Rightarrow> ActionRequest \<Rightarrow> ActionJournalEntry option" where
  "entry_of env w action \<equiv> entry_at (ag_journal env) (aw_journal w) (aq_id action)"

section \<open>What a journal operation leaves behind\<close>

lemma prepare_Inr:
  assumes "prepare J input now w = (Inr p, w')"
  shows "entry_at J w' (aq_id (pi_action input)) = Some p" "je_actionDigest p = jv_action J (pi_action input)"
proof -
  have "entry_at J w' (aq_id (pi_action input)) = Some p \<and> je_actionDigest p = jv_action J (pi_action input)"
    using assms unfolding prepare_def
  proof (cases rule: mutate_journal_cases)
    case (files es r w1)
    then show ?case by (auto simp: pruneTerminal_def split: prod.split_asm sum.split_asm dest: reclaim_results_frame)
  next
    case (written es out es' valid w1)
    have prep: "prepare_entries J input now (filter (retained now) es) = Inr (out, es')"
      using written(3) by (auto simp: pruneTerminal_def split: prod.split_asm sum.split_asm)
    have dist: "distinct (map je_actionId es')"
      using written(4) validate_journal_entries_Inr by (auto simp: validateJournal_def split: if_split_asm)
    note facts = prepare_entries_cases [OF prep dist]
    have "\<forall>e\<in>set (filter (retained now) es). normal_keys e" using normal_keys_entries [OF written(2)] by auto
    note facts = facts(1,2) [OF this]
    have "valid = es'" by (rule validateJournal_normal [OF written(4) facts(1)])
    moreover have "je_actionDigest out = jv_action J (pi_action input)"
      using prep
      by (auto simp: prepare_entries_def prepare_existing_def new_entry_def Let_def bind_result_Inr
          split: option.split_asm if_split_asm)
    ultimately show ?thesis
      using entry_at_written [OF written(7)] written(5,6) facts(2) [of "aq_id (pi_action input)"] by simp
  qed auto
  then show "entry_at J w' (aq_id (pi_action input)) = Some p" "je_actionDigest p = jv_action J (pi_action input)" by auto
qed

lemma transition_Inr:
  assumes "journal_transition J now i nxt md w = (Inr e', w')"
  shows "\<exists>e. entry_at J w i = Some e \<and> applyTransition e nxt now md = Inr e' \<and> entry_at J w' i = Some e'"
  using assms unfolding journal_transition_def
proof (cases rule: mutate_entry_cases)
  case (keep e e')
  then show ?case by (rule applyTransition_frame)
qed auto

lemma recover_staged_Inr:
  assumes "recover_staged J now i staged w = (Inr c, w')"
  shows "\<exists>e. entry_at J w i = Some e \<and> recover_entry now staged e = Inr c \<and> entry_at J w' i = Some c"
proof -
  from assms obtain w1 where commit: "recover_commit J now i staged w = (Inr c, w1)" and pub: "publishStagedResult J staged w1 = (Inr (), w')"
    by (auto simp: recover_staged_def split: prod.split_asm sum.split_asm)
  have "entry_at J w' = entry_at J w1" using publishStagedResult_frame [OF pub] by (rule entry_at_file)
  with commit show ?thesis unfolding recover_commit_def
  proof (cases rule: mutate_entry_cases)
    case (keep e e')
    then show ?case by (auto simp: recover_entry_def split: if_split_asm option.split_asm dest: applyTransition_frame)
  qed auto
qed

lemma recover_entry_Inr:
  "recover_entry now staged e = Inr c \<Longrightarrow> je_actionDigest c = je_actionDigest e \<and> je_state c = JCompleted"
  by (auto simp: recover_entry_def applyTransition_def split: if_split_asm option.split_asm)

lemma recoverPending_Inr:
  assumes "recoverPendingCompletion J now i action w = (Inr e, w')"
  shows "entry_at J w' i = Some e \<and> (\<exists>e0. entry_at J w i = Some e0 \<and> je_actionDigest e = je_actionDigest e0)"
proof -
  have staged: "recover_staged J now i staged w1 = (Inr e, w') \<Longrightarrow> jw_file w1 = jw_file w \<Longrightarrow>
      entry_at J w' i = Some e \<and> (\<exists>e0. entry_at J w i = Some e0 \<and> je_actionDigest e = je_actionDigest e0)" for staged w1
    using recover_staged_Inr [of J now i staged w1 e w'] recover_entry_Inr entry_at_file [of w1 w J] by fastforce
  have orphan: "readLegacyOrphanResult J x action w = (r, w1) \<Longrightarrow> jw_file w1 = jw_file w" for x r w1
    by (auto simp: readLegacyOrphanResult_def split: durable.split_asm sum.split_asm prod.split_asm dest: writeStagedResult_frame)
  show ?thesis
  proof (cases "readStagedResult J (jw_staged w (jv_key J i))")
    case (Inr found)
    show ?thesis
    proof (cases found)
      case (Some s)
      then show ?thesis using assms Inr staged [of s w] by (auto simp: recoverPendingCompletion_def split: option.split_asm)
    next
      case None
      with assms Inr obtain x where x: "inspect_journal J i w = (Inr x, w)"
        by (auto simp: recoverPendingCompletion_def split: option.split_asm prod.split_asm sum.split_asm dest: inspect_frame)
      have entry: "entry_at J w i = Some x" using inspect_entry [OF x] .
      have unwritten: "jw_file w1 = jw_file w \<Longrightarrow> entry_at J w1 i = Some x" for w1 using entry_at_file [of w1 w J] entry by simp
      show ?thesis
        using assms Inr None x entry
        by (auto simp: recoverPendingCompletion_def split: option.split_asm prod.split_asm sum.split_asm if_split_asm
            dest: orphan staged unwritten)
    qed
  qed (use assms in \<open>auto simp: recoverPendingCompletion_def split: option.split_asm\<close>)
qed

lemma complete_action_Inr:
  assumes "complete_action J now i vd (Some res) w = (Inr c, w')"
  shows "entry_at J w' i = Some c \<and> je_state c = JCompleted"
proof -
  obtain d x where d: "journal_sha vd = Inr d" and x: "inspect_journal J i w = (Inr x, w)"
    using assms inspect_frame by (auto simp: complete_action_def split: sum.split_asm prod.split_asm)
  show ?thesis
  proof (cases "je_risk x = Read")
    case True
    with assms d x have "journal_transition J now i JCompleted (no_metadata\<lparr>md_verificationDigest := Some d\<rparr>) w = (Inr c, w')"
      by (simp add: complete_action_def)
    from transition_Inr [OF this] show ?thesis by (auto simp: applyTransition_def split: if_split_asm)
  next
    case False
    with assms d x obtain staged w1 where commit: "commit_completion J now i staged w = (Inr c, w1)"
      and pub: "publishStagedResult J staged w1 = (Inr (), w')"
      by (auto simp: complete_action_def split: sum.split_asm option.split_asm prod.split_asm)
    have "entry_at J w' = entry_at J w1" using publishStagedResult_frame [OF pub] by (rule entry_at_file)
    with commit show ?thesis by (auto elim!: commit_completion_cases dest: recover_entry_Inr)
  qed
qed

lemma replayCompleted_Some:
  assumes "replayCompleted J now i w = (Inr (Some res), w')"
  shows "\<exists>e. entry_at J w' i = Some e \<and> je_state e = JCompleted"
proof -
  obtain x where x: "inspect_journal J i w = (Inr x, w)"
    using assms inspect_frame by (auto simp: replayCompleted_def split: sum.split_asm prod.split_asm)
  have xi: "je_actionId x = i" using entry_atD inspect_entry [OF x] by blast
  have completed: "replay_result J e w1 = (Inr (Some res), w') \<Longrightarrow> je_state e = JCompleted \<and> je_risk e \<noteq> Read \<and> w1 = w'" for e w1
    by (auto simp: replay_result_def split: if_split_asm option.split_asm durable.split_asm)
  show ?thesis
    using assms x xi
    by (auto simp: replayCompleted_def split: sum.split_asm prod.split_asm if_split_asm dest!: completed dest: recoverPending_Inr)
qed

lemma reconcile_action_Inr:
  assumes "reconcile_action J now i rec w = (Inr e', w')"
  shows "entry_at J w' i = Some e' \<and> (\<exists>e. entry_at J w i = Some e \<and> je_actionDigest e' = je_actionDigest e)"
    "pr_status rec = RecNotApplied \<Longrightarrow> je_state e' = JReconciled \<and> latest_reconciliation e' = Some RecNotApplied"
proof -
  let ?md = "no_metadata\<lparr>md_resultDigest := map_option (jv_result J) (pr_result rec), md_reconciliationStatus := Some (pr_status rec)\<rparr>"
  let ?st = "if pr_status rec = RecUncertain then JUncertain else JReconciled"
  from transition_Inr [OF assms [unfolded reconcile_action_def]] obtain e where e: "entry_at J w i = Some e"
    "applyTransition e ?st now ?md = Inr e'" "entry_at J w' i = Some e'" by blast
  from e show "entry_at J w' i = Some e' \<and> (\<exists>e. entry_at J w i = Some e \<and> je_actionDigest e' = je_actionDigest e)"
    by (auto simp: applyTransition_def split: if_split_asm)
  assume na: "pr_status rec = RecNotApplied"
  have ts: "je_transitions e \<noteq> []" using good_entryD(1) entry_atD [OF e(1)] by blast
  have "je_state e' = JReconciled \<and> jt_reconciliationStatus (last (je_transitions e')) = Some RecNotApplied \<and> je_transitions e' \<noteq> []"
    using e(2) na ts
    by (auto simp: applyTransition_def transition_of_def metadata_of_def no_metadata_def allowedTransition_def split: if_split_asm)
  then show "je_state e' = JReconciled \<and> latest_reconciliation e' = Some RecNotApplied"
    by (cases "je_transitions e'" rule: rev_cases) (auto simp: latest_reconciliation_def)
qed

section \<open>Clearance\<close>

text \<open>The journal proves that an action has no unsettled earlier dispatch.\<close>

definition entry_cleared :: "'x agent_env \<Rightarrow> 'x agent_world \<Rightarrow> ActionRequest \<Rightarrow> bool" where
  "entry_cleared env w action \<longleftrightarrow>
     (\<exists>e. entry_of env w action = Some e \<and> je_actionDigest e = jv_action (ag_journal env) action
        \<and> (je_state e \<in> {JPrepared, JDeferred}
           \<or> (je_state e = JReconciled \<and> latest_reconciliation e = Some RecNotApplied)))"

definition cleared ::
  "'x agent_env \<Rightarrow> kernel_env \<Rightarrow> PermissionProfile \<Rightarrow> AgentKernelExecuteContext \<Rightarrow> ActionRequest \<Rightarrow> 'x agent_world \<Rightarrow> bool" where
  "cleared env authority permissions ctx action w \<longleftrightarrow>
     (\<exists>d. kernel_authorize authority action permissions (cx_authorityToken ctx) = Inr d)
     \<and> \<not> ag_aborted env (aw_ext w)
     \<and> (\<forall>b. aq_intent action = Some b \<and> \<not> cx_recovery ctx \<longrightarrow> ag_intent env b (aw_ext w) = None)
     \<and> (aq_risk action \<noteq> Read \<longrightarrow> entry_cleared env w action)"

lemma entry_cleared_journal: "aw_journal w' = aw_journal w \<Longrightarrow> entry_cleared env w' action = entry_cleared env w action"
  by (simp add: entry_cleared_def)

lemma quarantine_keys_frame: "quarantine_keys env i keys w = (r, w') \<Longrightarrow> aw_journal w' = aw_journal w \<and> aw_ext w' = aw_ext w"
  by (auto simp: quarantine_keys_def dest!: in_leases_frame)

lemma acquire_lease_frame: "acquire_lease env owner keys mode m w = (r, w') \<Longrightarrow> aw_journal w' = aw_journal w \<and> aw_ext w' = aw_ext w"
  by (auto simp: acquire_lease_def dest!: in_leases_frame)

lemma settle_not_applied:
  "settle_reconciliation env action outcome entry w = (Inr rec, w') \<Longrightarrow> pr_status rec = RecNotApplied \<Longrightarrow>
   outcome = rec \<and> aw_journal w' = aw_journal w"
  by (cases "pr_status outcome"; cases "pr_result outcome")
    (auto simp: settle_reconciliation_def chain_to_Inr set_retain_def give_def Let_def split: option.split_asm)

lemma reconcile_not_applied:
  assumes "agent_reconcile env action provider prior w = (Inr rec, w')" "entry_of env w action = Some e"
    and "je_state e \<noteq> JCompleted" "pr_status rec = RecNotApplied"
  shows "entry_cleared env w' action"
proof -
  from assms(1) obtain keys existing w1 where
    found: "in_journal (inspect_journal (ag_journal env) (aq_id action)) w = (Inr existing, w1)"
    and digest: "je_actionDigest existing = jv_action (ag_journal env) action"
    and leased: "reconcile_leased env action provider prior keys existing w1 = (Inr rec, w')"
    unfolding agent_reconcile_def chain_to_Inr lift_result_def by (auto split: if_split_asm)
  have inspect: "inspect_journal (ag_journal env) (aq_id action) (aw_journal w) = (Inr existing, aw_journal w1)"
    using in_journal_result [OF found] by simp
  from leased obtain w2 w3 lease where
    leases: "quarantine_keys env (aq_id action) keys w1 = (Inr (), w2)"
      "acquire_lease env (''kernel-reconcile:'' @ aq_id action) keys Exclusive (Some (aq_id action)) w2 = (Inr lease, w3)"
    and body: "with_lease action lease (reconcile_body env action provider prior existing)
      (w3\<lparr>aw_armed := True, aw_retain := True\<rparr>) = (Inr rec, w')"
    unfolding reconcile_leased_def chain_to_Inr by auto
  have "existing = e" using inspect_entry [OF inspect] assms(2) by simp
  have journals: "aw_journal w1 = aw_journal w" "aw_journal w3 = aw_journal w"
    using inspect_frame [OF inspect] quarantine_keys_frame [OF leases(1)] acquire_lease_frame [OF leases(2)] by auto
  from with_lease_Inr [OF body] obtain w4 where
    run: "reconcile_body env action provider prior existing (w3\<lparr>aw_armed := True, aw_retain := True\<rparr>) = (Inr rec, w4)"
    and w4: "aw_journal w' = aw_journal w4" by blast
  from run assms(3) \<open>existing = e\<close> obtain outcome entry w5 w6 where
    out: "outside (ag_reconcile env action provider prior) (w3\<lparr>aw_armed := True, aw_retain := True\<rparr>) = (Inr outcome, w5)"
    and rec: "in_journal (reconcile_action (ag_journal env) (ag_now env (aw_ext w5)) (aq_id action) outcome) w5 = (Inr entry, w6)"
    and settle: "settle_reconciliation env action outcome entry w6 = (Inr rec, w4)"
    unfolding reconcile_body_def chain_to_Inr by auto
  have "outcome = rec" and w6: "aw_journal w4 = aw_journal w6" using settle_not_applied [OF settle assms(4)] by auto
  note rec = rec [unfolded \<open>outcome = rec\<close>]
  from in_journal_result [OF rec] have post: "reconcile_action (ag_journal env) (ag_now env (aw_ext w5)) (aq_id action) rec (aw_journal w5)
      = (Inr entry, aw_journal w6)" by simp
  have "aw_journal w5 = aw_journal w" using outside_frame [OF out] journals by simp
  with reconcile_action_Inr [OF post] assms(2,4) digest \<open>existing = e\<close> w4 w6 show ?thesis
    by (auto simp: entry_cleared_def)
qed

lemma resume_None:
  assumes "resume_mutation env action prepared w = (Inr None, w')" "entry_of env w action = Some prepared"
    and "je_actionDigest prepared = jv_action (ag_journal env) action"
  shows "entry_cleared env w' action"
proof (cases "je_state prepared \<in> {JDispatched, JObserved, JUncertain}")
  case True
  with assms(1) have "resume_dispatched env action prepared w = (Inr None, w')"
    by (auto simp: resume_mutation_def Let_def split: if_split_asm)
  then obtain provider rec where "agent_reconcile env action provider None w = (Inr rec, w')" "pr_status rec = RecNotApplied"
    by (auto simp: resume_dispatched_def chain_to_Inr split: option.split_asm ReconciliationStatus.split_asm)
  with reconcile_not_applied [OF _ assms(2)] True show ?thesis by auto
next
  case False
  with assms show ?thesis
    by (cases "je_state prepared") (auto simp: resume_mutation_def entry_cleared_def chain_to_Inr give_def Let_def split: if_split_asm)
qed

section \<open>Only cleared actions reach the runtime\<close>

lemma chain_to_cong:
  "(\<And>v w'. m w = (Inr v, w') \<Longrightarrow> f v w' = g v w') \<Longrightarrow> chain_to m f w = chain_to m g w"
  by (auto simp: chain_to_def split: prod.split sum.split)

lemma intentFailure_None:
  "intentFailure env action recovery w = (Inr None, w') \<Longrightarrow>
   w' = w \<and> (\<forall>b. aq_intent action = Some b \<and> \<not> recovery \<longrightarrow> ag_intent env b (aw_ext w) = None)"
  by (auto simp: intentFailure_def split: option.split_asm if_split_asm)

lemma quarantine_unresolved_frame:
  "quarantine_unresolved env keys entries w = (r, w') \<Longrightarrow> aw_journal w' = aw_journal w \<and> aw_ext w' = aw_ext w"
proof (induction entries arbitrary: w)
  case (Cons entry rest)
  then show ?case
    by (auto simp: quarantine_unresolved_def chain_to_def split: if_split_asm prod.split_asm sum.split_asm
        dest!: quarantine_keys_frame)
qed (simp add: quarantine_unresolved_def give_def)

lemma kernel_authorize_same: "kernel_authorize k a p t = Inr d \<Longrightarrow> ad_canonicalAction d = a"
  by (auto simp: kernel_authorize_def authorizeRecovery_iff split: sum.split_asm)

lemma authorize_action_same:
  "authorize_action env kernel_authorize a p ctx w = Inr a' \<Longrightarrow>
   a' = a \<and> (\<exists>d. kernel_authorize (ag_authority env (aw_ext w)) a p (cx_authorityToken ctx) = Inr d)"
  "authorize_action env authorizeRecovery a p ctx w = Inr a' \<Longrightarrow> a' = a"
  by (auto simp: authorize_action_def map_sum_def authorizeRecovery_iff dest: kernel_authorize_same split: sum.split_asm)

lemma run_body_runtime:
  assumes agree: "\<And>cb v. cleared env authority permissions ctx action v \<Longrightarrow> rt action cb v = ag_execute env action cb v"
    and auth: "\<exists>d. kernel_authorize authority action permissions (cx_authorityToken ctx) = Inr d"
    and entry: "aq_risk action \<noteq> Read \<Longrightarrow> entry_cleared env w action"
  shows "run_body (with_runtime env rt) action (cx_recovery ctx) keys lease w
    = run_body env action (cx_recovery ctx) keys lease w"
  unfolding run_body_def runtime_parts
proof (rule chain_to_cong, goal_cases)
  case (1 stale w')
  show ?case
  proof (cases stale)
    case None
    from intentFailure_None [OF "1" [unfolded None]] have w': "w' = w"
      and intent: "\<forall>b. aq_intent action = Some b \<and> \<not> cx_recovery ctx \<longrightarrow> ag_intent env b (aw_ext w) = None" by auto
    have "rt action cb w = ag_execute env action cb w" if "\<not> ag_aborted env (aw_ext w)" for cb
      using agree [of w] that auth entry intent by (simp add: cleared_def)
    then show ?thesis by (simp add: None w' chain_to_def)
  qed simp
qed

lemma with_lease_cong: "body w = body' w \<Longrightarrow> with_lease action lease body w = with_lease action lease body' w"
  by (simp add: with_lease_def)

lemma dispatch_action_runtime:
  assumes agree: "\<And>cb v. cleared env authority permissions ctx action v \<Longrightarrow> rt action cb v = ag_execute env action cb v"
    and auth: "\<exists>d. kernel_authorize authority action permissions (cx_authorityToken ctx) = Inr d"
    and entry: "aq_risk action \<noteq> Read \<Longrightarrow> entry_cleared env w action"
  shows "dispatch_action (with_runtime env rt) action (cx_recovery ctx) owner keys w
    = dispatch_action env action (cx_recovery ctx) owner keys w"
  unfolding dispatch_action_def runtime_parts
proof (rule chain_to_cong, rule chain_to_cong, rule with_lease_cong, goal_cases)
  case (1 u w1 lease w2)
  have "aw_journal w1 = aw_journal w"
  proof (cases "aq_risk action = Read")
    case False
    with "1"(1) have "chain_to (in_journal (unresolvedMutations (ag_journal env))) (quarantine_unresolved env keys) w = (Inr u, w1)"
      by simp
    then obtain es w0 where unresolved: "in_journal (unresolvedMutations (ag_journal env)) w = (Inr es, w0)"
      and fenced: "quarantine_unresolved env keys es w0 = (Inr u, w1)" by (rule chain_toE)
    have "aw_journal w0 = aw_journal w" using in_journal_result [OF unresolved] by (simp add: unresolvedMutations_def)
    then show ?thesis using quarantine_unresolved_frame [OF fenced] by simp
  qed (use "1"(1) in \<open>simp add: give_def\<close>)
  then have "aw_journal w2 = aw_journal w" using acquire_lease_frame [OF "1"(2)] by simp
  then have "aw_journal (w2\<lparr>aw_armed := False, aw_retain := False, aw_dispatched := False\<rparr>) = aw_journal w" by simp
  from entry_cleared_journal [OF this, of env action] entry
  have "aq_risk action \<noteq> Read \<Longrightarrow> entry_cleared env (w2\<lparr>aw_armed := False, aw_retain := False, aw_dispatched := False\<rparr>) action"
    by simp
  then show ?case
    using run_body_runtime [where env = env and rt = rt and authority = authority and permissions = permissions
        and ctx = ctx and action = action] agree auth by blast
qed

lemma continue_prepared_runtime:
  assumes agree: "\<And>a cb v. cleared env authority permissions ctx a v \<Longrightarrow> rt a cb v = ag_execute env a cb v"
    and static: "\<And>x. ag_authority env x = authority"
    and auth: "\<not> existed \<Longrightarrow> \<exists>d. kernel_authorize authority action permissions (cx_authorityToken ctx) = Inr d"
    and entry: "aq_risk action \<noteq> Read \<Longrightarrow> entry_of env w action = Some prepared
      \<and> je_actionDigest prepared = jv_action (ag_journal env) action"
  shows "continue_prepared (with_runtime env rt) permissions ctx existed action ownerKind ownerId keys prepared w
    = continue_prepared env permissions ctx existed action ownerKind ownerId keys prepared w"
  unfolding continue_prepared_def runtime_parts
proof (rule chain_to_cong, goal_cases)
  case (1 settled w1)
  show ?case
  proof (cases settled)
    case None
    have cleared: "entry_cleared env w1 action" if "aq_risk action \<noteq> Read"
      using "1" that None entry resume_None by auto
    have dispatch: "dispatch_action (with_runtime env rt) action (cx_recovery ctx) owner keys w1
        = dispatch_action env action (cx_recovery ctx) owner keys w1"
      if "\<exists>d. kernel_authorize authority action permissions (cx_authorityToken ctx) = Inr d" for owner
      by (rule dispatch_action_runtime [where authority = authority and permissions = permissions])
        (use agree that cleared in auto)
    show ?thesis
    proof (cases existed)
      case True
      then show ?thesis
        using dispatch authorize_action_same(1) [of env action permissions ctx w1]
        by (auto simp: None Let_def static split: sum.split)
    next
      case False
      then show ?thesis using dispatch [OF auth] by (simp add: None Let_def)
    qed
  qed simp
qed

lemma find_existing_frame: "find_existing env action w = (Inr b, w') \<Longrightarrow> w' = w"
  by (auto simp: find_existing_def in_journal_def split: prod.split_asm sum.split_asm if_split_asm dest: inspect_frame)

lemma prepared_entry:
  assumes "prepare_action env action ownerKind ownerId keys w = (Inr p, w1)" "recover_prepared env action p w1 = (Inr e, w2)"
    and "aq_risk action \<noteq> Read"
  shows "entry_of env w2 action = Some e \<and> je_actionDigest e = jv_action (ag_journal env) action"
proof -
  from prepare_Inr [of "ag_journal env" _ _ "aw_journal w" p "aw_journal w1"] in_journal_result [OF assms(1) [unfolded prepare_action_def]]
  have p: "entry_of env w1 action = Some p" "je_actionDigest p = jv_action (ag_journal env) action" by fastforce+
  have "recoverPendingCompletion (ag_journal env) (ag_now env (aw_ext w1)) (aq_id action) (Some action) (aw_journal w1) = (Inr e, aw_journal w2)"
    using assms(2,3) in_journal_result by (fastforce simp: recover_prepared_def)
  from recoverPending_Inr [OF this] p show ?thesis by auto
qed

text \<open>
  C4. Only cleared actions reach the provider runtime: while the authority stays the same, a run of the agent
  kernel is the same whatever the runtime would do with an action that is not cleared, that is, one for which
  the kernel has no grant, which is aborted, whose intent is superseded, or which is a mutation whose journal
  entry does not prove that it was never dispatched, was stopped before dispatch, or was reconciled as not
  applied.
\<close>

theorem only_cleared_actions_reach_runtime:
  assumes "\<And>a cb v. cleared env authority permissions ctx a v \<Longrightarrow> rt a cb v = ag_execute env a cb v"
    and "\<And>x. ag_authority env x = authority"
  shows "executeCore (with_runtime env rt) action permissions ctx w = executeCore env action permissions ctx w"
  unfolding executeCore_def runtime_parts
proof (rule chain_to_cong, rule chain_to_cong, rule chain_to_cong, goal_cases)
  case (1 ownerKind w1 ownerId w2 stale w3)
  let ?go = "\<lambda>env existed keys action. chain_to (prepare_action env action ownerKind ownerId keys) (\<lambda>prepared0.
    chain_to (recover_prepared env action prepared0)
      (continue_prepared env permissions ctx existed action ownerKind ownerId keys))"
  have go: "chain_to (prepare_action env action ownerKind ownerId keys) (\<lambda>prepared0. chain_to (recover_prepared env action prepared0)
        (continue_prepared (with_runtime env rt) permissions ctx existed action ownerKind ownerId keys)) v
      = ?go env existed keys action v"
    if "\<not> existed \<Longrightarrow> \<exists>d. kernel_authorize authority action permissions (cx_authorityToken ctx) = Inr d" for existed keys v
    by (rule chain_to_cong, rule chain_to_cong, rule continue_prepared_runtime [where authority = authority])
      (use assms that in \<open>auto dest: prepared_entry\<close>)
  show ?case
  proof (cases stale)
    case None
    show ?thesis
    proof (cases "authorize_action env authorizeRecovery action permissions ctx w3")
      case (Inr action1)
      then have "action1 = action" by (rule authorize_action_same(2))
      have inner: "find_existing env action w3 = (Inr existed, v1) \<Longrightarrow> lift_result (ag_keys env action (aw_ext v1)) v1 = (Inr keys, v2)
          \<Longrightarrow> v2 = w3" for existed v1 keys v2
        using find_existing_frame by (auto simp: lift_result_def)
      have granted: "authorize_action env kernel_authorize action permissions ctx w3 = Inr action2 \<Longrightarrow> action2 = action
          \<and> (\<exists>d. kernel_authorize authority action permissions (cx_authorityToken ctx) = Inr d)" for action2
        using authorize_action_same(1) [of env action permissions ctx w3] by (simp add: assms(2))
      show ?thesis
        unfolding None option.case Inr sum.case \<open>action1 = action\<close>
      proof (rule chain_to_cong, rule chain_to_cong, goal_cases)
        case (1 existed v1 keys v2)
        then have "v2 = w3" by (rule inner)
        then show ?case
          using go [of True keys w3] go [of False keys w3] granted
          by (cases existed; cases "authorize_action env kernel_authorize action permissions ctx w3") (auto simp: Let_def)
      qed
    qed (simp add: None)
  qed simp
qed

section \<open>Success means durable completion\<close>

abbreviation completed_in :: "'x agent_env \<Rightarrow> 'x agent_world \<Rightarrow> ActionRequest \<Rightarrow> bool" where
  "completed_in env w action \<equiv> \<exists>e. entry_of env w action = Some e \<and> je_state e = JCompleted"

lemma failed_result_not_ok [simp]: "\<not> ar_ok (failed_result action p item code message effects phase)"
  by (simp add: failed_result_def)

lemmas failed_results = authorityFailure_def reconciliationRequired_def abortedBeforeDispatch_def

lemma intentFailure_not_ok: "intentFailure env action recovery w = (Inr (Some r), w') \<Longrightarrow> \<not> ar_ok r"
  by (auto simp: intentFailure_def split: option.split_asm if_split_asm)

lemma verify_and_complete_Some:
  "verify_and_complete env action result entry w = (Inr (receipt, Some verified), w') \<Longrightarrow> completed_in env w' action"
  by (auto simp: verify_and_complete_def chain_to_Inr Let_def split: sum.split_asm if_split_asm
      dest!: in_journal_result complete_action_Inr)

lemma settle_completed:
  assumes "settle_reconciliation env action outcome entry w = (Inr rec, w')" "pr_status rec = RecCompleted" "pr_result rec = Some r"
  shows "completed_in env w' action"
  using assms
  by (cases "pr_status outcome"; cases "pr_result outcome")
    (auto simp: settle_reconciliation_def chain_to_Inr set_retain_def give_def Let_def split: option.split_asm
      dest!: verify_and_complete_Some)

lemma reconcile_leased_completed:
  assumes "reconcile_leased env action provider prior keys existing w = (Inr rec, w')"
    and "pr_status rec = RecCompleted" "pr_result rec = Some r"
  shows "completed_in env w' action"
proof -
  from assms(1) obtain lease w1 where
    "with_lease action lease (reconcile_body env action provider prior existing) (w1\<lparr>aw_armed := True, aw_retain := True\<rparr>) = (Inr rec, w')"
    unfolding reconcile_leased_def chain_to_Inr by auto
  from with_lease_Inr [OF this] obtain w2 where
    body: "reconcile_body env action provider prior existing (w1\<lparr>aw_armed := True, aw_retain := True\<rparr>) = (Inr rec, w2)"
    and journal: "aw_journal w' = aw_journal w2" by blast
  from body obtain outcome entry w3 where "settle_reconciliation env action outcome entry w3 = (Inr rec, w2)"
    unfolding reconcile_body_def chain_to_Inr by auto
  from settle_completed [OF this assms(2,3)] journal show ?thesis by simp
qed

lemma reconcile_completed:
  assumes "agent_reconcile env action provider prior w = (Inr rec, w')" "pr_status rec = RecCompleted" "pr_result rec = Some r"
  shows "completed_in env w' action"
proof -
  from assms(1) obtain keys existing w1 where "reconcile_leased env action provider prior keys existing w1 = (Inr rec, w')"
    unfolding agent_reconcile_def chain_to_Inr lift_result_def by (auto split: if_split_asm)
  from reconcile_leased_completed [OF this assms(2,3)] show ?thesis .
qed

lemma note_superseded_frame: "note_superseded env action recovery r w = (x, w') \<Longrightarrow> w' = w"
  by (auto simp: note_superseded_def split: option.split_asm if_split_asm)

lemma run_body_ok:
  assumes "run_body env action recovery keys lease w = (Inr r, w')" "ar_ok r"
  shows "completed_in env w' action"
proof -
  from assms(1) obtain stale w1 where stale: "intentFailure env action recovery w = (Inr stale, w1)"
    and rest: "(case stale of Some r \<Rightarrow> give r
       | None \<Rightarrow> (\<lambda>w.
          if ag_aborted env (aw_ext w) then (Inr (abortedBeforeDispatch (ag_now env (aw_ext w)) action), w)
          else chain_to (ag_execute env action (onProviderDispatch env action recovery keys lease)) (\<lambda>result0.
            chain_to (record_outcome env action result0) (\<lambda>entry0.
            chain_to (reconcile_uncertain env action result0 entry0) (\<lambda>(result1, entry).
            chain_to (publishObservation env action result1) (\<lambda>result.
              if \<not> ar_ok result then give result
              else chain_to (verify_and_complete env action result entry) (\<lambda>(receipt, completed) w'.
                case completed of
                  None \<Rightarrow> (Inr (verification_failed (ag_now env (aw_ext w')) action result receipt), w')
                | Some verified \<Rightarrow> note_superseded env action recovery verified w'))))) w)) w1 = (Inr r, w')"
    unfolding run_body_def by (rule chain_toE)
  show ?thesis
  proof (cases stale)
    case (Some r')
    then have "\<not> ar_ok r'" "r' = r"
      using intentFailure_not_ok [OF stale [unfolded Some]] rest by (auto simp: give_def)
    with assms(2) show ?thesis by simp
  next
    case None
    show ?thesis
    proof (cases "ag_aborted env (aw_ext w1)")
      case True
      with rest None assms(2) show ?thesis by (auto simp: failed_results)
    next
      case False
      with rest None obtain result entry w2 where
        "(if \<not> ar_ok result then give result
          else chain_to (verify_and_complete env action result entry) (\<lambda>(receipt, completed) w'.
            case completed of
              None \<Rightarrow> (Inr (verification_failed (ag_now env (aw_ext w')) action result receipt), w')
            | Some verified \<Rightarrow> note_superseded env action recovery verified w')) w2 = (Inr r, w')"
        by (simp add: chain_to_Inr) blast
      then obtain receipt completed w3 where verify: "verify_and_complete env action result entry w2 = (Inr (receipt, completed), w3)"
        and final: "(case completed of None \<Rightarrow> (Inr (verification_failed (ag_now env (aw_ext w3)) action result receipt), w3)
            | Some verified \<Rightarrow> note_superseded env action recovery verified w3) = (Inr r, w')"
        using assms(2) by (auto simp: give_def chain_to_Inr split: if_split_asm)
      then obtain verified where "completed = Some verified" "w' = w3"
        using assms(2) by (auto simp: verification_failed_def dest: note_superseded_frame split: option.split_asm)
      then show ?thesis using verify_and_complete_Some verify by blast
    qed
  qed
qed

lemma dispatch_action_ok:
  assumes "dispatch_action env action recovery owner keys w = (Inr r, w')" "ar_ok r"
  shows "completed_in env w' action"
proof -
  from assms(1) obtain lease w1 where "with_lease action lease (run_body env action recovery keys lease)
      (w1\<lparr>aw_armed := False, aw_retain := False, aw_dispatched := False\<rparr>) = (Inr r, w')"
    unfolding dispatch_action_def chain_to_Inr by blast
  from with_lease_Inr [OF this] run_body_ok assms(2) show ?thesis by fastforce
qed

lemma resume_completed_ok:
  assumes "resume_completed env action prepared w = (Inr r, w')" "ar_ok r"
  shows "completed_in env w' action"
proof -
  from assms(1) obtain replay w1 where
    replay: "in_journal (replayCompleted (ag_journal env) (ag_now env (aw_ext w)) (aq_id action)) w = (Inr replay, w1)"
    and rest: "resume_completed env action prepared w = (Inr r, w')"
    unfolding resume_completed_def chain_to_Inr by blast
  show ?thesis
  proof (cases replay)
    case (Some res)
    with rest replay have "w' = w1" by (auto simp: resume_completed_def chain_to_def Let_def)
    moreover have "replayCompleted (ag_journal env) (ag_now env (aw_ext w)) (aq_id action) (aw_journal w) = (Inr (Some res), aw_journal w1)"
      using in_journal_result [OF replay] Some by simp
    ultimately show ?thesis using replayCompleted_Some by blast
  next
    case None
    with rest replay assms(2) obtain provider rec res where
      "agent_reconcile env action provider None w1 = (Inr rec, w')" "pr_status rec = RecCompleted" "pr_result rec = Some res"
      by (auto simp: resume_completed_def chain_to_Inr Let_def failed_results
          split: option.split_asm ReconciliationStatus.split_asm)
    then show ?thesis by (rule reconcile_completed)
  qed
qed

lemma resume_mutation_ok:
  assumes "resume_mutation env action prepared w = (Inr (Some r), w')" "ar_ok r"
  shows "completed_in env w' action"
proof (cases "je_state prepared = JCompleted")
  case True
  with assms show ?thesis by (auto simp: resume_mutation_def chain_to_Inr give_def Let_def failed_results dest: resume_completed_ok)
next
  case False
  with assms have "resume_dispatched env action prepared w = (Inr (Some r), w')"
    by (auto simp: resume_mutation_def Let_def failed_results split: if_split_asm)
  with assms(2) obtain provider rec where
    "agent_reconcile env action provider None w = (Inr rec, w')" "pr_status rec = RecCompleted" "pr_result rec = Some r"
    by (auto simp: resume_dispatched_def chain_to_Inr failed_results split: option.split_asm ReconciliationStatus.split_asm)
  then show ?thesis by (rule reconcile_completed)
qed

lemma denied_not_ok [simp]: "\<not> ar_ok (authorityFailure env now action e)"
  by (simp add: failed_results Let_def)

lemma defer_denied_result: "defer_denied env action denied w = (Inr r, w') \<Longrightarrow> r = denied"
  by (auto simp: defer_denied_def chain_to_Inr give_def)

lemma continue_prepared_ok:
  assumes "continue_prepared env permissions ctx existed action ownerKind ownerId keys prepared w = (Inr r, w')" "ar_ok r"
  shows "completed_in env w' action"
proof -
  from assms(1) obtain settled w1 where
    settled: "(if aq_risk action = Read then give None else resume_mutation env action prepared) w = (Inr settled, w1)"
    and rest: "(case settled of Some r \<Rightarrow> give r
       | None \<Rightarrow> (\<lambda>w.
          let dispatch = (\<lambda>action. dispatch_action env action (cx_recovery ctx)
                (''kernel:'' @ ownerKind @ '':'' @ ownerId) keys w) in
          if \<not> existed then dispatch action
          else case authorize_action env kernel_authorize action permissions ctx w of
            Inr action' \<Rightarrow> dispatch action'
          | Inl e \<Rightarrow>
             (let denied = authorityFailure env (ag_now env (aw_ext w)) action e in
              if approval_required denied \<and> je_state prepared \<in> {JPrepared, JDeferred} then defer_denied env action denied w
              else (Inr denied, w)))) w1 = (Inr r, w')"
    unfolding continue_prepared_def by (rule chain_toE)
  show ?thesis
  proof (cases settled)
    case (Some r')
    with settled rest assms(2) have "resume_mutation env action prepared w = (Inr (Some r), w')"
      by (auto simp: give_def split: if_split_asm)
    then show ?thesis using assms(2) by (rule resume_mutation_ok)
  next
    case None
    have "\<exists>action' owner. action' = action \<and> dispatch_action env action' (cx_recovery ctx) owner keys w1 = (Inr r, w')"
      using rest assms(2) unfolding None option.case Let_def
      by (auto split: if_split_asm sum.split_asm dest: authorize_action_same(1) defer_denied_result)
    then show ?thesis using dispatch_action_ok assms(2) by blast
  qed
qed

lemma executeCore_ok_cases:
  assumes "executeCore env action permissions ctx w = (Inr r, w')" "ar_ok r"
  shows "\<exists>existed ownerKind ownerId keys prepared w3.
    continue_prepared env permissions ctx existed action ownerKind ownerId keys prepared w3 = (Inr r, w')"
proof -
  from assms(1) obtain stale w1 ownerKind ownerId where
    stale: "intentFailure env action (cx_recovery ctx) w = (Inr stale, w1)"
    and rest: "(case stale of Some r \<Rightarrow> give r
       | None \<Rightarrow> (\<lambda>w.
         case authorize_action env authorizeRecovery action permissions ctx w of
           Inl e \<Rightarrow> (Inr (authorityFailure env (ag_now env (aw_ext w)) action e), w)
         | Inr action1 \<Rightarrow>
            chain_to (find_existing env action1) (\<lambda>existed.
            chain_to (\<lambda>w. lift_result (ag_keys env action1 (aw_ext w)) w) (\<lambda>keys w.
              let go = (\<lambda>action. chain_to (prepare_action env action ownerKind ownerId keys) (\<lambda>prepared0.
                    chain_to (recover_prepared env action prepared0)
                      (continue_prepared env permissions ctx existed action ownerKind ownerId keys)) w) in
              if existed then go action1
              else case authorize_action env kernel_authorize action1 permissions ctx w of
                Inr action2 \<Rightarrow> go action2
              | Inl e \<Rightarrow>
                 (let denied = authorityFailure env (ag_now env (aw_ext w)) action1 e in
                  if approval_required denied
                  then chain_to (prepare_action env action1 ownerKind ownerId keys) (\<lambda>_. defer_denied env action1 denied) w
                  else (Inr denied, w)))) w)) w1 = (Inr r, w')"
    unfolding executeCore_def chain_to_Inr lift_result_def by auto
  have "stale = None"
  proof (rule ccontr)
    assume "stale \<noteq> None"
    then obtain r' where "stale = Some r'" by blast
    with rest intentFailure_not_ok [of env action "cx_recovery ctx" w r' w1] stale assms(2) show False by (simp add: give_def)
  qed
  with rest assms(2) obtain action1 where first: "authorize_action env authorizeRecovery action permissions ctx w1 = Inr action1"
    by (auto split: sum.split_asm)
  then have same: "action1 = action" by (rule authorize_action_same(2))
  from rest \<open>stale = None\<close> first obtain existed keys w2 where
    go: "(let go = (\<lambda>action. chain_to (prepare_action env action ownerKind ownerId keys) (\<lambda>prepared0.
           chain_to (recover_prepared env action prepared0)
             (continue_prepared env permissions ctx existed action ownerKind ownerId keys)) w2) in
          if existed then go action1
          else case authorize_action env kernel_authorize action1 permissions ctx w2 of
            Inr action2 \<Rightarrow> go action2
          | Inl e \<Rightarrow>
             (let denied = authorityFailure env (ag_now env (aw_ext w2)) action1 e in
              if approval_required denied
              then chain_to (prepare_action env action1 ownerKind ownerId keys) (\<lambda>_. defer_denied env action1 denied) w2
              else (Inr denied, w2))) = (Inr r, w')"
    by (simp add: chain_to_Inr) blast
  have "\<exists>prepared w3. continue_prepared env permissions ctx existed action ownerKind ownerId keys prepared w3 = (Inr r, w')"
    using go assms(2) unfolding same Let_def
    by (auto simp: chain_to_Inr split: if_split_asm sum.split_asm dest: authorize_action_same(1) defer_denied_result)
  then show ?thesis by blast
qed

text \<open>
  C5. A successful answer of the agent kernel is durable: whenever \<open>executeCore\<close> returns a result that claims
  success - from a fresh dispatch, a replay, a reconciliation or a recovery - the journal on disk holds the
  entry of that action in its completed state.
\<close>

theorem success_is_durably_completed:
  assumes "executeCore env action permissions ctx w = (Inr r, w')" "ar_ok r"
  shows "\<exists>e. entry_of env w' action = Some e \<and> je_state e = JCompleted"
proof -
  obtain existed ownerKind ownerId keys prepared w3 where
    "continue_prepared env permissions ctx existed action ownerKind ownerId keys prepared w3 = (Inr r, w')"
    using executeCore_ok_cases [OF assms] by blast
  then show ?thesis using assms(2) by (rule continue_prepared_ok)
qed

section \<open>A concrete kernel\<close>

definition demo_mutation_request :: ActionRequest where
  "demo_mutation_request = (demo_request ''x'')\<lparr>aq_input := [(''path'', JStr ''/w/b'')]\<rparr>"

definition demo_agent :: "unit agent_env" where
  "demo_agent = \<lparr>ag_journal = demo_journal_env, ag_leases = \<lparr>le_collate = (\<lambda>s. s), le_date_parse = (\<lambda>_. None)\<rparr>,
     ag_authority = (\<lambda>_. demo_kernel 2000), ag_instance = \<lparr>pi_pid = 7, pi_started = ''s''\<rparr>, ag_observer = (\<lambda>_ _. None),
     ag_uuid = (\<lambda>n. replicate n CHR ''u''), ag_now = (\<lambda>_. 5), ag_message = (\<lambda>_. ''m''), ag_keys = (\<lambda>_ _. Inr [''file:/a'']),
     ag_intent = (\<lambda>_ _. None), ag_aborted = (\<lambda>_. False), ag_beforeDispatch = (\<lambda>_ _ x. (Inr (), x)),
     ag_onDispatch = (\<lambda>_ x. (Inr (), x)), ag_observe = (\<lambda>_ _ x. (Inr (), x)),
     ag_execute = (\<lambda>a callback. chain_to (callback ''p'') (\<lambda>_. give demo_result)),
     ag_reconcile = (\<lambda>_ _ _ x. (Inl (JsError ''m''), x))\<rparr>"

definition demo_context :: AgentKernelExecuteContext where
  "demo_context = \<lparr>cx_ownerKind = Some ''task'', cx_ownerId = Some ''o'', cx_recovery = False, cx_authorityToken = None\<rparr>"

text \<open>The action was completed and its result retained.\<close>

definition demo_agent_world :: "unit agent_world" where
  "demo_agent_world = \<lparr>aw_journal = published ''x'' demo_result (demo_journal demo_completed), aw_leases = AbsentFile,
     aw_fresh = 0, aw_armed = False, aw_retain = False, aw_dispatched = False, aw_ext = ()\<rparr>"

lemma agent_authorized:
  "kernel_authorize (demo_kernel 2000) demo_mutation_request demo_profile None
   = Inr \<lparr>ad_canonicalAction = demo_mutation_request, ad_canonicalRisk = Write, ad_capability = ''file.write''\<rparr>"
  "authorizeRecovery (demo_kernel 2000) demo_mutation_request demo_profile None
   = Inr \<lparr>ad_canonicalAction = demo_mutation_request, ad_canonicalRisk = Write, ad_capability = ''file.write''\<rparr>"
  by code_simp+

lemma demo_mutation_request_simps [simp]:
  "aq_id demo_mutation_request = ''x''" "aq_risk demo_mutation_request = Write" "aq_capability demo_mutation_request = ''file.write''" "aq_intent demo_mutation_request = None"
  by (simp_all add: demo_mutation_request_def demo_request_def)

lemma completed_journal:
  "read_journal demo_journal_env (jw_file (aw_journal demo_agent_world)) = Inr [demo_completed]"
  "entry_at demo_journal_env (aw_journal demo_agent_world) ''x'' = Some demo_completed"
  "inspect_journal demo_journal_env ''x'' (aw_journal demo_agent_world) = (Inr demo_completed, aw_journal demo_agent_world)"
  using read_demo [OF good_demo_completed]
  by (simp_all add: demo_agent_world_def published_def entry_at_def inspect_journal_def bind_result_def)

lemma demo_completed_simps [simp]:
  "je_updatedAt demo_completed = 4" "je_actionDigest demo_completed = demo_digest CHR ''a''" "je_ownerKind demo_completed = ''task''"
  "je_ownerId demo_completed = ''o''" "je_capability demo_completed = ''file.write''" "je_intent demo_completed = None"
  "je_resourceKeys demo_completed = [''file:/a'']"
  by (simp_all add: demo_completed_def demo_observed_def demo_dispatched_def advance_def demo_prepared_def)

lemma completed_prepare:
  "prepare_action demo_agent demo_mutation_request ''task'' ''o'' [''file:/a''] demo_agent_world = (Inr demo_completed, demo_agent_world)"
proof -
  have "prepare_existing demo_journal_env \<lparr>pi_action = demo_mutation_request, pi_ownerKind = ''task'', pi_ownerId = ''o'', pi_resourceKeys = [''file:/a'']\<rparr>
      5 demo_completed = Inr demo_completed"
    by (simp add: prepare_existing_def Let_def demo_hash_def bind_result_def)
  moreover have "retained 5 demo_completed" by (simp add: retained_def TERMINAL_RETENTION_MS_def)
  moreover have "validateJournal demo_journal_env [demo_completed] = Inr [demo_completed]"
    using read_demo [OF good_demo_completed] by (simp add: demo_journal_def)
  moreover have "jw_file (aw_journal demo_agent_world) = Stored [demo_completed]"
    by (simp add: demo_agent_world_def published_def demo_journal_def)
  ultimately show ?thesis
    by (simp add: prepare_action_def demo_agent_def in_journal_def prepare_def mutate_journal_def completed_journal pruneTerminal_def
        prepare_entries_def bind_result_def store_entry_def STORE_MAX_BYTES_def)
qed

lemma completed_recover: "recover_prepared demo_agent demo_mutation_request demo_completed demo_agent_world = (Inr demo_completed, demo_agent_world)"
proof -
  have "jw_staged (aw_journal demo_agent_world) ''x'' = Missing" by (simp add: demo_agent_world_def published_def)
  then show ?thesis
    by (simp add: recover_prepared_def demo_agent_def in_journal_def recoverPendingCompletion_def completed_journal)
qed

lemma completed_replay:
  "replayCompleted demo_journal_env 5 ''x'' (aw_journal demo_agent_world) = (Inr (Some demo_result), aw_journal demo_agent_world)"
proof -
  obtain t where t: "verified_completion demo_completed = Some t" "jt_resultDigest t = Some (jv_result demo_journal_env demo_result)"
    using pending_completed(3) [OF demo_pending, of 4] unfolding demo_staged_eq demo_completed_def by auto
  show ?thesis
    by (rule replay_published(2) [OF completed_journal(2) _ _ t])
      (use pending_stage(1) [OF demo_pending] in \<open>auto simp: demo_agent_world_def published_def demo_observed_def demo_dispatched_def\<close>)
qed

lemma agent_parts [simp]:
  "ag_journal demo_agent = demo_journal_env" "ag_now demo_agent x = 5" "ag_authority demo_agent x = demo_kernel 2000"
  "ag_keys demo_agent a x = Inr [''file:/a'']" "ag_intent demo_agent b x = None"
  by (simp_all add: demo_agent_def)

lemma completed_run:
  "\<exists>r w'. executeCore demo_agent demo_mutation_request demo_profile demo_context demo_agent_world = (Inr r, w') \<and> ar_ok r"
proof -
  have bounds: "agent_bounded ''task'' 128 = Inr ''task''" "agent_bounded ''o'' 512 = Inr ''o''"
    by (simp_all add: agent_bounded_def nul_char_def)
  have existing: "find_existing demo_agent demo_mutation_request demo_agent_world = (Inr True, demo_agent_world)"
    by (simp add: find_existing_def in_journal_def completed_journal)
  have "\<exists>r. continue_prepared demo_agent demo_profile demo_context True demo_mutation_request ''task'' ''o'' [''file:/a''] demo_completed demo_agent_world
      = (Inr r, demo_agent_world) \<and> ar_ok r"
    by (simp add: continue_prepared_def chain_to_def resume_mutation_def resume_completed_def in_journal_def completed_replay give_def Let_def)
      (simp add: demo_result_def)
  then show ?thesis
    by (simp add: executeCore_def chain_to_def lift_result_def demo_context_def bounds intentFailure_def authorize_action_def
        agent_authorized existing completed_prepare completed_recover Let_def) blast
qed

text \<open>A runtime that would forge a result for a mutation that is already completed.\<close>

definition forging_runtime :: "ActionRequest \<Rightarrow> (string \<Rightarrow> (unit, unit) agent_prog) \<Rightarrow> (unit, ActionResult) agent_prog" where
  "forging_runtime a callback w =
     (if aq_risk a \<noteq> Read \<and> map_option je_state (entry_of demo_agent w a) = Some JCompleted then (Inr demo_result, w)
      else ag_execute demo_agent a callback w)"

theorem only_cleared_actions_reach_runtime_witness:
  "executeCore (with_runtime demo_agent forging_runtime) demo_mutation_request demo_profile demo_context demo_agent_world
   = executeCore demo_agent demo_mutation_request demo_profile demo_context demo_agent_world"
  by (rule only_cleared_actions_reach_runtime [of demo_agent "demo_kernel 2000"])
    (auto simp: forging_runtime_def cleared_def entry_cleared_def)

theorem success_is_durably_completed_witness:
  "\<exists>r w'. executeCore demo_agent demo_mutation_request demo_profile demo_context demo_agent_world = (Inr r, w')
     \<and> (\<exists>e. entry_of demo_agent w' demo_mutation_request = Some e \<and> je_state e = JCompleted)"
  using completed_run success_is_durably_completed by blast

end
