(* ===== verification/RuntimeSafety.thy ===== *)
theory RuntimeSafety
  imports Runtime AgentSafety
begin

text \<open>
  What the provider runtime guarantees: a mutation goes to another provider only when every provider before
  failed without effect, a provider is called only after its dispatch is on disk, and a reconciliation outcome is
  bound to its provider.
\<close>

section \<open>Failover\<close>

lemma settle_result_Failed:
  "settle_result rn env x c action answer = Failed e action' \<Longrightarrow> action' = action
     \<and> (aq_risk action \<noteq> Read \<longrightarrow> ae_retryable e = Some True \<and> ae_sideEffectState e = Some SeNone)"
  by (auto simp: settle_result_def Let_def retry_unsafe_def retrySafeWithoutReconciliation_def split: if_split_asm)

lemma settle_result_stays [simp]: "settle_result rn env x c action answer \<noteq> LeftLoop e action'"
  by (simp add: settle_result_def Let_def)

lemma caught_Failed:
  "caught rn env x c action veto t = Failed e action' \<Longrightarrow> action' = action
     \<and> (aq_risk action \<noteq> Read \<longrightarrow> ae_retryable e = Some True \<and> ae_sideEffectState e = Some SeNone)"
  by (auto simp: caught_def Let_def retry_unsafe_def retrySafeWithoutReconciliation_def run_error_def split: if_split_asm)

lemma caught_LeftLoop: "caught rn env x c action veto t = LeftLoop e action' \<Longrightarrow> aq_risk action = Read"
  by (auto simp: caught_def Let_def retry_unsafe_def split: if_split_asm)

lemma try_provider_Failed:
  assumes "try_provider rn env permissions token cb action c w = (Failed e action', w')"
  shows "action' = action \<and> (aq_risk action \<noteq> Read \<longrightarrow> ae_retryable e = Some True \<and> ae_sideEffectState e = Some SeNone)"
  using assms
  by (auto simp: try_provider_def Let_def call_provider_def run_error_def split: if_split_asm sum.split_asm bool.split_asm prod.split_asm
      dest: settle_result_Failed caught_Failed kernel_authorize_same)

lemma try_provider_LeftLoop:
  assumes "try_provider rn env permissions token cb action c w = (LeftLoop e action', w')"
  shows "aq_risk action = Read"
  using assms
  by (auto simp: try_provider_def Let_def call_provider_def split: if_split_asm sum.split_asm bool.split_asm prod.split_asm
      dest!: caught_LeftLoop kernel_authorize_same)

definition without_effect :: "ActionError \<Rightarrow> bool" where
  "without_effect e \<longleftrightarrow> ae_retryable e = Some True \<and> ae_sideEffectState e = Some SeNone"

lemma try_ranked_mutation:
  assumes "aq_risk action \<noteq> Read"
  shows "(\<exists>r w'. \<forall>more. try_ranked rn env permissions token cb action failures (cs @ more) w = (Inr r, w'))
    \<or> (\<exists>fs w'. length fs = length cs \<and> list_all without_effect fs
        \<and> (\<forall>more. try_ranked rn env permissions token cb action failures (cs @ more) w
            = try_ranked rn env permissions token cb action (failures @ fs) more w'))"
  using assms
proof (induction cs arbitrary: failures w)
  case Nil
  show ?case by (rule disjI2, rule exI [of _ "[]"], rule exI [of _ w]) simp
next
  case (Cons c cs)
  obtain a w1 where step: "try_provider rn env permissions token cb action c w = (a, w1)" by force
  show ?case
  proof (cases a)
    case (Ended r)
    then show ?thesis using step by (intro disjI1 exI [of _ r] exI [of _ w1]) simp
  next
    case (LeftLoop e action')
    then show ?thesis using try_provider_LeftLoop step Cons.prems by blast
  next
    case (Failed e action')
    then have e: "action' = action" "without_effect e"
      using try_provider_Failed [of rn env permissions token cb action c w e action' w1] step Cons.prems by (auto simp: without_effect_def)
    from Cons.IH [OF Cons.prems, of "failures @ [e]" w1] show ?thesis
    proof
      assume "\<exists>r w'. \<forall>more. try_ranked rn env permissions token cb action (failures @ [e]) (cs @ more) w1 = (Inr r, w')"
      then show ?thesis using step Failed e by simp
    next
      assume "\<exists>fs w'. length fs = length cs \<and> list_all without_effect fs
        \<and> (\<forall>more. try_ranked rn env permissions token cb action (failures @ [e]) (cs @ more) w1
            = try_ranked rn env permissions token cb action ((failures @ [e]) @ fs) more w')"
      then obtain fs w' where "length fs = length cs" "list_all without_effect fs"
        "\<forall>more. try_ranked rn env permissions token cb action (failures @ [e]) (cs @ more) w1
          = try_ranked rn env permissions token cb action ((failures @ [e]) @ fs) more w'" by blast
      then show ?thesis using step Failed e by (intro disjI2 exI [of _ "e # fs"] exI [of _ w']) simp
    qed
  qed
qed


section \<open>Write-ahead dispatch\<close>

text \<open>Every key of the resources is in quarantine for the action.\<close>

definition fenced :: "string list \<Rightarrow> string \<Rightarrow> lease_file \<Rightarrow> bool" where
  "fenced resources actionId f \<longleftrightarrow>
     (\<exists>keys. normalizeKeys resources = Inr keys
        \<and> (\<forall>k\<in>set keys. \<exists>st. read_leases f = Inr st \<and> (\<exists>q\<in>set (ls_quarantines st). rq_actionId q = actionId \<and> rq_key q = k)))"

definition dispatched_to :: "'x agent_env \<Rightarrow> string list \<Rightarrow> ActionRequest \<Rightarrow> string \<Rightarrow> 'x agent_world \<Rightarrow> bool" where
  "dispatched_to env resources action name w \<longleftrightarrow>
     (\<exists>e. entry_of env w action = Some e \<and> je_state e = JDispatched
        \<and> jt_provider (last (je_transitions e)) = truthy (Some name))
     \<and> (aq_risk action \<noteq> Read \<longrightarrow> fenced resources (aq_id action) (aw_leases w))"

lemma markDispatched_Inr:
  assumes "markDispatched J now i (Some name) w = (Inr e', w')"
  shows "entry_at J w' i = Some e' \<and> je_state e' = JDispatched \<and> jt_provider (last (je_transitions e')) = truthy (Some name)"
proof -
  let ?md = "no_metadata\<lparr>md_provider := truthy (Some name)\<rparr>"
  have "journal_transition J now i JDispatched ?md w = (Inr e', w')"
    using assms by (auto simp: markDispatched_def no_metadata_def split: option.split_asm)
  from transition_Inr [OF this] obtain e where e: "entry_at J w i = Some e" "applyTransition e JDispatched now ?md = Inr e'"
    "entry_at J w' i = Some e'" by blast
  have ts: "je_transitions e \<noteq> []" using good_entryD(1) entry_atD [OF e(1)] by blast
  show ?thesis
    using e ts by (auto simp: applyTransition_def transition_of_def metadata_of_def no_metadata_def allowedTransition_def split: if_split_asm)
qed

lemma quarantine_fences:
  assumes "quarantine L i now resources f = Inr f'"
  shows "fenced resources i f'"
proof -
  from assms obtain keys where keys: "normalizeKeys resources = Inr keys"
    and rest: "(if keys = [] then Inr f else mutate (quarantine_mutator L i now keys) f) = Inr f'"
    by (auto simp: quarantine_def split: option.split_asm sum.split_asm)
  show ?thesis
  proof (cases "keys = []")
    case False
    with rest have "mutate (quarantine_mutator L i now keys) f = Inr f'" by simp
    then obtain st st' where "quarantine_mutator L i now keys st = Inr st'" "read_leases f' = Inr st'" by (rule mutate_InrE)
    then show ?thesis using keys quarantine_mutator_InrD(4) by (fastforce simp: fenced_def)
  qed (use keys in \<open>simp add: fenced_def\<close>)
qed

lemma assertDispatchActive_frame: "assertDispatchActive env w = (r, w') \<Longrightarrow> w' = w"
  by (auto simp: assertDispatchActive_def split: if_split_asm)

lemma arm_quarantine_fences:
  assumes "arm_quarantine env action resources w = (Inr u, w')" "aq_risk action \<noteq> Read"
  shows "fenced resources (aq_id action) (aw_leases w')"
  using assms
  by (auto simp: arm_quarantine_def chain_to_Inr quarantine_keys_def in_leases_def map_sum_def split: sum.split_asm
      intro: quarantine_fences)

text \<open>When the dispatch callback lets a provider pass, the dispatch is on disk.\<close>

lemma callback_writes_ahead:
  assumes "onProviderDispatch env action recovery resources lease name w = (Inr u, w')"
  shows "dispatched_to env resources action name w'"
proof -
  from assms obtain w1 w2 w3 where arm: "arm_quarantine env action resources w1 = (Inr (), w2)"
    and active: "assertDispatchActive env w2 = (Inr (), w3)" and rec: "record_dispatch env action name w3 = (Inr u, w')"
    unfolding onProviderDispatch_def chain_to_Inr by auto
  from rec obtain e v where mark: "in_journal (markDispatched (ag_journal env) (ag_now env (aw_ext w3)) (aq_id action) (Some name)) w3 = (Inr e, v)"
    and w': "w' = v\<lparr>aw_dispatched := True\<rparr>" unfolding record_dispatch_def chain_to_Inr by auto
  have "markDispatched (ag_journal env) (ag_now env (aw_ext w3)) (aq_id action) (Some name) (aw_journal w3) = (Inr e, aw_journal v)"
    using in_journal_result [OF mark] by simp
  from markDispatched_Inr [OF this] have "entry_of env w' action = Some e" "je_state e = JDispatched"
    "jt_provider (last (je_transitions e)) = truthy (Some name)" using w' by auto
  moreover have "aw_leases w' = aw_leases w2"
    using w' mark assertDispatchActive_frame [OF active] by (auto simp: in_journal_def split: prod.split_asm)
  ultimately show ?thesis using arm_quarantine_fences [OF arm] by (auto simp: dispatched_to_def)
qed

subsection \<open>Runtimes that agree where they are called\<close>

lemma run_body_same:
  assumes "\<And>v. rt action (onProviderDispatch env action recovery keys lease) v = ag_execute env action (onProviderDispatch env action recovery keys lease) v"
  shows "run_body (with_runtime env rt) action recovery keys lease = run_body env action recovery keys lease"
proof -
  have eq: "rt action (onProviderDispatch env action recovery keys lease) = ag_execute env action (onProviderDispatch env action recovery keys lease)"
    by (rule ext) (rule assms)
  show ?thesis unfolding run_body_def runtime_parts eq ..
qed

lemma executeCore_same:
  assumes same: "\<And>lease v. rt action (onProviderDispatch env action (cx_recovery ctx) resources lease) v
      = ag_execute env action (onProviderDispatch env action (cx_recovery ctx) resources lease) v"
    and keys: "\<And>x. ag_keys env action x = Inr resources"
  shows "executeCore (with_runtime env rt) action permissions ctx w = executeCore env action permissions ctx w"
proof -
  have body: "run_body (with_runtime env rt) action (cx_recovery ctx) resources lease = run_body env action (cx_recovery ctx) resources lease" for lease
    by (rule run_body_same) (rule same)
  have dispatch: "dispatch_action (with_runtime env rt) action (cx_recovery ctx) owner resources = dispatch_action env action (cx_recovery ctx) owner resources" for owner
    unfolding dispatch_action_def runtime_parts body ..
  have continue: "continue_prepared (with_runtime env rt) permissions ctx existed action ownerKind ownerId resources prepared v
      = continue_prepared env permissions ctx existed action ownerKind ownerId resources prepared v" for existed ownerKind ownerId prepared v
    unfolding continue_prepared_def runtime_parts
    by (rule chain_to_cong)
      (auto simp: Let_def dispatch split: option.split sum.split dest: authorize_action_same(1))
  show ?thesis
    unfolding executeCore_def runtime_parts
  proof (rule chain_to_cong, rule chain_to_cong, rule chain_to_cong, goal_cases)
    case (1 ownerKind w1 ownerId w2 stale w3)
    have go: "chain_to (prepare_action env action ownerKind ownerId resources) (\<lambda>prepared0. chain_to (recover_prepared env action prepared0)
          (continue_prepared (with_runtime env rt) permissions ctx existed action ownerKind ownerId resources)) v
        = chain_to (prepare_action env action ownerKind ownerId resources) (\<lambda>prepared0. chain_to (recover_prepared env action prepared0)
          (continue_prepared env permissions ctx existed action ownerKind ownerId resources)) v" for existed v
      by (rule chain_to_cong, rule chain_to_cong) (rule continue)
    show ?case
    proof (cases stale)
      case None
      show ?thesis
      proof (cases "authorize_action env authorizeRecovery action permissions ctx w3")
        case (Inr action1)
        then have "action1 = action" by (rule authorize_action_same(2))
        show ?thesis
          unfolding None option.case Inr sum.case \<open>action1 = action\<close>
        proof (rule chain_to_cong, rule chain_to_cong, goal_cases)
          case (1 existed v1 ks v2)
          then have "ks = resources" by (simp add: lift_result_def keys)
          moreover have "authorize_action env kernel_authorize action permissions ctx v2 = Inr a \<Longrightarrow> a = action" for a
            using authorize_action_same(1) by blast
          ultimately show ?case
            by (cases existed; cases "authorize_action env kernel_authorize action permissions ctx v2") (simp_all add: Let_def go)
        qed
      qed (simp add: None)
    qed simp
  qed
qed

text \<open>Only the call of a provider depends on how providers execute actions.\<close>

lemma calls_fields:
  fixes rn :: "'x runtime_env" and calls
  defines "rn' \<equiv> rn\<lparr>rn_execute := calls\<rparr>"
  shows "rn_providers rn' = rn_providers rn" "rn_learning rn' = rn_learning rn" "rn_learningContext rn' = rn_learningContext rn"
    "rn_round rn' = rn_round rn" "rn_number rn' = rn_number rn" "rn_collate rn' = rn_collate rn" "rn_elapsed rn' = rn_elapsed rn"
    "rn_string rn' = rn_string rn" "rn_explain rn' = rn_explain rn" "rn_execute rn' = calls" "rn_reconcile rn' = rn_reconcile rn"
  by (simp_all add: rn'_def)

lemma calls_rank: "rank (rn\<lparr>rn_execute := calls\<rparr>) = rank rn"
proof -
  have "rank_candidate (rn\<lparr>rn_execute := calls\<rparr>) = rank_candidate rn"
    unfolding fun_eq_iff rank_candidate_def calls_fields by (rule allI refl)+
  then have "rank_candidates (rn\<lparr>rn_execute := calls\<rparr>) a x ps = rank_candidates rn a x ps" for a x ps
    by (induction ps) (simp_all split: sum.split bool.split)
  then show ?thesis unfolding fun_eq_iff rank_def calls_fields by simp
qed

lemma calls_policy: "policy_message (rn\<lparr>rn_execute := calls\<rparr>) = policy_message rn"
  "selected_evidence (rn\<lparr>rn_execute := calls\<rparr>) = selected_evidence rn" "abortedResult (rn\<lparr>rn_execute := calls\<rparr>) = abortedResult rn"
  unfolding fun_eq_iff policy_message_def selected_evidence_def abortedResult_def calls_fields by (rule allI refl)+

lemma calls_results:
  "policyDenied (rn\<lparr>rn_execute := calls\<rparr>) = policyDenied rn"
  "policyDeniedBeforeDispatch (rn\<lparr>rn_execute := calls\<rparr>) = policyDeniedBeforeDispatch rn"
  "routingFailed (rn\<lparr>rn_execute := calls\<rparr>) = routingFailed rn" "unavailable (rn\<lparr>rn_execute := calls\<rparr>) = unavailable rn"
  "exhausted (rn\<lparr>rn_execute := calls\<rparr>) = exhausted rn" "caught (rn\<lparr>rn_execute := calls\<rparr>) = caught rn"
  "settle_result (rn\<lparr>rn_execute := calls\<rparr>) = settle_result rn" "router_authority (rn\<lparr>rn_execute := calls\<rparr>) = router_authority rn"
  "runtime_reconcile (rn\<lparr>rn_execute := calls\<rparr>) = runtime_reconcile rn"
  unfolding fun_eq_iff policyDenied_def policyDeniedBeforeDispatch_def routingFailed_def unavailable_def exhausted_def caught_def
    settle_result_def router_authority_def runtime_reconcile_def calls_fields calls_policy
  by (rule allI refl)+

lemmas calls_parts = calls_fields calls_rank calls_policy calls_results

subsection \<open>The gate before a provider\<close>

text \<open>
  What the runtime relies on: when the callback lets a provider pass, the gate condition holds. Then what a provider
  would do in a world in which the condition fails makes no difference to a run.
\<close>

locale dispatch_gate =
  fixes onDispatch :: "string \<Rightarrow> ('x, unit) agent_prog"
    and gate :: "string \<Rightarrow> 'x agent_world \<Rightarrow> bool"
  assumes passed: "onDispatch name w = (Inr u, w') \<Longrightarrow> gate name w'"
begin

lemma try_provider_gated:
  assumes "\<And>name v. gate name v \<Longrightarrow> calls name action v = rn_execute rn name action v"
  shows "try_provider (rn\<lparr>rn_execute := calls\<rparr>) env permissions token onDispatch action c w
    = try_provider rn env permissions token onDispatch action c w"
proof -
  have call: "call_provider (rn\<lparr>rn_execute := calls\<rparr>) env c action v = call_provider rn env c action v" if "gate (cp_name (rk_provider c)) v" for v
    unfolding call_provider_def calls_parts Let_def assms [OF that] ..
  have "ad_canonicalAction d = action" if "kernel_authorize k action permissions token = Inr d" for k d
    using kernel_authorize_same that .
  then show ?thesis
    unfolding try_provider_def calls_parts Let_def
    by (auto simp: call passed split: sum.split bool.split prod.split)
qed

lemma try_ranked_gated:
  assumes "\<And>name v. gate name v \<Longrightarrow> calls name action v = rn_execute rn name action v"
  shows "try_ranked (rn\<lparr>rn_execute := calls\<rparr>) env permissions token onDispatch action failures cs w
    = try_ranked rn env permissions token onDispatch action failures cs w"
proof (induction cs arbitrary: failures w)
  case (Cons c cs)
  show ?case
    using Cons try_provider_Failed [of rn env permissions token onDispatch action c w]
    by (auto simp: try_provider_gated [of calls action rn, OF assms] split: prod.split attempt.split)
qed simp

lemma runtime_execute_gated:
  assumes "\<And>name v. gate name v \<Longrightarrow> calls name action v = rn_execute rn name action v"
  shows "runtime_execute (rn\<lparr>rn_execute := calls\<rparr>) env permissions token action onDispatch w
    = runtime_execute rn env permissions token action onDispatch w"
proof -
  show ?thesis
  proof (cases "kernel_authorize (router_authority rn env (aw_ext w)) action permissions token")
    case (Inr d)
    then have same: "ad_canonicalAction d = action" by (rule kernel_authorize_same)
    have loop: "try_ranked (rn\<lparr>rn_execute := calls\<rparr>) env permissions token onDispatch action [] cs w
        = try_ranked rn env permissions token onDispatch action [] cs w" for cs
      by (rule try_ranked_gated) (rule assms)
    show ?thesis unfolding runtime_execute_def calls_parts Let_def Inr sum.case same loop ..
  qed (unfold runtime_execute_def calls_parts Let_def, simp)
qed

end

interpretation kernel_gate: dispatch_gate "onProviderDispatch env action recovery resources lease" "dispatched_to env resources action"
  for env action recovery resources lease
  by unfold_locales (rule callback_writes_ahead)

text \<open>
  C6. Dispatch is written ahead. The agent kernel runs an action on the provider runtime; the resource keys of the
  action are fixed. What any provider would do, to whatever part of the world, in a world in which the journal does
  not hold the entry of the action as dispatched to that very provider, or in which the resources of a mutation are
  not in quarantine for it, makes no difference: no provider is called before its dispatch is on disk.
\<close>

theorem dispatch_is_written_ahead:
  assumes "\<And>name v. dispatched_to env resources action name v \<Longrightarrow> calls name action v = rn_execute rn name action v"
    and "\<And>x. ag_keys env action x = Inr resources"
  shows "executeCore (on_runtime env (rn\<lparr>rn_execute := calls\<rparr>) permissions token) action permissions ctx w
    = executeCore (on_runtime env rn permissions token) action permissions ctx w"
proof -
  let ?env = "on_runtime env rn permissions token"
  have journal: "ag_journal ?env = ag_journal env" "ag_keys ?env = ag_keys env" by (simp_all add: on_runtime_def)
  have gate: "dispatched_to ?env resources action name v = dispatched_to env resources action name v" for name v
    by (simp add: dispatched_to_def journal)
  have "on_runtime env (rn\<lparr>rn_execute := calls\<rparr>) permissions token
      = with_runtime ?env (runtime_execute (rn\<lparr>rn_execute := calls\<rparr>) env permissions token)"
    by (simp add: on_runtime_def with_runtime_def calls_parts)
  moreover have "runtime_execute (rn\<lparr>rn_execute := calls\<rparr>) env permissions token action (onProviderDispatch ?env action (cx_recovery ctx) resources lease) v
      = ag_execute ?env action (onProviderDispatch ?env action (cx_recovery ctx) resources lease) v" for lease v
  proof -
    have "runtime_execute (rn\<lparr>rn_execute := calls\<rparr>) env permissions token action (onProviderDispatch ?env action (cx_recovery ctx) resources lease) v
      = runtime_execute rn env permissions token action (onProviderDispatch ?env action (cx_recovery ctx) resources lease) v"
      by (rule kernel_gate.runtime_execute_gated) (simp add: gate assms(1))
    then show ?thesis by (simp add: on_runtime_def)
  qed
  ultimately show ?thesis using executeCore_same [of _ action ?env ctx resources] assms(2) journal by simp
qed

section \<open>Reconciliation\<close>

lemma result_contract_Inr:
  "assertProviderResultContract r capability name = Inr r' \<Longrightarrow>
   r' = r \<and> ar_capability r = capability \<and> ar_provider r = name \<and> (ar_ok r \<longrightarrow> ar_error r = None)"
  by (auto simp: assertProviderResultContract_def split: if_split_asm)

definition source_bound :: "string \<Rightarrow> string \<Rightarrow> ProviderReconciliationResult \<Rightarrow> bool" where
  "source_bound capability name rec =
     (case pr_result rec of None \<Rightarrow> pr_status rec \<noteq> RecCompleted
      | Some r \<Rightarrow> pr_status rec = RecCompleted \<and> ar_ok r \<and> ar_error r = None \<and> ar_capability r = capability \<and> ar_provider r = name)"

lemma reconciliation_contract_Inr:
  "assertProviderReconciliationContract v capability name = Inr v' \<Longrightarrow> v' = v \<and> source_bound capability name v"
  by (auto simp: assertProviderReconciliationContract_def source_bound_def Let_def split: if_split_asm sum.split_asm option.split_asm option.split
      dest!: result_contract_Inr)

lemma cancelled_source_bound: "source_bound capability name (cancelledReconciliation now p boundary)"
  by (simp add: source_bound_def cancelledReconciliation_def)

text \<open>
  C23. A reconciliation outcome is bound to its source: whatever the runtime returns as the outcome of reconciling an
  action with a provider is a completion exactly when it carries a result, and that result is a success without an
  error, for the capability of the action and from the provider that was asked.
\<close>

theorem reconciliation_is_source_bound:
  assumes "runtime_reconcile rn env action name prior x = (Inr rec, x')"
  shows "source_bound (aq_capability action) name rec"
  using assms cancelled_source_bound
  by (auto simp: runtime_reconcile_def Let_def split: if_split_asm sum.split_asm option.split_asm prod.split_asm
      dest: reconciliation_contract_Inr)

section \<open>Registry and policies\<close>

interpretation provider_registry: transactional_store "\<lambda>ps p. register_provider p ps"
  "\<lambda>ps. distinct (map cp_name ps) \<and> list_all (\<lambda>p. provider_name (cp_name p)) ps" "\<lambda>_ _. True"
  by unfold_locales (fastforce simp: register_provider_def list_ex_iff split: if_split_asm)

text \<open>The check that runs when the module is loaded passes: every mutable built-in capability has one reconciliation policy.\<close>

lemma mutation_policies_complete: "assertCanonicalMutationPolicies = Inr ()"
  by code_simp

section \<open>A concrete runtime\<close>

definition demo_provider :: "string \<Rightarrow> bool \<Rightarrow> unit CapabilityProvider" where
  "demo_provider name supported = \<lparr>cp_name = name, cp_capabilitySchemas = None, cp_supports = (\<lambda>_ _. Inr supported), cp_advertises = None,
     cp_score = (\<lambda>_ _. Inl (OtherError ''unused'')), cp_resolveRisk = None, cp_reconciles = True\<rparr>"

definition demo_ranked :: "string \<Rightarrow> bool \<Rightarrow> unit ranked" where
  "demo_ranked name supported = \<lparr>rk_provider = demo_provider name supported, rk_score = 1, rk_baseScore = 1, rk_learnedAdjustment = 0\<rparr>"

definition demo_runtime :: "unit runtime_env" where
  "demo_runtime = \<lparr>rn_providers = [demo_provider ''p'' True], rn_learning = None, rn_learningContext = None, rn_round = id,
     rn_number = (\<lambda>_. JNum 1), rn_collate = id, rn_elapsed = (\<lambda>_. 1), rn_string = (\<lambda>_. ''m''), rn_explain = (\<lambda>_. OtherError ''m''),
     rn_execute = (\<lambda>_ _ w. (Inr demo_result, w)),
     rn_reconcile = (\<lambda>_ _ _ x. (Inr \<lparr>pr_status = RecCompleted, pr_result = Some demo_result, pr_evidence = []\<rparr>, x))\<rparr>"


text \<open>Calls that would answer from memory when the action is not recorded as dispatched.\<close>

definition remembering_calls :: "string \<Rightarrow> ActionRequest \<Rightarrow> unit agent_world \<Rightarrow> (thrown + ActionResult) \<times> unit agent_world" where
  "remembering_calls name a w =
     (if map_option je_state (entry_of demo_agent w a) = Some JDispatched then rn_execute demo_runtime name a w
      else (Inl (OtherError ''not dispatched''), w))"

theorem dispatch_is_written_ahead_witness:
  "executeCore (on_runtime demo_agent (demo_runtime\<lparr>rn_execute := remembering_calls\<rparr>) demo_profile None) demo_mutation_request demo_profile demo_context demo_agent_world
   = executeCore (on_runtime demo_agent demo_runtime demo_profile None) demo_mutation_request demo_profile demo_context demo_agent_world"
  by (rule dispatch_is_written_ahead [of demo_agent "[''file:/a'']"]) (auto simp: remembering_calls_def dispatched_to_def)

theorem reconciliation_is_source_bound_witness:
  "source_bound ''file.write'' ''p'' \<lparr>pr_status = RecCompleted, pr_result = Some demo_result, pr_evidence = []\<rparr>"
proof -
  have "inertJson (JObj [(''verificationDigest'', JStr (demo_digest CHR ''b''))])" by (simp add: inertJson_def)
  then have "runtime_reconcile demo_runtime demo_agent demo_mutation_request ''p'' None ()
      = (Inr \<lparr>pr_status = RecCompleted, pr_result = Some demo_result, pr_evidence = []\<rparr>, ())"
    by (simp add: runtime_reconcile_def demo_runtime_def demo_agent_def demo_provider_def find_provider_def Let_def
        assertProviderReconciliationContract_def assertProviderResultContract_def demo_result_def evidence_contract_def)
  from reconciliation_is_source_bound [OF this] show ?thesis by simp
qed

end
