(* ===== verification/Spec2Isabelle.thy ===== *)
theory Spec2Isabelle
  imports TaskCapsule RateLimit PlanRestart TeamEffects Intents RuntimeSafety
begin

text \<open>
  Operator runtime: a verification library for the core of the repository.

  The program lets agents act on a machine. An \<^emph>\<open>action\<close> (a capability with a risk, an input, a provenance
  and perhaps a binding to a conversation intent) is executed by the \<^emph>\<open>agent kernel\<close>
  (\<open>src/core/agent-kernel.ts\<close>): it checks that the intent is current, asks the \<^emph>\<open>authority kernel\<close> for a
  grant, records the action in the durable \<^emph>\<open>action transition journal\<close>, takes \<^emph>\<open>resource leases\<close>, lets the
  provider runtime (\<open>src/core/runtime.ts\<close>) try the ranked providers behind a dispatch callback, reconciles an
  uncertain outcome, verifies the result
  with the \<^emph>\<open>verification kernel\<close> and completes the entry. Above it stand the workflow engines: the
  \<^emph>\<open>task capsule\<close> (nodes with a dependency gate), the \<^emph>\<open>durable saga\<close> (steps with compensations), the
  \<^emph>\<open>team coordinator\<close> (missions of work items claimed by workers) and the \<^emph>\<open>verified plan runtime\<close> (plan graphs
  bound to beliefs, with revisions and restart). The \<^emph>\<open>rate limiter\<close> guards the servers.

  \<^bold>\<open>Theories and sources\<close> (core files are under \<open>src/core\<close>, plan files under
  \<open>packages/verified-plan-runtime/src\<close>).

  \<^item> \<open>Prelude\<close>: thrown errors, insertion-ordered maps, folds that throw, string tests, and the interface
    \<open>transactional_store\<close>: steps that keep an invariant keep it along every history. Every stateful component
    interprets it on its own steps.
  \<^item> \<open>ActionModel\<close>: \<open>types.ts\<close>, \<open>evidence.ts\<close>, \<open>provenance.ts\<close>, \<open>side-effect.ts\<close>, \<open>capability-policy.ts\<close>.
  \<^item> \<open>Paths\<close>, \<open>ResourceIdentity\<close>: \<open>scoped-path-syntax.ts\<close> and \<open>resource-identity.ts\<close>: the path operands and lock
    keys of every capability, the conflict relation on keys (an instance of \<open>conflict_table\<close> of \<open>Leases\<close>).
  \<^item> \<open>Authority\<close>: \<open>policy.ts\<close> and \<open>authority-kernel.ts\<close>; the locale \<open>attenuation\<close> (what a narrower grant permits,
    a wider one permits) is interpreted on the risk ceiling, the capability patterns and the path roots.
  \<^item> \<open>ProcessInstance\<close>, \<open>Leases\<close>: \<open>process-instance.ts\<close> and \<open>resource-leases.ts\<close>.
  \<^item> \<open>VerificationKernel\<close>: \<open>verification-kernel.ts\<close>.
  \<^item> \<open>ActionJournal\<close>, \<open>JournalInv\<close>, \<open>JournalSafety\<close>: \<open>action-transition-journal.ts\<close> and
    \<open>action-verification.ts\<close>: the model; lookups, valid files and the abstract life cycle of an entry; histories and
    their properties.
  \<^item> \<open>AgentKernel\<close>, \<open>AgentSafety\<close>: \<open>agent-kernel.ts\<close>, composed of the models of authority, leases and journal.
  \<^item> \<open>Runtime\<close>, \<open>RuntimeSafety\<close>: \<open>runtime.ts\<close>, \<open>router.ts\<close>, \<open>provider-result-contract.ts\<close>,
    \<open>reconciliation-coverage.ts\<close>: the runtime as an argument of the agent kernel (\<open>on_runtime\<close>); the locale
    \<open>dispatch_gate\<close> is what it relies on of the dispatch callback, interpreted on the callback of the agent kernel.
  \<^item> \<open>Intents\<close>: \<open>intent-kernel.ts\<close> and \<open>intent-registry.ts\<close>.
  \<^item> \<open>TaskCapsule\<close>: \<open>task.ts\<close>. \<open>RateLimit\<close>: \<open>rate-limit.ts\<close>. \<open>Saga\<close>: \<open>durable-saga.ts\<close>.
  \<^item> \<open>Lineage\<close>, \<open>PlanGraph\<close>, \<open>PlanControl\<close>, \<open>PlanRevision\<close>, \<open>PlanRuntime\<close>, \<open>PlanRestart\<close>: the plan runtime, from
    canonical texts and digests to graphs, belief binding, monitoring, choices, commits, revisions, the runtime
    and its restart envelope.
  \<^item> \<open>TeamModel\<close>, \<open>TeamInv\<close>, \<open>TeamSteps\<close>, \<open>TeamDemo\<close>, \<open>Team\<close>, \<open>TeamEffects\<close>: \<open>team-coordinator.ts\<close>: the model;
    the invariant of work, locks and budget; that every operation keeps it; a concrete mission; mission and
    store histories; receipts, blackboard and verifier completion.

  \<^bold>\<open>State and operations.\<close> A class with private fields is a record and its methods are functions that return the
  new record with their result; a durable file is a value (missing, unreadable or stored) and a mutation reads,
  validates, changes, validates and writes it under the lock that serialises mutations. A thrown error is the
  left summand of a result; an operation that writes before it throws returns the written state as well. In
  the journal and agent theories a program maps a world to a result and a world; in the saga theory the world
  also keeps every version of the file that was written, because a crash leaves the file at one of them.

  \<^bold>\<open>What the theorems show.\<close>

  \<^item> Actions: what the authority kernel grants satisfies every policy condition, tokens only narrow; only actions
    that are granted, current and without an unsettled earlier dispatch reach the provider runtime, whatever
    that runtime would do with others; a success reported by the agent kernel is a completed entry on disk; no
    provider is called before its dispatch is on disk and the resources are fenced; a mutation moves to another
    provider only after failures without effect; only the newest intent of a conversation authorises progress.
  \<^item> Journal: with faults at every completion point and failing file removals, entries follow an abstract life
    cycle (a refinement); a completion that fails half way is finished by replay with the same result; an
    interruption and a dispatch exclude each other for ever; a verified completion is final.
  \<^item> Leases: conflicting exclusive leases are never held together, quarantine fences a resource until it is
    cleared, an owner is reaped only on proof of death.
  \<^item> Workflows: dependencies before work, one attempt per plan node, receipts before success, revisions that
    keep only unchanged work, compensation in reverse order, missions verified only by a passing verifier that
    covers all work, team actions dispatched once, no lost update of the blackboard, quotas of the limiter.
  \<^item> Round trips, refinement and termination: restart of the plan runtime, sagas and missions against their life
    cycles, the cycle check and the closure loop against reachability, the walk along revision proofs.
  \<^item> Six theorems show behaviour that the code does not intend: a failed mission that becomes verified, a
    compensation lost when the process dies, a dependency gate disabled by a missing dependency, uncertain side
    effects forgotten on rebinding, a repair that abandons a running child, and an envelope that cannot be read
    back from JSON.

  \<^bold>\<open>Conventions.\<close> Inputs have their TypeScript types, so a test that only rejects values outside the declared
  type is discharged by typing. Canonical ISO timestamps are instants in milliseconds, as integers. Strings are
  sequences of 8-bit code units. The platform is POSIX, except for the Windows flag of the operator review. Numbers
  are integers, or rationals for confidences, costs and risks, which the code only compares. An optional property is
  an option, except in plan node states, where present and undefined differ for the digest. Arguments of the model
  stand for the clock, \<open>randomUUID\<close>, SHA-256, HMAC and signature checks, the collation behind \<open>localeCompare\<close>,
  \<open>Date.parse\<close>, number texts, the rounding of double precision arithmetic, the file system behind path resolution,
  \<open>/proc\<close> and the providers themselves. The agent and team models take the answers of the intent registry as arguments. Hypotheses on them are named where they are used: identifiers are fresh, digests
  are hexadecimal, distinct values have distinct digests where a theorem speaks of altered content. A digest of the
  plan runtime is SHA-256 of the modelled canonical text; a digest of the saga, team and journal is an
  uninterpreted function of exactly the fields that are hashed.

  \<^bold>\<open>Loops and bounds.\<close> Every loop is a total function. The depth-first searches and the closure loop terminate
  because each step takes a node out of the finite rest of the graph, which is their measure. The one loop that need
  not end on malformed data, the walk along the revision proofs, carries as fuel the number of versions between its
  start and the current one and returns None when it runs out; that it always returns on validated proofs, which go
  from a version to the next, is proved. The limits of the code (entries, transitions, bytes, windows) are its
  own constants.

  \<^bold>\<open>Concurrency.\<close> Mutations of one file are atomic. The pieces of the journal operations of several processes
  interleave freely, with a possible stop between any two. One run at a time works on a saga, as its run lock
  arranges; a run of the agent kernel is sequential, with the provider runtime free to call the dispatch callback
  any number of times.

  \<^bold>\<open>Not modelled.\<close> The task orchestrator, planners, plan search and lookahead, and the counterfactual and adaptive
  components: heuristic or floating-point choices whose outcome passes the modelled checks. Capability providers,
  servers, relay, device and enterprise layers, developer tools: process, network, browser and database I/O behind
  the action results. Atomic file replacement and lock files: their contract is the transactional file above. The
  operation trace of the agent kernel, which cannot influence a run. Physical path resolution and process probes
  other than Linux: the answers of the operating system are arguments.
\<close>

end
